(* ===== verification/Prelude.thy ===== *)
theory Prelude
  imports Complex_Main "HOL-Library.Sublist" "HOL-Library.List_Lexorder" "HOL-Library.Char_ord"
begin

text \<open>
  Shared vocabulary of the development: the result type of a Python function that may raise,
  sequencing of such results, Python slices, first-occurrence union of lists, ordered
  dictionaries as association lists, and the interfaces (locales) that several components
  interpret: an invariant kept by every step of a component, and a status latch that no
  update of a record may leave once it is terminal.
\<close>

named_theorems res_simps \<open>equations that sequence results\<close>
named_theorems inv_intros \<open>preservation of a component's invariant, one rule per operation\<close>

subsection \<open>Results\<close>

text \<open>An exception is a value; the constructor is the exception class, the string its message.\<close>

datatype exn = ValueError string | KeyError string | RuntimeError string | TypeError string

type_synonym 'a res = "exn + 'a"

fun rbind :: "'e + 'a \<Rightarrow> ('a \<Rightarrow> 'e + 'b) \<Rightarrow> 'e + 'b" where
  "rbind (Inl e) f = Inl e"
| "rbind (Inr a) f = f a"

definition ensure :: "bool \<Rightarrow> 'e \<Rightarrow> 'e + unit" where
  "ensure c e = (if c then Inr () else Inl e)"

fun rmap :: "('a \<Rightarrow> 'e + 'b) \<Rightarrow> 'a list \<Rightarrow> 'e + 'b list" where
  "rmap f [] = Inr []"
| "rmap f (x # xs) = rbind (f x) (\<lambda>y. rbind (rmap f xs) (\<lambda>ys. Inr (y # ys)))"

fun rfold :: "('a \<Rightarrow> 's \<Rightarrow> 'e + 's) \<Rightarrow> 'a list \<Rightarrow> 's \<Rightarrow> 'e + 's" where
  "rfold f [] s = Inr s"
| "rfold f (x # xs) s = rbind (f x s) (rfold f xs)"

text \<open>A loop that only checks: the first exception ends it.\<close>

fun for_each :: "('a \<Rightarrow> 'e + unit) \<Rightarrow> 'a list \<Rightarrow> 'e + unit" where
  "for_each f [] = Inr ()"
| "for_each f (x # xs) = rbind (f x) (\<lambda>_. for_each f xs)"

definition is_ok :: "'e + 'a \<Rightarrow> bool" where
  "is_ok r = (case r of Inl _ \<Rightarrow> False | Inr _ \<Rightarrow> True)"

lemma is_ok_simps [simp]: "is_ok (Inr a)" "\<not> is_ok (Inl e)"
  by (simp_all add: is_ok_def)

lemma rbind_cong [fundef_cong]:
  "r = r' \<Longrightarrow> (\<And>a. r' = Inr a \<Longrightarrow> f a = g a) \<Longrightarrow> rbind r f = rbind r' g"
  by (cases r') auto

lemma rbind_Inr_iff [res_simps]: "rbind r f = Inr b \<longleftrightarrow> (\<exists>a. r = Inr a \<and> f a = Inr b)"
  by (cases r) auto

lemma rbind_Inl_iff: "rbind r f = Inl e \<longleftrightarrow> r = Inl e \<or> (\<exists>a. r = Inr a \<and> f a = Inl e)"
  by (cases r) auto

lemma ensure_Inr_iff [res_simps]: "ensure c e = Inr u \<longleftrightarrow> c"
  by (simp add: ensure_def)

lemma ensure_True [simp]: "ensure True e = Inr ()"
  by (simp add: ensure_def)

lemma ensure_False [simp]: "ensure False e = Inl e"
  by (simp add: ensure_def)

lemma rbind_ensure: "rbind (ensure c e) f = (if c then f () else Inl e)"
  by (simp add: ensure_def)

lemma rmap_Inr_iff [res_simps]:
  "rmap f xs = Inr ys \<longleftrightarrow> list_all2 (\<lambda>x y. f x = Inr y) xs ys"
  by (induction xs arbitrary: ys) (auto simp: rbind_Inr_iff list_all2_Cons1)

lemma for_each_Inr_iff [res_simps]: "for_each f xs = Inr u \<longleftrightarrow> (\<forall>x \<in> set xs. f x = Inr ())"
  by (induction xs) (auto simp: rbind_Inr_iff)

lemma list_all2_target: "list_all2 P xs ys \<Longrightarrow> y \<in> set ys \<Longrightarrow> \<exists>x \<in> set xs. P x y"
  by (induction rule: list_all2_induct) auto

lemma list_all2_source: "list_all2 P xs ys \<Longrightarrow> x \<in> set xs \<Longrightarrow> \<exists>y \<in> set ys. P x y"
  by (induction rule: list_all2_induct) auto

lemma rmap_units: "list_all2 (\<lambda>x u. f x = Inr ()) xs us \<Longrightarrow> x \<in> set xs \<Longrightarrow> f x = Inr ()"
  by (induction rule: list_all2_induct) auto

lemma rmap_all_ok: "(\<And>x. x \<in> set xs \<Longrightarrow> f x = Inr (g x)) \<Longrightarrow> rmap f xs = Inr (map g xs)"
  by (induction xs) auto

lemma rfold_append: "rfold f (xs @ ys) s = rbind (rfold f xs s) (rfold f ys)"
proof (induction xs arbitrary: s)
  case (Cons x xs)
  then show ?case by (cases "f x s") auto
qed simp

text \<open>An invariant of the state survives a fold when each step keeps it.\<close>

lemma rfold_invariant:
  assumes "rfold f xs s = Inr t" and "I s"
    and "\<And>x a b. x \<in> set xs \<Longrightarrow> I a \<Longrightarrow> f x a = Inr b \<Longrightarrow> I b"
  shows "I t"
  using assms
proof (induction xs arbitrary: s)
  case Nil
  then show ?case by simp
next
  case (Cons x xs)
  then obtain a where "f x s = Inr a" "rfold f xs a = Inr t"
    by (auto simp: rbind_Inr_iff)
  with Cons show ?case
    by (metis list.set_intros)
qed

subsection \<open>Slices and lists\<close>

text \<open>\<open>xs[-n:]\<close> for a positive \<open>n\<close>: the last \<open>n\<close> elements.\<close>

definition take_last :: "nat \<Rightarrow> 'a list \<Rightarrow> 'a list" where
  "take_last n xs = drop (length xs - n) xs"

lemma length_take_last [simp]: "length (take_last n xs) = min n (length xs)"
  by (simp add: take_last_def min_def)

lemma take_last_all [simp]: "length xs \<le> n \<Longrightarrow> take_last n xs = xs"
  by (simp add: take_last_def)

lemma take_last_drop_one: "length xs = Suc n \<Longrightarrow> take_last n xs = tl xs"
  by (cases xs) (auto simp: take_last_def)

lemma set_take_last: "set (take_last n xs) \<subseteq> set xs"
  by (simp add: take_last_def set_drop_subset)

lemma distinct_take_last: "distinct (map f xs) \<Longrightarrow> distinct (map f (take_last n xs))"
  by (simp add: take_last_def drop_map [symmetric])

lemma take_last_suffix: "suffix (take_last n xs) xs"
  by (simp add: take_last_def suffix_drop)

text \<open>Append the elements whose key has not been seen yet, in order of first occurrence.\<close>

fun union_by :: "('a \<Rightarrow> 'k) \<Rightarrow> 'a list \<Rightarrow> 'a list \<Rightarrow> 'a list" where
  "union_by key acc [] = acc"
| "union_by key acc (x # xs) =
     union_by key (if key x \<in> key ` set acc then acc else acc @ [x]) xs"

lemma union_by_prefix: "\<exists>zs. union_by key acc xs = acc @ zs \<and> set zs \<subseteq> set xs"
proof (induction xs arbitrary: acc)
  case (Cons x xs)
  show ?case
  proof (cases "key x \<in> key ` set acc")
    case True
    then show ?thesis using Cons [of acc] by auto
  next
    case False
    obtain zs where "union_by key (acc @ [x]) xs = acc @ x # zs" "set zs \<subseteq> set xs"
      using Cons [of "acc @ [x]"] by auto
    with False show ?thesis by (intro exI [of _ "x # zs"]) auto
  qed
qed simp

lemma union_by_distinct:
  "distinct (map key acc) \<Longrightarrow> distinct (map key (union_by key acc xs))"
  by (induction xs arbitrary: acc) auto

lemma union_by_keys: "key ` set (union_by key acc xs) = key ` set acc \<union> key ` set xs"
  by (induction xs arbitrary: acc) auto

lemma union_by_set_subset: "set (union_by key acc xs) \<subseteq> set acc \<union> set xs"
  using union_by_prefix [of key acc xs] by auto

lemma union_by_absorb:
  "key ` set xs \<subseteq> key ` set acc \<Longrightarrow> union_by key acc xs = acc"
  by (induction xs arbitrary: acc) auto

lemma union_by_id: "distinct (map key (acc @ xs)) \<Longrightarrow> union_by key acc xs = acc @ xs"
  by (induction xs arbitrary: acc) (auto simp: image_iff)

lemma union_by_append: "union_by key acc (xs @ ys) = union_by key (union_by key acc xs) ys"
  by (induction xs arbitrary: acc) auto

lemma union_by_replay: "union_by key (union_by key acc xs) xs = union_by key acc xs"
  by (rule union_by_absorb) (auto simp: union_by_keys)

subsection \<open>Ordered dictionaries\<close>

text \<open>
  A Python dict keeps insertion order: assigning an existing key keeps its place, a new key
  goes to the end.
\<close>

type_synonym ('k, 'v) odict = "('k \<times> 'v) list"

fun dset :: "'k \<Rightarrow> 'v \<Rightarrow> ('k, 'v) odict \<Rightarrow> ('k, 'v) odict" where
  "dset k v [] = [(k, v)]"
| "dset k v ((k', v') # d) = (if k = k' then (k, v) # d else (k', v') # dset k v d)"

definition dmerge :: "('k, 'v) odict \<Rightarrow> ('k, 'v) odict \<Rightarrow> ('k, 'v) odict" where
  "dmerge d e = foldl (\<lambda>a (k, v). dset k v a) d e"

definition ddel :: "'k \<Rightarrow> ('k, 'v) odict \<Rightarrow> ('k, 'v) odict" where
  "ddel k d = filter (\<lambda>(k', _). k' \<noteq> k) d"

lemma map_of_dset [simp]: "map_of (dset k v d) = (map_of d)(k \<mapsto> v)"
  by (induction d) auto

lemma keys_dset: "fst ` set (dset k v d) = insert k (fst ` set d)"
proof (induction d)
  case (Cons p d)
  then show ?case by (cases "k = fst p"; cases p) auto
qed simp

lemma distinct_dset: "distinct (map fst d) \<Longrightarrow> distinct (map fst (dset k v d))"
  by (induction d) (auto simp: keys_dset)

lemma length_dset: "length (dset k v d) \<le> Suc (length d)"
  by (induction d) auto

lemma dmerge_Nil [simp]: "dmerge d [] = d"
  by (simp add: dmerge_def)

lemma dmerge_Cons [simp]: "dmerge d ((k, v) # e) = dmerge (dset k v d) e"
  by (simp add: dmerge_def)

lemma distinct_dmerge: "distinct (map fst d) \<Longrightarrow> distinct (map fst (dmerge d e))"
  by (induction e arbitrary: d) (auto simp: distinct_dset)

lemma map_of_dmerge:
  "distinct (map fst e) \<Longrightarrow> map_of (dmerge d e) = map_of d ++ map_of e"
proof (induction e arbitrary: d)
  case (Cons p e)
  obtain k v where [simp]: "p = (k, v)" by (cases p)
  from Cons.prems have "map_of e k = None"
    by (auto simp: map_of_eq_None_iff)
  with Cons show ?case
    by (auto simp: map_add_def split: option.splits)
qed simp

lemma map_of_ddel: "map_of (ddel k d) = (map_of d)(k := None)"
  by (induction d) (auto simp: ddel_def)

lemma distinct_ddel: "distinct (map fst d) \<Longrightarrow> distinct (map fst (ddel k d))"
  by (simp add: ddel_def distinct_map_filter)

subsection \<open>Interfaces\<close>

text \<open>
  A component whose operations may fail and leave the state alone when they do (a rolled back
  transaction, a raised exception): the run of a list of operations.
\<close>

definition attempt_op :: "('s \<Rightarrow> 'op \<Rightarrow> 'e + 's) \<Rightarrow> 's \<Rightarrow> 'op \<Rightarrow> 's" where
  "attempt_op step s op = (case step s op of Inl _ \<Rightarrow> s | Inr t \<Rightarrow> t)"

definition run_ops :: "('s \<Rightarrow> 'op \<Rightarrow> 'e + 's) \<Rightarrow> 's \<Rightarrow> 'op list \<Rightarrow> 's" where
  "run_ops step s ops = foldl (attempt_op step) s ops"

lemma run_ops_simps [simp]:
  "run_ops step s [] = s"
  "run_ops step s (op # ops) = run_ops step (attempt_op step s op) ops"
  by (simp_all add: run_ops_def)

locale invariant_steps =
  fixes step :: "'s \<Rightarrow> 'op \<Rightarrow> 'e + 's"
    and valid :: "'op \<Rightarrow> bool"
    and inv :: "'s \<Rightarrow> bool"
  assumes step_inv: "inv s \<Longrightarrow> valid op \<Longrightarrow> step s op = Inr t \<Longrightarrow> inv t"
begin

lemma attempt_inv: "inv s \<Longrightarrow> valid op \<Longrightarrow> inv (attempt_op step s op)"
  by (auto simp: attempt_op_def intro: step_inv split: sum.splits)

lemma run_inv: "inv s \<Longrightarrow> list_all valid ops \<Longrightarrow> inv (run_ops step s ops)"
  by (induction ops arbitrary: s) (auto simp: attempt_inv)

end

text \<open>
  A contract that relates the state before a step to the state after it, kept by every step
  and closed under composition: a counter that never goes back, a terminal status that never
  changes.
\<close>

locale monotone_steps = invariant_steps step valid inv
  for step :: "'s \<Rightarrow> 'op \<Rightarrow> 'e + 's" and valid :: "'op \<Rightarrow> bool" and inv :: "'s \<Rightarrow> bool" +
  fixes le :: "'s \<Rightarrow> 's \<Rightarrow> bool"
  assumes le_refl: "le s s"
    and le_trans: "le s t \<Longrightarrow> le t u \<Longrightarrow> le s u"
    and step_le: "inv s \<Longrightarrow> valid op \<Longrightarrow> step s op = Inr t \<Longrightarrow> le s t"
begin

lemma attempt_le: "inv s \<Longrightarrow> valid op \<Longrightarrow> le s (attempt_op step s op)"
  by (auto simp: attempt_op_def intro: step_le le_refl split: sum.splits)

lemma run_le: "inv s \<Longrightarrow> list_all valid ops \<Longrightarrow> le s (run_ops step s ops)"
proof (induction ops arbitrary: s)
  case Nil
  then show ?case by (simp add: le_refl)
next
  case (Cons op ops)
  then have "le (attempt_op step s op) (run_ops step (attempt_op step s op) ops)"
    by (simp add: attempt_inv)
  with Cons.prems show ?case
    by (auto intro: le_trans attempt_le)
qed

end

end
