(* ===== verification/Py_Value.thy ===== *)
theory Py_Value
  imports Prelude "HOL-Library.Word"
begin

text \<open>
  The Python values the engine stores in checkpoints and JSON columns, and the parts of the
  standard library it applies to them: \<open>str.strip\<close>, \<open>str.encode\<close>, \<open>json.dumps\<close>,
  \<open>float.__repr__\<close> and \<open>hashlib.sha256\<close>.

  A \<open>str\<close> is a list of characters, so code points stop at 255; a dict is an ordered
  association list whose keys are strings (a decoded JSON document has no others); a finite
  float is its exact rational value (the two zeros are not told apart); a value of a type that
  JSON does not have is \<open>POther\<close> with its class name.
\<close>

unbundle bit_operations_syntax

subsection \<open>Values\<close>

datatype pyfloat = FFin rat | FInf bool | FNan

datatype pyval =
    PNone
  | PBool bool
  | PInt int
  | PFloat pyfloat
  | PStr string
  | PList "pyval list"
  | PDict "(string \<times> pyval) list"
  | POther string

type_synonym pydict = "(string, pyval) odict"

text \<open>\<open>d.get(k)\<close>: a missing key reads as \<open>None\<close>.\<close>

definition dget :: "pydict \<Rightarrow> string \<Rightarrow> pyval" where
  "dget d k = (case map_of d k of None \<Rightarrow> PNone | Some v \<Rightarrow> v)"

definition dhas :: "pydict \<Rightarrow> string \<Rightarrow> bool" where
  "dhas d k = (map_of d k \<noteq> None)"

fun truthy :: "pyval \<Rightarrow> bool" where
  "truthy PNone = False"
| "truthy (PBool b) = b"
| "truthy (PInt i) = (i \<noteq> 0)"
| "truthy (PFloat f) = (f \<noteq> FFin 0)"
| "truthy (PStr s) = (s \<noteq> [])"
| "truthy (PList xs) = (xs \<noteq> [])"
| "truthy (PDict d) = (d \<noteq> [])"
| "truthy (POther _) = True"

fun is_str :: "pyval \<Rightarrow> bool" where
  "is_str (PStr _) = True"
| "is_str _ = False"

fun str_of :: "pyval \<Rightarrow> string" where
  "str_of (PStr s) = s"
| "str_of _ = []"

definition nul_free :: "string \<Rightarrow> bool" where
  "nul_free s = (CHR 0x00 \<notin> set s)"

text \<open>\<open>int.bit_length() > 256\<close>.\<close>

definition wide_int :: "int \<Rightarrow> bool" where
  "wide_int i = (2 ^ 256 \<le> \<bar>i\<bar>)"

fun float_finite :: "pyfloat \<Rightarrow> bool" where
  "float_finite (FFin _) = True"
| "float_finite _ = False"

text \<open>ASCII and Latin-1 whitespace, as \<open>str.strip\<close> removes it.\<close>

definition is_space :: "char \<Rightarrow> bool" where
  "is_space c = (of_char c \<in> {9, 10, 11, 12, 13, 28, 29, 30, 31, 32, 133, 160 :: nat})"

definition strip :: "string \<Rightarrow> string" where
  "strip s = rev (dropWhile is_space (rev (dropWhile is_space s)))"

definition blank :: "string \<Rightarrow> bool" where
  "blank s = (strip s = [])"

lemma blank_iff: "blank s \<longleftrightarrow> (\<forall>c \<in> set s. is_space c)"
proof -
  have "rev (dropWhile is_space (rev t)) = [] \<longleftrightarrow> (\<forall>c \<in> set t. is_space c)" for t
    by (metis dropWhile_eq_Nil_conv rev_is_Nil_conv set_rev)
  then show ?thesis
    unfolding blank_def strip_def
    by (metis (no_types, lifting) dropWhile_eq_Nil_conv hd_dropWhile list.set_sel(1) set_dropWhileD)
qed

lemma dget_Some [simp]: "map_of d k = Some v \<Longrightarrow> dget d k = v"
  by (simp add: dget_def)

lemma dget_None [simp]: "map_of d k = None \<Longrightarrow> dget d k = PNone"
  by (simp add: dget_def)

lemma dget_dset: "dget (dset k v d) k' = (if k' = k then v else dget d k')"
  by (simp add: dget_def)

lemma dget_dmerge:
  "distinct (map fst e) \<Longrightarrow>
   dget (dmerge d e) k = (if dhas e k then dget e k else dget d k)"
  by (auto simp: dget_def dhas_def map_of_dmerge map_add_def split: option.splits)

text \<open>The number of values in a value, itself included.\<close>

fun json_nodes :: "pyval \<Rightarrow> nat" where
  "json_nodes (PDict d) = Suc (sum_list (map (\<lambda>kv. json_nodes (snd kv)) d))"
| "json_nodes (PList xs) = Suc (sum_list (map json_nodes xs))"
| "json_nodes _ = 1"

lemma json_nodes_pos: "1 \<le> json_nodes v"
  by (cases v) auto

subsection \<open>Decimal text\<close>

definition digit_char :: "nat \<Rightarrow> char" where
  "digit_char n = char_of (48 + n)"

fun nat_text :: "nat \<Rightarrow> string" where
  "nat_text n = (if n < 10 then [digit_char n] else nat_text (n div 10) @ [digit_char (n mod 10)])"

declare nat_text.simps [simp del]

definition int_text :: "int \<Rightarrow> string" where
  "int_text i = (if i < 0 then ''-'' @ nat_text (nat (- i)) else nat_text (nat i))"

definition hex_char :: "nat \<Rightarrow> char" where
  "hex_char n = (if n < 10 then char_of (48 + n) else char_of (87 + n))"

definition pad_left :: "nat \<Rightarrow> string \<Rightarrow> string" where
  "pad_left n s = replicate (n - length s) (CHR ''0'') @ s"

subsection \<open>Floating-point text\<close>

text \<open>
  \<open>repr(float)\<close> writes the shortest decimal that reads back as the same binary64 value.
  \<open>exp10\<close> finds the decimal exponent, \<open>exp2\<close> the binary one; the fuel covers every
  binary64 value (its decimal exponents lie in \<open>-324 .. 308\<close>, its binary ones in
  \<open>-1074 .. 971\<close>).
\<close>

definition scale10 :: "int \<Rightarrow> rat" where
  "scale10 k = (if 0 \<le> k then 10 ^ nat k else 1 / 10 ^ nat (- k))"

definition scale2 :: "int \<Rightarrow> rat" where
  "scale2 k = (if 0 \<le> k then 2 ^ nat k else 1 / 2 ^ nat (- k))"

fun exp10 :: "nat \<Rightarrow> rat \<Rightarrow> int \<Rightarrow> int" where
  "exp10 0 x e = e"
| "exp10 (Suc n) x e =
     (if 10 \<le> x then exp10 n (x / 10) (e + 1)
      else if x < 1 then exp10 n (x * 10) (e - 1) else e)"

fun exp2 :: "nat \<Rightarrow> rat \<Rightarrow> int \<Rightarrow> rat \<times> int" where
  "exp2 0 x e = (x, e)"
| "exp2 (Suc n) x e =
     (if 2 ^ 53 \<le> x then exp2 n (x / 2) (e + 1)
      else if x < 2 ^ 52 \<and> - 1074 < e then exp2 n (x * 2) (e - 1) else (x, e))"

definition round_half_even :: "rat \<Rightarrow> int" where
  "round_half_even y =
     (let f = \<lfloor>y\<rfloor>; r = y - of_int f
      in if r < 1 / 2 \<or> (r = 1 / 2 \<and> even f) then f else f + 1)"

text \<open>The decimals that round to the double \<open>x = m * 2 ^ k\<close> (ties go to the even mantissa).\<close>

definition reads_back :: "rat \<Rightarrow> rat \<Rightarrow> bool" where
  "reads_back x y =
     (let (m, k) = exp2 2200 x 0;
          up = scale2 k / 2;
          down = (if m = 2 ^ 52 \<and> - 1074 < k then up / 2 else up)
      in if even \<lfloor>m\<rfloor> then x - down \<le> y \<and> y \<le> x + up else x - down < y \<and> y < x + up)"

definition sig_digits :: "rat \<Rightarrow> int \<Rightarrow> nat \<Rightarrow> int" where
  "sig_digits x e n = round_half_even (x * scale10 (int n - 1 - e))"

fun shortest_digits :: "nat \<Rightarrow> nat \<Rightarrow> rat \<Rightarrow> int \<Rightarrow> int \<times> nat" where
  "shortest_digits 0 n x e = (sig_digits x e n, n)"
| "shortest_digits (Suc f) n x e =
     (let d = sig_digits x e n
      in if reads_back x (of_int d * scale10 (e - int n + 1)) then (d, n)
         else shortest_digits f (Suc n) x e)"

definition strip_zeros :: "string \<Rightarrow> string" where
  "strip_zeros s = rev (dropWhile (\<lambda>c. c = CHR ''0'') (rev s))"

definition exponent_text :: "int \<Rightarrow> string" where
  "exponent_text e =
     ''e'' @ (if e < 0 then ''-'' else ''+'') @ pad_left 2 (nat_text (nat \<bar>e\<bar>))"

text \<open>
  Layout of the digits \<open>ds\<close> with the decimal point after position \<open>dp\<close>: positional
  while \<open>-3 \<le> dp \<le> hi\<close>, scientific otherwise; \<open>point\<close> adds \<open>.0\<close> to a whole
  number, as \<open>repr\<close> does and the \<open>g\<close> format does not.
\<close>

definition layout_digits :: "string \<Rightarrow> int \<Rightarrow> int \<Rightarrow> bool \<Rightarrow> string" where
  "layout_digits ds dp hi point =
     (if dp < - 3 \<or> hi < dp
      then take 1 ds @ (if length ds > 1 then ''.'' @ drop 1 ds else []) @ exponent_text (dp - 1)
      else if dp \<le> 0 then ''0.'' @ replicate (nat (- dp)) (CHR ''0'') @ ds
      else if int (length ds) \<le> dp
      then ds @ replicate (nat dp - length ds) (CHR ''0'') @ (if point then ''.0'' else [])
      else take (nat dp) ds @ ''.'' @ drop (nat dp) ds)"

definition rat_repr :: "rat \<Rightarrow> string" where
  "rat_repr x =
     (if x = 0 then ''0.0''
      else let a = \<bar>x\<bar>; e = exp10 400 a 0; (d, n) = shortest_digits 16 1 a e;
               full = nat_text (nat d); dp = e - int n + 1 + int (length full)
           in (if x < 0 then ''-'' else []) @ layout_digits (strip_zeros full) dp 16 True)"

definition rat_fmt_g :: "rat \<Rightarrow> string" where
  "rat_fmt_g x =
     (if x = 0 then ''0''
      else let a = \<bar>x\<bar>; e = exp10 400 a 0; full = nat_text (nat (sig_digits a e 6));
               dp = e - 5 + int (length full)
           in (if x < 0 then ''-'' else []) @ layout_digits (strip_zeros full) dp 6 False)"

fun float_repr :: "pyfloat \<Rightarrow> string" where
  "float_repr (FFin x) = rat_repr x"
| "float_repr (FInf neg) = (if neg then ''-Infinity'' else ''Infinity'')"
| "float_repr FNan = ''NaN''"

subsection \<open>\<open>json.dumps\<close> with compact separators\<close>

definition hex4 :: "nat \<Rightarrow> string" where
  "hex4 n = [hex_char (n div 4096 mod 16), hex_char (n div 256 mod 16),
             hex_char (n div 16 mod 16), hex_char (n mod 16)]"

definition json_char :: "bool \<Rightarrow> char \<Rightarrow> string" where
  "json_char ascii c =
     (let n = of_char c :: nat
      in if n = 34 then [char_of (92::nat), char_of (34::nat)]
         else if n = 92 then [char_of (92::nat), char_of (92::nat)]
         else if n = 10 then char_of (92::nat) # ''n''
         else if n = 13 then char_of (92::nat) # ''r''
         else if n = 9 then char_of (92::nat) # ''t''
         else if n = 12 then char_of (92::nat) # ''f''
         else if n = 8 then char_of (92::nat) # ''b''
         else if n < 32 \<or> (ascii \<and> 126 < n) then char_of (92::nat) # ''u'' @ hex4 n
         else [c])"

definition json_text :: "bool \<Rightarrow> string \<Rightarrow> string" where
  "json_text ascii s = char_of (34::nat) # concat (map (json_char ascii) s) @ [char_of (34::nat)]"

fun join :: "string \<Rightarrow> string list \<Rightarrow> string" where
  "join sep [] = []"
| "join sep [s] = s"
| "join sep (s # t # ss) = s @ sep @ join sep (t # ss)"

text \<open>
  \<open>json.dumps(value, sort_keys=sk, ensure_ascii=ascii, separators=(",", ":"))\<close>; \<open>None\<close>
  where a value has no JSON form (a \<open>TypeError\<close>), and, when \<open>nan\<close> is not allowed, where a
  float is not finite (a \<open>ValueError\<close>).
\<close>

fun json_dumps :: "bool \<Rightarrow> bool \<Rightarrow> bool \<Rightarrow> pyval \<Rightarrow> string option" where
  "json_dumps sk ascii nan PNone = Some ''null''"
| "json_dumps sk ascii nan (PBool b) = Some (if b then ''true'' else ''false'')"
| "json_dumps sk ascii nan (PInt i) = Some (int_text i)"
| "json_dumps sk ascii nan (PFloat f) =
     (if nan \<or> float_finite f then Some (float_repr f) else None)"
| "json_dumps sk ascii nan (PStr s) = Some (json_text ascii s)"
| "json_dumps sk ascii nan (PList xs) =
     (let parts = map (json_dumps sk ascii nan) xs
      in if None \<in> set parts then None else Some (''['' @ join '','' (map the parts) @ '']''))"
| "json_dumps sk ascii nan (PDict d) =
     (let raw = map (\<lambda>(k, v). (k, json_dumps sk ascii nan v)) d;
          parts = (if sk then sort_key fst raw else raw)
      in if None \<in> snd ` set parts then None
         else Some (''{'' @ join '','' (map (\<lambda>(k, p). json_text ascii k @ '':'' @ the p) parts)
                    @ ''}''))"
| "json_dumps sk ascii nan (POther c) = None"

subsection \<open>SHA-256\<close>

text \<open>\<open>str.encode("utf-8")\<close>: a code point above 127 takes two bytes.\<close>

definition utf8_char :: "char \<Rightarrow> string" where
  "utf8_char c =
     (let n = of_char c :: nat
      in if n < 128 then [c] else [char_of (192 + n div 64), char_of (128 + n mod 64)])"

definition utf8 :: "string \<Rightarrow> string" where
  "utf8 s = concat (map utf8_char s)"

type_synonym u32 = "32 word"

definition sha_k :: "u32 list" where
  "sha_k = [
    1116352408, 1899447441, 3049323471, 3921009573, 961987163, 1508970993, 2453635748,
    2870763221, 3624381080, 310598401, 607225278, 1426881987, 1925078388, 2162078206,
    2614888103, 3248222580, 3835390401, 4022224774, 264347078, 604807628, 770255983,
    1249150122, 1555081692, 1996064986, 2554220882, 2821834349, 2952996808, 3210313671,
    3336571891, 3584528711, 113926993, 338241895, 666307205, 773529912, 1294757372, 1396182291,
    1695183700, 1986661051, 2177026350, 2456956037, 2730485921, 2820302411, 3259730800,
    3345764771, 3516065817, 3600352804, 4094571909, 275423344, 430227734, 506948616, 659060556,
    883997877, 958139571, 1322822218, 1537002063, 1747873779, 1955562222, 2024104815,
    2227730452, 2361852424, 2428436474, 2756734187, 3204031479, 3329325298]"

definition sha_init :: "u32 list" where
  "sha_init = [
    1779033703, 3144134277, 1013904242, 2773480762, 1359893119, 2600822924, 528734635,
    1541459225]"

definition rotr :: "nat \<Rightarrow> u32 \<Rightarrow> u32" where
  "rotr n x = (drop_bit n x) OR (push_bit (32 - n) x)"

definition small_sigma0 :: "u32 \<Rightarrow> u32" where
  "small_sigma0 x = rotr 7 x XOR rotr 18 x XOR drop_bit 3 x"

definition small_sigma1 :: "u32 \<Rightarrow> u32" where
  "small_sigma1 x = rotr 17 x XOR rotr 19 x XOR drop_bit 10 x"

definition big_sigma0 :: "u32 \<Rightarrow> u32" where
  "big_sigma0 x = rotr 2 x XOR rotr 13 x XOR rotr 22 x"

definition big_sigma1 :: "u32 \<Rightarrow> u32" where
  "big_sigma1 x = rotr 6 x XOR rotr 11 x XOR rotr 25 x"

fun be_words :: "nat list \<Rightarrow> u32 list" where
  "be_words (a # b # c # d # r) =
     word_of_nat (a * 16777216 + b * 65536 + c * 256 + d) # be_words r"
| "be_words _ = []"

definition be_bytes :: "nat \<Rightarrow> nat \<Rightarrow> nat list" where
  "be_bytes k n = rev (map (\<lambda>i. n div 256 ^ i mod 256) [0..<k])"

text \<open>The padded message: a one bit, zeros up to 56 modulo 64, the bit length in eight bytes.\<close>

definition sha_pad :: "nat list \<Rightarrow> nat list" where
  "sha_pad bs =
     bs @ 128 # replicate ((119 - length bs mod 64) mod 64) 0 @ be_bytes 8 (8 * length bs)"

text \<open>The message schedule, newest word first.\<close>

fun sha_schedule :: "nat \<Rightarrow> u32 list \<Rightarrow> u32 list" where
  "sha_schedule 0 w = w"
| "sha_schedule (Suc n) w =
     sha_schedule n
       ((small_sigma1 (w ! 1) + w ! 6 + small_sigma0 (w ! 14) + w ! 15) # w)"

fun sha_rounds :: "(u32 \<times> u32) list \<Rightarrow> u32 list \<Rightarrow> u32 list" where
  "sha_rounds ((k, w) # r) [a, b, c, d, e, f, g, h] =
     (let t1 = h + big_sigma1 e + ((e AND f) XOR (NOT e AND g)) + k + w;
          t2 = big_sigma0 a + ((a AND b) XOR (a AND c) XOR (b AND c))
      in sha_rounds r [t1 + t2, a, b, c, d + t1, e, f, g])"
| "sha_rounds _ v = v"

definition sha_block :: "u32 list \<Rightarrow> u32 list \<Rightarrow> u32 list" where
  "sha_block st block =
     map2 (+) st (sha_rounds (zip sha_k (rev (sha_schedule 48 (rev block)))) st)"

fun sha_blocks :: "nat \<Rightarrow> u32 list \<Rightarrow> u32 list \<Rightarrow> u32 list" where
  "sha_blocks 0 st ws = st"
| "sha_blocks (Suc n) st ws = sha_blocks n (sha_block st (take 16 ws)) (drop 16 ws)"

definition sha256 :: "nat list \<Rightarrow> u32 list" where
  "sha256 bs = (let ws = be_words (sha_pad bs) in sha_blocks (length ws div 16) sha_init ws)"

definition word_bytes :: "u32 \<Rightarrow> nat list" where
  "word_bytes w = be_bytes 4 (unat w)"

definition byte_hex :: "nat \<Rightarrow> string" where
  "byte_hex b = [hex_char (b div 16), hex_char (b mod 16)]"

text \<open>\<open>hashlib.sha256(data).digest()\<close> and \<open>hexdigest()\<close> for a byte string.\<close>

definition sha256_digest :: "string \<Rightarrow> nat list" where
  "sha256_digest bs = concat (map word_bytes (sha256 (map of_char bs)))"

definition sha256_hex :: "string \<Rightarrow> string" where
  "sha256_hex bs = concat (map byte_hex (sha256_digest bs))"

subsection \<open>The credential scanner\<close>

text \<open>
  \<open>contains_credential_material(value, max_nodes, max_string_chars, max_total_chars)\<close> of
  src/apex/domain/diagnostics.py decides by regular expressions whether a value holds a secret.
  The definitions that call it take it as an argument of this type; every theorem holds for any
  scanner.
\<close>

type_synonym scanner = "nat \<Rightarrow> nat \<Rightarrow> nat \<Rightarrow> pyval \<Rightarrow> bool"

text \<open>The call with the default limits.\<close>

definition scan :: "scanner \<Rightarrow> pyval \<Rightarrow> bool" where
  "scan cred v = cred 100000 250000 1000000 v"

end
