(* ===== verification/Phases.thy ===== *)
theory Phases
  imports Py_Value
begin

text \<open>
  The seven phases of the pipeline, their canonical order and prerequisites, and the status of
  a phase (src/apex/domain/pipeline.py). The order of the phases is an instance of
  \<open>linorder\<close>, so that a plan is a sorted list.
\<close>

datatype phase =
    STORY_ANALYSIS | TEST_PLANNING | ENV_TRIAGE | SCRIPT_SCENARIO
  | EXECUTION | REPORTING | POSTMORTEM

definition PHASE_ORDER :: "phase list" where
  "PHASE_ORDER = [STORY_ANALYSIS, TEST_PLANNING, ENV_TRIAGE, SCRIPT_SCENARIO,
                  EXECUTION, REPORTING, POSTMORTEM]"

fun phase_value :: "phase \<Rightarrow> string" where
  "phase_value STORY_ANALYSIS = ''story_analysis''"
| "phase_value TEST_PLANNING = ''test_planning''"
| "phase_value ENV_TRIAGE = ''env_triage''"
| "phase_value SCRIPT_SCENARIO = ''script_scenario''"
| "phase_value EXECUTION = ''execution''"
| "phase_value REPORTING = ''reporting''"
| "phase_value POSTMORTEM = ''postmortem''"

fun PHASE_PREREQUISITES :: "phase \<Rightarrow> phase list" where
  "PHASE_PREREQUISITES STORY_ANALYSIS = []"
| "PHASE_PREREQUISITES TEST_PLANNING = [STORY_ANALYSIS]"
| "PHASE_PREREQUISITES ENV_TRIAGE = []"
| "PHASE_PREREQUISITES SCRIPT_SCENARIO = [TEST_PLANNING]"
| "PHASE_PREREQUISITES EXECUTION = [SCRIPT_SCENARIO]"
| "PHASE_PREREQUISITES REPORTING = [EXECUTION]"
| "PHASE_PREREQUISITES POSTMORTEM = [REPORTING]"

datatype phase_status =
    PENDING | RUNNING | AWAITING_PROMPT_REVIEW | AWAITING_HUMAN_COMPLETION
  | AWAITING_OUTPUT_REVIEW | SUCCEEDED | FAILED | SKIPPED | ABORTED

fun status_value :: "phase_status \<Rightarrow> string" where
  "status_value PENDING = ''pending''"
| "status_value RUNNING = ''running''"
| "status_value AWAITING_PROMPT_REVIEW = ''awaiting_prompt_review''"
| "status_value AWAITING_HUMAN_COMPLETION = ''awaiting_human_completion''"
| "status_value AWAITING_OUTPUT_REVIEW = ''awaiting_output_review''"
| "status_value SUCCEEDED = ''succeeded''"
| "status_value FAILED = ''failed''"
| "status_value SKIPPED = ''skipped''"
| "status_value ABORTED = ''aborted''"

definition ALL_STATUSES :: "phase_status list" where
  "ALL_STATUSES = [PENDING, RUNNING, AWAITING_PROMPT_REVIEW, AWAITING_HUMAN_COMPLETION,
                   AWAITING_OUTPUT_REVIEW, SUCCEEDED, FAILED, SKIPPED, ABORTED]"

definition TERMINAL_PHASE_STATUSES :: "phase_status list" where
  "TERMINAL_PHASE_STATUSES = [SUCCEEDED, FAILED, SKIPPED, ABORTED]"

definition PHASE_NAMES :: "string list" where
  "PHASE_NAMES = map phase_value PHASE_ORDER"

definition STATUS_VALUES :: "string list" where
  "STATUS_VALUES = map status_value ALL_STATUSES"

definition TERMINAL_VALUES :: "string list" where
  "TERMINAL_VALUES = map status_value TERMINAL_PHASE_STATUSES"

definition phase_of :: "string \<Rightarrow> phase option" where
  "phase_of s = map_of (map (\<lambda>p. (phase_value p, p)) PHASE_ORDER) s"

text \<open>The canonical position of a phase.\<close>

fun phase_rank :: "phase \<Rightarrow> nat" where
  "phase_rank STORY_ANALYSIS = 0"
| "phase_rank TEST_PLANNING = 1"
| "phase_rank ENV_TRIAGE = 2"
| "phase_rank SCRIPT_SCENARIO = 3"
| "phase_rank EXECUTION = 4"
| "phase_rank REPORTING = 5"
| "phase_rank POSTMORTEM = 6"

lemma phase_rank_inj: "phase_rank p = phase_rank q \<Longrightarrow> p = q"
  by (cases p; cases q) simp_all

instantiation phase :: linorder
begin

definition less_eq_phase :: "phase \<Rightarrow> phase \<Rightarrow> bool" where
  "less_eq_phase p q = (phase_rank p \<le> phase_rank q)"

definition less_phase :: "phase \<Rightarrow> phase \<Rightarrow> bool" where
  "less_phase p q = (phase_rank p < phase_rank q)"

instance
  by standard (auto simp: less_eq_phase_def less_phase_def phase_rank_inj)

end

lemmas phase_order_simps = less_eq_phase_def less_phase_def

lemma PHASE_ORDER_set [simp]: "p \<in> set PHASE_ORDER"
  by (cases p) (simp_all add: PHASE_ORDER_def)

lemma PHASE_ORDER_sorted: "sorted_wrt (<) PHASE_ORDER"
  by (simp add: PHASE_ORDER_def less_phase_def)

lemma PHASE_ORDER_distinct [simp]: "distinct PHASE_ORDER"
  by (simp add: PHASE_ORDER_def)

lemma phase_value_inj: "phase_value p = phase_value q \<longleftrightarrow> p = q"
  by (cases p; cases q) simp_all

lemma phase_of_value [simp]: "phase_of (phase_value p) = Some p"
  by (cases p) (simp_all add: phase_of_def PHASE_ORDER_def)

lemma phase_value_names [simp]: "phase_value p \<in> set PHASE_NAMES"
  by (simp add: PHASE_NAMES_def)

lemma status_value_inj: "status_value a = status_value b \<longleftrightarrow> a = b"
  by (cases a; cases b) simp_all

lemma status_value_known [simp]: "status_value a \<in> set STATUS_VALUES"
  by (cases a) (simp_all add: STATUS_VALUES_def ALL_STATUSES_def)

lemma status_value_terminal [simp]:
  "status_value a \<in> set TERMINAL_VALUES \<longleftrightarrow> a \<in> set TERMINAL_PHASE_STATUSES"
  by (cases a) (simp_all add: TERMINAL_VALUES_def TERMINAL_PHASE_STATUSES_def)

text \<open>A prerequisite comes strictly earlier in the canonical order.\<close>

lemma prerequisite_earlier: "q \<in> set (PHASE_PREREQUISITES p) \<Longrightarrow> q < p"
  by (cases p) (auto simp: less_phase_def)

end
