(* ===== verification/Reducers.thy ===== *)
theory Reducers
  imports Phases
begin

text \<open>
  The reducers of the pipeline state (src/apex/graphs/pipeline/state.py): how an update of a
  channel is merged into its checkpointed value. Values are untyped (\<open>pyval\<close>), as they are in
  the code, and every \<open>raise ValueError\<close> is a branch. The loops over the pending values of
  \<open>_validate_reducer_json\<close> and \<open>_validate_review_entry\<close> count the nodes they have
  visited and stop at their limit, which is their termination argument.
\<close>

definition bad :: "string \<Rightarrow> exn + 'a" where
  "bad m = Inl (ValueError m)"

lemma bad_ne [simp]: "bad m \<noteq> Inr x"
  by (simp add: bad_def)

subsection \<open>Bounded lists and the structural scan\<close>

fun exact_list :: "pyval \<Rightarrow> string \<Rightarrow> pyval list res" where
  "exact_list PNone label = Inr []"
| "exact_list (PList xs) label = Inr xs"
| "exact_list _ label = bad (''checkpointed '' @ label @ '' must be a list'')"

definition bounded_exact_list :: "pyval \<Rightarrow> string \<Rightarrow> nat \<Rightarrow> pyval list res" where
  "bounded_exact_list v label limit =
     rbind (exact_list v label) (\<lambda>raw. Inr (take_last limit raw))"

definition BY_ID_FIELDS :: "string list" where
  "BY_ID_FIELDS = [''approvals'', ''tool_calls'']"

definition PLAIN_LIST_FIELDS :: "string list" where
  "PLAIN_LIST_FIELDS = [''warnings'', ''errors'', ''artifact_ids'']"

definition MAX_DURABLE_ARTIFACTS :: nat where
  "MAX_DURABLE_ARTIFACTS = 256"

definition MAX_DURABLE_DIALOGUE_ENTRIES :: nat where
  "MAX_DURABLE_DIALOGUE_ENTRIES = 256"

definition MAX_REDUCER_JSON_NODES :: nat where
  "MAX_REDUCER_JSON_NODES = 4096"

definition phase_list_limit :: "string \<Rightarrow> nat" where
  "phase_list_limit field =
     (if field = ''tool_calls'' then 80
      else if field = ''approvals'' then 256
      else if field \<in> {''warnings'', ''errors''} then 128
      else MAX_DURABLE_ARTIFACTS)"

text \<open>One visited value: its checks and the children it pushes, top of the stack first.\<close>

definition phase_child :: "bool \<Rightarrow> nat \<Rightarrow> string \<times> pyval \<Rightarrow> (pyval \<times> nat) res" where
  "phase_child phase_entry depth kv =
     (if phase_entry \<and> depth = 0 \<and> fst kv \<in> set (BY_ID_FIELDS @ PLAIN_LIST_FIELDS)
      then rbind (bounded_exact_list (snd kv) (''phase '' @ fst kv) (phase_list_limit (fst kv)))
             (\<lambda>xs. Inr (PList xs, depth + 1))
      else Inr (snd kv, depth + 1))"

fun reducer_visit ::
  "bool \<Rightarrow> bool \<Rightarrow> nat \<Rightarrow> pyval \<Rightarrow> (pyval \<times> nat) list res" where
  "reducer_visit manifest phase_entry depth (PDict d) =
     (if 128 < length d then bad ''checkpointed reducer entry is invalid''
      else rbind (rmap (phase_child phase_entry depth) d) (\<lambda>cs. Inr (rev cs)))"
| "reducer_visit manifest phase_entry depth (PList xs) =
     (if 256 < length xs then bad ''checkpointed reducer entry is too large''
      else Inr (rev (map (\<lambda>x. (x, depth + 1)) xs)))"
| "reducer_visit manifest phase_entry depth (PStr s) =
     (if (if manifest then 500000 else 50000) < length s \<or> \<not> nul_free s
      then bad ''checkpointed reducer entry is invalid'' else Inr [])"
| "reducer_visit manifest phase_entry depth PNone = Inr []"
| "reducer_visit manifest phase_entry depth (PBool b) = Inr []"
| "reducer_visit manifest phase_entry depth (PInt i) =
     (if wide_int i then bad ''checkpointed reducer integer is too large'' else Inr [])"
| "reducer_visit manifest phase_entry depth (PFloat f) =
     (if float_finite f then Inr [] else bad ''checkpointed reducer number is invalid'')"
| "reducer_visit manifest phase_entry depth (POther c) =
     bad ''checkpointed reducer entry contains an unsupported value''"

function reducer_walk ::
  "bool \<Rightarrow> bool \<Rightarrow> nat \<Rightarrow> (pyval \<times> nat) list \<Rightarrow> unit res" where
  "reducer_walk manifest phase_entry nodes [] = Inr ()"
| "reducer_walk manifest phase_entry nodes ((current, depth) # stack) =
     (if MAX_REDUCER_JSON_NODES < nodes + 1 \<or> 8 < depth
      then bad ''checkpointed reducer entry is too large''
      else rbind (reducer_visit manifest phase_entry depth current)
             (\<lambda>cs. reducer_walk manifest phase_entry (nodes + 1) (cs @ stack)))"
  by pat_completeness auto
termination
  by (relation "measure (\<lambda>(m, p, nodes, stack). Suc MAX_REDUCER_JSON_NODES - nodes)") auto

declare reducer_walk.simps(2) [simp del]

definition system_locked_prompt :: "pyval \<Rightarrow> bool" where
  "system_locked_prompt value =
     (case value of
        PDict d \<Rightarrow> (case dget d ''resolved_prompt'' of
                      PDict p \<Rightarrow> dget p ''system_locked'' = PBool True | _ \<Rightarrow> False)
      | _ \<Rightarrow> False)"

definition validate_reducer_json :: "bool \<Rightarrow> pyval \<Rightarrow> unit res" where
  "validate_reducer_json phase_entry value =
     reducer_walk (phase_entry \<and> system_locked_prompt value) phase_entry 0 [(value, 0)]"

definition validate_phase_entry_json :: "pyval \<Rightarrow> unit res" where
  "validate_phase_entry_json entry =
     (case entry of
        PDict d \<Rightarrow> validate_reducer_json True entry
      | _ \<Rightarrow> bad ''checkpointed phase entry must be an object'')"

definition optional_member :: "pyval \<Rightarrow> string list \<Rightarrow> bool" where
  "optional_member v names = (v = PNone \<or> (is_str v \<and> str_of v \<in> set names))"

definition optional_attempt :: "pyval \<Rightarrow> bool" where
  "optional_attempt v =
     (case v of PNone \<Rightarrow> True | PInt a \<Rightarrow> 1 \<le> a \<and> a \<le> 1000000 | _ \<Rightarrow> False)"

definition locked_prompt_entry :: "pydict \<Rightarrow> bool" where
  "locked_prompt_entry entry =
     (case dget entry ''resolved_prompt'' of
        PDict p \<Rightarrow> truthy (dget p ''system_locked'') | _ \<Rightarrow> False)"

definition scan_field :: "string \<times> pyval \<Rightarrow> (string \<times> pyval) res" where
  "scan_field kv =
     (if fst kv \<in> set (BY_ID_FIELDS @ PLAIN_LIST_FIELDS)
      then rbind (bounded_exact_list (snd kv) (''phase '' @ fst kv) (phase_list_limit (fst kv)))
             (\<lambda>xs. Inr (fst kv, PList xs))
      else Inr kv)"

definition validate_phase_entry :: "scanner \<Rightarrow> pydict \<Rightarrow> unit res" where
  "validate_phase_entry cred entry =
     rbind (validate_phase_entry_json (PDict entry)) (\<lambda>_.
     rbind (ensure (optional_member (dget entry ''phase'') PHASE_NAMES)
             (ValueError ''checkpointed phase entry has an invalid phase'')) (\<lambda>_.
     rbind (ensure (optional_member (dget entry ''status'') STATUS_VALUES)
             (ValueError ''checkpointed phase entry has an invalid status'')) (\<lambda>_.
     rbind (ensure (optional_attempt (dget entry ''attempt''))
             (ValueError ''checkpointed phase entry has an invalid attempt'')) (\<lambda>_.
     rbind (rmap scan_field entry) (\<lambda>scan_entry.
     ensure (\<not> cred MAX_REDUCER_JSON_NODES
               (if locked_prompt_entry entry then 500000 else 250000)
               (if locked_prompt_entry entry then 1200000 else 200000) (PDict scan_entry))
       (ValueError ''checkpointed phase entry contains credential material''))))))"

subsection \<open>Lists keyed by a stable id\<close>

definition derived_id :: "pydict \<Rightarrow> string res" where
  "derived_id idless =
     (case json_dumps True True True (PDict idless) of
        None \<Rightarrow> Inl (TypeError ''not JSON serializable'')
      | Some canonical \<Rightarrow> Inr (''derived-'' @ take 24 (sha256_hex (utf8 canonical))))"

definition stable_entry :: "scanner \<Rightarrow> pyval \<Rightarrow> pydict res" where
  "stable_entry cred entry =
     (case entry of
        PDict d \<Rightarrow>
          rbind (validate_reducer_json False entry) (\<lambda>_.
          rbind (ensure (\<not> cred 512 250000 200000 entry)
                  (ValueError ''checkpointed reducer entry contains credential material'')) (\<lambda>_.
          (case dget d ''id'' of
             PNone \<Rightarrow> (let idless = ddel ''id'' d
                       in rbind (derived_id idless) (\<lambda>i. Inr (dset ''id'' (PStr i) idless)))
           | PStr i \<Rightarrow>
               (if 1 \<le> length i \<and> length i \<le> 256 \<and> nul_free i then Inr d
                else bad ''checkpointed reducer entry id is invalid'')
           | _ \<Rightarrow> bad ''checkpointed reducer entry id is invalid'')))
      | _ \<Rightarrow> bad ''checkpointed reducer entry must be an object'')"

definition entry_id :: "pydict \<Rightarrow> pyval" where
  "entry_id d = dget d ''id''"

text \<open>
  The loop over one side: the ids \<open>seen\<close> are those of the entries merged so far.
\<close>

fun absorb :: "scanner \<Rightarrow> pyval list \<Rightarrow> pydict list \<Rightarrow> pydict list res" where
  "absorb cred [] merged = Inr merged"
| "absorb cred (raw # rest) merged =
     rbind (stable_entry cred raw) (\<lambda>entry.
       absorb cred rest
         (if entry_id entry \<in> entry_id ` set merged then merged else merged @ [entry]))"

definition merge_lists_by_id ::
  "scanner \<Rightarrow> pyval list \<Rightarrow> pyval list \<Rightarrow> pydict list res" where
  "merge_lists_by_id cred current incoming =
     rbind (absorb cred current []) (absorb cred incoming)"

definition merge_unique :: "scanner \<Rightarrow> pyval list \<Rightarrow> pyval list \<Rightarrow> pyval list res" where
  "merge_unique cred current incoming =
     (if \<not> list_all is_str (current @ incoming)
      then bad ''checkpointed phase list values must be strings''
      else if cred 512 250000 1000000 (PList (current @ incoming))
      then bad ''checkpointed phase list contains credential material''
      else Inr (union_by id current incoming))"

definition cap_plain_phase_list :: "string \<Rightarrow> 'a list \<Rightarrow> 'a list" where
  "cap_plain_phase_list field values =
     take_last (if field \<in> {''warnings'', ''errors''} then 128 else MAX_DURABLE_ARTIFACTS) values"

subsection \<open>Phase results\<close>

definition bound_by_id_field :: "scanner \<Rightarrow> string \<Rightarrow> pydict \<Rightarrow> pydict res" where
  "bound_by_id_field cred field entry =
     (if dhas entry field
      then rbind (bounded_exact_list (dget entry field) (''phase '' @ field) (phase_list_limit field))
             (\<lambda>xs. rbind (merge_lists_by_id cred [] xs)
                (\<lambda>ys. Inr (dset field (PList (map PDict ys)) entry)))
      else Inr entry)"

definition bound_plain_field :: "scanner \<Rightarrow> string \<Rightarrow> pydict \<Rightarrow> pydict res" where
  "bound_plain_field cred field entry =
     (if dhas entry field
      then rbind (bounded_exact_list (dget entry field) (''phase '' @ field) (phase_list_limit field))
             (\<lambda>xs. if \<not> list_all is_str xs
                   then bad (''checkpointed phase '' @ field @ '' values must be strings'')
                   else if cred (phase_list_limit field + 1) 250000 1000000 (PList xs)
                   then bad (''checkpointed phase '' @ field @ '' contains credential material'')
                   else Inr (dset field (PList (cap_plain_phase_list field xs)) entry))
      else Inr entry)"

definition bounded_phase_entry :: "scanner \<Rightarrow> pydict \<Rightarrow> pydict res" where
  "bounded_phase_entry cred entry =
     rbind (validate_phase_entry cred entry) (\<lambda>_.
     rbind (rfold (bound_by_id_field cred) BY_ID_FIELDS entry)
           (rfold (bound_plain_field cred) PLAIN_LIST_FIELDS))"

definition merge_by_id_field ::
  "scanner \<Rightarrow> pydict \<Rightarrow> pydict \<Rightarrow> string \<Rightarrow> pydict \<Rightarrow> pydict res" where
  "merge_by_id_field cred current incoming field merged =
     rbind (bounded_exact_list (dget current field) (''phase '' @ field) (phase_list_limit field))
     (\<lambda>cur. rbind (bounded_exact_list (dget incoming field) (''phase '' @ field) (phase_list_limit field))
     (\<lambda>inc. rbind (merge_lists_by_id cred cur inc)
     (\<lambda>both. Inr (dset field (PList (map PDict (take_last (phase_list_limit field) both))) merged))))"

definition merge_plain_field ::
  "scanner \<Rightarrow> pydict \<Rightarrow> pydict \<Rightarrow> string \<Rightarrow> pydict \<Rightarrow> pydict res" where
  "merge_plain_field cred current incoming field merged =
     rbind (bounded_exact_list (dget current field) (''phase '' @ field) (phase_list_limit field))
     (\<lambda>cur. rbind (bounded_exact_list (dget incoming field) (''phase '' @ field) (phase_list_limit field))
     (\<lambda>inc. rbind (merge_unique cred cur inc)
     (\<lambda>both. Inr (dset field (PList (cap_plain_phase_list field both)) merged))))"

definition incoming_status_of :: "pydict \<Rightarrow> pydict \<Rightarrow> pyval" where
  "incoming_status_of current incoming =
     (case map_of incoming ''status'' of None \<Rightarrow> dget current ''status'' | Some v \<Rightarrow> v)"

text \<open>The guards of the merge: attempts are valid and monotonic, a terminal status is latched.\<close>

definition entry_latch :: "pydict \<Rightarrow> pydict \<Rightarrow> unit res" where
  "entry_latch current incoming =
     (let ca = dget current ''attempt''; ia = dget incoming ''attempt'';
          cs = dget current ''status''
      in if \<not> optional_attempt ca \<or> \<not> optional_attempt ia
         then bad ''checkpointed phase attempt is invalid''
         else if ia \<noteq> ca
         then (if ca \<noteq> PNone \<and> (case (ca, ia) of (PInt c, PInt i) \<Rightarrow> i \<noteq> c + 1 | _ \<Rightarrow> True)
               then bad ''checkpointed phase attempt is not monotonic'' else Inr ())
         else if is_str cs \<and> str_of cs \<in> set TERMINAL_VALUES
           \<and> incoming_status_of current incoming \<noteq> cs
         then bad ''checkpointed terminal phase status is immutable'' else Inr ())"

definition merge_phase_entry :: "scanner \<Rightarrow> pydict \<Rightarrow> pydict \<Rightarrow> pydict res" where
  "merge_phase_entry cred current incoming =
     rbind (validate_phase_entry_json (PDict current)) (\<lambda>_.
     rbind (validate_phase_entry_json (PDict incoming)) (\<lambda>_.
     rbind (entry_latch current incoming) (\<lambda>_.
     if dget incoming ''attempt'' \<noteq> dget current ''attempt''
     then bounded_phase_entry cred incoming
     else rbind (rfold (merge_by_id_field cred current incoming) BY_ID_FIELDS
                   (dmerge current incoming)) (\<lambda>m1.
          rbind (rfold (merge_plain_field cred current incoming) PLAIN_LIST_FIELDS m1) (\<lambda>m2.
          rbind (validate_phase_entry cred m2) (\<lambda>_. Inr m2))))))"

definition opt_dict :: "pyval \<Rightarrow> pydict option" where
  "opt_dict v = (case v of PNone \<Rightarrow> Some [] | PDict d \<Rightarrow> Some d | _ \<Rightarrow> None)"

definition phase_names_ok :: "pydict \<Rightarrow> bool" where
  "phase_names_ok source =
     (length source \<le> length PHASE_NAMES \<and> (\<forall>(phase, _) \<in> set source. phase \<in> set PHASE_NAMES))"

definition bound_elsewhere :: "pydict \<Rightarrow> string \<Rightarrow> bool" where
  "bound_elsewhere entry phase =
     (dget entry ''phase'' \<noteq> PNone \<and> dget entry ''phase'' \<noteq> PStr phase)"

definition validated_item :: "scanner \<Rightarrow> string \<times> pyval \<Rightarrow> (string \<times> pyval) res" where
  "validated_item cred kv =
     (case snd kv of
        PDict entry \<Rightarrow>
          rbind (bounded_phase_entry cred entry) (\<lambda>bounded.
            if bound_elsewhere bounded (fst kv)
            then bad ''checkpointed phase result is bound to another phase''
            else Inr (fst kv, PDict bounded))
      | _ \<Rightarrow> bad ''checkpointed phase result is invalid'')"

definition validated_source :: "scanner \<Rightarrow> pydict \<Rightarrow> pydict res" where
  "validated_source cred source = rmap (validated_item cred) source"

definition merge_inherited ::
  "scanner \<Rightarrow> pydict \<Rightarrow> string \<times> pyval \<Rightarrow> (string \<times> pyval) res" where
  "merge_inherited cred safe_right kv =
     (case snd kv of
        PDict current \<Rightarrow>
          if bound_elsewhere current (fst kv)
          then bad ''checkpointed phase result is bound to another phase''
          else (case map_of safe_right (fst kv) of
                  Some (PDict incoming) \<Rightarrow>
                    rbind (merge_phase_entry cred current incoming) (\<lambda>m. Inr (fst kv, PDict m))
                | _ \<Rightarrow> rbind (bounded_phase_entry cred current) (\<lambda>b. Inr (fst kv, PDict b)))
      | _ \<Rightarrow> bad ''checkpointed phase result is invalid'')"

definition merge_phase_results :: "scanner \<Rightarrow> pyval \<Rightarrow> pyval \<Rightarrow> pydict res" where
  "merge_phase_results cred left right =
     (case (opt_dict left, opt_dict right) of
        (Some l, Some r) \<Rightarrow>
          if \<not> (phase_names_ok l \<and> phase_names_ok r)
          then bad ''checkpointed phase name is invalid''
          else rbind (validated_source cred r) (\<lambda>safe_right.
               if l = [] then Inr safe_right
               else if safe_right = [] then validated_source cred l
               else rbind (rmap (merge_inherited cred safe_right) l) (\<lambda>merged.
                    Inr (merged @ filter (\<lambda>(phase, _). phase \<notin> fst ` set merged) safe_right)))
      | _ \<Rightarrow> bad ''checkpointed phase results must be an object'')"

subsection \<open>Artifacts, dialogue and context packets\<close>

definition append_unique_by_id :: "scanner \<Rightarrow> pyval \<Rightarrow> pyval \<Rightarrow> pydict list res" where
  "append_unique_by_id cred left right =
     rbind (bounded_exact_list left ''state channel'' MAX_DURABLE_ARTIFACTS) (\<lambda>l.
     rbind (bounded_exact_list right ''state channel'' MAX_DURABLE_ARTIFACTS) (\<lambda>r.
     merge_lists_by_id cred l r))"

definition merge_artifacts :: "scanner \<Rightarrow> pyval \<Rightarrow> pyval \<Rightarrow> pydict list res" where
  "merge_artifacts cred left right =
     rbind (append_unique_by_id cred left right) (\<lambda>m. Inr (take_last MAX_DURABLE_ARTIFACTS m))"

definition dialogue_attempt :: "pydict \<Rightarrow> int res" where
  "dialogue_attempt entry =
     (case (case map_of entry ''attempt'' of None \<Rightarrow> PInt 1 | Some v \<Rightarrow> v) of
        PInt a \<Rightarrow> if 1 \<le> a \<and> a \<le> 1000000 then Inr a
                  else bad ''checkpointed dialogue attempt is invalid''
      | _ \<Rightarrow> bad ''checkpointed dialogue attempt is invalid'')"

definition dialogue_row :: "pydict \<Rightarrow> (string \<times> int \<times> pydict) res" where
  "dialogue_row entry =
     (case dget entry ''phase'' of
        PStr phase \<Rightarrow> rbind (dialogue_attempt entry) (\<lambda>a. Inr (phase, a, entry))
      | _ \<Rightarrow> bad ''checkpointed dialogue phase is invalid'')"

definition latest_attempt :: "(string \<times> int \<times> pydict) list \<Rightarrow> string \<Rightarrow> int" where
  "latest_attempt rows phase =
     foldl (\<lambda>m (p, a, _). if p = phase then max m a else m) 1 rows"

definition merge_dialogue :: "scanner \<Rightarrow> pyval \<Rightarrow> pyval \<Rightarrow> pydict list res" where
  "merge_dialogue cred left right =
     rbind (append_unique_by_id cred left right) (\<lambda>merged.
     rbind (rmap dialogue_row merged) (\<lambda>rows.
     Inr (take_last MAX_DURABLE_DIALOGUE_ENTRIES
            (map (\<lambda>(_, _, e). e)
               (filter (\<lambda>(p, a, _). a = latest_attempt rows p) rows)))))"

text \<open>Replace the entry with the same id in place, append a new one.\<close>

fun replace_by_id :: "pydict \<Rightarrow> pydict list \<Rightarrow> pydict list" where
  "replace_by_id incoming [] = [incoming]"
| "replace_by_id incoming (e # es) =
     (if entry_id e = entry_id incoming then incoming # es else e # replace_by_id incoming es)"

definition merge_latest_by_id :: "scanner \<Rightarrow> pyval \<Rightarrow> pyval \<Rightarrow> pydict list res" where
  "merge_latest_by_id cred left right =
     rbind (bounded_exact_list left ''state channel'' MAX_DURABLE_ARTIFACTS) (\<lambda>l.
     rbind (merge_lists_by_id cred [] l) (\<lambda>merged.
     rbind (bounded_exact_list right ''state channel'' MAX_DURABLE_ARTIFACTS) (\<lambda>r.
     rbind (merge_lists_by_id cred [] r) (\<lambda>inc.
     Inr (foldl (\<lambda>m e. replace_by_id e m) merged inc)))))"

text \<open>The packets of a thread; \<open>validate\<close> stands for \<open>validate_context_packets\<close>.\<close>

definition merge_context_packets ::
  "(pyval \<Rightarrow> pydict list res) \<Rightarrow> scanner \<Rightarrow> pyval \<Rightarrow> pyval \<Rightarrow> pydict list res" where
  "merge_context_packets validate cred left right =
     rbind (merge_latest_by_id cred left right) (\<lambda>merged. validate (PList (map PDict merged)))"

subsection \<open>Prompt reviews\<close>

text \<open>
  The visit of one value of a review: the characters it adds and the children it pushes;
  \<open>lk\<close> is whether the review is \<open>system_locked\<close>.
\<close>

definition review_key_ok :: "string \<Rightarrow> bool" where
  "review_key_ok k = (1 \<le> length k \<and> length k \<le> 255 \<and> nul_free k)"

fun review_visit :: "bool \<Rightarrow> nat \<Rightarrow> pyval \<Rightarrow> (nat \<times> (pyval \<times> nat) list) res" where
  "review_visit lk depth (PDict d) =
     (if (if lk then 66 else 32) < length d
      then bad ''checkpointed prompt review is too large''
      else if \<not> list_all (\<lambda>(k, _). review_key_ok k) d
      then bad ''checkpointed prompt review is invalid''
      else Inr (sum_list (map (\<lambda>(k, _). length k) d), rev (map (\<lambda>(_, v). (v, depth + 1)) d)))"
| "review_visit lk depth (PList xs) =
     (if (if lk then 66 else 32) < length xs
      then bad ''checkpointed prompt review is too large''
      else Inr (0, rev (map (\<lambda>x. (x, depth + 1)) xs)))"
| "review_visit lk depth (PStr s) =
     (if (if lk then 500000 else 100000) < length s \<or> \<not> nul_free s
      then bad ''checkpointed prompt review is invalid'' else Inr (length s, []))"
| "review_visit lk depth PNone = Inr (0, [])"
| "review_visit lk depth (PBool b) = Inr (0, [])"
| "review_visit lk depth (PInt i) =
     (if wide_int i then bad ''checkpointed prompt review is invalid'' else Inr (0, []))"
| "review_visit lk depth (PFloat f) =
     (if float_finite f then Inr (0, []) else bad ''checkpointed prompt review is invalid'')"
| "review_visit lk depth (POther c) =
     bad ''checkpointed prompt review contains an unsupported value''"

function review_walk :: "bool \<Rightarrow> nat \<Rightarrow> nat \<Rightarrow> (pyval \<times> nat) list \<Rightarrow> unit res" where
  "review_walk lk nodes tot [] = Inr ()"
| "review_walk lk nodes tot ((current, depth) # stack) =
     (if (if lk then 4000 else 128) < nodes + 1 \<or> 6 < depth
      then bad ''checkpointed prompt review is too large''
      else rbind (review_visit lk depth current) (\<lambda>(chars, cs).
           if (if lk then 1200000 else 400000) < tot + chars
           then bad ''checkpointed prompt review is too large''
           else review_walk lk (nodes + 1) (tot + chars) (cs @ stack)))"
  by pat_completeness auto
termination
  by (relation "measure (\<lambda>(lk, nodes, tot, stack). 4001 - nodes)") (auto split: if_splits)

declare review_walk.simps(2) [simp del]

definition validate_review_entry :: "scanner \<Rightarrow> pyval \<Rightarrow> unit res" where
  "validate_review_entry cred entry =
     (case entry of
        PDict d \<Rightarrow>
          (let lk = truthy (dget d ''system_locked'')
           in rbind (review_walk lk 0 0 [(entry, 0)]) (\<lambda>_.
              ensure (\<not> cred (if lk then 4000 else 128) (if lk then 500000 else 100000)
                        (if lk then 1200000 else 400000) entry)
                (ValueError ''checkpointed prompt review contains credential material'')))
      | _ \<Rightarrow> bad ''checkpointed prompt review must be an object'')"

definition review_item_ok ::
  "scanner \<Rightarrow> string \<Rightarrow> string list option \<Rightarrow> string \<times> pyval \<Rightarrow> unit res" where
  "review_item_ok cred label allowed kv =
     (if \<not> review_key_ok (fst kv) \<or> fst kv \<noteq> strip (fst kv) \<or> scan cred (PStr (fst kv))
         \<or> (case allowed of None \<Rightarrow> False | Some ks \<Rightarrow> fst kv \<notin> set ks)
      then bad (''checkpointed '' @ label @ '' key is invalid'')
      else validate_review_entry cred (snd kv))"

definition validate_review_map ::
  "scanner \<Rightarrow> string \<Rightarrow> nat \<Rightarrow> string list option \<Rightarrow> pyval \<Rightarrow> pydict res" where
  "validate_review_map cred label max_entries allowed value =
     (case value of
        PNone \<Rightarrow> Inr []
      | PDict d \<Rightarrow>
          if max_entries < length d then bad (''checkpointed '' @ label @ '' are invalid'')
          else rbind (rmap (review_item_ok cred label allowed) d) (\<lambda>_. Inr d)
      | _ \<Rightarrow> bad (''checkpointed '' @ label @ '' are invalid''))"

definition merge_prompt_reviews :: "scanner \<Rightarrow> pyval \<Rightarrow> pyval \<Rightarrow> pydict res" where
  "merge_prompt_reviews cred left right =
     (let check = validate_review_map cred ''prompt reviews'' (length PHASE_ORDER) (Some PHASE_NAMES)
      in rbind (check left) (\<lambda>l. rbind (check right) (\<lambda>r. check (PDict (dmerge l r)))))"

definition merge_application_reviews :: "scanner \<Rightarrow> pyval \<Rightarrow> pyval \<Rightarrow> pydict res" where
  "merge_application_reviews cred left right =
     (if right = PDict []
      then (case left of
              PNone \<Rightarrow> Inr [] | PDict _ \<Rightarrow> Inr []
            | _ \<Rightarrow> bad ''checkpointed application prompt reviews are invalid'')
      else let check = validate_review_map cred ''application prompt reviews'' 1 None
           in rbind (check left) (\<lambda>l. rbind (check right) (\<lambda>r. check (PDict (dmerge l r)))))"

subsection \<open>Facts: lists keyed by id\<close>

lemma absorb_eq:
  "absorb cred xs acc = rbind (rmap (stable_entry cred) xs) (\<lambda>es. Inr (union_by entry_id acc es))"
proof (induction xs arbitrary: acc)
  case (Cons x xs)
  show ?case
  proof (cases "stable_entry cred x")
    case (Inr e)
    then show ?thesis
      by (cases "rmap (stable_entry cred) xs") (simp_all add: Cons.IH)
  qed simp
qed simp

lemma stable_entry_id:
  assumes "stable_entry cred raw = Inr e"
  shows "\<exists>i. entry_id e = PStr i"
  using assms
  by (auto simp: stable_entry_def entry_id_def dget_dset rbind_Inr_iff Let_def
      split: pyval.splits if_splits)

definition has_id :: "pyval \<Rightarrow> bool" where
  "has_id raw = (case raw of PDict d \<Rightarrow> is_str (dget d ''id'') | _ \<Rightarrow> False)"

lemma stable_entry_has_id:
  "stable_entry cred raw = Inr e \<Longrightarrow> has_id raw \<Longrightarrow> raw = PDict e"
  by (auto simp: stable_entry_def has_id_def rbind_Inr_iff split: pyval.splits if_splits)

lemma merge_lists_by_id_eq:
  "merge_lists_by_id cred cur inc = Inr m \<longleftrightarrow>
   (\<exists>es fs. list_all2 (\<lambda>x e. stable_entry cred x = Inr e) cur es \<and>
            list_all2 (\<lambda>x e. stable_entry cred x = Inr e) inc fs \<and>
            m = union_by entry_id (union_by entry_id [] es) fs)"
  by (auto simp: merge_lists_by_id_def absorb_eq res_simps)

lemma merge_lists_by_id_wf:
  assumes "merge_lists_by_id cred cur inc = Inr m"
  shows "distinct (map entry_id m)" "\<forall>e \<in> set m. \<exists>i. entry_id e = PStr i"
proof -
  obtain es fs where es: "list_all2 (\<lambda>x e. stable_entry cred x = Inr e) cur es"
    and fs: "list_all2 (\<lambda>x e. stable_entry cred x = Inr e) inc fs"
    and m: "m = union_by entry_id (union_by entry_id [] es) fs"
    using assms by (auto simp: merge_lists_by_id_eq)
  show "distinct (map entry_id m)"
    unfolding m by (intro union_by_distinct) simp
  have "\<forall>e \<in> set es \<union> set fs. \<exists>i. entry_id e = PStr i"
    using es fs by (auto simp: list_all2_conv_all_nth in_set_conv_nth dest!: stable_entry_id)
  moreover have "set m \<subseteq> set es \<union> set fs"
    unfolding m using union_by_set_subset [of entry_id "union_by entry_id [] es" fs]
      union_by_set_subset [of entry_id "[]" es] by auto
  ultimately show "\<forall>e \<in> set m. \<exists>i. entry_id e = PStr i" by blast
qed

lemma stable_lists_unwrap:
  "list_all2 (\<lambda>x e. stable_entry cred x = Inr e) xs es \<Longrightarrow> list_all has_id xs \<Longrightarrow>
   xs = map PDict es"
  by (induction rule: list_all2_induct) (auto dest: stable_entry_has_id)

lemma stable_lists_wrap:
  "\<forall>e \<in> set es. stable_entry cred (PDict e) = Inr e \<Longrightarrow>
   list_all2 (\<lambda>x e. stable_entry cred x = Inr e) (map PDict es) es"
  by (induction es) auto

text \<open>Merging the same update again into the merged list changes nothing.\<close>

lemma merge_lists_by_id_replay:
  assumes m: "merge_lists_by_id cred cur inc = Inr m"
    and ids: "list_all has_id cur" "list_all has_id inc"
  shows "merge_lists_by_id cred (map PDict m) inc = Inr m"
proof -
  obtain es fs where es: "list_all2 (\<lambda>x e. stable_entry cred x = Inr e) cur es"
    and fs: "list_all2 (\<lambda>x e. stable_entry cred x = Inr e) inc fs"
    and m': "m = union_by entry_id (union_by entry_id [] es) fs"
    using m by (auto simp: merge_lists_by_id_eq)
  have "\<forall>e \<in> set es \<union> set fs. stable_entry cred (PDict e) = Inr e"
    using es fs stable_lists_unwrap [OF es ids(1)] stable_lists_unwrap [OF fs ids(2)]
    by (auto simp: list_all2_map1 list_all2_conv_all_nth in_set_conv_nth)
  moreover have "set m \<subseteq> set es \<union> set fs"
    unfolding m' using union_by_set_subset [of entry_id "union_by entry_id [] es" fs]
      union_by_set_subset [of entry_id "[]" es] by auto
  ultimately have "list_all2 (\<lambda>x e. stable_entry cred x = Inr e) (map PDict m) m"
    by (intro stable_lists_wrap) blast
  moreover have "union_by entry_id [] m = m"
    using union_by_id [of entry_id "[]" m] merge_lists_by_id_wf(1) [OF m] by simp
  moreover have "union_by entry_id m fs = m"
    unfolding m' by (rule union_by_replay)
  ultimately show ?thesis
    using fs unfolding merge_lists_by_id_eq by (intro exI [of _ m] exI [of _ fs]) simp
qed

lemma bounded_exact_list_Inr:
  "bounded_exact_list v label limit = Inr xs \<Longrightarrow> length xs \<le> limit"
  by (auto simp: bounded_exact_list_def res_simps)

lemma bounded_exact_list_PList [simp]:
  "bounded_exact_list (PList xs) label limit = Inr (take_last limit xs)"
  by (simp add: bounded_exact_list_def)

definition list_items :: "pyval \<Rightarrow> pyval list" where
  "list_items v = (case v of PList xs \<Rightarrow> xs | _ \<Rightarrow> [])"

lemma bounded_exact_list_items:
  "bounded_exact_list v label limit = Inr xs \<Longrightarrow> xs = take_last limit (list_items v)"
  by (cases v) (auto simp: bounded_exact_list_def list_items_def bad_def take_last_def)

lemma list_all_take_last: "list_all P xs \<Longrightarrow> list_all P (take_last n xs)"
  using set_take_last [of n xs] by (auto simp: list_all_iff)

text \<open>
  A replayed update leaves an artifact channel as it is: when every entry carries its id and
  the merged list has not reached the 256-entry window, merging the same update a second time
  gives the same list.
\<close>

lemma merge_artifacts_replay:
  assumes "append_unique_by_id cred left right = Inr m" and "length m \<le> MAX_DURABLE_ARTIFACTS"
    and "list_all has_id (list_items left)" and "list_all has_id (list_items right)"
  shows "merge_artifacts cred left right = Inr m
    \<and> merge_artifacts cred (PList (map PDict m)) right = Inr m"
proof -
  obtain l r where l: "bounded_exact_list left ''state channel'' MAX_DURABLE_ARTIFACTS = Inr l"
    and r: "bounded_exact_list right ''state channel'' MAX_DURABLE_ARTIFACTS = Inr r"
    and m: "merge_lists_by_id cred l r = Inr m"
    using assms(1) by (auto simp: append_unique_by_id_def res_simps)
  have "list_all has_id l" "list_all has_id r"
    using assms(3,4) bounded_exact_list_items [OF l] bounded_exact_list_items [OF r]
    by (auto intro: list_all_take_last)
  with m have "merge_lists_by_id cred (map PDict m) r = Inr m"
    by (rule merge_lists_by_id_replay)
  then have "merge_artifacts cred (PList (map PDict m)) right = Inr m"
    using r assms(2) by (simp add: merge_artifacts_def append_unique_by_id_def)
  then show ?thesis
    using assms(1,2) by (simp add: merge_artifacts_def)
qed

subsection \<open>Facts: phase entries\<close>

definition wf_dict :: "pydict \<Rightarrow> bool" where
  "wf_dict d = distinct (map fst d)"

lemma fold_field_other:
  assumes "rfold f fs m = Inr m'" and "k \<notin> set fs"
    and "\<And>fld a b. f fld a = Inr b \<Longrightarrow> \<exists>v. b = dset fld v a \<or> b = a"
  shows "map_of m' k = map_of m k \<and> (wf_dict m \<longrightarrow> wf_dict m')"
  using assms
proof (induction fs arbitrary: m)
  case (Cons fld fs)
  then obtain b where b: "f fld m = Inr b" "rfold f fs b = Inr m'"
    by (auto simp: rbind_Inr_iff)
  with Cons have "map_of m' k = map_of b k \<and> (wf_dict b \<longrightarrow> wf_dict m')"
    by auto
  moreover obtain v where "b = dset fld v m \<or> b = m"
    using Cons.prems(3) [OF b(1)] by blast
  ultimately show ?case
    using Cons.prems(2) by (auto simp: wf_dict_def distinct_dset)
qed simp

lemma by_id_field_shape:
  "bound_by_id_field cred fld a = Inr b \<Longrightarrow> \<exists>v. b = dset fld v a \<or> b = a"
  "bound_plain_field cred fld a = Inr b \<Longrightarrow> \<exists>v. b = dset fld v a \<or> b = a"
  "merge_by_id_field cred c i fld a = Inr b \<Longrightarrow> \<exists>v. b = dset fld v a \<or> b = a"
  "merge_plain_field cred c i fld a = Inr b \<Longrightarrow> \<exists>v. b = dset fld v a \<or> b = a"
  by (auto simp: bound_by_id_field_def bound_plain_field_def merge_by_id_field_def
      merge_plain_field_def res_simps bad_def split: if_splits)

definition scalar_key :: "string \<Rightarrow> bool" where
  "scalar_key k = (k \<notin> set (BY_ID_FIELDS @ PLAIN_LIST_FIELDS))"

lemma bounded_phase_entry_other:
  assumes "bounded_phase_entry cred e = Inr b" and "scalar_key k"
  shows "map_of b k = map_of e k" "wf_dict e \<Longrightarrow> wf_dict b" "validate_phase_entry cred e = Inr ()"
proof -
  obtain m where m: "rfold (bound_by_id_field cred) BY_ID_FIELDS e = Inr m"
    "rfold (bound_plain_field cred) PLAIN_LIST_FIELDS m = Inr b"
    and ok: "validate_phase_entry cred e = Inr ()"
    using assms(1) by (auto simp: bounded_phase_entry_def res_simps)
  have k: "k \<notin> set BY_ID_FIELDS" "k \<notin> set PLAIN_LIST_FIELDS"
    using assms(2) by (auto simp: scalar_key_def)
  show "map_of b k = map_of e k" "wf_dict e \<Longrightarrow> wf_dict b"
    using fold_field_other [OF m(1) k(1) by_id_field_shape(1)]
      fold_field_other [OF m(2) k(2) by_id_field_shape(2)] by auto
  show "validate_phase_entry cred e = Inr ()" by (rule ok)
qed

text \<open>What a successful merge of one entry is, on both branches of the attempt.\<close>

lemma merge_phase_entry_cases:
  assumes "merge_phase_entry cred cur inc = Inr m"
  obtains (rerun) "dget inc ''attempt'' \<noteq> dget cur ''attempt''" "optional_attempt (dget inc ''attempt'')"
      "dget cur ''attempt'' = PNone \<or>
       (\<exists>c. dget cur ''attempt'' = PInt c \<and> dget inc ''attempt'' = PInt (c + 1))"
      "bounded_phase_entry cred inc = Inr m"
  | (same) m1 where "dget inc ''attempt'' = dget cur ''attempt''"
      "is_str (dget cur ''status'') \<and> str_of (dget cur ''status'') \<in> set TERMINAL_VALUES \<longrightarrow>
       incoming_status_of cur inc = dget cur ''status''"
      "rfold (merge_by_id_field cred cur inc) BY_ID_FIELDS (dmerge cur inc) = Inr m1"
      "rfold (merge_plain_field cred cur inc) PLAIN_LIST_FIELDS m1 = Inr m"
      "validate_phase_entry cred m = Inr ()"
proof (cases "dget inc ''attempt'' = dget cur ''attempt''")
  case True
  with assms obtain m1 where
    "is_str (dget cur ''status'') \<and> str_of (dget cur ''status'') \<in> set TERMINAL_VALUES \<longrightarrow>
       incoming_status_of cur inc = dget cur ''status''"
    "rfold (merge_by_id_field cred cur inc) BY_ID_FIELDS (dmerge cur inc) = Inr m1"
    "rfold (merge_plain_field cred cur inc) PLAIN_LIST_FIELDS m1 = Inr m"
    "validate_phase_entry cred m = Inr ()"
    by (auto simp: merge_phase_entry_def entry_latch_def res_simps Let_def split: if_splits)
  with True show ?thesis by (rule same)
next
  case False
  with assms have ok: "optional_attempt (dget cur ''attempt'')" "optional_attempt (dget inc ''attempt'')"
    "bounded_phase_entry cred inc = Inr m"
    and step: "dget cur ''attempt'' = PNone \<or>
      \<not> (case (dget cur ''attempt'', dget inc ''attempt'') of (PInt c, PInt i) \<Rightarrow> i \<noteq> c + 1 | _ \<Rightarrow> True)"
    by (auto simp: merge_phase_entry_def entry_latch_def res_simps Let_def split: if_splits)
  from step have "dget cur ''attempt'' = PNone \<or>
       (\<exists>c. dget cur ''attempt'' = PInt c \<and> dget inc ''attempt'' = PInt (c + 1))"
    by (auto split: pyval.splits)
  with False ok show ?thesis by (intro rerun)
qed

text \<open>
  The contract of one entry's updates: its attempt never goes back, and inside one attempt a
  terminal status is latched.
\<close>

definition attempt_num :: "pydict \<Rightarrow> int" where
  "attempt_num e = (case dget e ''attempt'' of PInt a \<Rightarrow> a | _ \<Rightarrow> 0)"

definition terminal_entry :: "pydict \<Rightarrow> bool" where
  "terminal_entry e = (is_str (dget e ''status'') \<and> str_of (dget e ''status'') \<in> set TERMINAL_VALUES)"

definition entry_le :: "pydict \<Rightarrow> pydict \<Rightarrow> bool" where
  "entry_le s t = (attempt_num s \<le> attempt_num t \<and>
     (attempt_num s = attempt_num t \<and> terminal_entry s \<longrightarrow> dget t ''status'' = dget s ''status''))"

lemma scalar_keys [simp]: "scalar_key ''attempt''" "scalar_key ''status''" "scalar_key ''phase''"
  by (simp_all add: scalar_key_def BY_ID_FIELDS_def PLAIN_LIST_FIELDS_def)

lemma same_attempt_other:
  assumes "rfold (merge_by_id_field cred cur inc) BY_ID_FIELDS (dmerge cur inc) = Inr m1"
    and "rfold (merge_plain_field cred cur inc) PLAIN_LIST_FIELDS m1 = Inr m"
    and "scalar_key k" and "wf_dict inc"
  shows "map_of m k = (map_of cur ++ map_of inc) k" "wf_dict cur \<Longrightarrow> wf_dict m"
proof -
  have k: "k \<notin> set BY_ID_FIELDS" "k \<notin> set PLAIN_LIST_FIELDS"
    using assms(3) by (auto simp: scalar_key_def)
  have "map_of m k = map_of (dmerge cur inc) k \<and> (wf_dict (dmerge cur inc) \<longrightarrow> wf_dict m)"
    using fold_field_other [OF assms(1) k(1) by_id_field_shape(3)]
      fold_field_other [OF assms(2) k(2) by_id_field_shape(4)] by auto
  then show "map_of m k = (map_of cur ++ map_of inc) k" "wf_dict cur \<Longrightarrow> wf_dict m"
    using assms(4) by (auto simp: map_of_dmerge wf_dict_def distinct_dmerge)
qed

lemma merge_phase_entry_wf:
  assumes "merge_phase_entry cred cur inc = Inr m" "wf_dict cur" "wf_dict inc"
  shows "wf_dict m"
  using assms(1)
proof (cases rule: merge_phase_entry_cases)
  case rerun
  then show ?thesis using bounded_phase_entry_other(2) [OF _ scalar_keys(1)] assms(3) by blast
next
  case (same m1)
  then show ?thesis using same_attempt_other(2) [OF _ _ scalar_keys(1) assms(3,2)] by blast
qed

lemma dget_cong: "map_of d k = map_of e k \<Longrightarrow> dget d k = dget e k"
  by (simp add: dget_def)

lemma merge_phase_entry_le:
  assumes "merge_phase_entry cred cur inc = Inr m" "wf_dict inc"
  shows "entry_le cur m"
  using assms(1)
proof (cases rule: merge_phase_entry_cases)
  case rerun
  have "dget m ''attempt'' = dget inc ''attempt''"
    using bounded_phase_entry_other(1) [OF rerun(4) scalar_keys(1)] by (rule dget_cong)
  with rerun(1,2,3) show ?thesis
    by (auto simp: entry_le_def attempt_num_def optional_attempt_def split: pyval.splits)
next
  case (same m1)
  have m: "map_of m k = (map_of cur ++ map_of inc) k" if "scalar_key k" for k
    using same_attempt_other(1) [OF same(3,4) that assms(2)] .
  have "dget m ''attempt'' = dget cur ''attempt''"
    using same(1) m [OF scalar_keys(1)] by (auto simp: dget_def map_add_def split: option.splits)
  moreover have "dget m ''status'' = incoming_status_of cur inc"
    using m [OF scalar_keys(2)]
    by (auto simp: dget_def incoming_status_of_def map_add_def split: option.splits)
  ultimately show ?thesis
    using same(2) by (auto simp: entry_le_def attempt_num_def terminal_entry_def)
qed

lemma entry_le_refl: "entry_le s s"
  by (simp add: entry_le_def)

lemma entry_le_trans: "entry_le s t \<Longrightarrow> entry_le t u \<Longrightarrow> entry_le s u"
  by (auto simp: entry_le_def terminal_entry_def)

interpretation entry_updates: monotone_steps "merge_phase_entry cred" wf_dict wf_dict entry_le for cred
  by unfold_locales
    (auto intro: merge_phase_entry_wf merge_phase_entry_le entry_le_refl entry_le_trans)

text \<open>
  C1. Whatever updates a phase entry receives, in any order and however many of them are refused,
  its attempt number never decreases, and as long as the attempt is unchanged a terminal status
  stays what it was.
\<close>

theorem phase_entry_updates_monotone:
  assumes "wf_dict e" and "list_all wf_dict updates"
  shows "attempt_num e \<le> attempt_num (run_ops (merge_phase_entry cred) e updates) \<and>
    (attempt_num (run_ops (merge_phase_entry cred) e updates) = attempt_num e \<and> terminal_entry e \<longrightarrow>
     dget (run_ops (merge_phase_entry cred) e updates) ''status'' = dget e ''status'')"
  using entry_updates.run_le [OF assms] by (auto simp: entry_le_def)

theorem phase_entry_updates_monotone_witness:
  "let e = [(''status'', PStr ''failed''), (''attempt'', PInt 1)];
       us = [[(''status'', PStr ''running'')], [(''attempt'', PInt 2)]];
       r = run_ops (merge_phase_entry (\<lambda>_ _ _ _. False)) e us
   in 1 \<le> attempt_num r \<and> (attempt_num r = 1 \<longrightarrow> dget r ''status'' = PStr ''failed'')"
  using phase_entry_updates_monotone [of "[(''status'', PStr ''failed''), (''attempt'', PInt 1)]"
      "[[(''status'', PStr ''running'')], [(''attempt'', PInt 2)]]" "\<lambda>_ _ _ _. False"]
  by (simp add: wf_dict_def attempt_num_def dget_def terminal_entry_def
      TERMINAL_VALUES_def TERMINAL_PHASE_STATUSES_def Let_def del: run_ops_simps)

subsection \<open>Facts: the structural scan\<close>

text \<open>What the stack loop accepts, as a recursion on the value: its node count and its shape.\<close>

fun json_within :: "nat \<Rightarrow> pyval \<Rightarrow> bool" where
  "json_within depth (PDict d) = (depth \<le> 8 \<and> length d \<le> 128 \<and> (\<forall>kv \<in> set d. json_within (depth + 1) (snd kv)))"
| "json_within depth (PList xs) = (depth \<le> 8 \<and> length xs \<le> 256 \<and> (\<forall>x \<in> set xs. json_within (depth + 1) x))"
| "json_within depth (PStr s) = (depth \<le> 8 \<and> length s \<le> 50000 \<and> nul_free s)"
| "json_within depth (PInt i) = (depth \<le> 8 \<and> \<not> wide_int i)"
| "json_within depth (PFloat f) = (depth \<le> 8 \<and> float_finite f)"
| "json_within depth (POther c) = False"
| "json_within depth _ = (depth \<le> 8)"

lemma phase_child_False: "phase_child False depth kv = Inr (snd kv, depth + 1)"
  by (simp add: phase_child_def)

lemma reducer_visit_within:
  assumes "depth \<le> 8"
  shows "(\<exists>cs. reducer_visit False False depth v = Inr cs \<and>
           (\<forall>(c, k) \<in> set cs. json_within k c)) \<longleftrightarrow> json_within depth v"
  using assms
  by (cases v; force simp: rmap_all_ok [where g = "\<lambda>kv. (snd kv, depth + 1)"] phase_child_False
      bad_def rev_map [symmetric] sum_list_rev comp_def split_beta)

lemma reducer_visit_nodes:
  "reducer_visit False False depth v = Inr cs \<Longrightarrow>
    Suc (sum_list (map (\<lambda>(c, k). json_nodes c) cs)) = json_nodes v"
  by (cases v) (auto simp: rmap_all_ok [where g = "\<lambda>kv. (snd kv, depth + 1)"] phase_child_False
      bad_def rev_map sum_list_rev comp_def split_beta simp flip: rev_map split: if_splits)

lemma json_within_depth: "json_within depth v \<Longrightarrow> depth \<le> 8"
  by (cases v) auto

lemma reducer_walk_spec:
  assumes "nodes \<le> MAX_REDUCER_JSON_NODES"
  shows "reducer_walk False False nodes stack = Inr () \<longleftrightarrow>
    nodes + sum_list (map (\<lambda>(c, k). json_nodes c) stack) \<le> MAX_REDUCER_JSON_NODES \<and>
    (\<forall>(c, k) \<in> set stack. json_within k c)"
  using assms
proof (induction "Suc MAX_REDUCER_JSON_NODES - nodes" arbitrary: nodes stack rule: less_induct)
  case less
  show ?case
  proof (cases stack)
    case Nil
    with less.prems show ?thesis by simp
  next
    case (Cons p rest)
    obtain v depth where [simp]: "p = (v, depth)" by (cases p)
    show ?thesis
    proof (cases "MAX_REDUCER_JSON_NODES < nodes + 1 \<or> 8 < depth")
      case True
      with Cons json_nodes_pos [of v] show ?thesis
        by (auto simp: reducer_walk.simps(2) dest: json_within_depth)
    next
      case False
      show ?thesis
      proof (cases "reducer_visit False False depth v")
        case (Inl e)
        with False Cons reducer_visit_within [of depth v] show ?thesis
          by (auto simp: reducer_walk.simps(2))
      next
        case (Inr cs)
        have "json_within depth v \<longleftrightarrow> (\<forall>(c, k) \<in> set cs. json_within k c)"
          using False reducer_visit_within [of depth v] Inr by auto
        moreover have "json_nodes v = Suc (sum_list (map (\<lambda>(c, k). json_nodes c) cs))"
          using reducer_visit_nodes [OF Inr] by simp
        moreover have "reducer_walk False False (nodes + 1) (cs @ rest) = Inr () \<longleftrightarrow>
            nodes + 1 + sum_list (map (\<lambda>(c, k). json_nodes c) (cs @ rest)) \<le> MAX_REDUCER_JSON_NODES \<and>
            (\<forall>(c, k) \<in> set (cs @ rest). json_within k c)"
          using False by (intro less.hyps) auto
        ultimately show ?thesis
          using False Cons Inr by (simp add: reducer_walk.simps(2) ball_Un)
      qed
    qed
  qed
qed

text \<open>
  The explicit-stack scan of \<open>_validate_reducer_json\<close> accepts exactly the values of at most
  4096 nodes, nested at most 8 deep, with containers, strings, integers and floats within their
  limits; an unsupported Python object anywhere is refused.
\<close>

lemma validate_reducer_json_spec:
  "validate_reducer_json False value = Inr () \<longleftrightarrow>
    json_nodes value \<le> MAX_REDUCER_JSON_NODES \<and> json_within 0 value"
  using reducer_walk_spec [of 0 "[(value, 0)]"] by (simp add: validate_reducer_json_def)

subsection \<open>Facts: artifacts and dialogue\<close>

text \<open>A merged artifact channel holds at most 256 entries, each with a string id of its own.
\<close>

lemma merge_artifacts_wf:
  assumes "merge_artifacts cred left right = Inr m"
  shows "length m \<le> MAX_DURABLE_ARTIFACTS \<and> distinct (map entry_id m)
    \<and> (\<forall>e \<in> set m. \<exists>i. entry_id e = PStr i)"
proof -
  obtain l r k where k: "merge_lists_by_id cred l r = Inr k" "m = take_last MAX_DURABLE_ARTIFACTS k"
    using assms by (auto simp: merge_artifacts_def append_unique_by_id_def res_simps)
  then show ?thesis
    using merge_lists_by_id_wf [OF k(1)] set_take_last [of MAX_DURABLE_ARTIFACTS k]
    by (auto simp: distinct_take_last)
qed

definition id_row :: "string \<Rightarrow> pydict" where
  "id_row i = [(''id'', PStr i)]"

lemma stable_id_row:
  assumes "1 \<le> length i" "length i \<le> 256" "nul_free i"
  shows "stable_entry (\<lambda>_ _ _ _. False) (PDict (id_row i)) = Inr (id_row i)"
  using assms validate_reducer_json_spec [of "PDict (id_row i)"]
  by (simp add: stable_entry_def id_row_def dget_def MAX_REDUCER_JSON_NODES_def ensure_def)

lemma entry_id_id_row [simp]: "entry_id (id_row i) = PStr i"
  by (simp add: entry_id_def id_row_def dget_def)

definition a_row :: "nat \<Rightarrow> pydict" where
  "a_row n = id_row (replicate n (CHR ''a''))"

lemma stable_a_row:
  "1 \<le> n \<Longrightarrow> n \<le> 256 \<Longrightarrow> stable_entry (\<lambda>_ _ _ _. False) (PDict (a_row n)) = Inr (a_row n)"
  unfolding a_row_def by (rule stable_id_row) (auto simp: nul_free_def)

lemma merge_id_rows:
  assumes "\<forall>e \<in> set es \<union> set fs. stable_entry cred (PDict e) = Inr e"
  shows "merge_lists_by_id cred (map PDict es) (map PDict fs)
    = Inr (union_by entry_id (union_by entry_id [] es) fs)"
  unfolding merge_lists_by_id_eq
  using assms by (intro exI [of _ es] exI [of _ fs]) (auto intro: stable_lists_wrap)

text \<open>
  At the 256-entry window the merge is not idempotent: replaying an update whose entries the
  window has already pushed out appends them again and drops others, although the module calls
  its reducers idempotent.
\<close>

lemma merge_artifacts_not_idempotent_at_cap:
  "\<exists>left right m m'. merge_artifacts (\<lambda>_ _ _ _. False) left right = Inr m
     \<and> merge_artifacts (\<lambda>_ _ _ _. False) (PList (map PDict m)) right = Inr m' \<and> m' \<noteq> m"
proof -
  let ?c = "\<lambda>_ _ _ _. False" and ?b = "id_row ''b''"
  let ?es = "map a_row [1..<257]" and ?fs = "[?b, a_row 1]"
  let ?m = "map a_row [Suc 1..<257] @ [?b]" and ?m' = "map a_row [Suc (Suc 1)..<257] @ [?b, a_row 1]"
  have ids: "map (entry_id \<circ> a_row) = map (\<lambda>n. PStr (replicate n (CHR ''a'')))"
    by (simp add: a_row_def comp_def)
  have inj: "entry_id (a_row n) = entry_id (a_row k) \<longleftrightarrow> n = k" for n k
    by (auto simp: a_row_def dest: arg_cong [of _ _ length])
  have b: "entry_id (a_row n) \<noteq> PStr ''b''" for n
    by (cases n) (auto simp: a_row_def)
  have dist: "distinct (map entry_id (map a_row [i..<j]))" for i j
    by (auto simp: distinct_map inj_on_def inj)
  have sb: "stable_entry ?c (PDict ?b) = Inr ?b"
    by (rule stable_id_row) (auto simp: nul_free_def)
  have fresh: "entry_id ?b \<notin> entry_id ` a_row ` S" for S
    using b [symmetric] by auto
  have old: "entry_id (a_row n) \<in> entry_id ` a_row ` S \<longleftrightarrow> n \<in> S" for n S
    by (auto simp: inj)
  have u1: "union_by entry_id [] ?es = ?es"
    using union_by_id [of entry_id "[]" ?es] dist by simp
  have u2: "union_by entry_id ?es ?fs = ?es @ [?b]"
    using fresh old b by (simp del: entry_id_id_row upt_rec_numeral)
  have v1: "union_by entry_id [] ?m = ?m"
    using union_by_id [of entry_id "[]" ?m] dist [of "Suc 1" 257] fresh [of "{Suc 1..<257}"]
    unfolding image_image
    by (simp del: entry_id_id_row upt_rec_numeral)
  have v2: "union_by entry_id ?m ?fs = ?m @ [a_row 1]"
    using old b by (simp del: upt_rec_numeral)
  have stable: "stable_entry ?c (PDict e) = Inr e" if "e \<in> set (?es @ ?fs @ ?m)" for e
    using that sb stable_a_row by (auto simp del: upt_rec_numeral)
  have tl: "take_last MAX_DURABLE_ARTIFACTS (map a_row [k..<257] @ zs) = map a_row [Suc k..<257] @ zs"
    if "k < 257" "257 - k + length zs = 257" for k zs
    using that by (subst take_last_drop_one) (simp_all add: MAX_DURABLE_ARTIFACTS_def upt_conv_Cons)
  have run: "merge_artifacts ?c (PList (map PDict xs)) (PList (map PDict ?fs))
      = Inr (take_last MAX_DURABLE_ARTIFACTS k)"
    if "set xs \<subseteq> set ?es \<union> set ?m" "length xs = 256" "union_by entry_id (union_by entry_id [] xs) ?fs = k"
    for xs k
  proof -
    have "set xs \<union> set ?fs \<subseteq> set (?es @ ?fs @ ?m)"
      using that(1) unfolding set_append by blast
    then have "\<forall>e \<in> set xs \<union> set ?fs. stable_entry ?c (PDict e) = Inr e"
      using stable by (meson subsetD)
    then have "merge_lists_by_id ?c (map PDict xs) (map PDict ?fs) = Inr k"
      using merge_id_rows [of xs ?fs ?c] unfolding that(3) by blast
    then show ?thesis
      using that(2) by (simp add: merge_artifacts_def append_unique_by_id_def
          MAX_DURABLE_ARTIFACTS_def del: list.map)
  qed
  have "union_by entry_id (union_by entry_id [] ?es) ?fs = ?es @ [?b]"
    unfolding u1 by (rule u2)
  then have m1: "merge_artifacts ?c (PList (map PDict ?es)) (PList (map PDict ?fs)) = Inr ?m"
    using run [OF Un_upper1, of "?es @ [?b]"] tl [of 1 "[?b]"]
    by (simp del: upt_rec_numeral list.map union_by.simps)
  have "union_by entry_id (union_by entry_id [] ?m) ?fs = ?m @ [a_row 1]"
    unfolding v1 by (rule v2)
  then have m2: "merge_artifacts ?c (PList (map PDict ?m)) (PList (map PDict ?fs)) = Inr ?m'"
    using run [OF Un_upper2, of "?m @ [a_row 1]"] tl [of "Suc 1" "[?b, a_row 1]"]
    by (simp del: upt_rec_numeral list.map union_by.simps)
  show ?thesis
    using m1 m2 by (intro exI conjI) (assumption, assumption, simp add: a_row_def id_row_def)
qed

lemma dialogue_row_id: "dialogue_row e = Inr r \<Longrightarrow> snd (snd r) = e \<and> dget e ''phase'' = PStr (fst r)"
  by (auto simp: dialogue_row_def res_simps bad_def split: pyval.splits)

lemma latest_attempt_ge: "(p, a, e) \<in> set rows \<Longrightarrow> a \<le> latest_attempt rows p"
proof (induction rows rule: rev_induct)
  case (snoc r rows)
  then show ?case by (cases r) (auto simp: latest_attempt_def)
qed (simp add: latest_attempt_def)

text \<open>
  The merged dialogue holds one attempt per phase: the entries of a phase all carry the same
  attempt, which is the largest attempt of that phase on either side, and at most 256 entries stay.
\<close>

lemma merge_dialogue_latest:
  assumes "merge_dialogue cred left right = Inr m"
  shows "length m \<le> MAX_DURABLE_DIALOGUE_ENTRIES
    \<and> (\<forall>e \<in> set m. \<exists>p a. dget e ''phase'' = PStr p \<and> dialogue_attempt e = Inr a
          \<and> (\<forall>e' \<in> set m. dget e' ''phase'' = PStr p \<longrightarrow> dialogue_attempt e' = Inr a))
    \<and> (\<exists>k. append_unique_by_id cred left right = Inr k \<and> set m \<subseteq> set k
          \<and> (\<forall>e \<in> set m. \<forall>e' \<in> set k. \<forall>a a'. dget e' ''phase'' = dget e ''phase'' \<longrightarrow>
                dialogue_attempt e = Inr a \<longrightarrow> dialogue_attempt e' = Inr a' \<longrightarrow> a' \<le> a))"
proof -
  obtain k rows where k: "append_unique_by_id cred left right = Inr k"
    and rows: "list_all2 (\<lambda>x y. dialogue_row x = Inr y) k rows"
    and m: "m = take_last MAX_DURABLE_DIALOGUE_ENTRIES
        (map (\<lambda>(_, _, e). e) (filter (\<lambda>(p, a, _). a = latest_attempt rows p) rows))"
    using assms by (auto simp: merge_dialogue_def res_simps)
  have row: "e \<in> set k \<and> dget e ''phase'' = PStr p \<and> dialogue_attempt e = Inr a"
    if r: "(p, a, e) \<in> set rows" for p a e
  proof -
    obtain x where "x \<in> set k" "dialogue_row x = Inr (p, a, e)"
      using list_all2_target [OF rows r] by blast
    then show ?thesis
      by (auto simp: dialogue_row_def res_simps bad_def split: pyval.splits)
  qed
  have inm: "\<exists>p a. (p, a, e) \<in> set rows \<and> a = latest_attempt rows p" if "e \<in> set m" for e
    using that set_take_last m by fastforce
  have ink: "\<exists>p a. (p, a, e) \<in> set rows" if r: "e \<in> set k" for e
  proof -
    obtain r where "r \<in> set rows" "dialogue_row e = Inr r"
      using list_all2_source [OF rows r] by blast
    moreover from this(2) have "r = (fst r, fst (snd r), e)"
      using dialogue_row_id by (metis prod.collapse)
    ultimately show ?thesis by metis
  qed
  have one: "\<exists>p a. dget e ''phase'' = PStr p \<and> dialogue_attempt e = Inr a
          \<and> (\<forall>e' \<in> set m. dget e' ''phase'' = PStr p \<longrightarrow> dialogue_attempt e' = Inr a)"
    if e: "e \<in> set m" for e
  proof -
    obtain p a where pa: "(p, a, e) \<in> set rows" "a = latest_attempt rows p"
      using inm [OF e] by blast
    have "dialogue_attempt e' = Inr a" if e': "e' \<in> set m" "dget e' ''phase'' = PStr p" for e'
      using inm [OF e'(1)] row e'(2) pa(2) by fastforce
    with row [OF pa(1)] show ?thesis by blast
  qed
  have two: "a' \<le> a" if h: "e \<in> set m" "e' \<in> set k" "dget e' ''phase'' = dget e ''phase''"
    "dialogue_attempt e = Inr a" "dialogue_attempt e' = Inr a'" for e e' a a'
  proof -
    obtain p where p: "(p, a, e) \<in> set rows" "a = latest_attempt rows p"
      using inm [OF h(1)] row h(4) by fastforce
    obtain p' where p': "(p', a', e') \<in> set rows"
      using ink [OF h(2)] row h(5) by fastforce
    show ?thesis
      using row [OF p(1)] row [OF p'] h(3) p(2) latest_attempt_ge [OF p'] by simp
  qed
  show ?thesis
    using one two k inm row m by (intro conjI exI [of _ k]) (simp_all, blast+)
qed

lemma review_map_Inr:
  "validate_review_map cred label n allowed v = Inr d \<Longrightarrow>
    length d \<le> n \<and> (\<forall>kv \<in> set d. review_item_ok cred label allowed kv = Inr ())"
  by (auto simp: validate_review_map_def res_simps bad_def dest: rmap_units
      split: pyval.splits if_splits)

text \<open>The application prompt reviews hold at most one review, under a valid key that carries no
  credential, and an empty update clears them.
\<close>

lemma merge_application_reviews_single:
  assumes "merge_application_reviews cred left right = Inr m"
  shows "length m \<le> 1 \<and> (right = PDict [] \<longrightarrow> m = [])
    \<and> (\<forall>(key, review) \<in> set m. review_key_ok key \<and> \<not> scan cred (PStr key)
         \<and> validate_review_entry cred review = Inr ())"
proof (cases "right = PDict []")
  case True
  with assms show ?thesis
    by (auto simp: merge_application_reviews_def bad_def split: pyval.splits)
next
  case False
  with assms obtain d where
    "validate_review_map cred ''application prompt reviews'' 1 None d = Inr m"
    by (auto simp: merge_application_reviews_def Let_def res_simps)
  with review_map_Inr [OF this] False show ?thesis
    by (auto simp: review_item_ok_def bad_def split: if_splits)
qed

text \<open>Every prompt review of the merged channel is filed under a phase of the pipeline and has passed
  the structural and credential checks.
\<close>

lemma merge_prompt_reviews_keys:
  assumes "merge_prompt_reviews cred left right = Inr m"
  shows "\<forall>(phase, review) \<in> set m. phase \<in> set PHASE_NAMES \<and> validate_review_entry cred review = Inr ()"
proof -
  obtain d where
    "validate_review_map cred ''prompt reviews'' (length PHASE_ORDER) (Some PHASE_NAMES) d = Inr m"
    using assms by (auto simp: merge_prompt_reviews_def Let_def res_simps)
  then show ?thesis
    by (auto simp: review_item_ok_def bad_def dest!: review_map_Inr split: if_splits)
qed

subsection \<open>Facts: phase results\<close>

lemma list_all2_map_of:
  "list_all2 (\<lambda>x y. fst y = fst x \<and> R (fst x) (snd x) (snd y)) l m \<Longrightarrow> map_of l k = Some v \<Longrightarrow>
   \<exists>v'. map_of m k = Some v' \<and> R k v v'"
proof (induction rule: list_all2_induct)
  case (Cons x xs y ys)
  then show ?case by (cases x; cases y) (auto split: if_splits)
qed simp

text \<open>One phase of the merged result: its entry belongs to the phase and continues the old one.\<close>

definition phase_item_ok :: "string \<Rightarrow> pyval \<Rightarrow> pyval \<Rightarrow> bool" where
  "phase_item_ok phase old new =
     (\<exists>c e. old = PDict c \<and> new = PDict e \<and> \<not> bound_elsewhere e phase \<and> entry_le c e
          \<and> (wf_dict c \<longrightarrow> wf_dict e))"

lemma bounded_phase_entry_le:
  assumes "bounded_phase_entry cred e = Inr b"
  shows "entry_le e b" "dget b ''phase'' = dget e ''phase''" "wf_dict e \<Longrightarrow> wf_dict b"
  using bounded_phase_entry_other [OF assms scalar_keys(1)]
    bounded_phase_entry_other(1) [OF assms scalar_keys(2)]
    bounded_phase_entry_other(1) [OF assms scalar_keys(3)]
  by (simp_all add: entry_le_def attempt_num_def dget_def)

lemma validated_item_ok:
  "validated_item cred x = Inr y \<Longrightarrow> fst y = fst x \<and> phase_item_ok (fst x) (snd x) (snd y)"
  by (auto simp: validated_item_def res_simps bad_def phase_item_ok_def
      intro: bounded_phase_entry_le split: pyval.splits if_splits)

lemma validated_source_ok:
  "validated_source cred l = Inr m \<Longrightarrow>
    list_all2 (\<lambda>x y. fst y = fst x \<and> phase_item_ok (fst x) (snd x) (snd y)) l m"
  by (auto simp: validated_source_def res_simps elim: list_all2_mono dest: validated_item_ok)

definition item_wf :: "string \<times> pyval \<Rightarrow> bool" where
  "item_wf kv = (case snd kv of PDict d \<Rightarrow> wf_dict d | _ \<Rightarrow> True)"

lemma merge_phase_entry_phase:
  assumes "merge_phase_entry cred cur inc = Inr m" "wf_dict inc"
    "\<not> bound_elsewhere cur p" "\<not> bound_elsewhere inc p"
  shows "\<not> bound_elsewhere m p"
  using assms(1)
proof (cases rule: merge_phase_entry_cases)
  case rerun
  then show ?thesis
    using bounded_phase_entry_le(2) [OF rerun(4)] assms(4) by (simp add: bound_elsewhere_def)
next
  case (same m1)
  have "map_of m ''phase'' = (map_of cur ++ map_of inc) ''phase''"
    using same_attempt_other(1) [OF same(3,4) scalar_keys(3) assms(2)] .
  with assms(3,4) show ?thesis
    by (auto simp: bound_elsewhere_def dget_def map_add_def split: option.splits)
qed

lemma merge_inherited_ok:
  assumes "merge_inherited cred r x = Inr y"
    and r: "\<forall>(p, v) \<in> set r. \<exists>e. v = PDict e \<and> \<not> bound_elsewhere e p \<and> wf_dict e"
  shows "fst y = fst x \<and> (\<exists>c e. snd x = PDict c \<and> snd y = PDict e \<and>
           \<not> bound_elsewhere e (fst x) \<and> entry_le c e)"
proof -
  obtain c where c: "snd x = PDict c" "\<not> bound_elsewhere c (fst x)"
    using assms(1) by (auto simp: merge_inherited_def bad_def split: pyval.splits if_splits)
  show ?thesis
  proof (cases "map_of r (fst x)")
    case None
    with assms(1) c obtain b where b: "bounded_phase_entry cred c = Inr b" "y = (fst x, PDict b)"
      by (auto simp: merge_inherited_def res_simps)
    with c bounded_phase_entry_le [OF b(1)] show ?thesis
      by (simp add: bound_elsewhere_def)
  next
    case (Some v)
    then obtain inc where inc: "v = PDict inc" "\<not> bound_elsewhere inc (fst x)" "wf_dict inc"
      using r map_of_SomeD [OF Some] by auto
    with assms(1) c Some obtain m where m: "merge_phase_entry cred c inc = Inr m" "y = (fst x, PDict m)"
      by (auto simp: merge_inherited_def res_simps split: if_splits)
    with c inc show ?thesis
      using merge_phase_entry_phase [OF m(1) inc(3) c(2) inc(2)] merge_phase_entry_le [OF m(1) inc(3)]
      by simp
  qed
qed

definition result_item_ok :: "string \<times> pyval \<Rightarrow> bool" where
  "result_item_ok kv = (fst kv \<in> set PHASE_NAMES \<and>
     (case snd kv of PDict e \<Rightarrow> \<not> bound_elsewhere e (fst kv) | _ \<Rightarrow> False))"

lemma validated_source_items:
  assumes "validated_source cred l = Inr m" "phase_names_ok l"
  shows "\<forall>y \<in> set m. result_item_ok y"
    "list_all item_wf l \<Longrightarrow> \<forall>(p, v) \<in> set m. \<exists>e. v = PDict e \<and> \<not> bound_elsewhere e p \<and> wf_dict e"
proof -
  have "\<exists>x \<in> set l. fst y = fst x \<and> phase_item_ok (fst x) (snd x) (snd y)" if "y \<in> set m" for y
    by (rule list_all2_target [OF validated_source_ok [OF assms(1)] that])
  then show "\<forall>y \<in> set m. result_item_ok y"
    "list_all item_wf l \<Longrightarrow> \<forall>(p, v) \<in> set m. \<exists>e. v = PDict e \<and> \<not> bound_elsewhere e p \<and> wf_dict e"
    using assms(2)
    by (fastforce simp: result_item_ok_def phase_names_ok_def phase_item_ok_def item_wf_def list_all_iff)+
qed

lemma validated_source_get:
  assumes "validated_source cred r = Inr m" and "map_of r p = Some (PDict inc)"
  shows "\<exists>b. map_of m p = Some (PDict b) \<and> bounded_phase_entry cred inc = Inr b"
proof -
  have item: "fst y = fst x \<and> (\<exists>c b. snd x = PDict c \<and> snd y = PDict b \<and> bounded_phase_entry cred c = Inr b)"
    if "validated_item cred x = Inr y" for x y
    using that by (auto simp: validated_item_def rbind_Inr_iff bad_def split: pyval.splits if_splits)
  have "list_all2 (\<lambda>x y. validated_item cred x = Inr y) r m"
    using assms(1) by (simp add: validated_source_def rmap_Inr_iff)
  then have "list_all2 (\<lambda>x y. fst y = fst x \<and>
      (\<exists>c b. snd x = PDict c \<and> snd y = PDict b \<and> bounded_phase_entry cred c = Inr b)) r m"
    by (rule list_all2_mono) (rule item)
  from list_all2_map_of [OF this assms(2)] show ?thesis by blast
qed

lemma merge_inherited_get:
  assumes "rmap (merge_inherited cred safe) l = Inr merged"
  shows "fst ` set merged = fst ` set l"
    "map_of safe p = Some (PDict inc) \<Longrightarrow> map_of l p = Some old \<Longrightarrow>
       \<exists>cur e. map_of merged p = Some (PDict e) \<and> merge_phase_entry cred cur inc = Inr e"
proof -
  have item: "fst y = fst x \<and> (\<forall>inc. map_of safe (fst x) = Some (PDict inc) \<longrightarrow>
      (\<exists>cur e. snd y = PDict e \<and> merge_phase_entry cred cur inc = Inr e))"
    if y: "merge_inherited cred safe x = Inr y" for x y
  proof -
    obtain cur where cur: "snd x = PDict cur" "\<not> bound_elsewhere cur (fst x)"
      using y by (cases "snd x") (auto simp: merge_inherited_def bad_def split: if_splits)
    have "fst y = fst x"
    proof (cases "\<exists>inc. map_of safe (fst x) = Some (PDict inc)")
      case True
      with y cur show ?thesis by (auto simp: merge_inherited_def rbind_Inr_iff)
    next
      case False
      then have "(case map_of safe (fst x) of Some (PDict inc) \<Rightarrow> f inc | _ \<Rightarrow> g) = g" for f and g :: "(string \<times> pyval) res"
        by (simp split: option.split pyval.split)
      with y cur show ?thesis by (auto simp: merge_inherited_def rbind_Inr_iff)
    qed
    moreover have "\<exists>e. snd y = PDict e \<and> merge_phase_entry cred cur inc = Inr e"
      if "map_of safe (fst x) = Some (PDict inc)" for inc
      using y cur that by (auto simp: merge_inherited_def rbind_Inr_iff)
    ultimately show ?thesis by blast
  qed
  have "list_all2 (\<lambda>x y. merge_inherited cred safe x = Inr y) l merged"
    using assms by (simp add: rmap_Inr_iff)
  then have all: "list_all2 (\<lambda>x y. fst y = fst x \<and> (\<forall>inc. map_of safe (fst x) = Some (PDict inc) \<longrightarrow>
      (\<exists>cur e. snd y = PDict e \<and> merge_phase_entry cred cur inc = Inr e))) l merged"
    by (rule list_all2_mono) (rule item)
  then show "fst ` set merged = fst ` set l"
    by (induction rule: list_all2_induct) auto
  show "\<exists>cur e. map_of merged p = Some (PDict e) \<and> merge_phase_entry cred cur inc = Inr e"
    if hyp: "map_of safe p = Some (PDict inc)" "map_of l p = Some old"
  proof -
    have "list_all2 (\<lambda>x y. fst y = fst x \<and> merged_by (fst x) (snd x) (snd y)) l merged"
      if "merged_by = (\<lambda>p old new. \<forall>inc. map_of safe p = Some (PDict inc) \<longrightarrow>
        (\<exists>cur e. new = PDict e \<and> merge_phase_entry cred cur inc = Inr e))" for merged_by :: "string \<Rightarrow> pyval \<Rightarrow> pyval \<Rightarrow> bool"
      using all unfolding that .
    from list_all2_map_of [OF this [OF refl] hyp(2)] hyp(1) show ?thesis by auto
  qed
qed

lemma merge_phase_entry_status:
  assumes "merge_phase_entry cred cur inc = Inr m" and "wf_dict inc" and "map_of inc ''status'' = Some st"
  shows "map_of m ''status'' = Some st"
  using assms(1)
proof (cases rule: merge_phase_entry_cases)
  case rerun
  then show ?thesis
    using bounded_phase_entry_other(1) [OF rerun(4) scalar_keys(2)] assms(3) by simp
next
  case (same m1)
  then show ?thesis
    using same_attempt_other(1) [OF same(3,4) scalar_keys(2) assms(2)] assms(3) by (simp add: map_add_def)
qed

text \<open>An update that gives the status of a phase decides the status of its merged entry.\<close>

lemma merge_phase_results_status:
  assumes "merge_phase_results cred left right = Inr m" and "opt_dict right = Some r"
    and "map_of r p = Some (PDict inc)" and "wf_dict inc" and "map_of inc ''status'' = Some st"
  shows "\<exists>e. map_of m p = Some (PDict e) \<and> map_of e ''status'' = Some st"
proof -
  obtain l where l: "opt_dict left = Some l"
    using assms(1,2) by (auto simp: merge_phase_results_def bad_def split: option.splits)
  then obtain safe where safe: "validated_source cred r = Inr safe"
    and m: "(if l = [] then Inr safe else if safe = [] then validated_source cred l
        else rbind (rmap (merge_inherited cred safe) l) (\<lambda>merged.
               Inr (merged @ filter (\<lambda>(phase, _). phase \<notin> fst ` set merged) safe))) = Inr m"
    using assms(1,2) by (auto simp: merge_phase_results_def rbind_Inr_iff bad_def split: if_splits)
  obtain b where b: "map_of safe p = Some (PDict b)" "bounded_phase_entry cred inc = Inr b"
    using validated_source_get [OF safe assms(3)] by blast
  have bs: "map_of b ''status'' = Some st" "wf_dict b" "safe \<noteq> []"
    using bounded_phase_entry_other(1) [OF b(2) scalar_keys(2)] bounded_phase_entry_le(3) [OF b(2)]
      assms(4,5) b(1) by auto
  show ?thesis
  proof (cases "l = []")
    case True
    with m b bs show ?thesis by simp
  next
    case False
    with m bs obtain merged where merged: "rmap (merge_inherited cred safe) l = Inr merged"
      and mm: "m = merged @ filter (\<lambda>(phase, _). phase \<notin> fst ` set merged) safe"
      by (auto simp: rbind_Inr_iff)
    note get = merge_inherited_get [OF merged]
    show ?thesis
    proof (cases "p \<in> fst ` set l")
      case True
      then obtain old where "map_of l p = Some old"
        by (cases "map_of l p") (auto simp: map_of_eq_None_iff)
      with get(2) b(1) obtain cur e where "map_of merged p = Some (PDict e)" "merge_phase_entry cred cur b = Inr e"
        by blast
      with merge_phase_entry_status [of cred cur b e st] bs mm show ?thesis by auto
    next
      case out: False
      with get(1) have "map_of merged p = None" by (auto simp: map_of_eq_None_iff)
      moreover have "map_of (filter (\<lambda>(phase, _). phase \<notin> A) safe) p = map_of safe p" if "p \<notin> A" for A
        using that by (induction safe) auto
      ultimately show ?thesis using out get(1) b(1) bs mm by (auto simp: map_add_def)
    qed
  qed
qed

text \<open>
  C2. Merging phase results files every entry under a phase of the pipeline and never under a phase
  other than its own, and no phase of the old state is lost: its new entry has the same or a later
  attempt, and in the same attempt a terminal status is unchanged.
\<close>

theorem merge_phase_results_ok:
  assumes "merge_phase_results cred left right = Inr m"
    and "opt_dict left = Some l" and "opt_dict right = Some r" and "list_all item_wf r"
  shows "list_all result_item_ok m \<and>
    (\<forall>phase c. map_of l phase = Some (PDict c) \<longrightarrow>
       (\<exists>e. map_of m phase = Some (PDict e) \<and> entry_le c e))"
proof -
  have names: "phase_names_ok l" "phase_names_ok r"
    using assms(1-3) by (auto simp: merge_phase_results_def bad_def split: if_splits)
  then obtain safe where safe: "validated_source cred r = Inr safe"
    using assms(1-3) by (auto simp: merge_phase_results_def res_simps)
  have m: "(if l = [] then Inr safe else if safe = [] then validated_source cred l
        else rbind (rmap (merge_inherited cred safe) l) (\<lambda>merged.
               Inr (merged @ filter (\<lambda>(phase, _). phase \<notin> fst ` set merged) safe))) = Inr m"
    using assms(1-3) names safe by (simp add: merge_phase_results_def)
  note items = validated_source_items [OF safe names(2)]
  consider "l = []" "m = safe" | "validated_source cred l = Inr m"
    | merged where "rmap (merge_inherited cred safe) l = Inr merged"
      "m = merged @ filter (\<lambda>(phase, _). phase \<notin> fst ` set merged) safe"
  proof (cases "l = []")
    case True
    with m show thesis by (intro that(1)) simp_all
  next
    case l: False
    show thesis
    proof (cases "safe = []")
      case True
      with m l show thesis by (intro that(2)) simp
    next
      case False
      with m l obtain merged where "rmap (merge_inherited cred safe) l = Inr merged"
        by (auto simp only: rbind_Inr_iff if_False simp_thms)
      moreover from this have "merged @ filter (\<lambda>(phase, _). phase \<notin> fst ` set merged) safe = m"
        using m l False by simp
      ultimately show thesis using that(3) by blast
    qed
  qed
  then show ?thesis
  proof cases
    case 1
    with items(1) show ?thesis by (simp add: list_all_iff)
  next
    case 2
    have "\<exists>e. map_of m phase = Some (PDict e) \<and> entry_le c e" if "map_of l phase = Some (PDict c)" for phase c
      using list_all2_map_of [OF validated_source_ok [OF 2] that] by (auto simp: phase_item_ok_def)
    with validated_source_items(1) [OF 2 names(1)] show ?thesis by (simp add: list_all_iff)
  next
    case 3
    have each: "list_all2 (\<lambda>x y. fst y = fst x \<and> (\<exists>c e. snd x = PDict c \<and> snd y = PDict e \<and>
           \<not> bound_elsewhere e (fst x) \<and> entry_le c e)) l merged"
      using 3(1) merge_inherited_ok [OF _ items(2) [OF assms(4)]]
      by (auto simp: res_simps elim!: list_all2_mono)
    have "\<exists>e. map_of m phase = Some (PDict e) \<and> entry_le c e" if "map_of l phase = Some (PDict c)" for phase c
      using list_all2_map_of [OF each that] by (auto simp: 3(2) map_add_def split: option.splits)
    moreover have "result_item_ok y" if "y \<in> set merged" for y
      using list_all2_target [OF each that] names(1)
      by (fastforce simp: result_item_ok_def phase_names_ok_def)
    ultimately show ?thesis
      using items(1) by (auto simp: 3(2) list_all_iff)
  qed
qed

subsection \<open>Concrete runs\<close>

lemma merge_artifacts_example:
  "merge_artifacts (\<lambda>_ _ _ _. False) PNone (PList [PDict (id_row ''a'')]) = Inr [id_row ''a'']"
  using merge_id_rows [of "[]" "[id_row ''a'']" "\<lambda>_ _ _ _. False"] stable_id_row [of "''a''"]
  by (simp add: merge_artifacts_def append_unique_by_id_def bounded_exact_list_def
      MAX_DURABLE_ARTIFACTS_def nul_free_def)

lemma merge_artifacts_wf_witness:
  "distinct (map entry_id [id_row ''a''])"
  using merge_artifacts_wf [OF merge_artifacts_example] by blast

definition turn :: "string \<Rightarrow> int \<Rightarrow> pydict" where
  "turn i a = [(''id'', PStr i), (''phase'', PStr ''execution''), (''attempt'', PInt a)]"

lemma merge_dialogue_example:
  "merge_dialogue (\<lambda>_ _ _ _. False) (PList [PDict (turn ''a'' 1)]) (PList [PDict (turn ''b'' 2)])
    = Inr [turn ''b'' 2]"
proof -
  have "validate_reducer_json False (PDict (turn i a)) = Inr ()"
    if "length i = 1" "nul_free i" "a \<in> {1, 2}" for i a
    using that by (auto simp: validate_reducer_json_spec turn_def MAX_REDUCER_JSON_NODES_def nul_free_def
        wide_int_def)
  then have "stable_entry (\<lambda>_ _ _ _. False) (PDict (turn i a)) = Inr (turn i a)"
    if "length i = 1" "nul_free i" "a \<in> {1, 2}" for i a
    using that by (simp add: stable_entry_def turn_def dget_def)
  then show ?thesis
    by (simp add: merge_dialogue_def append_unique_by_id_def bounded_exact_list_def
        MAX_DURABLE_ARTIFACTS_def MAX_DURABLE_DIALOGUE_ENTRIES_def merge_lists_by_id_def entry_id_def
        dialogue_row_def dialogue_attempt_def latest_attempt_def turn_def nul_free_def dget_def)
qed

lemma validate_review_example:
  "validate_review_entry (\<lambda>_ _ _ _. False) (PDict [(''prompt'', PStr ''p'')]) = Inr ()"
  by (simp add: validate_review_entry_def review_walk.simps(2) review_key_ok_def nul_free_def dget_def)

lemma merge_application_reviews_single_witness:
  "\<not> scan (\<lambda>_ _ _ _. False) (PStr ''k'') \<and> review_key_ok ''k''"
proof -
  have "merge_application_reviews (\<lambda>_ _ _ _. False) PNone
      (PDict [(''k'', PDict [(''prompt'', PStr ''p'')])])
    = Inr [(''k'', PDict [(''prompt'', PStr ''p'')])]"
    by (simp add: merge_application_reviews_def validate_review_map_def review_item_ok_def Let_def
        validate_review_example review_key_ok_def nul_free_def scan_def strip_def is_space_def)
  from merge_application_reviews_single [OF this] show ?thesis by simp
qed

lemma merge_prompt_reviews_keys_witness:
  "''execution'' \<in> set PHASE_NAMES"
proof -
  have "merge_prompt_reviews (\<lambda>_ _ _ _. False) PNone
      (PDict [(''execution'', PDict [(''prompt'', PStr ''p'')])])
    = Inr [(''execution'', PDict [(''prompt'', PStr ''p'')])]"
    by (simp add: merge_prompt_reviews_def validate_review_map_def review_item_ok_def Let_def
        validate_review_example review_key_ok_def nul_free_def scan_def strip_def is_space_def
        PHASE_NAMES_def PHASE_ORDER_def)
  from merge_prompt_reviews_keys [OF this] show ?thesis by simp
qed

definition entry_at :: "string \<Rightarrow> int \<Rightarrow> pydict" where
  "entry_at s a = [(''status'', PStr s), (''attempt'', PInt a)]"

lemmas entry_eval = merge_phase_entry_def entry_latch_def bounded_phase_entry_def validate_phase_entry_def
  validate_phase_entry_json_def validate_reducer_json_def reducer_walk.simps(2)
  MAX_REDUCER_JSON_NODES_def phase_child_def BY_ID_FIELDS_def PLAIN_LIST_FIELDS_def
  optional_member_def optional_attempt_def STATUS_VALUES_def ALL_STATUSES_def
  TERMINAL_VALUES_def TERMINAL_PHASE_STATUSES_def PHASE_NAMES_def PHASE_ORDER_def
  scan_field_def locked_prompt_entry_def system_locked_prompt_def nul_free_def wide_int_def
  bound_by_id_field_def bound_plain_field_def dhas_def dget_def incoming_status_of_def bad_def

lemma merge_phase_results_example:
  "merge_phase_results (\<lambda>_ _ _ _. False)
     (PDict [(''execution'', PDict (entry_at ''failed'' 1))])
     (PDict [(''execution'', PDict (entry_at ''running'' 2))])
   = Inr [(''execution'', PDict (entry_at ''running'' 2))]"
  by (simp add: merge_phase_results_def opt_dict_def phase_names_ok_def validated_source_def
      validated_item_def merge_inherited_def bound_elsewhere_def entry_at_def entry_eval)

theorem merge_phase_results_ok_witness:
  "entry_le (entry_at ''failed'' 1) (entry_at ''running'' 2)"
  using merge_phase_results_ok [OF merge_phase_results_example,
      of "[(''execution'', PDict (entry_at ''failed'' 1))]" "[(''execution'', PDict (entry_at ''running'' 2))]"]
  by (simp add: opt_dict_def item_wf_def wf_dict_def entry_at_def all_conj_distrib split: if_splits)

end
