(* ===== verification/Pipeline_Plan.thy ===== *)
theory Pipeline_Plan
  imports Reducers
begin

text \<open>
  The run plan of the pipeline: the phase selection of a run configuration
  (src/apex/graphs/pipeline/configurable.py), the plan resolver and the router
  (src/apex/graphs/pipeline/graph.py), and the prerequisite check that a phase repeats when it
  starts (phase_subgraph.py, \<open>_prerequisite_error\<close>). The parsers of other modules and of
  Pydantic are fields of \<open>plan_services\<close>.
\<close>

subsection \<open>Run configuration\<close>

datatype executor = Langgraph | Hitl

datatype gate_mode = GATED | AUTO

record gate_policy =
  prompt_review :: gate_mode
  output_review :: gate_mode

definition GatePolicy :: gate_policy where
  "GatePolicy = \<lparr>prompt_review = GATED, output_review = GATED\<rparr>"

record analysis_selection =
  tool :: string
  connection_id :: string

record pipeline_configurable =
  phases :: "phase list option"
  rerun_phases :: "phase list option"
  phase_execution :: "(phase \<Rightarrow> executor) option"
  analysis :: "analysis_selection list option"
  start_phase :: "phase option"
  stop_after :: "phase option"
  gates :: "phase \<Rightarrow> gate_policy option"
  engine :: string
  cycle_dispatch_id :: "string option"
  prompt_selections :: bool
  prompt_manifest :: bool
  max_revise_loops :: nat
  max_dialogue_turns :: nat
  app_id :: "string option"

definition distinct_tools :: "analysis_selection list \<Rightarrow> bool" where
  "distinct_tools ss =
     (distinct (map (\<lambda>s. (tool s, if tool s = ''other'' then connection_id s else '''')) ss)
      \<and> distinct (map connection_id ss))"

definition engine_tools :: "string \<Rightarrow> string list" where
  "engine_tools eng =
     (if eng = ''loadrunner'' then [''lra_engine'', ''perfreportforge'', ''other'']
      else if eng = ''apex_load'' then [''internal_rca'', ''perfreportforge'', ''other'']
      else [])"

definition validate_engine :: "analysis_selection list \<Rightarrow> string \<Rightarrow> unit res" where
  "validate_engine ss eng =
     ensure (\<forall>s \<in> set ss. tool s \<in> set (engine_tools eng))
       (ValueError ''analysis tool is incompatible with the execution engine'')"

definition validate_phase_execution :: "pipeline_configurable \<Rightarrow> unit res" where
  "validate_phase_execution c =
     rbind (ensure (case rerun_phases c of
                      None \<Rightarrow> True
                    | Some rs \<Rightarrow> phase_execution c \<noteq> None
                        \<and> rs = filter (\<lambda>p. p \<in> set rs) PHASE_ORDER)
             (ValueError ''rerun_phases requires ownership and a unique canonical phase plan'')) (\<lambda>_.
     rbind (ensure (phase_execution c = None
                    \<or> (start_phase c = None \<and> stop_after c = None
                        \<and> (phases c = None \<or> phases c = Some PHASE_ORDER)))
             (ValueError ''phase ownership requires the full canonical plan without start/stop limits''))
     (\<lambda>_.
     rbind (case analysis c of None \<Rightarrow> Inr () | Some ss \<Rightarrow> validate_engine ss (engine c)) (\<lambda>_.
     ensure (\<not> (phase_execution c \<noteq> None \<and> engine c \<in> {''apex_load'', ''loadrunner''}
                \<and> (analysis c = None \<or> analysis c = Some [])))
       (ValueError ''select at least one compatible analysis tool''))))"

fun index_of :: "'a \<Rightarrow> 'a list \<Rightarrow> nat" where
  "index_of x [] = 0"
| "index_of x (y # ys) = (if x = y then 0 else Suc (index_of x ys))"

definition selected_phases :: "pipeline_configurable \<Rightarrow> phase list" where
  "selected_phases c =
     (case phases c of
        Some ps \<Rightarrow> filter (\<lambda>p. p \<in> set ps) PHASE_ORDER
      | None \<Rightarrow>
          (let start = (case start_phase c of None \<Rightarrow> 0 | Some p \<Rightarrow> index_of p PHASE_ORDER);
               stop = (case stop_after c of None \<Rightarrow> length PHASE_ORDER - 1
                                          | Some p \<Rightarrow> index_of p PHASE_ORDER)
           in if stop < start then [] else drop start (take (stop + 1) PHASE_ORDER)))"

definition planned_phases :: "pipeline_configurable \<Rightarrow> phase list" where
  "planned_phases c =
     (case rerun_phases c of
        Some rs \<Rightarrow> rs
      | None \<Rightarrow> if phase_execution c \<noteq> None then PHASE_ORDER else selected_phases c)"

definition executor_of :: "pipeline_configurable \<Rightarrow> phase \<Rightarrow> executor" where
  "executor_of c p = (case phase_execution c of None \<Rightarrow> Langgraph | Some own \<Rightarrow> own p)"

definition agent_phases :: "pipeline_configurable \<Rightarrow> phase list" where
  "agent_phases c = filter (\<lambda>p. executor_of c p = Langgraph) (planned_phases c)"

definition gate_policy_of :: "pipeline_configurable \<Rightarrow> phase \<Rightarrow> gate_policy" where
  "gate_policy_of c p = (case gates c p of None \<Rightarrow> GatePolicy | Some g \<Rightarrow> g)"

subsection \<open>Older snapshots\<close>

definition PRE_CYCLE_DISPATCH_FIELDS :: "string list" where
  "PRE_CYCLE_DISPATCH_FIELDS =
     [''assistant_id'', ''project_id'', ''app_id'', ''environment_id'', ''environment_target'',
      ''environment_target_version'', ''engine'', ''connections'', ''phases'', ''start_phase'',
      ''stop_after'', ''gates'', ''prompt_overrides'', ''pre_execution_context'',
      ''model_by_phase'', ''load_test'', ''agent_backend'', ''limits'']"

text \<open>The fields that each later schema added, in the order of the upgrade steps.\<close>

definition SNAPSHOT_GENERATIONS :: "string list list" where
  "SNAPSHOT_GENERATIONS =
     [[''cycle_dispatch_id''], [''prompt_selections'', ''prompt_manifest''],
      [''phase_execution'', ''analysis''], [''test_scope'', ''test_scope_snapshot''],
      [''rerun_phases''], [''aifx_snapshot'']]"

definition add_missing :: "string list \<Rightarrow> string list \<Rightarrow> pydict \<Rightarrow> pydict" where
  "add_missing known new snapshot =
     (if set (map fst snapshot) = set known
      then foldl (\<lambda>s k. dset k PNone s) snapshot new else snapshot)"

fun upgrade_snapshot :: "string list \<Rightarrow> string list list \<Rightarrow> pydict \<Rightarrow> pydict" where
  "upgrade_snapshot known [] snapshot = snapshot"
| "upgrade_snapshot known (new # later) snapshot =
     upgrade_snapshot (known @ new) later (add_missing known new snapshot)"

definition normalize_durable_pipeline_snapshot :: "pydict \<Rightarrow> pydict" where
  "normalize_durable_pipeline_snapshot snapshot =
     upgrade_snapshot PRE_CYCLE_DISPATCH_FIELDS SNAPSHOT_GENERATIONS snapshot"

subsection \<open>Plan resolution\<close>

definition checkpoint_attempt :: "pyval \<Rightarrow> int \<Rightarrow> int res" where
  "checkpoint_attempt value dflt =
     (case value of
        PNone \<Rightarrow> Inr dflt
      | PInt a \<Rightarrow> if 0 \<le> a \<and> a \<le> 1000000 then Inr a else bad ''checkpointed phase attempt is invalid''
      | _ \<Rightarrow> bad ''checkpointed phase attempt is invalid'')"

text \<open>\<open>PhaseResult(...).as_state()\<close>: every field of the model, with its default.\<close>

definition phase_result :: "phase \<Rightarrow> phase_status \<Rightarrow> int \<Rightarrow> pyval \<Rightarrow> pydict res" where
  "phase_result p st attempt summary =
     (if 1 \<le> attempt \<and> attempt \<le> 1000000
      then Inr [(''phase'', PStr (phase_value p)), (''status'', PStr (status_value st)),
                (''attempt'', PInt attempt), (''started_at'', PNone), (''ended_at'', PNone),
                (''duration_s'', PNone), (''summary'', summary), (''reasoning_digest'', PNone),
                (''transcript_ref'', PNone), (''artifact_ids'', PList []), (''warnings'', PList []),
                (''errors'', PList []), (''approvals'', PList []), (''tool_calls'', PList []),
                (''resolved_prompt_source'', PNone)]
      else bad ''attempt'')"

record external_results =
  ext_source :: string
  ext_uri :: "string option"
  ext_engine :: "string option"
  ext_passed :: "bool option"
  ext_outcome :: "(string \<times> pyval) option"
  ext_kpis :: pydict
  ext_summary :: "string option"
  ext_notes :: "string option"

definition opt_str :: "string option \<Rightarrow> pyval" where
  "opt_str v = (case v of None \<Rightarrow> PNone | Some s \<Rightarrow> PStr s)"

definition opt_bool :: "bool option \<Rightarrow> pyval" where
  "opt_bool v = (case v of None \<Rightarrow> PNone | Some b \<Rightarrow> PBool b)"

text \<open>\<open>a or b\<close> on an optional string.\<close>

definition or_str :: "string option \<Rightarrow> string \<Rightarrow> string" where
  "or_str v s = (case v of None \<Rightarrow> s | Some t \<Rightarrow> if t = [] then s else t)"

definition external_passed :: "external_results \<Rightarrow> pyval" where
  "external_passed r =
     (case ext_outcome r of
        Some (status, _) \<Rightarrow>
          (if status = ''passed'' then PBool True
           else if status = ''failed'' then PBool False else PNone)
      | None \<Rightarrow> opt_bool (ext_passed r))"

definition external_seed :: "external_results \<Rightarrow> int \<Rightarrow> (pydict \<times> pydict) res" where
  "external_seed r attempt =
     (let test_summary =
            [(''engine'', PStr (or_str (ext_engine r) (ext_source r))),
             (''passed'', external_passed r),
             (''outcome'', case ext_outcome r of None \<Rightarrow> PNone | Some (_, d) \<Rightarrow> d),
             (''kpis'', PDict (ext_kpis r)), (''sla_breaches'', PList []),
             (''notes'', opt_str (ext_notes r))];
          summary_text = or_str (ext_summary r) (''External results supplied by '' @ ext_source r)
      in rbind (phase_result EXECUTION SUCCEEDED attempt (PStr summary_text)) (\<lambda>base.
         Inr (dmerge base
                [(''test_summary'', PDict test_summary), (''external'', PBool True),
                 (''provenance'', PStr ''imported''),
                 (''source_outcome_explicit'',
                    PBool (ext_passed r \<noteq> None \<or> ext_outcome r \<noteq> None)),
                 (''source_uri'', opt_str (ext_uri r))],
              [(''id'', PStr ''external-results''), (''source'', PStr (ext_source r)),
               (''title'', PStr ''External results''), (''summary'', PStr summary_text),
               (''ref'', opt_str (ext_uri r)), (''text'', PNone)])))"

definition entry_status :: "pydict \<Rightarrow> string \<Rightarrow> pyval" where
  "entry_status existing name =
     (case dget existing name of PDict e \<Rightarrow> dget e ''status'' | _ \<Rightarrow> PNone)"

definition cycle_script :: "pipeline_configurable \<Rightarrow> phase \<Rightarrow> phase \<Rightarrow> bool" where
  "cycle_script c p q =
     ((case cycle_dispatch_id c of None \<Rightarrow> False | Some i \<Rightarrow> i \<noteq> [])
      \<and> p = EXECUTION \<and> q = SCRIPT_SCENARIO)"

definition quoted :: "string \<Rightarrow> string" where
  "quoted s = CHR 0x27 # s @ [CHR 0x27]"

definition unmet_prerequisite :: "phase \<Rightarrow> phase \<Rightarrow> unit res" where
  "unmet_prerequisite p q =
     bad (''Cannot run phase '' @ quoted (phase_value p) @ '': prerequisite '' @ quoted (phase_value q)
          @ '' is neither earlier in the selected plan nor succeeded on this thread.'')"

definition check_prerequisite ::
  "pipeline_configurable \<Rightarrow> phase list \<Rightarrow> pydict \<Rightarrow> phase \<Rightarrow> phase \<Rightarrow> unit res" where
  "check_prerequisite c selected existing p q =
     (if cycle_script c p q then Inr ()
      else if q \<in> set selected then Inr ()
      else if \<not> (case dget existing (phase_value q) of PNone \<Rightarrow> True | PDict _ \<Rightarrow> True | _ \<Rightarrow> False)
      then bad ''checkpointed prerequisite phase is invalid''
      else (case entry_status existing (phase_value q) of
              PNone \<Rightarrow> unmet_prerequisite p q
            | PStr s \<Rightarrow>
                if s = status_value SUCCEEDED then Inr () else unmet_prerequisite p q
            | _ \<Rightarrow> bad ''checkpointed prerequisite phase status is invalid''))"

definition check_prerequisites ::
  "pipeline_configurable \<Rightarrow> phase list \<Rightarrow> pydict \<Rightarrow> unit res" where
  "check_prerequisites c selected existing =
     for_each (\<lambda>p. for_each (check_prerequisite c selected existing p) (PHASE_PREREQUISITES p)) selected"

definition seed_attempt :: "pyval \<Rightarrow> int res" where
  "seed_attempt current =
     (case current of
        PNone \<Rightarrow> Inr 1
      | PDict e \<Rightarrow>
          (if \<not> optional_member (dget e ''status'') STATUS_VALUES
           then bad ''checkpointed phase status is invalid''
           else if dget e ''status'' \<in> PStr ` set TERMINAL_VALUES
           then rbind (checkpoint_attempt (dget e ''attempt'') 0) (\<lambda>a. Inr (a + 1))
           else if e \<noteq> [] then checkpoint_attempt (dget e ''attempt'') 1
           else Inr 1)
      | _ \<Rightarrow> bad ''checkpointed phase result is invalid'')"

definition seed_phase :: "pydict \<Rightarrow> phase \<Rightarrow> pydict res" where
  "seed_phase existing p =
     rbind (seed_attempt (dget existing (phase_value p))) (\<lambda>attempt.
     phase_result p PENDING attempt PNone)"

text \<open>
  What the resolver calls in other modules: the parsers of the run configuration, of the input,
  of an engine handle, of external results and of context packets, and the prompt resolver.
\<close>

record plan_services =
  input_ok :: "pydict \<Rightarrow> unit res"
  from_config :: "pyval \<Rightarrow> pipeline_configurable res"
  config_snapshot :: "pipeline_configurable \<Rightarrow> pyval"
  handle_canonical :: "pyval \<Rightarrow> bool"
  parse_external :: "pyval \<Rightarrow> external_results res"
  validate_packets :: "pyval \<Rightarrow> pydict list res"
  resolve_reviews :: "phase list \<Rightarrow> pipeline_configurable \<Rightarrow> pydict \<Rightarrow> (phase \<Rightarrow> pyval) res"

definition prompt_text :: "pyval \<Rightarrow> nat \<Rightarrow> string \<Rightarrow> string \<Rightarrow> string res" where
  "prompt_text v limit dflt label =
     (case v of
        PNone \<Rightarrow> Inr dflt
      | PStr s \<Rightarrow> if limit < length s \<or> \<not> nul_free s
                 then bad (''checkpointed pipeline '' @ label @ '' is invalid'')
                 else Inr (if s = [] then dflt else s)
      | _ \<Rightarrow> bad (''checkpointed pipeline '' @ label @ '' is invalid''))"

definition prompt_variables :: "scanner \<Rightarrow> pydict \<Rightarrow> pydict res" where
  "prompt_variables cred state =
     rbind (prompt_text (dget state ''title'') 500 ''untitled run'' ''title'') (\<lambda>title.
     rbind (prompt_text (dget state ''request'') 20000 ''(no request provided)'' ''request'') (\<lambda>request.
     (let variables = [(''title'', PStr title), (''request'', PStr request)]
      in if cred 4 250000 20564 (PDict variables)
         then bad ''checkpointed pipeline intent contains credential material''
         else Inr variables)))"

definition thread_id_ok :: "scanner \<Rightarrow> pyval \<Rightarrow> bool" where
  "thread_id_ok cred v =
     (case v of
        PStr s \<Rightarrow> s \<noteq> [] \<and> s = strip s \<and> length s \<le> 255 \<and> nul_free s \<and> \<not> scan cred v
      | _ \<Rightarrow> False)"

definition configurable_of :: "pyval \<Rightarrow> pydict res" where
  "configurable_of config =
     (case config of
        PDict d \<Rightarrow> (case dget d ''configurable'' of
                      PNone \<Rightarrow> Inr [] | PDict c \<Rightarrow> Inr c
                    | _ \<Rightarrow> bad ''pipeline run configuration is invalid'')
      | _ \<Rightarrow> bad ''pipeline run configuration is invalid'')"

definition existing_results :: "pyval \<Rightarrow> pydict res" where
  "existing_results raw =
     (case raw of
        PNone \<Rightarrow> Inr []
      | PDict d \<Rightarrow> if \<forall>(_, v) \<in> set d. (case v of PDict _ \<Rightarrow> True | _ \<Rightarrow> False) then Inr d
                  else bad ''checkpointed phase results are invalid''
      | _ \<Rightarrow> bad ''checkpointed phase results are invalid'')"

text \<open>The attempt that an external result supersedes the execution entry with.\<close>

definition external_execution ::
  "plan_services \<Rightarrow> phase list \<Rightarrow> pyval \<Rightarrow> pydict \<Rightarrow> (pydict \<times> pydict) option res" where
  "external_execution sv selected external existing =
     (if external \<noteq> PNone \<and> EXECUTION \<notin> set selected
      then rbind (case dget existing (phase_value EXECUTION) of
                    PNone \<Rightarrow> Inr [] | PDict e \<Rightarrow> Inr e
                  | _ \<Rightarrow> bad ''checkpointed execution phase is invalid'') (\<lambda>current.
           rbind (checkpoint_attempt (dget current ''attempt'') 0) (\<lambda>a.
           rbind (parse_external sv external) (\<lambda>r.
           rbind (external_seed r (max 1 (a + 1))) (\<lambda>seed. Inr (Some seed)))))
      else Inr None)"

record plan_update =
  u_phases_plan :: "string list"
  u_phase_results :: pydict
  u_run_config :: pyval
  u_prompt_reviews :: pydict
  u_clear_engine_handle :: bool
  u_context_packets :: "pydict list"

text \<open>
  The update also sets \<open>current_phase\<close> to None, \<open>run_aborted\<close> to False, consumes
  \<open>external_results\<close> and touches the accumulated channels with empty values.
\<close>

definition missing_reviews :: "pipeline_configurable \<Rightarrow> phase list \<Rightarrow> pydict \<Rightarrow> phase list" where
  "missing_reviews c selected reviews =
     filter (\<lambda>p. \<not> dhas reviews (phase_value p))
       (if phase_execution c \<noteq> None then agent_phases c
        else if prompt_selections c then selected else PHASE_ORDER)"

definition seed_reviews ::
  "plan_services \<Rightarrow> scanner \<Rightarrow> pipeline_configurable \<Rightarrow> phase list \<Rightarrow> pydict \<Rightarrow> pydict res" where
  "seed_reviews sv cred c selected state =
     rbind (case dget state ''prompt_reviews'' of
              PNone \<Rightarrow> Inr [] | PDict d \<Rightarrow> Inr d
            | _ \<Rightarrow> bad ''checkpointed prompt reviews are invalid'') (\<lambda>reviews.
     (let missing = missing_reviews c selected reviews
      in if missing = [] then Inr []
         else rbind (prompt_variables cred state) (\<lambda>vars.
              rbind (resolve_reviews sv missing c vars) (\<lambda>review.
              Inr (map (\<lambda>p. (phase_value p, review p)) missing)))))"

definition merged_packets ::
  "plan_services \<Rightarrow> pydict \<Rightarrow> pydict \<Rightarrow> pydict list res" where
  "merged_packets sv state packet =
     rbind (validate_packets sv (case dget state ''context_packets'' of PNone \<Rightarrow> PList [] | v \<Rightarrow> v))
       (\<lambda>current.
     rbind (validate_packets sv
              (PList (map PDict (filter (\<lambda>p. entry_id p \<noteq> entry_id packet) current @ [packet])))) (\<lambda>_.
     Inr [packet]))"

text \<open>The first half of the resolver: what it validates before it plans anything.\<close>

definition plan_input ::
  "plan_services \<Rightarrow> scanner \<Rightarrow> pydict \<Rightarrow> pyval \<Rightarrow> (pipeline_configurable \<times> pydict) res" where
  "plan_input sv cred state config =
     rbind (input_ok sv state) (\<lambda>_.
     rbind (from_config sv config) (\<lambda>c.
     rbind (ensure (prompt_selections c \<longrightarrow> prompt_manifest c)
             (ValueError ''This test is missing its persisted prompt manifest'')) (\<lambda>_.
     rbind (ensure (planned_phases c \<noteq> []) (ValueError ''Pipeline phase plan is empty'')) (\<lambda>_.
     rbind (configurable_of config) (\<lambda>configurable.
     rbind (ensure (thread_id_ok cred (dget configurable ''thread_id''))
             (ValueError ''pipeline runs require a durable thread_id; stateless runs are not allowed''))
       (\<lambda>_.
     rbind (ensure (dget state ''engine_handle'' = PNone
                    \<or> (\<not> scan cred (dget state ''engine_handle'')
                        \<and> handle_canonical sv (dget state ''engine_handle'')))
             (ValueError ''checkpointed engine handle is invalid'')) (\<lambda>_.
     rbind (existing_results (dget state ''phase_results'')) (\<lambda>stored.
     Inr (c, stored)))))))))"

definition external_entry :: "(pydict \<times> pydict) option \<Rightarrow> pydict" where
  "external_entry external =
     (case external of None \<Rightarrow> [] | Some (e, _) \<Rightarrow> [(phase_value EXECUTION, PDict e)])"

definition seed_phases :: "pydict \<Rightarrow> phase list \<Rightarrow> pydict res" where
  "seed_phases existing selected =
     rmap (\<lambda>p. rbind (seed_phase existing p) (\<lambda>e. Inr (phase_value p, PDict e))) selected"

definition plan_resolver ::
  "plan_services \<Rightarrow> scanner \<Rightarrow> pydict \<Rightarrow> pyval \<Rightarrow> plan_update res" where
  "plan_resolver sv cred state config =
     rbind (plan_input sv cred state config) (\<lambda>(c, stored).
     (let selected = planned_phases c in
     rbind (external_execution sv selected (dget state ''external_results'') stored) (\<lambda>external.
     (let existing = dmerge stored (external_entry external) in
     rbind (check_prerequisites c selected existing) (\<lambda>_.
     rbind (seed_phases existing selected) (\<lambda>seeded.
     rbind (seed_reviews sv cred c selected state) (\<lambda>reviews.
     rbind (case external of None \<Rightarrow> Inr [] | Some (_, packet) \<Rightarrow> merged_packets sv state packet)
       (\<lambda>packets.
     Inr \<lparr>u_phases_plan = map phase_value selected,
          u_phase_results = external_entry external @ seeded,
          u_run_config = config_snapshot sv c,
          u_prompt_reviews = reviews,
          u_clear_engine_handle = (EXECUTION \<in> set selected),
          u_context_packets = packets\<rparr>))))))))"

subsection \<open>Routing\<close>

record route_state =
  run_aborted :: pyval
  phase_results :: pyval
  phases_plan :: pyval
  run_config :: pyval

definition plan_names :: "scanner \<Rightarrow> pyval \<Rightarrow> string list res" where
  "plan_names cred plan =
     (let err = bad ''checkpointed phase plan is invalid''
      in case plan of
        PNone \<Rightarrow> Inr []
      | PList vs \<Rightarrow>
          (if length PHASE_NAMES < length vs \<or> \<not> list_all is_str vs then err
           else (let names = map str_of vs
                 in if \<not> list_all (\<lambda>n. 1 \<le> length n \<and> length n \<le> 64 \<and> nul_free n
                                    \<and> \<not> scan cred (PStr n) \<and> n \<in> set PHASE_NAMES) names
                       \<or> \<not> distinct names
                       \<or> names \<noteq> filter (\<lambda>n. n \<in> set names) PHASE_NAMES
                    then err else Inr names))
      | _ \<Rightarrow> err)"

fun first_open :: "pydict \<Rightarrow> string list \<Rightarrow> string option res" where
  "first_open results [] = Inr None"
| "first_open results (name # names) =
     (case dget results name of
        PNone \<Rightarrow> Inr (Some name)
      | PDict e \<Rightarrow>
          (if \<not> optional_member (dget e ''status'') STATUS_VALUES
           then bad ''checkpointed phase status is invalid''
           else if e = [] \<or> dget e ''status'' \<notin> PStr ` set TERMINAL_VALUES then Inr (Some name)
           else first_open results names)
      | _ \<Rightarrow> bad ''checkpointed phase result is invalid'')"

text \<open>
  \<open>from_state\<close> stands for \<open>PipelineConfigurable.from_state\<close>, which parses the durable snapshot
  and compares it with the live configuration; None is the graph's END.
\<close>

definition route_next_phase ::
  "scanner \<Rightarrow> (pyval \<Rightarrow> pipeline_configurable res) \<Rightarrow> route_state \<Rightarrow> string option res" where
  "route_next_phase cred from_state s =
     (case run_aborted s of
        PBool True \<Rightarrow> Inr None
      | v \<Rightarrow>
        if v \<noteq> PNone \<and> v \<noteq> PBool False then bad ''checkpointed run abort flag is invalid''
        else rbind (case phase_results s of
                      PNone \<Rightarrow> Inr [] | PDict d \<Rightarrow> Inr d
                    | _ \<Rightarrow> bad ''checkpointed phase results are invalid'') (\<lambda>results.
        rbind (plan_names cred (phases_plan s)) (\<lambda>plan.
        rbind (if run_config s = PNone then Inr ()
               else rbind (from_state (run_config s)) (\<lambda>c.
                    ensure (plan = map phase_value (planned_phases c))
                      (ValueError ''checkpointed pipeline phase plan does not match its durable configuration'')))
          (\<lambda>_. first_open results plan))))"

definition prerequisite_error ::
  "pipeline_configurable option \<Rightarrow> pyval \<Rightarrow> phase \<Rightarrow> string option res" where
  "prerequisite_error c raw p =
     rbind (case raw of PNone \<Rightarrow> Inr [] | PDict d \<Rightarrow> Inr d
            | _ \<Rightarrow> bad ''checkpointed phase results are invalid'') (\<lambda>results.
     rfold (\<lambda>q found.
       (if found \<noteq> None \<or> (case c of None \<Rightarrow> False | Some cfg \<Rightarrow> cycle_script cfg p q) then Inr found
        else if \<not> (case dget results (phase_value q) of PNone \<Rightarrow> True | PDict _ \<Rightarrow> True | _ \<Rightarrow> False)
        then bad ''checkpointed prerequisite phase result is invalid''
        else (let status = entry_status results (phase_value q)
              in if \<not> optional_member status STATUS_VALUES
                 then bad ''checkpointed prerequisite phase status is invalid''
                 else if status = PStr (status_value SUCCEEDED) then Inr None
                 else Inr (Some (''Cannot run phase '' @ quoted (phase_value p) @ '': prerequisite ''
                   @ quoted (phase_value q) @ '' ended with status ''
                   @ quoted (if status = PNone then ''missing'' else str_of status) @ ''.'')))))
       (PHASE_PREREQUISITES p) None)"

text \<open>
  The compiled graph: the router picks a node, the node updates the state, and the router runs
  again. \<open>node\<close> stands for a phase subgraph; the fuel bounds the number of routings, and None
  means that it ran out.
\<close>

fun run_pipeline ::
  "(route_state \<Rightarrow> string option res) \<Rightarrow> (string \<Rightarrow> route_state \<Rightarrow> route_state) \<Rightarrow> nat \<Rightarrow>
   route_state \<Rightarrow> string list res option" where
  "run_pipeline route node 0 s = None"
| "run_pipeline route node (Suc n) s =
     (case route s of
        Inl e \<Rightarrow> Some (Inl e)
      | Inr None \<Rightarrow> Some (Inr [])
      | Inr (Some p) \<Rightarrow>
          map_option (\<lambda>r. rbind r (\<lambda>visited. Inr (p # visited)))
            (run_pipeline route node n (node p s)))"

text \<open>The state of the thread once the update of the resolver is merged; \<open>results\<close> are the merged phase
  results.\<close>

definition resolved_run :: "plan_update \<Rightarrow> pydict \<Rightarrow> route_state" where
  "resolved_run u results =
     \<lparr>run_aborted = PBool False, phase_results = PDict results,
      phases_plan = PList (map PStr (u_phases_plan u)), run_config = u_run_config u\<rparr>"

subsection \<open>Facts: the plan\<close>

lemma sorted_wrt_sublist:
  "sorted_wrt R xs \<Longrightarrow> sorted_wrt R (filter P xs)"
  "sorted_wrt R xs \<Longrightarrow> sorted_wrt R (drop i (take j xs))"
  by (simp_all add: sorted_wrt_filter sorted_wrt_take sorted_wrt_drop)

lemma selected_phases_sorted: "sorted_wrt (<) (selected_phases c)"
  by (auto simp: selected_phases_def Let_def PHASE_ORDER_sorted
      intro: sorted_wrt_sublist split: option.splits)

lemma planned_phases_sorted:
  assumes "validate_phase_execution c = Inr ()"
  shows "sorted_wrt (<) (planned_phases c)"
proof (cases "rerun_phases c")
  case None
  then show ?thesis
    by (auto simp: planned_phases_def selected_phases_sorted PHASE_ORDER_sorted)
next
  case (Some rs)
  then have "rs = filter (\<lambda>p. p \<in> set rs) PHASE_ORDER"
    using assms by (simp add: validate_phase_execution_def res_simps)
  then have "sorted_wrt (<) rs"
    using sorted_wrt_sublist(1) [OF PHASE_ORDER_sorted] by metis
  with Some show ?thesis by (simp add: planned_phases_def)
qed

text \<open>A validated configuration plans each phase at most once and in canonical order, and a run with
  phase ownership and no rerun window plans all seven.
\<close>

lemma planned_phases_canonical:
  assumes "validate_phase_execution c = Inr ()"
  shows "sorted_wrt (<) (planned_phases c) \<and> distinct (planned_phases c)
    \<and> length (planned_phases c) \<le> length PHASE_ORDER
    \<and> (phase_execution c \<noteq> None \<and> rerun_phases c = None \<longrightarrow> planned_phases c = PHASE_ORDER)"
proof -
  have s: "sorted_wrt (<) (planned_phases c)"
    by (rule planned_phases_sorted [OF assms])
  then have d: "distinct (planned_phases c)"
    by (simp add: strict_sorted_iff)
  have "length (planned_phases c) = card (set (planned_phases c))"
    using d by (simp add: distinct_card)
  also have "\<dots> \<le> card (set PHASE_ORDER)"
    by (intro card_mono) auto
  also have "\<dots> = length PHASE_ORDER"
    by (simp add: distinct_card)
  finally show ?thesis
    using s d by (auto simp: planned_phases_def)
qed

lemma check_prerequisites_ok:
  "check_prerequisites c sel ex = Inr u \<longleftrightarrow>
     (\<forall>p \<in> set sel. \<forall>q \<in> set (PHASE_PREREQUISITES p). check_prerequisite c sel ex p q = Inr ())"
  by (simp add: check_prerequisites_def res_simps)

lemma check_prerequisite_ok:
  "check_prerequisite c sel ex p q = Inr () \<longleftrightarrow>
     cycle_script c p q \<or> q \<in> set sel \<or> entry_status ex (phase_value q) = PStr (status_value SUCCEEDED)"
  by (auto simp: check_prerequisite_def unmet_prerequisite_def bad_def entry_status_def split: pyval.splits if_splits)

text \<open>What a successful resolution went through.\<close>

lemma plan_resolver_inv:
  assumes "plan_resolver sv cred state config = Inr u"
  obtains c stored ext seeded where "plan_input sv cred state config = Inr (c, stored)"
    "external_execution sv (planned_phases c) (dget state ''external_results'') stored = Inr ext"
    "check_prerequisites c (planned_phases c) (dmerge stored (external_entry ext)) = Inr ()"
    "seed_phases (dmerge stored (external_entry ext)) (planned_phases c) = Inr seeded"
    "u_phases_plan u = map phase_value (planned_phases c)"
    "u_phase_results u = external_entry ext @ seeded"
    "u_clear_engine_handle u \<longleftrightarrow> EXECUTION \<in> set (planned_phases c)"
  using assms
  by (auto simp: plan_resolver_def rbind_Inr_iff Let_def)

lemma plan_input_inv:
  "plan_input sv cred state config = Inr (c, stored) \<Longrightarrow>
     from_config sv config = Inr c \<and> planned_phases c \<noteq> []
     \<and> existing_results (dget state ''phase_results'') = Inr stored"
  by (auto simp: plan_input_def rbind_Inr_iff ensure_Inr_iff)

lemma external_execution_selected:
  "external_execution sv sel ext stored = Inr (Some x) \<Longrightarrow> EXECUTION \<notin> set sel"
  by (auto simp: external_execution_def split: if_splits)

lemma external_execution_seed:
  assumes "external_execution sv sel ext stored = Inr (Some (e, pk))"
  shows "dget e ''status'' = PStr (status_value SUCCEEDED)"
  using assms
  by (auto simp: external_execution_def external_seed_def phase_result_def rbind_Inr_iff Let_def bad_def
      dget_dmerge dget_def dhas_def split: if_splits)

lemma phase_value_execution: "phase_value q = ''execution'' \<longleftrightarrow> q = EXECUTION"
  by (cases q) simp_all

lemma sorted_before:
  "sorted_wrt (<) (xs @ p # ys) \<Longrightarrow> q \<in> set (xs @ p # ys) \<Longrightarrow> q < p \<Longrightarrow> q \<in> set xs"
  for p :: phase
  by (auto simp: sorted_wrt_append)

text \<open>
  C3. A resolved plan never starts a phase on missing work: each prerequisite of a planned phase is
  planned strictly before it, has succeeded on the thread, comes from the external results that
  this update seeds as a succeeded execution, or is the script of a bound cycle dispatch.
\<close>

theorem plan_resolver_prerequisites:
  assumes "plan_resolver sv cred state config = Inr u" and "from_config sv config = Inr c"
    and "validate_phase_execution c = Inr ()"
    and "planned_phases c = before @ p # after" and "q \<in> set (PHASE_PREREQUISITES p)"
  shows "q \<in> set before
    \<or> cycle_script c p q
    \<or> entry_status (case dget state ''phase_results'' of PDict d \<Rightarrow> d | _ \<Rightarrow> []) (phase_value q)
        = PStr (status_value SUCCEEDED)
    \<or> (q = EXECUTION \<and> dget state ''external_results'' \<noteq> PNone
        \<and> entry_status (u_phase_results u) (phase_value q) = PStr (status_value SUCCEEDED))"
proof -
  obtain c' stored ext seeded where inp: "plan_input sv cred state config = Inr (c', stored)"
    and ext: "external_execution sv (planned_phases c') (dget state ''external_results'') stored = Inr ext"
    and ok: "check_prerequisites c' (planned_phases c') (dmerge stored (external_entry ext)) = Inr ()"
    and res: "u_phase_results u = external_entry ext @ seeded"
    by (rule plan_resolver_inv [OF assms(1)])
  have [simp]: "c' = c" and st: "existing_results (dget state ''phase_results'') = Inr stored"
    using plan_input_inv [OF inp] assms(2) by auto
  let ?ex = "dmerge stored (external_entry ext)"
  have stored: "stored = (case dget state ''phase_results'' of PDict d \<Rightarrow> d | _ \<Rightarrow> [])"
    using st by (auto simp: existing_results_def bad_def split: pyval.splits if_splits)
  have "check_prerequisite c (planned_phases c) ?ex p q = Inr ()"
    using ok assms(4,5) by (auto simp: check_prerequisites_ok)
  then consider "cycle_script c p q" | "q \<in> set (planned_phases c)"
    | "entry_status ?ex (phase_value q) = PStr (status_value SUCCEEDED)"
    by (auto simp: check_prerequisite_ok)
  then show ?thesis
  proof cases
    case 2
    then show ?thesis
      using sorted_before planned_phases_sorted [OF assms(3)] prerequisite_earlier [OF assms(5)]
      unfolding assms(4) by blast
  next
    case 3
    show ?thesis
    proof (cases "ext = None \<or> q \<noteq> EXECUTION")
      case True
      with 3 have "entry_status stored (phase_value q) = PStr (status_value SUCCEEDED)"
        by (auto simp: entry_status_def dget_dset phase_value_execution external_entry_def split: option.splits)
      with stored show ?thesis by simp
    next
      case False
      then obtain e pk where e: "ext = Some (e, pk)" by auto
      moreover have "dget state ''external_results'' \<noteq> PNone"
        using ext e by (auto simp: external_execution_def split: if_splits)
      ultimately show ?thesis
        using False ext external_execution_seed [of sv "planned_phases c"]
        by (auto simp: res entry_status_def dget_def external_entry_def)
    qed
  qed simp
qed


lemma seed_phases_get:
  assumes "seed_phases ex sel = Inr seeded" and "p \<in> set sel" and "distinct sel"
  shows "\<exists>e. seed_phase ex p = Inr e \<and> map_of seeded (phase_value p) = Some (PDict e)"
  using assms
proof (induction sel arbitrary: seeded)
  case (Cons q sel)
  then show ?case
    by (auto simp: seed_phases_def rbind_Inr_iff phase_value_inj)
qed simp

lemma seed_phase_dict:
  assumes "seed_phase ex p = Inr e"
  shows "\<exists>a. seed_attempt (dget ex (phase_value p)) = Inr a \<and> 1 \<le> a \<and> a \<le> 1000000
    \<and> phase_result p PENDING a PNone = Inr e \<and> dget e ''attempt'' = PInt a
    \<and> dget e ''status'' = PStr (status_value PENDING) \<and> map_of e ''status'' \<noteq> None"
  using assms by (auto simp: seed_phase_def rbind_Inr_iff phase_result_def bad_def dget_def split: if_splits)

lemma terminal_entry_iff: "terminal_entry e \<longleftrightarrow> dget e ''status'' \<in> PStr ` set TERMINAL_VALUES"
  by (cases "dget e ''status''") (auto simp: terminal_entry_def)

text \<open>A seed either starts the next attempt of its entry or keeps a non-terminal one.\<close>

lemma seed_attempt_latch:
  assumes "seed_attempt (PDict cur) = Inr a" and "optional_attempt (dget cur ''attempt'')"
    and "dget e ''attempt'' = PInt a" and "1 \<le> a" and "a \<le> 1000000"
  shows "entry_latch cur e = Inr ()"
proof (cases "terminal_entry cur")
  case True
  with assms show ?thesis
    by (auto simp: seed_attempt_def checkpoint_attempt_def rbind_Inr_iff bad_def terminal_entry_iff
        entry_latch_def optional_attempt_def Let_def split: if_splits pyval.splits)
next
  case False
  with assms show ?thesis
    by (auto simp: seed_attempt_def checkpoint_attempt_def rbind_Inr_iff bad_def terminal_entry_def
        terminal_entry_iff entry_latch_def optional_attempt_def Let_def split: if_splits pyval.splits)
qed

text \<open>
  The resolver and the phase-results reducer agree: every planned phase is seeded as a pending
  entry, and if the checkpointed attempt is valid, the reducer's latch accepts the seed, so a
  rerun of a finished phase is a new attempt and never rewrites a terminal status.
\<close>

lemma plan_resolver_seeds_accepted:
  assumes "plan_resolver sv cred state config = Inr u" and "from_config sv config = Inr c"
    and "validate_phase_execution c = Inr ()" and "p \<in> set (planned_phases c)"
  shows "\<exists>e. map_of (u_phase_results u) (phase_value p) = Some (PDict e)
    \<and> dget e ''status'' = PStr (status_value PENDING) \<and> 1 \<le> attempt_num e
    \<and> (\<forall>d cur. dget state ''phase_results'' = PDict d \<longrightarrow> dget d (phase_value p) = PDict cur \<longrightarrow>
         optional_attempt (dget cur ''attempt'') \<longrightarrow> entry_latch cur e = Inr ())"
proof -
  obtain c' stored ext seeded where inp: "plan_input sv cred state config = Inr (c', stored)"
    and ext: "external_execution sv (planned_phases c') (dget state ''external_results'') stored = Inr ext"
    and seeds: "seed_phases (dmerge stored (external_entry ext)) (planned_phases c') = Inr seeded"
    and res: "u_phase_results u = external_entry ext @ seeded"
    by (rule plan_resolver_inv [OF assms(1)])
  have [simp]: "c' = c" and st: "existing_results (dget state ''phase_results'') = Inr stored"
    using plan_input_inv [OF inp] assms(2) by auto
  have "distinct (planned_phases c)"
    using planned_phases_sorted [OF assms(3)] by (simp add: strict_sorted_iff)
  then obtain e where e: "seed_phase (dmerge stored (external_entry ext)) p = Inr e"
    "map_of seeded (phase_value p) = Some (PDict e)"
    using seed_phases_get [OF seeds] assms(4) by auto
  have other: "ext = None \<or> p \<noteq> EXECUTION"
    using ext external_execution_selected assms(4) by (cases ext) auto
  have get: "dget (dmerge stored (external_entry ext)) (phase_value p) = dget stored (phase_value p)"
    and map: "map_of (u_phase_results u) (phase_value p) = Some (PDict e)"
    using other e(2)
    by (auto simp: res external_entry_def dget_dset phase_value_execution split: option.splits)
  have stored: "stored = d" if "dget state ''phase_results'' = PDict d" for d
    using st that by (auto simp: existing_results_def bad_def split: if_splits)
  obtain a where a: "seed_attempt (dget stored (phase_value p)) = Inr a" "1 \<le> a" "a \<le> 1000000"
    "dget e ''attempt'' = PInt a" "dget e ''status'' = PStr (status_value PENDING)"
    using seed_phase_dict [OF e(1)] get by auto
  have "entry_latch cur e = Inr ()"
    if "dget state ''phase_results'' = PDict d" "dget d (phase_value p) = PDict cur"
      "optional_attempt (dget cur ''attempt'')" for d cur
    using seed_attempt_latch [of cur a e] a that stored by simp
  with map a show ?thesis by (auto simp: attempt_num_def)
qed

subsection \<open>Facts: routing\<close>

definition closed_phase :: "pydict \<Rightarrow> string \<Rightarrow> bool" where
  "closed_phase d name = (case dget d name of PDict e \<Rightarrow> terminal_entry e | _ \<Rightarrow> False)"

definition readable_phase :: "pydict \<Rightarrow> string \<Rightarrow> bool" where
  "readable_phase d name =
     (case dget d name of PNone \<Rightarrow> True
      | PDict e \<Rightarrow> optional_member (dget e ''status'') STATUS_VALUES | _ \<Rightarrow> False)"

lemma first_open_spec:
  "\<forall>n \<in> set names. readable_phase d n \<Longrightarrow>
   first_open d names = Inr (case filter (\<lambda>n. \<not> closed_phase d n) names of [] \<Rightarrow> None | n # _ \<Rightarrow> Some n)"
  by (induction names)
    (auto simp: readable_phase_def closed_phase_def terminal_entry_iff split: pyval.splits)

lemma first_open_sound:
  "first_open d names = Inr (Some n) \<Longrightarrow>
     \<exists>before after. names = before @ n # after \<and> (\<forall>m \<in> set before. closed_phase d m) \<and> \<not> closed_phase d n"
  "first_open d names = Inr None \<Longrightarrow> \<forall>m \<in> set names. closed_phase d m"
proof (induction names)
  case (Cons m names)
  { case 1
    show ?case
    proof (cases "closed_phase d m")
      case True
      then have "first_open d names = Inr (Some n)"
        using 1 by (auto simp: closed_phase_def terminal_entry_iff bad_def split: pyval.splits if_splits)
      then obtain before after where "names = before @ n # after" "\<forall>m \<in> set before. closed_phase d m"
        "\<not> closed_phase d n"
        using Cons.IH(1) by blast
      with True show ?thesis by (intro exI [of _ "m # before"] exI [of _ after]) auto
    next
      case False
      then have "n = m"
        using 1 by (auto simp: closed_phase_def terminal_entry_iff bad_def split: pyval.splits if_splits)
      with False show ?thesis by (intro exI [of _ "[]"] exI [of _ names]) auto
    qed
  next
    case 2
    then show ?case
      using Cons.IH(2)
      by (auto simp: closed_phase_def terminal_entry_iff bad_def split: pyval.splits if_splits) }
qed simp_all

definition results_of :: "route_state \<Rightarrow> pydict" where
  "results_of s = (case phase_results s of PDict d \<Rightarrow> d | _ \<Rightarrow> [])"

lemma route_next_phase_inv:
  assumes "route_next_phase cred from_state s = Inr r" and "run_aborted s \<noteq> PBool True"
  shows "\<exists>plan. plan_names cred (phases_plan s) = Inr plan \<and> first_open (results_of s) plan = Inr r
    \<and> (run_config s \<noteq> PNone \<longrightarrow> (\<exists>c. from_state (run_config s) = Inr c \<and> plan = map phase_value (planned_phases c)))"
  using assms
  by (auto simp: route_next_phase_def rbind_Inr_iff ensure_Inr_iff bad_def results_of_def
      split: pyval.splits bool.splits if_splits)

text \<open>
  The router sends a run only to the first phase of its plan that is not finished: everything
  planned before it has a terminal status, the run is not aborted, and with a durable
  configuration the plan is exactly the one that configuration selects.
\<close>

lemma route_next_phase_first_open:
  assumes "route_next_phase cred from_state s = Inr (Some name)"
  shows "\<exists>before after. plan_names cred (phases_plan s) = Inr (before @ name # after)
    \<and> (\<forall>n \<in> set before. closed_phase (results_of s) n) \<and> \<not> closed_phase (results_of s) name
    \<and> run_aborted s \<noteq> PBool True
    \<and> (run_config s \<noteq> PNone \<longrightarrow> (\<exists>c. from_state (run_config s) = Inr c
          \<and> before @ name # after = map phase_value (planned_phases c)))"
proof -
  have "run_aborted s \<noteq> PBool True"
    using assms by (auto simp: route_next_phase_def)
  then show ?thesis
    using route_next_phase_inv [OF assms] first_open_sound(1) by metis
qed

lemma plan_names_distinct: "plan_names cred v = Inr plan \<Longrightarrow> distinct plan \<and> set plan \<subseteq> set PHASE_NAMES"
  by (auto simp: plan_names_def Let_def bad_def list_all_iff split: pyval.splits if_splits)

text \<open>What a phase subgraph owes the router: it closes its own phase and keeps the rest.\<close>

definition closes_phase :: "(string \<Rightarrow> route_state \<Rightarrow> route_state) \<Rightarrow> bool" where
  "closes_phase node =
     (\<forall>p s. phases_plan (node p s) = phases_plan s \<and> run_config (node p s) = run_config s
        \<and> run_aborted (node p s) \<in> {PBool True, run_aborted s}
        \<and> (\<exists>d. phase_results (node p s) = PDict d)
        \<and> closed_phase (results_of (node p s)) p \<and> readable_phase (results_of (node p s)) p
        \<and> (\<forall>n. n \<noteq> p \<longrightarrow> dget (results_of (node p s)) n = dget (results_of s) n))"

text \<open>From any state of a run, resumed ones included, the routing ends.\<close>

lemma run_pipeline_ends:
  assumes "closes_phase node"
    and "plan_names cred (phases_plan s) = Inr plan"
    and "run_config s = PNone \<or> (\<exists>c. from_state (run_config s) = Inr c \<and> plan = map phase_value (planned_phases c))"
    and "phase_results s = PNone \<or> (\<exists>d. phase_results s = PDict d)"
    and "run_aborted s \<in> {PNone, PBool False, PBool True}"
    and "\<forall>n \<in> set plan. readable_phase (results_of s) n"
    and "length (filter (\<lambda>n. \<not> closed_phase (results_of s) n) plan) < fuel"
  shows "\<exists>visited. run_pipeline (route_next_phase cred from_state) node fuel s = Some (Inr visited)
    \<and> prefix visited (filter (\<lambda>n. \<not> closed_phase (results_of s) n) plan)
    \<and> (run_aborted s \<noteq> PBool True \<and> (\<forall>p t. run_aborted (node p t) = run_aborted t) \<longrightarrow>
         visited = filter (\<lambda>n. \<not> closed_phase (results_of s) n) plan)"
  using assms
proof (induction fuel arbitrary: s)
  case (Suc fuel)
  let ?open = "filter (\<lambda>n. \<not> closed_phase (results_of s) n) plan"
  show ?case
  proof (cases "run_aborted s = PBool True")
    case True
    then show ?thesis by (simp add: route_next_phase_def)
  next
    case False
    have route: "route_next_phase cred from_state s = Inr (case ?open of [] \<Rightarrow> None | n # _ \<Rightarrow> Some n)"
      using False Suc.prems first_open_spec [OF Suc.prems(6)]
      by (auto simp: route_next_phase_def results_of_def)
    show ?thesis
    proof (cases ?open)
      case Nil
      with route show ?thesis by simp
    next
      case (Cons n rest)
      let ?t = "node n s"
      note node = Suc.prems(1) [unfolded closes_phase_def, rule_format, of n s]
      have dist: "distinct plan" using plan_names_distinct [OF Suc.prems(2)] by simp
      have same: "dget (results_of ?t) m = dget (results_of s) m" if "m \<noteq> n" for m
        using node that by blast
      then have closed: "closed_phase (results_of ?t) m \<longleftrightarrow> m = n \<or> closed_phase (results_of s) m" for m
        using node by (cases "m = n") (auto simp: closed_phase_def)
      have "filter (\<lambda>m. \<not> closed_phase (results_of ?t) m) plan = filter (\<lambda>m. m \<noteq> n) ?open"
        by (simp add: closed filter_filter conj_commute cong: filter_cong)
      also have "\<dots> = rest"
        using distinct_filter [OF dist, of "\<lambda>n. \<not> closed_phase (results_of s) n"] Cons
        by (auto intro: filter_True)
      finally have still: "filter (\<lambda>m. \<not> closed_phase (results_of ?t) m) plan = rest" .
      have "\<exists>visited. run_pipeline (route_next_phase cred from_state) node fuel ?t = Some (Inr visited)
          \<and> prefix visited rest
          \<and> (run_aborted ?t \<noteq> PBool True \<and> (\<forall>p t. run_aborted (node p t) = run_aborted t) \<longrightarrow> visited = rest)"
        unfolding still [symmetric]
      proof (rule Suc.IH)
        show "\<forall>m \<in> set plan. readable_phase (results_of ?t) m"
        proof
          fix m assume "m \<in> set plan"
          with Suc.prems(6) node show "readable_phase (results_of ?t) m"
            by (cases "m = n") (auto simp: readable_phase_def same)
        qed
        show "length (filter (\<lambda>m. \<not> closed_phase (results_of ?t) m) plan) < fuel"
          using Suc.prems(7) unfolding still Cons by simp
      qed (use Suc.prems(1-5) node in auto)
      then show ?thesis
        using route False by (auto simp: Cons)
    qed
  qed
qed simp

lemma plan_names_phases:
  assumes "\<And>p. \<not> scan cred (PStr (phase_value p))" and "sorted_wrt (<) ps"
  shows "plan_names cred (PList (map PStr (map phase_value ps))) = Inr (map phase_value ps)"
proof -
  have "distinct ps" using assms(2) by (simp add: strict_sorted_iff)
  have all: "p \<in> set PHASE_ORDER" for p by (cases p) (simp_all add: PHASE_ORDER_def)
  have "length ps = card (set ps)" using \<open>distinct ps\<close> by (simp add: distinct_card)
  also have "\<dots> \<le> card (set PHASE_ORDER)" by (rule card_mono) (use all in auto)
  also have "\<dots> \<le> length PHASE_NAMES"
    using card_length [of PHASE_ORDER] by (simp add: PHASE_NAMES_def)
  finally have len: "length ps \<le> length PHASE_NAMES" .
  have one: "1 \<le> length (phase_value p) \<and> length (phase_value p) \<le> 64 \<and> nul_free (phase_value p)
      \<and> \<not> scan cred (PStr (phase_value p)) \<and> phase_value p \<in> set PHASE_NAMES" for p
    using assms(1) [of p] imageI [OF all [of p], of phase_value]
    by (cases p) (simp_all add: nul_free_def PHASE_NAMES_def)
  have "ps = filter (\<lambda>p. p \<in> set ps) PHASE_ORDER"
    using assms(2) all \<open>distinct ps\<close>
    by (intro sorted_distinct_set_unique)
      (auto simp: strict_sorted_iff PHASE_ORDER_sorted [unfolded strict_sorted_iff] sorted_wrt_filter intro: sorted_filter [of id, simplified])
  then have "map phase_value ps = map phase_value (filter (\<lambda>p. p \<in> set ps) PHASE_ORDER)"
    by (rule arg_cong)
  also have "\<dots> = filter (\<lambda>n. n \<in> set (map phase_value ps)) PHASE_NAMES"
    by (auto simp: PHASE_NAMES_def filter_map o_def phase_value_inj inj_image_mem_iff intro!: arg_cong [of _ _ "map phase_value"] filter_cong)
  finally have order: "map phase_value ps = filter (\<lambda>n. n \<in> set (map phase_value ps)) PHASE_NAMES" .
  have "distinct (map phase_value ps)"
    using \<open>distinct ps\<close> by (simp add: distinct_map inj_on_def phase_value_inj)
  moreover have names: "map str_of (map PStr (map phase_value ps)) = map phase_value ps"
    by (simp add: o_def)
  moreover have "length (map PStr (map phase_value ps)) \<le> length PHASE_NAMES" "list_all is_str (map PStr (map phase_value ps))"
    using len by (simp_all add: list_all_iff)
  moreover have "list_all (\<lambda>n. 1 \<le> length n \<and> length n \<le> 64 \<and> nul_free n
      \<and> \<not> scan cred (PStr n) \<and> n \<in> set PHASE_NAMES) (map phase_value ps)"
    using one by (simp add: list_all_iff)
  ultimately show ?thesis
    using order by (simp only: plan_names_def pyval.case Let_def names linorder_not_less [symmetric]
        simp_thms if_False if_True)
qed

lemma resolved_phase_pending:
  assumes "plan_resolver sv cred state config = Inr u" and "from_config sv config = Inr c"
    and "validate_phase_execution c = Inr ()"
    and "merge_phase_results cred (dget state ''phase_results'') (PDict (u_phase_results u)) = Inr m"
    and "p \<in> set (planned_phases c)"
  shows "\<exists>e. map_of m (phase_value p) = Some (PDict e) \<and> dget e ''status'' = PStr (status_value PENDING)"
proof -
  obtain c' stored ext seeded where inp: "plan_input sv cred state config = Inr (c', stored)"
    and ext: "external_execution sv (planned_phases c') (dget state ''external_results'') stored = Inr ext"
    and seeds: "seed_phases (dmerge stored (external_entry ext)) (planned_phases c') = Inr seeded"
    and res: "u_phase_results u = external_entry ext @ seeded"
    by (rule plan_resolver_inv [OF assms(1)])
  have [simp]: "c' = c" using plan_input_inv [OF inp] assms(2) by auto
  have "distinct (planned_phases c)"
    using planned_phases_sorted [OF assms(3)] by (simp add: strict_sorted_iff)
  then obtain e where e: "seed_phase (dmerge stored (external_entry ext)) p = Inr e"
    "map_of seeded (phase_value p) = Some (PDict e)"
    using seed_phases_get [OF seeds] assms(5) by auto
  have "ext = None \<or> p \<noteq> EXECUTION"
    using ext external_execution_selected assms(5) by (cases ext) auto
  with e(2) have map: "map_of (u_phase_results u) (phase_value p) = Some (PDict e)"
    by (auto simp: res external_entry_def phase_value_execution split: option.splits)
  have "wf_dict e \<and> map_of e ''status'' = Some (PStr (status_value PENDING))"
    using e(1) by (auto simp: seed_phase_def rbind_Inr_iff phase_result_def bad_def wf_dict_def split: if_splits)
  with merge_phase_results_status [OF assms(4) _ map] show ?thesis
    by (auto simp: opt_dict_def dget_def)
qed

lemma resolved_plan:
  assumes "plan_resolver sv cred state config = Inr u" and "from_config sv config = Inr c"
  shows "u_phases_plan u = map phase_value (planned_phases c)"
proof (rule plan_resolver_inv [OF assms(1)])
  fix c' stored ext seeded
  assume "plan_input sv cred state config = Inr (c', stored)"
    and "u_phases_plan u = map phase_value (planned_phases c')"
  with plan_input_inv [of sv cred state config c' stored] assms(2) show ?thesis by simp
qed

text \<open>
  C4. A run that the resolver starts ends: with its configuration and plan in the checkpoint and its
  seeds accepted by the reducer, and if each phase subgraph closes its own phase, at most eight
  routings reach the end of the graph, and the phases visited are the planned phases in their
  order, each once; only an abort cuts them short. The durable configuration reads back as the one
  that was stored, and the names of the phases are no credential material.
\<close>

theorem run_pipeline_terminates:
  assumes "plan_resolver sv cred state config = Inr u" and "from_config sv config = Inr c"
    and "validate_phase_execution c = Inr ()"
    and "merge_phase_results cred (dget state ''phase_results'') (PDict (u_phase_results u)) = Inr m"
    and "from_state (u_run_config u) = Inr c"
    and "\<forall>p. \<not> scan cred (PStr (phase_value p))"
    and "closes_phase node"
  shows "\<exists>visited. run_pipeline (route_next_phase cred from_state) node 8 (resolved_run u m)
       = Some (Inr visited)
    \<and> prefix visited (map phase_value (planned_phases c))
    \<and> ((\<forall>p t. run_aborted (node p t) = run_aborted t) \<longrightarrow> visited = map phase_value (planned_phases c))"
proof -
  let ?s = "resolved_run u m" and ?plan = "map phase_value (planned_phases c)"
  have res [simp]: "results_of ?s = m" "phases_plan ?s = PList (map PStr ?plan)"
    "run_config ?s = u_run_config u" "run_aborted ?s = PBool False" "phase_results ?s = PDict m"
    using resolved_plan [OF assms(1,2)] by (simp_all add: resolved_run_def results_of_def)
  have plan: "plan_names cred (phases_plan ?s) = Inr ?plan"
    unfolding res by (rule plan_names_phases) (use assms(6) planned_phases_sorted [OF assms(3)] in auto)
  have pending: "\<not> closed_phase m n \<and> readable_phase m n" if n: "n \<in> set ?plan" for n
  proof -
    obtain p where "n = phase_value p" "p \<in> set (planned_phases c)" using n by auto
    with resolved_phase_pending [OF assms(1-4)] obtain e where
      "map_of m n = Some (PDict e)" "dget e ''status'' = PStr ''pending''" by fastforce
    then show ?thesis
      by (simp add: closed_phase_def readable_phase_def dget_def [of m] terminal_entry_iff optional_member_def
          STATUS_VALUES_def ALL_STATUSES_def TERMINAL_VALUES_def TERMINAL_PHASE_STATUSES_def)
  qed
  then have todo: "filter (\<lambda>n. \<not> closed_phase m n) ?plan = ?plan" by (intro filter_True) blast
  have "length ?plan = card (set ?plan)"
    by (rule distinct_card [symmetric]) (use plan_names_distinct [OF plan] in blast)
  also have "\<dots> \<le> card (set PHASE_NAMES)"
    using plan_names_distinct [OF plan] by (intro card_mono) auto
  also have "\<dots> \<le> 7" using card_length [of PHASE_NAMES] by (simp add: PHASE_NAMES_def PHASE_ORDER_def)
  finally have "length ?plan < 8" by simp
  then show ?thesis
    using run_pipeline_ends [OF assms(7) plan, of from_state 8] assms(5) pending
    unfolding res todo by auto
qed

subsection \<open>Facts: older snapshots\<close>

definition snapshot_fields :: "nat \<Rightarrow> string list" where
  "snapshot_fields k = PRE_CYCLE_DISPATCH_FIELDS @ concat (take k SNAPSHOT_GENERATIONS)"

definition with_nulls :: "string set \<Rightarrow> pydict \<Rightarrow> string \<Rightarrow> pyval option" where
  "with_nulls new d f = (case map_of d f of Some v \<Rightarrow> Some v | None \<Rightarrow> if f \<in> new then Some PNone else None)"

lemma fold_dset_nulls:
  "set new \<inter> fst ` set d = {} \<Longrightarrow> distinct new \<Longrightarrow>
   map_of (foldl (\<lambda>s k. dset k PNone s) d new) = with_nulls (set new) d
   \<and> fst ` set (foldl (\<lambda>s k. dset k PNone s) d new) = fst ` set d \<union> set new"
proof (induction new arbitrary: d)
  case Nil
  then show ?case by (auto simp: with_nulls_def split: option.splits)
next
  case (Cons k new)
  then have "set new \<inter> fst ` set (dset k PNone d) = {}" "map_of d k = None"
    by (auto simp: keys_dset map_of_eq_None_iff)
  with Cons show ?case
    by (auto simp: keys_dset with_nulls_def fun_eq_iff split: option.splits)
qed

lemma upgrade_snapshot_spec:
  assumes "distinct (known @ concat later)" and "[] \<notin> set later"
    and "fst ` set d = set (known @ concat (take k later))"
  shows "map_of (upgrade_snapshot known later d) = with_nulls (set (known @ concat later)) d
    \<and> fst ` set (upgrade_snapshot known later d) = set (known @ concat later)"
  using assms
proof (induction later arbitrary: known d k)
  case Nil
  then show ?case
    by (auto simp: with_nulls_def fun_eq_iff map_of_eq_None_iff split: option.splits)
next
  case (Cons new later)
  show ?case
  proof (cases k)
    case 0
    let ?d = "foldl (\<lambda>s k. dset k PNone s) d new"
    have keys: "fst ` set d = set known" using Cons.prems(3) 0 by simp
    have d: "map_of ?d = with_nulls (set new) d" "fst ` set ?d = set known \<union> set new"
    proof -
      have "set new \<inter> fst ` set d = {}" "distinct new"
        using Cons.prems(1) keys by auto
      from fold_dset_nulls [OF this]
      show "map_of ?d = with_nulls (set new) d" "fst ` set ?d = set known \<union> set new"
        unfolding keys by auto
    qed
    have "map_of (upgrade_snapshot (known @ new) later ?d) = with_nulls (set ((known @ new) @ concat later)) ?d
      \<and> fst ` set (upgrade_snapshot (known @ new) later ?d) = set ((known @ new) @ concat later)"
      by (rule Cons.IH [where k = 0]) (use Cons.prems d in auto)
    with keys show ?thesis
      by (auto simp: add_missing_def d with_nulls_def fun_eq_iff split: option.splits)
  next
    case (Suc j)
    have "set new \<inter> set known = {}" "new \<noteq> []" using Cons.prems by auto
    then have "fst ` set d \<noteq> set known"
      using Cons.prems(3) Suc by (cases new) auto
    moreover have "map_of (upgrade_snapshot (known @ new) later d) = with_nulls (set ((known @ new) @ concat later)) d
      \<and> fst ` set (upgrade_snapshot (known @ new) later d) = set ((known @ new) @ concat later)"
      by (rule Cons.IH [where k = j]) (use Cons.prems Suc in auto)
    ultimately show ?thesis by (simp add: add_missing_def)
  qed
qed

lemma upgrade_snapshot_full:
  assumes "distinct (known @ concat later)" and "[] \<notin> set later"
    and "fst ` set d = set (known @ concat later)"
  shows "upgrade_snapshot known later d = d"
  using assms
proof (induction later arbitrary: known)
  case (Cons new later)
  then have "set new \<inter> set known = {}" "new \<noteq> []" by auto
  then have "fst ` set d \<noteq> set known"
    using Cons.prems(3) by (cases new) auto
  moreover have "upgrade_snapshot (known @ new) later d = d"
    by (rule Cons.IH) (use Cons.prems in auto)
  ultimately show ?case by (simp add: add_missing_def)
qed simp

lemma generations_distinct:
  "distinct (PRE_CYCLE_DISPATCH_FIELDS @ concat SNAPSHOT_GENERATIONS)" "[] \<notin> set SNAPSHOT_GENERATIONS"
  by (simp_all add: PRE_CYCLE_DISPATCH_FIELDS_def SNAPSHOT_GENERATIONS_def)

text \<open>
  A run snapshot of any earlier schema generation is brought to the current field set: every
  stored value is kept, every field its schema did not know becomes null, and normalising again
  changes nothing.
\<close>

lemma normalize_snapshot_complete:
  assumes "fst ` set snapshot = set (snapshot_fields k)"
  shows "fst ` set (normalize_durable_pipeline_snapshot snapshot)
      = set (snapshot_fields (length SNAPSHOT_GENERATIONS))
    \<and> (\<forall>f v. map_of snapshot f = Some v \<longrightarrow>
         map_of (normalize_durable_pipeline_snapshot snapshot) f = Some v)
    \<and> (\<forall>f. map_of snapshot f = None \<longrightarrow> f \<in> set (snapshot_fields (length SNAPSHOT_GENERATIONS)) \<longrightarrow>
         map_of (normalize_durable_pipeline_snapshot snapshot) f = Some PNone)
    \<and> normalize_durable_pipeline_snapshot (normalize_durable_pipeline_snapshot snapshot)
       = normalize_durable_pipeline_snapshot snapshot"
proof -
  have "map_of (normalize_durable_pipeline_snapshot snapshot)
      = with_nulls (set (snapshot_fields (length SNAPSHOT_GENERATIONS))) snapshot
    \<and> fst ` set (normalize_durable_pipeline_snapshot snapshot)
      = set (snapshot_fields (length SNAPSHOT_GENERATIONS))"
    using upgrade_snapshot_spec [OF generations_distinct assms [unfolded snapshot_fields_def]]
    by (simp add: normalize_durable_pipeline_snapshot_def snapshot_fields_def)
  moreover from this have "normalize_durable_pipeline_snapshot (normalize_durable_pipeline_snapshot snapshot)
      = normalize_durable_pipeline_snapshot snapshot"
    using upgrade_snapshot_full [OF generations_distinct]
    by (simp add: snapshot_fields_def normalize_durable_pipeline_snapshot_def)
  ultimately show ?thesis
    by (simp add: with_nulls_def)
qed

subsection \<open>Concrete runs\<close>

definition sample_config :: pipeline_configurable where
  "sample_config =
     \<lparr>phases = Some [EXECUTION, STORY_ANALYSIS, TEST_PLANNING, SCRIPT_SCENARIO],
      rerun_phases = None, phase_execution = None, analysis = None, start_phase = None,
      stop_after = None, gates = (\<lambda>_. None), engine = ''sim'', cycle_dispatch_id = None,
      prompt_selections = False, prompt_manifest = False, max_revise_loops = 3,
      max_dialogue_turns = 20, app_id = None\<rparr>"

lemma sample_config_facts:
  "validate_phase_execution sample_config = Inr ()"
  "planned_phases sample_config = [STORY_ANALYSIS, TEST_PLANNING, SCRIPT_SCENARIO, EXECUTION]"
  by (simp_all add: sample_config_def validate_phase_execution_def planned_phases_def
      selected_phases_def PHASE_ORDER_def)

lemma planned_phases_canonical_witness:
  "sorted_wrt (<) (planned_phases sample_config) \<and> length (planned_phases sample_config) = 4"
  using planned_phases_canonical [OF sample_config_facts(1)] by (simp add: sample_config_facts(2))

definition sample_services :: plan_services where
  "sample_services =
     \<lparr>input_ok = (\<lambda>_. Inr ()), from_config = (\<lambda>_. Inr sample_config), config_snapshot = (\<lambda>_. PNone),
      handle_canonical = (\<lambda>_. True), parse_external = (\<lambda>_. bad ''external''),
      validate_packets = (\<lambda>_. Inr []), resolve_reviews = (\<lambda>_ _ _. Inr (\<lambda>_. PDict []))\<rparr>"

definition sample_state :: pydict where
  "sample_state =
     [(''phase_results'', PDict [(''execution'', PDict [(''status'', PStr ''failed''), (''attempt'', PInt 1)])])]"

definition sample_run :: pyval where
  "sample_run = PDict [(''configurable'', PDict [(''thread_id'', PStr ''t1'')])]"

lemma sample_plan_input:
  "plan_input sample_services (\<lambda>_ _ _ _. False) sample_state sample_run
     = Inr (sample_config, [(''execution'', PDict [(''status'', PStr ''failed''), (''attempt'', PInt 1)])])"
  by (simp add: plan_input_def sample_services_def sample_state_def sample_run_def sample_config_facts(2)
      configurable_of_def thread_id_ok_def dget_def strip_def is_space_def nul_free_def scan_def
      existing_results_def) (simp add: sample_config_def)

lemma sample_missing:
  "missing_reviews sample_config selected reviews = filter (\<lambda>p. \<not> dhas reviews (phase_value p)) PHASE_ORDER"
  "cycle_script sample_config p q = False"
  by (simp_all add: missing_reviews_def cycle_script_def sample_config_def)

lemma sample_resolution:
  "\<exists>u. plan_resolver sample_services (\<lambda>_ _ _ _. False) sample_state sample_run = Inr u"
  unfolding plan_resolver_def sample_plan_input
  by (simp add: sample_config_facts(2) external_execution_def sample_missing
      sample_state_def dget_def external_entry_def check_prerequisites_def check_prerequisite_def
      seed_phases_def seed_phase_def seed_attempt_def optional_member_def
      phase_result_def checkpoint_attempt_def seed_reviews_def prompt_variables_def
      prompt_text_def sample_services_def STATUS_VALUES_def ALL_STATUSES_def TERMINAL_VALUES_def
      TERMINAL_PHASE_STATUSES_def Let_def)

lemma sample_from_config: "from_config sample_services sample_run = Inr sample_config"
  by (simp add: sample_services_def)

theorem plan_resolver_prerequisites_witness:
  "\<exists>u. plan_resolver sample_services (\<lambda>_ _ _ _. False) sample_state sample_run = Inr u
    \<and> SCRIPT_SCENARIO \<in> set [STORY_ANALYSIS, TEST_PLANNING, SCRIPT_SCENARIO]"
proof -
  obtain u where u: "plan_resolver sample_services (\<lambda>_ _ _ _. False) sample_state sample_run = Inr u"
    using sample_resolution by blast
  have "planned_phases sample_config = [STORY_ANALYSIS, TEST_PLANNING, SCRIPT_SCENARIO] @ EXECUTION # []"
    by (simp add: sample_config_facts(2))
  from plan_resolver_prerequisites [OF u sample_from_config sample_config_facts(1) this, of SCRIPT_SCENARIO] u
  show ?thesis by auto
qed

definition close_entry :: "string \<Rightarrow> route_state \<Rightarrow> route_state" where
  "close_entry p s = s\<lparr>phase_results :=
     PDict (dset p (PDict [(''status'', PStr ''succeeded'')]) (results_of s))\<rparr>"

lemma close_entry_closes: "closes_phase close_entry"
  by (auto simp: closes_phase_def close_entry_def results_of_def closed_phase_def readable_phase_def
      dget_dset terminal_entry_def optional_member_def dget_def STATUS_VALUES_def ALL_STATUSES_def
      TERMINAL_VALUES_def TERMINAL_PHASE_STATUSES_def)

text \<open>A fresh thread on which two phases are planned.\<close>

definition fresh_config :: pipeline_configurable where
  "fresh_config = sample_config\<lparr>phases := Some [TEST_PLANNING, STORY_ANALYSIS]\<rparr>"

lemma fresh_config_facts:
  "validate_phase_execution fresh_config = Inr ()"
  "planned_phases fresh_config = [STORY_ANALYSIS, TEST_PLANNING]"
  by (simp_all add: fresh_config_def sample_config_def validate_phase_execution_def planned_phases_def
      selected_phases_def PHASE_ORDER_def)

definition fresh_services :: plan_services where
  "fresh_services = sample_services\<lparr>from_config := (\<lambda>_. Inr fresh_config),
     config_snapshot := (\<lambda>c. PDict [(''engine'', PStr (engine c))])\<rparr>"

definition fresh_entry :: "phase \<Rightarrow> pydict" where
  "fresh_entry p =
     [(''phase'', PStr (phase_value p)), (''status'', PStr ''pending''),
      (''attempt'', PInt 1), (''started_at'', PNone), (''ended_at'', PNone),
      (''duration_s'', PNone), (''summary'', PNone), (''reasoning_digest'', PNone),
      (''transcript_ref'', PNone), (''artifact_ids'', PList []), (''warnings'', PList []),
      (''errors'', PList []), (''approvals'', PList []), (''tool_calls'', PList []),
      (''resolved_prompt_source'', PNone)]"

lemma fresh_seed: "seed_phase [] p = Inr (fresh_entry p)"
  by (simp add: seed_phase_def seed_attempt_def dget_def phase_result_def fresh_entry_def)

lemma fresh_item:
  "validated_item (\<lambda>_ _ _ _. False) (phase_value p, PDict (fresh_entry p)) = Inr (phase_value p, PDict (fresh_entry p))"
  by (cases p) (simp_all add: validated_item_def bound_elsewhere_def fresh_entry_def merge_lists_by_id_def
      cap_plain_phase_list_def take_last_def entry_eval)

definition fresh_update :: plan_update where
  "fresh_update =
     \<lparr>u_phases_plan = [''story_analysis'', ''test_planning''],
      u_phase_results = map (\<lambda>p. (phase_value p, PDict (fresh_entry p))) [STORY_ANALYSIS, TEST_PLANNING],
      u_run_config = PDict [(''engine'', PStr ''sim'')],
      u_prompt_reviews = map (\<lambda>p. (phase_value p, PDict [])) PHASE_ORDER,
      u_clear_engine_handle = False, u_context_packets = []\<rparr>"

lemma fresh_plan_input:
  "plan_input fresh_services (\<lambda>_ _ _ _. False) [] sample_run = Inr (fresh_config, [])"
  by (simp add: plan_input_def fresh_services_def sample_services_def sample_run_def fresh_config_facts(2)
      configurable_of_def thread_id_ok_def dget_def strip_def is_space_def nul_free_def scan_def
      existing_results_def) (simp add: fresh_config_def sample_config_def)

lemma fresh_missing: "missing_reviews fresh_config selected [] = PHASE_ORDER"
  by (simp add: missing_reviews_def fresh_config_def sample_config_def dhas_def)

lemma fresh_resolution:
  "plan_resolver fresh_services (\<lambda>_ _ _ _. False) [] sample_run = Inr fresh_update"
  unfolding plan_resolver_def fresh_plan_input
  by (simp add: fresh_config_facts(2) external_execution_def external_entry_def check_prerequisites_def
      check_prerequisite_def seed_phases_def fresh_seed seed_reviews_def fresh_missing prompt_variables_def
      prompt_text_def dget_def Let_def)
    (simp add: fresh_services_def sample_services_def fresh_update_def fresh_config_def sample_config_def)

lemma fresh_merge:
  "merge_phase_results (\<lambda>_ _ _ _. False) PNone (PDict (u_phase_results fresh_update))
     = Inr (u_phase_results fresh_update)"
proof -
  have names: "phase_names_ok (u_phase_results fresh_update)"
    by (simp add: fresh_update_def phase_names_ok_def PHASE_NAMES_def PHASE_ORDER_def)
  have "validated_source (\<lambda>_ _ _ _. False) (u_phase_results fresh_update) = Inr (u_phase_results fresh_update)"
    using fresh_item [of STORY_ANALYSIS] fresh_item [of TEST_PLANNING]
    by (simp add: fresh_update_def validated_source_def)
  with names show ?thesis
    by (simp add: merge_phase_results_def opt_dict_def phase_names_ok_def)
qed

theorem run_pipeline_terminates_witness:
  "run_pipeline (route_next_phase (\<lambda>_ _ _ _. False) (\<lambda>_. Inr fresh_config)) close_entry 8
       (resolved_run fresh_update (u_phase_results fresh_update))
     = Some (Inr [''story_analysis'', ''test_planning''])"
proof -
  have "merge_phase_results (\<lambda>_ _ _ _. False) (dget [] ''phase_results'') (PDict (u_phase_results fresh_update))
      = Inr (u_phase_results fresh_update)"
    using fresh_merge by (simp add: dget_def)
  moreover have "from_config fresh_services sample_run = Inr fresh_config"
    by (simp add: fresh_services_def)
  moreover have "\<forall>p t. run_aborted (close_entry p t) = run_aborted t"
    by (simp add: close_entry_def)
  ultimately show ?thesis
    using run_pipeline_terminates [OF fresh_resolution _ fresh_config_facts(1) _ refl _ close_entry_closes]
    by (simp add: fresh_config_facts(2) scan_def)
qed

end
