(* ===== verification/Gate_Decisions.thy ===== *)
theory Gate_Decisions
  imports Phases Reducers
begin

text \<open>
  The contract of the human gates (src/apex/graphs/pipeline/gates.py and
  \<open>validate_gate_payload\<close> of src/apex/services/run_validation.py): bounding a resume value,
  normalising it into a decision, attributing it to an actor, and the approval record.
\<close>

subsection \<open>Bounding a resume value\<close>

record gate_limits =
  max_gate_payload_chars :: nat
  max_gate_payload_nodes :: nat
  max_gate_string_chars :: nat
  max_prompt_part_chars :: nat
  max_model_input_chars :: nat

definition SAFE_GATE_PATH_FIELDS :: "string list" where
  "SAFE_GATE_PATH_FIELDS =
     [''action'', ''additional_context'', ''application'', ''message'', ''prompt'', ''system'', ''user'']"

definition safe_gate_path :: "string list \<Rightarrow> string" where
  "safe_gate_path path =
     (let label = join ''.''
        (map (\<lambda>part. if part \<in> set SAFE_GATE_PATH_FIELDS \<or> part = ''[]'' then part else ''field'') path)
      in if label = [] then ''value'' else label)"

text \<open>The path is kept outermost part first, as the code's tuple is.\<close>

definition is_prompt_part :: "string list \<Rightarrow> bool" where
  "is_prompt_part path =
     ((2 \<le> length path \<and> path ! (length path - 2) = ''prompt''
        \<and> last path \<in> {''system'', ''user'', ''application''})
      \<or> (3 \<le> length path \<and> path ! (length path - 3) = ''context_edits'' \<and> last path = ''content''))"

definition gate_key_check :: "string \<Rightarrow> unit res" where
  "gate_key_check k =
     (if 256 < length k then bad ''gate payload mapping keys must not exceed 256 characters''
      else if \<not> nul_free k then bad ''gate payload mapping keys must not contain U+0000''
      else Inr ())"

definition node_limit_error :: "gate_limits \<Rightarrow> exn + 'a" where
  "node_limit_error lm =
     bad (''gate payload exceeds the node limit ('' @ nat_text (max_gate_payload_nodes lm) @ '')'')"

text \<open>
  The visit of one value: the characters it adds and the children it pushes, top of the stack
  first; \<open>pending\<close> is the number of values left on the stack.
\<close>

fun gate_visit ::
  "gate_limits \<Rightarrow> nat \<Rightarrow> nat \<Rightarrow> string list \<Rightarrow> nat \<Rightarrow> pyval \<Rightarrow>
   (nat \<times> (pyval \<times> string list \<times> nat) list) res" where
  "gate_visit lm nodes pending path depth (PStr s) =
     (if \<not> nul_free s then bad (''gate payload '' @ safe_gate_path path @ '' must not contain U+0000'')
      else (let limit = (if is_prompt_part path then max_prompt_part_chars lm
                         else max_gate_string_chars lm)
            in if limit < length s
               then bad (''gate payload '' @ safe_gate_path path @ '' exceeds '' @ nat_text limit
                         @ '' characters'')
               else Inr (length s, [])))"
| "gate_visit lm nodes pending path depth (PDict d) =
     (if max_gate_payload_nodes lm < nodes + pending + length d then node_limit_error lm
      else rbind (for_each (\<lambda>(k, _). gate_key_check k) d) (\<lambda>_.
           Inr (sum_list (map (\<lambda>(k, _). length k) d),
                rev (map (\<lambda>(k, v). (v, path @ [k], depth + 1)) d))))"
| "gate_visit lm nodes pending path depth (PList xs) =
     (if max_gate_payload_nodes lm < nodes + pending + length xs then node_limit_error lm
      else Inr (0, rev (map (\<lambda>v. (v, path @ [''[]''], depth + 1)) xs)))"
| "gate_visit lm nodes pending path depth (PFloat f) =
     (if float_finite f then Inr (0, []) else bad ''gate payload numbers must be finite'')"
| "gate_visit lm nodes pending path depth (PInt i) =
     (if wide_int i then bad ''gate payload integers must not exceed 256 bits'' else Inr (0, []))"
| "gate_visit lm nodes pending path depth (POther c) =
     bad ''gate payload contains an unsupported value''"
| "gate_visit lm nodes pending path depth _ = Inr (0, [])"

function gate_walk ::
  "gate_limits \<Rightarrow> nat \<Rightarrow> nat \<Rightarrow> nat \<Rightarrow> (pyval \<times> string list \<times> nat) list \<Rightarrow> unit res" where
  "gate_walk lm total_limit nodes chars [] = Inr ()"
| "gate_walk lm total_limit nodes chars ((v, path, depth) # stack) =
     (if max_gate_payload_nodes lm < nodes + 1 then node_limit_error lm
      else if 16 < depth then bad ''gate payload nesting exceeds 16 levels''
      else rbind (gate_visit lm (nodes + 1) (length stack) path depth v) (\<lambda>(added, cs).
           if total_limit < chars + added
           then bad (''gate payload exceeds the deployment limit ('' @ nat_text total_limit
                     @ '' characters)'')
           else gate_walk lm total_limit (nodes + 1) (chars + added) (cs @ stack)))"
  by pat_completeness auto
termination
  by (relation "measure (\<lambda>(lm, t, nodes, c, stack). Suc (max_gate_payload_nodes lm) - nodes)") auto

declare gate_walk.simps(2) [simp del]

definition structured_contexts :: "pyval \<Rightarrow> bool" where
  "structured_contexts payload =
     (case payload of
        PDict d \<Rightarrow> (case dget d ''prompt'' of
                      PDict p \<Rightarrow> (case dget p ''context_edits'' of PList _ \<Rightarrow> True | _ \<Rightarrow> False)
                    | _ \<Rightarrow> False)
      | _ \<Rightarrow> False)"

definition validate_gate_payload :: "gate_limits \<Rightarrow> pyval \<Rightarrow> unit res" where
  "validate_gate_payload lm payload =
     gate_walk lm
       (if structured_contexts payload
        then max (max_gate_payload_chars lm) (max_model_input_chars lm)
        else max_gate_payload_chars lm)
       0 0 [(payload, [], 0)]"

subsection \<open>Decisions\<close>

definition PROMPT_REVIEW_ACTIONS :: "string list" where
  "PROMPT_REVIEW_ACTIONS = [''approve'', ''modify'', ''skip_phase'', ''abort'']"

definition PHASE_REVIEW_ACTIONS :: "string list" where
  "PHASE_REVIEW_ACTIONS = [''approve'', ''revise'', ''discuss'', ''abort'']"

definition DECISION_FIELDS :: "string list" where
  "DECISION_FIELDS = [''action'', ''prompt'', ''instructions'', ''message'', ''note'']"

definition TEXT_FIELDS :: "string list" where
  "TEXT_FIELDS = [''instructions'', ''message'', ''note'']"

definition opt_text :: "pyval \<Rightarrow> bool" where
  "opt_text v = (v = PNone \<or> is_str v)"

definition no_action :: "string \<Rightarrow> pydict" where
  "no_action err = [(''action'', PNone), (''error'', PStr err)]"

definition safe_gate_validation_error :: "exn \<Rightarrow> string" where
  "safe_gate_validation_error e =
     (case e of
        ValueError m \<Rightarrow>
          if 1 \<le> length m \<and> length m \<le> 512 \<and> take 13 m = ''gate payload '' then m
          else ''gate decision is invalid''
      | _ \<Rightarrow> ''gate decision is invalid'')"

text \<open>
  The check of \<open>decision["prompt"]\<close>: None when it is acceptable, otherwise the error;
  \<open>edit_ok\<close> is the Pydantic model \<open>PromptContextEdit\<close>.
\<close>

definition prompt_edit_error :: "(pyval \<Rightarrow> bool) \<Rightarrow> pyval \<Rightarrow> string option" where
  "prompt_edit_error edit_ok v =
     (case v of
        PNone \<Rightarrow> None
      | PDict edit \<Rightarrow>
          (if \<exists>(k, _) \<in> set edit. k \<notin> {''system'', ''user'', ''application'', ''context_edits''}
           then Some ''gate decision prompt is invalid''
           else if dhas edit ''context_edits''
             \<and> (case dget edit ''context_edits'' of
                  PList es \<Rightarrow> 64 < length es \<or> \<not> list_all edit_ok es | _ \<Rightarrow> True)
           then Some ''Invalid context prompt edits''
           else if \<exists>(k, x) \<in> set edit. k \<noteq> ''context_edits'' \<and> \<not> opt_text x
           then Some ''gate decision prompt values must be strings''
           else None)
      | _ \<Rightarrow> Some ''gate decision prompt is invalid'')"

fun text_field_error :: "pydict \<Rightarrow> string list \<Rightarrow> string option" where
  "text_field_error d [] = None"
| "text_field_error d (f # fs) =
     (if opt_text (dget d f) then text_field_error d fs
      else Some (''gate decision '' @ f @ '' must be a string''))"

definition list_text :: "string list \<Rightarrow> string" where
  "list_text xs = ''['' @ join '', '' (map (\<lambda>s. CHR 0x27 # s @ [CHR 0x27]) xs) @ '']''"

definition parse_decision_fields ::
  "(pyval \<Rightarrow> bool) \<Rightarrow> string list \<Rightarrow> pydict \<Rightarrow> pydict" where
  "parse_decision_fields edit_ok allowed d =
     (if \<not> set (map fst d) \<subseteq> set DECISION_FIELDS
      then no_action ''gate decision contains unsupported fields''
      else case text_field_error d TEXT_FIELDS of
        Some err \<Rightarrow> no_action err
      | None \<Rightarrow> (case prompt_edit_error edit_ok (dget d ''prompt'') of
          Some err \<Rightarrow> no_action err
        | None \<Rightarrow>
            (if dget d ''action'' \<notin> PStr ` set allowed
             then ddel ''action'' d
                @ no_action (''unknown action; expected one of '' @ list_text (sort allowed))
             else d)))"

definition parse_gate_decision ::
  "gate_limits \<Rightarrow> scanner \<Rightarrow> (pyval \<Rightarrow> bool) \<Rightarrow> pyval \<Rightarrow> string list \<Rightarrow> pydict" where
  "parse_gate_decision lm cred edit_ok decision allowed =
     (case validate_gate_payload lm decision of
        Inl e \<Rightarrow> no_action (safe_gate_validation_error e)
      | Inr _ \<Rightarrow>
          if scan cred decision then no_action ''gate decision must not contain credential material''
          else (case decision of
                  PStr a \<Rightarrow> parse_decision_fields edit_ok allowed [(''action'', decision)]
                | PDict d \<Rightarrow> parse_decision_fields edit_ok allowed d
                | _ \<Rightarrow> no_action (''expected a mapping with an '' @ [CHR 0x27] @ ''action''
                         @ [CHR 0x27] @ '' key'')))"

subsection \<open>Attribution\<close>

definition safe_actor :: "scanner \<Rightarrow> pyval \<Rightarrow> bool" where
  "safe_actor cred v =
     (case v of PStr s \<Rightarrow> 0 < length s \<and> length s \<le> 255 \<and> nul_free s \<and> \<not> scan cred v | _ \<Rightarrow> False)"

text \<open>\<open>attr\<close> stands for \<open>getattr_static(user, "identity", None)\<close> on an object that is not a dict.\<close>

definition resolve_actor :: "scanner \<Rightarrow> (pyval \<Rightarrow> pyval) \<Rightarrow> pyval \<Rightarrow> string" where
  "resolve_actor cred attr config =
     (case config of
        PDict c \<Rightarrow>
          (case dget c ''configurable'' of
             PNone \<Rightarrow> ''unknown''
           | PDict d \<Rightarrow>
               (if safe_actor cred (dget d ''apex_actor_id'') then str_of (dget d ''apex_actor_id'')
                else if safe_actor cred (dget d ''langgraph_auth_user_id'')
                then str_of (dget d ''langgraph_auth_user_id'')
                else (let user = dget d ''langgraph_auth_user'';
                          identity = (case user of PNone \<Rightarrow> PNone
                                      | PDict u \<Rightarrow> dget u ''identity'' | _ \<Rightarrow> attr user)
                      in if safe_actor cred identity then str_of identity else ''unknown''))
           | _ \<Rightarrow> ''unknown'')
      | _ \<Rightarrow> ''unknown'')"

definition MAX_GATE_DECISION_TEXT_CHARS :: nat where
  "MAX_GATE_DECISION_TEXT_CHARS = 50000"

definition approval_id :: "phase \<Rightarrow> int \<Rightarrow> string \<Rightarrow> string \<Rightarrow> nat \<Rightarrow> string" where
  "approval_id p attempt gate action sequence =
     phase_value p @ ''-a'' @ int_text attempt @ ''-'' @ gate @ ''-'' @ action
     @ (if sequence = 0 then [] else ''-s'' @ nat_text sequence)"

text \<open>The record after the constraints of \<open>ApprovalRecord\<close>; \<open>actor\<close> is resolved and \<open>now\<close> the clock.\<close>

definition make_approval ::
  "scanner \<Rightarrow> string \<Rightarrow> string \<Rightarrow> phase \<Rightarrow> int \<Rightarrow> string \<Rightarrow> string \<Rightarrow> pyval \<Rightarrow> nat \<Rightarrow> pydict res" where
  "make_approval cred now actor p attempt gate action note sequence =
     (if 256 < length (approval_id p attempt gate action sequence) \<or> 32 < length action
         \<or> scan cred (PStr actor)
         \<or> \<not> (case note of
                PNone \<Rightarrow> True
              | PStr s \<Rightarrow> length s \<le> MAX_GATE_DECISION_TEXT_CHARS \<and> nul_free s \<and> \<not> scan cred note
              | _ \<Rightarrow> False)
      then bad ''approval record is invalid''
      else Inr [(''id'', PStr (approval_id p attempt gate action sequence)), (''gate'', PStr gate),
                (''action'', PStr action), (''actor'', PStr actor), (''at'', PStr now),
                (''note'', note)])"

subsection \<open>Facts\<close>

text \<open>The reference reading of the bound: what the stack loop has accepted.\<close>

fun gate_ok :: "gate_limits \<Rightarrow> string list \<Rightarrow> nat \<Rightarrow> pyval \<Rightarrow> bool" where
  "gate_ok lm path depth (PStr s) =
     (depth \<le> 16 \<and> nul_free s
      \<and> length s \<le> (if is_prompt_part path then max_prompt_part_chars lm else max_gate_string_chars lm))"
| "gate_ok lm path depth (PDict d) =
     (depth \<le> 16 \<and> (\<forall>kv \<in> set d. gate_key_check (fst kv) = Inr ()
                      \<and> gate_ok lm (path @ [fst kv]) (depth + 1) (snd kv)))"
| "gate_ok lm path depth (PList xs) =
     (depth \<le> 16 \<and> (\<forall>x \<in> set xs. gate_ok lm (path @ [''[]'']) (depth + 1) x))"
| "gate_ok lm path depth (PFloat f) = (depth \<le> 16 \<and> float_finite f)"
| "gate_ok lm path depth (PInt i) = (depth \<le> 16 \<and> \<not> wide_int i)"
| "gate_ok lm path depth (POther c) = False"
| "gate_ok lm path depth _ = (depth \<le> 16)"

lemma gate_visit_ok:
  assumes "gate_visit lm nodes pending path depth v = Inr (added, cs)" and "depth \<le> 16"
    and "\<forall>(c, p, k) \<in> set cs. gate_ok lm p k c"
  shows "gate_ok lm path depth v"
  using assms
  by (cases v) (auto simp: bad_def node_limit_error_def Let_def rbind_Inr_iff for_each_Inr_iff split: if_splits)

lemma gate_walk_ok:
  "gate_walk lm t nodes chars stack = Inr () \<Longrightarrow>
     (\<forall>(c, p, k) \<in> set stack. gate_ok lm p k c)"
proof (induction lm t nodes chars stack rule: gate_walk.induct)
  case (2 lm t nodes chars v path depth stack)
  then obtain added cs where "depth \<le> 16"
    and v: "gate_visit lm (nodes + 1) (length stack) path depth v = Inr (added, cs)"
    and walk: "\<not> max_gate_payload_nodes lm < nodes + 1" "\<not> t < chars + added"
      "gate_walk lm t (nodes + 1) (chars + added) (cs @ stack) = Inr ()"
    by (auto simp: gate_walk.simps(2) node_limit_error_def rbind_Inr_iff split: if_splits)
  moreover have "\<forall>(c, p, k) \<in> set (cs @ stack). gate_ok lm p k c"
    using 2(1) [OF _ _ v] walk \<open>depth \<le> 16\<close> by auto
  ultimately show ?case
    using gate_visit_ok [OF v] by auto
qed simp

lemma validate_gate_payload_sound: "validate_gate_payload lm payload = Inr () \<Longrightarrow> gate_ok lm [] 0 payload"
  using gate_walk_ok unfolding validate_gate_payload_def by force

lemma text_field_error_None: "text_field_error d fs = None \<longleftrightarrow> (\<forall>f \<in> set fs. opt_text (dget d f))"
  by (induction fs) auto

lemma no_action_get:
  "dget (no_action e) ''action'' = PNone" "dget (no_action e) ''error'' = PStr e"
  "dget (ddel ''action'' d @ no_action e) ''action'' = PNone"
  by (simp_all add: dget_def map_of_ddel no_action_def map_add_def)

text \<open>The two outcomes of normalising a decision.\<close>

definition accepted_decision :: "(pyval \<Rightarrow> bool) \<Rightarrow> string list \<Rightarrow> pydict \<Rightarrow> bool" where
  "accepted_decision edit_ok allowed d =
     (dget d ''action'' \<in> PStr ` set allowed \<and> set (map fst d) \<subseteq> set DECISION_FIELDS
      \<and> (\<forall>f \<in> set TEXT_FIELDS. opt_text (dget d f))
      \<and> prompt_edit_error edit_ok (dget d ''prompt'') = None)"

definition refused_decision :: "pydict \<Rightarrow> bool" where
  "refused_decision d = (dget d ''action'' = PNone \<and> is_str (dget d ''error''))"

lemma parse_decision_fields_cases:
  "(accepted_decision edit_ok allowed d \<and> parse_decision_fields edit_ok allowed d = d)
   \<or> (\<not> accepted_decision edit_ok allowed d \<and> refused_decision (parse_decision_fields edit_ok allowed d))"
proof (cases "accepted_decision edit_ok allowed d")
  case True
  moreover from this have "text_field_error d TEXT_FIELDS = None"
    by (simp add: accepted_decision_def text_field_error_None)
  ultimately show ?thesis
    by (auto simp: accepted_decision_def parse_decision_fields_def)
next
  case False
  have plain: "refused_decision (no_action e)" for e
    by (simp add: refused_decision_def no_action_get)
  have tail: "refused_decision (ddel ''action'' d @ no_action e)"
    if "set (map fst d) \<subseteq> set DECISION_FIELDS" for e
  proof -
    have "''error'' \<notin> set DECISION_FIELDS" by (simp add: DECISION_FIELDS_def)
    with that have "map_of d ''error'' = None" by (simp only: map_of_eq_None_iff set_map) blast
    then have "dget (ddel ''action'' d @ no_action e) ''error'' = PStr e"
      by (simp add: dget_def map_add_def no_action_def map_of_ddel)
    then show ?thesis by (simp add: refused_decision_def no_action_get)
  qed
  show ?thesis
  proof (cases "set (map fst d) \<subseteq> set DECISION_FIELDS \<and> text_field_error d TEXT_FIELDS = None
      \<and> prompt_edit_error edit_ok (dget d ''prompt'') = None")
    case True
    with False have "dget d ''action'' \<notin> PStr ` set allowed"
      by (simp add: accepted_decision_def text_field_error_None)
    with True have "parse_decision_fields edit_ok allowed d = ddel ''action'' d
        @ no_action (''unknown action; expected one of '' @ list_text (sort allowed))"
      by (simp only: parse_decision_fields_def option.case if_True if_False simp_thms)
    moreover have "refused_decision (ddel ''action'' d
        @ no_action (''unknown action; expected one of '' @ list_text (sort allowed)))"
      using True by (intro tail) blast
    ultimately show ?thesis using False by (simp only: simp_thms)
  next
    case other: False
    then have "\<exists>e. parse_decision_fields edit_ok allowed d = no_action e"
      by (simp only: parse_decision_fields_def split: option.split if_split) blast
    then obtain e where "parse_decision_fields edit_ok allowed d = no_action e" ..
    with plain False show ?thesis by (simp only: simp_thms)
  qed
qed

text \<open>
  Normalising a resume value never raises and has two outcomes. Either the value carries one
  of the allowed actions, is within the size, nesting and text bounds, holds no credential and
  no unknown or mistyped field, and it is passed on as it is; or the action is null and an error
  says why, so a gate never acts on a value it has not validated.
\<close>

lemma parse_gate_decision_safe:
  "(let r = parse_gate_decision lm cred edit_ok decision allowed
    in (accepted_decision edit_ok allowed r \<and> gate_ok lm [] 0 decision \<and> \<not> scan cred decision
        \<and> (decision = PDict r \<or> r = [(''action'', decision)]))
       \<or> refused_decision r)"
proof -
  let ?r = "parse_gate_decision lm cred edit_ok decision allowed"
  have none: "refused_decision (no_action e)" for e
    by (simp add: refused_decision_def no_action_get)
  show ?thesis
  proof (cases "validate_gate_payload lm decision = Inr () \<and> \<not> scan cred decision")
    case False
    then have "refused_decision ?r"
      by (cases "validate_gate_payload lm decision") (auto simp: parse_gate_decision_def none)
    then show ?thesis by (simp add: Let_def)
  next
    case True
    then have ok: "gate_ok lm [] 0 decision" by (auto dest: validate_gate_payload_sound)
    show ?thesis
    proof (cases "\<exists>d. (decision = PDict d \<or> d = [(''action'', decision)])
        \<and> ?r = parse_decision_fields edit_ok allowed d")
      case True
      then obtain d where d: "decision = PDict d \<or> d = [(''action'', decision)]"
        "?r = parse_decision_fields edit_ok allowed d"
        by blast
      show ?thesis
        using parse_decision_fields_cases [of edit_ok allowed d] d ok
          \<open>validate_gate_payload lm decision = Inr () \<and> \<not> scan cred decision\<close>
        by (auto simp: Let_def)
    next
      case False
      with True have "refused_decision ?r"
        by (cases decision) (auto simp: parse_gate_decision_def none)
      then show ?thesis by (simp add: Let_def)
    qed
  qed
qed

end
