(* ===== verification/Phase_Gates.thy ===== *)
theory Phase_Gates
  imports Pipeline_Plan Gate_Decisions
begin

text \<open>
  The spine of one phase (src/apex/graphs/pipeline/phase_subgraph.py and human_phase.py): prepare,
  the prompt gate, the agent's bookkeeping, the output gate, the human task and finalize. A gate
  node is replayed from its start at every resume, with the decisions recorded so far: it is a
  function of that list and either waits for one more decision or leaves to another node with an
  update. Updates of the phase entry are dictionaries that the reducers of Reducers merge.
\<close>

subsection \<open>Collaborators and updates\<close>

record gate_services =
  gs_cred :: scanner
  gs_limits :: gate_limits
  gs_now :: string
  gs_edit_ok :: "pyval \<Rightarrow> bool"
  gs_attr :: "pyval \<Rightarrow> pyval"
  gs_from_state :: "pydict \<Rightarrow> pyval \<Rightarrow> pipeline_configurable res"
  gs_review_metadata :: "pydict \<Rightarrow> pydict res"
  gs_edited_metadata :: "pydict \<Rightarrow> pyval \<Rightarrow> pyval \<Rightarrow> pyval \<Rightarrow> pydict res"
  gs_compose_contexts :: "pydict \<Rightarrow> string"
  gs_resolved_from_review :: "pydict \<Rightarrow> pydict res"
  gs_manifest_review :: "pydict \<Rightarrow> phase \<Rightarrow> pipeline_configurable \<Rightarrow> pydict \<Rightarrow> unit res"
  gs_resolve_prompt :: "phase \<Rightarrow> pipeline_configurable \<Rightarrow> pydict \<Rightarrow> pydict res"
  gs_review_from_resolved :: "pydict \<Rightarrow> pydict"
  gs_context_packets :: "pyval \<Rightarrow> pyval res"
  gs_disposition :: "pyval \<Rightarrow> phase \<Rightarrow> string res"
  gs_bounded_diagnostic :: "string \<Rightarrow> nat \<Rightarrow> string"
  gs_aware_timestamp :: "string \<Rightarrow> bool"
  gs_sections :: "phase \<Rightarrow> string list"
  gs_completion :: "pydict \<Rightarrow> pydict \<Rightarrow> pydict \<Rightarrow> pipeline_configurable \<Rightarrow> pydict res"
  gs_duration :: "string \<Rightarrow> string \<Rightarrow> pyval"

record node_update =
  nu_entry :: "pydict option"
  nu_prompt_review :: "pydict option"
  nu_application_review :: "(string \<times> pydict) option"
  nu_dialogue :: "pydict list"
  nu_run_aborted :: bool
  nu_artifacts :: "pydict list"

definition no_update :: node_update where
  "no_update = \<lparr>nu_entry = None, nu_prompt_review = None, nu_application_review = None,
                nu_dialogue = [], nu_run_aborted = False, nu_artifacts = []\<rparr>"

text \<open>Every partial update carries the attempt, so that the reducer merges and does not replace.\<close>

definition phase_update :: "int \<Rightarrow> pydict \<Rightarrow> node_update" where
  "phase_update attempt fs = no_update \<lparr>nu_entry := Some ((''attempt'', PInt attempt) # fs)\<rparr>"

datatype gate_outcome = Waiting pyval | Goto string node_update

datatype 's turn = Again 's | Leave gate_outcome

text \<open>
  The replayed loop of a gate: at most \<open>n\<close> interrupts, one recorded decision for each; \<open>shown\<close> is
  the error that the next payload shows, \<open>capped\<close> the outcome when the loop ends by itself.
\<close>

fun gate_loop ::
  "('s \<Rightarrow> pyval \<Rightarrow> 's turn res) \<Rightarrow> ('s \<Rightarrow> pyval) \<Rightarrow> ('s \<Rightarrow> gate_outcome res) \<Rightarrow> nat \<Rightarrow> 's \<Rightarrow>
   pyval list \<Rightarrow> gate_outcome res" where
  "gate_loop body shown capped 0 s ds = capped s"
| "gate_loop body shown capped (Suc n) s [] = Inr (Waiting (shown s))"
| "gate_loop body shown capped (Suc n) s (d # ds) =
     rbind (body s d) (\<lambda>t. case t of
       Leave out \<Rightarrow> Inr out
     | Again s' \<Rightarrow> gate_loop body shown capped n s' ds)"

definition MAX_GATE_LOOPS :: nat where
  "MAX_GATE_LOOPS = 10"

definition MAX_GATE_TEXT_CHARS :: nat where
  "MAX_GATE_TEXT_CHARS = 20000"

definition MAX_DURABLE_PHASE_DIAGNOSTICS :: nat where
  "MAX_DURABLE_PHASE_DIAGNOSTICS = 128"

subsection \<open>Reading the checkpoint\<close>

definition entry_of :: "pydict \<Rightarrow> phase \<Rightarrow> pydict res" where
  "entry_of state p =
     rbind (case dget state ''phase_results'' of
              PNone \<Rightarrow> Inr [] | PDict d \<Rightarrow> Inr d
            | _ \<Rightarrow> bad ''checkpointed phase results are invalid'') (\<lambda>results.
     (case dget results (phase_value p) of
        PNone \<Rightarrow> Inr [] | PDict e \<Rightarrow> Inr e
      | _ \<Rightarrow> bad ''checkpointed phase result is invalid''))"

definition attempt_of :: "pydict \<Rightarrow> int res" where
  "attempt_of entry =
     (case dget entry ''attempt'' of
        PNone \<Rightarrow> Inr 1
      | PInt a \<Rightarrow> if 1 \<le> a \<and> a \<le> 1000000 then Inr a else bad ''checkpointed phase attempt is invalid''
      | _ \<Rightarrow> bad ''checkpointed phase attempt is invalid'')"

definition from_state_for_phase ::
  "gate_services \<Rightarrow> pydict \<Rightarrow> pyval \<Rightarrow> phase \<Rightarrow> pipeline_configurable res" where
  "from_state_for_phase sv state config p =
     rbind (gs_from_state sv state config) (\<lambda>parsed.
     if dget state ''run_config'' = PNone then Inr parsed
     else (let expected = map phase_value (planned_phases parsed)
           in if (case dget state ''phases_plan'' of
                    PList vs \<Rightarrow> vs = map PStr expected \<and> \<not> list_ex (scan (gs_cred sv)) vs
                  | _ \<Rightarrow> False)
                 \<and> phase_value p \<in> set expected
              then Inr parsed
              else bad ''checkpointed pipeline phase plan does not match its durable configuration''))"

definition checkpoint_review_text ::
  "scanner \<Rightarrow> string \<Rightarrow> nat \<Rightarrow> pyval \<Rightarrow> string option res" where
  "checkpoint_review_text cred label limit v =
     (case v of
        PNone \<Rightarrow> Inr None
      | PStr s \<Rightarrow> if limit < length s \<or> \<not> nul_free s \<or> scan cred v
                 then bad (''checkpointed '' @ label @ '' is invalid'') else Inr (Some s)
      | _ \<Rightarrow> bad (''checkpointed '' @ label @ '' is invalid''))"

definition checkpoint_terminal_text :: "scanner \<Rightarrow> pyval \<Rightarrow> string option" where
  "checkpoint_terminal_text cred v =
     (case checkpoint_review_text cred ''text'' MAX_GATE_TEXT_CHARS v of Inl _ \<Rightarrow> None | Inr t \<Rightarrow> t)"

definition checkpoint_terminal_timestamp :: "gate_services \<Rightarrow> pyval \<Rightarrow> string option" where
  "checkpoint_terminal_timestamp sv v =
     (case v of
        PStr s \<Rightarrow> if 1 \<le> length s \<and> length s \<le> 64 \<and> nul_free s \<and> \<not> scan (gs_cred sv) v
                    \<and> gs_aware_timestamp sv s
                 then Some s else None
      | _ \<Rightarrow> None)"

definition checkpoint_diagnostics :: "scanner \<Rightarrow> pydict \<Rightarrow> string \<Rightarrow> string list res" where
  "checkpoint_diagnostics cred entry field =
     (let invalid = (''checkpointed phase '' @ field @ '' are invalid'')
      in case dget entry field of
        PNone \<Rightarrow> Inr []
      | PList vs \<Rightarrow>
          if MAX_DURABLE_PHASE_DIAGNOSTICS < length vs then bad invalid
          else rmap (\<lambda>v. rbind (checkpoint_review_text cred (''phase '' @ field) 4096 v) (\<lambda>t.
                      case t of None \<Rightarrow> bad invalid | Some s \<Rightarrow> Inr s)) vs
      | _ \<Rightarrow> bad invalid)"

definition artifact_id_ok :: "scanner \<Rightarrow> pyval \<Rightarrow> bool" where
  "artifact_id_ok cred v =
     (case v of PStr s \<Rightarrow> 1 \<le> length s \<and> length s \<le> 128 \<and> nul_free s \<and> \<not> scan cred v | _ \<Rightarrow> False)"

fun artifact_previews :: "scanner \<Rightarrow> pyval list \<Rightarrow> pyval list \<Rightarrow> pydict list res" where
  "artifact_previews cred ids [] = Inr []"
| "artifact_previews cred ids (PDict a # rest) =
     (let i = dget a ''id''; kind = dget a ''kind''; name = dget a ''name'';
          row = [(''id'', i), (''kind'', kind), (''name'', name)]
      in if \<not> is_str i then bad ''checkpointed artifact is invalid''
         else if i \<notin> set ids then artifact_previews cred ids rest
         else if \<not> is_str kind \<or> \<not> is_str name
           \<or> \<not> (1 \<le> length (str_of kind) \<and> length (str_of kind) \<le> 64)
           \<or> \<not> (1 \<le> length (str_of name) \<and> length (str_of name) \<le> 512)
           \<or> \<not> nul_free (str_of kind) \<or> \<not> nul_free (str_of name) \<or> scan cred (PDict row)
         then bad ''checkpointed artifact is invalid''
         else rbind (artifact_previews cred ids rest) (\<lambda>rows. Inr (row # rows)))"
| "artifact_previews cred ids (v # rest) = bad ''checkpointed artifact is invalid''"

definition checkpoint_artifact_previews :: "scanner \<Rightarrow> pydict \<Rightarrow> pydict \<Rightarrow> pydict list res" where
  "checkpoint_artifact_previews cred state entry =
     rbind (case dget entry ''artifact_ids'' of
              PNone \<Rightarrow> Inr []
            | PList ids \<Rightarrow> if MAX_DURABLE_ARTIFACTS < length ids \<or> \<not> list_all (artifact_id_ok cred) ids
                          then bad ''checkpointed phase artifact ids are invalid'' else Inr ids
            | _ \<Rightarrow> bad ''checkpointed phase artifact ids are invalid'') (\<lambda>ids.
     rbind (case dget state ''artifacts'' of
              PNone \<Rightarrow> Inr []
            | PList rows \<Rightarrow> if MAX_DURABLE_ARTIFACTS < length rows
                           then bad ''checkpointed artifacts are invalid'' else Inr rows
            | _ \<Rightarrow> bad ''checkpointed artifacts are invalid'') (\<lambda>rows.
     artifact_previews cred ids rows))"

definition dialogue_entry_ok :: "scanner \<Rightarrow> pydict \<Rightarrow> bool" where
  "dialogue_entry_ok cred e =
     (set (map fst e) \<subseteq> {''id'', ''phase'', ''attempt'', ''role'', ''content'', ''at''}
      \<and> list_all (\<lambda>f. is_str (dget e f) \<and> nul_free (str_of (dget e f)))
          [''phase'', ''id'', ''role'', ''content'', ''at'']
      \<and> is_ok (dialogue_attempt e)
      \<and> 1 \<le> length (str_of (dget e ''id'')) \<and> length (str_of (dget e ''id'')) \<le> 256
      \<and> str_of (dget e ''role'') \<in> {''operator'', ''agent''}
      \<and> length (str_of (dget e ''content'')) \<le> MAX_GATE_DECISION_TEXT_CHARS
      \<and> 1 \<le> length (str_of (dget e ''at'')) \<and> length (str_of (dget e ''at'')) \<le> 64
      \<and> \<not> scan cred (PDict e))"

definition dialogue_dict :: "scanner \<Rightarrow> pyval \<Rightarrow> pydict res" where
  "dialogue_dict cred v =
     (case v of
        PDict e \<Rightarrow> if dialogue_entry_ok cred e then Inr e
                   else bad ''checkpointed dialogue entry is invalid''
      | _ \<Rightarrow> bad ''checkpointed dialogue entry is invalid'')"

definition checkpoint_phase_dialogue :: "scanner \<Rightarrow> pydict \<Rightarrow> phase \<Rightarrow> int \<Rightarrow> pydict list res" where
  "checkpoint_phase_dialogue cred state p attempt =
     (case dget state ''dialogue'' of
        PNone \<Rightarrow> Inr []
      | PList vs \<Rightarrow>
          if MAX_DURABLE_DIALOGUE_ENTRIES < length vs then bad ''checkpointed dialogue is invalid''
          else rbind (rmap (dialogue_dict cred) vs) (\<lambda>es.
               Inr (filter (\<lambda>e. dget e ''phase'' = PStr (phase_value p)
                              \<and> dialogue_attempt e = Inr attempt) es))
      | _ \<Rightarrow> bad ''checkpointed dialogue is invalid'')"

subsection \<open>Prompt reviews\<close>

definition REVIEW_FIELDS :: "string list" where
  "REVIEW_FIELDS =
     [''system'', ''phase_prompt'', ''application'', ''additional_context'', ''source'', ''updated_at'',
      ''updated_by'', ''system_locked'', ''contexts'', ''selections'']"

text \<open>\<open>d.get(k, default)\<close>.\<close>

definition dget_or :: "pydict \<Rightarrow> string \<Rightarrow> pyval \<Rightarrow> pyval" where
  "dget_or d k dflt = (case map_of d k of None \<Rightarrow> dflt | Some v \<Rightarrow> v)"

definition text_within :: "pyval \<Rightarrow> nat \<Rightarrow> bool" where
  "text_within v limit = (case v of PStr s \<Rightarrow> length s \<le> limit \<and> nul_free s | _ \<Rightarrow> False)"

definition source_ok :: "pyval \<Rightarrow> bool" where
  "source_ok v =
     (case v of
        PDict s \<Rightarrow> set (map fst s) \<subseteq> {''origin'', ''ref'', ''editor''}
          \<and> dget s ''origin'' \<in> PStr ` {''catalog'', ''assistant_pin'', ''run_override'', ''gate_edit''}
          \<and> (dget s ''ref'' = PNone \<or> text_within (dget s ''ref'') 2048)
          \<and> (dget s ''editor'' = PNone \<or> text_within (dget s ''editor'') 255)
      | _ \<Rightarrow> False)"

definition validated_prompt_review :: "gate_services \<Rightarrow> pyval \<Rightarrow> (pydict \<times> pydict) res" where
  "validated_prompt_review sv review =
     (let invalid = ''checkpointed prompt review is invalid''; lm = gs_limits sv
      in case review of
        PDict d \<Rightarrow>
          if \<not> set (map fst d) \<subseteq> set REVIEW_FIELDS then bad invalid
          else rbind (gs_review_metadata sv d) (\<lambda>_.
               if \<not> list_all (\<lambda>(f, limit). text_within (dget_or d f (PStr [])) limit)
                      [(''system'', max_prompt_part_chars lm), (''phase_prompt'', max_prompt_part_chars lm),
                       (''additional_context'', max_gate_string_chars lm), (''updated_at'', 64),
                       (''updated_by'', 255)]
                  \<or> \<not> (dget d ''application'' = PNone
                        \<or> text_within (dget d ''application'')
                            (if truthy (dget d ''system_locked'') then max_model_input_chars lm
                             else max_prompt_part_chars lm))
                  \<or> \<not> source_ok (dget d ''source'')
               then bad invalid
               else if gs_cred sv 100000 500000 1200000 review
               then bad ''checkpointed prompt review must not contain credential material''
               else (case gs_resolved_from_review sv d of
                       Inl _ \<Rightarrow> bad invalid | Inr resolved \<Rightarrow> Inr (d, resolved)))
      | _ \<Rightarrow> bad invalid)"

definition state_application_override ::
  "gate_services \<Rightarrow> pydict \<Rightarrow> pipeline_configurable \<Rightarrow> string option res" where
  "state_application_override sv state c =
     (case app_id c of
        None \<Rightarrow> Inr None
      | Some app \<Rightarrow>
          if app = [] then Inr None
          else rbind (case dget state ''application_reviews'' of
                        PNone \<Rightarrow> Inr [] | PDict d \<Rightarrow> Inr d
                      | _ \<Rightarrow> bad ''checkpointed application prompt overrides are invalid'') (\<lambda>reviews.
               case dget reviews app of
                 PNone \<Rightarrow> Inr None
               | PDict override \<Rightarrow>
                   (case dget override ''content'' of
                      PNone \<Rightarrow> Inr None
                    | PStr t \<Rightarrow>
                        if length t \<le> max_prompt_part_chars (gs_limits sv) \<and> nul_free t
                          \<and> \<not> scan (gs_cred sv) (PStr t)
                        then Inr (Some t)
                        else bad ''checkpointed application prompt override is invalid''
                    | _ \<Rightarrow> bad ''checkpointed application prompt override is invalid'')
               | _ \<Rightarrow> bad ''checkpointed application prompt override is invalid''))"

definition apply_application_override ::
  "gate_services \<Rightarrow> pydict \<Rightarrow> pipeline_configurable \<Rightarrow> pydict \<Rightarrow> (pydict \<times> pydict) res" where
  "apply_application_override sv state c review =
     (if truthy (dget review ''system_locked'') then validated_prompt_review sv (PDict review)
      else rbind (state_application_override sv state c) (\<lambda>override.
           case override of
             None \<Rightarrow> validated_prompt_review sv (PDict review)
           | Some t \<Rightarrow> validated_prompt_review sv (PDict (dset ''application'' (PStr t) review))))"

definition LOCKED_FIELDS :: "string list" where
  "LOCKED_FIELDS = [''system_locked'', ''contexts'', ''selections'']"

definition keep_fields :: "string list \<Rightarrow> pydict \<Rightarrow> pydict" where
  "keep_fields ks d = map (\<lambda>k. (k, dget d k)) (filter (dhas d) ks)"

definition none_to_empty :: "pyval \<Rightarrow> pyval" where
  "none_to_empty v = (if v = PNone then PStr [] else v)"

definition review_from_entry :: "gate_services \<Rightarrow> pydict \<Rightarrow> pydict \<Rightarrow> pydict res" where
  "review_from_entry sv entry prompt =
     (let system = none_to_empty (dget prompt ''system''); user = none_to_empty (dget prompt ''user'')
      in if \<not> is_str system \<or> \<not> is_str user then bad ''checkpointed resolved prompt is invalid''
         else rbind (case dget entry ''resolved_prompt_source'' of
                       PNone \<Rightarrow> Inr [(''origin'', PStr ''catalog'')] | PDict s \<Rightarrow> Inr s
                     | _ \<Rightarrow> bad ''checkpointed resolved prompt source is invalid'') (\<lambda>source.
              Inr (keep_fields LOCKED_FIELDS prompt
                   @ [(''system'', system), (''phase_prompt'', user),
                      (''application'', dget prompt ''application''), (''additional_context'', PStr []),
                      (''source'', PDict source), (''updated_at'', PStr (gs_now sv)),
                      (''updated_by'', PStr ''system'')])))"

definition review_source_for_phase ::
  "gate_services \<Rightarrow> pydict \<Rightarrow> phase \<Rightarrow> pipeline_configurable \<Rightarrow> (pydict \<times> pydict) res" where
  "review_source_for_phase sv state p c =
     (let check_and_layer = (\<lambda>review.
            rbind (prompt_variables (gs_cred sv) state) (\<lambda>vars.
            rbind (gs_manifest_review sv review p c vars) (\<lambda>_.
            apply_application_override sv state c review)))
      in rbind (case dget state ''prompt_reviews'' of
                  PNone \<Rightarrow> Inr [] | PDict d \<Rightarrow> Inr d
                | _ \<Rightarrow> bad ''checkpointed prompt reviews are invalid'') (\<lambda>reviews.
         case dget reviews (phase_value p) of
           PDict review \<Rightarrow> check_and_layer review
         | PNone \<Rightarrow>
             rbind (entry_of state p) (\<lambda>entry.
             case dget entry ''resolved_prompt'' of
               PDict prompt \<Rightarrow>
                 (if prompt \<noteq> [] then rbind (review_from_entry sv entry prompt) check_and_layer
                  else rbind (prompt_variables (gs_cred sv) state) (\<lambda>vars.
                       rbind (gs_resolve_prompt sv p c vars) (\<lambda>resolved.
                       check_and_layer (gs_review_from_resolved sv resolved))))
             | PNone \<Rightarrow>
                 rbind (prompt_variables (gs_cred sv) state) (\<lambda>vars.
                 rbind (gs_resolve_prompt sv p c vars) (\<lambda>resolved.
                 check_and_layer (gs_review_from_resolved sv resolved)))
             | _ \<Rightarrow> bad ''checkpointed resolved prompt is invalid'')
         | _ \<Rightarrow> bad ''checkpointed prompt review is invalid''))"

definition review_to_prompt :: "pydict \<Rightarrow> pydict" where
  "review_to_prompt review =
     [(''system'', none_to_empty (dget review ''system'')),
      (''user'', none_to_empty (dget review ''phase_prompt'')),
      (''application'', dget review ''application'')] @ keep_fields LOCKED_FIELDS review"

definition resolved_prompt_from_review :: "gate_services \<Rightarrow> pydict \<Rightarrow> pydict res" where
  "resolved_prompt_from_review sv review =
     rbind (validated_prompt_review sv (PDict review)) (\<lambda>(_, resolved).
     Inr (keep_fields ([''system'', ''user'', ''application''] @ LOCKED_FIELDS) resolved))"

definition application_review_update ::
  "gate_services \<Rightarrow> pipeline_configurable \<Rightarrow> string \<Rightarrow> pyval \<Rightarrow> pydict \<Rightarrow> (string \<times> pydict) option res" where
  "application_review_update sv c actor application source =
     (case app_id c of
        None \<Rightarrow> Inr None
      | Some app \<Rightarrow>
          if app = [] \<or> application = PNone then Inr None
          else if \<not> text_within application (max_prompt_part_chars (gs_limits sv))
            \<or> scan (gs_cred sv) application
          then bad ''application prompt override is invalid''
          else Inr (Some (app, [(''content'', application), (''source'', PDict source),
                                (''updated_at'', PStr (gs_now sv)), (''updated_by'', PStr actor)])))"

definition gate_edited_review ::
  "gate_services \<Rightarrow> string \<Rightarrow> pydict \<Rightarrow> pydict \<Rightarrow> pydict \<Rightarrow> pyval \<Rightarrow> pyval \<Rightarrow> pydict res" where
  "gate_edited_review sv actor review prompt source note context_edits =
     rbind (gs_edited_metadata sv review (dget prompt ''system'') (dget prompt ''application'')
              context_edits) (\<lambda>metadata.
     if metadata \<noteq> [] \<and> (\<not> is_str (dget prompt ''user'') \<or> blank (str_of (dget prompt ''user'')))
     then bad ''Phase context must not be blank''
     else (let next_review = dmerge (dmerge review metadata)
             [(''system'', none_to_empty (dget prompt ''system'')),
              (''phase_prompt'', none_to_empty (dget prompt ''user'')),
              (''application'', dget prompt ''application''), (''source'', PDict source),
              (''updated_at'', PStr (gs_now sv)), (''updated_by'', PStr actor)];
               noted = (if note \<noteq> PNone then dset ''additional_context'' note next_review
                        else if dhas next_review ''additional_context'' then next_review
                        else dset ''additional_context'' (PStr []) next_review)
           in if note \<noteq> PNone \<and> \<not> is_str note then bad ''prompt review note is invalid''
              else rbind (validated_prompt_review sv (PDict noted)) (\<lambda>(validated, _).
                   Inr validated)))"

subsection \<open>Prepare and the prompt gate\<close>

definition actor_of :: "gate_services \<Rightarrow> pyval \<Rightarrow> string" where
  "actor_of sv config = resolve_actor (gs_cred sv) (gs_attr sv) config"

definition status_is :: "phase_status \<Rightarrow> string \<times> pyval" where
  "status_is st = (''status'', PStr (status_value st))"

definition text_list :: "string list \<Rightarrow> pyval" where
  "text_list xs = PList (map PStr xs)"

definition prepare :: "gate_services \<Rightarrow> phase \<Rightarrow> pydict \<Rightarrow> pyval \<Rightarrow> node_update res" where
  "prepare sv p state config =
     rbind (from_state_for_phase sv state config p) (\<lambda>c.
     rbind (entry_of state p) (\<lambda>entry.
     rbind (attempt_of entry) (\<lambda>attempt.
     rbind (prerequisite_error (Some c) (dget state ''phase_results'') p) (\<lambda>prereq.
     case prereq of
       Some err \<Rightarrow> Inr (phase_update attempt
           [status_is FAILED, (''started_at'', PStr (gs_now sv)), (''errors'', text_list [err])])
     | None \<Rightarrow>
         if executor_of c p = Hitl
         then Inr (phase_update attempt
                [status_is RUNNING, (''started_at'', PStr (gs_now sv)), (''executor'', PStr ''hitl'')])
         else rbind (review_source_for_phase sv state p c) (\<lambda>(review, resolved).
              rbind (case dget state ''prompt_reviews'' of
                       PNone \<Rightarrow> Inr [] | PDict d \<Rightarrow> Inr d
                     | _ \<Rightarrow> bad ''checkpointed prompt reviews are invalid'') (\<lambda>reviews.
              Inr (phase_update attempt
                     [status_is RUNNING, (''started_at'', PStr (gs_now sv)),
                      (''resolved_prompt'',
                         PDict ([(''system'', dget resolved ''system''), (''user'', dget resolved ''user''),
                                 (''application'', dget resolved ''application'')]
                                @ keep_fields LOCKED_FIELDS resolved)),
                      (''resolved_prompt_source'', dget resolved ''source'')]
                     \<lparr>nu_prompt_review :=
                        (if dhas reviews (phase_value p) then None else Some review)\<rparr>)))))))"

definition route_after_prepare :: "gate_services \<Rightarrow> phase \<Rightarrow> pydict \<Rightarrow> string res" where
  "route_after_prepare sv p state =
     rbind (entry_of state p) (\<lambda>entry.
     if \<not> optional_member (dget entry ''status'') STATUS_VALUES
     then bad ''checkpointed phase status is invalid''
     else rbind (checkpoint_diagnostics (gs_cred sv) entry ''errors'') (\<lambda>errors.
          Inr (if dget entry ''status'' = PStr (status_value FAILED) \<and> errors \<noteq> [] then ''finalize''
               else if dget entry ''executor'' = PStr ''hitl'' then ''open_human_task''
               else ''open_prompt_gate'')))"

definition open_prompt_gate :: "gate_services \<Rightarrow> phase \<Rightarrow> pydict \<Rightarrow> pyval \<Rightarrow> node_update res" where
  "open_prompt_gate sv p state config =
     rbind (from_state_for_phase sv state config p) (\<lambda>c.
     if prompt_review (gate_policy_of c p) \<noteq> GATED then Inr no_update
     else rbind (entry_of state p) (\<lambda>entry.
          rbind (attempt_of entry) (\<lambda>attempt.
          Inr (phase_update attempt [status_is AWAITING_PROMPT_REVIEW]))))"

text \<open>The variables of the prompt gate's loop.\<close>

record prompt_loop =
  pl_review :: pydict
  pl_prompt :: pydict
  pl_source :: pydict
  pl_context :: pyval
  pl_error :: pyval

definition approvals_of :: "pydict \<Rightarrow> string \<times> pyval" where
  "approvals_of a = (''approvals'', PList [PDict a])"

definition or_empty :: "pyval \<Rightarrow> pyval" where
  "or_empty v = (if truthy v then v else PStr [])"

definition gate_edit_source :: "pydict \<Rightarrow> string \<Rightarrow> pydict" where
  "gate_edit_source source actor =
     [(''origin'', PStr ''gate_edit''), (''ref'', dget source ''ref''), (''editor'', PStr actor)]"

definition prompt_approve ::
  "gate_services \<Rightarrow> pipeline_configurable \<Rightarrow> phase \<Rightarrow> int \<Rightarrow> string \<Rightarrow> pyval \<Rightarrow> prompt_loop \<Rightarrow> pydict \<Rightarrow>
   gate_outcome res" where
  "prompt_approve sv c p attempt actor original_application s d =
     (let note = dget d ''note'';
          next_context = (if note \<noteq> PNone then or_empty note else pl_context s);
          source = (if next_context \<noteq> pl_context s \<and> dget (pl_source s) ''origin'' \<noteq> PStr ''gate_edit''
                    then gate_edit_source (pl_source s) actor else pl_source s)
      in rbind (gate_edited_review sv actor (pl_review s) (pl_prompt s) source next_context PNone)
         (\<lambda>review.
         rbind (resolved_prompt_from_review sv review) (\<lambda>resolved.
         rbind (make_approval (gs_cred sv) (gs_now sv) actor p attempt ''prompt_review'' ''approve''
                  (if truthy next_context then next_context else PNone) 0) (\<lambda>approval.
         rbind (if \<not> truthy (dget review ''system_locked'')
                  \<and> dget review ''application'' \<noteq> original_application
                then application_review_update sv c actor (dget review ''application'') source
                else Inr None) (\<lambda>app.
         Inr (Goto ''agent''
           (phase_update attempt
              [(''resolved_prompt'', PDict resolved), (''resolved_prompt_source'', PDict source),
               approvals_of approval]
              \<lparr>nu_prompt_review := Some review, nu_application_review := app\<rparr>)))))))"

text \<open>The refusals of an edit before it is applied; None when it may be applied.\<close>

definition compose_edit ::
  "gate_services \<Rightarrow> prompt_loop \<Rightarrow> pydict \<Rightarrow> string + pydict" where
  "compose_edit sv s edit =
     (if truthy (dget (pl_review s) ''system_locked'')
        \<and> dget_or edit ''system'' (dget (pl_prompt s) ''system'') \<noteq> dget (pl_review s) ''system''
      then Inl ''The shared system prompt is locked after launch''
      else if dget edit ''context_edits'' = PNone then Inr edit
      else (case gs_edited_metadata sv (pl_review s) (dget (pl_prompt s) ''system'')
                   (dget (pl_prompt s) ''application'') (dget edit ''context_edits'') of
              Inr metadata \<Rightarrow>
                if metadata = []
                then Inl ''Context entries must retain their identities and contain valid text''
                else (let text = gs_compose_contexts sv metadata
                      in Inr (dset ''application'' (if text = [] then PNone else PStr text) edit))
            | Inl _ \<Rightarrow> Inl ''Context entries must retain their identities and contain valid text''))"

definition prompt_edit :: "gate_services \<Rightarrow> prompt_loop \<Rightarrow> pydict \<Rightarrow> string + pydict \<times> pydict" where
  "prompt_edit sv s edit0 =
     rbind (compose_edit sv s edit0) (\<lambda>edit.
     (let prompt = pl_prompt s; user = dget_or edit ''user'' (dget prompt ''user'')
      in if truthy (dget (pl_review s) ''system_locked'')
           \<and> blank (if truthy user then str_of user else [])
         then Inl ''Phase context must not be blank''
         else Inr (edit, dmerge prompt
                [(''system'', dget_or edit ''system'' (dget prompt ''system'')), (''user'', user),
                 (''application'', dget_or edit ''application'' (dget prompt ''application''))])))"

definition prompt_modify ::
  "gate_services \<Rightarrow> string \<Rightarrow> prompt_loop \<Rightarrow> pydict \<Rightarrow> prompt_loop" where
  "prompt_modify sv actor s d =
     (case (case dget d ''prompt'' of
              PDict edit \<Rightarrow> prompt_edit sv s edit
            | _ \<Rightarrow> Inr ([], pl_prompt s)) of
        Inl err \<Rightarrow> s\<lparr>pl_error := PStr err\<rparr>
      | Inr (edit, prompt) \<Rightarrow>
          (let note = dget d ''note'';
               context = (if note \<noteq> PNone then or_empty note else pl_context s);
               source = gate_edit_source (pl_source s) actor
           in case gate_edited_review sv actor (pl_review s) prompt source context
                     (dget edit ''context_edits'') of
                Inr review \<Rightarrow>
                  \<lparr>pl_review = review, pl_prompt = review_to_prompt review, pl_source = source,
                   pl_context = context, pl_error = PNone\<rparr>
              | Inl _ \<Rightarrow>
                  \<lparr>pl_review = pl_review s, pl_prompt = review_to_prompt (pl_review s),
                   pl_source = source, pl_context = context,
                   pl_error = PStr ''Prompt edits must retain the selected entries and contain valid text''\<rparr>))"

definition prompt_actions :: "pipeline_configurable \<Rightarrow> string list" where
  "prompt_actions c =
     (if phase_execution c \<noteq> None then [''approve'', ''modify'', ''abort'']
      else PROMPT_REVIEW_ACTIONS)"

definition prompt_turn ::
  "gate_services \<Rightarrow> pipeline_configurable \<Rightarrow> phase \<Rightarrow> int \<Rightarrow> string \<Rightarrow> pyval \<Rightarrow> prompt_loop \<Rightarrow> pyval \<Rightarrow>
   prompt_loop turn res" where
  "prompt_turn sv c p attempt actor original_application s value =
     (let d = parse_gate_decision (gs_limits sv) (gs_cred sv) (gs_edit_ok sv) value (prompt_actions c);
          action = dget d ''action'';
          approval = (\<lambda>act. make_approval (gs_cred sv) (gs_now sv) actor p attempt ''prompt_review'' act PNone 0)
      in if action = PStr ''approve''
         then rbind (prompt_approve sv c p attempt actor original_application (s\<lparr>pl_error := PNone\<rparr>) d)
                (\<lambda>out. Inr (Leave out))
         else if action = PStr ''modify''
         then Inr (Again (prompt_modify sv actor (s\<lparr>pl_error := PNone\<rparr>) d))
         else if action = PStr ''skip_phase''
         then rbind (approval ''skip_phase'') (\<lambda>a.
              Inr (Leave (Goto ''finalize'' (phase_update attempt [status_is SKIPPED, approvals_of a]))))
         else if action = PStr ''abort''
         then rbind (approval ''abort'') (\<lambda>a.
              Inr (Leave (Goto ''finalize''
                (phase_update attempt [status_is ABORTED, approvals_of a] \<lparr>nu_run_aborted := True\<rparr>))))
         else Inr (Again (s\<lparr>pl_error := (if truthy (dget d ''error'') then dget d ''error''
                                         else PStr ''unsupported action'')\<rparr>)))"

definition prompt_capped ::
  "gate_services \<Rightarrow> pipeline_configurable \<Rightarrow> int \<Rightarrow> string \<Rightarrow> pyval \<Rightarrow> prompt_loop \<Rightarrow> gate_outcome res" where
  "prompt_capped sv c attempt actor original_application s =
     rbind (if dget (pl_review s) ''application'' \<noteq> original_application
            then application_review_update sv c actor (dget (pl_review s) ''application'') (pl_source s)
            else Inr None) (\<lambda>app.
     Inr (Goto ''finalize''
       (phase_update attempt
          [status_is FAILED,
           (''errors'', text_list [''prompt review loop cap ('' @ nat_text MAX_GATE_LOOPS
              @ '') reached without an explicit terminal decision''])]
          \<lparr>nu_prompt_review := Some (pl_review s), nu_application_review := app\<rparr>)))"

definition prompt_gate ::
  "gate_services \<Rightarrow> phase \<Rightarrow> pydict \<Rightarrow> pyval \<Rightarrow> pyval list \<Rightarrow> gate_outcome res" where
  "prompt_gate sv p state config decisions =
     rbind (from_state_for_phase sv state config p) (\<lambda>c.
     if prompt_review (gate_policy_of c p) \<noteq> GATED then Inr (Goto ''agent'' no_update)
     else rbind (entry_of state p) (\<lambda>entry.
          rbind (attempt_of entry) (\<lambda>attempt.
          rbind (review_source_for_phase sv state p c) (\<lambda>(review, _).
          rbind (case dget review ''source'' of
                   PDict src \<Rightarrow> Inr src
                 | _ \<Rightarrow> bad ''checkpointed prompt review source is invalid'') (\<lambda>source.
          rbind (gs_context_packets sv
                   (case dget state ''context_packets'' of PNone \<Rightarrow> PList [] | v \<Rightarrow> v)) (\<lambda>packets.
          if gs_cred sv 2000 250000 1000000 packets
          then bad ''checkpointed context packets contain unsafe material''
          else gate_loop
                 (prompt_turn sv c p attempt (actor_of sv config) (dget review ''application''))
                 pl_error
                 (prompt_capped sv c attempt (actor_of sv config) (dget review ''application''))
                 MAX_GATE_LOOPS
                 \<lparr>pl_review = review, pl_prompt = review_to_prompt review, pl_source = source,
                  pl_context = or_empty (dget review ''additional_context''), pl_error = PNone\<rparr>
                 decisions))))))"

subsection \<open>The agent's bookkeeping\<close>

definition agent_latency_ms :: "pyval \<Rightarrow> int option" where
  "agent_latency_ms v =
     (case v of
        PInt i \<Rightarrow> if 0 \<le> i \<and> i \<le> 86400000 then Some i else None
      | PFloat (FFin x) \<Rightarrow> if 0 \<le> x \<and> x \<le> 86400000 then Some (round_half_even x) else None
      | _ \<Rightarrow> None)"

text \<open>What the wrapped worker invocation did: its fields of the entry, its usage and its duration.\<close>

record invocation =
  inv_fields :: pydict
  inv_usage :: pydict
  inv_elapsed_ms :: nat
  inv_occurred_at :: string

definition consumer_of :: "scanner \<Rightarrow> pyval \<Rightarrow> pyval" where
  "consumer_of cred config =
     (case config of
        PDict c \<Rightarrow> (case dget c ''configurable'' of
                      PDict d \<Rightarrow> if safe_actor cred (dget d ''apex_actor_id'')
                                 then dget d ''apex_actor_id'' else PNone
                    | _ \<Rightarrow> PNone)
      | _ \<Rightarrow> PNone)"

definition clamp_ms :: "int \<Rightarrow> int" where
  "clamp_ms i = min 86400000 i"

definition usage_snapshot :: "int \<Rightarrow> pyval \<Rightarrow> invocation \<Rightarrow> pydict \<Rightarrow> pydict" where
  "usage_snapshot revision consumer iv d =
     [(''revision'', PInt revision), (''usage_consumer_id'', consumer),
      (''usage_occurred_at'', PStr (inv_occurred_at iv)),
      (''usage_metadata'', if inv_usage iv = [] then PNone else PDict (inv_usage iv)),
      (''model'', dget d ''model''),
      (''agent_latency_ms'', PInt (clamp_ms (int (inv_elapsed_ms iv)))),
      (''status'', PStr (if dget d ''status'' = PStr ''failed'' then ''failed'' else ''succeeded''))]"

definition other_revision :: "int \<Rightarrow> pyval \<Rightarrow> bool" where
  "other_revision revision v =
     (case v of PDict d \<Rightarrow> dget d ''revision'' \<noteq> PInt revision | _ \<Rightarrow> False)"

definition report_recoverable :: "pipeline_configurable \<Rightarrow> phase \<Rightarrow> bool" where
  "report_recoverable c p = (p = REPORTING \<and> (phase_execution c \<noteq> None \<or> analysis c \<noteq> None))"

definition agent ::
  "gate_services \<Rightarrow> phase \<Rightarrow> pydict \<Rightarrow> pyval \<Rightarrow> pipeline_configurable \<Rightarrow> invocation \<Rightarrow> pydict res" where
  "agent sv p state config c iv =
     rbind (entry_of state p) (\<lambda>previous.
     rbind (case dget_or previous ''revise_count'' (PInt 0) of
              PInt r \<Rightarrow> if 0 \<le> r \<and> r \<le> 10 then Inr r
                        else bad ''checkpointed phase revision count is invalid''
            | _ \<Rightarrow> bad ''checkpointed phase revision count is invalid'') (\<lambda>revision.
     rbind (case dget_or previous ''usage_invocations'' (PList []) of
              PList vs \<Rightarrow> if 11 < length vs then bad ''checkpointed invocation history is invalid''
                          else Inr vs
            | _ \<Rightarrow> bad ''checkpointed invocation history is invalid'') (\<lambda>retained.
     (let consumer = consumer_of (gs_cred sv) config;
          previous_ms = (case agent_latency_ms (dget previous ''agent_latency_ms'') of
                           None \<Rightarrow> 0 | Some i \<Rightarrow> i);
          d1 = dmerge (inv_fields iv)
                 [(''agent_latency_ms'', PInt (clamp_ms (previous_ms + int (inv_elapsed_ms iv)))),
                  (''usage_consumer_id'', consumer),
                  (''usage_occurred_at'', PStr (inv_occurred_at iv))];
          d2 = dset ''usage_invocations''
                 (PList (filter (other_revision revision) retained
                         @ [PDict (usage_snapshot revision consumer iv d1)])) d1;
          failed = (dget d2 ''status'' = PStr ''failed'')
      in Inr (if report_recoverable c p
              then (let d3 = dset ''report_failure'' (PBool failed) d2
                    in if failed then dset ''status'' (PStr (status_value RUNNING)) d3 else d3)
              else d2)))))"

subsection \<open>The output gate\<close>

definition open_output_gate :: "gate_services \<Rightarrow> phase \<Rightarrow> pydict \<Rightarrow> pyval \<Rightarrow> node_update res" where
  "open_output_gate sv p state config =
     rbind (from_state_for_phase sv state config p) (\<lambda>c.
     if output_review (gate_policy_of c p) \<noteq> GATED then Inr no_update
     else rbind (entry_of state p) (\<lambda>entry.
          rbind (attempt_of entry) (\<lambda>attempt.
          (let settled = dget entry ''engine_collection_settled'';
               st = (if p \<noteq> EXECUTION \<and> dget entry ''status'' = PStr (status_value FAILED)
                     then FAILED else AWAITING_OUTPUT_REVIEW)
           in if settled \<notin> {PNone, PBool True, PBool False}
              then bad ''checkpointed engine collection state is invalid''
              else Inr (phase_update attempt
                     (status_is st
                      # (if p = EXECUTION \<and> settled = PBool True
                         then [(''engine_collection_settled'', PBool False),
                               (''engine_collection_final_status'', PNone),
                               (''engine_collection_next'', PNone)]
                         else [])))))))"

definition meaningful :: "pyval \<Rightarrow> bool" where
  "meaningful v = (case v of PStr s \<Rightarrow> \<not> blank s | _ \<Rightarrow> False)"

definition has_visible_evidence ::
  "string option \<Rightarrow> string option \<Rightarrow> pydict list \<Rightarrow> string list \<Rightarrow> pydict list \<Rightarrow> bool" where
  "has_visible_evidence summary digest artifacts warnings dialogue =
     (meaningful (opt_str summary) \<or> meaningful (opt_str digest)
      \<or> list_ex (\<lambda>a. list_all (\<lambda>f. meaningful (dget a f)) [''id'', ''kind'', ''name'']) artifacts
      \<or> list_ex (\<lambda>w. meaningful (PStr w)) warnings
      \<or> list_ex (\<lambda>e. meaningful (dget e ''content'')) dialogue)"

definition dialogue_turn :: "gate_services \<Rightarrow> phase \<Rightarrow> int \<Rightarrow> nat \<Rightarrow> string \<Rightarrow> string \<Rightarrow> pydict res" where
  "dialogue_turn sv p attempt index who content =
     (if MAX_GATE_DECISION_TEXT_CHARS < length content \<or> \<not> nul_free content
         \<or> scan (gs_cred sv) (PStr content)
      then bad ''dialogue entry is invalid''
      else Inr [(''id'', PStr (phase_value p @ ''-a'' @ int_text attempt @ ''-d'' @ nat_text index
                               @ ''-'' @ who)),
                (''phase'', PStr (phase_value p)), (''attempt'', PInt attempt), (''role'', PStr who),
                (''content'', PStr content), (''at'', PStr (gs_now sv))])"

text \<open>
  One decision of the output gate. Revise, discuss, approve and abort leave the node, so that its
  loop only continues after a refusal and carries nothing but the error.
\<close>

definition deliverable_blocked :: "gate_services \<Rightarrow> phase \<Rightarrow> pydict \<Rightarrow> bool res" where
  "deliverable_blocked sv p entry =
     (if dget entry ''status'' = PStr (status_value FAILED) then Inr True
      else if dget entry ''deliverable_json'' = PNone then Inr False
      else rbind (gs_disposition sv (dget entry ''deliverable_json'') p) (\<lambda>d.
           Inr (d = ''blocked'')))"

definition output_revise ::
  "gate_services \<Rightarrow> phase \<Rightarrow> int \<Rightarrow> string \<Rightarrow> string option \<Rightarrow> int \<Rightarrow> pyval \<Rightarrow> gate_outcome res" where
  "output_revise sv p attempt actor summary revise_count instructions =
     rbind (make_approval (gs_cred sv) (gs_now sv) actor p attempt ''phase_review'' ''revise''
              instructions (nat revise_count + 1)) (\<lambda>approval.
     Inr (Goto (if p = EXECUTION then ''open_output_gate'' else ''agent'')
       (phase_update attempt
          ([status_is RUNNING, (''revise_instructions'', instructions),
            (''revise_count'', PInt (revise_count + 1)), approvals_of approval]
           @ (if p = EXECUTION
              then [(''summary'', PStr (gs_bounded_diagnostic sv
                       (or_str summary ''Execution results'' @ '' | analysis revised per: ''
                        @ or_str (Some (str_of instructions)) ''(no instructions supplied)'')
                       MAX_GATE_TEXT_CHARS)),
                    (''reasoning_digest'',
                       PStr ''Execution analysis revision only; the external load run was not restarted.'')]
              else [])))))"

definition output_discuss ::
  "gate_services \<Rightarrow> phase \<Rightarrow> int \<Rightarrow> string \<Rightarrow> pydict list \<Rightarrow> nat \<Rightarrow> string \<Rightarrow> gate_outcome res" where
  "output_discuss sv p attempt actor dialogue turns message =
     rbind (dialogue_turn sv p attempt (length dialogue) ''operator'' message) (\<lambda>mine.
     rbind (dialogue_turn sv p attempt (length dialogue + 1) ''agent''
              (gs_bounded_diagnostic sv (''['' @ phase_value p @ '' agent stub] acknowledged: '' @ message)
                 MAX_GATE_DECISION_TEXT_CHARS)) (\<lambda>reply.
     rbind (make_approval (gs_cred sv) (gs_now sv) actor p attempt ''phase_review'' ''discuss''
              (PStr message) (turns + 1)) (\<lambda>approval.
     Inr (Goto ''open_output_gate''
       (phase_update attempt [approvals_of approval] \<lparr>nu_dialogue := [mine, reply]\<rparr>)))))"

definition operator_turns :: "pydict list \<Rightarrow> nat" where
  "operator_turns dialogue = length (filter (\<lambda>e. dget e ''role'' = PStr ''operator'') dialogue)"

definition output_turn ::
  "gate_services \<Rightarrow> pipeline_configurable \<Rightarrow> phase \<Rightarrow> pydict \<Rightarrow> int \<Rightarrow> string \<Rightarrow> string option \<Rightarrow> int \<Rightarrow>
   pydict list \<Rightarrow> pyval \<Rightarrow> pyval \<Rightarrow> pyval turn res" where
  "output_turn sv c p entry attempt actor summary revise_count dialogue shown value =
     (let d = parse_gate_decision (gs_limits sv) (gs_cred sv) (gs_edit_ok sv) value PHASE_REVIEW_ACTIONS;
          action = dget d ''action'';
          approval = (\<lambda>act. make_approval (gs_cred sv) (gs_now sv) actor p attempt ''phase_review'' act PNone 0)
      in if action = PStr ''approve''
         then rbind (deliverable_blocked sv p entry) (\<lambda>blocked.
              if blocked
              then Inr (Again (PStr ''This deliverable has blockers. Revise the inputs/output or abort.''))
              else rbind (approval ''approve'') (\<lambda>a.
                   Inr (Leave (Goto ''finalize'' (phase_update attempt [approvals_of a])))))
         else if action = PStr ''revise''
         then (if int (max_revise_loops c) \<le> revise_count
               then Inr (Again (PStr (''max_revise_loops ('' @ nat_text (max_revise_loops c)
                      @ '') reached; choose approve or abort explicitly'')))
               else rbind (output_revise sv p attempt actor summary revise_count
                             (or_empty (dget d ''instructions''))) (\<lambda>out. Inr (Leave out)))
         else if action = PStr ''discuss''
         then (if max_dialogue_turns c \<le> operator_turns dialogue
               then Inr (Again (PStr (''max_dialogue_turns ('' @ nat_text (max_dialogue_turns c)
                      @ '') reached; choose another action'')))
               else rbind (output_discuss sv p attempt actor dialogue (operator_turns dialogue)
                             (str_of (or_empty (dget d ''message'')))) (\<lambda>out. Inr (Leave out)))
         else if action = PStr ''abort''
         then rbind (approval ''abort'') (\<lambda>a.
              Inr (Leave (Goto ''finalize''
                (phase_update attempt [status_is ABORTED, approvals_of a] \<lparr>nu_run_aborted := True\<rparr>))))
         else Inr (Again (if truthy (dget d ''error'') then dget d ''error''
                          else PStr ''unsupported action'')))"

definition failed_review :: "int \<Rightarrow> string \<Rightarrow> gate_outcome" where
  "failed_review attempt err =
     Goto ''finalize'' (phase_update attempt [status_is FAILED, (''errors'', text_list [err])])"

definition revise_count_of :: "pydict \<Rightarrow> int res" where
  "revise_count_of entry =
     (case dget entry ''revise_count'' of
        PNone \<Rightarrow> Inr 0
      | PInt r \<Rightarrow> if 0 \<le> r \<and> r \<le> 10 then Inr r
                  else bad ''checkpointed phase revision count is invalid''
      | _ \<Rightarrow> bad ''checkpointed phase revision count is invalid'')"

definition output_gate ::
  "gate_services \<Rightarrow> phase \<Rightarrow> pydict \<Rightarrow> pyval \<Rightarrow> pyval list \<Rightarrow> gate_outcome res" where
  "output_gate sv p state config decisions =
     rbind (from_state_for_phase sv state config p) (\<lambda>c.
     if output_review (gate_policy_of c p) \<noteq> GATED then Inr (Goto ''finalize'' no_update)
     else rbind (entry_of state p) (\<lambda>entry.
          rbind (attempt_of entry) (\<lambda>attempt.
          rbind (revise_count_of entry) (\<lambda>revise_count.
          rbind (checkpoint_review_text (gs_cred sv) ''phase summary'' MAX_GATE_TEXT_CHARS
                   (dget entry ''summary'')) (\<lambda>summary.
          rbind (checkpoint_review_text (gs_cred sv) ''phase reasoning digest'' MAX_GATE_TEXT_CHARS
                   (dget entry ''reasoning_digest'')) (\<lambda>digest.
          rbind (checkpoint_diagnostics (gs_cred sv) entry ''warnings'') (\<lambda>warnings.
          rbind (checkpoint_artifact_previews (gs_cred sv) state entry) (\<lambda>previews.
          rbind (checkpoint_phase_dialogue (gs_cred sv) state p attempt) (\<lambda>dialogue.
          if \<not> has_visible_evidence summary digest previews warnings dialogue
          then Inr (failed_review attempt ''phase review requires visible result evidence'')
          else gate_loop
                 (output_turn sv c p entry attempt (actor_of sv config) summary revise_count dialogue)
                 id
                 (\<lambda>_. Inr (failed_review attempt
                    ''phase review loop cap reached without an explicit terminal decision''))
                 (max_dialogue_turns c + MAX_GATE_LOOPS) PNone decisions)))))))))"

definition route_report_output :: "pipeline_configurable \<Rightarrow> pydict \<Rightarrow> string" where
  "route_report_output c entry =
     (if dget entry ''report_failure'' = PBool True \<and> report_recoverable c REPORTING
      then ''analysis_recovery'' else ''open_output_gate'')"

subsection \<open>Finalize\<close>

definition COMPLETABLE_VALUES :: "string list" where
  "COMPLETABLE_VALUES = map status_value [RUNNING, AWAITING_OUTPUT_REVIEW]"

definition completed_status :: "pyval \<Rightarrow> string option" where
  "completed_status raw =
     (case raw of
        PStr s \<Rightarrow> if s \<in> set TERMINAL_VALUES then Some s
                  else if s \<in> set COMPLETABLE_VALUES then Some (status_value SUCCEEDED) else None
      | _ \<Rightarrow> None)"

text \<open>
  The status that the settled collection of an execution imposes; None when the checkpointed
  collection fields contradict each other.
\<close>

definition collection_settled :: "phase \<Rightarrow> pydict \<Rightarrow> bool" where
  "collection_settled p entry = (p = EXECUTION \<and> dget entry ''engine_collection_settled'' = PBool True)"

definition collection_override :: "phase \<Rightarrow> pydict \<Rightarrow> string \<Rightarrow> string option" where
  "collection_override p entry st =
     (let settled = dget entry ''engine_collection_settled'';
          final = dget entry ''engine_collection_final_status''
      in if p \<noteq> EXECUTION then Some st
         else if settled \<notin> {PNone, PBool True, PBool False} then None
         else if settled = PBool True
         then (if final = PNone then Some st
               else if final \<in> PStr ` {status_value FAILED, status_value ABORTED} then Some (str_of final)
               else None)
         else if final = PNone then Some st else None)"

definition final_status :: "phase \<Rightarrow> pydict \<Rightarrow> string option" where
  "final_status p entry =
     Option.bind (completed_status (dget entry ''status'')) (collection_override p entry)"

definition transition_error :: string where
  "transition_error = ''checkpointed phase terminal transition was invalid''"

definition add_diagnostic :: "string \<Rightarrow> string list \<Rightarrow> string list" where
  "add_diagnostic m ms =
     (if m \<in> set ms then ms else take_last MAX_DURABLE_PHASE_DIAGNOSTICS (ms @ [m]))"

definition settled_status ::
  "gate_services \<Rightarrow> phase \<Rightarrow> pydict \<Rightarrow> string list \<Rightarrow> (string \<times> string list) res" where
  "settled_status sv p entry errors =
     (let (st, errs) = (case final_status p entry of
                          Some st \<Rightarrow> (st, errors)
                        | None \<Rightarrow> (status_value FAILED, add_diagnostic transition_error errors))
      in if dget entry ''deliverable_json'' = PNone then Inr (st, errs)
         else rbind (gs_disposition sv (dget entry ''deliverable_json'') p) (\<lambda>d.
              Inr (if d = ''blocked'' \<and> st = status_value SUCCEEDED
                   then (status_value FAILED, errs @ [''Model deliverable has unresolved blockers''])
                   else (st, errs))))"

text \<open>
  \<open>transcript\<close> is the artifact reference of the persisted transcript, None when it could not be
  stored; \<open>gs_duration\<close> is the clamped difference of the two timestamps.
\<close>

definition finalize ::
  "gate_services \<Rightarrow> phase \<Rightarrow> pydict \<Rightarrow> pyval \<Rightarrow> pydict option \<Rightarrow> node_update res" where
  "finalize sv p state config transcript =
     rbind (from_state_for_phase sv state config p) (\<lambda>_.
     rbind (entry_of state p) (\<lambda>entry.
     rbind (attempt_of entry) (\<lambda>attempt.
     rbind (checkpoint_diagnostics (gs_cred sv) entry ''warnings'') (\<lambda>warnings.
     rbind (checkpoint_diagnostics (gs_cred sv) entry ''errors'') (\<lambda>errors0.
     rbind (settled_status sv p entry errors0) (\<lambda>(st, errors).
     (let summary = checkpoint_terminal_text (gs_cred sv) (dget entry ''summary'');
          digest = checkpoint_terminal_text (gs_cred sv) (dget entry ''reasoning_digest'');
          started = checkpoint_terminal_timestamp sv (dget entry ''started_at'');
          warned = (if transcript = None
                    then add_diagnostic ''phase transcript persistence failed'' warnings else warnings)
      in Inr (phase_update attempt
                ([(''status'', PStr st), (''summary'', opt_str summary),
                  (''reasoning_digest'', opt_str digest), (''started_at'', opt_str started),
                  (''ended_at'', PStr (gs_now sv)),
                  (''duration_s'', case started of None \<Rightarrow> PNone | Some t \<Rightarrow> gs_duration sv t (gs_now sv)),
                  (''artifact_ids'', case transcript of None \<Rightarrow> PList [] | Some t \<Rightarrow> PList [dget t ''id'']),
                  (''transcript_ref'', case transcript of None \<Rightarrow> PNone | Some t \<Rightarrow> PDict t),
                  (''warnings'', text_list warned), (''errors'', text_list errors)]
                 @ (if p = EXECUTION
                    then [(''engine_collection_settled'', PBool False),
                          (''engine_collection_final_status'', PNone), (''engine_collection_next'', PNone)]
                    else []))
                \<lparr>nu_run_aborted := (collection_settled p entry \<and> st = status_value ABORTED),
                 nu_artifacts := (case transcript of None \<Rightarrow> [] | Some t \<Rightarrow> [t])\<rparr>))))))))"

subsection \<open>Human tasks\<close>

definition task_entry :: "pydict \<Rightarrow> phase \<Rightarrow> (pydict \<times> int) res" where
  "task_entry state p =
     (case dget_or state ''phase_results'' (PDict []) of
        PDict results \<Rightarrow>
          (case map_of results (phase_value p) of
             Some (PDict e) \<Rightarrow>
               (case map_of e ''attempt'' of
                  Some (PInt a) \<Rightarrow> Inr (e, a)
                | Some _ \<Rightarrow> Inl (TypeError ''attempt'')
                | None \<Rightarrow> Inl (KeyError ''attempt''))
           | Some _ \<Rightarrow> Inl (TypeError ''entry'')
           | None \<Rightarrow> Inl (KeyError (phase_value p)))
      | _ \<Rightarrow> Inl (TypeError ''phase_results''))"

definition task_id :: "phase \<Rightarrow> int \<Rightarrow> string" where
  "task_id p attempt = phase_value p @ ''-a'' @ int_text attempt @ ''-human''"

definition open_human_task ::
  "gate_services \<Rightarrow> phase \<Rightarrow> pydict \<Rightarrow> pyval \<Rightarrow> pydict \<Rightarrow> node_update res" where
  "open_human_task sv p state config extras =
     rbind (from_state_for_phase sv state config p) (\<lambda>c.
     rbind (task_entry state p) (\<lambda>(entry, attempt).
     Inr (phase_update attempt
       [status_is AWAITING_HUMAN_COMPLETION, (''executor'', PStr ''hitl''),
        (''human_task'',
           PDict ([(''schema_version'', PInt 1), (''kind'', PStr ''human_completion''),
                   (''phase'', PStr (phase_value p)), (''task_id'', PStr (task_id p attempt)),
                   (''revision'', PInt attempt),
                   (''actions'', PList [PStr ''complete'', PStr ''abort'']),
                   (''sections'', text_list (gs_sections sv p)),
                   (''created_at'', PStr (gs_now sv))] @ extras))])))"

definition human_turn ::
  "gate_services \<Rightarrow> pipeline_configurable \<Rightarrow> phase \<Rightarrow> int \<Rightarrow> pydict \<Rightarrow> string \<Rightarrow> pydict \<Rightarrow> pyval \<Rightarrow>
   gate_outcome res" where
  "human_turn sv c p attempt payload actor state value =
     (case value of
        PDict d \<Rightarrow>
          (let approval = (\<lambda>act. make_approval (gs_cred sv) (gs_now sv) actor p attempt
                                   ''human_completion'' act PNone 0)
           in if dget d ''action'' = PStr ''abort''
              then rbind (approval ''abort'') (\<lambda>a.
                   Inr (Goto ''finalize'' (phase_update attempt [status_is ABORTED, approvals_of a]
                          \<lparr>nu_run_aborted := True\<rparr>)))
              else if dget d ''action'' \<noteq> PStr ''complete'' then bad ''Choose complete or abort''
              else rbind (gs_completion sv payload d state c) (\<lambda>fs.
                   rbind (approval ''complete'') (\<lambda>a.
                   Inr (Goto ''finalize''
                     (phase_update attempt
                        (dmerge fs [status_is SUCCEEDED, (''completed_by'', PStr actor),
                                    (''completed_at'', PStr (gs_now sv)), approvals_of a]))))))
      | _ \<Rightarrow> bad ''Completion must be an object'')"

text \<open>Every ValueError is shown and the task stays open; other exceptions leave the node.\<close>

fun human_loop ::
  "gate_services \<Rightarrow> (pydict \<Rightarrow> pyval \<Rightarrow> gate_outcome res) \<Rightarrow> pydict \<Rightarrow> pyval list \<Rightarrow> gate_outcome res" where
  "human_loop sv body payload [] = Inr (Waiting (dget payload ''error''))"
| "human_loop sv body payload (v # vs) =
     (case body payload v of
        Inr out \<Rightarrow> Inr out
      | Inl (ValueError m) \<Rightarrow>
          human_loop sv body (dset ''error'' (PStr (gs_bounded_diagnostic sv m 4096)) payload) vs
      | Inl e \<Rightarrow> Inl e)"

definition human_completion ::
  "gate_services \<Rightarrow> phase \<Rightarrow> pydict \<Rightarrow> pyval \<Rightarrow> pyval list \<Rightarrow> gate_outcome res" where
  "human_completion sv p state config decisions =
     rbind (from_state_for_phase sv state config p) (\<lambda>c.
     rbind (task_entry state p) (\<lambda>(entry, attempt).
     (case map_of entry ''human_task'' of
        Some (PDict payload) \<Rightarrow>
          if dget payload ''phase'' \<noteq> PStr (phase_value p) \<or> dget payload ''revision'' \<noteq> PInt attempt
            \<or> dget payload ''task_id'' \<noteq> PStr (task_id p attempt)
            \<or> dget payload ''sections'' \<noteq> text_list (gs_sections sv p)
          then bad ''Checkpointed human task does not match its phase and attempt''
          else human_loop sv (\<lambda>pl v. human_turn sv c p attempt pl (actor_of sv config) state v)
                 payload decisions
      | Some _ \<Rightarrow> Inl (TypeError ''human_task'')
      | None \<Rightarrow> Inl (KeyError ''human_task''))))"

subsection \<open>The spine\<close>

text \<open>The fixed edges of the subgraph; the gates and the agent's successor choose the others.\<close>

definition spine_edges :: "phase \<Rightarrow> (string \<times> string list) list" where
  "spine_edges p =
     [(''open_human_task'', [''human_completion'']), (''human_completion'', [''finalize'']),
      (''prepare'', [''open_prompt_gate'', ''open_human_task'', ''finalize'']),
      (''open_prompt_gate'', [''prompt_gate'']), (''prompt_gate'', [''agent'', ''finalize'']),
      (''open_output_gate'', [''output_gate'']),
      (''output_gate'', [''agent'', ''open_output_gate'', ''finalize''])]
     @ (if p = REPORTING
        then [(''agent'', [''analysis_step'', ''analysis_recovery'', ''report_agent'', ''finalize'']),
              (''analysis_step'', [''analysis_step'', ''analysis_recovery'', ''report_agent'', ''finalize'']),
              (''analysis_recovery'', [''analysis_step'', ''report_agent'', ''open_human_task'', ''finalize'']),
              (''report_agent'', [''analysis_recovery'', ''open_output_gate''])]
        else if p = EXECUTION then []
        else [(''agent'', [''open_output_gate''])])"

definition spine_successors :: "phase \<Rightarrow> string \<Rightarrow> string list" where
  "spine_successors p node = (case map_of (spine_edges p) node of None \<Rightarrow> [] | Some ns \<Rightarrow> ns)"

subsection \<open>Facts: gate loops\<close>

text \<open>
  How a replayed loop can end: one of the first \<open>n\<close> decisions left it, the cap did, or it waits
  for a decision that has not been recorded.
\<close>

lemma gate_loop_ends:
  assumes "\<And>s d s'. I s \<Longrightarrow> body s d = Inr (Again s') \<Longrightarrow> I s'"
  shows "gate_loop body shown capped n s ds = Inr out \<Longrightarrow> I s \<Longrightarrow>
    (\<exists>e. out = Waiting e \<and> length ds < n)
    \<or> (\<exists>s'. \<exists>v \<in> set (take n ds). I s' \<and> body s' v = Inr (Leave out))
    \<or> (\<exists>s'. I s' \<and> n \<le> length ds \<and> capped s' = Inr out)"
proof (induction n arbitrary: s ds)
  case (Suc n)
  show ?case
  proof (cases ds)
    case Nil
    with Suc.prems show ?thesis by auto
  next
    case (Cons d rest)
    then obtain t where t: "body s d = Inr t"
      "(case t of Leave out' \<Rightarrow> Inr out' | Again s' \<Rightarrow> gate_loop body shown capped n s' rest) = Inr out"
      using Suc.prems by (auto simp: rbind_Inr_iff)
    show ?thesis
    proof (cases t)
      case (Leave out')
      with t Cons Suc.prems show ?thesis
        by auto
    next
      case (Again s')
      then have "gate_loop body shown capped n s' rest = Inr out" "I s'"
        using t assms Suc.prems by auto
      from Suc.IH [OF this] show ?thesis
        unfolding Cons by auto
    qed
  qed
qed auto

lemmas turn_defs = phase_update_def no_update_def approvals_of_def status_is_def

definition entry_field :: "node_update \<Rightarrow> string \<Rightarrow> pyval" where
  "entry_field u k = (case nu_entry u of None \<Rightarrow> PNone | Some e \<Rightarrow> dget e k)"

lemma dget_Cons [simp]: "dget ((k, v) # d) k' = (if k' = k then v else dget d k')"
  by (simp add: dget_def)

lemma dget_Nil [simp]: "dget [] k = PNone"
  by (simp add: dget_def)

text \<open>The decision that a resume value is at the prompt gate of a configuration.\<close>

definition prompt_action :: "gate_services \<Rightarrow> pipeline_configurable \<Rightarrow> pyval \<Rightarrow> pyval" where
  "prompt_action sv c v =
     dget (parse_gate_decision (gs_limits sv) (gs_cred sv) (gs_edit_ok sv) v (prompt_actions c)) ''action''"

lemma prompt_turn_leaves:
  assumes "prompt_turn sv c p attempt actor app s v = Inr (Leave (Goto t u))"
  shows "((t = ''agent'' \<and> prompt_action sv c v = PStr ''approve'' \<and> entry_field u ''status'' = PNone
        \<and> \<not> nu_run_aborted u \<and> nu_prompt_review u \<noteq> None)
     \<or> (t = ''finalize'' \<and> prompt_action sv c v = PStr ''skip_phase''
        \<and> entry_field u ''status'' = PStr (status_value SKIPPED) \<and> \<not> nu_run_aborted u)
     \<or> (t = ''finalize'' \<and> prompt_action sv c v = PStr ''abort''
        \<and> entry_field u ''status'' = PStr (status_value ABORTED) \<and> nu_run_aborted u))"
proof -
  let ?a = "prompt_action sv c v"
  consider "?a = PStr ''approve''" | "?a = PStr ''modify''" | "?a = PStr ''skip_phase''"
    | "?a = PStr ''abort''"
    | "?a \<notin> {PStr ''approve'', PStr ''modify'', PStr ''skip_phase'', PStr ''abort''}"
    by blast
  then show ?thesis
  proof cases
    case 1
    then have "\<exists>d. prompt_approve sv c p attempt actor app (s\<lparr>pl_error := PNone\<rparr>) d = Inr (Goto t u)"
      using assms by (auto simp: prompt_turn_def Let_def prompt_action_def rbind_Inr_iff)
    with 1 show ?thesis
      by (auto simp: prompt_approve_def Let_def rbind_Inr_iff turn_defs entry_field_def)
  next
    case 2
    with assms show ?thesis by (simp add: prompt_turn_def Let_def prompt_action_def)
  next
    case 3
    with assms show ?thesis
      by (auto simp: prompt_turn_def Let_def prompt_action_def rbind_Inr_iff turn_defs entry_field_def)
  next
    case 4
    with assms show ?thesis
      by (auto simp: prompt_turn_def Let_def prompt_action_def rbind_Inr_iff turn_defs entry_field_def)
  next
    case 5
    with assms show ?thesis by (simp add: prompt_turn_def Let_def prompt_action_def)
  qed
qed

lemma prompt_capped_fails:
  "prompt_capped sv c attempt actor app s = Inr (Goto t u) \<Longrightarrow>
     t = ''finalize'' \<and> entry_field u ''status'' = PStr (status_value FAILED)"
  by (auto simp: prompt_capped_def rbind_Inr_iff turn_defs entry_field_def)

lemma prompt_gate_loop:
  assumes "prompt_gate sv p state config decisions = Inr out"
    and "from_state_for_phase sv state config p = Inr c" and "prompt_review (gate_policy_of c p) = GATED"
  obtains attempt actor app s where
    "gate_loop (prompt_turn sv c p attempt actor app) pl_error
       (prompt_capped sv c attempt actor app) MAX_GATE_LOOPS s decisions = Inr out"
  using assms
  by (simp only: prompt_gate_def rbind.simps rbind_Inr_iff split_paired_Ex case_prod_conv simp_thms
      if_True if_False) (elim exE conjE, simp only: bad_ne split: if_splits)

text \<open>
  C6. A gated prompt is only used with consent: the prompt gate goes on to the agent only after an
  approve among its first ten decisions; a skip and an abort end the phase with the status they
  ask for, an abort also stops the run, and without a terminal decision the phase fails.
\<close>

theorem prompt_gate_consent:
  assumes "prompt_gate sv p state config decisions = Inr (Goto t u)"
    and "from_state_for_phase sv state config p = Inr c" and "prompt_review (gate_policy_of c p) = GATED"
  shows "(t = ''agent'' \<and> (\<exists>v \<in> set (take MAX_GATE_LOOPS decisions). prompt_action sv c v = PStr ''approve''))
    \<or> (t = ''finalize'' \<and> entry_field u ''status'' = PStr (status_value SKIPPED)
        \<and> (\<exists>v \<in> set (take MAX_GATE_LOOPS decisions). prompt_action sv c v = PStr ''skip_phase''))
    \<or> (t = ''finalize'' \<and> entry_field u ''status'' = PStr (status_value ABORTED) \<and> nu_run_aborted u
        \<and> (\<exists>v \<in> set (take MAX_GATE_LOOPS decisions). prompt_action sv c v = PStr ''abort''))
    \<or> (t = ''finalize'' \<and> entry_field u ''status'' = PStr (status_value FAILED)
        \<and> MAX_GATE_LOOPS \<le> length decisions)"
proof -
  obtain attempt actor app s where
    loop: "gate_loop (prompt_turn sv c p attempt actor app) pl_error
       (prompt_capped sv c attempt actor app) MAX_GATE_LOOPS s decisions = Inr (Goto t u)"
    by (rule prompt_gate_loop [OF assms])
  from gate_loop_ends [of "\<lambda>_. True", OF _ loop]
  consider s' v where "v \<in> set (take MAX_GATE_LOOPS decisions)"
      "prompt_turn sv c p attempt actor app s' v = Inr (Leave (Goto t u))"
    | s' where "MAX_GATE_LOOPS \<le> length decisions" "prompt_capped sv c attempt actor app s' = Inr (Goto t u)"
    by blast
  then show ?thesis
  proof cases
    case 1
    from prompt_turn_leaves [OF 1(2)] 1(1) show ?thesis by blast
  next
    case 2
    from prompt_capped_fails [OF 2(2)] 2(1) show ?thesis by blast
  qed
qed

text \<open>A gate never waits once the cap of its loop is reached.\<close>

lemma gate_loop_bounded:
  "n \<le> length ds \<Longrightarrow> (\<And>s d out. body s d = Inr (Leave out) \<Longrightarrow> \<nexists>e. out = Waiting e) \<Longrightarrow>
   (\<And>s out. capped s = Inr out \<Longrightarrow> \<nexists>e. out = Waiting e) \<Longrightarrow>
   gate_loop body shown capped n s ds \<noteq> Inr (Waiting e)"
  using gate_loop_ends [of "\<lambda>_. True" body shown capped n s ds "Waiting e"] by fastforce

lemma deliverable_unblocked:
  "deliverable_blocked sv p entry = Inr False \<Longrightarrow>
     dget entry ''status'' \<noteq> PStr (status_value FAILED) \<and>
     (dget entry ''deliverable_json'' = PNone
      \<or> (\<exists>d. gs_disposition sv (dget entry ''deliverable_json'') p = Inr d \<and> d \<noteq> ''blocked''))"
  by (auto simp: deliverable_blocked_def rbind_Inr_iff split: if_splits)

definition output_action :: "gate_services \<Rightarrow> pyval \<Rightarrow> pyval" where
  "output_action sv v =
     dget (parse_gate_decision (gs_limits sv) (gs_cred sv) (gs_edit_ok sv) v PHASE_REVIEW_ACTIONS) ''action''"

text \<open>The discuss turns that the checkpoint holds for one attempt of a phase.\<close>

definition discuss_entry :: "phase \<Rightarrow> int \<Rightarrow> pyval \<Rightarrow> bool" where
  "discuss_entry p attempt v =
     (case v of
        PDict e \<Rightarrow> dget e ''phase'' = PStr (phase_value p)
          \<and> (case map_of e ''attempt'' of None \<Rightarrow> attempt = 1 | Some a \<Rightarrow> a = PInt attempt)
          \<and> dget e ''role'' = PStr ''operator''
      | _ \<Rightarrow> False)"

definition discussed_turns :: "pydict \<Rightarrow> phase \<Rightarrow> int \<Rightarrow> nat" where
  "discussed_turns state p attempt =
     (case dget state ''dialogue'' of
        PList vs \<Rightarrow> length (filter (discuss_entry p attempt) vs) | _ \<Rightarrow> 0)"

lemma dialogue_attempt_value:
  "is_ok (dialogue_attempt e) \<Longrightarrow>
     dialogue_attempt e = Inr b \<longleftrightarrow> (case map_of e ''attempt'' of None \<Rightarrow> b = 1 | Some v \<Rightarrow> v = PInt b)"
  by (auto simp: dialogue_attempt_def bad_def split: option.splits pyval.splits if_splits)

lemma dialogue_dict_turn:
  assumes "dialogue_dict cred v = Inr e"
  shows "discuss_entry p attempt v \<longleftrightarrow> dget e ''role'' = PStr ''operator''
    \<and> dget e ''phase'' = PStr (phase_value p) \<and> dialogue_attempt e = Inr attempt"
proof -
  have v: "v = PDict e" "is_ok (dialogue_attempt e)"
    using assms by (auto simp: dialogue_dict_def dialogue_entry_ok_def bad_def split: pyval.splits if_splits)
  show ?thesis
    unfolding v(1) discuss_entry_def pyval.case dialogue_attempt_value [OF v(2)] by blast
qed

lemma checkpoint_phase_dialogue_turns:
  assumes "checkpoint_phase_dialogue cred state p attempt = Inr dialogue"
  shows "operator_turns dialogue = discussed_turns state p attempt"
proof (cases "dget state ''dialogue''")
  case (PList vs)
  with assms obtain es where es: "list_all2 (\<lambda>v e. dialogue_dict cred v = Inr e) vs es"
    and d: "dialogue = filter (\<lambda>e. dget e ''phase'' = PStr (phase_value p) \<and> dialogue_attempt e = Inr attempt) es"
    by (auto simp: checkpoint_phase_dialogue_def rbind_Inr_iff rmap_Inr_iff bad_def split: if_splits)
  have "length (filter (\<lambda>e. dget e ''role'' = PStr ''operator'' \<and> dget e ''phase'' = PStr (phase_value p)
      \<and> dialogue_attempt e = Inr attempt) es) = length (filter (discuss_entry p attempt) vs)"
    using es by (induction rule: list_all2_induct) (simp_all add: dialogue_dict_turn)
  then show ?thesis by (simp add: d operator_turns_def discussed_turns_def PList conj_ac)
qed (use assms in \<open>auto simp: checkpoint_phase_dialogue_def discussed_turns_def operator_turns_def bad_def\<close>)

text \<open>What an update that leaves the output gate is, by the action of its decision.\<close>

definition output_exit ::
  "gate_services \<Rightarrow> pipeline_configurable \<Rightarrow> phase \<Rightarrow> pydict \<Rightarrow> nat \<Rightarrow> pyval \<Rightarrow> string \<Rightarrow>
   node_update \<Rightarrow> bool" where
  "output_exit sv c p entry turns action t u =
     ((action = PStr ''approve'' \<and> t = ''finalize'' \<and> entry_field u ''status'' = PNone
         \<and> \<not> nu_run_aborted u \<and> dget entry ''status'' \<noteq> PStr ''failed''
         \<and> (dget entry ''deliverable_json'' = PNone
            \<or> (\<exists>d. gs_disposition sv (dget entry ''deliverable_json'') p = Inr d \<and> d \<noteq> ''blocked'')))
      \<or> (action = PStr ''revise'' \<and> t = (if p = EXECUTION then ''open_output_gate'' else ''agent'')
         \<and> (\<exists>rc. dget entry ''revise_count'' \<in> {PInt rc, if rc = 0 then PNone else PInt rc}
              \<and> rc < int (max_revise_loops c) \<and> entry_field u ''revise_count'' = PInt (rc + 1))
         \<and> entry_field u ''status'' = PStr ''running'' \<and> \<not> nu_run_aborted u)
      \<or> (action = PStr ''discuss'' \<and> t = ''open_output_gate'' \<and> turns < max_dialogue_turns c
         \<and> map (\<lambda>e. dget e ''role'') (nu_dialogue u) = [PStr ''operator'', PStr ''agent'']
         \<and> entry_field u ''status'' = PNone \<and> \<not> nu_run_aborted u)
      \<or> (action = PStr ''abort'' \<and> t = ''finalize'' \<and> nu_run_aborted u
         \<and> entry_field u ''status'' = PStr ''aborted''))"

lemma output_revise_exit:
  "output_revise sv p attempt actor summary rc instructions = Inr (Goto t u) \<Longrightarrow>
     t = (if p = EXECUTION then ''open_output_gate'' else ''agent'')
     \<and> entry_field u ''revise_count'' = PInt (rc + 1)
     \<and> entry_field u ''status'' = PStr (status_value RUNNING) \<and> \<not> nu_run_aborted u"
  by (auto simp: output_revise_def rbind_Inr_iff turn_defs entry_field_def)

lemma dialogue_turn_role:
  "dialogue_turn sv p attempt index who content = Inr d \<Longrightarrow> dget d ''role'' = PStr who"
  by (auto simp: dialogue_turn_def bad_def split: if_splits)

lemma output_discuss_exit:
  assumes "output_discuss sv p attempt actor dialogue turns message = Inr (Goto t u)"
  shows "t = ''open_output_gate'' \<and> map (\<lambda>e. dget e ''role'') (nu_dialogue u) = [PStr ''operator'', PStr ''agent'']
    \<and> entry_field u ''status'' = PNone \<and> \<not> nu_run_aborted u"
proof -
  obtain mine reply approval where
    "dialogue_turn sv p attempt (length dialogue) ''operator'' message = Inr mine"
    "\<exists>txt. dialogue_turn sv p attempt (length dialogue + 1) ''agent'' txt = Inr reply"
    "Goto ''open_output_gate'' (phase_update attempt [approvals_of approval] \<lparr>nu_dialogue := [mine, reply]\<rparr>)
       = Goto t u"
    using assms by (auto simp: output_discuss_def rbind_Inr_iff)
  then show ?thesis
    by (auto simp: turn_defs entry_field_def dest!: dialogue_turn_role)
qed

lemma output_turn_leaves:
  assumes "output_turn sv c p entry attempt actor summary rc dialogue s v = Inr (Leave (Goto t u))"
    and "revise_count_of entry = Inr rc"
  shows "output_exit sv c p entry (operator_turns dialogue) (output_action sv v) t u"
proof -
  let ?a = "output_action sv v"
  note unfold = output_turn_def Let_def output_action_def [symmetric]
  consider "?a = PStr ''approve''" | "?a = PStr ''revise''" | "?a = PStr ''discuss''"
    | "?a = PStr ''abort''"
    | "?a \<notin> {PStr ''approve'', PStr ''revise'', PStr ''discuss'', PStr ''abort''}"
    by blast
  then show ?thesis
  proof cases
    case 1
    with assms(1) have "deliverable_blocked sv p entry = Inr False" "t = ''finalize''"
      "entry_field u ''status'' = PNone" "\<not> nu_run_aborted u"
      by (auto simp: unfold rbind_Inr_iff turn_defs entry_field_def split: if_splits)
    with 1 deliverable_unblocked [of sv p entry] show ?thesis by (simp add: output_exit_def)
  next
    case 2
    with assms(1) have "rc < int (max_revise_loops c)"
      "t = (if p = EXECUTION then ''open_output_gate'' else ''agent'')
       \<and> entry_field u ''revise_count'' = PInt (rc + 1)
       \<and> entry_field u ''status'' = PStr (status_value RUNNING) \<and> \<not> nu_run_aborted u"
      by (auto simp: unfold rbind_Inr_iff dest!: output_revise_exit split: if_splits)
    moreover have "dget entry ''revise_count'' \<in> {PInt rc, if rc = 0 then PNone else PInt rc}"
      using assms(2) by (auto simp: revise_count_of_def bad_def split: pyval.splits if_splits)
    ultimately show ?thesis using 2 by (auto simp: output_exit_def)
  next
    case 3
    with assms(1) show ?thesis
      by (auto simp: unfold output_exit_def rbind_Inr_iff dest!: output_discuss_exit split: if_splits)
  next
    case 4
    with assms(1) show ?thesis
      by (auto simp: unfold output_exit_def rbind_Inr_iff turn_defs entry_field_def split: if_splits)
  next
    case 5
    with assms(1) show ?thesis by (simp add: unfold)
  qed
qed

lemma output_gate_loop:
  assumes "output_gate sv p state config decisions = Inr out"
    and "from_state_for_phase sv state config p = Inr c" and "output_review (gate_policy_of c p) = GATED"
    and "entry_of state p = Inr entry"
  obtains (invisible) attempt where "attempt_of entry = Inr attempt"
    "out = failed_review attempt ''phase review requires visible result evidence''"
  | (loop) attempt actor summary rc dialogue where "attempt_of entry = Inr attempt"
    "revise_count_of entry = Inr rc" "checkpoint_phase_dialogue (gs_cred sv) state p attempt = Inr dialogue"
    "gate_loop (output_turn sv c p entry attempt actor summary rc dialogue) id
       (\<lambda>_. Inr (failed_review attempt ''phase review loop cap reached without an explicit terminal decision''))
       (max_dialogue_turns c + MAX_GATE_LOOPS) PNone decisions = Inr out"
  using assms
  by (simp only: output_gate_def rbind.simps rbind_Inr_iff simp_thms
      if_True if_False) (elim exE conjE, simp only: sum.inject split: if_splits; blast)

text \<open>
  C5. Leaving the output gate is one of the four decisions with its guard: approve only without a
  failed status or a declared blocker, revise only below the revision limit and counted, discuss
  only while the checkpoint holds fewer operator turns of this attempt than the limit and with one
  turn of each side added, abort with the run stopped. Otherwise the phase fails, because nothing
  can be reviewed or because ten decisions more than the turn limit led to nothing.
\<close>

theorem output_gate_decided:
  assumes "output_gate sv p state config decisions = Inr (Goto t u)"
    and "from_state_for_phase sv state config p = Inr c" and "output_review (gate_policy_of c p) = GATED"
    and "entry_of state p = Inr entry" and "attempt_of entry = Inr attempt"
  shows "(\<exists>v \<in> set decisions.
            output_exit sv c p entry (discussed_turns state p attempt) (output_action sv v) t u)
    \<or> (t = ''finalize'' \<and> entry_field u ''status'' = PStr ''failed'' \<and> \<not> nu_run_aborted u
       \<and> (entry_field u ''errors'' = text_list [''phase review requires visible result evidence'']
          \<or> max_dialogue_turns c + 10 \<le> length decisions))"
proof (rule output_gate_loop [OF assms(1-4)])
  fix a
  assume "Goto t u = failed_review a ''phase review requires visible result evidence''"
  then show ?thesis by (auto simp: failed_review_def turn_defs entry_field_def)
next
  fix a actor summary rc dialogue
  assume "attempt_of entry = Inr a" and rc: "revise_count_of entry = Inr rc"
    and dialogue: "checkpoint_phase_dialogue (gs_cred sv) state p a = Inr dialogue"
    and loop: "gate_loop (output_turn sv c p entry a actor summary rc dialogue) id
       (\<lambda>_. Inr (failed_review a ''phase review loop cap reached without an explicit terminal decision''))
       (max_dialogue_turns c + MAX_GATE_LOOPS) PNone decisions = Inr (Goto t u)"
  then have turns: "operator_turns dialogue = discussed_turns state p attempt"
    using checkpoint_phase_dialogue_turns [OF dialogue] assms(5) by simp
  from gate_loop_ends [of "\<lambda>_. True", OF _ loop]
  consider s v where "v \<in> set (take (max_dialogue_turns c + MAX_GATE_LOOPS) decisions)"
      "output_turn sv c p entry a actor summary rc dialogue s v = Inr (Leave (Goto t u))"
    | "max_dialogue_turns c + MAX_GATE_LOOPS \<le> length decisions"
      "failed_review a ''phase review loop cap reached without an explicit terminal decision'' = Goto t u"
    by blast
  then show ?thesis
  proof cases
    case 1
    have "v \<in> set decisions" using 1(1) by (rule in_set_takeD)
    moreover have "output_exit sv c p entry (discussed_turns state p attempt) (output_action sv v) t u"
      using output_turn_leaves [OF 1(2) rc] unfolding turns .
    ultimately show ?thesis by blast
  next
    case 2
    then show ?thesis by (auto simp: failed_review_def turn_defs entry_field_def MAX_GATE_LOOPS_def)
  qed
qed

lemma prompt_turn_never_waits: "prompt_turn sv c p attempt actor app s d = Inr (Leave out) \<Longrightarrow> out \<noteq> Waiting e"
  by (auto simp: prompt_turn_def prompt_approve_def Let_def rbind_Inr_iff split: if_splits)

lemma output_turn_never_waits:
  "output_turn sv c p entry attempt actor summary rc dialogue s d = Inr (Leave out) \<Longrightarrow> out \<noteq> Waiting e"
  by (auto simp: output_turn_def output_revise_def output_discuss_def Let_def rbind_Inr_iff
      split: if_splits)

text \<open>
  C9. The gates do not interrupt for ever: once as many decisions are recorded as the turn limit and
  the loop cap allow, neither gate waits for another one.
\<close>

theorem gates_stop_waiting:
  assumes "from_state_for_phase sv state config p = Inr c" and "entry_of state p = Inr entry"
    and "max_dialogue_turns c + MAX_GATE_LOOPS \<le> length decisions"
  shows "prompt_gate sv p state config decisions \<noteq> Inr (Waiting e)
    \<and> output_gate sv p state config decisions \<noteq> Inr (Waiting e)"
proof
  have neq: "(\<nexists>e. out = Waiting e) \<longleftrightarrow> (\<forall>e. out \<noteq> Waiting e)" for out by blast
  show "prompt_gate sv p state config decisions \<noteq> Inr (Waiting e)"
  proof
    assume w: "prompt_gate sv p state config decisions = Inr (Waiting e)"
    then have "prompt_review (gate_policy_of c p) = GATED"
      using assms(1) by (auto simp: prompt_gate_def split: if_splits)
    then obtain attempt actor app s where
      "gate_loop (prompt_turn sv c p attempt actor app) pl_error
         (prompt_capped sv c attempt actor app) MAX_GATE_LOOPS s decisions = Inr (Waiting e)"
      by (rule prompt_gate_loop [OF w assms(1)])
    then show False
      using gate_loop_bounded [of MAX_GATE_LOOPS decisions "prompt_turn sv c p attempt actor app"
          "prompt_capped sv c attempt actor app" pl_error s e] assms(3)
      by (auto simp: prompt_capped_def rbind_Inr_iff dest: prompt_turn_never_waits)
  qed
  show "output_gate sv p state config decisions \<noteq> Inr (Waiting e)"
  proof
    assume w: "output_gate sv p state config decisions = Inr (Waiting e)"
    then have "output_review (gate_policy_of c p) = GATED"
      using assms(1) by (auto simp: output_gate_def split: if_splits)
    then show False
    proof (rule output_gate_loop [OF w assms(1) _ assms(2)])
      fix attempt actor summary rc dialogue
      assume "gate_loop (output_turn sv c p entry attempt actor summary rc dialogue) id
       (\<lambda>_. Inr (failed_review attempt ''phase review loop cap reached without an explicit terminal decision''))
       (max_dialogue_turns c + MAX_GATE_LOOPS) PNone decisions = Inr (Waiting e)"
      moreover have "gate_loop (output_turn sv c p entry attempt actor summary rc dialogue) id
       (\<lambda>_. Inr (failed_review attempt ''phase review loop cap reached without an explicit terminal decision''))
       (max_dialogue_turns c + MAX_GATE_LOOPS) PNone decisions \<noteq> Inr (Waiting e)"
        using assms(3)
        by (rule gate_loop_bounded) (auto simp: failed_review_def dest: output_turn_never_waits)
      ultimately show False by contradiction
    qed (simp add: failed_review_def)
  qed
qed

text \<open>The status that finalize checkpoints is terminal.\<close>

lemma terminal_values: "set TERMINAL_VALUES = {''succeeded'', ''failed'', ''skipped'', ''aborted''}"
  by (auto simp: TERMINAL_VALUES_def TERMINAL_PHASE_STATUSES_def)

lemma completed_status_terminal: "completed_status v = Some st \<Longrightarrow> st \<in> set TERMINAL_VALUES"
  by (auto simp: completed_status_def terminal_values split: pyval.splits if_splits)

lemma final_status_terminal: "final_status p entry = Some st \<Longrightarrow> st \<in> set TERMINAL_VALUES"
  by (auto simp: final_status_def collection_override_def Let_def bind_eq_Some_conv
      dest!: completed_status_terminal split: if_splits) (auto simp: terminal_values)

lemma settled_status_ok:
  assumes "settled_status sv p entry errors = Inr (st, errs)"
  shows "st \<in> set TERMINAL_VALUES"
    "st = ''succeeded'' \<Longrightarrow> final_status p entry = Some ''succeeded''
       \<and> (dget entry ''deliverable_json'' = PNone
          \<or> (\<exists>d. gs_disposition sv (dget entry ''deliverable_json'') p = Inr d \<and> d \<noteq> ''blocked''))"
    "final_status p entry \<noteq> Some st \<Longrightarrow> st = ''failed'' \<and> errs \<noteq> []"
proof -
  let ?d = "dget entry ''deliverable_json''"
  have diag: "add_diagnostic m ms \<noteq> []" for m ms
    by (auto simp: add_diagnostic_def take_last_def MAX_DURABLE_PHASE_DIAGNOSTICS_def)
  obtain st0 errs0 where first: "(case final_status p entry of Some st \<Rightarrow> (st, errors)
      | None \<Rightarrow> (status_value FAILED, add_diagnostic transition_error errors)) = (st0, errs0)"
    by (metis surj_pair)
  then have st0: "st0 \<in> set TERMINAL_VALUES" "st0 = ''succeeded'' \<Longrightarrow> final_status p entry = Some st0"
    "final_status p entry \<noteq> Some st0 \<Longrightarrow> st0 = ''failed'' \<and> errs0 \<noteq> []"
    by (auto simp: terminal_values diag dest: final_status_terminal split: option.splits)
  consider "?d = PNone" "st = st0" "errs = errs0"
    | d where "gs_disposition sv ?d p = Inr d" "d \<noteq> ''blocked'' \<or> st0 \<noteq> ''succeeded''" "st = st0" "errs = errs0"
    | d where "st0 = ''succeeded''" "st = ''failed''" "errs \<noteq> []"
    using assms unfolding settled_status_def Let_def first
    by (auto simp: rbind_Inr_iff split: if_splits)
  note cases = this
  show "st \<in> set TERMINAL_VALUES"
    using cases by cases (use st0 in \<open>auto simp: terminal_values\<close>)
  show "final_status p entry = Some ''succeeded''
       \<and> (?d = PNone \<or> (\<exists>d. gs_disposition sv ?d p = Inr d \<and> d \<noteq> ''blocked''))" if "st = ''succeeded''"
    using cases by cases (use st0 that in auto)
  show "st = ''failed'' \<and> errs \<noteq> []" if "final_status p entry \<noteq> Some st"
    using cases by cases (use st0 that in auto)
qed

text \<open>The status that a collection imposes on the entry of an execution, None for other phases.\<close>

definition imposed_status :: "phase \<Rightarrow> pydict \<Rightarrow> pyval" where
  "imposed_status p entry =
     (if p = EXECUTION then dget entry ''engine_collection_final_status'' else PNone)"

text \<open>The status that finalize may give, with the entry statuses that lead to it written out.\<close>

lemma final_status_cases:
  "final_status p entry =
     (let raw = dget entry ''status''; final = imposed_status p entry;
          settled = dget entry ''engine_collection_settled''
      in if raw \<notin> PStr ` {''running'', ''awaiting_output_review'', ''succeeded'', ''failed'', ''skipped'', ''aborted''}
           \<or> p = EXECUTION \<and> settled \<notin> {PNone, PBool True, PBool False}
           \<or> final \<noteq> PNone \<and> (settled \<noteq> PBool True \<or> final \<notin> {PStr ''failed'', PStr ''aborted''})
         then None
         else if final \<noteq> PNone then Some (str_of final)
         else if raw \<in> PStr ` {''running'', ''awaiting_output_review''} then Some ''succeeded''
         else Some (str_of raw))"
proof (cases "dget entry ''status''")
  case (PStr s)
  have "completed_status (PStr s) = (if s \<in> {''running'', ''awaiting_output_review''} then Some ''succeeded''
      else if s \<in> {''succeeded'', ''failed'', ''skipped'', ''aborted''} then Some s else None)"
    by (auto simp: completed_status_def terminal_values COMPLETABLE_VALUES_def)
  then show ?thesis
    unfolding PStr final_status_def
    by (simp add: Let_def collection_override_def imposed_status_def)
qed (simp_all add: final_status_def completed_status_def Let_def image_iff)

lemma settled_status_kept:
  "settled_status sv p entry errors = Inr (st, errs) \<Longrightarrow> dget entry ''deliverable_json'' = PNone \<Longrightarrow>
     final_status p entry = Some s \<Longrightarrow> st = s"
  by (simp add: settled_status_def Let_def)

text \<open>
  C7. Finalize checkpoints a terminal status. Success needs a running, reviewed or succeeded entry,
  no status imposed by the collection of an execution, and no declared blocker; every other status
  is the one of the entry, the one the collection imposes, or a failure with a diagnostic, which is
  also what an entry in any other status becomes. The run is aborted only by a settled execution.
\<close>

theorem finalize_terminal:
  assumes "finalize sv p state config transcript = Inr u" and "entry_of state p = Inr entry"
  shows "\<exists>st errs. entry_field u ''status'' = PStr st \<and> entry_field u ''errors'' = text_list errs
    \<and> st \<in> {''succeeded'', ''failed'', ''skipped'', ''aborted''}
    \<and> (st = ''succeeded'' \<longrightarrow>
         dget entry ''status'' \<in> {PStr ''running'', PStr ''awaiting_output_review'', PStr ''succeeded''}
         \<and> imposed_status p entry = PNone
         \<and> (dget entry ''deliverable_json'' = PNone
            \<or> (\<exists>d. gs_disposition sv (dget entry ''deliverable_json'') p = Inr d \<and> d \<noteq> ''blocked'')))
    \<and> (st \<noteq> ''succeeded'' \<longrightarrow>
         st = ''failed'' \<and> errs \<noteq> [] \<or> dget entry ''status'' = PStr st \<or> imposed_status p entry = PStr st)
    \<and> (dget entry ''status'' \<notin> {PStr ''running'', PStr ''awaiting_output_review'', PStr ''succeeded'',
           PStr ''failed'', PStr ''skipped'', PStr ''aborted''} \<longrightarrow> st = ''failed'' \<and> errs \<noteq> [])
    \<and> (p \<noteq> EXECUTION \<and> dget entry ''deliverable_json'' = PNone
         \<and> dget entry ''status'' \<in> {PStr ''running'', PStr ''awaiting_output_review'', PStr ''succeeded''} \<longrightarrow>
         st = ''succeeded'')
    \<and> (nu_run_aborted u \<longrightarrow> p = EXECUTION \<and> st = ''aborted''
         \<and> dget entry ''engine_collection_settled'' = PBool True)"
proof -
  obtain attempt errors st errs where
    s: "settled_status sv p entry errors = Inr (st, errs)"
    and u: "entry_field u ''status'' = PStr st" "entry_field u ''errors'' = text_list errs"
      "nu_run_aborted u \<longleftrightarrow> collection_settled p entry \<and> st = ''aborted''"
    using assms by (auto simp: finalize_def rbind_Inr_iff Let_def turn_defs entry_field_def)
  note ok = settled_status_ok [OF s] and cases = final_status_cases [of p entry, unfolded Let_def]
  have one: "st \<in> {''succeeded'', ''failed'', ''skipped'', ''aborted''}"
    using ok(1) by (simp add: terminal_values)
  have two: "st = ''succeeded'' \<longrightarrow>
       dget entry ''status'' \<in> {PStr ''running'', PStr ''awaiting_output_review'', PStr ''succeeded''}
       \<and> imposed_status p entry = PNone
       \<and> (dget entry ''deliverable_json'' = PNone
          \<or> (\<exists>d. gs_disposition sv (dget entry ''deliverable_json'') p = Inr d \<and> d \<noteq> ''blocked''))"
  proof
    assume st: "st = ''succeeded''"
    have "dget entry ''status'' \<in> {PStr ''running'', PStr ''awaiting_output_review'', PStr ''succeeded''}
        \<and> imposed_status p entry = PNone"
      using ok(2) [OF st] unfolding cases by (auto split: if_splits)
    with ok(2) [OF st] show "dget entry ''status'' \<in> {PStr ''running'', PStr ''awaiting_output_review'', PStr ''succeeded''}
       \<and> imposed_status p entry = PNone
       \<and> (dget entry ''deliverable_json'' = PNone
          \<or> (\<exists>d. gs_disposition sv (dget entry ''deliverable_json'') p = Inr d \<and> d \<noteq> ''blocked''))"
      by simp
  qed
  have three: "st \<noteq> ''succeeded'' \<longrightarrow>
      st = ''failed'' \<and> errs \<noteq> [] \<or> dget entry ''status'' = PStr st \<or> imposed_status p entry = PStr st"
  proof (cases "final_status p entry = Some st")
    case True
    then show ?thesis unfolding cases by (auto split: if_splits)
  qed (use ok(3) in blast)
  have four: "dget entry ''status'' \<notin> {PStr ''running'', PStr ''awaiting_output_review'', PStr ''succeeded'',
      PStr ''failed'', PStr ''skipped'', PStr ''aborted''} \<longrightarrow> st = ''failed'' \<and> errs \<noteq> []"
    by (intro impI ok(3)) (simp add: cases)
  have five: "p \<noteq> EXECUTION \<and> dget entry ''deliverable_json'' = PNone
      \<and> dget entry ''status'' \<in> {PStr ''running'', PStr ''awaiting_output_review'', PStr ''succeeded''} \<longrightarrow>
      st = ''succeeded''"
    by (intro impI settled_status_kept [OF s]) (auto simp: cases imposed_status_def)
  have six: "nu_run_aborted u \<longrightarrow> p = EXECUTION \<and> st = ''aborted''
      \<and> dget entry ''engine_collection_settled'' = PBool True"
    using u(3) by (auto simp: collection_settled_def)
  show ?thesis
    by (intro exI [of _ st] exI [of _ errs] conjI) (fact u(1) u(2) one two three four five six)+
qed

text \<open>An update of the output gate carries the attempt of the entry it was opened for.\<close>

lemma output_turn_attempt:
  "output_turn sv c p entry attempt actor summary rc dialogue s v = Inr (Leave (Goto t u)) \<Longrightarrow>
     \<exists>e. nu_entry u = Some e \<and> dget e ''attempt'' = PInt attempt"
  by (auto simp: output_turn_def output_revise_def output_discuss_def Let_def rbind_Inr_iff turn_defs
      split: if_splits)

text \<open>
  C8. After a failed agent the output gate cannot do what its message offers: every update with which
  it sends the phase back to the agent or aborts the run carries a status other than failed in
  the same attempt, and the reducer's latch refuses it.
\<close>

theorem failed_phase_cannot_be_revised:
  assumes "output_gate sv p state config decisions = Inr (Goto t u)"
    and "from_state_for_phase sv state config p = Inr c" and "output_review (gate_policy_of c p) = GATED"
    and "entry_of state p = Inr entry" and "dget entry ''status'' = PStr ''failed''"
    and "dget entry ''attempt'' = PInt a"
    and "t = ''agent'' \<or> nu_run_aborted u"
  shows "\<exists>e. nu_entry u = Some e
    \<and> entry_latch entry e = bad ''checkpointed terminal phase status is immutable''"
proof (rule output_gate_loop [OF assms(1-4)])
  fix attempt
  assume "Goto t u = failed_review attempt ''phase review requires visible result evidence''"
  with assms(7) show ?thesis by (auto simp: failed_review_def turn_defs)
next
  fix attempt actor summary rc dialogue
  assume att: "attempt_of entry = Inr attempt" and rc: "revise_count_of entry = Inr rc"
    and loop: "gate_loop (output_turn sv c p entry attempt actor summary rc dialogue) id
       (\<lambda>_. Inr (failed_review attempt ''phase review loop cap reached without an explicit terminal decision''))
       (max_dialogue_turns c + MAX_GATE_LOOPS) PNone decisions = Inr (Goto t u)"
  have a: "attempt = a" "optional_attempt (PInt a)"
    using att assms(6) by (auto simp: attempt_of_def optional_attempt_def bad_def split: if_splits)
  from gate_loop_ends [of "\<lambda>_. True", OF _ loop]
  consider s v where "output_turn sv c p entry attempt actor summary rc dialogue s v = Inr (Leave (Goto t u))"
    | "failed_review attempt ''phase review loop cap reached without an explicit terminal decision'' = Goto t u"
    by blast
  then show ?thesis
  proof cases
    case 1
    obtain e where e: "nu_entry u = Some e" "dget e ''attempt'' = PInt attempt"
      using output_turn_attempt [OF 1] by blast
    have "dget e ''status'' \<in> {PStr ''running'', PStr ''aborted''}"
      using output_turn_leaves [OF 1 rc] assms(7) e(1)
      by (auto simp: output_exit_def entry_field_def split: if_splits)
    then obtain st where "map_of e ''status'' = Some (PStr st)" "st \<noteq> ''failed''"
      by (cases "map_of e ''status''") (auto simp: dget_def)
    then have "entry_latch entry e = bad ''checkpointed terminal phase status is immutable''"
      using a e assms(5,6)
      by (simp add: entry_latch_def Let_def incoming_status_of_def terminal_values)
    with e show ?thesis by blast
  next
    case 2
    with assms(7) show ?thesis by (auto simp: failed_review_def turn_defs)
  qed
qed

subsection \<open>Concrete runs\<close>

definition sample_gate_limits :: gate_limits where
  "sample_gate_limits = \<lparr>max_gate_payload_chars = 100, max_gate_payload_nodes = 16,
     max_gate_string_chars = 50, max_prompt_part_chars = 50, max_model_input_chars = 100\<rparr>"

definition sample_gates :: gate_services where
  "sample_gates = \<lparr>gs_cred = (\<lambda>_ _ _ _. False), gs_limits = sample_gate_limits, gs_now = ''now'',
     gs_edit_ok = (\<lambda>_. True), gs_attr = (\<lambda>_. PNone), gs_from_state = (\<lambda>_ _. Inr sample_config),
     gs_review_metadata = (\<lambda>_. Inr []), gs_edited_metadata = (\<lambda>_ _ _ _. Inr []),
     gs_compose_contexts = (\<lambda>_. []), gs_resolved_from_review = Inr,
     gs_manifest_review = (\<lambda>_ _ _ _. Inr ()), gs_resolve_prompt = (\<lambda>_ _ _. Inr []),
     gs_review_from_resolved = id, gs_context_packets = Inr, gs_disposition = (\<lambda>_ _. Inr ''complete''),
     gs_bounded_diagnostic = (\<lambda>s n. take n s), gs_aware_timestamp = (\<lambda>_. True),
     gs_sections = (\<lambda>_. []), gs_completion = (\<lambda>_ _ _ _. Inr []), gs_duration = (\<lambda>_ _. PNone)\<rparr>"

text \<open>A planning phase whose agent ended with the given status.\<close>

definition ended_entry :: "string \<Rightarrow> pydict" where
  "ended_entry st = [(''attempt'', PInt 1), (''status'', PStr st), (''summary'', PStr ''done'')]"

definition ended_state :: "string \<Rightarrow> pydict" where
  "ended_state st =
     [(''phase_results'', PDict [(''test_planning'', PDict (ended_entry st))]),
      (''prompt_reviews'', PDict [(''test_planning'',
         PDict [(''system'', PStr ''s''), (''phase_prompt'', PStr ''u''),
                (''source'', PDict [(''origin'', PStr ''catalog'')])])])]"

lemma sample_gate_config:
  "from_state_for_phase sample_gates (ended_state st) PNone TEST_PLANNING = Inr sample_config"
  "prompt_review (gate_policy_of sample_config TEST_PLANNING) = GATED"
  "output_review (gate_policy_of sample_config TEST_PLANNING) = GATED"
  "entry_of (ended_state st) TEST_PLANNING = Inr (ended_entry st)"
  "max_dialogue_turns sample_config = 20" "max_revise_loops sample_config = 3"
  "phase_execution sample_config = None" "app_id sample_config = None"
  by (simp_all add: from_state_for_phase_def ended_state_def sample_gates_def entry_of_def
      gate_policy_of_def sample_config_def GatePolicy_def)

lemma sample_action:
  "parse_gate_decision sample_gate_limits (\<lambda>_ _ _ _. False) (\<lambda>_. True) (PStr a) allowed = [(''action'', PStr a)]"
  if "a \<in> set allowed" "length a \<le> 50" "nul_free a"
  using that
  by (simp add: parse_gate_decision_def validate_gate_payload_def gate_walk.simps(2) structured_contexts_def
      sample_gate_limits_def is_prompt_part_def scan_def parse_decision_fields_def DECISION_FIELDS_def
      TEXT_FIELDS_def opt_text_def prompt_edit_error_def)

lemma sample_output_turn:
  assumes "a \<in> set PHASE_REVIEW_ACTIONS"
  shows "parse_gate_decision (gs_limits sample_gates) (gs_cred sample_gates) (gs_edit_ok sample_gates)
      (PStr a) PHASE_REVIEW_ACTIONS = [(''action'', PStr a)]"
  using assms sample_action [of a PHASE_REVIEW_ACTIONS]
  by (auto simp: sample_gates_def PHASE_REVIEW_ACTIONS_def nul_free_def)

lemma sample_approval:
  "make_approval (gs_cred sample_gates) (gs_now sample_gates) actor TEST_PLANNING 1 gate action note n
     = Inr [(''id'', PStr (approval_id TEST_PLANNING 1 gate action n)), (''gate'', PStr gate),
            (''action'', PStr action), (''actor'', PStr actor), (''at'', PStr ''now''), (''note'', note)]"
  if "length gate \<le> 20" "length action \<le> 10" "n \<le> 1" "note = PNone \<or> note = PStr []"
  using that
  by (cases "n = 0") (auto simp: make_approval_def approval_id_def sample_gates_def scan_def int_text_def
      nat_text.simps digit_char_def nul_free_def MAX_GATE_DECISION_TEXT_CHARS_def)

definition sample_turn :: "string \<Rightarrow> pyval \<Rightarrow> pyval \<Rightarrow> pyval turn res" where
  "sample_turn st = output_turn sample_gates sample_config TEST_PLANNING (ended_entry st) 1 ''unknown''
     (Some ''done'') 0 []"

lemma sample_output_loop:
  "output_gate sample_gates TEST_PLANNING (ended_state st) PNone ds =
     gate_loop (sample_turn st) id
       (\<lambda>_. Inr (failed_review 1 ''phase review loop cap reached without an explicit terminal decision''))
       (20 + MAX_GATE_LOOPS) PNone ds"
proof -
  have [simp]: "actor_of sample_gates PNone = ''unknown''"
    by (simp add: actor_of_def resolve_actor_def)
  have "has_visible_evidence (Some ''done'') None [] [] []"
    by (simp add: has_visible_evidence_def meaningful_def opt_str_def blank_def strip_def is_space_def)
  moreover have "gs_cred sample_gates = (\<lambda>_ _ _ _. False)" by (simp add: sample_gates_def)
  ultimately show ?thesis
    unfolding sample_turn_def
    by (simp add: output_gate_def sample_gate_config)
      (simp add: sample_gate_config ended_entry_def ended_state_def attempt_of_def revise_count_of_def checkpoint_review_text_def
        checkpoint_diagnostics_def checkpoint_artifact_previews_def checkpoint_phase_dialogue_def
        MAX_GATE_TEXT_CHARS_def nul_free_def scan_def)
qed

lemma sample_decisions:
  "parse_gate_decision (gs_limits sample_gates) (gs_cred sample_gates) (gs_edit_ok sample_gates)
      (PStr ''approve'') PHASE_REVIEW_ACTIONS = [(''action'', PStr ''approve'')]"
  "parse_gate_decision (gs_limits sample_gates) (gs_cred sample_gates) (gs_edit_ok sample_gates)
      (PStr ''revise'') PHASE_REVIEW_ACTIONS = [(''action'', PStr ''revise'')]"
  by (rule sample_output_turn; simp add: PHASE_REVIEW_ACTIONS_def)+

lemma sample_output_steps:
  "sample_turn ''running'' s (PStr ''approve'') = Inr (Leave (Goto ''finalize'' (phase_update 1
     [approvals_of [(''id'', PStr (approval_id TEST_PLANNING 1 ''phase_review'' ''approve'' 0)),
        (''gate'', PStr ''phase_review''), (''action'', PStr ''approve''), (''actor'', PStr ''unknown''),
        (''at'', PStr ''now''), (''note'', PNone)]])))"
  "\<exists>u. sample_turn ''failed'' s (PStr ''revise'') = Inr (Leave (Goto ''agent'' u))"
  by (simp_all add: sample_turn_def output_turn_def sample_decisions Let_def
      deliverable_blocked_def ended_entry_def sample_approval sample_gate_config output_revise_def or_empty_def)

lemma gate_loop_first:
  "0 < n \<Longrightarrow> body s d = Inr (Leave out) \<Longrightarrow> gate_loop body shown capped n s (d # ds) = Inr out"
  by (cases n) auto

lemma sample_output_run:
  "sample_turn st PNone d = Inr (Leave out) \<Longrightarrow>
     output_gate sample_gates TEST_PLANNING (ended_state st) PNone [d] = Inr out"
  unfolding sample_output_loop by (rule gate_loop_first) (simp_all add: MAX_GATE_LOOPS_def)

theorem output_gate_decided_witness:
  "\<exists>u. output_gate sample_gates TEST_PLANNING (ended_state ''running'') PNone [PStr ''approve'']
       = Inr (Goto ''finalize'' u)
     \<and> ((\<exists>v \<in> set [PStr ''approve'']. output_exit sample_gates sample_config TEST_PLANNING
            (ended_entry ''running'') (discussed_turns (ended_state ''running'') TEST_PLANNING 1)
            (output_action sample_gates v) ''finalize'' u)
        \<or> entry_field u ''status'' = PStr ''failed'')"
proof -
  have "\<exists>u. output_gate sample_gates TEST_PLANNING (ended_state ''running'') PNone [PStr ''approve'']
      = Inr (Goto ''finalize'' u)"
    using sample_output_run [OF sample_output_steps(1)] by blast
  then obtain u where u: "output_gate sample_gates TEST_PLANNING (ended_state ''running'') PNone
      [PStr ''approve''] = Inr (Goto ''finalize'' u)" ..
  have "attempt_of (ended_entry ''running'') = Inr 1"
    by (simp add: attempt_of_def ended_entry_def)
  from output_gate_decided [OF u sample_gate_config(1,3,4) this] u show ?thesis by blast
qed

theorem failed_phase_cannot_be_revised_witness:
  "\<exists>u e. output_gate sample_gates TEST_PLANNING (ended_state ''failed'') PNone [PStr ''revise'']
       = Inr (Goto ''agent'' u)
     \<and> nu_entry u = Some e
     \<and> entry_latch (ended_entry ''failed'') e = bad ''checkpointed terminal phase status is immutable''"
proof -
  have "\<exists>u. output_gate sample_gates TEST_PLANNING (ended_state ''failed'') PNone [PStr ''revise'']
      = Inr (Goto ''agent'' u)"
    using sample_output_steps(2) [of PNone] by (auto dest: sample_output_run)
  then obtain u where u: "output_gate sample_gates TEST_PLANNING (ended_state ''failed'') PNone
      [PStr ''revise''] = Inr (Goto ''agent'' u)" ..
  from failed_phase_cannot_be_revised [OF u sample_gate_config(1,3,4), of 1] u show ?thesis
    by (auto simp: ended_entry_def)
qed

theorem gates_stop_waiting_witness:
  "output_gate sample_gates TEST_PLANNING (ended_state ''running'') PNone (replicate 30 PNone)
     \<noteq> Inr (Waiting PNone)"
  using gates_stop_waiting [OF sample_gate_config(1,4), of "replicate 30 PNone"]
  by (simp add: sample_gate_config MAX_GATE_LOOPS_def)

theorem finalize_terminal_witness:
  "\<exists>u st. finalize sample_gates TEST_PLANNING (ended_state ''running'') PNone None = Inr u
     \<and> entry_field u ''status'' = PStr st \<and> st = ''succeeded''"
proof -
  have "\<exists>u. finalize sample_gates TEST_PLANNING (ended_state ''running'') PNone None = Inr u"
    by (simp add: finalize_def sample_gate_config Let_def)
      (simp add: ended_entry_def attempt_of_def checkpoint_diagnostics_def settled_status_def
        final_status_def completed_status_def collection_override_def terminal_values COMPLETABLE_VALUES_def
        sample_gates_def)
  then obtain u where u: "finalize sample_gates TEST_PLANNING (ended_state ''running'') PNone None = Inr u" ..
  have "dget (ended_entry ''running'') ''deliverable_json'' = PNone"
    "dget (ended_entry ''running'') ''status'' = PStr ''running''" "TEST_PLANNING \<noteq> EXECUTION"
    by (simp_all add: ended_entry_def)
  with finalize_terminal [OF u sample_gate_config(4)] u show ?thesis by force
qed

lemma sample_prompt_step:
  "prompt_turn sample_gates sample_config TEST_PLANNING 1 actor app s (PStr ''skip_phase'') =
     Inr (Leave (Goto ''finalize'' (phase_update 1 [status_is SKIPPED,
       approvals_of [(''id'', PStr (approval_id TEST_PLANNING 1 ''prompt_review'' ''skip_phase'' 0)),
        (''gate'', PStr ''prompt_review''), (''action'', PStr ''skip_phase''), (''actor'', PStr actor),
        (''at'', PStr ''now''), (''note'', PNone)]])))"
proof -
  have "parse_gate_decision (gs_limits sample_gates) (gs_cred sample_gates) (gs_edit_ok sample_gates)
      (PStr ''skip_phase'') PROMPT_REVIEW_ACTIONS = [(''action'', PStr ''skip_phase'')]"
    using sample_action [of "''skip_phase''" PROMPT_REVIEW_ACTIONS]
    by (simp add: sample_gates_def PROMPT_REVIEW_ACTIONS_def nul_free_def)
  then show ?thesis
    by (simp add: prompt_turn_def prompt_actions_def sample_gate_config Let_def sample_approval)
qed

lemma sample_review:
  "\<exists>r. review_source_for_phase sample_gates (ended_state st) TEST_PLANNING sample_config = Inr (r, r)
     \<and> (\<exists>src. dget r ''source'' = PDict src)"
  by (simp add: review_source_for_phase_def Let_def prompt_variables_def prompt_text_def
      apply_application_override_def state_application_override_def sample_gate_config ended_state_def)
    (simp add: sample_gates_def sample_gate_limits_def validated_prompt_review_def Let_def REVIEW_FIELDS_def
      text_within_def dget_or_def nul_free_def source_ok_def)

theorem prompt_gate_consent_witness:
  "\<exists>u. prompt_gate sample_gates TEST_PLANNING (ended_state ''running'') PNone [PStr ''skip_phase'']
       = Inr (Goto ''finalize'' u)
     \<and> (entry_field u ''status'' = PStr (status_value SKIPPED)
        \<or> entry_field u ''status'' = PStr (status_value ABORTED)
        \<or> entry_field u ''status'' = PStr (status_value FAILED))"
proof -
  obtain r src where r: "review_source_for_phase sample_gates (ended_state ''running'') TEST_PLANNING
      sample_config = Inr (r, r)" "dget r ''source'' = PDict src"
    using sample_review by blast
  have "attempt_of (ended_entry ''running'') = Inr 1"
    by (simp add: attempt_of_def ended_entry_def)
  moreover have "\<not> gs_cred sample_gates a b c v" "gs_context_packets sample_gates v = Inr v" for a b c v
    by (simp_all add: sample_gates_def)
  ultimately have "\<exists>u. prompt_gate sample_gates TEST_PLANNING (ended_state ''running'') PNone
      [PStr ''skip_phase''] = Inr (Goto ''finalize'' u)"
    using r by (simp add: prompt_gate_def sample_gate_config)
      (rule exI, rule gate_loop_first, simp add: MAX_GATE_LOOPS_def, rule sample_prompt_step)
  then obtain u where u: "prompt_gate sample_gates TEST_PLANNING (ended_state ''running'') PNone
      [PStr ''skip_phase''] = Inr (Goto ''finalize'' u)" ..
  from prompt_gate_consent [OF u sample_gate_config(1,2)] u show ?thesis by blast
qed

end
