(* ===== verification/Json_Parse.thy ===== *)
theory Json_Parse
  imports Py_Value
begin

text \<open>
  \<open>json.loads\<close> of the standard library, as the deliverable checks use it: the scanner of
  CPython 3.12, strict strings, \<open>NaN\<close> and \<open>Infinity\<close>, the limit of 4300 digits on an
  integer, an object hook that either keeps the last value of a repeated key or refuses it.
  Every failure (\<open>ValueError\<close> or \<open>RecursionError\<close>) is \<open>None\<close>; \<open>depth\<close> is the
  nesting that the interpreter's recursion limit admits. A \<open>\u\<close> escape above 255, which a
  Latin-1 string cannot hold, is read as one question mark.

  Also here: rounding to binary64, the compensated \<open>sum\<close> of floats and \<open>math.isclose\<close>.
\<close>

subsection \<open>Binary64 arithmetic\<close>

definition fl :: "rat \<Rightarrow> pyfloat" where
  "fl x =
     (if x = 0 then FFin 0
      else let (m, k) = exp2 2200 \<bar>x\<bar> 0; v = of_int (round_half_even m) * scale2 k
           in if 2 ^ 1024 \<le> v then FInf (x < 0) else FFin (if x < 0 then - v else v))"

fun rat_of :: "pyfloat \<Rightarrow> rat" where
  "rat_of (FFin x) = x"
| "rat_of _ = 0"

definition fadd :: "rat \<Rightarrow> rat \<Rightarrow> rat" where
  "fadd x y = rat_of (fl (x + y))"

definition fsub :: "rat \<Rightarrow> rat \<Rightarrow> rat" where
  "fsub x y = rat_of (fl (x - y))"

definition fmul :: "rat \<Rightarrow> rat \<Rightarrow> rat" where
  "fmul x y = rat_of (fl (x * y))"

text \<open>
  \<open>sum\<close> of bounded finite floats: Neumaier's compensated summation, as CPython has it since
  3.12; the pair is the running total and its compensation.
\<close>

fun sum_step :: "rat \<times> rat \<Rightarrow> rat \<Rightarrow> rat \<times> rat" where
  "sum_step (hi, lo) x =
     (let t = fadd hi x
      in (t, fadd lo (if \<bar>x\<bar> \<le> \<bar>hi\<bar> then fadd (fsub hi t) x else fadd (fsub x t) hi)))"

definition float_sum :: "rat list \<Rightarrow> rat" where
  "float_sum xs = (let (hi, lo) = foldl sum_step (0, 0) xs in fadd hi lo)"

text \<open>\<open>math.isclose(a, b, abs_tol=t)\<close> with the default relative tolerance.\<close>

definition is_close :: "rat \<Rightarrow> rat \<Rightarrow> rat \<Rightarrow> bool" where
  "is_close a b t =
     (let d = \<bar>fsub b a\<bar>; rel = rat_of (fl (1 / 1000000000))
      in a = b \<or> d \<le> \<bar>fmul rel b\<bar> \<or> d \<le> \<bar>fmul rel a\<bar> \<or> d \<le> t)"

subsection \<open>Scanner\<close>

definition json_ws :: "char \<Rightarrow> bool" where
  "json_ws c = (of_char c \<in> {9, 10, 13, 32 :: nat})"

definition skip_ws :: "string \<Rightarrow> string" where
  "skip_ws s = dropWhile json_ws s"

definition is_digit :: "char \<Rightarrow> bool" where
  "is_digit c = (48 \<le> (of_char c :: nat) \<and> of_char c \<le> (57 :: nat))"

definition digit_value :: "char \<Rightarrow> nat" where
  "digit_value c = of_char c - 48"

definition nat_of :: "string \<Rightarrow> nat" where
  "nat_of s = foldl (\<lambda>n c. 10 * n + digit_value c) 0 s"

definition hex_value :: "char \<Rightarrow> nat option" where
  "hex_value c =
     (let n = of_char c :: nat
      in if 48 \<le> n \<and> n \<le> 57 then Some (n - 48)
         else if 97 \<le> n \<and> n \<le> 102 then Some (n - 87)
         else if 65 \<le> n \<and> n \<le> 70 then Some (n - 55) else None)"

definition hex4_value :: "char \<Rightarrow> char \<Rightarrow> char \<Rightarrow> char \<Rightarrow> nat option" where
  "hex4_value a b c d =
     (case (hex_value a, hex_value b, hex_value c, hex_value d) of
        (Some p, Some q, Some r, Some s) \<Rightarrow> Some (p * 4096 + q * 256 + r * 16 + s)
      | _ \<Rightarrow> None)"

definition code_point :: "nat \<Rightarrow> char" where
  "code_point n = (if n < 256 then char_of n else CHR ''?'')"

definition simple_escape :: "char \<Rightarrow> char option" where
  "simple_escape c =
     (let n = of_char c :: nat
      in if n = 34 \<or> n = 92 \<or> n = 47 then Some c
         else if c = CHR ''b'' then Some (char_of (8 :: nat))
         else if c = CHR ''f'' then Some (char_of (12 :: nat))
         else if c = CHR ''n'' then Some (char_of (10 :: nat))
         else if c = CHR ''r'' then Some (char_of (13 :: nat))
         else if c = CHR ''t'' then Some (char_of (9 :: nat)) else None)"

text \<open>The low half of a surrogate pair right after its high half belongs to the same character.\<close>

definition drop_low_surrogate :: "nat \<Rightarrow> string \<Rightarrow> string" where
  "drop_low_surrogate n s =
     (case s of
        bs # u # a # b # c # d # r \<Rightarrow>
          (case hex4_value a b c d of
             Some l \<Rightarrow>
               if 55296 \<le> n \<and> n \<le> 56319 \<and> of_char bs = (92 :: nat) \<and> u = CHR ''u''
                  \<and> 56320 \<le> l \<and> l \<le> 57343 then r else s
           | None \<Rightarrow> s)
      | _ \<Rightarrow> s)"

lemma length_drop_low_surrogate [termination_simp]: "length (drop_low_surrogate n s) \<le> length s"
  by (auto simp: drop_low_surrogate_def split: list.splits option.splits)

definition cons_fst :: "char \<Rightarrow> (string \<times> string) option \<Rightarrow> (string \<times> string) option" where
  "cons_fst c r = map_option (\<lambda>(t, u). (c # t, u)) r"

function json_string :: "string \<Rightarrow> (string \<times> string) option" where
  "json_string s =
     (case s of
        [] \<Rightarrow> None
      | c # r \<Rightarrow>
          if of_char c = (34 :: nat) then Some ([], r)
          else if of_char c \<noteq> (92 :: nat)
          then (if of_char c < (32 :: nat) then None else cons_fst c (json_string r))
          else case r of
                 [] \<Rightarrow> None
               | e # r1 \<Rightarrow>
                   if e \<noteq> CHR ''u''
                   then (case simple_escape e of
                           None \<Rightarrow> None
                         | Some c' \<Rightarrow> cons_fst c' (json_string r1))
                   else case r1 of
                          a # b # d # f # r2 \<Rightarrow>
                            (case hex4_value a b d f of
                               None \<Rightarrow> None
                             | Some n \<Rightarrow>
                                 cons_fst (code_point n) (json_string (drop_low_surrogate n r2)))
                        | _ \<Rightarrow> None)"
  by pat_completeness auto
termination
  by (relation "measure length")
     (auto simp: less_Suc_eq_le intro: order_trans [OF length_drop_low_surrogate])

declare json_string.simps [simp del]

text \<open>The sign, the whole part, the fraction and the exponent of a number.\<close>

definition json_frac :: "string \<Rightarrow> string \<times> string" where
  "json_frac s =
     (case s of
        CHR ''.'' # r \<Rightarrow>
          (let ds = takeWhile is_digit r
           in if ds = [] then ([], s) else (ds, dropWhile is_digit r))
      | _ \<Rightarrow> ([], s))"

definition json_exp :: "string \<Rightarrow> int option \<times> string" where
  "json_exp s =
     (case s of
        [] \<Rightarrow> (None, s)
      | e # r \<Rightarrow>
          if e = CHR ''e'' \<or> e = CHR ''E''
          then let neg = (r \<noteq> [] \<and> hd r = CHR ''-'');
                   r1 = (if r \<noteq> [] \<and> (hd r = CHR ''-'' \<or> hd r = CHR ''+'') then tl r else r);
                   ds = takeWhile is_digit r1
               in if ds = [] then (None, s)
                  else (Some (if neg then - int (nat_of ds) else int (nat_of ds)),
                        dropWhile is_digit r1)
          else (None, s))"

definition json_number :: "string \<Rightarrow> (pyval \<times> string) option" where
  "json_number s =
     (let neg = (s \<noteq> [] \<and> hd s = CHR ''-'');
          r = (if neg then tl s else s);
          ds = takeWhile is_digit r;
          whole = (if ds \<noteq> [] \<and> hd ds = CHR ''0'' then take 1 ds else ds);
          (frac, r2) = json_frac (drop (length whole) r);
          (expo, r3) = json_exp r2
      in if whole = [] then None
         else if frac = [] \<and> expo = None
         then (if 4300 < length whole then None
               else Some (PInt (if neg then - int (nat_of whole) else int (nat_of whole)), r3))
         else let x = of_nat (nat_of (whole @ frac))
                        * scale10 ((case expo of None \<Rightarrow> 0 | Some e \<Rightarrow> e) - int (length frac))
              in Some (PFloat (fl (if neg then - x else x)), r3))"

definition json_literal :: "string \<Rightarrow> (pyval \<times> string) option" where
  "json_literal s =
     (if prefix ''null'' s then Some (PNone, drop 4 s)
      else if prefix ''true'' s then Some (PBool True, drop 4 s)
      else if prefix ''false'' s then Some (PBool False, drop 5 s)
      else if prefix ''NaN'' s then Some (PFloat FNan, drop 3 s)
      else if prefix ''Infinity'' s then Some (PFloat (FInf False), drop 8 s)
      else if prefix ''-Infinity'' s then Some (PFloat (FInf True), drop 9 s)
      else json_number s)"

text \<open>The object hook: \<open>dict\<close> itself, or one that refuses a repeated key.\<close>

definition json_object :: "bool \<Rightarrow> (string \<times> pyval) list \<Rightarrow> pyval option" where
  "json_object unique ps =
     (if unique \<and> \<not> distinct (map fst ps) then None else Some (PDict (dmerge [] ps)))"

text \<open>
  One unit of fuel per value, element and member: each of them reads a character, so the length
  of the text is enough.
\<close>

fun json_value :: "bool \<Rightarrow> nat \<Rightarrow> nat \<Rightarrow> string \<Rightarrow> (pyval \<times> string) option"
and json_elems :: "bool \<Rightarrow> nat \<Rightarrow> nat \<Rightarrow> string \<Rightarrow> (pyval list \<times> string) option"
and json_members ::
  "bool \<Rightarrow> nat \<Rightarrow> nat \<Rightarrow> string \<Rightarrow> ((string \<times> pyval) list \<times> string) option"
where
  "json_value q d 0 s = None"
| "json_value q d (Suc n) s =
     (case s of
        [] \<Rightarrow> None
      | c # r \<Rightarrow>
          if of_char c = (34 :: nat) then map_option (\<lambda>(t, u). (PStr t, u)) (json_string r)
          else if c = CHR ''['' then
            (let r1 = skip_ws r
             in if d = 0 then None
                else if r1 \<noteq> [] \<and> hd r1 = CHR '']'' then Some (PList [], tl r1)
                else map_option (\<lambda>(vs, u). (PList vs, u)) (json_elems q (d - 1) n r1))
          else if c = CHR ''{'' then
            (let r1 = skip_ws r
             in if d = 0 then None
                else if r1 \<noteq> [] \<and> hd r1 = CHR ''}''
                then map_option (\<lambda>v. (v, tl r1)) (json_object q [])
                else case json_members q (d - 1) n r1 of
                       None \<Rightarrow> None
                     | Some (ps, u) \<Rightarrow> map_option (\<lambda>v. (v, u)) (json_object q ps))
          else json_literal s)"
| "json_elems q d 0 s = None"
| "json_elems q d (Suc n) s =
     (case json_value q d n s of
        None \<Rightarrow> None
      | Some (v, u) \<Rightarrow>
          (case skip_ws u of
             CHR '']'' # r \<Rightarrow> Some ([v], r)
           | CHR '','' # r \<Rightarrow>
               map_option (\<lambda>(vs, w). (v # vs, w)) (json_elems q d n (skip_ws r))
           | _ \<Rightarrow> None))"
| "json_members q d 0 s = None"
| "json_members q d (Suc n) s =
     (case s of
        [] \<Rightarrow> None
      | c # r \<Rightarrow>
          if of_char c \<noteq> (34 :: nat) then None
          else case json_string r of
                 None \<Rightarrow> None
               | Some (k, u) \<Rightarrow>
                   (case skip_ws u of
                      CHR '':'' # u1 \<Rightarrow>
                        (case json_value q d n (skip_ws u1) of
                           None \<Rightarrow> None
                         | Some (v, u2) \<Rightarrow>
                             (case skip_ws u2 of
                                CHR ''}'' # u3 \<Rightarrow> Some ([(k, v)], u3)
                              | CHR '','' # u3 \<Rightarrow>
                                  map_option (\<lambda>(ps, w). ((k, v) # ps, w))
                                    (json_members q d n (skip_ws u3))
                              | _ \<Rightarrow> None))
                    | _ \<Rightarrow> None))"

definition json_loads :: "bool \<Rightarrow> nat \<Rightarrow> string \<Rightarrow> pyval option" where
  "json_loads unique depth s =
     (case json_value unique depth (2 * Suc (length s)) (skip_ws s) of
        Some (v, r) \<Rightarrow> if skip_ws r = [] then Some v else None
      | None \<Rightarrow> None)"

end
