(* ===== verification/Deliverables.thy ===== *)
theory Deliverables
  imports Json_Parse Phases
begin

text \<open>
  Deliverables of an engineering phase. The first part is the contract of a model's answer
  (src/apex/domain/agent_deliverables.py): a bounded JSON document with the required sections
  of its phase. The second part is the document fields of a test cycle and the issues that keep
  a document from review (src/apex/domain/deliverables.py). Of a label, characters outside
  Latin-1 are written in ASCII.
\<close>

subsection \<open>Model deliverables\<close>

fun PHASE_SECTIONS :: "phase \<Rightarrow> string list" where
  "PHASE_SECTIONS STORY_ANALYSIS = [''scope'', ''scenarios'', ''coverage'', ''data_requirements'']"
| "PHASE_SECTIONS TEST_PLANNING =
     [''objectives'', ''coverage'', ''workload_model'', ''thresholds'', ''environment'',
      ''test_data'', ''observability'', ''entry_exit_criteria'', ''risks'']"
| "PHASE_SECTIONS ENV_TRIAGE =
     [''expected'', ''observed'', ''comparison'', ''readiness'', ''remediation'']"
| "PHASE_SECTIONS SCRIPT_SCENARIO =
     [''platform'', ''source'', ''dependencies'', ''correlation'', ''coverage'', ''validation'',
      ''execution_handoff'']"
| "PHASE_SECTIONS EXECUTION = [''execution_contract'', ''evidence'', ''outcome'']"
| "PHASE_SECTIONS REPORTING =
     [''executive_summary'', ''transaction_results'', ''baseline_comparison'', ''findings'',
      ''limitations'', ''recommendation'', ''defect_drafts'']"
| "PHASE_SECTIONS POSTMORTEM =
     [''timeline'', ''causal_analysis'', ''decisions'', ''lessons'', ''actions'']"

definition MAX_DELIVERABLE_CHARS :: nat where
  "MAX_DELIVERABLE_CHARS = 20000"

record workload_share =
  scenario_id :: string
  percent :: rat

record agent_deliverable =
  ad_phase :: string
  ad_disposition :: string
  ad_summary :: string
  ad_sections :: "(string \<times> string) list"
  ad_evidence :: "string list"
  ad_assumptions :: "string list"
  ad_gaps :: "string list"
  ad_blockers :: "string list"
  ad_workload :: "workload_share list"

text \<open>Field types of the schema; \<open>None\<close> is a \<open>ValidationError\<close>.\<close>

definition bounded_text :: "nat \<Rightarrow> nat \<Rightarrow> pyval \<Rightarrow> string option" where
  "bounded_text lo hi v =
     (case v of PStr s \<Rightarrow> if lo \<le> length s \<and> length s \<le> hi then Some s else None | _ \<Rightarrow> None)"

text \<open>\<open>Text\<close>.\<close>

definition deliverable_text :: "pyval \<Rightarrow> string option" where
  "deliverable_text v = bounded_text 1 12000 v"

fun opt_map :: "('a \<Rightarrow> 'b option) \<Rightarrow> 'a list \<Rightarrow> 'b list option" where
  "opt_map f [] = Some []"
| "opt_map f (x # xs) =
     (case f x of
        None \<Rightarrow> None
      | Some y \<Rightarrow> (case opt_map f xs of None \<Rightarrow> None | Some ys \<Rightarrow> Some (y # ys)))"

definition bounded_list :: "(pyval \<Rightarrow> 'a option) \<Rightarrow> nat \<Rightarrow> pyval \<Rightarrow> 'a list option" where
  "bounded_list f m v =
     (case v of PList xs \<Rightarrow> if length xs \<le> m then opt_map f xs else None | _ \<Rightarrow> None)"

text \<open>A strict float takes an int, but no bool and no string.\<close>

definition percent_value :: "pyval \<Rightarrow> rat option" where
  "percent_value v =
     (case v of
        PInt i \<Rightarrow> if 0 \<le> i \<and> i \<le> 100 then Some (of_int i) else None
      | PFloat (FFin x) \<Rightarrow> if 0 \<le> x \<and> x \<le> 100 then Some x else None
      | _ \<Rightarrow> None)"

definition share_of :: "pyval \<Rightarrow> workload_share option" where
  "share_of v =
     (case v of
        PDict d \<Rightarrow>
          if fst ` set d = {''scenario_id'', ''percent''}
          then (case (bounded_text 1 128 (dget d ''scenario_id''),
                      percent_value (dget d ''percent'')) of
                  (Some s, Some x) \<Rightarrow> Some \<lparr>scenario_id = s, percent = x\<rparr>
                | _ \<Rightarrow> None)
          else None
      | _ \<Rightarrow> None)"

definition sections_of :: "pyval \<Rightarrow> (string \<times> string) list option" where
  "sections_of v =
     (case v of
        PDict d \<Rightarrow> opt_map (\<lambda>(k, t). map_option (\<lambda>s. (k, s)) (deliverable_text t)) d
      | _ \<Rightarrow> None)"

definition DELIVERABLE_KEYS :: "string list" where
  "DELIVERABLE_KEYS = [''schema_version'', ''phase'', ''disposition'', ''summary'', ''sections'',
     ''evidence'', ''assumptions'', ''gaps'', ''blockers'', ''workload'']"

text \<open>\<open>AgentDeliverable.model_validate(data)\<close>, the exact integer 1 as schema version included.\<close>

definition validate_deliverable :: "pyval \<Rightarrow> agent_deliverable option" where
  "validate_deliverable data =
     (case data of
        PDict d \<Rightarrow>
          if fst ` set d \<noteq> set DELIVERABLE_KEYS \<or> dget d ''schema_version'' \<noteq> PInt 1
             \<or> \<not> is_str (dget d ''phase'')
             \<or> dget d ''disposition'' \<notin> {PStr ''complete'', PStr ''blocked''} then None
          else
            Option.bind (bounded_text 1 2000 (dget d ''summary'')) (\<lambda>su.
            Option.bind (sections_of (dget d ''sections'')) (\<lambda>se.
            Option.bind (bounded_list deliverable_text 64 (dget d ''evidence'')) (\<lambda>ev.
            Option.bind (bounded_list deliverable_text 32 (dget d ''assumptions'')) (\<lambda>as.
            Option.bind (bounded_list deliverable_text 32 (dget d ''gaps'')) (\<lambda>ga.
            Option.bind (bounded_list deliverable_text 32 (dget d ''blockers'')) (\<lambda>bl.
            Option.bind (bounded_list share_of 100 (dget d ''workload'')) (\<lambda>wl.
            Some \<lparr>ad_phase = str_of (dget d ''phase''),
                  ad_disposition = str_of (dget d ''disposition''), ad_summary = su,
                  ad_sections = se, ad_evidence = ev, ad_assumptions = as, ad_gaps = ga,
                  ad_blockers = bl, ad_workload = wl\<rparr>)))))))
      | _ \<Rightarrow> None)"

definition texts_value :: "string list \<Rightarrow> pyval" where
  "texts_value xs = PList (map PStr xs)"

text \<open>\<open>value.model_dump()\<close>.\<close>

definition dump_deliverable :: "agent_deliverable \<Rightarrow> pyval" where
  "dump_deliverable v = PDict
     [(''schema_version'', PInt 1), (''phase'', PStr (ad_phase v)),
      (''disposition'', PStr (ad_disposition v)), (''summary'', PStr (ad_summary v)),
      (''sections'', PDict (map (\<lambda>(k, s). (k, PStr s)) (ad_sections v))),
      (''evidence'', texts_value (ad_evidence v)),
      (''assumptions'', texts_value (ad_assumptions v)), (''gaps'', texts_value (ad_gaps v)),
      (''blockers'', texts_value (ad_blockers v)),
      (''workload'', PList (map (\<lambda>w. PDict [(''scenario_id'', PStr (scenario_id w)),
                                             (''percent'', PFloat (FFin (percent w)))])
                              (ad_workload v)))]"

definition deliverable_strings :: "agent_deliverable \<Rightarrow> string list" where
  "deliverable_strings v =
     ad_summary v # map snd (ad_sections v) @ ad_evidence v @ ad_assumptions v @ ad_gaps v
     @ ad_blockers v @ map scenario_id (ad_workload v)"

text \<open>The shares of a complete plan are positive and total 100 within the tolerance.\<close>

definition workload_total_ok :: "agent_deliverable \<Rightarrow> bool" where
  "workload_total_ok v =
     (ad_workload v \<noteq> [] \<and> (\<forall>w \<in> set (ad_workload v). 0 < percent w)
      \<and> is_close (float_sum (map percent (ad_workload v))) 100 (rat_of (fl (1 / 100))))"

definition workload_error :: "phase \<Rightarrow> agent_deliverable \<Rightarrow> string option" where
  "workload_error p v =
     (if p \<noteq> TEST_PLANNING \<and> ad_workload v \<noteq> []
      then Some ''Workload shares belong only to test_planning''
      else if p = TEST_PLANNING
              \<and> (\<not> distinct (map scenario_id (ad_workload v))
                 \<or> (\<exists>w \<in> set (ad_workload v). blank (scenario_id w)))
      then Some ''Workload scenario IDs must be unique and nonempty''
      else if p = TEST_PLANNING \<and> ad_disposition v = ''complete'' \<and> \<not> workload_total_ok v
      then Some ''Complete plan workload shares must be positive and total 100 percent''
      else None)"

definition deliverable_error :: "scanner \<Rightarrow> phase \<Rightarrow> agent_deliverable \<Rightarrow> string option" where
  "deliverable_error cred p v =
     (if ad_phase v \<noteq> phase_value p
         \<or> fst ` set (ad_sections v) \<noteq> set (PHASE_SECTIONS p)
      then Some ''Model deliverable has the wrong phase or required sections''
      else if blank (ad_summary v) \<or> (\<exists>s \<in> set (ad_sections v). blank (snd s))
      then Some ''Model deliverable contains empty required text''
      else if \<exists>s \<in> set (deliverable_strings v). blank s \<or> \<not> nul_free s
      then Some ''Model deliverable contains invalid text''
      else if (ad_disposition v = ''blocked'') \<noteq> (ad_blockers v \<noteq> [])
      then Some ''Model deliverable disposition contradicts its blockers''
      else case workload_error p v of
             Some e \<Rightarrow> Some e
           | None \<Rightarrow>
               if cred 2000 250000 50000 (dump_deliverable v)
               then Some ''Model deliverable contains credential material'' else None)"

definition parse_deliverable ::
  "scanner \<Rightarrow> nat \<Rightarrow> pyval \<Rightarrow> phase \<Rightarrow> agent_deliverable res" where
  "parse_deliverable cred depth text p =
     (case text of
        PStr s \<Rightarrow>
          if MAX_DELIVERABLE_CHARS < length s \<or> \<not> nul_free s
          then Inl (ValueError ''Model deliverable exceeds its size limit or contains invalid text'')
          else if scan cred text
          then Inl (ValueError ''Model deliverable contains credential material'')
          else (case Option.bind (json_loads True depth s) validate_deliverable of
                  None \<Rightarrow>
                    Inl (ValueError ''Model deliverable does not match the JSON output contract'')
                | Some v \<Rightarrow>
                    (case deliverable_error cred p v of
                       Some e \<Rightarrow> Inl (ValueError e)
                     | None \<Rightarrow> Inr v))
      | _ \<Rightarrow> Inl (ValueError ''Model deliverable exceeds its size limit or contains invalid text''))"

subsection \<open>Equality of JSON values\<close>

text \<open>\<open>==\<close> compares numbers by value, whatever their type, and dicts without regard to order.\<close>

fun numeric :: "pyval \<Rightarrow> pyfloat option" where
  "numeric (PBool b) = Some (FFin (if b then 1 else 0))"
| "numeric (PInt i) = Some (FFin (of_int i))"
| "numeric (PFloat x) = Some x"
| "numeric _ = None"

lemma size_zip_fst [termination_simp]:
  "(x, y) \<in> set (zip xs ys) \<Longrightarrow> size x < Suc (size_list size xs)"
  by (drule set_zip_leftD) (simp add: size_list_estimation less_Suc_eq_le size_list_estimation')

lemma size_dict_value [termination_simp]:
  "(k, v) \<in> set d \<Longrightarrow> size v < Suc (size_list (size_prod (\<lambda>x. 0) size) d)"
  by (induction d) auto

fun py_eq :: "pyval \<Rightarrow> pyval \<Rightarrow> bool" where
  "py_eq (PList xs) v =
     (case v of
        PList ys \<Rightarrow> length xs = length ys \<and> (\<forall>(x, y) \<in> set (zip xs ys). py_eq x y)
      | _ \<Rightarrow> False)"
| "py_eq (PDict d) v =
     (case v of
        PDict e \<Rightarrow> length d = length e
          \<and> (\<forall>(k, x) \<in> set d. (case map_of e k of None \<Rightarrow> False | Some y \<Rightarrow> py_eq x y))
      | _ \<Rightarrow> False)"
| "py_eq u v =
     (case (numeric u, numeric v) of
        (Some x, Some y) \<Rightarrow> x = y \<and> x \<noteq> FNan
      | _ \<Rightarrow> u = v)"

subsection \<open>Cycle documents\<close>

datatype control = CText | CMultiline | CNumber | CSelect

record deliverable_field =
  f_key :: string
  f_label :: string
  f_control :: control
  f_required :: bool
  f_integer :: bool
  f_options :: "string list"
  f_minimum :: "rat option"
  f_maximum :: "rat option"

text \<open>\<open>field(key, label)\<close> with the defaults of the class; the keyword arguments update it.\<close>

definition field_of :: "string \<Rightarrow> string \<Rightarrow> deliverable_field" where
  "field_of k l = \<lparr>f_key = k, f_label = l, f_control = CMultiline, f_required = True,
                   f_integer = False, f_options = [], f_minimum = None, f_maximum = None\<rparr>"

definition number_field ::
  "string \<Rightarrow> string \<Rightarrow> bool \<Rightarrow> bool \<Rightarrow> rat \<Rightarrow> rat \<Rightarrow> deliverable_field" where
  "number_field k l req whole lo hi =
     (field_of k l)\<lparr>f_control := CNumber, f_required := req, f_integer := whole,
                    f_minimum := Some lo, f_maximum := Some hi\<rparr>"

definition select_field :: "string \<Rightarrow> string \<Rightarrow> string list \<Rightarrow> deliverable_field" where
  "select_field k l opts = (field_of k l)\<lparr>f_control := CSelect, f_options := opts\<rparr>"

definition optional_field :: "deliverable_field \<Rightarrow> deliverable_field" where
  "optional_field f = f\<lparr>f_required := False\<rparr>"

definition DELIVERABLE_FIELDS :: "(string \<times> deliverable_field list) list" where
  "DELIVERABLE_FIELDS =
   [(''scope'',
     [field_of ''requirements'' ''Requirements and risks'',
      field_of ''source_manifest'' ''Frozen source references'',
      field_of ''included'' ''Included journeys'',
      optional_field (field_of ''excluded'' ''Excluded scope'')]),
    (''test_plan'',
     [field_of ''objectives'' ''Objectives'',
      field_of ''journeys'' ''User journeys and requirement coverage'',
      field_of ''workload_mix'' ''Workload mix'',
      number_field ''vusers'' ''Concurrent users'' True True 1 1000000,
      number_field ''arrival_rate'' ''Arrival rate (requests per second)'' False False 0 1000000,
      number_field ''ramp_s'' ''Ramp (seconds)'' True False 0 86400,
      number_field ''duration_s'' ''Steady-state duration (seconds)'' True False 1 86400,
      field_of ''test_data'' ''Test data and parameterization'',
      field_of ''thresholds'' ''Transaction thresholds'',
      number_field ''p95_ms_threshold'' ''Overall p95 latency limit (ms)'' False False
        0 1000000000000,
      number_field ''error_rate_threshold'' ''Overall error-rate limit (fraction 0-1)'' False False
        0 1,
      field_of ''observability'' ''Observability and evidence collection'',
      field_of ''entry_criteria'' ''Entry criteria'',
      field_of ''exit_criteria'' ''Exit criteria'']),
    (''readiness'',
     [field_of ''expected'' ''Expected environment configuration'',
      field_of ''observed'' ''Observed inventory and telemetry'',
      field_of ''evidence'' ''Evidence references and observation times'',
      select_field ''status'' ''Readiness assessment''
        [''not_checked'', ''blocked'', ''warning'', ''ready''],
      (optional_field (field_of ''inventory_snapshot_id'' ''Inventory snapshot ID''))
        \<lparr>f_control := CText\<rparr>,
      number_field ''target_version'' ''Approved target version'' False True 0 2147483647,
      optional_field (field_of ''remediation'' ''Blockers, owners and remediation notes'')]),
    (''script'',
     [select_field ''engine'' ''Execution platform'' [''apex-load'', ''loadrunner''],
      select_field ''format'' ''Script format''
        [''apex_native_json'', ''web_http_html'', ''other_import''],
      field_of ''source'' ''Script source or immutable import reference'',
      field_of ''parameters'' ''Parameter files and dependencies'',
      field_of ''coverage'' ''Requirement and journey coverage'',
      field_of ''validation'' ''Inspection and validation evidence'']),
    (''report'',
     [field_of ''executive_summary'' ''Executive summary'',
      field_of ''technical_analysis'' ''Technical analysis'',
      field_of ''evidence'' ''Execution evidence and versions'',
      field_of ''findings'' ''Findings and baseline differences'',
      field_of ''exclusions'' ''Exclusions and limitations'',
      optional_field (field_of ''accepted_risks'' ''Accepted risks''),
      field_of ''recommendation'' ''Recommendation'']),
    (''postmortem'',
     [field_of ''findings'' ''Findings'',
      field_of ''factors'' ''Contributing factors'',
      field_of ''lessons'' ''Lessons learned'',
      field_of ''actions'' ''Follow-up actions, owners and status''])]"

definition fields_of_kind :: "string \<Rightarrow> deliverable_field list" where
  "fields_of_kind kind = (case map_of DELIVERABLE_FIELDS kind of None \<Rightarrow> [] | Some fs \<Rightarrow> fs)"

definition frozen_keys :: "string \<Rightarrow> string list" where
  "frozen_keys kind =
     (if kind = ''report'' then [''_execution_evidence'']
      else if kind = ''scope'' then [''_source_evidence''] else [])"

text \<open>The exact value of a number other than a bool.\<close>

fun number_of :: "pyval \<Rightarrow> rat option" where
  "number_of (PInt i) = Some (of_int i)"
| "number_of (PFloat (FFin x)) = Some x"
| "number_of _ = None"

definition out_of_bounds :: "deliverable_field \<Rightarrow> rat \<Rightarrow> bool" where
  "out_of_bounds f x =
     ((case f_minimum f of None \<Rightarrow> False | Some lo \<Rightarrow> x < lo)
      \<or> (case f_maximum f of None \<Rightarrow> False | Some hi \<Rightarrow> hi < x))"

definition bound_text :: "rat option \<Rightarrow> string" where
  "bound_text b = (case b of None \<Rightarrow> [] | Some x \<Rightarrow> rat_fmt_g x)"

fun is_float :: "pyval \<Rightarrow> bool" where
  "is_float (PFloat _) = True"
| "is_float _ = False"

definition is_whole :: "rat \<Rightarrow> bool" where
  "is_whole x = (of_int \<lfloor>x\<rfloor> = x)"

definition unset :: "pyval \<Rightarrow> bool" where
  "unset v = (v = PNone \<or> v = PStr [])"

text \<open>The issues of one field of the document: at most one.\<close>

definition field_issues :: "deliverable_field \<Rightarrow> pyval \<Rightarrow> string list" where
  "field_issues f v =
     (if unset v then (if f_required f then [f_label f @ '' is required''] else [])
      else if f_control f = CNumber
      then (case number_of v of
              None \<Rightarrow> [f_label f @ '' must be between '' @ bound_text (f_minimum f) @ '' and ''
                       @ bound_text (f_maximum f)]
            | Some x \<Rightarrow>
                if out_of_bounds f x
                then [f_label f @ '' must be between '' @ bound_text (f_minimum f) @ '' and ''
                      @ bound_text (f_maximum f)]
                else if f_integer f \<and> is_float v \<and> \<not> is_whole x
                then [f_label f @ '' must be a whole number''] else [])
      else case v of
             PStr s \<Rightarrow>
               if blank s \<or> 50000 < length s
               then [f_label f @ '' must be non-empty text under 50,000 characters'']
               else if f_control f = CSelect \<and> s \<notin> set (f_options f)
               then [''Choose a supported value for '' @ f_label f] else []
           | _ \<Rightarrow> [f_label f @ '' must be non-empty text under 50,000 characters''])"

definition native_source_ok :: "nat \<Rightarrow> string \<Rightarrow> bool" where
  "native_source_ok depth s =
     (case json_loads False depth s of Some (PDict d) \<Rightarrow> d \<noteq> [] | _ \<Rightarrow> False)"

definition script_issues :: "nat \<Rightarrow> pydict \<Rightarrow> string list" where
  "script_issues depth content =
     (let engine = dget content ''engine''; fmt = dget content ''format''
      in (if (engine = PStr ''apex-load'' \<and> fmt = PStr ''web_http_html'')
             \<or> (engine = PStr ''loadrunner'' \<and> fmt = PStr ''apex_native_json'')
          then [''The script format does not match the execution platform''] else [])
         @ (case dget content ''source'' of
              PStr s \<Rightarrow>
                if fmt = PStr ''apex_native_json'' \<and> \<not> native_source_ok depth s
                then [''APEX native script source must be a non-empty JSON object''] else []
            | _ \<Rightarrow> []))"

definition content_issues :: "nat \<Rightarrow> string \<Rightarrow> pydict \<Rightarrow> string list" where
  "content_issues depth kind content =
     (let fs = fields_of_kind kind
      in (if \<exists>k \<in> fst ` set content. k \<notin> f_key ` set fs \<and> k \<notin> set (frozen_keys kind)
          then [''Remove unsupported fields before review''] else [])
         @ concat (map (\<lambda>f. field_issues f (dget content (f_key f))) fs)
         @ (if kind = ''script'' then script_issues depth content else []))"

subsection \<open>The contract of an accepted answer\<close>

lemma opt_map_Some_iff: "opt_map f xs = Some ys \<longleftrightarrow> list_all2 (\<lambda>x y. f x = Some y) xs ys"
proof (induction xs arbitrary: ys)
  case (Cons x xs)
  then show ?case
    by (cases ys; cases "f x"; cases "opt_map f xs") auto
qed auto

lemma bounded_list_SomeD: "bounded_list f m v = Some ys \<Longrightarrow> length ys \<le> m"
  by (auto simp: bounded_list_def opt_map_Some_iff dest: list_all2_lengthD
      split: pyval.splits if_splits)

lemma bounded_list_member:
  assumes "bounded_list f m v = Some ys" "y \<in> set ys"
  shows "\<exists>x. f x = Some y"
proof -
  obtain xs where "list_all2 (\<lambda>x y. f x = Some y) xs ys"
    using assms(1) by (cases v) (simp_all add: bounded_list_def opt_map_Some_iff split: if_splits)
  from list_all2_target [OF this assms(2)] show ?thesis by blast
qed

lemma percent_value_SomeD: "percent_value v = Some x \<Longrightarrow> 0 \<le> x \<and> x \<le> 100"
  by (auto simp: percent_value_def split: pyval.splits if_splits pyfloat.splits)

lemma share_of_SomeD:
  assumes "share_of v = Some w"
  shows "0 \<le> percent w \<and> percent w \<le> 100"
proof -
  obtain x where "percent_value x = Some (percent w)"
    using assms unfolding share_of_def
    by (cases v) (clarsimp split: if_split_asm option.split_asm prod.split_asm)+
  then show ?thesis by (rule percent_value_SomeD)
qed

lemma validate_deliverable_SomeD:
  assumes "validate_deliverable data = Some v"
  shows "ad_disposition v = ''complete'' \<or> ad_disposition v = ''blocked''"
    "length (ad_evidence v) \<le> 64" "length (ad_blockers v) \<le> 32"
    "\<forall>w \<in> set (ad_workload v). 0 \<le> percent w \<and> percent w \<le> 100"
proof -
  obtain d where d: "data = PDict d"
    using assms by (auto simp: validate_deliverable_def split: pyval.splits)
  note a = assms [unfolded d validate_deliverable_def pyval.case]
  show "ad_disposition v = ''complete'' \<or> ad_disposition v = ''blocked''"
    using a by (auto simp: bind_eq_Some_conv split: if_splits)
  show "length (ad_evidence v) \<le> 64" "length (ad_blockers v) \<le> 32"
    using a by (auto simp: bind_eq_Some_conv split: if_splits dest: bounded_list_SomeD)
  show "\<forall>w \<in> set (ad_workload v). 0 \<le> percent w \<and> percent w \<le> 100"
    using a by (auto simp: bind_eq_Some_conv split: if_splits
        dest!: bounded_list_member share_of_SomeD)
qed

lemma deliverable_error_NoneD:
  assumes "deliverable_error cred p v = None"
  shows "ad_phase v = phase_value p" "fst ` set (ad_sections v) = set (PHASE_SECTIONS p)"
    "\<forall>s \<in> set (deliverable_strings v). \<not> blank s \<and> nul_free s"
    "(ad_disposition v = ''blocked'') = (ad_blockers v \<noteq> [])"
    "workload_error p v = None"
  using assms by (simp_all add: deliverable_error_def split: if_splits option.splits)

lemma workload_error_NoneD:
  assumes "workload_error p v = None"
  shows "ad_workload v \<noteq> [] \<Longrightarrow> p = TEST_PLANNING"
    "p = TEST_PLANNING \<Longrightarrow> distinct (map scenario_id (ad_workload v))"
    "p = TEST_PLANNING \<Longrightarrow> ad_disposition v = ''complete'' \<Longrightarrow> workload_total_ok v"
  using assms by (auto simp: workload_error_def split: if_splits)

text \<open>
  C10. An answer that parse_deliverable accepts is for the phase asked, holds exactly the sections
  of that phase and no blank text, is blocked exactly when it names blockers, and carries
  workload shares only for test planning, where a complete plan's shares are distinct, positive
  and total 100 within the tolerance.
\<close>

theorem parse_deliverable_contract:
  assumes "parse_deliverable cred depth text p = Inr v"
  shows "ad_phase v = phase_value p
    \<and> fst ` set (ad_sections v) = set (PHASE_SECTIONS p)
    \<and> (\<forall>s \<in> set (deliverable_strings v). \<not> blank s \<and> nul_free s)
    \<and> (ad_disposition v = ''complete'' \<longleftrightarrow> ad_blockers v = [])
    \<and> (ad_workload v \<noteq> [] \<longrightarrow> p = TEST_PLANNING)
    \<and> distinct (map scenario_id (ad_workload v))
    \<and> (p = TEST_PLANNING \<and> ad_blockers v = [] \<longrightarrow> workload_total_ok v)
    \<and> (\<forall>w \<in> set (ad_workload v). 0 \<le> percent w \<and> percent w \<le> 100)"
proof -
  obtain s data where "json_loads True depth s = Some data"
    and ok: "validate_deliverable data = Some v" and none: "deliverable_error cred p v = None"
    using assms unfolding parse_deliverable_def
    by (auto simp: bind_eq_Some_conv split: pyval.splits if_splits option.splits)
  note e = deliverable_error_NoneD [OF none]
  note w = workload_error_NoneD [OF e(5)]
  from validate_deliverable_SomeD [OF ok] e(4)
  have "ad_disposition v = ''complete'' \<longleftrightarrow> ad_blockers v = []" by auto
  moreover have "distinct (map scenario_id (ad_workload v))"
    using w(1,2) by (cases "ad_workload v = []") auto
  ultimately show ?thesis
    using e w validate_deliverable_SomeD [OF ok] by blast
qed

text \<open>An answer for the execution phase.\<close>

definition sample_answer :: string where
  "sample_answer = map (\<lambda>c. if c = CHR ''!'' then char_of (34 :: nat) else c)
     (''{!schema_version!:1,!phase!:!execution!,!disposition!:!complete!,!summary!:!s!,''
      @ ''!sections!:{!execution_contract!:!c!,!evidence!:!e!,!outcome!:!o!},''
      @ ''!evidence!:[],!assumptions!:[],!gaps!:[],!blockers!:[],!workload!:[]}'')"

definition sample_deliverable :: agent_deliverable where
  "sample_deliverable = \<lparr>ad_phase = ''execution'', ad_disposition = ''complete'',
     ad_summary = ''s'',
     ad_sections = [(''execution_contract'', ''c''), (''evidence'', ''e''), (''outcome'', ''o'')],
     ad_evidence = [], ad_assumptions = [], ad_gaps = [], ad_blockers = [], ad_workload = []\<rparr>"

definition sample_document :: pyval where
  "sample_document = PDict
     [(''schema_version'', PInt 1), (''phase'', PStr ''execution''),
      (''disposition'', PStr ''complete''), (''summary'', PStr ''s''),
      (''sections'', PDict [(''execution_contract'', PStr ''c''), (''evidence'', PStr ''e''),
                            (''outcome'', PStr ''o'')]),
      (''evidence'', PList []), (''assumptions'', PList []), (''gaps'', PList []),
      (''blockers'', PList []), (''workload'', PList [])]"

lemma sample_answer_loads: "json_loads True 9 sample_answer = Some sample_document"
  by code_simp

lemma sample_document_valid: "validate_deliverable sample_document = Some sample_deliverable"
  by code_simp

lemma sample_answer_text:
  "nul_free sample_answer" "\<not> MAX_DELIVERABLE_CHARS < length sample_answer"
  by code_simp+

lemma sample_deliverable_fits:
  "deliverable_error (\<lambda>_ _ _ _. False) EXECUTION sample_deliverable = None"
  by code_simp

lemma sample_answer_parses:
  "parse_deliverable (\<lambda>_ _ _ _. False) 9 (PStr sample_answer) EXECUTION = Inr sample_deliverable"
  by (simp only: parse_deliverable_def pyval.case sample_answer_text simp_thms if_False scan_def
      sample_answer_loads bind.simps sample_document_valid option.case sample_deliverable_fits)

theorem parse_deliverable_contract_witness:
  "fst ` set (ad_sections sample_deliverable) = set (PHASE_SECTIONS EXECUTION)"
  using parse_deliverable_contract [OF sample_answer_parses] by blast

end
