(* ===== verification/Cycles.thy ===== *)
theory Cycles
  imports Deliverables
begin

text \<open>
  Version-bound deliverables of a test cycle (src/apex/domain/cycles.py) and the handlers that
  store them (src/apex/routers/cycles.py). A version is a record with the keys that
  \<open>add_version\<close> writes; identities and times, which the code draws from \<open>uuid4\<close> and the
  clock, are arguments. The copy \<open>json.loads(json.dumps(x))\<close> of a JSON value is the value
  itself. \<open>depth\<close> is the nesting the JSON scanner admits.

  The approval of a version is decided by a memoised depth-first search over its dependencies;
  it is proved to compute the least set of approvals, on cyclic histories as well. A cycle row
  is changed under an optimistic revision check by concurrent handlers; the step relation of
  the handlers is shown to refine the serial execution of their operations.
\<close>

subsection \<open>Versions\<close>

datatype deliverable_status = NotStarted | Draft | InReview | Approved | Stale | Archived

datatype review_action = Submit | Approve | RequestRevision | Archive | Restore

record review =
  r_action :: review_action
  r_actor :: string
  r_note :: string
  r_at :: string

record version_origin =
  vo_cycle_id :: string
  vo_version_id :: string
  vo_checksum :: string

record version =
  v_id :: string
  v_kind :: string
  v_title :: string
  v_content :: pydict
  v_checksum :: string
  v_dependencies :: "string list"
  v_replaces :: "string option"
  v_change_summary :: string
  v_status :: deliverable_status
  v_created_by :: string
  v_created_at :: string
  v_archived :: bool
  v_reviews :: "review list"
  v_origin :: "version_origin option"

record version_create =
  vc_expected_revision :: int
  vc_kind :: string
  vc_title :: string
  vc_content :: pydict
  vc_dependencies :: "string list"
  vc_replaces :: "string option"
  vc_change_summary :: string

record cycle_action =
  ca_expected_revision :: int
  ca_action :: review_action
  ca_version_id :: string
  ca_note :: string

definition KINDS :: "string list" where
  "KINDS = [''scope'', ''test_plan'', ''readiness'', ''script'', ''report'', ''postmortem'']"

text \<open>\<open>{v["id"]: v for v in versions}\<close>: the last version of an identity.\<close>

definition by_id :: "version list \<Rightarrow> string \<Rightarrow> version option" where
  "by_id vs k = map_of (rev (map (\<lambda>v. (v_id v, v)) vs)) k"

text \<open>\<open>next((v for v in versions if v["id"] == k), None)\<close>: the first one.\<close>

definition find_version :: "string \<Rightarrow> version list \<Rightarrow> version option" where
  "find_version k vs = find (\<lambda>v. v_id v = k) vs"

definition superseded :: "version list \<Rightarrow> string \<Rightarrow> bool" where
  "superseded vs k = (\<exists>v \<in> set vs. v_replaces v = Some k)"

definition version_digest :: "pydict \<Rightarrow> string option" where
  "version_digest content =
     map_option (\<lambda>t. sha256_hex (utf8 t)) (json_dumps True True False (PDict content))"

definition content_integrity :: "version \<Rightarrow> bool" where
  "content_integrity v = (version_digest (v_content v) = Some (v_checksum v))"

subsection \<open>Current approval\<close>

text \<open>A version that counts as approved when its dependencies do.\<close>

definition version_usable :: "nat \<Rightarrow> version list \<Rightarrow> string \<Rightarrow> version \<Rightarrow> bool" where
  "version_usable depth vs k v =
     (v_status v = Approved \<and> \<not> v_archived v \<and> \<not> superseded vs k \<and> content_integrity v
      \<and> content_issues depth (v_kind v) (v_content v) = [])"

type_synonym memo = "string \<Rightarrow> bool option"

text \<open>\<open>all(current(dep) for dep in deps)\<close> threads the memo and stops at the first \<open>False\<close>.\<close>

fun all_current ::
  "(memo \<Rightarrow> string \<Rightarrow> (bool \<times> memo) option) \<Rightarrow> memo \<Rightarrow> string list \<Rightarrow> (bool \<times> memo) option" where
  "all_current step m [] = Some (True, m)"
| "all_current step m (d # ds) =
     (case step m d of
        None \<Rightarrow> None
      | Some (b, m') \<Rightarrow> if b then all_current step m' ds else Some (False, m'))"

text \<open>
  The recursion of the search; one unit of fuel per nested call. A call nests only below a
  version that was not in the memo, so the number of versions plus one is enough.
\<close>

primrec current ::
  "nat \<Rightarrow> version list \<Rightarrow> nat \<Rightarrow> memo \<Rightarrow> string \<Rightarrow> (bool \<times> memo) option" where
  "current depth vs 0 m k = None"
| "current depth vs (Suc n) m k =
     (case m k of
        Some b \<Rightarrow> Some (b, m)
      | None \<Rightarrow>
          (let m0 = m(k \<mapsto> False)
           in case by_id vs k of
                None \<Rightarrow> Some (False, m0)
              | Some v \<Rightarrow>
                  if \<not> version_usable depth vs k v then Some (False, m0)
                  else (case all_current (current depth vs n) m0 (v_dependencies v) of
                          None \<Rightarrow> None
                        | Some (b, m1) \<Rightarrow> Some (b, m1(k \<mapsto> b)))))"

definition approval_current :: "nat \<Rightarrow> version list \<Rightarrow> string \<Rightarrow> bool" where
  "approval_current depth vs k =
     (case current depth vs (Suc (Suc (length vs))) Map.empty k of
        Some (b, m) \<Rightarrow> b | None \<Rightarrow> False)"

text \<open>Reference: the least set closed under "usable and all dependencies approved".\<close>

inductive approved :: "nat \<Rightarrow> version list \<Rightarrow> string \<Rightarrow> bool" for depth vs where
  approvedI: "by_id vs k = Some v \<Longrightarrow> version_usable depth vs k v \<Longrightarrow>
    (\<forall>d \<in> set (v_dependencies v). approved depth vs d) \<Longrightarrow> approved depth vs k"

inductive_simps approved_iff: "approved depth vs k"

text \<open>One dependency edge of the history.\<close>

definition depends :: "version list \<Rightarrow> (string \<times> string) set" where
  "depends vs = {(k, d). \<exists>v. by_id vs k = Some v \<and> d \<in> set (v_dependencies v)}"

lemma approved_step: "approved depth vs k \<Longrightarrow> (k, d) \<in> depends vs \<Longrightarrow> approved depth vs d"
  by (erule approved.cases) (auto simp: depends_def)

lemma approved_upstream:
  assumes "(k, d) \<in> (depends vs)\<^sup>*" "approved depth vs k"
  shows "approved depth vs d"
  using assms by (induction rule: rtrancl_induct) (auto intro: approved_step)

lemma approved_usable:
  "by_id vs k = Some v \<Longrightarrow> version_usable depth vs k v \<Longrightarrow>
   approved depth vs k = (\<forall>d \<in> set (v_dependencies v). approved depth vs d)"
  by (subst approved_iff) simp

lemma not_approved:
  "\<not> (\<exists>v. by_id vs k = Some v \<and> version_usable depth vs k v) \<Longrightarrow> \<not> approved depth vs k"
  by (subst approved_iff) blast

text \<open>An approved version is on no dependency cycle.\<close>

lemma approved_acyclic:
  assumes "approved depth vs k"
  shows "(k, k) \<notin> (depends vs)\<^sup>+"
  using assms
proof induction
  case (approvedI k v)
  show ?case
  proof
    assume "(k, k) \<in> (depends vs)\<^sup>+"
    then obtain d where d: "(k, d) \<in> depends vs" "(d, k) \<in> (depends vs)\<^sup>*"
      by (meson tranclD)
    with approvedI(1) have "d \<in> set (v_dependencies v)" by (auto simp: depends_def)
    with approvedI(3) d show False
      by (meson rtrancl_into_trancl1)
  qed
qed

text \<open>
  What the memo means while the versions in \<open>S\<close> are being decided: a stored \<open>True\<close> is an
  approval, a stored \<open>False\<close> is none unless it is the provisional value of a version in \<open>S\<close>.
\<close>

definition memo_ok :: "nat \<Rightarrow> version list \<Rightarrow> string set \<Rightarrow> memo \<Rightarrow> bool" where
  "memo_ok depth vs S m =
     ((\<forall>k. m k = Some True \<longrightarrow> approved depth vs k)
      \<and> (\<forall>k. m k = Some False \<longrightarrow> k \<in> S \<or> \<not> approved depth vs k))"

definition above :: "version list \<Rightarrow> string set \<Rightarrow> string \<Rightarrow> bool" where
  "above vs S k = (\<forall>s \<in> S. (s, k) \<in> (depends vs)\<^sup>+)"

lemma memo_ok_decided:
  assumes "memo_ok depth vs S m" "above vs S k" "m k = Some b"
  shows "b = approved depth vs k"
  using assms approved_acyclic [of depth vs k]
  by (cases b) (auto simp: memo_ok_def above_def)

lemma memo_ok_provisional:
  "memo_ok depth vs S m \<Longrightarrow> m k = None \<Longrightarrow> memo_ok depth vs (insert k S) (m(k \<mapsto> False))"
  by (auto simp: memo_ok_def)

lemma memo_ok_settle:
  "memo_ok depth vs (insert k S) m \<Longrightarrow> b = approved depth vs k \<Longrightarrow> memo_ok depth vs S (m(k \<mapsto> b))"
  by (auto simp: memo_ok_def)

lemma all_current_correct:
  assumes "\<And>m d b m'. d \<in> set ds \<Longrightarrow> memo_ok depth vs S m \<Longrightarrow> step m d = Some (b, m') \<Longrightarrow>
      b = approved depth vs d \<and> memo_ok depth vs S m'"
    and "memo_ok depth vs S m" "all_current step m ds = Some (b, m')"
  shows "b = (\<forall>d \<in> set ds. approved depth vs d) \<and> memo_ok depth vs S m'"
  using assms
proof (induction ds arbitrary: m)
  case Nil
  from Nil.prems(2,3) show ?case by simp
next
  case (Cons d ds)
  from Cons.prems(3) obtain c n where n: "step m d = Some (c, n)"
    by (auto split: option.splits)
  have c: "c = approved depth vs d" "memo_ok depth vs S n"
    using Cons.prems(1) [OF list.set_intros(1) Cons.prems(2) n] by simp_all
  show ?case
  proof (cases c)
    case True
    have run: "all_current step n ds = Some (b, m')" using Cons.prems(3) n True by simp
    have "b = (\<forall>d \<in> set ds. approved depth vs d) \<and> memo_ok depth vs S m'"
      by (rule Cons.IH [OF _ c(2) run]) (rule Cons.prems(1) [OF list.set_intros(2)])
    with c True show ?thesis by simp
  next
    case False
    with Cons.prems(3) n have "\<not> b" "m' = n" by simp_all
    with c False show ?thesis by auto
  qed
qed

lemma current_correct:
  assumes "memo_ok depth vs S m" "above vs S k" "current depth vs n m k = Some (b, m')"
  shows "b = approved depth vs k \<and> memo_ok depth vs S m'"
  using assms
proof (induction n arbitrary: S m k b m')
  case (Suc n)
  show ?case
  proof (cases "m k")
    case (Some c)
    with Suc.prems memo_ok_decided [OF Suc.prems(1,2) Some] show ?thesis by simp
  next
    case None
    note m0 = memo_ok_provisional [OF Suc.prems(1) None]
    show ?thesis
    proof (cases "\<exists>v. by_id vs k = Some v \<and> version_usable depth vs k v")
      case False
      then have "\<not> approved depth vs k"
        by (rule not_approved)
      moreover have "current depth vs (Suc n) m k = Some (False, m(k \<mapsto> False))"
        using False None by (auto simp: Let_def split: option.split)
      moreover have "memo_ok depth vs S (m(k \<mapsto> False))"
        using memo_ok_settle [OF m0, of False] \<open>\<not> approved depth vs k\<close> by simp
      ultimately show ?thesis using Suc.prems(3) by simp
    next
      case True
      then obtain v where v: "by_id vs k = Some v" "version_usable depth vs k v" by blast
      with None Suc.prems(3) obtain m1 where
        run: "all_current (current depth vs n) (m(k \<mapsto> False)) (v_dependencies v) = Some (b, m1)"
        and m': "m' = m1(k \<mapsto> b)"
        by (auto simp: Let_def split: option.splits)
      have up: "above vs (insert k S) d" if "d \<in> set (v_dependencies v)" for d
      proof -
        have "(k, d) \<in> depends vs" using v that by (auto simp: depends_def)
        with Suc.prems(2) show ?thesis
          by (auto simp: above_def intro: trancl_into_trancl)
      qed
      have r: "b = (\<forall>d \<in> set (v_dependencies v). approved depth vs d)
          \<and> memo_ok depth vs (insert k S) m1"
        by (rule all_current_correct [OF _ m0 run]) (use Suc.IH up in blast)
      with approved_usable [OF v] have b: "b = approved depth vs k" by simp
      show ?thesis unfolding m' by (rule conjI [OF b memo_ok_settle [OF conjunct2 [OF r] b]])
    qed
  qed
qed simp

text \<open>The search never runs out of fuel.\<close>

definition open_ids :: "version list \<Rightarrow> memo \<Rightarrow> string set" where
  "open_ids vs m = {k \<in> v_id ` set vs. m k = None}"

lemma finite_open_ids [simp]: "finite (open_ids vs m)"
  by (simp add: open_ids_def)

lemma by_id_member: "by_id vs k = Some v \<Longrightarrow> v \<in> set vs \<and> v_id v = k"
  by (auto simp: by_id_def dest: map_of_SomeD)

lemma all_current_total:
  fixes m0 :: memo
  assumes "\<And>m d. dom m0 \<subseteq> dom m \<Longrightarrow> \<exists>b m'. step m d = Some (b, m') \<and> dom m \<subseteq> dom m'"
    and "dom m0 \<subseteq> dom m"
  shows "\<exists>b m'. all_current step m ds = Some (b, m') \<and> dom m \<subseteq> dom m'"
  using assms(2)
proof (induction ds arbitrary: m)
  case (Cons d ds)
  from assms(1) [OF Cons.prems, of d] obtain b n where
    n: "step m d = Some (b, n)" "dom m \<subseteq> dom n" by blast
  with Cons show ?case
    by (cases b) (auto, meson subset_trans)
qed auto

lemma current_total:
  assumes "card (open_ids vs m) < n"
  shows "\<exists>b m'. current depth vs n m k = Some (b, m') \<and> dom m \<subseteq> dom m'"
  using assms
proof (induction n arbitrary: m k)
  case (Suc n)
  show ?case
  proof (cases "m k = None \<and> (\<exists>v. by_id vs k = Some v \<and> version_usable depth vs k v)")
    case False
    then show ?thesis
      by (auto simp: Let_def split: option.splits)
  next
    case True
    then obtain v where v: "m k = None" "by_id vs k = Some v" "version_usable depth vs k v"
      by blast
    let ?m0 = "m(k \<mapsto> False)"
    have "open_ids vs ?m0 \<subset> open_ids vs m"
      using v by_id_member [OF v(2)] by (auto simp: open_ids_def)
    from psubset_card_mono [OF finite_open_ids this]
    have less: "card (open_ids vs ?m0) < n"
      using Suc.prems by simp
    have step: "\<exists>b m'. current depth vs n m1 d = Some (b, m') \<and> dom m1 \<subseteq> dom m'"
      if "dom ?m0 \<subseteq> dom m1" for m1 d
    proof -
      have "open_ids vs m1 \<subseteq> open_ids vs ?m0"
        using that by (auto simp: open_ids_def split: if_splits)
      then have "card (open_ids vs m1) < n"
        using less card_mono [OF finite_open_ids] by (meson le_less_trans)
      then show ?thesis by (rule Suc.IH)
    qed
    from all_current_total [of ?m0 "current depth vs n", OF step] obtain b m1 where
      "all_current (current depth vs n) ?m0 (v_dependencies v) = Some (b, m1)"
      "dom ?m0 \<subseteq> dom m1" by blast
    with v show ?thesis by auto
  qed
qed simp

lemma approval_current_run:
  "\<exists>m. current depth vs (Suc (Suc (length vs))) Map.empty k = Some (approved depth vs k, m)"
proof -
  have "card (open_ids vs Map.empty) \<le> card (set (map v_id vs))"
    by (rule card_mono) (auto simp: open_ids_def)
  then have "card (open_ids vs Map.empty) < Suc (Suc (length vs))"
    using card_length [of "map v_id vs"] by simp
  from current_total [OF this] obtain b m where
    r: "current depth vs (Suc (Suc (length vs))) Map.empty k = Some (b, m)" by blast
  have "memo_ok depth vs {} Map.empty" "above vs {} k" by (simp_all add: memo_ok_def above_def)
  from current_correct [OF this r] have "b = approved depth vs k" by simp
  with r show ?thesis by blast
qed

lemma approval_current_eq: "approval_current depth vs k = approved depth vs k"
  using approval_current_run [of depth vs k] by (auto simp: approval_current_def)

text \<open>
  C11. The memoised search of approval_current always answers, and its answer is membership in
  the least set of versions that are approved, active, intact and without issues and whose
  dependencies are all in the set: also on histories with dependency cycles.
\<close>

theorem approval_current_least:
  "approval_current depth vs k = approved depth vs k
   \<and> (\<exists>m. current depth vs (Suc (Suc (length vs))) Map.empty k = Some (approved depth vs k, m))"
  by (intro conjI approval_current_eq approval_current_run)

subsection \<open>Progress\<close>

record deliverable_progress =
  dp_kind :: string
  dp_version_id :: "string option"
  dp_status :: deliverable_status

record cycle_progress_model =
  cp_status :: deliverable_status
  cp_approved :: nat
  cp_total :: nat
  cp_deliverables :: "deliverable_progress list"

definition progress_status :: "deliverable_status set \<Rightarrow> deliverable_status" where
  "progress_status states =
     (if states = {NotStarted} then NotStarted
      else if states \<subseteq> {NotStarted, Archived} then Archived
      else if Stale \<in> states then Stale
      else if InReview \<in> states then InReview
      else if states = {Approved} then Approved
      else Draft)"

definition count_approved :: "deliverable_progress list \<Rightarrow> nat" where
  "count_approved items = length (filter (\<lambda>i. dp_status i = Approved) items)"

text \<open>The validators of \<open>DeliverableProgress\<close> and \<open>CycleProgress\<close>.\<close>

definition progress_valid :: "cycle_progress_model \<Rightarrow> bool" where
  "progress_valid p =
     (map dp_kind (cp_deliverables p) = KINDS
      \<and> cp_total p = 6 \<and> cp_approved p \<le> 6
      \<and> (\<forall>i \<in> set (cp_deliverables p).
           (case dp_version_id i of
              None \<Rightarrow> dp_status i = NotStarted
            | Some k \<Rightarrow> dp_status i \<noteq> NotStarted \<and> 1 \<le> length k \<and> length k \<le> 32 \<and> nul_free k))
      \<and> cp_approved p = count_approved (cp_deliverables p)
      \<and> cp_status p = progress_status (dp_status ` set (cp_deliverables p)))"

text \<open>\<open>latest.get(kind)\<close>: the last recorded version of the kind.\<close>

definition latest_of :: "version list \<Rightarrow> string \<Rightarrow> version option" where
  "latest_of vs kind = find (\<lambda>v. v_kind v = kind) (rev vs)"

definition progress_item :: "nat \<Rightarrow> version list \<Rightarrow> string \<Rightarrow> deliverable_progress" where
  "progress_item depth vs kind =
     (case latest_of vs kind of
        None \<Rightarrow> \<lparr>dp_kind = kind, dp_version_id = None, dp_status = NotStarted\<rparr>
      | Some v \<Rightarrow>
          \<lparr>dp_kind = kind, dp_version_id = Some (v_id v),
           dp_status =
             (if v_archived v then Archived
              else if v_status v = Approved
              then (if approval_current depth vs (v_id v) then Approved else Stale)
              else v_status v)\<rparr>)"

definition cycle_progress :: "nat \<Rightarrow> version list \<Rightarrow> cycle_progress_model res" where
  "cycle_progress depth vs =
     (if \<exists>v \<in> set vs. v_kind v \<notin> set KINDS then Inl (ValueError ''unknown deliverable history'')
      else let items = map (progress_item depth vs) KINDS;
               p = \<lparr>cp_status = progress_status (dp_status ` set items),
                    cp_approved = count_approved items, cp_total = 6, cp_deliverables = items\<rparr>
           in if progress_valid p then Inr p else Inl (ValueError ''CycleProgress''))"

subsection \<open>Changing the history\<close>

definition truthy_id :: "string option \<Rightarrow> bool" where
  "truthy_id k = (k \<noteq> None \<and> k \<noteq> Some [])"

definition previous_of :: "version list \<Rightarrow> version_create \<Rightarrow> version option" where
  "previous_of vs q =
     (if truthy_id (vc_replaces q) then by_id vs (the (vc_replaces q)) else None)"

definition replace_error :: "version list \<Rightarrow> version_create \<Rightarrow> string option" where
  "replace_error vs q =
     (if \<not> truthy_id (vc_replaces q) then None
      else case previous_of vs q of
             None \<Rightarrow> Some ''replacement must refer to a version of the same deliverable kind''
           | Some v \<Rightarrow>
               if v_kind v \<noteq> vc_kind q
               then Some ''replacement must refer to a version of the same deliverable kind''
               else if \<not> content_integrity v
               then Some ''Previous version content does not match its recorded checksum''
               else if superseded vs (the (vc_replaces q))
               then Some ''version has already been superseded; refresh before editing''
               else None)"

definition evidence_ok :: "version option \<Rightarrow> version_create \<Rightarrow> string \<times> string \<Rightarrow> bool" where
  "evidence_ok prev q kk =
     (let key = fst kk; supplied = dget (vc_content q) key;
          frozen = (case prev of None \<Rightarrow> PNone | Some v \<Rightarrow> dget (v_content v) key)
      in \<not> (dhas (vc_content q) key \<and> supplied = PNone) \<and> py_eq supplied frozen
         \<and> (supplied \<noteq> PNone \<longrightarrow> vc_kind q = snd kk))"

definition EVIDENCE_KEYS :: "(string \<times> string) list" where
  "EVIDENCE_KEYS = [(''_execution_evidence'', ''report''), (''_source_evidence'', ''scope'')]"

definition dependency_error :: "nat \<Rightarrow> version list \<Rightarrow> string \<Rightarrow> exn + unit" where
  "dependency_error depth vs d =
     (if by_id vs d = None \<or> \<not> approval_current depth vs d
      then Inl (ValueError ''upstream versions must be approved and active'')
      else if superseded vs d then Inl (ValueError ''upstream version has been superseded'')
      else Inr ())"

definition add_version ::
  "nat \<Rightarrow> version list \<Rightarrow> version_create \<Rightarrow> string \<Rightarrow> bool \<Rightarrow> string \<Rightarrow> string \<Rightarrow> version res" where
  "add_version depth vs q actor trusted new_id now =
     (case replace_error vs q of
        Some e \<Rightarrow> Inl (ValueError e)
      | None \<Rightarrow>
          if \<not> trusted \<and> \<not> list_all (evidence_ok (previous_of vs q) q) EVIDENCE_KEYS
          then Inl (ValueError ''Frozen evidence can only be captured by its evidence operation'')
          else rbind (for_each (dependency_error depth vs) (vc_dependencies q)) (\<lambda>_.
               case version_digest (vc_content q) of
                 None \<Rightarrow> Inl (ValueError ''Out of range float values are not JSON compliant'')
               | Some c \<Rightarrow>
                   Inr \<lparr>v_id = new_id, v_kind = vc_kind q, v_title = vc_title q,
                        v_content = vc_content q, v_checksum = c,
                        v_dependencies = vc_dependencies q, v_replaces = vc_replaces q,
                        v_change_summary = vc_change_summary q, v_status = Draft,
                        v_created_by = actor, v_created_at = now, v_archived = False,
                        v_reviews = [], v_origin = None\<rparr>))"

fun update_version :: "string \<Rightarrow> (version \<Rightarrow> version) \<Rightarrow> version list \<Rightarrow> version list" where
  "update_version k f [] = []"
| "update_version k f (v # vs) = (if v_id v = k then f v # vs else v # update_version k f vs)"

definition stale_upstream :: "nat \<Rightarrow> version list \<Rightarrow> string \<Rightarrow> bool" where
  "stale_upstream depth vs d =
     (case find_version d vs of
        None \<Rightarrow> True
      | Some u \<Rightarrow> \<not> approval_current depth vs d \<or> v_archived u \<or> superseded vs d)"

fun next_status :: "review_action \<Rightarrow> deliverable_status" where
  "next_status Submit = InReview"
| "next_status Approve = Approved"
| "next_status _ = Draft"

definition expected_status :: "review_action \<Rightarrow> deliverable_status" where
  "expected_status act = (if act = Submit then Draft else InReview)"

definition expected_text :: "review_action \<Rightarrow> string" where
  "expected_text act = (if act = Submit then ''draft'' else ''in_review'')"

text \<open>Why a review action is refused.\<close>

definition review_error ::
  "nat \<Rightarrow> version list \<Rightarrow> version \<Rightarrow> review_action \<Rightarrow> string \<Rightarrow> bool \<Rightarrow> string option" where
  "review_error depth vs t act actor indep =
     (let issues = content_issues depth (v_kind t) (v_content t);
          content = (act = Submit \<or> act = Approve)
      in if v_archived t \<or> superseded vs (v_id t)
         then Some ''archived or superseded versions cannot be reviewed''
         else if v_status t \<noteq> expected_status act
         then Some (''action requires '' @ expected_text act @ '' status'')
         else if content \<and> \<not> content_integrity t
         then Some ''Version content does not match its recorded checksum''
         else if content \<and> issues \<noteq> []
         then Some (''Complete the deliverable before review: '' @ join ''; '' issues)
         else if act = Approve \<and> indep \<and> actor = v_created_by t
         then Some ''project policy requires a distinct authenticated reviewer''
         else if act = Approve \<and> (\<exists>d \<in> set (v_dependencies t). stale_upstream depth vs d)
         then Some ''upstream approval is stale; create a revised draft''
         else None)"

definition add_review :: "cycle_action \<Rightarrow> string \<Rightarrow> string \<Rightarrow> version \<Rightarrow> version" where
  "add_review a actor now v =
     v\<lparr>v_reviews := v_reviews v @ [\<lparr>r_action = ca_action a, r_actor = actor,
                                     r_note = ca_note a, r_at = now\<rparr>]\<rparr>"

definition transition ::
  "nat \<Rightarrow> version list \<Rightarrow> cycle_action \<Rightarrow> string \<Rightarrow> bool \<Rightarrow> string \<Rightarrow> version list res" where
  "transition depth vs a actor indep now =
     (case find_version (ca_version_id a) vs of
        None \<Rightarrow> Inl (ValueError ''deliverable version not found'')
      | Some t \<Rightarrow>
          if ca_action a = Archive \<or> ca_action a = Restore
          then Inr (update_version (v_id t)
                 (\<lambda>v. add_review a actor now (v\<lparr>v_archived := (ca_action a = Archive)\<rparr>)) vs)
          else case review_error depth vs t (ca_action a) actor indep of
                 Some e \<Rightarrow> Inl (ValueError e)
               | None \<Rightarrow>
                   Inr (update_version (v_id t)
                     (\<lambda>v. add_review a actor now (v\<lparr>v_status := next_status (ca_action a)\<rparr>)) vs))"

definition underscore_spaces :: "string \<Rightarrow> string" where
  "underscore_spaces s = map (\<lambda>c. if c = CHR ''_'' then CHR '' '' else c) s"

definition cycle_blockers :: "nat \<Rightarrow> version list \<Rightarrow> string list" where
  "cycle_blockers depth vs =
     (let active = filter (\<lambda>v. \<not> v_archived v \<and> \<not> superseded vs (v_id v)) vs
      in map (\<lambda>kind. ''Approve an active '' @ underscore_spaces kind @ '' version'')
           (filter (\<lambda>kind. \<not> (\<exists>v \<in> set active. v_kind v = kind
                                  \<and> approval_current depth vs (v_id v)))
              [''scope'', ''test_plan'', ''readiness'', ''script''])
         @ [''Provider access, script binding, capacity and readiness freshness ''
            @ ''require execution preflight''])"

subsection \<open>The view of a version\<close>

definition validation_issues :: "nat \<Rightarrow> version \<Rightarrow> string list" where
  "validation_issues depth v =
     content_issues depth (v_kind v) (v_content v)
     @ (if content_integrity v then []
        else [''Version content does not match its recorded checksum''])"

text \<open>The actions that the page offers an operator.\<close>

definition available_actions ::
  "nat \<Rightarrow> version list \<Rightarrow> bool \<Rightarrow> version \<Rightarrow> string \<Rightarrow> review_action list" where
  "available_actions depth vs indep v consumer =
     (let issues = validation_issues depth v
      in [if v_archived v then Restore else Archive]
         @ (if \<not> superseded vs (v_id v) \<and> \<not> v_archived v
            then (if v_status v = Draft \<and> issues = [] then [Submit] else [])
                 @ (if v_status v = InReview
                    then RequestRevision
                         # (if issues = [] \<and> (\<not> indep \<or> consumer \<noteq> v_created_by v)
                               \<and> (\<forall>d \<in> set (v_dependencies v). approval_current depth vs d)
                            then [Approve] else [])
                    else [])
            else []))"

subsection \<open>What a review does\<close>

lemma find_versionD:
  "find_version k vs = Some t \<Longrightarrow> t \<in> set vs \<and> v_id t = k"
  by (auto simp: find_version_def find_Some_iff)

lemma by_id_iff:
  assumes "distinct (map v_id vs)"
  shows "by_id vs k = Some v \<longleftrightarrow> v \<in> set vs \<and> v_id v = k"
proof -
  have "distinct (map fst (rev (map (\<lambda>v. (v_id v, v)) vs)))"
    using assms by (simp add: rev_map [symmetric] comp_def)
  then show ?thesis
    unfolding by_id_def by (subst map_of_eq_Some_iff) auto
qed

lemma find_version_distinct:
  assumes "distinct (map v_id vs)"
  shows "find_version k vs = by_id vs k"
proof (cases "find_version k vs")
  case None
  then have "\<nexists>v. by_id vs k = Some v"
    using by_id_iff [OF assms] by (auto simp: find_version_def find_None_iff)
  with None show ?thesis by simp
next
  case (Some v)
  then have "by_id vs k = Some v"
    using find_versionD [OF Some] by (simp only: by_id_iff [OF assms])
  with Some show ?thesis by simp
qed

lemma length_update_version [simp]: "length (update_version k f vs) = length vs"
  by (induction vs) auto

lemma map_update_version:
  "(\<And>v. g (f v) = g v) \<Longrightarrow> map g (update_version k f vs) = map g vs"
  by (induction vs) auto

lemma update_version_none: "find_version k vs = None \<Longrightarrow> update_version k f vs = vs"
  by (induction vs) (auto simp: find_version_def split: if_splits)

text \<open>The version reviewed is the first of its identity; only it changes.\<close>

lemma update_version_split:
  assumes "find_version k vs = Some t"
  shows "\<exists>us ws. vs = us @ t # ws \<and> k \<notin> v_id ` set us \<and> update_version k f vs = us @ f t # ws"
  using assms
proof (induction vs)
  case (Cons v vs)
  show ?case
  proof (cases "v_id v = k")
    case True
    with Cons.prems show ?thesis
      by (intro exI [of _ "[]"] exI [of _ vs]) (auto simp: find_version_def)
  next
    case False
    with Cons obtain us ws where
      "vs = us @ t # ws \<and> k \<notin> v_id ` set us \<and> update_version k f vs = us @ f t # ws"
      by (auto simp: find_version_def)
    with False show ?thesis by (intro exI [of _ "v # us"] exI [of _ ws]) auto
  qed
qed (simp add: find_version_def)

lemma update_version_member:
  assumes "find_version k vs = Some t" "v \<in> set (update_version (v_id t) f vs)"
  shows "v \<in> set vs \<or> v = f t"
  using update_version_split [OF assms(1), of f] assms(2) find_versionD [OF assms(1)] by auto

lemma transition_cases:
  assumes "transition depth vs a actor indep now = Inr vs'"
  obtains t where "find_version (ca_version_id a) vs = Some t"
      "ca_action a = Archive \<or> ca_action a = Restore"
      "vs' = update_version (v_id t)
         (\<lambda>v. add_review a actor now (v\<lparr>v_archived := (ca_action a = Archive)\<rparr>)) vs"
  | t where "find_version (ca_version_id a) vs = Some t"
      "ca_action a \<noteq> Archive" "ca_action a \<noteq> Restore"
      "review_error depth vs t (ca_action a) actor indep = None"
      "vs' = update_version (v_id t)
         (\<lambda>v. add_review a actor now (v\<lparr>v_status := next_status (ca_action a)\<rparr>)) vs"
  using assms unfolding transition_def by (auto split: option.splits if_splits)

text \<open>What no operation on a recorded version touches.\<close>

definition frozen_part :: "version \<Rightarrow> version" where
  "frozen_part v = v\<lparr>v_status := Draft, v_archived := False, v_reviews := []\<rparr>"

text \<open>
  A review action changes one version: its position in the history, the content, checksum,
  dependencies and authorship of every version stay as they were; the version reviewed gains
  exactly one review, signed by the actor, at the end of its reviews.
\<close>

lemma transition_frame:
  assumes "transition depth vs a actor indep now = Inr vs'"
  shows "map frozen_part vs' = map frozen_part vs
    \<and> (\<exists>us t t' ws. vs = us @ t # ws \<and> vs' = us @ t' # ws \<and> v_id t = ca_version_id a
         \<and> v_reviews t' = v_reviews t @ [\<lparr>r_action = ca_action a, r_actor = actor,
                                              r_note = ca_note a, r_at = now\<rparr>])"
  using assms
proof (cases rule: transition_cases)
  case (1 t)
  from update_version_split [OF 1(1)] obtain us ws where
    "vs = us @ t # ws" "vs' = us @ add_review a actor now (t\<lparr>v_archived := (ca_action a = Archive)\<rparr>) # ws"
    using 1 find_versionD [OF 1(1)] by metis
  then show ?thesis
    using find_versionD [OF 1(1)]
    by (intro conjI exI [of _ us] exI [of _ t] exI [of _ ws] exI)
       (auto simp: frozen_part_def add_review_def)
next
  case (2 t)
  from update_version_split [OF 2(1)] obtain us ws where
    "vs = us @ t # ws"
    "vs' = us @ add_review a actor now (t\<lparr>v_status := next_status (ca_action a)\<rparr>) # ws"
    using 2 find_versionD [OF 2(1)] by metis
  then show ?thesis
    using find_versionD [OF 2(1)]
    by (intro conjI exI [of _ us] exI [of _ t] exI [of _ ws] exI)
       (auto simp: frozen_part_def add_review_def)
qed

subsection \<open>The page offers what the service accepts\<close>

lemma stale_upstream_iff:
  assumes "distinct (map v_id vs)"
  shows "stale_upstream depth vs d = (\<not> approval_current depth vs d)"
proof (cases "approval_current depth vs d")
  case True
  then have "approved depth vs d" by (simp add: approval_current_eq)
  then show ?thesis
    using True find_version_distinct [OF assms, of d]
    by cases (auto simp: stale_upstream_def version_usable_def)
qed (simp add: stale_upstream_def split: option.split)

text \<open>
  C12. The actions that the page offers an operator for a recorded version are exactly those that
  the service accepts from that operator: submit, approve and request for revision when the
  review succeeds, and of archive and restore (both of which the service always accepts) the one
  that changes something.
\<close>

theorem available_actions_accepted:
  assumes "distinct (map v_id vs)" "v \<in> set vs" "ca_version_id a = v_id v"
  shows "ca_action a \<in> set (available_actions depth vs indep v actor)
    \<longleftrightarrow> is_ok (transition depth vs a actor indep now)
        \<and> (ca_action a = Archive \<longrightarrow> \<not> v_archived v) \<and> (ca_action a = Restore \<longrightarrow> v_archived v)"
proof -
  have "by_id vs (v_id v) = Some v"
    using assms(2) by (simp add: by_id_iff [OF assms(1)])
  then have f: "find_version (ca_version_id a) vs = Some v"
    using find_version_distinct [OF assms(1)] assms(3) by simp
  have stale: "(\<exists>d \<in> set (v_dependencies v). stale_upstream depth vs d)
      \<longleftrightarrow> \<not> (\<forall>d \<in> set (v_dependencies v). approval_current depth vs d)"
    using stale_upstream_iff [OF assms(1)] by blast
  have ok: "is_ok (transition depth vs a actor indep now)
      \<longleftrightarrow> ca_action a = Archive \<or> ca_action a = Restore
          \<or> review_error depth vs v (ca_action a) actor indep = None"
    using f by (simp add: transition_def split: option.split)
  have issues: "validation_issues depth v = []
      \<longleftrightarrow> content_issues depth (v_kind v) (v_content v) = [] \<and> content_integrity v"
    by (simp add: validation_issues_def)
  show ?thesis
    unfolding ok
    by (cases "ca_action a")
       (simp_all add: available_actions_def review_error_def issues stale expected_status_def
          Let_def)
qed

subsection \<open>Approval and revocation\<close>

lemma superseded_update:
  "(\<And>v. v_replaces (f v) = v_replaces v) \<Longrightarrow> superseded (update_version k f vs) = superseded vs"
proof
  fix j
  assume f: "\<And>v. v_replaces (f v) = v_replaces v"
  have "superseded us j \<longleftrightarrow> Some j \<in> set (map v_replaces us)" for us
    by (force simp: superseded_def)
  then show "superseded (update_version k f vs) j = superseded vs j"
    by (simp only: map_update_version [of v_replaces f k vs, OF f])
qed

lemma by_id_update:
  assumes "distinct (map v_id vs)" "\<And>v. v_id (f v) = v_id v"
  shows "by_id (update_version k f vs) j = (if j = k then map_option f (by_id vs k) else by_id vs j)"
proof -
  have d: "distinct (map v_id (update_version k f vs))"
    using assms by (simp add: map_update_version)
  have "by_id (update_version k f vs) j = Some v
      \<longleftrightarrow> (if j = k then map_option f (by_id vs k) else by_id vs j) = Some v" for v
  proof (cases "find_version k vs")
    case None
    then have "by_id vs k = None"
      using find_version_distinct [OF assms(1), of k] by simp
    with update_version_none [OF None] show ?thesis by simp
  next
    case (Some t)
    from update_version_split [OF Some] obtain us ws where
      w: "vs = us @ t # ws" "update_version k f vs = us @ f t # ws" by blast
    have t: "v_id t = k" "by_id vs k = Some t"
      using find_versionD [OF Some] Some find_version_distinct [OF assms(1), of k] by simp_all
    have "\<forall>v \<in> set us \<union> set ws. v_id v \<noteq> k"
      using assms(1) t(1) by (auto simp: w(1) image_iff)
    moreover have s: "set (update_version k f vs) = insert (f t) (set us \<union> set ws)"
      "set vs = insert t (set us \<union> set ws)"
      by (simp_all add: w(2)) (simp add: w(1))
    ultimately show ?thesis
      unfolding by_id_iff [OF d] s
      using t assms(2)
      by (cases "j = k") (force simp: t(2), force simp: by_id_iff [OF assms(1)] s)
  qed
  then show ?thesis by (metis option.exhaust)
qed

text \<open>
  When an approval is accepted, the version approved is current at once, and no other
  version loses its approval.
\<close>

lemma approve_makes_current:
  assumes d: "distinct (map v_id vs)" and act: "ca_action a = Approve"
    and ok: "transition depth vs a actor indep now = Inr vs'"
  shows "approval_current depth vs' (ca_version_id a)
    \<and> (\<forall>k. approval_current depth vs k \<longrightarrow> approval_current depth vs' k)"
proof -
  from ok obtain t where f: "find_version (ca_version_id a) vs = Some t"
    and err: "review_error depth vs t Approve actor indep = None"
    and vs': "vs' = update_version (v_id t)
      (\<lambda>v. add_review a actor now (v\<lparr>v_status := Approved\<rparr>)) vs"
    by (cases rule: transition_cases) (use act in auto)
  let ?k = "ca_version_id a"
  let ?t = "add_review a actor now (t\<lparr>v_status := Approved\<rparr>)"
  have t: "v_id t = ?k" "by_id vs ?k = Some t"
    using find_versionD [OF f] f find_version_distinct [OF d, of ?k] by simp_all
  have look: "by_id vs' j = (if j = ?k then Some ?t else by_id vs j)" for j
    unfolding vs' t(1) by (subst by_id_update [OF d]) (simp_all add: add_review_def t)
  have sup: "superseded vs' = superseded vs"
    unfolding vs' by (rule superseded_update) (simp add: add_review_def)
  have err': "\<not> v_archived t" "\<not> superseded vs ?k" "v_status t = InReview" "content_integrity t"
    "content_issues depth (v_kind t) (v_content t) = []"
    "\<forall>d \<in> set (v_dependencies t). approval_current depth vs d"
    using err stale_upstream_iff [OF d] t(1)
    by (auto simp: review_error_def expected_status_def Let_def split: if_splits)
  have kept: "approved depth vs' k" if "approved depth vs k" for k
    using that
  proof induction
    case (approvedI k v)
    have "k \<noteq> ?k" using approvedI(1,2) t err'(3) by (auto simp: version_usable_def)
    with approvedI(1,2,3) show ?case
      by (intro approved.approvedI [of _ _ v]) (auto simp: look sup version_usable_def)
  qed
  have "approved depth vs' ?k"
  proof (rule approved.approvedI)
    show "by_id vs' ?k = Some ?t" by (simp add: look)
    show "version_usable depth vs' ?k ?t"
      using err' by (simp add: version_usable_def sup add_review_def content_integrity_def)
    show "\<forall>d \<in> set (v_dependencies ?t). approved depth vs' d"
      using err'(6) kept by (simp add: add_review_def approval_current_eq)
  qed
  with kept show ?thesis by (simp add: approval_current_eq)
qed

text \<open>
  A version whose dependencies lead to a version that is archived, replaced, not approved or
  changed after its approval is not current: approvals are revoked downstream.
\<close>

lemma approval_revoked_downstream:
  assumes "(k, d) \<in> (depends vs)\<^sup>*"
    and "by_id vs d = None \<or> superseded vs d
      \<or> (\<exists>v. by_id vs d = Some v \<and> (v_archived v \<or> v_status v \<noteq> Approved \<or> \<not> content_integrity v))"
  shows "\<not> approval_current depth vs k"
proof
  assume "approval_current depth vs k"
  with assms(1) have "approved depth vs d"
    by (auto simp: approval_current_eq intro: approved_upstream)
  then obtain v where "by_id vs d = Some v" "version_usable depth vs d v"
    by cases blast
  with assms(2) show False
    by (auto simp: version_usable_def)
qed

subsection \<open>Progress is consistent\<close>

lemma latest_ofD: "latest_of vs kind = Some v \<Longrightarrow> v \<in> set vs \<and> v_kind v = kind"
  by (auto simp: latest_of_def find_Some_iff) (metis nth_mem set_rev length_rev)

definition kind_done :: "nat \<Rightarrow> version list \<Rightarrow> string \<Rightarrow> bool" where
  "kind_done depth vs kind =
     (\<exists>v. latest_of vs kind = Some v \<and> \<not> v_archived v \<and> approval_current depth vs (v_id v))"

lemma approval_current_status:
  assumes "distinct (map v_id vs)" "v \<in> set vs" "approval_current depth vs (v_id v)"
  shows "v_status v = Approved"
proof -
  from assms(3) have "approved depth vs (v_id v)" by (simp add: approval_current_eq)
  then show ?thesis
  proof cases
    case (approvedI u)
    then have "u = v"
      using assms(1,2) by (auto simp: by_id_iff distinct_map inj_on_def)
    with approvedI show ?thesis by (simp add: version_usable_def)
  qed
qed

definition version_typed :: "version \<Rightarrow> bool" where
  "version_typed v =
     (v_kind v \<in> set KINDS \<and> v_status v \<in> {Draft, InReview, Approved}
      \<and> 1 \<le> length (v_id v) \<and> length (v_id v) \<le> 32 \<and> nul_free (v_id v))"

lemma progress_status_approved: "progress_status S = Approved \<longleftrightarrow> S = {Approved}"
  by (auto simp: progress_status_def)

text \<open>
  C13. For every history of typed versions the projection passes the validators of
  CycleProgress; it reports the cycle as approved exactly when the latest version of each of
  the six kinds is active and currently approved, and counts the kinds for which that holds.
\<close>

theorem cycle_progress_consistent:
  assumes d: "distinct (map v_id vs)" and typed: "\<forall>v \<in> set vs. version_typed v"
  shows "\<exists>p. cycle_progress depth vs = Inr p \<and> progress_valid p
    \<and> (cp_status p = Approved \<longleftrightarrow> (\<forall>kind \<in> set KINDS. kind_done depth vs kind))
    \<and> cp_approved p = length (filter (kind_done depth vs) KINDS)"
proof -
  let ?items = "map (progress_item depth vs) KINDS"
  let ?p = "\<lparr>cp_status = progress_status (dp_status ` set ?items),
             cp_approved = count_approved ?items, cp_total = 6, cp_deliverables = ?items\<rparr>"
  have done_iff: "dp_status (progress_item depth vs kind) = Approved \<longleftrightarrow> kind_done depth vs kind"
    for kind
    using approval_current_status [OF d] latest_ofD [of vs kind]
    by (auto simp: progress_item_def kind_done_def split: option.splits)
  have count: "count_approved ?items = length (filter (kind_done depth vs) KINDS)"
    by (simp add: count_approved_def filter_map comp_def done_iff)
  have kinds: "dp_kind (progress_item depth vs kind) = kind" for kind
    by (simp add: progress_item_def split: option.split)
  have item: "case dp_version_id (progress_item depth vs kind) of
        None \<Rightarrow> dp_status (progress_item depth vs kind) = NotStarted
      | Some k \<Rightarrow> dp_status (progress_item depth vs kind) \<noteq> NotStarted
          \<and> 1 \<le> length k \<and> length k \<le> 32 \<and> nul_free k" for kind
    using typed latest_ofD [of vs kind]
    by (force simp: progress_item_def version_typed_def split: option.split)
  have six: "count_approved ?items \<le> 6"
    unfolding count using length_filter_le [of "kind_done depth vs" KINDS]
    by (rule order_trans) (simp add: KINDS_def)
  have valid: "progress_valid ?p"
    using item six by (simp add: progress_valid_def kinds comp_def)
  moreover have "cycle_progress depth vs = Inr ?p"
    using typed valid by (auto simp: cycle_progress_def version_typed_def Let_def)
  moreover have "cp_status ?p = Approved \<longleftrightarrow> (\<forall>kind \<in> set KINDS. kind_done depth vs kind)"
  proof -
    have "KINDS \<noteq> []" by (simp add: KINDS_def)
    then show ?thesis
      by (auto simp: progress_status_approved image_image done_iff [symmetric])
         (metis (no_types, lifting) hd_in_set imageI)
  qed
  ultimately show ?thesis using count by (intro exI [of _ ?p]) simp
qed

subsection \<open>A reviewed postmortem\<close>

definition sample_content :: pydict where
  "sample_content = [(''findings'', PStr ''f''), (''factors'', PStr ''g''),
                     (''lessons'', PStr ''l''), (''actions'', PStr ''a'')]"

definition sample_version :: "deliverable_status \<Rightarrow> version" where
  "sample_version st = \<lparr>v_id = ''p1'', v_kind = ''postmortem'', v_title = ''t'',
     v_content = sample_content, v_checksum = the (version_digest sample_content),
     v_dependencies = [], v_replaces = None, v_change_summary = ''s'', v_status = st,
     v_created_by = ''ann'', v_created_at = ''now'', v_archived = False, v_reviews = [],
     v_origin = None\<rparr>"

definition sample_action :: "review_action \<Rightarrow> cycle_action" where
  "sample_action act = \<lparr>ca_expected_revision = 1, ca_action = act, ca_version_id = ''p1'',
                        ca_note = []\<rparr>"

definition is_scalar :: "pyval \<Rightarrow> bool" where
  "is_scalar v = (case v of PStr s \<Rightarrow> True | PInt i \<Rightarrow> True | _ \<Rightarrow> False)"

lemma json_dumps_scalars:
  assumes "\<forall>p \<in> set d. is_scalar (snd p)"
  shows "json_dumps sk ascii nan (PDict d) \<noteq> None"
proof -
  have "json_dumps sk ascii nan v \<noteq> None" if "is_scalar v" for v
    using that by (cases v) (simp_all add: is_scalar_def)
  with assms show ?thesis by (force simp: Let_def)
qed

text \<open>A content whose checksum is recorded with it.\<close>

lemma integrity_of_digest:
  assumes "\<forall>p \<in> set (v_content v). is_scalar (snd p)"
    and "v_checksum v = the (version_digest (v_content v))"
  shows "content_integrity v"
  using json_dumps_scalars [OF assms(1), of True True False] assms(2)
  by (auto simp: content_integrity_def version_digest_def)

lemma sample_integrity: "content_integrity (sample_version st)"
  by (rule integrity_of_digest)
     (simp_all add: sample_version_def sample_content_def is_scalar_def)

lemma postmortem_fields: "fields_of_kind ''postmortem'' =
    [field_of ''findings'' ''Findings'', field_of ''factors'' ''Contributing factors'',
     field_of ''lessons'' ''Lessons learned'',
     field_of ''actions'' ''Follow-up actions, owners and status'']"
  by (simp add: fields_of_kind_def DELIVERABLE_FIELDS_def)

lemma letter_not_blank: "\<not> blank [c] \<longleftrightarrow> \<not> is_space c"
  by (simp add: blank_iff)

lemma sample_issues: "content_issues 9 ''postmortem'' sample_content = []"
  unfolding content_issues_def Let_def postmortem_fields
  by (simp add: sample_content_def field_issues_def field_of_def unset_def letter_not_blank
      is_space_def dget_def)

lemma sample_approval_run:
  "transition 9 [sample_version InReview] (sample_action Approve) ''bob'' True ''at''
   = Inr [add_review (sample_action Approve) ''bob'' ''at'' (sample_version Approved)]"
  using sample_integrity [of InReview]
  by (simp add: transition_def find_version_def review_error_def sample_action_def superseded_def
      expected_status_def add_review_def sample_issues sample_version_def Let_def)

theorem available_actions_accepted_witness:
  "Approve \<in> set (available_actions 9 [sample_version InReview] True (sample_version InReview) ''bob'')"
  using available_actions_accepted [of "[sample_version InReview]" "sample_version InReview"
      "sample_action Approve" 9 True "''bob''" "''at''"] sample_approval_run
  by (simp add: sample_action_def sample_version_def)

theorem cycle_progress_consistent_witness:
  "\<exists>p. cycle_progress 9 [sample_version Draft] = Inr p \<and> cp_status p \<noteq> Approved"
proof -
  have "version_typed (sample_version Draft)"
    by (simp add: version_typed_def sample_version_def KINDS_def nul_free_def)
  moreover have "\<not> kind_done 9 [sample_version Draft] ''scope''" "''scope'' \<in> set KINDS"
    by (simp_all add: kind_done_def latest_of_def sample_version_def KINDS_def)
  ultimately show ?thesis
    using cycle_progress_consistent [of "[sample_version Draft]" 9] by fastforce
qed

end
