(* ===== verification/Cycle_Executions.thy ===== *)
theory Cycle_Executions
  imports Cycles
begin

text \<open>
  Preparation of an execution from approved versions and the projection of its prerequisites
  (src/apex/domain/cycle_executions.py). Times are microseconds; the current time and what the
  database says of the target, connection and inventory are arguments.
\<close>

subsection \<open>Preparation\<close>

record prepare_execution =
  pe_plan_version_id :: string
  pe_script_version_id :: string
  pe_readiness_version_id :: "string option"
  pe_connection_id :: "string option"
  pe_launch_authority :: string

record execution_snapshot =
  es_plan_version_id :: string
  es_plan_title :: string
  es_plan_checksum :: string
  es_script_version_id :: string
  es_script_title :: string
  es_script_checksum :: string
  es_script_source_checksum :: string
  es_script_format :: string
  es_readiness_version_id :: "string option"
  es_readiness_checksum :: "string option"
  es_engine :: string
  es_mode :: string
  es_environment_id :: string
  es_environment_version :: "int option"
  es_connection_id :: "string option"
  es_connection_version :: "string option"
  es_launch_authority :: string
  es_script_artifact_id :: "string option"
  es_workload :: pydict

definition approved_version :: "nat \<Rightarrow> version list \<Rightarrow> string \<Rightarrow> string \<Rightarrow> version res" where
  "approved_version depth vs k kind =
     (case find_version k vs of
        None \<Rightarrow> Inl (ValueError (''Select a current approved '' @ underscore_spaces kind @ '' version''))
      | Some v \<Rightarrow>
          if v_kind v \<noteq> kind \<or> \<not> approval_current depth vs k
          then Inl (ValueError (''Select a current approved '' @ underscore_spaces kind @ '' version''))
          else if \<not> content_integrity v
          then Inl (ValueError ''Deliverable content no longer matches its approved checksum'')
          else Inr v)"

text \<open>\<open>content[key]\<close> where the caller goes on with a string.\<close>

definition content_text :: "pydict \<Rightarrow> string \<Rightarrow> string res" where
  "content_text content k =
     (case map_of content k of
        None \<Rightarrow> Inl (KeyError k)
      | Some (PStr s) \<Rightarrow> Inr s
      | Some _ \<Rightarrow> Inl (TypeError k))"

definition workload_slas :: "pydict \<Rightarrow> pydict" where
  "workload_slas content =
     map (\<lambda>(k, sla). (sla, dget content k))
       (filter (\<lambda>(k, sla). \<not> unset (dget content k))
          [(''p95_ms_threshold'', ''p95_ms''), (''error_rate_threshold'', ''error_rate'')])"

definition plan_workload :: "pydict \<Rightarrow> pydict" where
  "plan_workload content =
     map (\<lambda>k. (k, dget content k)) [''vusers'', ''ramp_s'', ''duration_s'']
     @ [(''slas'', PDict (workload_slas content))]
     @ (if unset (dget content ''arrival_rate'') then []
        else [(''arrival_rate'', dget content ''arrival_rate'')])"

definition readiness_of ::
  "nat \<Rightarrow> version list \<Rightarrow> string option \<Rightarrow> string \<Rightarrow> version option res" where
  "readiness_of depth vs k plan_id =
     (case k of
        None \<Rightarrow> Inr None
      | Some r \<Rightarrow>
          rbind (approved_version depth vs r ''readiness'') (\<lambda>v.
          if plan_id \<notin> set (v_dependencies v)
          then Inl (ValueError ''Readiness must reference the selected approved test-plan version'')
          else Inr (Some v)))"

definition prepare_snapshot ::
  "nat \<Rightarrow> prepare_execution \<Rightarrow> version list \<Rightarrow> string \<Rightarrow> string \<Rightarrow> int option \<Rightarrow> string option
   \<Rightarrow> execution_snapshot res" where
  "prepare_snapshot depth q vs mode env env_version conn_version =
     rbind (approved_version depth vs (pe_plan_version_id q) ''test_plan'') (\<lambda>plan.
     rbind (approved_version depth vs (pe_script_version_id q) ''script'') (\<lambda>script.
     rbind (ensure (v_id plan \<in> set (v_dependencies script))
       (ValueError ''The script must reference the selected approved test-plan version'')) (\<lambda>_.
     rbind (readiness_of depth vs (pe_readiness_version_id q) (v_id plan)) (\<lambda>ready.
     rbind (content_text (v_content script) ''engine'') (\<lambda>engine.
     rbind (ensure (\<not> (pe_launch_authority q = ''native_schedule'' \<and> engine \<noteq> ''apex-load''))
       (ValueError ''Native schedule ownership is supported only for APEX Load'')) (\<lambda>_.
     rbind (content_text (v_content script) ''source'') (\<lambda>source.
     rbind (content_text (v_content script) ''format'') (\<lambda>fmt.
     rbind (ensure (engine \<in> {''apex-load'', ''loadrunner''}) (ValueError ''engine'')) (\<lambda>_.
     Inr \<lparr>es_plan_version_id = v_id plan, es_plan_title = v_title plan,
          es_plan_checksum = v_checksum plan, es_script_version_id = v_id script,
          es_script_title = v_title script, es_script_checksum = v_checksum script,
          es_script_source_checksum = sha256_hex (utf8 source), es_script_format = fmt,
          es_readiness_version_id = map_option v_id ready,
          es_readiness_checksum = map_option v_checksum ready, es_engine = engine,
          es_mode = mode, es_environment_id = env, es_environment_version = env_version,
          es_connection_id = pe_connection_id q, es_connection_version = conn_version,
          es_launch_authority = pe_launch_authority q, es_script_artifact_id = None,
          es_workload = plan_workload (v_content plan)\<rparr>)))))))))"

subsection \<open>The workload contract\<close>

text \<open>\<open>LoadTestSpec.model_validate({"title": ..., **workload}, strict=True)\<close>
  (src/apex/domain/integrations.py): the fields that a workload sets.\<close>

definition strict_int :: "pyval \<Rightarrow> int \<Rightarrow> int \<Rightarrow> bool" where
  "strict_int v lo hi = (case v of PInt i \<Rightarrow> lo \<le> i \<and> i \<le> hi | _ \<Rightarrow> False)"

text \<open>A strict float field: an int or a finite float, and no bool.\<close>

definition strict_float :: "pyval \<Rightarrow> (rat \<Rightarrow> bool) \<Rightarrow> bool" where
  "strict_float v ok = (case number_of v of Some x \<Rightarrow> ok x | None \<Rightarrow> False)"

definition sla_ok :: "string \<times> pyval \<Rightarrow> bool" where
  "sla_ok kv =
     (\<not> blank (fst kv) \<and> length (fst kv) \<le> 64 \<and> nul_free (fst kv)
      \<and> strict_float (snd kv) (\<lambda>x. 0 \<le> x \<and> x \<le> 1000000000000
          \<and> (fst kv = ''error_rate'' \<longrightarrow> x \<le> 1)))"

definition slas_ok :: "pyval \<Rightarrow> bool" where
  "slas_ok v = (case v of PDict d \<Rightarrow> length d \<le> 32 \<and> list_all sla_ok d | _ \<Rightarrow> False)"

definition SPEC_WORKLOAD_FIELDS :: "string list" where
  "SPEC_WORKLOAD_FIELDS = [''vusers'', ''ramp_s'', ''duration_s'', ''slas'']"

definition workload_ok :: "pydict \<Rightarrow> bool" where
  "workload_ok w =
     (let d = ddel ''arrival_rate'' w
      in fst ` set d \<subseteq> set SPEC_WORKLOAD_FIELDS
         \<and> (dhas d ''vusers'' \<longrightarrow> strict_int (dget d ''vusers'') 1 10000)
         \<and> (dhas d ''ramp_s'' \<longrightarrow> strict_float (dget d ''ramp_s'') (\<lambda>x. 0 \<le> x \<and> x \<le> 86400))
         \<and> (dhas d ''duration_s'' \<longrightarrow> strict_float (dget d ''duration_s'') (\<lambda>x. 0 < x \<and> x \<le> 86400))
         \<and> (dhas d ''slas'' \<longrightarrow> slas_ok (dget d ''slas'')))"

subsection \<open>Preflight checks\<close>

datatype check_status = Ready | Blocked | NotChecked

record preflight_check =
  pc_key :: string
  pc_label :: string
  pc_status :: check_status
  pc_detail :: string

definition check_of :: "string \<Rightarrow> string \<Rightarrow> bool \<Rightarrow> string \<Rightarrow> string \<Rightarrow> preflight_check" where
  "check_of key label ok good wrong =
     \<lparr>pc_key = key, pc_label = label, pc_status = (if ok then Ready else Blocked),
      pc_detail = (if ok then good else wrong)\<rparr>"

text \<open>The version is still approved and still the bytes that the snapshot bound.\<close>

definition binding_current ::
  "nat \<Rightarrow> version list \<Rightarrow> string option \<Rightarrow> string option \<Rightarrow> bool" where
  "binding_current depth vs k checksum =
     (case Option.bind k (\<lambda>i. find_version i vs) of
        None \<Rightarrow> False
      | Some v \<Rightarrow>
          approval_current depth vs (v_id v) \<and> Some (v_checksum v) = checksum \<and> content_integrity v)"

definition day_us :: int where
  "day_us = 24 * 3600 * 1000000"

definition inventory_fresh :: "int \<Rightarrow> int option \<Rightarrow> bool" where
  "inventory_fresh now scanned =
     (case scanned of None \<Rightarrow> False | Some t \<Rightarrow> 0 \<le> now - t \<and> now - t \<le> day_us)"

definition opt_int_value :: "int option \<Rightarrow> pyval" where
  "opt_int_value i = (case i of None \<Rightarrow> PNone | Some n \<Rightarrow> PInt n)"

record preflight_facts =
  pf_target_version :: "int option"
  pf_target_valid :: bool
  pf_connection_valid :: bool
  pf_connection_version :: "string option"
  pf_inventory_id :: "string option"
  pf_inventory_at :: "int option"
  pf_now :: int

definition readiness_evidence ::
  "execution_snapshot \<Rightarrow> version list \<Rightarrow> preflight_facts \<Rightarrow> bool" where
  "readiness_evidence snap vs f =
     (let content = (case Option.bind (es_readiness_version_id snap) (\<lambda>i. find_version i vs) of
                       None \<Rightarrow> [] | Some v \<Rightarrow> v_content v)
      in dget content ''status'' = PStr ''ready''
         \<and> pf_inventory_id f \<noteq> None
         \<and> dget content ''inventory_snapshot_id'' = PStr (the (pf_inventory_id f))
         \<and> inventory_fresh (pf_now f) (pf_inventory_at f)
         \<and> py_eq (dget content ''target_version'') (opt_int_value (pf_target_version f)))"

definition approval_check ::
  "nat \<Rightarrow> version list \<Rightarrow> string \<Rightarrow> string \<Rightarrow> string option \<Rightarrow> string option \<Rightarrow> preflight_check" where
  "approval_check depth vs kind label k checksum =
     check_of kind (label @ '' approval'') (binding_current depth vs k checksum)
       ''Exact approved content is still current.''
       (''Select a current approved '' @ kind @ '' and prepare a new execution binding.'')"

definition note_of :: "string \<Rightarrow> string \<Rightarrow> check_status \<Rightarrow> string \<Rightarrow> preflight_check" where
  "note_of key label st detail =
     \<lparr>pc_key = key, pc_label = label, pc_status = st, pc_detail = detail\<rparr>"

definition execution_checks ::
  "nat \<Rightarrow> execution_snapshot \<Rightarrow> version list \<Rightarrow> preflight_facts \<Rightarrow> preflight_check list" where
  "execution_checks depth snap vs f =
     [approval_check depth vs ''plan'' ''Plan'' (Some (es_plan_version_id snap))
        (Some (es_plan_checksum snap)),
      approval_check depth vs ''script'' ''Script'' (Some (es_script_version_id snap))
        (Some (es_script_checksum snap)),
      approval_check depth vs ''readiness'' ''Readiness'' (es_readiness_version_id snap)
        (es_readiness_checksum snap),
      check_of ''target'' ''Approved environment target''
        (pf_target_valid f \<and> pf_target_version f = es_environment_version snap)
        ''The approved target version matches this binding.''
        (''Approve the environment target or prepare a new binding after its configuration ''
         @ ''changes.''),
      check_of ''connection'' ''Execution connection configuration''
        (es_mode snap = ''simulation''
         \<or> (pf_connection_valid f \<and> pf_connection_version f = es_connection_version snap))
        (if es_mode snap = ''simulation''
         then ''Simulation selected; no live connection will be used.''
         else ''Connection is enabled, project-scoped and matches the recorded runtime version.'')
        (''Select an enabled connection for this project and engine, then prepare a new ''
         @ ''binding.''),
      check_of ''readiness_evidence'' ''Environment readiness evidence''
        (readiness_evidence snap vs f)
        (''Approved readiness references the latest inventory scan, under ''
         @ ''24 hours old, and target version.'')
        (''Rescan the environment and approve readiness with the latest ''
         @ ''snapshot ID, target version and Ready assessment.''),
      check_of ''workload'' ''Engine workload limits'' (workload_ok (es_workload snap))
        ''Concurrency, ramp and duration fit the current execution contract.''
        (''Revise the plan: execution supports 1-10,000 integer concurrent ''
         @ ''users and at most 24 hours ramp/duration.''),
      check_of ''thresholds'' ''Machine-readable thresholds''
        (truthy (dget (es_workload snap) ''slas''))
        ''Threshold values are frozen with the workload.''
        (''Add numeric latency or error-rate thresholds to the approved ''
         @ ''plan; prose is not execution configuration.'')]
     @ (if dhas (es_workload snap) ''arrival_rate''
        then [note_of ''arrival_rate'' ''Arrival-rate scheduling'' Blocked
                (''The pipeline execution contract does not support arrival-rate ''
                 @ ''scheduling. Revise the workload; arrival rate will not be silently ignored.'')]
        else [])
     @ [note_of ''provider_access'' ''Provider readiness and capacity'' NotChecked
          (if es_mode snap = ''live''
           then ''Provider capacity and launch bindings have not been verified. ''
                @ ''Source validation is recorded separately.''
           else ''This is a simulation preparation; it does not verify live ''
                @ ''provider access or capacity.''),
        check_of ''script_storage'' ''Approved source stored in APEX''
          (es_script_artifact_id snap \<noteq> None)
          (''A checksum-verified source snapshot was stored when this preparation was created. ''
           @ ''Availability must be rechecked before launch.'')
          ''Store this approved script in the script library, then prepare a new execution.'',
        note_of ''script_binding'' ''Immutable provider script binding'' NotChecked
          (''Approved content is frozen in APEX. Dispatch checks re-read the stored source ''
           @ ''and verify the exact provider copy before launching.''),
        note_of ''launch_authority'' ''Launch ownership''
          (if es_launch_authority snap = ''native_schedule'' then Blocked else NotChecked)
          (if es_launch_authority snap = ''native_schedule''
           then ''The native APEX Load schedule owns launching. Reconcile its ''
                @ ''runs; do not launch a duplicate pipeline execution.''
           else ''Use this preparation's Dispatch checks to launch its exact approved source. ''
                @ ''Creating a preparation alone does not launch a pipeline.'')]"

text \<open>The rows that dispatch keeps (src/apex/services/cycle_dispatch.py) and its verdict.\<close>

definition dispatch_checks ::
  "nat \<Rightarrow> execution_snapshot \<Rightarrow> version list \<Rightarrow> preflight_facts \<Rightarrow> preflight_check list" where
  "dispatch_checks depth snap vs f =
     filter (\<lambda>c. pc_key c \<notin> {''provider_access'', ''script_binding'', ''launch_authority''})
       (execution_checks depth snap vs f)"

definition any_blocked :: "preflight_check list \<Rightarrow> bool" where
  "any_blocked cs = (\<exists>c \<in> set cs. pc_status c = Blocked)"

subsection \<open>A preparation binds approved content\<close>

lemma approved_version_InrD:
  "approved_version depth vs k kind = Inr v \<Longrightarrow>
   find_version k vs = Some v \<and> v_id v = k \<and> v_kind v = kind \<and> approval_current depth vs k
   \<and> content_integrity v"
  by (auto simp: approved_version_def split: option.splits if_splits dest: find_versionD)

lemma approved_binding:
  "approved_version depth vs k kind = Inr v \<Longrightarrow>
   binding_current depth vs (Some (v_id v)) (Some (v_checksum v))"
  by (drule approved_version_InrD) (auto simp: binding_current_def)

lemma readiness_of_InrD:
  "readiness_of depth vs k plan = Inr (Some v) \<Longrightarrow>
   (\<exists>r. k = Some r \<and> approved_version depth vs r ''readiness'' = Inr v) \<and> plan \<in> set (v_dependencies v)"
  by (auto simp: readiness_of_def rbind_Inr_iff split: option.splits if_splits)

lemma prepare_snapshot_cases:
  assumes "prepare_snapshot depth q vs mode env ev cv = Inr snap"
  obtains plan script ready where
    "approved_version depth vs (pe_plan_version_id q) ''test_plan'' = Inr plan"
    "approved_version depth vs (pe_script_version_id q) ''script'' = Inr script"
    "v_id plan \<in> set (v_dependencies script)"
    "readiness_of depth vs (pe_readiness_version_id q) (v_id plan) = Inr ready"
    "es_plan_version_id snap = v_id plan" "es_plan_checksum snap = v_checksum plan"
    "es_script_version_id snap = v_id script" "es_script_checksum snap = v_checksum script"
    "es_readiness_version_id snap = map_option v_id ready"
    "es_readiness_checksum snap = map_option v_checksum ready"
    "es_workload snap = plan_workload (v_content plan)" "es_script_artifact_id snap = None"
    "es_engine snap \<in> {''apex-load'', ''loadrunner''}"
    "es_launch_authority snap = ''native_schedule'' \<longrightarrow> es_engine snap = ''apex-load''"
  using assms unfolding prepare_snapshot_def
  by (simp only: rbind_Inr_iff ensure_Inr_iff) (elim exE conjE, auto)

text \<open>The version that an id and a checksum bind: of that kind, approved now, with intact content.\<close>

definition bound_version :: "nat \<Rightarrow> version list \<Rightarrow> string \<Rightarrow> string \<Rightarrow> string \<Rightarrow> version \<Rightarrow> bool" where
  "bound_version depth vs kind k checksum v =
     (find_version k vs = Some v \<and> v_kind v = kind \<and> v_checksum v = checksum
      \<and> content_integrity v \<and> approval_current depth vs k)"

text \<open>
  C17. A prepared snapshot binds exactly the plan, the script and the readiness that were chosen,
  each currently approved with intact content and under its checksum; the script and the readiness
  were written against that very plan, whose workload it freezes. Checked against the same
  history, its plan and script rows and, where a readiness was chosen, its readiness row are ready.
\<close>

theorem prepare_snapshot_binds:
  assumes "prepare_snapshot depth q vs mode env ev cv = Inr snap"
  shows "(\<exists>plan script. bound_version depth vs ''test_plan'' (es_plan_version_id snap) (es_plan_checksum snap) plan
       \<and> bound_version depth vs ''script'' (es_script_version_id snap) (es_script_checksum snap) script
       \<and> es_plan_version_id snap \<in> set (v_dependencies script)
       \<and> es_workload snap = plan_workload (v_content plan))
    \<and> es_plan_version_id snap = pe_plan_version_id q \<and> es_script_version_id snap = pe_script_version_id q
    \<and> es_readiness_version_id snap = pe_readiness_version_id q
    \<and> (\<forall>r. pe_readiness_version_id q = Some r \<longrightarrow>
         (\<exists>ready c. es_readiness_checksum snap = Some c
            \<and> bound_version depth vs ''readiness'' r c ready
            \<and> es_plan_version_id snap \<in> set (v_dependencies ready)))
    \<and> (\<forall>c \<in> set (execution_checks depth snap vs f).
         pc_key c \<in> {''plan'', ''script''}
         \<or> (pc_key c = ''readiness'' \<and> pe_readiness_version_id q \<noteq> None)
         \<longrightarrow> pc_status c = Ready)"
proof -
  from assms obtain plan script ready where
    s: "approved_version depth vs (pe_plan_version_id q) ''test_plan'' = Inr plan"
      "approved_version depth vs (pe_script_version_id q) ''script'' = Inr script"
      "v_id plan \<in> set (v_dependencies script)"
      "readiness_of depth vs (pe_readiness_version_id q) (v_id plan) = Inr ready"
    and snap: "es_plan_version_id snap = v_id plan" "es_plan_checksum snap = v_checksum plan"
      "es_script_version_id snap = v_id script" "es_script_checksum snap = v_checksum script"
      "es_readiness_version_id snap = map_option v_id ready"
      "es_readiness_checksum snap = map_option v_checksum ready"
      "es_workload snap = plan_workload (v_content plan)"
    by (rule prepare_snapshot_cases)
  note plan = approved_version_InrD [OF s(1)] and script = approved_version_InrD [OF s(2)]
  have chosen: "\<exists>v. ready = Some v \<and> v_id v = r \<and> bound_version depth vs ''readiness'' r (v_checksum v) v
      \<and> binding_current depth vs (Some r) (Some (v_checksum v)) \<and> v_id plan \<in> set (v_dependencies v)"
    if r: "pe_readiness_version_id q = Some r" for r
  proof -
    from r s(4) obtain v where v: "ready = Some v"
      by (auto simp: readiness_of_def rbind_Inr_iff split: option.splits if_splits)
    with readiness_of_InrD [of depth vs "pe_readiness_version_id q" "v_id plan" v] s(4) r
    have "approved_version depth vs r ''readiness'' = Inr v" and "v_id plan \<in> set (v_dependencies v)"
      by simp_all
    with approved_version_InrD [OF this(1)] approved_binding [OF this(1)] v show ?thesis
      by (simp add: bound_version_def)
  qed
  have none: "ready = None" if "pe_readiness_version_id q = None"
    using s(4) that by (simp add: readiness_of_def)
  have "\<forall>c \<in> set (execution_checks depth snap vs f).
      pc_key c \<in> {''plan'', ''script''}
      \<or> (pc_key c = ''readiness'' \<and> pe_readiness_version_id q \<noteq> None)
      \<longrightarrow> pc_status c = Ready"
    using approved_binding [OF s(1)] approved_binding [OF s(2)] chosen
    by (cases "pe_readiness_version_id q")
      (auto simp: execution_checks_def approval_check_def check_of_def note_of_def snap)
  moreover have "es_readiness_version_id snap = pe_readiness_version_id q"
    using chosen none by (cases "pe_readiness_version_id q") (auto simp: snap)
  moreover have "\<forall>r. pe_readiness_version_id q = Some r \<longrightarrow>
         (\<exists>ready c. es_readiness_checksum snap = Some c
            \<and> bound_version depth vs ''readiness'' r c ready
            \<and> es_plan_version_id snap \<in> set (v_dependencies ready))"
    using chosen by (fastforce simp: snap)
  moreover have "bound_version depth vs ''test_plan'' (v_id plan) (v_checksum plan) plan"
    "bound_version depth vs ''script'' (v_id script) (v_checksum script) script"
    using plan script by (simp_all add: bound_version_def)
  ultimately show ?thesis
    using plan script s(3) by (auto simp: snap)
qed

subsection \<open>The dispatch gate\<close>

lemma binding_currentD:
  "binding_current depth vs k c \<Longrightarrow>
   \<exists>i v. k = Some i \<and> find_version i vs = Some v \<and> approval_current depth vs i
      \<and> c = Some (v_checksum v) \<and> content_integrity v"
  by (auto simp: binding_current_def bind_eq_Some_conv split: option.splits dest: find_versionD)

definition blocked :: "preflight_check \<Rightarrow> bool" where
  "blocked c = (pc_status c = Blocked)"

lemma blocked_check [simp]: "blocked (check_of k l ok g w) \<longleftrightarrow> \<not> ok"
  by (simp add: blocked_def check_of_def)

lemma blocked_note [simp]: "blocked (note_of k l st d) \<longleftrightarrow> st = Blocked"
  by (simp add: blocked_def note_of_def)

lemma key_check [simp]: "pc_key (check_of k l ok g w) = k"
  by (simp add: check_of_def)

lemma key_note [simp]: "pc_key (note_of k l st d) = k"
  by (simp add: note_of_def)

lemma any_blocked_dispatch:
  "any_blocked (dispatch_checks depth snap vs f)
   \<longleftrightarrow> (\<exists>c \<in> set (execution_checks depth snap vs f).
          pc_key c \<notin> {''provider_access'', ''script_binding'', ''launch_authority''} \<and> blocked c)"
  by (auto simp: any_blocked_def dispatch_checks_def blocked_def)

lemma dispatch_clear:
  assumes "\<not> any_blocked (dispatch_checks depth snap vs f)"
  shows "binding_current depth vs (Some (es_plan_version_id snap)) (Some (es_plan_checksum snap))
    \<and> binding_current depth vs (Some (es_script_version_id snap)) (Some (es_script_checksum snap))
    \<and> binding_current depth vs (es_readiness_version_id snap) (es_readiness_checksum snap)
    \<and> pf_target_valid f \<and> pf_target_version f = es_environment_version snap
    \<and> (es_mode snap = ''simulation''
        \<or> (pf_connection_valid f \<and> pf_connection_version f = es_connection_version snap))
    \<and> readiness_evidence snap vs f \<and> workload_ok (es_workload snap)
    \<and> truthy (dget (es_workload snap) ''slas'') \<and> es_script_artifact_id snap \<noteq> None
    \<and> \<not> dhas (es_workload snap) ''arrival_rate''"
  using assms unfolding any_blocked_dispatch execution_checks_def approval_check_def
  by (simp split: if_split_asm)

lemma plan_workload_members:
  "dget (plan_workload c) ''vusers'' = dget c ''vusers''"
  "dget (plan_workload c) ''slas'' = PDict (workload_slas c)"
  "dhas (plan_workload c) ''arrival_rate'' = (\<not> unset (dget c ''arrival_rate''))"
  by (simp_all add: plan_workload_def dget_def dhas_def)

lemma workload_ok_members:
  assumes "workload_ok (plan_workload c)"
  shows "strict_int (dget c ''vusers'') 1 10000"
    "strict_float (dget c ''ramp_s'') (\<lambda>x. 0 \<le> x \<and> x \<le> 86400)"
    "strict_float (dget c ''duration_s'') (\<lambda>x. 0 < x \<and> x \<le> 86400)"
    "list_all sla_ok (workload_slas c)"
proof -
  let ?d = "ddel ''arrival_rate'' (plan_workload c)"
  have "dhas ?d ''vusers'' \<and> dget ?d ''vusers'' = dget c ''vusers''"
    "dhas ?d ''ramp_s'' \<and> dget ?d ''ramp_s'' = dget c ''ramp_s''"
    "dhas ?d ''duration_s'' \<and> dget ?d ''duration_s'' = dget c ''duration_s''"
    "dhas ?d ''slas'' \<and> dget ?d ''slas'' = PDict (workload_slas c)"
    by (simp_all add: dhas_def dget_def map_of_ddel plan_workload_def)
  with assms show "strict_int (dget c ''vusers'') 1 10000"
    "strict_float (dget c ''ramp_s'') (\<lambda>x. 0 \<le> x \<and> x \<le> 86400)"
    "strict_float (dget c ''duration_s'') (\<lambda>x. 0 < x \<and> x \<le> 86400)"
    "list_all sla_ok (workload_slas c)"
    unfolding workload_ok_def Let_def by (simp_all add: slas_ok_def)
qed

text \<open>
  C18. No blocked row remains at dispatch only if the exact plan, script and readiness of the
  preparation are still approved and unchanged and the script is stored, the approved target and
  the connection are the recorded ones, the readiness is assessed as ready for that target against
  the latest inventory scan, at most a day old, and the plan's workload is within the execution
  contract: its users, its ramp, its duration and its numeric thresholds within their bounds, at
  least one threshold, and no arrival rate.
\<close>

theorem dispatch_gate_sound:
  assumes "\<not> any_blocked (dispatch_checks depth snap vs f)"
    and "es_workload snap = plan_workload content"
  shows "(\<exists>plan. find_version (es_plan_version_id snap) vs = Some plan
          \<and> v_checksum plan = es_plan_checksum snap \<and> content_integrity plan)
    \<and> approval_current depth vs (es_plan_version_id snap)
    \<and> (\<exists>script. find_version (es_script_version_id snap) vs = Some script
          \<and> v_checksum script = es_script_checksum snap \<and> content_integrity script)
    \<and> approval_current depth vs (es_script_version_id snap) \<and> es_script_artifact_id snap \<noteq> None
    \<and> (\<exists>r v i. es_readiness_version_id snap = Some r \<and> find_version r vs = Some v
          \<and> es_readiness_checksum snap = Some (v_checksum v) \<and> content_integrity v
          \<and> approval_current depth vs r \<and> dget (v_content v) ''status'' = PStr ''ready''
          \<and> pf_inventory_id f = Some i \<and> dget (v_content v) ''inventory_snapshot_id'' = PStr i
          \<and> py_eq (dget (v_content v) ''target_version'') (opt_int_value (pf_target_version f)))
    \<and> (\<exists>t. pf_inventory_at f = Some t \<and> t \<le> pf_now f \<and> pf_now f \<le> t + 86400000000)
    \<and> pf_target_valid f \<and> pf_target_version f = es_environment_version snap
    \<and> (es_mode snap = ''simulation''
        \<or> pf_connection_valid f \<and> pf_connection_version f = es_connection_version snap)
    \<and> (\<exists>n. dget content ''vusers'' = PInt n \<and> 1 \<le> n \<and> n \<le> 10000)
    \<and> (\<exists>x. number_of (dget content ''ramp_s'') = Some x \<and> 0 \<le> x \<and> x \<le> 86400)
    \<and> (\<exists>x. number_of (dget content ''duration_s'') = Some x \<and> 0 < x \<and> x \<le> 86400)
    \<and> (unset (dget content ''p95_ms_threshold'')
        \<or> (\<exists>x. number_of (dget content ''p95_ms_threshold'') = Some x \<and> 0 \<le> x \<and> x \<le> 1000000000000))
    \<and> (unset (dget content ''error_rate_threshold'')
        \<or> (\<exists>x. number_of (dget content ''error_rate_threshold'') = Some x \<and> 0 \<le> x \<and> x \<le> 1))
    \<and> \<not> (unset (dget content ''p95_ms_threshold'') \<and> unset (dget content ''error_rate_threshold''))
    \<and> unset (dget content ''arrival_rate'')"
proof -
  note c = dispatch_clear [OF assms(1)]
  from c have b: "binding_current depth vs (Some (es_plan_version_id snap)) (Some (es_plan_checksum snap))"
    "binding_current depth vs (Some (es_script_version_id snap)) (Some (es_script_checksum snap))"
    "binding_current depth vs (es_readiness_version_id snap) (es_readiness_checksum snap)"
    by blast+
  from binding_currentD [OF b(3)] obtain r v where r: "es_readiness_version_id snap = Some r"
    "find_version r vs = Some v" "approval_current depth vs r"
    "es_readiness_checksum snap = Some (v_checksum v)" "content_integrity v" by blast
  from c have e: "readiness_evidence snap vs f" by blast
  with r have ready: "dget (v_content v) ''status'' = PStr ''ready''"
    "\<exists>i. pf_inventory_id f = Some i \<and> dget (v_content v) ''inventory_snapshot_id'' = PStr i"
    "py_eq (dget (v_content v) ''target_version'') (opt_int_value (pf_target_version f))"
    and fresh: "inventory_fresh (pf_now f) (pf_inventory_at f)"
    by (auto simp: readiness_evidence_def Let_def)
  have scan: "\<exists>t. pf_inventory_at f = Some t \<and> t \<le> pf_now f \<and> pf_now f \<le> t + 86400000000"
    using fresh by (auto simp: inventory_fresh_def day_us_def split: option.splits)
  from c have ok: "workload_ok (plan_workload content)" by (simp add: assms(2))
  note m = workload_ok_members [OF ok]
  have load: "\<exists>n. dget content ''vusers'' = PInt n \<and> 1 \<le> n \<and> n \<le> 10000"
    "\<exists>x. number_of (dget content ''ramp_s'') = Some x \<and> 0 \<le> x \<and> x \<le> 86400"
    "\<exists>x. number_of (dget content ''duration_s'') = Some x \<and> 0 < x \<and> x \<le> 86400"
    using m(1,2,3) by (auto simp: strict_int_def strict_float_def split: pyval.splits option.splits)
  have slas: "unset (dget content ''p95_ms_threshold'')
        \<or> (\<exists>x. number_of (dget content ''p95_ms_threshold'') = Some x \<and> 0 \<le> x \<and> x \<le> 1000000000000)"
    "unset (dget content ''error_rate_threshold'')
        \<or> (\<exists>x. number_of (dget content ''error_rate_threshold'') = Some x \<and> 0 \<le> x \<and> x \<le> 1)"
    using m(4) by (auto simp: workload_slas_def sla_ok_def strict_float_def split: option.splits if_splits)
  have some: "\<not> (unset (dget content ''p95_ms_threshold'') \<and> unset (dget content ''error_rate_threshold''))"
    "unset (dget content ''arrival_rate'')"
    using c by (auto simp: assms(2) plan_workload_members workload_slas_def)
  have plan: "\<exists>plan. find_version (es_plan_version_id snap) vs = Some plan
          \<and> v_checksum plan = es_plan_checksum snap \<and> content_integrity plan"
    "approval_current depth vs (es_plan_version_id snap)"
    using binding_currentD [OF b(1)] by auto
  have script: "\<exists>script. find_version (es_script_version_id snap) vs = Some script
          \<and> v_checksum script = es_script_checksum snap \<and> content_integrity script"
    "approval_current depth vs (es_script_version_id snap)"
    using binding_currentD [OF b(2)] by auto
  have readiness: "\<exists>r v i. es_readiness_version_id snap = Some r \<and> find_version r vs = Some v
          \<and> es_readiness_checksum snap = Some (v_checksum v) \<and> content_integrity v
          \<and> approval_current depth vs r \<and> dget (v_content v) ''status'' = PStr ''ready''
          \<and> pf_inventory_id f = Some i \<and> dget (v_content v) ''inventory_snapshot_id'' = PStr i
          \<and> py_eq (dget (v_content v) ''target_version'') (opt_int_value (pf_target_version f))"
    using r ready by auto
  have facts: "pf_target_valid f" "pf_target_version f = es_environment_version snap"
    "es_mode snap = ''simulation'' \<or> pf_connection_valid f \<and> pf_connection_version f = es_connection_version snap"
    "es_script_artifact_id snap \<noteq> None"
    using c by blast+
  show ?thesis
    by (intro conjI) (fact plan script readiness scan facts load slas some)+
qed

subsection \<open>A plan and its script\<close>

definition sample_plan_content :: pydict where
  "sample_plan_content =
     map (\<lambda>k. (k, PStr ''x''))
       [''objectives'', ''journeys'', ''workload_mix'', ''test_data'', ''thresholds'',
        ''observability'', ''entry_criteria'', ''exit_criteria'']
     @ [(''vusers'', PInt 5), (''ramp_s'', PInt 1), (''duration_s'', PInt 60),
        (''p95_ms_threshold'', PInt 800)]"

definition sample_script_content :: pydict where
  "sample_script_content =
     [(''engine'', PStr ''loadrunner''), (''format'', PStr ''other_import''),
      (''source'', PStr ''s''), (''parameters'', PStr ''p''), (''coverage'', PStr ''c''),
      (''validation'', PStr ''v'')]"

definition sample_ready_content :: pydict where
  "sample_ready_content =
     [(''expected'', PStr ''e''), (''observed'', PStr ''o''), (''evidence'', PStr ''v''),
      (''status'', PStr ''ready''), (''inventory_snapshot_id'', PStr ''inv''),
      (''target_version'', PInt 3)]"

definition approved_sample :: "string \<Rightarrow> string \<Rightarrow> pydict \<Rightarrow> string list \<Rightarrow> version" where
  "approved_sample k kind content deps =
     (sample_version Approved)\<lparr>v_id := k, v_kind := kind, v_content := content,
        v_checksum := the (version_digest content), v_dependencies := deps\<rparr>"

definition sample_history :: "version list" where
  "sample_history =
     [approved_sample ''plan'' ''test_plan'' sample_plan_content [],
      approved_sample ''script'' ''script'' sample_script_content [''plan''],
      approved_sample ''ready'' ''readiness'' sample_ready_content [''plan'']]"

lemma script_fields: "fields_of_kind ''script'' =
    [select_field ''engine'' ''Execution platform'' [''apex-load'', ''loadrunner''],
     select_field ''format'' ''Script format''
       [''apex_native_json'', ''web_http_html'', ''other_import''],
     field_of ''source'' ''Script source or immutable import reference'',
     field_of ''parameters'' ''Parameter files and dependencies'',
     field_of ''coverage'' ''Requirement and journey coverage'',
     field_of ''validation'' ''Inspection and validation evidence'']"
  by (simp add: fields_of_kind_def DELIVERABLE_FIELDS_def)

lemma text_not_blank: "\<not> is_space c \<Longrightarrow> \<not> blank (c # s)"
  by (simp add: blank_iff)

lemmas issue_simps = field_issues_def field_of_def number_field_def select_field_def
  optional_field_def unset_def text_not_blank is_space_def dget_def out_of_bounds_def is_whole_def

lemma sample_plan_issues: "content_issues 9 ''test_plan'' sample_plan_content = []"
  unfolding content_issues_def Let_def
  by (simp add: fields_of_kind_def DELIVERABLE_FIELDS_def sample_plan_content_def issue_simps)

lemma sample_script_issues: "content_issues 9 ''script'' sample_script_content = []"
  unfolding content_issues_def Let_def script_fields
  by (simp add: sample_script_content_def issue_simps script_issues_def)

lemma sample_ready_issues: "content_issues 9 ''readiness'' sample_ready_content = []"
  unfolding content_issues_def Let_def
  by (simp add: fields_of_kind_def DELIVERABLE_FIELDS_def sample_ready_content_def issue_simps)

lemma approved_sample_usable:
  assumes "\<forall>p \<in> set content. is_scalar (snd p)" "content_issues 9 kind content = []"
  shows "version_usable 9 sample_history k (approved_sample k kind content deps)"
proof -
  have "content_integrity (approved_sample k kind content deps)"
    by (rule integrity_of_digest) (use assms(1) in \<open>simp_all add: approved_sample_def\<close>)
  moreover have "\<not> superseded sample_history k"
    by (simp add: superseded_def sample_history_def approved_sample_def sample_version_def)
  ultimately show ?thesis
    using assms(2) by (simp add: version_usable_def approved_sample_def sample_version_def)
qed

lemma sample_scalars:
  "\<forall>p \<in> set sample_plan_content. is_scalar (snd p)"
  "\<forall>p \<in> set sample_script_content. is_scalar (snd p)"
  "\<forall>p \<in> set sample_ready_content. is_scalar (snd p)"
  by (simp_all add: sample_plan_content_def sample_script_content_def sample_ready_content_def
      is_scalar_def)

lemma sample_lookup:
  "by_id sample_history ''plan'' = Some (approved_sample ''plan'' ''test_plan'' sample_plan_content [])"
  "by_id sample_history ''script'' =
     Some (approved_sample ''script'' ''script'' sample_script_content [''plan''])"
  "by_id sample_history ''ready'' =
     Some (approved_sample ''ready'' ''readiness'' sample_ready_content [''plan''])"
  "find_version ''plan'' sample_history = by_id sample_history ''plan''"
  "find_version ''script'' sample_history = by_id sample_history ''script''"
  "find_version ''ready'' sample_history = by_id sample_history ''ready''"
  by (simp_all add: by_id_def find_version_def sample_history_def approved_sample_def)

lemma sample_approvals:
  "approval_current 9 sample_history ''plan''" "approval_current 9 sample_history ''script''"
  "approval_current 9 sample_history ''ready''"
proof -
  have plan: "approved 9 sample_history ''plan''"
    by (rule approved.approvedI [OF sample_lookup(1)
          approved_sample_usable [OF sample_scalars(1) sample_plan_issues]])
       (simp add: approved_sample_def)
  have "approved 9 sample_history ''script''"
    by (rule approved.approvedI [OF sample_lookup(2)
          approved_sample_usable [OF sample_scalars(2) sample_script_issues]])
       (simp add: approved_sample_def plan)
  moreover have "approved 9 sample_history ''ready''"
    by (rule approved.approvedI [OF sample_lookup(3)
          approved_sample_usable [OF sample_scalars(3) sample_ready_issues]])
       (simp add: approved_sample_def plan)
  ultimately show "approval_current 9 sample_history ''plan''"
    "approval_current 9 sample_history ''script''" "approval_current 9 sample_history ''ready''"
    using plan by (simp_all add: approval_current_eq)
qed

lemma sample_intact:
  "content_integrity (approved_sample ''plan'' ''test_plan'' sample_plan_content [])"
  "content_integrity (approved_sample ''script'' ''script'' sample_script_content [''plan''])"
  "content_integrity (approved_sample ''ready'' ''readiness'' sample_ready_content [''plan''])"
  by (rule integrity_of_digest; use sample_scalars in \<open>simp add: approved_sample_def\<close>)+

definition sample_request :: prepare_execution where
  "sample_request = \<lparr>pe_plan_version_id = ''plan'', pe_script_version_id = ''script'',
     pe_readiness_version_id = Some ''ready'', pe_connection_id = None,
     pe_launch_authority = ''pipeline''\<rparr>"

lemma sample_prepares:
  "\<exists>snap. prepare_snapshot 9 sample_request sample_history ''simulation'' ''env'' (Some 3) None = Inr snap"
proof -
  have "approved_version 9 sample_history ''plan'' ''test_plan''
      = Inr (approved_sample ''plan'' ''test_plan'' sample_plan_content [])"
    "approved_version 9 sample_history ''script'' ''script''
      = Inr (approved_sample ''script'' ''script'' sample_script_content [''plan''])"
    "approved_version 9 sample_history ''ready'' ''readiness''
      = Inr (approved_sample ''ready'' ''readiness'' sample_ready_content [''plan''])"
    by (simp_all add: approved_version_def sample_lookup sample_approvals sample_intact)
       (simp_all add: approved_sample_def)
  then show ?thesis
    by (simp add: prepare_snapshot_def sample_request_def readiness_of_def)
       (simp add: approved_sample_def sample_script_content_def content_text_def)
qed

theorem prepare_snapshot_binds_witness:
  "\<exists>snap. prepare_snapshot 9 sample_request sample_history ''simulation'' ''env'' (Some 3) None = Inr snap
     \<and> approval_current 9 sample_history (es_plan_version_id snap)
     \<and> es_readiness_version_id snap = Some ''ready''"
proof -
  obtain snap where
    snap: "prepare_snapshot 9 sample_request sample_history ''simulation'' ''env'' (Some 3) None = Inr snap"
    using sample_prepares by blast
  from prepare_snapshot_binds [OF snap] have "approval_current 9 sample_history (es_plan_version_id snap)"
    and "es_readiness_version_id snap = Some ''ready''"
    unfolding bound_version_def by (blast, simp add: sample_request_def)
  with snap show ?thesis by blast
qed

definition sample_snapshot :: execution_snapshot where
  "sample_snapshot = \<lparr>es_plan_version_id = ''plan'', es_plan_title = ''t'',
     es_plan_checksum = the (version_digest sample_plan_content),
     es_script_version_id = ''script'', es_script_title = ''t'',
     es_script_checksum = the (version_digest sample_script_content),
     es_script_source_checksum = [], es_script_format = ''other_import'',
     es_readiness_version_id = Some ''ready'',
     es_readiness_checksum = Some (the (version_digest sample_ready_content)),
     es_engine = ''loadrunner'', es_mode = ''simulation'', es_environment_id = ''env'',
     es_environment_version = Some 3, es_connection_id = None, es_connection_version = None,
     es_launch_authority = ''pipeline'', es_script_artifact_id = Some ''a'',
     es_workload = plan_workload sample_plan_content\<rparr>"

definition sample_facts :: preflight_facts where
  "sample_facts = \<lparr>pf_target_version = Some 3, pf_target_valid = True, pf_connection_valid = False,
     pf_connection_version = None, pf_inventory_id = Some ''inv'', pf_inventory_at = Some 0,
     pf_now = 1\<rparr>"

lemma sample_workload:
  "plan_workload sample_plan_content =
     [(''vusers'', PInt 5), (''ramp_s'', PInt 1), (''duration_s'', PInt 60),
      (''slas'', PDict [(''p95_ms'', PInt 800)])]"
  by (simp add: plan_workload_def workload_slas_def sample_plan_content_def dget_def unset_def)

lemma sample_bindings:
  "binding_current 9 sample_history (Some ''plan'') (Some (the (version_digest sample_plan_content)))"
  "binding_current 9 sample_history (Some ''script'') (Some (the (version_digest sample_script_content)))"
  "binding_current 9 sample_history (Some ''ready'') (Some (the (version_digest sample_ready_content)))"
  by (simp_all add: binding_current_def sample_lookup sample_intact)
     (simp_all add: approved_sample_def sample_approvals)

lemma sample_evidence: "readiness_evidence sample_snapshot sample_history sample_facts"
  by (simp add: readiness_evidence_def sample_snapshot_def sample_facts_def sample_lookup
      approved_sample_def sample_ready_content_def dget_def inventory_fresh_def day_us_def
      opt_int_value_def)

lemma sample_workload_ok: "workload_ok (plan_workload sample_plan_content)"
  by (simp add: sample_workload workload_ok_def ddel_def SPEC_WORKLOAD_FIELDS_def dhas_def dget_def
      strict_int_def strict_float_def slas_ok_def sla_ok_def text_not_blank is_space_def nul_free_def)

lemma sample_unblocked:
  "\<not> any_blocked (dispatch_checks 9 sample_snapshot sample_history sample_facts)"
  unfolding any_blocked_dispatch execution_checks_def approval_check_def
  using sample_bindings sample_evidence sample_workload_ok
  by (simp add: sample_snapshot_def) (simp add: sample_facts_def sample_workload dget_def dhas_def)

theorem dispatch_gate_sound_witness:
  "approval_current 9 sample_history (es_plan_version_id sample_snapshot)
   \<and> (\<exists>x. number_of (dget sample_plan_content ''duration_s'') = Some x \<and> 0 < x \<and> x \<le> 86400)"
proof -
  have "es_workload sample_snapshot = plan_workload sample_plan_content"
    by (simp add: sample_snapshot_def)
  from dispatch_gate_sound [OF sample_unblocked this] show ?thesis by blast
qed

end
