(* ===== verification/Cycle_Store.thy ===== *)
theory Cycle_Store
  imports Cycles
begin

text \<open>
  The stored cycle and the handlers that change it (src/apex/routers/cycles.py). A handler
  reads the row, computes the new history from what it read, and writes it back only when the
  revision is still the one that the caller expected. Handlers of several workers interleave
  between the read and the write; the step relation has one transition for each. It refines the
  serial execution of the operations, so that every invariant of the serial history holds of
  the concurrent one.
\<close>

subsection \<open>Handlers\<close>

record test_cycle =
  tc_revision :: int
  tc_versions :: "version list"
  tc_progress :: cycle_progress_model
  tc_independent_review :: bool

datatype http_error = HTTPException nat string | Unhandled exn

text \<open>A request with what the server draws for it: the actor, the new identity and the time.\<close>

datatype cycle_op =
    CreateVersion version_create string bool string string
  | Act cycle_action string string

fun expected_revision :: "cycle_op \<Rightarrow> int" where
  "expected_revision (CreateVersion q actor trusted new_id now) = vc_expected_revision q"
| "expected_revision (Act a actor now) = ca_expected_revision a"

text \<open>\<open>except ValueError as error: raise HTTPException(409, str(error))\<close>.\<close>

fun conflict :: "'a res \<Rightarrow> http_error + 'a" where
  "conflict (Inr a) = Inr a"
| "conflict (Inl (ValueError m)) = Inl (HTTPException 409 m)"
| "conflict (Inl e) = Inl (Unhandled e)"

fun unhandled :: "'a res \<Rightarrow> http_error + 'a" where
  "unhandled (Inr a) = Inr a"
| "unhandled (Inl e) = Inl (Unhandled e)"

text \<open>What a handler computes from the row it has read.\<close>

fun compute :: "nat \<Rightarrow> test_cycle \<Rightarrow> cycle_op \<Rightarrow> http_error + version list" where
  "compute depth row (CreateVersion q actor trusted new_id now) =
     (if tc_revision row \<noteq> vc_expected_revision q
      then Inl (HTTPException 409 ''Cycle changed; refresh before editing'')
      else if 200 \<le> length (tc_versions row)
      then Inl (HTTPException 409 ''Cycle version limit reached; create the next cycle'')
      else rbind (conflict (add_version depth (tc_versions row) q actor trusted new_id now))
             (\<lambda>v. Inr (tc_versions row @ [v])))"
| "compute depth row (Act a actor now) =
     (if tc_revision row \<noteq> ca_expected_revision a
      then Inl (HTTPException 409 ''Cycle changed; refresh before reviewing'')
      else conflict (transition depth (tc_versions row) a actor (tc_independent_review row) now))"

text \<open>The length of \<open>json.dumps(value)\<close> with the default separators; its text is ASCII.\<close>

fun json_length :: "pyval \<Rightarrow> nat" where
  "json_length PNone = 4"
| "json_length (PBool b) = (if b then 4 else 5)"
| "json_length (PInt i) = length (int_text i)"
| "json_length (PFloat x) = length (float_repr x)"
| "json_length (PStr s) = length (json_text True s)"
| "json_length (PList xs) = 2 + sum_list (map json_length xs) + 2 * (length xs - 1)"
| "json_length (PDict d) =
     2 + sum_list (map (\<lambda>(k, v). length (json_text True k) + 2 + json_length v) d)
     + 2 * (length d - 1)"
| "json_length (POther c) = 0"

fun status_name :: "deliverable_status \<Rightarrow> string" where
  "status_name NotStarted = ''not_started''"
| "status_name Draft = ''draft''"
| "status_name InReview = ''in_review''"
| "status_name Approved = ''approved''"
| "status_name Stale = ''stale''"
| "status_name Archived = ''archived''"

fun action_name :: "review_action \<Rightarrow> string" where
  "action_name Submit = ''submit''"
| "action_name Approve = ''approve''"
| "action_name RequestRevision = ''request_revision''"
| "action_name Archive = ''archive''"
| "action_name Restore = ''restore''"

definition opt_text_value :: "string option \<Rightarrow> pyval" where
  "opt_text_value t = (case t of None \<Rightarrow> PNone | Some s \<Rightarrow> PStr s)"

text \<open>The JSON form of a version, as the column stores it.\<close>

definition version_value :: "version \<Rightarrow> pyval" where
  "version_value v = PDict
     ([(''id'', PStr (v_id v)), (''kind'', PStr (v_kind v)), (''title'', PStr (v_title v)),
       (''content'', PDict (v_content v)), (''checksum'', PStr (v_checksum v)),
       (''dependencies'', texts_value (v_dependencies v)),
       (''replaces'', opt_text_value (v_replaces v)),
       (''change_summary'', PStr (v_change_summary v)),
       (''status'', PStr (status_name (v_status v))), (''created_by'', PStr (v_created_by v)),
       (''created_at'', PStr (v_created_at v)), (''archived'', PBool (v_archived v)),
       (''reviews'', PList (map (\<lambda>r. PDict [(''action'', PStr (action_name (r_action r))),
          (''actor'', PStr (r_actor r)), (''note'', PStr (r_note r)), (''at'', PStr (r_at r))])
          (v_reviews v)))]
      @ (case v_origin v of
           None \<Rightarrow> []
         | Some og \<Rightarrow> [(''origin'', PDict [(''cycle_id'', PStr (vo_cycle_id og)),
             (''version_id'', PStr (vo_version_id og)), (''checksum'', PStr (vo_checksum og))])]))"

text \<open>The guarded UPDATE: the row in the database when the write arrives.\<close>

definition save_versions ::
  "nat \<Rightarrow> test_cycle \<Rightarrow> int \<Rightarrow> version list \<Rightarrow> http_error + test_cycle" where
  "save_versions depth row revision vs =
     (if 2000000 < json_length (PList (map version_value vs))
      then Inl (HTTPException 413 ''Cycle content limit reached; store large evidence as artifacts'')
      else rbind (unhandled (cycle_progress depth vs)) (\<lambda>p.
           if tc_revision row \<noteq> revision
           then Inl (HTTPException 409 ''Cycle changed; refresh and review the latest version'')
           else Inr (row\<lparr>tc_versions := vs, tc_progress := p, tc_revision := revision + 1\<rparr>)))"

text \<open>One request that nothing interleaves with.\<close>

definition handle :: "nat \<Rightarrow> test_cycle \<Rightarrow> cycle_op \<Rightarrow> http_error + test_cycle" where
  "handle depth row op =
     rbind (compute depth row op) (save_versions depth row (expected_revision op))"

subsection \<open>Interleaved handlers\<close>

text \<open>The row, and the handlers between their read and their write.\<close>

record cycle_system =
  cs_row :: test_cycle
  cs_pending :: "(cycle_op \<times> test_cycle) list"

definition finish :: "nat \<Rightarrow> test_cycle \<Rightarrow> cycle_op \<Rightarrow> test_cycle \<Rightarrow> http_error + test_cycle" where
  "finish depth row op snapshot =
     rbind (compute depth snapshot op) (save_versions depth row (expected_revision op))"

definition written :: "test_cycle \<Rightarrow> http_error + test_cycle \<Rightarrow> test_cycle" where
  "written row r = (case r of Inl e \<Rightarrow> row | Inr row' \<Rightarrow> row')"

text \<open>A validated request, and an identity from \<open>uuid4().hex\<close> that is in use nowhere.\<close>

fun op_ok :: "test_cycle \<Rightarrow> cycle_op \<Rightarrow> bool" where
  "op_ok row (CreateVersion q actor trusted new_id now) \<longleftrightarrow>
     vc_kind q \<in> set KINDS \<and> length new_id = 32 \<and> nul_free new_id
     \<and> new_id \<notin> v_id ` set (tc_versions row)"
| "op_ok row (Act a actor now) \<longleftrightarrow> True"

inductive cycle_step :: "nat \<Rightarrow> cycle_system \<Rightarrow> cycle_system \<Rightarrow> bool" for depth where
  read_row: "cycle_step depth s (s\<lparr>cs_pending := cs_pending s @ [(op, cs_row s)]\<rparr>)"
| write_row: "cs_pending s = us @ (op, snapshot) # ws \<Longrightarrow> op_ok (cs_row s) op \<Longrightarrow>
    cycle_step depth s
      (s\<lparr>cs_row := written (cs_row s) (finish depth (cs_row s) op snapshot),
         cs_pending := us @ ws\<rparr>)"

inductive reachable :: "nat \<Rightarrow> test_cycle \<Rightarrow> cycle_system \<Rightarrow> bool" for depth row where
  start: "reachable depth row \<lparr>cs_row = row, cs_pending = []\<rparr>"
| next_step: "reachable depth row s \<Longrightarrow> cycle_step depth s t \<Longrightarrow> reachable depth row t"

text \<open>A snapshot with the revision of the row is the row.\<close>

definition snapshots_ok :: "cycle_system \<Rightarrow> bool" where
  "snapshots_ok s =
     (\<forall>(op, r) \<in> set (cs_pending s).
        tc_revision r \<le> tc_revision (cs_row s)
        \<and> (tc_revision r = tc_revision (cs_row s) \<longrightarrow> r = cs_row s))"

lemma save_versions_InrD:
  "save_versions depth row revision vs = Inr row' \<Longrightarrow>
   tc_revision row = revision \<and> tc_revision row' = revision + 1 \<and> tc_versions row' = vs
   \<and> tc_independent_review row' = tc_independent_review row"
  by (auto simp: save_versions_def rbind_Inr_iff split: if_splits)

lemma compute_InrD:
  "compute depth row op = Inr vs \<Longrightarrow> tc_revision row = expected_revision op"
  by (cases op) (auto split: if_splits)

lemma finish_serial:
  assumes "tc_revision r = tc_revision row \<longrightarrow> r = row" "finish depth row op r = Inr row'"
  shows "handle depth row op = Inr row'"
proof -
  obtain vs where vs: "compute depth r op = Inr vs"
    "save_versions depth row (expected_revision op) vs = Inr row'"
    using assms(2) by (auto simp: finish_def rbind_Inr_iff)
  with compute_InrD save_versions_InrD assms(1) have "r = row" by metis
  with vs show ?thesis by (simp add: handle_def)
qed

lemma written_revision:
  "finish depth row op r = Inr row' \<Longrightarrow> tc_revision row' = tc_revision row + 1"
  by (auto simp: finish_def rbind_Inr_iff dest: save_versions_InrD)

lemma snapshots_step:
  assumes "cycle_step depth s t" "snapshots_ok s"
  shows "snapshots_ok t"
  using assms(1)
proof cases
  case (read_row op)
  with assms(2) show ?thesis by (auto simp: snapshots_ok_def)
next
  case (write_row us op r ws)
  have old: "snapshots_ok (s\<lparr>cs_pending := us @ ws\<rparr>)"
    using assms(2) write_row by (auto simp: snapshots_ok_def)
  show ?thesis
  proof (cases "finish depth (cs_row s) op r")
    case (Inl e)
    with old write_row show ?thesis by (auto simp: written_def snapshots_ok_def)
  next
    case (Inr row')
    have "tc_revision r' < tc_revision row'" if "(op', r') \<in> set (us @ ws)" for op' r'
      using old that written_revision [OF Inr] by (fastforce simp: snapshots_ok_def)
    then have "\<forall>(op', r') \<in> set (us @ ws). tc_revision r' \<le> tc_revision row'
        \<and> (tc_revision r' = tc_revision row' \<longrightarrow> r' = row')"
      by fastforce
    with Inr write_row show ?thesis
      by (simp add: written_def snapshots_ok_def)
  qed
qed

lemma reachable_snapshots: "reachable depth row s \<Longrightarrow> snapshots_ok s"
proof (induction rule: reachable.induct)
  case start
  show ?case by (simp add: snapshots_ok_def)
qed (rule snapshots_step)

lemma step_serial:
  assumes "reachable depth row s" "cycle_step depth s t"
  shows "cs_row t = cs_row s
    \<or> (\<exists>op. handle depth (cs_row s) op = Inr (cs_row t) \<and> op_ok (cs_row s) op)"
  using assms(2)
proof cases
  case (write_row us op r ws)
  have "tc_revision r = tc_revision (cs_row s) \<longrightarrow> r = cs_row s"
    using reachable_snapshots [OF assms(1)] write_row by (auto simp: snapshots_ok_def)
  then show ?thesis
    using write_row finish_serial [of r "cs_row s" depth op]
    by (cases "finish depth (cs_row s) op r") (auto simp: written_def)
qed simp

lemma reachable_serial:
  assumes "reachable depth row s"
  shows "\<exists>ops. cs_row s = run_ops (handle depth) row ops"
  using assms
proof induction
  case start
  show ?case by (rule exI [of _ "[]"]) simp
next
  case (next_step s t)
  then obtain ops where ops: "cs_row s = run_ops (handle depth) row ops" by blast
  from step_serial [OF next_step(1,2)] show ?case
  proof (elim disjE exE conjE)
    fix op assume "handle depth (cs_row s) op = Inr (cs_row t)"
    with ops have "cs_row t = run_ops (handle depth) row (ops @ [op])"
      by (simp add: run_ops_def attempt_op_def)
    then show ?thesis by blast
  qed (use ops in auto)
qed

text \<open>
  C14. No update is lost. However requests interleave, the stored row is the result of running
  some of the operations one after the other; a write that goes through has exactly the effect
  of its operation on the row stored at that moment, and any other step leaves the row alone.
\<close>

theorem cycle_writes_serial:
  assumes "reachable depth row s" "cycle_step depth s t"
  shows "(\<exists>ops. cs_row s = run_ops (handle depth) row ops)
    \<and> (cs_row t = cs_row s \<or> (\<exists>op. handle depth (cs_row s) op = Inr (cs_row t)))"
  using reachable_serial [OF assms(1)] step_serial [OF assms] by blast

subsection \<open>The audit trail\<close>

text \<open>
  The reviews of a version as a state machine: the status and the archived flag after a review,
  and \<open>None\<close> for a review that the policy does not admit.
\<close>

definition review_step ::
  "bool \<Rightarrow> string \<Rightarrow> deliverable_status \<times> bool \<Rightarrow> review \<Rightarrow> (deliverable_status \<times> bool) option" where
  "review_step indep creator st r =
     (case r_action r of
        Archive \<Rightarrow> Some (fst st, True)
      | Restore \<Rightarrow> Some (fst st, False)
      | Submit \<Rightarrow> if st = (Draft, False) then Some (InReview, False) else None
      | RequestRevision \<Rightarrow> if st = (InReview, False) then Some (Draft, False) else None
      | Approve \<Rightarrow>
          if st = (InReview, False) \<and> \<not> (indep \<and> r_actor r = creator)
          then Some (Approved, False) else None)"

definition replay_reviews ::
  "bool \<Rightarrow> string \<Rightarrow> review list \<Rightarrow> (deliverable_status \<times> bool) option" where
  "replay_reviews indep creator rs =
     foldl (\<lambda>st r. Option.bind st (\<lambda>x. review_step indep creator x r)) (Some (Draft, False)) rs"

definition audited :: "bool \<Rightarrow> version \<Rightarrow> bool" where
  "audited indep v =
     (replay_reviews indep (v_created_by v) (v_reviews v) = Some (v_status v, v_archived v))"

definition audited_row :: "test_cycle \<Rightarrow> bool" where
  "audited_row row = (\<forall>v \<in> set (tc_versions row). audited (tc_independent_review row) v)"

lemma replay_append:
  "replay_reviews indep c (rs @ [r]) = Option.bind (replay_reviews indep c rs) (\<lambda>x. review_step indep c x r)"
  by (simp add: replay_reviews_def)

lemma add_version_draft:
  "add_version depth vs q actor trusted new_id now = Inr v \<Longrightarrow>
   v_reviews v = [] \<and> v_status v = Draft \<and> \<not> v_archived v \<and> v_id v = new_id \<and> v_kind v = vc_kind q
   \<and> v_dependencies v = vc_dependencies q \<and> v_replaces v = vc_replaces q"
  by (auto simp: add_version_def rbind_Inr_iff split: option.splits if_splits)

lemma transition_audited:
  assumes "transition depth vs a actor indep now = Inr vs'" "\<forall>v \<in> set vs. audited indep v"
  shows "\<forall>v \<in> set vs'. audited indep v"
  using assms(1)
proof (cases rule: transition_cases)
  case (1 t)
  then have "audited indep (add_review a actor now (t\<lparr>v_archived := (ca_action a = Archive)\<rparr>))"
    using assms(2) find_versionD [OF 1(1)]
    by (auto simp: audited_def add_review_def replay_append review_step_def)
  with 1 update_version_member [OF 1(1)] assms(2) show ?thesis by blast
next
  case (2 t)
  then have "v_status t = expected_status (ca_action a)" "\<not> v_archived t"
    "ca_action a = Approve \<and> indep \<longrightarrow> actor \<noteq> v_created_by t"
    by (auto simp: review_error_def Let_def split: if_splits)
  then have "audited indep (add_review a actor now (t\<lparr>v_status := next_status (ca_action a)\<rparr>))"
    using assms(2) find_versionD [OF 2(1)] 2(2,3)
    by (cases "ca_action a")
       (auto simp: audited_def add_review_def replay_append review_step_def expected_status_def)
  with 2 update_version_member [OF 2(1)] assms(2) show ?thesis by blast
qed

lemma conflict_Inr [simp]: "conflict r = Inr a \<longleftrightarrow> r = Inr a"
  by (cases r rule: conflict.cases) auto

lemma handle_InrD:
  assumes "handle depth row op = Inr row'"
  obtains vs where "compute depth row op = Inr vs" "tc_versions row' = vs"
    "tc_independent_review row' = tc_independent_review row"
    "tc_revision row' = tc_revision row + 1"
  using assms by (auto simp: handle_def rbind_Inr_iff dest: save_versions_InrD)

lemma handle_audited:
  assumes "audited_row row" "handle depth row op = Inr row'"
  shows "audited_row row'"
proof -
  from assms(2) obtain vs where vs: "compute depth row op = Inr vs" "tc_versions row' = vs"
    "tc_independent_review row' = tc_independent_review row" by (rule handle_InrD)
  have "\<forall>v \<in> set vs. audited (tc_independent_review row) v"
  proof (cases op)
    case (CreateVersion q actor trusted new_id now)
    with vs(1) assms(1) show ?thesis
      by (auto simp: rbind_Inr_iff audited_row_def split: if_splits dest!: add_version_draft)
         (auto simp: audited_def replay_reviews_def)
  next
    case (Act a actor now)
    with vs(1) assms(1) transition_audited show ?thesis
      by (auto simp: audited_row_def split: if_splits)
  qed
  with vs show ?thesis by (simp add: audited_row_def)
qed

interpretation cycle_handlers: invariant_steps "handle depth" "\<lambda>_. True" audited_row for depth
  by unfold_locales (rule handle_audited)

text \<open>
  C15. The audit trail is complete and lawful: in every reachable row, replaying the recorded
  reviews of a version through the review policy yields its status and archived flag, so that
  an approved version was submitted and then approved, under independent review by someone
  other than its author.
\<close>

theorem cycle_audit_trail:
  assumes "reachable depth row s" "audited_row row"
  shows "\<forall>v \<in> set (tc_versions (cs_row s)).
    replay_reviews (tc_independent_review (cs_row s)) (v_created_by v) (v_reviews v)
      = Some (v_status v, v_archived v)"
proof -
  obtain ops where "cs_row s = run_ops (handle depth) row ops"
    using reachable_serial [OF assms(1)] by blast
  then have "audited_row (cs_row s)"
    using cycle_handlers.run_inv [OF assms(2), of ops] by (simp add: list_all_iff)
  then show ?thesis by (simp add: audited_row_def audited_def)
qed

subsection \<open>The shape of the history\<close>

text \<open>
  Identities are unique, dependencies exist and are acyclic, a replaced version exists, is of
  the same kind, and is replaced once.
\<close>

definition history_ok :: "version list \<Rightarrow> bool" where
  "history_ok vs =
     (distinct (map v_id vs)
      \<and> (\<forall>v \<in> set vs. set (v_dependencies v) \<subseteq> v_id ` set vs)
      \<and> acyclic (depends vs)
      \<and> (\<forall>v \<in> set vs. truthy_id (v_replaces v) \<longrightarrow>
           (\<exists>u \<in> set vs. v_replaces v = Some (v_id u) \<and> v_kind u = v_kind v))
      \<and> (\<forall>u \<in> set vs. \<forall>v \<in> set vs.
           truthy_id (v_replaces v) \<longrightarrow> v_replaces u = v_replaces v \<longrightarrow> u = v))"

text \<open>A node without predecessors closes no cycle.\<close>

lemma acyclic_fresh_source:
  assumes "acyclic r" "k \<notin> Range r" "k \<notin> D"
  shows "acyclic (r \<union> {k} \<times> D)"
proof -
  have "(x, y) \<in> r\<^sup>+ \<or> (x = k \<and> y \<noteq> k)" if "(x, y) \<in> (r \<union> {k} \<times> D)\<^sup>+" for x y
    using that
  proof induction
    case (base y)
    with assms show ?case by auto
  next
    case (step y z)
    have "y \<noteq> k" if "(x, y) \<in> r\<^sup>+"
      using that assms(2) by (metis RangeI trancl_range)
    with step assms(2) show ?case by (auto intro: trancl_into_trancl)
  qed
  with assms(1) show ?thesis by (auto simp: acyclic_def)
qed

lemma depends_iff:
  "distinct (map v_id vs) \<Longrightarrow>
   depends vs = {(v_id v, d) | v d. v \<in> set vs \<and> d \<in> set (v_dependencies v)}"
  by (auto simp: depends_def by_id_iff)

lemma frozen_part_simps [simp]:
  "v_id (frozen_part v) = v_id v" "v_kind (frozen_part v) = v_kind v"
  "v_dependencies (frozen_part v) = v_dependencies v" "v_replaces (frozen_part v) = v_replaces v"
  by (simp_all add: frozen_part_def)

lemma transition_same_fields:
  assumes "transition depth vs a actor indep now = Inr vs'"
    and "\<And>v st ar rs. g (v\<lparr>v_status := st\<rparr>) = g v" "\<And>v ar. g (v\<lparr>v_archived := ar\<rparr>) = g v"
      "\<And>v rs. g (v\<lparr>v_reviews := rs\<rparr>) = g v"
  shows "map g vs' = map g vs"
  using assms(1)
  by (cases rule: transition_cases) (simp_all add: map_update_version add_review_def assms(2-4))

text \<open>\<open>history_ok\<close> reads identities, kinds, dependencies and replacements only.\<close>

definition shape :: "version \<Rightarrow> string \<times> string \<times> string list \<times> string option" where
  "shape v = (v_id v, v_kind v, v_dependencies v, v_replaces v)"

lemma shape_member:
  assumes "map shape vs' = map shape vs" "v \<in> set vs"
  shows "\<exists>v' \<in> set vs'. shape v' = shape v"
proof -
  have "shape v \<in> set (map shape vs')" using assms by simp
  then show ?thesis by auto
qed

lemma history_ok_shape:
  assumes "map shape vs' = map shape vs" "history_ok vs"
  shows "history_ok vs'"
proof -
  have ids: "map v_id vs' = map v_id vs"
    using arg_cong [OF assms(1), of "map fst"] by (simp add: shape_def comp_def)
  then have d: "distinct (map v_id vs)" "distinct (map v_id vs')" and
    ids': "v_id ` set vs' = v_id ` set vs"
    using assms(2) by (auto simp: history_ok_def simp flip: set_map)
  note to_old = shape_member [OF assms(1) [symmetric]]
  note to_new = shape_member [OF assms(1)]
  have "depends us \<subseteq> depends ws" if "distinct (map v_id us)" "distinct (map v_id ws)"
    and "\<And>u. u \<in> set us \<Longrightarrow> \<exists>w \<in> set ws. shape w = shape u" for us ws
    unfolding depends_iff [OF that(1)] depends_iff [OF that(2)]
    using that(3) by (clarsimp simp: shape_def) metis
  from this [OF d(2,1) to_old] this [OF d(1,2) to_new]
  have dep: "depends vs' = depends vs" by blast
  have "set (v_dependencies v) \<subseteq> v_id ` set vs'" if m: "v \<in> set vs'" for v
  proof -
    obtain w where "w \<in> set vs" "shape w = shape v" using to_old [OF m] by blast
    moreover have "\<forall>v \<in> set vs. set (v_dependencies v) \<subseteq> v_id ` set vs"
      using assms(2) by (simp add: history_ok_def)
    ultimately show ?thesis unfolding ids' by (simp add: shape_def) metis
  qed
  moreover have "\<exists>u \<in> set vs'. v_replaces v = Some (v_id u) \<and> v_kind u = v_kind v"
    if v: "v \<in> set vs'" "truthy_id (v_replaces v)" for v
  proof -
    obtain w where w: "w \<in> set vs" "shape w = shape v" using to_old [OF v(1)] by blast
    with assms(2) v(2) obtain u where
      "u \<in> set vs" "v_replaces w = Some (v_id u)" "v_kind u = v_kind w"
      by (auto simp: history_ok_def shape_def)
    moreover from to_new [OF this(1)] obtain u' where "u' \<in> set vs'" "shape u' = shape u" by blast
    ultimately show ?thesis using w by (intro bexI [of _ u']) (simp_all add: shape_def)
  qed
  moreover have "u = v"
    if uv: "u \<in> set vs'" "v \<in> set vs'" "truthy_id (v_replaces v)" "v_replaces u = v_replaces v"
    for u v
  proof -
    obtain x where x: "x \<in> set vs" "shape x = shape u" using to_old [OF uv(1)] by blast
    obtain y where y: "y \<in> set vs" "shape y = shape v" using to_old [OF uv(2)] by blast
    have "x = y" using assms(2) x y uv(3,4) by (auto simp: history_ok_def shape_def)
    with x y have "v_id u = v_id v" by (simp add: shape_def)
    with d(2) uv(1,2) show ?thesis by (auto simp: distinct_map inj_on_def)
  qed
  ultimately show ?thesis
    using assms(2) d dep by (simp add: history_ok_def)
qed

lemma add_version_upstream:
  assumes "add_version depth vs q actor trusted new_id now = Inr v"
  shows "set (v_dependencies v) \<subseteq> v_id ` set vs"
    "truthy_id (v_replaces v) \<Longrightarrow> \<exists>u. by_id vs (the (v_replaces v)) = Some u \<and> v_kind u = v_kind v"
    "truthy_id (v_replaces v) \<Longrightarrow> \<forall>u \<in> set vs. v_replaces u \<noteq> v_replaces v"
proof -
  note v = add_version_draft [OF assms]
  have err: "replace_error vs q = None"
    and dep: "\<forall>d \<in> set (vc_dependencies q). dependency_error depth vs d = Inr ()"
    using assms by (auto simp: add_version_def rbind_Inr_iff for_each_Inr_iff
        split: option.splits if_splits)
  show "set (v_dependencies v) \<subseteq> v_id ` set vs"
  proof
    fix d assume "d \<in> set (v_dependencies v)"
    with dep v have "dependency_error depth vs d = Inr ()" by simp
    then obtain u where "by_id vs d = Some u"
      by (auto simp: dependency_error_def split: if_splits)
    from by_id_member [OF this] show "d \<in> v_id ` set vs" by auto
  qed
  show "\<exists>u. by_id vs (the (v_replaces v)) = Some u \<and> v_kind u = v_kind v"
    if "truthy_id (v_replaces v)"
    using that err v by (auto simp: replace_error_def previous_of_def split: option.splits if_splits)
  show "\<forall>u \<in> set vs. v_replaces u \<noteq> v_replaces v" if "truthy_id (v_replaces v)"
    using that err v
    by (auto simp: replace_error_def previous_of_def superseded_def truthy_id_def
        split: option.splits if_splits)
qed

lemma history_ok_append:
  assumes "history_ok vs" "add_version depth vs q actor trusted new_id now = Inr v"
    "new_id \<notin> v_id ` set vs"
  shows "history_ok (vs @ [v])"
proof -
  note up = add_version_upstream [OF assms(2)]
  have id: "v_id v = new_id" using add_version_draft [OF assms(2)] by simp
  have d: "distinct (map v_id vs)" and d': "distinct (map v_id (vs @ [v]))"
    using assms(1,3) id by (auto simp: history_ok_def)
  have dep: "depends (vs @ [v]) = depends vs \<union> {v_id v} \<times> set (v_dependencies v)"
    unfolding depends_iff [OF d] depends_iff [OF d'] by auto
  have "Range (depends vs) \<subseteq> v_id ` set vs"
    using assms(1) unfolding depends_iff [OF d] by (auto simp: history_ok_def)
  then have "acyclic (depends (vs @ [v]))"
    unfolding dep using assms(1,3) up(1) id
    by (intro acyclic_fresh_source) (auto simp: history_ok_def)
  moreover have "\<exists>u \<in> set vs. v_replaces v = Some (v_id u) \<and> v_kind u = v_kind v"
    if "truthy_id (v_replaces v)"
    using up(2) [OF that] that by (auto simp: truthy_id_def dest!: by_id_member)
  ultimately show ?thesis
    using assms(1) d' up(1,3) by (auto simp: history_ok_def)
qed

lemma handle_history_ok:
  assumes "history_ok (tc_versions row)" "op_ok row op" "handle depth row op = Inr row'"
  shows "history_ok (tc_versions row')"
proof -
  from assms(3) obtain vs where vs: "compute depth row op = Inr vs" "tc_versions row' = vs"
    by (rule handle_InrD)
  show ?thesis
  proof (cases op)
    case (CreateVersion q actor trusted new_id now)
    with vs(1) have "\<exists>v. vs = tc_versions row @ [v]
        \<and> add_version depth (tc_versions row) q actor trusted new_id now = Inr v"
      by (auto simp: rbind_Inr_iff split: if_splits)
    with CreateVersion vs(2) assms(1,2) show ?thesis
      by (auto simp: history_ok_append)
  next
    case (Act a actor now)
    with vs have "transition depth (tc_versions row) a actor (tc_independent_review row) now = Inr vs"
      by (auto split: if_splits)
    then have "map shape vs = map shape (tc_versions row)"
      by (rule transition_same_fields) (simp_all add: shape_def)
    with vs assms(1) history_ok_shape show ?thesis by simp
  qed
qed

text \<open>
  C16. Every reachable history has unique identities and an acyclic dependency relation between
  recorded versions; a replacement is of the kind of the version it replaces, and no version is
  replaced twice, even by concurrent editors.
\<close>

theorem cycle_history_ok:
  assumes "reachable depth row s" "history_ok (tc_versions row)"
  shows "history_ok (tc_versions (cs_row s))"
  using assms
proof induction
  case (next_step s t)
  from step_serial [OF next_step(1,2)] next_step show ?case
    by (auto dest: handle_history_ok)
qed simp

subsection \<open>Two concurrent editors\<close>

text \<open>Two users archive the same draft: the first write goes through, the second conflicts.\<close>

definition sample_draft :: version where
  "sample_draft = (sample_version Draft)\<lparr>v_checksum := ''c''\<rparr>"

definition sample_row :: test_cycle where
  "sample_row = \<lparr>tc_revision = 1, tc_versions = [sample_draft],
     tc_progress = \<lparr>cp_status = NotStarted, cp_approved = 0, cp_total = 6, cp_deliverables = []\<rparr>,
     tc_independent_review = True\<rparr>"

definition archive_by :: "string \<Rightarrow> cycle_op" where
  "archive_by actor = Act (sample_action Archive) actor ''at''"

definition sample_archived :: version where
  "sample_archived = add_review (sample_action Archive) ''ann'' ''at'' (sample_draft\<lparr>v_archived := True\<rparr>)"

definition sample_after :: cycle_system where
  "sample_after = \<lparr>cs_row = written sample_row (finish 9 sample_row (archive_by ''ann'') sample_row),
                  cs_pending = [(archive_by ''bob'', sample_row)]\<rparr>"

lemma sample_archive_run:
  "transition 9 [sample_draft] (sample_action Archive) ''ann'' True ''at'' = Inr [sample_archived]"
  by (simp add: transition_def find_version_def review_error_def sample_action_def superseded_def
      sample_draft_def sample_version_def sample_archived_def Let_def)

lemma sample_progress: "\<exists>p. cycle_progress 9 [sample_archived] = Inr p"
proof -
  have "version_typed sample_archived"
    by (simp add: version_typed_def sample_archived_def sample_draft_def sample_version_def
        add_review_def KINDS_def nul_free_def)
  then show ?thesis
    using cycle_progress_consistent [of "[sample_archived]" 9] by fastforce
qed

lemma sample_size: "json_length (PList (map version_value [sample_archived])) \<le> 2000000"
  by (simp add: version_value_def sample_archived_def add_review_def sample_draft_def
      sample_version_def sample_content_def sample_action_def json_text_def json_char_def
      opt_text_value_def texts_value_def)

lemma sample_after_row:
  "tc_revision (cs_row sample_after) = 2 \<and> tc_versions (cs_row sample_after) = [sample_archived]
   \<and> tc_independent_review (cs_row sample_after)"
proof -
  obtain p where "cycle_progress 9 [sample_archived] = Inr p" using sample_progress by blast
  then have "finish 9 sample_row (archive_by ''ann'') sample_row
      = Inr (sample_row\<lparr>tc_versions := [sample_archived], tc_progress := p, tc_revision := 2\<rparr>)"
    using sample_archive_run sample_size
    by (simp add: finish_def archive_by_def sample_row_def save_versions_def sample_action_def)
  then show ?thesis by (simp add: sample_after_def written_def sample_row_def)
qed

lemma sample_reachable: "reachable 9 sample_row sample_after"
proof -
  let ?both = "\<lparr>cs_row = sample_row,
    cs_pending = [(archive_by ''ann'', sample_row), (archive_by ''bob'', sample_row)]\<rparr>"
  have "reachable 9 sample_row \<lparr>cs_row = sample_row, cs_pending = [(archive_by ''ann'', sample_row)]\<rparr>"
    using next_step [OF start read_row, of 9 sample_row "archive_by ''ann''"] by simp
  from next_step [OF this read_row, of "archive_by ''bob''"]
  have both: "reachable 9 sample_row ?both" by simp
  have "cycle_step 9 ?both sample_after"
    using write_row [of ?both "[]" "archive_by ''ann''" sample_row "[(archive_by ''bob'', sample_row)]" 9]
    by (simp add: sample_after_def archive_by_def)
  then show ?thesis by (rule next_step [OF both])
qed

lemma sample_write:
  "\<exists>t. cycle_step 9 sample_after t \<and> cs_pending t = []"
  using write_row [of sample_after "[]" "archive_by ''bob''" sample_row "[]" 9]
  by (force simp: sample_after_def archive_by_def)

theorem cycle_writes_serial_witness:
  "\<exists>ops. cs_row sample_after = run_ops (handle 9) sample_row ops \<and> tc_revision (cs_row sample_after) = 2"
  using sample_write cycle_writes_serial [OF sample_reachable] sample_after_row by blast

theorem cycle_audit_trail_witness:
  "replay_reviews True (v_created_by sample_archived) (v_reviews sample_archived)
   = Some (v_status sample_archived, v_archived sample_archived)"
  using cycle_audit_trail [OF sample_reachable] sample_after_row
  by (simp add: audited_row_def sample_row_def audited_def sample_draft_def sample_version_def
      replay_reviews_def)

theorem cycle_history_ok_witness: "history_ok [sample_archived]"
proof -
  have "depends [sample_draft] = {}"
    by (auto simp: depends_def by_id_def sample_draft_def sample_version_def split: if_splits)
  then have "history_ok (tc_versions sample_row)"
    by (simp add: history_ok_def acyclic_def sample_row_def)
       (simp add: sample_draft_def sample_version_def truthy_id_def)
  from cycle_history_ok [OF sample_reachable this] show ?thesis
    by (simp add: sample_after_row)
qed

end
