(* ===== verification/Cycle_Handoff.thy ===== *)
theory Cycle_Handoff
  imports Cycle_Store
begin

text \<open>
  Follow-up actions of a cycle and the reuse of its documents as drafts of the next one
  (src/apex/domain/cycle_handoff.py). The identities and keys that the code draws from
  \<open>uuid4\<close> are arguments.
\<close>

subsection \<open>Follow-up actions\<close>

record followup_write =
  fw_idempotency_key :: string
  fw_action_id :: "string option"
  fw_title :: string
  fw_owner :: string
  fw_status :: string
  fw_note :: string

record followup_event =
  fe_title :: string
  fe_owner :: string
  fe_status :: string
  fe_note :: string
  fe_actor :: string
  fe_at :: string
  fe_request_key :: string
  fe_fingerprint :: string

record followup =
  fu_id :: string
  fu_created_by :: string
  fu_created_at :: string
  fu_title :: string
  fu_owner :: string
  fu_status :: string
  fu_note :: string
  fu_updated_at :: string
  fu_history :: "followup_event list"
  fu_origin :: "(string \<times> string) option"

text \<open>The digest of \<open>body.model_dump(exclude={"expected_revision", "idempotency_key"})\<close>.\<close>

definition followup_fingerprint :: "followup_write \<Rightarrow> string" where
  "followup_fingerprint b =
     the (version_digest
       [(''action_id'', opt_text_value (fw_action_id b)), (''title'', PStr (fw_title b)),
        (''owner'', PStr (fw_owner b)), (''status'', PStr (fw_status b)),
        (''note'', PStr (fw_note b))])"

definition all_events :: "followup list \<Rightarrow> followup_event list" where
  "all_events actions = concat (map fu_history actions)"

definition MAX_FOLLOWUPS :: nat where "MAX_FOLLOWUPS = 200"
definition MAX_FOLLOWUP_EVENTS :: nat where "MAX_FOLLOWUP_EVENTS = 100"

definition event_of :: "followup_write \<Rightarrow> string \<Rightarrow> string \<Rightarrow> followup_event" where
  "event_of b actor now =
     \<lparr>fe_title = fw_title b, fe_owner = fw_owner b, fe_status = fw_status b, fe_note = fw_note b,
      fe_actor = actor, fe_at = now, fe_request_key = fw_idempotency_key b,
      fe_fingerprint = followup_fingerprint b\<rparr>"

definition apply_followup :: "followup_write \<Rightarrow> string \<Rightarrow> string \<Rightarrow> followup \<Rightarrow> followup" where
  "apply_followup b actor now a =
     a\<lparr>fu_title := fw_title b, fu_owner := fw_owner b, fu_status := fw_status b,
       fu_note := fw_note b, fu_updated_at := now,
       fu_history := fu_history a @ [event_of b actor now]\<rparr>"

definition new_followup :: "string \<Rightarrow> string \<Rightarrow> string \<Rightarrow> followup" where
  "new_followup new_id actor now =
     \<lparr>fu_id = new_id, fu_created_by = actor, fu_created_at = now, fu_title = [], fu_owner = [],
      fu_status = [], fu_note = [], fu_updated_at = [], fu_history = [], fu_origin = None\<rparr>"

fun update_followup :: "string \<Rightarrow> (followup \<Rightarrow> followup) \<Rightarrow> followup list \<Rightarrow> followup list" where
  "update_followup k f [] = []"
| "update_followup k f (a # as) = (if fu_id a = k then f a # as else a # update_followup k f as)"

text \<open>The action of the request, if the request names one; an empty name counts as none.\<close>

definition target_followup :: "followup list \<Rightarrow> followup_write \<Rightarrow> followup option" where
  "target_followup actions b = find (\<lambda>a. Some (fu_id a) = fw_action_id b) actions"

definition write_followup ::
  "followup list \<Rightarrow> followup_write \<Rightarrow> string \<Rightarrow> string \<Rightarrow> string \<Rightarrow> (followup list \<times> bool) res" where
  "write_followup actions b actor new_id now =
     (case find (\<lambda>e. fe_request_key e = fw_idempotency_key b) (all_events actions) of
        Some e \<Rightarrow>
          if fe_fingerprint e \<noteq> followup_fingerprint b
          then Inl (ValueError ''Operation key was already used for a different action change'')
          else Inr (actions, True)
      | None \<Rightarrow>
          (case target_followup actions b of
             None \<Rightarrow>
               if truthy_id (fw_action_id b) then Inl (ValueError ''Action not found'')
               else if MAX_FOLLOWUPS \<le> length actions then Inl (ValueError ''Action limit reached'')
               else Inr (actions @ [apply_followup b actor now (new_followup new_id actor now)], False)
           | Some a \<Rightarrow>
               if MAX_FOLLOWUP_EVENTS \<le> length (fu_history a)
               then Inl (ValueError ''Action history limit reached'')
               else Inr (update_followup (fu_id a) (apply_followup b actor now) actions, False)))"

lemma target_followupD:
  "target_followup actions b = Some a \<Longrightarrow>
   find (\<lambda>x. fu_id x = fu_id a) actions = Some a \<and> a \<in> set actions"
proof -
  assume a: "target_followup actions b = Some a"
  then have n: "fw_action_id b = Some (fu_id a)" and "a \<in> set actions"
    by (auto simp: target_followup_def find_Some_iff)
  with a show ?thesis by (simp add: target_followup_def n)
qed

lemma update_followup_split:
  assumes "find (\<lambda>x. fu_id x = k) actions = Some a"
  shows "\<exists>us ws. actions = us @ a # ws \<and> update_followup k f actions = us @ f a # ws"
  using assms
proof (induction actions)
  case (Cons x xs)
  show ?case
  proof (cases "fu_id x = k")
    case True
    with Cons.prems show ?thesis by (intro exI [of _ "[]"] exI [of _ xs]) simp
  next
    case False
    with Cons obtain us ws where w: "xs = us @ a # ws" "update_followup k f xs = us @ f a # ws"
      by auto
    have "x # xs = (x # us) @ a # ws" by (simp add: w(1))
    moreover have "update_followup k f (x # xs) = (x # us) @ f a # ws" using False by (simp add: w(2))
    ultimately show ?thesis by blast
  qed
qed simp

text \<open>A write either replays, appends an action or extends one: the rest is untouched.\<close>

lemma write_followup_cases:
  assumes "write_followup actions b actor new_id now = Inr (actions', replay)"
  obtains
    e where "replay" "actions' = actions" "e \<in> set (all_events actions)"
      "fe_request_key e = fw_idempotency_key b" "fe_fingerprint e = followup_fingerprint b"
  | "\<not> replay" "length actions < MAX_FOLLOWUPS"
      "\<forall>e \<in> set (all_events actions). fe_request_key e \<noteq> fw_idempotency_key b"
      "actions' = actions @ [apply_followup b actor now (new_followup new_id actor now)]"
  | us a ws where "\<not> replay" "actions = us @ a # ws" "length (fu_history a) < MAX_FOLLOWUP_EVENTS"
      "\<forall>e \<in> set (all_events actions). fe_request_key e \<noteq> fw_idempotency_key b"
      "actions' = us @ apply_followup b actor now a # ws"
proof (cases "find (\<lambda>e. fe_request_key e = fw_idempotency_key b) (all_events actions)")
  case (Some e)
  then have "e \<in> set (all_events actions)" "fe_request_key e = fw_idempotency_key b"
    by (auto simp: find_Some_iff)
  with Some assms that(1) [of e] show ?thesis
    by (simp add: write_followup_def split: if_splits)
next
  case None
  then have fresh: "\<forall>e \<in> set (all_events actions). fe_request_key e \<noteq> fw_idempotency_key b"
    by (simp add: find_None_iff)
  show ?thesis
  proof (cases "target_followup actions b")
    case t: None
    with None assms fresh that(2) show ?thesis
      by (auto simp: write_followup_def split: if_splits)
  next
    case t: (Some a)
    from update_followup_split [OF conjunct1 [OF target_followupD [OF t]]] obtain us ws where
      "actions = us @ a # ws"
      "update_followup (fu_id a) (apply_followup b actor now) actions
        = us @ apply_followup b actor now a # ws" by blast
    with None t assms fresh that(3) show ?thesis
      by (auto simp: write_followup_def split: if_splits)
  qed
qed

lemma event_in_history: "event_of b actor now \<in> set (fu_history (apply_followup b actor now a))"
  by (simp add: apply_followup_def)

definition followups_bounded :: "followup list \<Rightarrow> bool" where
  "followups_bounded actions =
     (length actions \<le> MAX_FOLLOWUPS
      \<and> (\<forall>a \<in> set actions. length (fu_history a) \<le> MAX_FOLLOWUP_EVENTS)
      \<and> distinct (map fe_request_key (all_events actions)))"

lemma all_events_simps [simp]:
  "all_events [] = []" "all_events (a # as) = fu_history a @ all_events as"
  "all_events (as @ bs) = all_events as @ all_events bs"
  by (simp_all add: all_events_def)

lemma apply_followup_simps [simp]:
  "fu_history (apply_followup b actor now a) = fu_history a @ [event_of b actor now]"
  "fe_request_key (event_of b actor now) = fw_idempotency_key b"
  "fe_fingerprint (event_of b actor now) = followup_fingerprint b"
  "fu_history (new_followup new_id actor now) = []"
  by (simp_all add: apply_followup_def event_of_def new_followup_def)

lemma write_followup_recorded:
  assumes "write_followup actions b actor new_id now = Inr (actions', replay)"
  shows "\<exists>e \<in> set (all_events actions'). fe_request_key e = fw_idempotency_key b
          \<and> fe_fingerprint e = followup_fingerprint b"
  using assms
proof (cases rule: write_followup_cases)
  case (1 e)
  then show ?thesis by blast
next
  case 2
  then show ?thesis by (intro bexI [of _ "event_of b actor now"]) simp_all
next
  case (3 us a ws)
  then show ?thesis by (intro bexI [of _ "event_of b actor now"]) simp_all
qed

lemma write_followup_bounded:
  assumes "write_followup actions b actor new_id now = Inr (actions', replay)"
    and "followups_bounded actions"
  shows "followups_bounded actions'"
  using assms(1)
proof (cases rule: write_followup_cases)
  case (1 e)
  with assms(2) show ?thesis by simp
next
  case 2
  have "fw_idempotency_key b \<notin> fe_request_key ` set (all_events actions)"
    using 2(3) by (metis (mono_tags, lifting) imageE)
  with 2(2) assms(2) show ?thesis
    by (auto simp: 2(4) followups_bounded_def MAX_FOLLOWUP_EVENTS_def)
next
  case (3 us a ws)
  have "distinct (map fe_request_key (all_events (us @ a # ws)))"
    "length (us @ a # ws) \<le> MAX_FOLLOWUPS"
    "\<forall>a \<in> set (us @ a # ws). length (fu_history a) \<le> MAX_FOLLOWUP_EVENTS"
    using assms(2) unfolding 3(2) followups_bounded_def by blast+
  moreover have "fw_idempotency_key b \<notin> fe_request_key ` set (all_events (us @ a # ws))"
    using 3(2,4) by (metis (mono_tags, lifting) imageE)
  ultimately show ?thesis
    using 3(3) by (auto simp: 3(5) followups_bounded_def)
qed

text \<open>
  A follow-up request takes effect once: after a write that went through, the same request,
  repeated by anyone and at any time, changes nothing and is reported as a replay, and a
  different request under the same key is refused. The limits of 200 actions and 100 events
  each are kept, and no two events share a key.
\<close>

lemma write_followup_once:
  assumes "write_followup actions b actor new_id now = Inr (actions', replay)"
    and "followups_bounded actions"
  shows "write_followup actions' b actor2 id2 now2 = Inr (actions', True)
    \<and> followups_bounded actions'
    \<and> (\<forall>b'. fw_idempotency_key b' = fw_idempotency_key b
          \<and> followup_fingerprint b' \<noteq> followup_fingerprint b
          \<longrightarrow> \<not> is_ok (write_followup actions' b' actor2 id2 now2))"
proof -
  note bounded = write_followup_bounded [OF assms]
  note mine = write_followup_recorded [OF assms(1)]
  have find: "\<exists>e. find (\<lambda>e. fe_request_key e = fw_idempotency_key b) (all_events actions') = Some e
      \<and> fe_fingerprint e = followup_fingerprint b"
  proof -
    obtain e where e: "e \<in> set (all_events actions')" "fe_request_key e = fw_idempotency_key b"
      "fe_fingerprint e = followup_fingerprint b" using mine by blast
    then obtain f where f:
      "find (\<lambda>e. fe_request_key e = fw_idempotency_key b) (all_events actions') = Some f"
      by (metis (mono_tags, lifting) find_None_iff not_None_eq)
    then have "f \<in> set (all_events actions')" "fe_request_key f = fw_idempotency_key b"
      by (auto simp: find_Some_iff)
    with e bounded have "f = e"
      by (auto simp: followups_bounded_def distinct_map inj_on_def)
    with f e show ?thesis by blast
  qed
  then show ?thesis
    using bounded by (auto simp: write_followup_def)
qed

subsection \<open>Drafts for the next cycle\<close>

definition REUSED_SUMMARY :: string where
  "REUSED_SUMMARY = ''Reused as a draft; recheck source freshness, target and approvals.''"

definition REUSED_VALIDATION :: string where
  "REUSED_VALIDATION = ''Reused source requires fresh provider validation.''"

definition reusable :: "version list \<Rightarrow> string \<Rightarrow> version \<Rightarrow> bool" where
  "reusable vs key v =
     (v_kind v \<in> {''scope'', ''test_plan'', ''script''} \<and> \<not> v_archived v \<and> \<not> superseded vs key
      \<and> content_integrity v)"

definition draft_content :: "version \<Rightarrow> pydict" where
  "draft_content v =
     (if v_kind v = ''script'' then dset ''validation'' (PStr REUSED_VALIDATION) (v_content v)
      else v_content v)"

definition draft_of ::
  "(string \<Rightarrow> string option) \<Rightarrow> string \<Rightarrow> version \<Rightarrow> string \<Rightarrow> string \<Rightarrow> string \<Rightarrow> version" where
  "draft_of mapping key v actor now source_cycle =
     v\<lparr>v_id := the (mapping key), v_status := Draft, v_reviews := [], v_archived := False,
       v_replaces := None, v_dependencies := map (\<lambda>d. the (mapping d)) (v_dependencies v),
       v_created_by := actor, v_created_at := now,
       v_origin := Some \<lparr>vo_cycle_id = source_cycle, vo_version_id = key,
                         vo_checksum = v_checksum v\<rparr>,
       v_change_summary := REUSED_SUMMARY, v_content := draft_content v,
       v_checksum := (if v_kind v = ''script'' then the (version_digest (draft_content v))
                      else v_checksum v)\<rparr>"

definition reuse_draft ::
  "version list \<Rightarrow> (string \<Rightarrow> string option) \<Rightarrow> string \<Rightarrow> string \<Rightarrow> string \<Rightarrow> string \<Rightarrow> version res" where
  "reuse_draft vs mapping actor now source_cycle key =
     (case by_id vs key of
        None \<Rightarrow> Inl (ValueError ''Select active, intact scope, plan and script versions only'')
      | Some v \<Rightarrow>
          if \<not> reusable vs key v
          then Inl (ValueError ''Select active, intact scope, plan and script versions only'')
          else if \<exists>d \<in> set (v_dependencies v). mapping d = None
          then Inl (ValueError (''Include every upstream version required by the selected ''
                 @ ''deliverables''))
          else Inr (draft_of mapping key v actor now source_cycle))"

definition reuse_drafts ::
  "version list \<Rightarrow> string list \<Rightarrow> string list \<Rightarrow> string \<Rightarrow> string \<Rightarrow> string \<Rightarrow> version list res" where
  "reuse_drafts vs selected new_ids actor now source_cycle =
     rmap (reuse_draft vs (map_of (zip selected new_ids)) actor now source_cycle) selected"

text \<open>The unfinished actions of the parent, each written as a new open action.\<close>

definition carried :: "followup \<Rightarrow> string \<Rightarrow> followup_write" where
  "carried old key =
     \<lparr>fw_idempotency_key = key, fw_action_id = None, fw_title = fu_title old,
      fw_owner = fu_owner old, fw_status = ''open'',
      fw_note = ''Carried forward; reassess before beginning work.''\<rparr>"

definition mark_origin :: "string \<times> string \<Rightarrow> followup list \<Rightarrow> followup list" where
  "mark_origin og as = butlast as @ [(last as)\<lparr>fu_origin := Some og\<rparr>]"

fun reuse_actions ::
  "(followup \<times> string \<times> string) list \<Rightarrow> string \<Rightarrow> string \<Rightarrow> string \<Rightarrow> followup list \<Rightarrow> followup list res" where
  "reuse_actions [] source_cycle actor now acc = Inr acc"
| "reuse_actions ((old, key, new_id) # rest) source_cycle actor now acc =
     (if fu_status old = ''done'' \<or> fu_status old = ''cancelled''
      then reuse_actions rest source_cycle actor now acc
      else rbind (write_followup acc (carried old key) actor new_id now) (\<lambda>(as, replay).
           reuse_actions rest source_cycle actor now (mark_origin (source_cycle, fu_id old) as)))"

lemma acyclic_image:
  assumes "acyclic r" "\<And>a b. (a, b) \<in> s \<Longrightarrow> (f a, f b) \<in> r"
  shows "acyclic s"
proof -
  have "(f a, f b) \<in> r\<^sup>+" if "(a, b) \<in> s\<^sup>+" for a b
    using that by induction (auto intro: assms(2) trancl_into_trancl)
  with assms(1) show ?thesis by (auto simp: acyclic_def)
qed

lemma reuse_draft_InrD:
  assumes "reuse_draft vs mapping actor now source_cycle key = Inr d"
  obtains v where "by_id vs key = Some v" "reusable vs key v"
    "\<forall>k \<in> set (v_dependencies v). mapping k \<noteq> None"
    "d = draft_of mapping key v actor now source_cycle"
  using assms by (auto simp: reuse_draft_def split: option.splits if_splits)

lemma draft_of_simps [simp]:
  "v_id (draft_of m k v a n c) = the (m k)" "v_status (draft_of m k v a n c) = Draft"
  "v_replaces (draft_of m k v a n c) = None" "v_archived (draft_of m k v a n c) = False"
  "v_reviews (draft_of m k v a n c) = []"
  "v_dependencies (draft_of m k v a n c) = map (\<lambda>d. the (m d)) (v_dependencies v)"
  by (simp_all add: draft_of_def)

text \<open>
  The documents carried into the next cycle form a lawful history of their own: the new
  identities in the order of the selection, every dependency pointing to another carried
  document and acyclic, and all of them unreviewed drafts of which none counts as approved.
\<close>

lemma reuse_drafts_history:
  assumes ok: "reuse_drafts vs selected new_ids actor now source_cycle = Inr drafts"
    and sel: "distinct selected" "distinct new_ids" "length new_ids = length selected"
    and parent: "history_ok vs"
  shows "map v_id drafts = new_ids \<and> history_ok drafts
    \<and> (\<forall>d \<in> set drafts. v_status d = Draft \<and> v_reviews d = [] \<and> \<not> v_archived d)
    \<and> (\<forall>k. \<not> approval_current depth drafts k)"
proof -
  let ?m = "map_of (zip selected new_ids)"
  have all2: "list_all2 (\<lambda>k d. reuse_draft vs ?m actor now source_cycle k = Inr d) selected drafts"
    using ok by (simp add: reuse_drafts_def rmap_Inr_iff)
  have dom: "k \<in> set selected" if "?m k \<noteq> None" for k
    using that sel(3) by (simp add: map_of_zip_is_None)
  have look: "?m (selected ! i) = Some (new_ids ! i)" if "i < length selected" for i
    using that sel by (intro map_of_zip_nth) simp_all
  have len: "length drafts = length selected" using all2 by (simp add: list_all2_lengthD)
  have draft: "\<exists>v. by_id vs (selected ! i) = Some v
      \<and> (\<forall>k \<in> set (v_dependencies v). ?m k \<noteq> None)
      \<and> drafts ! i = draft_of ?m (selected ! i) v actor now source_cycle"
    if "i < length selected" for i
    using list_all2_nthD [OF all2 that] by (rule reuse_draft_InrD) blast
  have id: "v_id (drafts ! i) = new_ids ! i" if "i < length selected" for i
    using draft [OF that] look [OF that] by auto
  have ids: "map v_id drafts = new_ids"
    using len sel(3) id by (intro nth_equalityI) simp_all
  have drafts: "v_status d = Draft \<and> v_reviews d = [] \<and> \<not> v_archived d \<and> v_replaces d = None"
    if d: "d \<in> set drafts" for d
  proof -
    obtain i where i: "i < length selected" "d = drafts ! i" using d len by (auto simp: in_set_conv_nth)
    from draft [OF i(1)] i(2) show ?thesis by auto
  qed
  have dist: "distinct (map v_id drafts)" using ids sel(2) by simp
  text \<open>Each edge between drafts comes from an edge of the parent.\<close>
  obtain origin :: "string \<Rightarrow> string" where
    origin_def: "origin = (\<lambda>n. the (map_of (zip new_ids selected) n))" by blast
  have origin: "origin (new_ids ! i) = selected ! i" if "i < length selected" for i
    using that sel map_of_zip_nth [of new_ids selected i] by (simp add: origin_def)
  have edge: "(origin a, origin b) \<in> depends vs \<and> b \<in> set new_ids" if e: "(a, b) \<in> depends drafts" for a b
  proof -
    obtain d where d: "d \<in> set drafts" "v_id d = a" "b \<in> set (v_dependencies d)"
      using e by (auto simp: depends_iff [OF dist])
    then obtain i where i: "i < length selected" "d = drafts ! i"
      using len by (auto simp: in_set_conv_nth)
    from draft [OF i(1)] i(2) obtain v where v: "by_id vs (selected ! i) = Some v"
      "\<forall>k \<in> set (v_dependencies v). ?m k \<noteq> None"
      "d = draft_of ?m (selected ! i) v actor now source_cycle" by blast
    with d(3) obtain k where k: "k \<in> set (v_dependencies v)" "b = the (?m k)" by auto
    with v(2) dom have "k \<in> set selected" by blast
    then obtain j where j: "j < length selected" "k = selected ! j" by (auto simp: in_set_conv_nth)
    with k look have b: "b = new_ids ! j" by simp
    have "(selected ! i, k) \<in> depends vs" using v(1) k(1) by (auto simp: depends_def)
    moreover have "origin a = selected ! i" using d(2) i(2) id [OF i(1)] origin [OF i(1)] by simp
    ultimately show ?thesis using b j origin sel(3) by simp
  qed
  have "acyclic (depends vs)" using parent by (simp add: history_ok_def)
  then have "acyclic (depends drafts)"
    by (rule acyclic_image [where f = origin]) (use edge in blast)
  moreover have "set (v_dependencies d) \<subseteq> v_id ` set drafts" if "d \<in> set drafts" for d
  proof
    fix b assume "b \<in> set (v_dependencies d)"
    with that have "(v_id d, b) \<in> depends drafts" by (auto simp: depends_iff [OF dist])
    with edge have "b \<in> set (map v_id drafts)" by (auto simp: ids)
    then show "b \<in> v_id ` set drafts" by simp
  qed
  ultimately have "history_ok drafts"
    using dist drafts by (auto simp: history_ok_def truthy_id_def)
  moreover have "\<not> approval_current depth drafts k" for k
  proof
    assume "approval_current depth drafts k"
    then have "approved depth drafts k" by (simp add: approval_current_eq)
    then obtain v where "v \<in> set drafts" "v_status v = Approved"
      by cases (auto simp: version_usable_def dest: by_id_member)
    with drafts show False by fastforce
  qed
  ultimately show ?thesis using ids drafts by blast
qed

subsection \<open>A carried plan\<close>

definition sample_followup :: followup_write where
  "sample_followup = \<lparr>fw_idempotency_key = ''k'', fw_action_id = None, fw_title = ''t'',
     fw_owner = ''w'', fw_status = ''open'', fw_note = []\<rparr>"

definition scope_version :: version where
  "scope_version = (sample_version Approved)\<lparr>v_kind := ''scope''\<rparr>"

lemma scope_history: "history_ok [scope_version]"
proof -
  have "depends [scope_version] = {}"
    by (auto simp: depends_def by_id_def scope_version_def sample_version_def split: if_splits)
  then show ?thesis
    by (simp add: history_ok_def acyclic_def)
       (simp add: scope_version_def sample_version_def truthy_id_def)
qed

lemma scope_reused: "\<exists>ds. reuse_drafts [scope_version] [''p1''] [''n1''] ''ann'' ''now'' ''c'' = Inr ds"
proof -
  have "content_integrity scope_version"
    by (rule integrity_of_digest)
       (simp_all add: scope_version_def sample_version_def sample_content_def is_scalar_def)
  then show ?thesis
    by (simp add: reuse_drafts_def reuse_draft_def by_id_def reusable_def superseded_def)
       (simp add: scope_version_def sample_version_def)
qed

end
