(* ===== verification/Rate_Limits.thy ===== *)
theory Rate_Limits
  imports Py_Value
begin

text \<open>
  The limits that all replicas of the API share (src/apex/app/distributed_limits.py): request
  windows, authentication lockouts and leased stream slots. Each Lua script is one atomic
  function of the store and of the server's clock in milliseconds; the Redis commands that the
  scripts use are modelled with their key expiry. The methods of the backend add the key
  names, the clamping of the limits, and what a lost request, a lost reply or a cancelled
  caller leaves behind.
\<close>

subsection \<open>The store\<close>

text \<open>A sorted set is the scores of its members; a key may carry an expiry time.\<close>

record zset =
  z_members :: "(string, int) odict"
  z_expires_at :: "int option"

record redis =
  rd_zsets :: "string \<Rightarrow> zset"
  rd_strings :: "string \<Rightarrow> int option option"

definition no_zset :: zset where
  "no_zset = \<lparr>z_members = [], z_expires_at = None\<rparr>"

definition empty_redis :: redis where
  "empty_redis = \<lparr>rd_zsets = (\<lambda>_. no_zset), rd_strings = (\<lambda>_. None)\<rparr>"

text \<open>A command sees no key whose expiry has passed.\<close>

definition zset_at :: "int \<Rightarrow> redis \<Rightarrow> string \<Rightarrow> zset" where
  "zset_at now r k =
     (let z = rd_zsets r k
      in case z_expires_at z of None \<Rightarrow> z | Some e \<Rightarrow> if e < now then no_zset else z)"

definition put_zset :: "string \<Rightarrow> zset \<Rightarrow> redis \<Rightarrow> redis" where
  "put_zset k z r =
     r\<lparr>rd_zsets := (rd_zsets r)(k := if z_members z = [] then no_zset else z)\<rparr>"

definition zremrangebyscore :: "int \<Rightarrow> string \<Rightarrow> int \<Rightarrow> redis \<Rightarrow> redis" where
  "zremrangebyscore now k hi r =
     (let z = zset_at now r k
      in put_zset k (z\<lparr>z_members := filter (\<lambda>(m, s). hi < s) (z_members z)\<rparr>) r)"

definition zcard :: "int \<Rightarrow> string \<Rightarrow> redis \<Rightarrow> nat" where
  "zcard now k r = length (z_members (zset_at now r k))"

definition zscore :: "int \<Rightarrow> string \<Rightarrow> string \<Rightarrow> redis \<Rightarrow> int option" where
  "zscore now k m r = map_of (z_members (zset_at now r k)) m"

text \<open>The score of \<open>ZRANGE key 0 0\<close>.\<close>

definition min_score :: "int \<Rightarrow> string \<Rightarrow> redis \<Rightarrow> int" where
  "min_score now k r = Min (snd ` set (z_members (zset_at now r k)))"

definition zadd :: "int \<Rightarrow> string \<Rightarrow> int \<Rightarrow> string \<Rightarrow> redis \<Rightarrow> redis" where
  "zadd now k s m r =
     (let z = zset_at now r k in put_zset k (z\<lparr>z_members := dset m s (z_members z)\<rparr>) r)"

definition pexpire :: "int \<Rightarrow> string \<Rightarrow> int \<Rightarrow> redis \<Rightarrow> redis" where
  "pexpire now k ttl r =
     (let z = zset_at now r k
      in if z_members z = [] then r else put_zset k (z\<lparr>z_expires_at := Some (now + ttl)\<rparr>) r)"

definition zrem :: "int \<Rightarrow> string \<Rightarrow> string \<Rightarrow> redis \<Rightarrow> redis" where
  "zrem now k m r =
     (let z = zset_at now r k in put_zset k (z\<lparr>z_members := ddel m (z_members z)\<rparr>) r)"

text \<open>\<open>PTTL\<close>: \<open>-2\<close> for a missing key, \<open>-1\<close> for one that never expires.\<close>

definition pttl :: "int \<Rightarrow> string \<Rightarrow> redis \<Rightarrow> int" where
  "pttl now k r =
     (case rd_strings r k of
        None \<Rightarrow> - 2
      | Some None \<Rightarrow> - 1
      | Some (Some e) \<Rightarrow> if e < now then - 2 else e - now)"

definition set_px :: "int \<Rightarrow> string \<Rightarrow> int \<Rightarrow> redis \<Rightarrow> redis" where
  "set_px now k ttl r = r\<lparr>rd_strings := (rd_strings r)(k \<mapsto> Some (now + ttl))\<rparr>"

definition del_key :: "string \<Rightarrow> redis \<Rightarrow> redis" where
  "del_key k r = r\<lparr>rd_zsets := (rd_zsets r)(k := no_zset), rd_strings := (rd_strings r)(k := None)\<rparr>"

definition ceil_seconds :: "int \<Rightarrow> int" where
  "ceil_seconds ms = - ((- ms) div 1000)"

subsection \<open>The scripts\<close>

text \<open>\<open>_FIXED_WINDOW_SCRIPT\<close>: trim and count every key, then admit to all of them or none.\<close>

fun window_scan :: "int \<Rightarrow> int \<Rightarrow> (string \<times> nat) list \<Rightarrow> redis \<Rightarrow> int \<Rightarrow> redis \<times> int" where
  "window_scan now window [] r retry = (r, retry)"
| "window_scan now window ((k, lm) # ks) r retry =
     (let r1 = zremrangebyscore now k (now - window) r
      in if lm \<le> zcard now k r1
         then window_scan now window ks r1
                (max retry (max (ceil_seconds (min_score now k r1 + window - now)) 1))
         else window_scan now window ks r1 retry)"

fun window_admit :: "int \<Rightarrow> int \<Rightarrow> string \<Rightarrow> (string \<times> nat) list \<Rightarrow> redis \<Rightarrow> redis" where
  "window_admit now window m [] r = r"
| "window_admit now window m ((k, lm) # ks) r =
     window_admit now window m ks (pexpire now k (window + 1000) (zadd now k now m r))"

definition window_script ::
  "int \<Rightarrow> int \<Rightarrow> string \<Rightarrow> (string \<times> nat) list \<Rightarrow> redis \<Rightarrow> int \<times> redis" where
  "window_script now window m ks r =
     (let (r1, retry) = window_scan now window ks r 0
      in if 0 < retry then (retry, r1) else (0, window_admit now window m ks r1))"

text \<open>\<open>_AUTH_RETRY_SCRIPT\<close>.\<close>

fun auth_retry_script :: "int \<Rightarrow> string list \<Rightarrow> redis \<Rightarrow> int \<Rightarrow> int" where
  "auth_retry_script now [] r retry = retry"
| "auth_retry_script now (k # ks) r retry =
     (let ttl = pttl now k r
      in auth_retry_script now ks r
           (if ttl = - 1 then max retry 1
            else if 0 < ttl then max retry (max (ceil_seconds ttl) 1) else retry))"

text \<open>\<open>_AUTH_FAILURE_SCRIPT\<close>: the keys come in pairs of a failure set and its lock.\<close>

fun auth_failure_script ::
  "int \<Rightarrow> nat \<Rightarrow> int \<Rightarrow> int \<Rightarrow> string \<Rightarrow> (string \<times> string) list \<Rightarrow> redis \<Rightarrow> redis" where
  "auth_failure_script now lm window lockout m [] r = r"
| "auth_failure_script now lm window lockout m ((f, l) # ks) r =
     (let r1 = zremrangebyscore now f (now - window) r;
          r2 = pexpire now f (max window lockout + 1000) (zadd now f now m r1);
          r3 = (if lm \<le> zcard now f r2 then set_px now l lockout r2 else r2)
      in auth_failure_script now lm window lockout m ks r3)"

definition delete_script :: "string list \<Rightarrow> redis \<Rightarrow> redis" where
  "delete_script ks r = foldl (\<lambda>r k. del_key k r) r ks"

text \<open>\<open>_STREAM_ACQUIRE_SCRIPT\<close>: the first full key ends the script.\<close>

fun stream_scan :: "int \<Rightarrow> (string \<times> nat) list \<Rightarrow> redis \<Rightarrow> bool \<times> redis" where
  "stream_scan now [] r = (True, r)"
| "stream_scan now ((k, lm) # ks) r =
     (let r1 = zremrangebyscore now k now r
      in if lm \<le> zcard now k r1 then (False, r1) else stream_scan now ks r1)"

fun stream_put :: "int \<Rightarrow> int \<Rightarrow> string \<Rightarrow> string list \<Rightarrow> redis \<Rightarrow> redis" where
  "stream_put now ttl m [] r = r"
| "stream_put now ttl m (k # ks) r =
     stream_put now ttl m ks (pexpire now k (ttl + 5000) (zadd now k (now + ttl) m r))"

definition acquire_script ::
  "int \<Rightarrow> int \<Rightarrow> string \<Rightarrow> (string \<times> nat) list \<Rightarrow> redis \<Rightarrow> bool \<times> redis" where
  "acquire_script now ttl m ks r =
     (let (free, r1) = stream_scan now ks r
      in if free then (True, stream_put now ttl m (map fst ks) r1) else (False, r1))"

text \<open>\<open>_STREAM_RENEW_SCRIPT\<close>: a lease that any key has lost is not renewed.\<close>

fun renew_scan :: "int \<Rightarrow> string \<Rightarrow> string list \<Rightarrow> redis \<Rightarrow> bool \<times> redis" where
  "renew_scan now m [] r = (True, r)"
| "renew_scan now m (k # ks) r =
     (let r1 = zremrangebyscore now k now r
      in if zscore now k m r1 = None then (False, r1) else renew_scan now m ks r1)"

definition renew_script :: "int \<Rightarrow> int \<Rightarrow> string \<Rightarrow> string list \<Rightarrow> redis \<Rightarrow> bool \<times> redis" where
  "renew_script now ttl m ks r =
     (let (held, r1) = renew_scan now m ks r
      in if held then (True, stream_put now ttl m ks r1) else (False, r1))"

definition release_script :: "int \<Rightarrow> string \<Rightarrow> string list \<Rightarrow> redis \<Rightarrow> redis" where
  "release_script now m ks r = foldl (\<lambda>r k. zrem now k m r) r ks"

subsection \<open>The backend\<close>

definition PREFIX :: string where
  "PREFIX = ''apex:{limits}:v1''"

definition subject_token :: "string \<Rightarrow> string" where
  "subject_token s = sha256_hex (utf8 s)"

definition limit_key :: "string \<Rightarrow> string \<Rightarrow> string" where
  "limit_key ns s = PREFIX @ '':'' @ ns @ '':'' @ subject_token s"

text \<open>The failure set and the lock of every subject.\<close>

definition auth_keys :: "string list \<Rightarrow> (string \<times> string) list" where
  "auth_keys subjects =
     map (\<lambda>s. (PREFIX @ '':auth-failures:'' @ subject_token s,
               PREFIX @ '':auth-lockout:'' @ subject_token s)) subjects"

definition at_least_one :: "int \<Rightarrow> nat" where
  "at_least_one n = nat (max n 1)"

definition millis :: "int \<Rightarrow> int" where
  "millis s = max s 1 * 1000"

text \<open>How a call to Redis ends: answered, failed before the script ran, or failed after it.\<close>

datatype transport = Answered | RequestLost | ReplyLost

datatype limit_error = Unavailable | InvalidNamespace | InvalidKeys | Cancelled

definition eval :: "transport \<Rightarrow> 'a \<times> redis \<Rightarrow> redis \<Rightarrow> (limit_error + 'a) \<times> redis" where
  "eval t outcome r =
     (case t of
        Answered \<Rightarrow> (Inr (fst outcome), snd outcome)
      | RequestLost \<Rightarrow> (Inl Unavailable, r)
      | ReplyLost \<Rightarrow> (Inl Unavailable, snd outcome))"

definition keyed :: "string \<Rightarrow> (string \<times> int) list \<Rightarrow> (string \<times> nat) list" where
  "keyed ns limits = map (\<lambda>(s, n). (limit_key ns s, at_least_one n)) limits"

definition opt_retry :: "int \<Rightarrow> int option" where
  "opt_retry n = (if n = 0 then None else Some n)"

definition check_window ::
  "transport \<Rightarrow> int \<Rightarrow> string \<Rightarrow> string \<Rightarrow> (string \<times> int) list \<Rightarrow> int \<Rightarrow> redis
   \<Rightarrow> (limit_error + int option) \<times> redis" where
  "check_window t now token ns limits window_s r =
     (if ns \<noteq> ''request'' \<and> ns \<noteq> ''run-create'' then (Inl InvalidNamespace, r)
      else if limits = [] then (Inr None, r)
      else let (res, r1) = eval t (window_script now (millis window_s) token (keyed ns limits) r) r
           in (map_sum id opt_retry res, r1))"

definition auth_retry_after ::
  "transport \<Rightarrow> int \<Rightarrow> string list \<Rightarrow> redis \<Rightarrow> (limit_error + int option) \<times> redis" where
  "auth_retry_after t now subjects r =
     (let locks = map snd (auth_keys subjects)
      in if locks = [] then (Inr None, r)
         else let (res, r1) = eval t (auth_retry_script now locks r 0, r) r
              in (map_sum id opt_retry res, r1))"

definition record_auth_failure ::
  "transport \<Rightarrow> int \<Rightarrow> string \<Rightarrow> string list \<Rightarrow> int \<Rightarrow> int \<Rightarrow> int \<Rightarrow> redis
   \<Rightarrow> (limit_error + unit) \<times> redis" where
  "record_auth_failure t now token subjects lm window_s lockout_s r =
     (if subjects = [] then (Inr (), r)
      else eval t ((), auth_failure_script now (at_least_one lm) (millis window_s)
                         (millis lockout_s) token (auth_keys subjects) r) r)"

definition clear_auth ::
  "transport \<Rightarrow> string list \<Rightarrow> redis \<Rightarrow> (limit_error + unit) \<times> redis" where
  "clear_auth t subjects r =
     (if subjects = [] then (Inr (), r)
      else eval t ((), delete_script (concat (map (\<lambda>(f, l). [f, l]) (auth_keys subjects))) r) r)"

record stream_lease =
  sl_id :: string
  sl_keys :: "string list"

definition stream_keys :: "string list \<Rightarrow> int \<Rightarrow> int \<Rightarrow> int \<Rightarrow> (string \<times> nat) list" where
  "stream_keys ks global source credential =
     [(PREFIX @ '':sse:global'', at_least_one global),
      (limit_key ''sse-source'' (ks ! 0), at_least_one source)]
     @ (if 1 < length ks then [(limit_key ''sse-credential'' (ks ! 1), at_least_one credential)]
        else [])"

text \<open>
  Admission of a stream. A cancelled caller, like a failed call, first waits for the command to
  settle and then releases the exact lease; \<open>t\<close> and \<open>tr\<close> are the transports of the
  two commands, \<open>now'\<close> the time of the second.
\<close>

definition acquire_stream ::
  "transport \<Rightarrow> transport \<Rightarrow> bool \<Rightarrow> int \<Rightarrow> int \<Rightarrow> string \<Rightarrow> string list \<Rightarrow> int \<Rightarrow> int \<Rightarrow> int \<Rightarrow> int
   \<Rightarrow> redis \<Rightarrow> (limit_error + stream_lease option) \<times> redis" where
  "acquire_stream t tr cancelled now now' lease_id ks global source credential ttl_s r =
     (if ks = [] then (Inl InvalidKeys, r)
      else let rks = stream_keys ks global source credential;
               (res, r1) = eval t (acquire_script now (millis ttl_s) lease_id rks r) r;
               r2 = snd (eval tr ((), release_script now' lease_id (map fst rks) r1) r1)
           in if cancelled then (Inl Cancelled, r2)
              else case res of
                     Inl e \<Rightarrow> (Inl e, r2)
                   | Inr got \<Rightarrow>
                       (Inr (if got then Some \<lparr>sl_id = lease_id, sl_keys = map fst rks\<rparr>
                             else None), r1))"

definition renew_stream ::
  "transport \<Rightarrow> int \<Rightarrow> stream_lease \<Rightarrow> int \<Rightarrow> redis \<Rightarrow> (limit_error + bool) \<times> redis" where
  "renew_stream t now l ttl_s r =
     eval t (renew_script now (millis ttl_s) (sl_id l) (sl_keys l) r) r"

definition release_stream ::
  "transport \<Rightarrow> int \<Rightarrow> stream_lease \<Rightarrow> redis \<Rightarrow> (limit_error + unit) \<times> redis" where
  "release_stream t now l r = eval t ((), release_script now (sl_id l) (sl_keys l) r) r"

subsection \<open>Live entries\<close>

text \<open>
  An entry of score \<open>s\<close> is live at time \<open>t\<close> while \<open>t - lag < s\<close>: the lag of a request window
  is its length, that of a lease is zero. New entries have the score \<open>t + gain\<close>. As long as
  the clock of the server does not run backwards, no key expires before its live entries do.
\<close>

definition raw :: "redis \<Rightarrow> string \<Rightarrow> string \<Rightarrow> int option" where
  "raw r k = map_of (z_members (rd_zsets r k))"

definition live :: "int \<Rightarrow> int \<Rightarrow> redis \<Rightarrow> string \<Rightarrow> string \<Rightarrow> int option" where
  "live lag t r k m =
     (case raw r k m of None \<Rightarrow> None | Some s \<Rightarrow> if t - lag < s then Some s else None)"

definition key_ok :: "int \<Rightarrow> int \<Rightarrow> int \<Rightarrow> zset \<Rightarrow> bool" where
  "key_ok lag gain t z =
     (distinct (map fst (z_members z))
      \<and> (\<forall>(m, s) \<in> set (z_members z).
           s \<le> t + gain \<and> (\<exists>e. z_expires_at z = Some e \<and> s + lag \<le> e)))"

definition keys_ok :: "int \<Rightarrow> int \<Rightarrow> string set \<Rightarrow> int \<Rightarrow> redis \<Rightarrow> bool" where
  "keys_ok lag gain K t r = (\<forall>k \<in> K. key_ok lag gain t (rd_zsets r k))"

lemma key_ok_no_zset [simp]: "key_ok lag gain t no_zset"
  by (simp add: key_ok_def no_zset_def)

lemma key_ok_later: "key_ok lag gain t z \<Longrightarrow> t \<le> t' \<Longrightarrow> key_ok lag gain t' z"
  by (fastforce simp: key_ok_def)

lemma keys_ok_later: "keys_ok lag gain K t r \<Longrightarrow> t \<le> t' \<Longrightarrow> keys_ok lag gain K t' r"
  by (auto simp: keys_ok_def intro: key_ok_later)

lemma keys_ok_empty: "keys_ok lag gain K t empty_redis"
  by (simp add: keys_ok_def empty_redis_def)

lemma live_empty: "live lag t empty_redis k m = None"
  by (simp add: live_def raw_def empty_redis_def no_zset_def)

lemma live_later: "t \<le> t' \<Longrightarrow> live lag t' r k m = Some s \<Longrightarrow> live lag t r k m = Some s"
  by (auto simp: live_def split: option.splits if_splits)

lemma dom_live_later: "t \<le> t' \<Longrightarrow> dom (live lag t' r k) \<subseteq> dom (live lag t r k)"
  by (auto simp: dom_def dest: live_later)

lemma finite_dom_live [simp]: "finite (dom (live lag t r k))"
proof -
  have "dom (live lag t r k) \<subseteq> dom (raw r k)"
    by (auto simp: live_def split: option.splits)
  then show ?thesis by (rule finite_subset) (simp add: raw_def finite_dom_map_of)
qed

text \<open>What a command sees of a key that is in order: every live entry, and nothing else new.\<close>

lemma zset_at_live:
  assumes "key_ok lag gain t (rd_zsets r k)" "t \<le> t'"
  shows "(case map_of (z_members (zset_at t' r k)) m of
            None \<Rightarrow> None | Some s \<Rightarrow> if t' - lag < s then Some s else None) = live lag t' r k m"
proof (cases "\<exists>e. z_expires_at (rd_zsets r k) = Some e \<and> e < t'")
  case True
  then have "live lag t' r k m = None"
    using assms(1)
    by (fastforce simp: live_def raw_def key_ok_def dest: map_of_SomeD split: option.splits)
  with True show ?thesis by (auto simp: zset_at_def Let_def no_zset_def)
next
  case False
  then have "zset_at t' r k = rd_zsets r k"
    by (auto simp: zset_at_def Let_def split: option.splits)
  then show ?thesis by (simp add: live_def raw_def)
qed

lemma key_ok_zset_at: "key_ok lag gain t (rd_zsets r k) \<Longrightarrow> key_ok lag gain t (zset_at t' r k)"
  by (auto simp: zset_at_def Let_def split: option.split)

lemma rd_put_zset:
  "rd_zsets (put_zset k z r) k' =
     (if k' = k then (if z_members z = [] then no_zset else z) else rd_zsets r k')"
  by (simp add: put_zset_def)

lemma raw_put_zset:
  "raw (put_zset k z r) k' = (if k' = k then map_of (z_members z) else raw r k')"
  by (simp add: raw_def rd_put_zset no_zset_def)

subsection \<open>Trimming and counting\<close>

lemma map_of_filter_score:
  "distinct (map fst d) \<Longrightarrow>
   map_of (filter (\<lambda>(m, s). c < s) d) m
   = (case map_of d m of None \<Rightarrow> None | Some s \<Rightarrow> if c < s then Some s else None)"
proof (induction d)
  case (Cons p d)
  then have "fst p \<notin> fst ` set (filter (\<lambda>(m, s). c < s) d)" by auto
  with Cons show ?case
    by (cases p) (auto simp: map_of_eq_None_iff image_iff split: option.splits)
qed simp

lemma trim_ok:
  assumes "keys_ok lag gain K t r"
  shows "keys_ok lag gain K t (zremrangebyscore t k c r)"
proof -
  have "key_ok lag gain t (zset_at t r k\<lparr>z_members := filter (\<lambda>(m, s). c < s) (z_members (zset_at t r k))\<rparr>)"
    if "k \<in> K"
    using key_ok_zset_at [of lag gain t r k t] assms that
    by (fastforce simp: keys_ok_def key_ok_def distinct_map_filter)
  with assms show ?thesis
    by (auto simp: keys_ok_def zremrangebyscore_def Let_def rd_put_zset)
qed

lemma trim_raw:
  assumes "keys_ok lag gain K t r" "k \<in> K"
  shows "raw (zremrangebyscore t k (t - lag) r) k' =
     (if k' = k then live lag t r k else raw r k')"
proof -
  have k: "key_ok lag gain t (rd_zsets r k)" using assms by (simp add: keys_ok_def)
  then have d: "distinct (map fst (z_members (zset_at t r k)))"
    using key_ok_zset_at [OF k, of t] by (simp add: key_ok_def)
  show ?thesis
    using zset_at_live [OF k order_refl]
    by (auto simp: zremrangebyscore_def Let_def raw_put_zset map_of_filter_score [OF d] fun_eq_iff)
qed

lemma trim_live:
  assumes "keys_ok lag gain K t r" "k \<in> K" "t \<le> t'"
  shows "live lag t' (zremrangebyscore t k (t - lag) r) k' = live lag t' r k'"
  using assms(3)
  by (auto simp: live_def trim_raw [OF assms(1,2)] fun_eq_iff split: option.split)

lemma trim_card:
  assumes "keys_ok lag gain K t r" "k \<in> K"
  shows "zcard t k (zremrangebyscore t k (t - lag) r) = card (dom (live lag t r k))"
proof -
  let ?z = "zset_at t r k"
  let ?m = "filter (\<lambda>(m, s). t - lag < s) (z_members ?z)"
  have k: "key_ok lag gain t (rd_zsets r k)" using assms by (simp add: keys_ok_def)
  have d: "distinct (map fst (z_members ?z))"
    using key_ok_zset_at [OF k, of t] by (simp add: key_ok_def)
  have "map_of ?m = live lag t r k"
    using zset_at_live [OF k order_refl] by (auto simp: map_of_filter_score [OF d] fun_eq_iff)
  then have "dom (live lag t r k) = fst ` set ?m"
    using dom_map_of_conv_image_fst [of ?m] by (simp only:)
  moreover have "card (fst ` set ?m) = length ?m"
    using d distinct_map_filter [of fst "z_members ?z"] distinct_card [of "map fst ?m"] by simp
  moreover have "zset_at t (zremrangebyscore t k (t - lag) r) k = (if ?m = [] then no_zset else ?z\<lparr>z_members := ?m\<rparr>)"
    by (auto simp: zremrangebyscore_def Let_def zset_at_def rd_put_zset no_zset_def split: option.splits)
  ultimately show ?thesis by (simp add: zcard_def no_zset_def)
qed

subsection \<open>Adding an entry\<close>

definition zput :: "int \<Rightarrow> string \<Rightarrow> int \<Rightarrow> string \<Rightarrow> int \<Rightarrow> redis \<Rightarrow> redis" where
  "zput t k s m ttl r = pexpire t k ttl (zadd t k s m r)"

lemma zput_zset:
  assumes "0 \<le> ttl"
  shows "rd_zsets (zput t k s m ttl r) k' =
     (if k' = k then \<lparr>z_members = dset m s (z_members (zset_at t r k)), z_expires_at = Some (t + ttl)\<rparr>
      else rd_zsets r k')"
proof -
  have ne: "dset m s d \<noteq> []" for d :: "(string, int) odict"
    by (cases d) (auto split: if_splits)
  have "z_expires_at (zset_at t r k) = Some e \<Longrightarrow> \<not> e < t" for e
    by (auto simp: zset_at_def Let_def no_zset_def split: option.splits if_splits)
  then have "zset_at t (zadd t k s m r) k = (zset_at t r k)\<lparr>z_members := dset m s (z_members (zset_at t r k))\<rparr>"
    by (auto simp: zadd_def zset_at_def [of t "put_zset _ _ _"] Let_def rd_put_zset ne split: option.split)
  then show ?thesis
    by (auto simp: zput_def pexpire_def Let_def rd_put_zset ne zadd_def)
qed

lemma zput_ok:
  assumes "keys_ok lag gain K t r" "0 \<le> gain + lag" "gain + lag \<le> ttl"
  shows "keys_ok lag gain K t (zput t k (t + gain) m ttl r)"
proof -
  have ttl: "0 \<le> ttl" using assms by simp
  have "key_ok lag gain t \<lparr>z_members = dset m (t + gain) (z_members (zset_at t r k)),
      z_expires_at = Some (t + ttl)\<rparr>" if "k \<in> K"
  proof -
    have z: "key_ok lag gain t (zset_at t r k)"
      using assms(1) that by (simp add: keys_ok_def key_ok_zset_at)
    have "(n, s) \<in> set (dset m (t + gain) d) \<Longrightarrow> (n, s) \<in> set d \<or> s = t + gain"
      for n s and d :: "(string, int) odict"
      by (induction d) (auto split: if_splits)
    with z assms(3) show ?thesis
      by (fastforce simp: key_ok_def distinct_dset)
  qed
  with assms(1) show ?thesis by (auto simp: keys_ok_def zput_zset [OF ttl])
qed

lemma zput_live:
  assumes "keys_ok lag gain K t r" "k \<in> K" "0 \<le> ttl" "t \<le> t'"
  shows "live lag t' (zput t k s m ttl r) k' =
     (if k' = k then (live lag t' r k)(m := if t' - lag < s then Some s else None) else live lag t' r k')"
proof (cases "k' = k")
  case True
  have k: "key_ok lag gain t (rd_zsets r k)" using assms by (simp add: keys_ok_def)
  have "live lag t' r k n = (case map_of (z_members (zset_at t r k)) n of
      None \<Rightarrow> None | Some s \<Rightarrow> if t' - lag < s then Some s else None)" for n
    using zset_at_live [OF k order_refl, of n] assms(4)
    by (auto simp: live_def split: option.splits if_splits)
  then show ?thesis
    using True by (auto simp: live_def [of lag t' "zput _ _ _ _ _ _"] raw_def zput_zset [OF assms(3)] fun_eq_iff)
qed (simp add: live_def raw_def zput_zset [OF assms(3)] fun_eq_iff)

lemma zrem_ok:
  assumes "keys_ok lag gain K t r"
  shows "keys_ok lag gain K t (zrem t k m r)"
proof -
  have "key_ok lag gain t ((zset_at t r k)\<lparr>z_members := ddel m (z_members (zset_at t r k))\<rparr>)" if "k \<in> K"
    using key_ok_zset_at [of lag gain t r k t] assms that
    by (fastforce simp: keys_ok_def key_ok_def ddel_def distinct_map_filter)
  with assms show ?thesis by (auto simp: keys_ok_def zrem_def Let_def rd_put_zset)
qed

lemma zrem_raw:
  "raw (zrem t k m r) k' =
     (if k' = k then (map_of (z_members (zset_at t r k)))(m := None) else raw r k')"
  by (simp add: zrem_def Let_def raw_put_zset map_of_ddel)

lemma zrem_live:
  assumes "keys_ok lag gain K t r" "k \<in> K" "t \<le> t'"
  shows "live lag t' (zrem t k m r) k' =
     (if k' = k then (live lag t' r k)(m := None) else live lag t' r k')"
proof (cases "k' = k")
  case True
  have k: "key_ok lag gain t (rd_zsets r k)" using assms by (simp add: keys_ok_def)
  have "live lag t' r k n = (case map_of (z_members (zset_at t r k)) n of
      None \<Rightarrow> None | Some s \<Rightarrow> if t' - lag < s then Some s else None)" for n
    using zset_at_live [OF k order_refl, of n] assms(3)
    by (auto simp: live_def split: option.splits if_splits)
  then show ?thesis
    using True by (auto simp: live_def [of lag t' "zrem _ _ _ _"] zrem_raw fun_eq_iff)
qed (simp add: live_def zrem_raw fun_eq_iff)

subsection \<open>The request window\<close>

definition room :: "int \<Rightarrow> int \<Rightarrow> redis \<Rightarrow> (string \<times> nat) \<Rightarrow> bool" where
  "room lag t r kn = (card (dom (live lag t r (fst kn))) < snd kn)"

lemma ceil_seconds_ge: "x \<le> 1000 * ceil_seconds x"
  by (simp add: ceil_seconds_def)

lemma room_live: "live lag t r = live lag t r' \<Longrightarrow> room lag t r = room lag t r'"
  by (rule ext) (simp add: room_def)

text \<open>The oldest entry of a full key is live, and the wait lasts until it is not.\<close>

lemma oldest_live:
  assumes "keys_ok lag gain K t r" "k \<in> K" "0 < card (dom (live lag t r k))"
  shows "\<exists>m. live lag t r k m = Some (min_score t k (zremrangebyscore t k (t - lag) r))"
proof -
  let ?r = "zremrangebyscore t k (t - lag) r"
  have ok: "key_ok lag gain t (rd_zsets ?r k)"
    using trim_ok [OF assms(1)] assms(2) by (simp add: keys_ok_def)
  have d: "distinct (map fst (z_members (zset_at t ?r k)))"
    using key_ok_zset_at [OF ok, of t] by (simp add: key_ok_def)
  have "zcard t k ?r \<noteq> 0" using trim_card [OF assms(1,2)] assms(3) by linarith
  then have ne: "snd ` set (z_members (zset_at t ?r k)) \<noteq> {}" by (simp add: zcard_def)
  then have "min_score t k ?r \<in> snd ` set (z_members (zset_at t ?r k))"
    unfolding min_score_def by (intro Min_in) simp_all
  then obtain m where "(m, min_score t k ?r) \<in> set (z_members (zset_at t ?r k))" by force
  then have m: "map_of (z_members (zset_at t ?r k)) m = Some (min_score t k ?r)"
    using d by simp
  have same: "live lag t ?r k = live lag t r k"
    by (rule ext) (simp add: trim_live [OF assms(1,2) order_refl])
  have "rd_zsets ?r k = zset_at t ?r k \<or> zset_at t ?r k = no_zset"
    by (auto simp: zset_at_def Let_def split: option.split)
  with m have "raw ?r k m = Some (min_score t k ?r)" by (auto simp: raw_def no_zset_def)
  moreover have "raw ?r k m = live lag t r k m" by (simp add: trim_raw [OF assms(1,2)])
  ultimately show ?thesis by auto
qed

lemma window_scan_spec:
  assumes "keys_ok lag gain K t r" "fst ` set ks \<subseteq> K" "window_scan t lag ks r retry = (r', retry')"
    and "\<forall>kn \<in> set ks. 0 < snd kn"
  shows "keys_ok lag gain K t r'" "t \<le> t' \<Longrightarrow> live lag t' r' = live lag t' r"
    "retry \<le> retry'" "retry' = 0 \<Longrightarrow> 0 \<le> retry \<Longrightarrow> \<forall>kn \<in> set ks. room lag t r kn"
    "kn \<in> set ks \<Longrightarrow> \<not> room lag t r kn \<Longrightarrow>
       1 \<le> retry' \<and> (\<exists>m s. live lag t r (fst kn) m = Some s \<and> s + lag - t \<le> 1000 * retry')"
    "(\<forall>kn \<in> set ks. room lag t r kn) \<Longrightarrow> retry' = retry"
proof -
  have "keys_ok lag gain K t r'
    \<and> (\<forall>t' \<ge> t. live lag t' r' = live lag t' r) \<and> retry \<le> retry'
    \<and> (\<forall>kn \<in> set ks. \<not> room lag t r kn \<longrightarrow>
         1 \<le> retry' \<and> (\<exists>m s. live lag t r (fst kn) m = Some s \<and> s + lag - t \<le> 1000 * retry'))
    \<and> ((\<forall>kn \<in> set ks. room lag t r kn) \<longrightarrow> retry' = retry)"
    using assms
  proof (induction ks arbitrary: r retry)
    case Nil
    then show ?case by simp
  next
    case (Cons kn ks)
    obtain k n where kn: "kn = (k, n)" by (cases kn)
    have k: "k \<in> K" using Cons.prems(2) kn by simp
    let ?r = "zremrangebyscore t k (t - lag) r"
    let ?wait = "max (ceil_seconds (min_score t k ?r + lag - t)) 1"
    let ?retry = "if n \<le> zcard t k ?r then max retry ?wait else retry"
    have ok: "keys_ok lag gain K t ?r" by (rule trim_ok [OF Cons.prems(1)])
    have live: "live lag t' ?r = live lag t' r" if "t \<le> t'" for t'
      by (rule ext)+ (simp add: trim_live [OF Cons.prems(1) k that])
    have run: "window_scan t lag ks ?r ?retry = (r', retry')"
      using Cons.prems(3) by (simp add: kn Let_def split: if_splits)
    have pos: "\<forall>kn \<in> set ks. 0 < snd kn" "0 < n" using Cons.prems(4) kn by auto
    note ih = Cons.IH [OF ok _ run pos(1)]
    have sub: "fst ` set ks \<subseteq> K" using Cons.prems(2) by simp
    have full: "n \<le> zcard t k ?r \<longleftrightarrow> \<not> room lag t r kn"
      by (auto simp: kn room_def trim_card [OF Cons.prems(1) k])
    have here: "1 \<le> retry' \<and> (\<exists>m s. live lag t r k m = Some s \<and> s + lag - t \<le> 1000 * retry')"
      if "\<not> room lag t r kn"
    proof -
      have "0 < card (dom (live lag t r k))" using that pos(2) by (simp add: kn room_def)
      from oldest_live [OF Cons.prems(1) k this] obtain m where
        m: "live lag t r k m = Some (min_score t k ?r)" by blast
      have "?wait \<le> retry'" using ih [OF sub] that full by simp
      then have "1 \<le> retry'" and "ceil_seconds (min_score t k ?r + lag - t) \<le> retry'" by simp_all
      moreover from this(2) have "min_score t k ?r + lag - t \<le> 1000 * retry'"
        using ceil_seconds_ge [of "min_score t k ?r + lag - t"] by linarith
      ultimately show ?thesis using m by blast
    qed
    show ?case
      using ih [OF sub] here live full room_live [OF live [OF order_refl]]
      by (auto simp: kn split: if_splits)
  qed
  then show "keys_ok lag gain K t r'" "t \<le> t' \<Longrightarrow> live lag t' r' = live lag t' r"
    "retry \<le> retry'" "retry' = 0 \<Longrightarrow> 0 \<le> retry \<Longrightarrow> \<forall>kn \<in> set ks. room lag t r kn"
    "kn \<in> set ks \<Longrightarrow> \<not> room lag t r kn \<Longrightarrow>
       1 \<le> retry' \<and> (\<exists>m s. live lag t r (fst kn) m = Some s \<and> s + lag - t \<le> 1000 * retry')"
    "(\<forall>kn \<in> set ks. room lag t r kn) \<Longrightarrow> retry' = retry"
    by fastforce+
qed

text \<open>Adding one entry to several keys.\<close>

lemma puts_spec:
  assumes "keys_ok lag gain K t r" "set ks \<subseteq> K" "0 \<le> gain + lag" "gain + lag \<le> ttl"
  shows "keys_ok lag gain K t (foldl (\<lambda>r k. zput t k (t + gain) m ttl r) r ks)
    \<and> (t \<le> t' \<longrightarrow> live lag t' (foldl (\<lambda>r k. zput t k (t + gain) m ttl r) r ks) k =
         (if k \<in> set ks then (live lag t' r k)(m := if t' - lag < t + gain then Some (t + gain) else None)
          else live lag t' r k))"
  using assms(1,2)
proof (induction ks arbitrary: r)
  case (Cons j ks)
  have ttl: "0 \<le> ttl" using assms by simp
  have j: "j \<in> K" using Cons.prems by simp
  note ok = zput_ok [OF Cons.prems(1) assms(3,4), of j m]
  have ih: "keys_ok lag gain K t (foldl (\<lambda>r k. zput t k (t + gain) m ttl r) (zput t j (t + gain) m ttl r) ks)
    \<and> (t \<le> t' \<longrightarrow> live lag t' (foldl (\<lambda>r k. zput t k (t + gain) m ttl r) (zput t j (t + gain) m ttl r) ks) k =
         (if k \<in> set ks
          then (live lag t' (zput t j (t + gain) m ttl r) k)(m := if t' - lag < t + gain then Some (t + gain) else None)
          else live lag t' (zput t j (t + gain) m ttl r) k))"
    by (rule Cons.IH [OF ok]) (use Cons.prems in simp)
  show ?case
    using ih zput_live [OF Cons.prems(1) j ttl] by (auto simp: fun_eq_iff)
qed simp

lemma window_admit_puts:
  "window_admit t window m ks r = foldl (\<lambda>r k. zput t k (t + 0) m (window + 1000) r) r (map fst ks)"
  by (induction ks arbitrary: r) (auto simp: zput_def)

lemma window_script_spec:
  assumes "keys_ok W 0 K t r" "fst ` set ks \<subseteq> K" "\<forall>kn \<in> set ks. 0 < snd kn" "0 \<le> W"
    and "window_script t W m ks r = (retry, r')"
  shows "keys_ok W 0 K t r'" "0 \<le> retry"
    "retry \<noteq> 0 \<Longrightarrow> t \<le> t' \<Longrightarrow> live W t' r' = live W t' r"
    "retry = 0 \<Longrightarrow> t \<le> t' \<Longrightarrow> live W t' r' k =
       (if k \<in> fst ` set ks then (live W t' r k)(m := if t' - W < t then Some t else None)
        else live W t' r k)"
    "retry = 0 \<longleftrightarrow> (\<forall>kn \<in> set ks. room W t r kn)"
    "kn \<in> set ks \<Longrightarrow> \<not> room W t r kn \<Longrightarrow>
       1 \<le> retry \<and> (\<exists>m s. live W t r (fst kn) m = Some s \<and> s + W - t \<le> 1000 * retry)"
proof -
  obtain r1 n where scan: "window_scan t W ks r 0 = (r1, n)" by (cases "window_scan t W ks r 0")
  note sc = window_scan_spec [OF assms(1,2) scan assms(3)]
  have n: "0 \<le> n" by (rule sc(3))
  have res: "retry = n" "r' = (if 0 < n then r1 else window_admit t W m ks r1)"
    using assms(5) scan n by (auto simp: window_script_def split: if_splits)
  have ks: "set (map fst ks) \<subseteq> K" using assms(2) by simp
  have W: "0 \<le> 0 + W" "0 + W \<le> W + 1000" using assms(4) by simp_all
  note put = puts_spec [OF sc(1) ks W, folded window_admit_puts]
  show "keys_ok W 0 K t r'" using res sc(1) put by (simp split: if_splits)
  show "0 \<le> retry" using res n by simp
  show "live W t' r' = live W t' r" if "retry \<noteq> 0" "t \<le> t'"
    using that res n sc(2) by (auto split: if_splits)
  show "live W t' r' k =
       (if k \<in> fst ` set ks then (live W t' r k)(m := if t' - W < t then Some t else None)
        else live W t' r k)" if "retry = 0" "t \<le> t'"
    using that res put [of m t' k] sc(2) [of t'] by simp
  show "retry = 0 \<longleftrightarrow> (\<forall>kn \<in> set ks. room W t r kn)"
    using res sc(4,6) by auto
  show "1 \<le> retry \<and> (\<exists>m s. live W t r (fst kn) m = Some s \<and> s + W - t \<le> 1000 * retry)"
    if "kn \<in> set ks" "\<not> room W t r kn"
    using sc(5) [OF that] res by simp
qed

subsection \<open>The capacity contract\<close>

text \<open>A sequence of commands, each at its time.\<close>

definition timed_run :: "(int \<Rightarrow> 'op \<Rightarrow> 's \<Rightarrow> 's) \<Rightarrow> (int \<times> 'op) list \<Rightarrow> 's \<Rightarrow> 's" where
  "timed_run step calls s = foldl (\<lambda>s (t, op). step t op s) s calls"

lemma timed_run_simps [simp]:
  "timed_run step [] s = s"
  "timed_run step ((t, op) # calls) s = timed_run step calls (step t op s)"
  by (simp_all add: timed_run_def)

text \<open>
  What a store of expiring entries promises: entries die with time and appear only one at a
  time, in a key that has room.
\<close>

locale bounded_slots =
  fixes step :: "int \<Rightarrow> 'op \<Rightarrow> 's \<Rightarrow> 's" and held :: "int \<Rightarrow> 's \<Rightarrow> 'k \<Rightarrow> 'm set"
    and good :: "int \<Rightarrow> 's \<Rightarrow> bool" and valid :: "'op \<Rightarrow> bool" and cap :: "'k \<Rightarrow> nat"
  assumes good_step: "good t s \<Longrightarrow> valid op \<Longrightarrow> good t (step t op s)"
    and good_later: "good t s \<Longrightarrow> t \<le> t' \<Longrightarrow> good t' s"
    and finite_held: "finite (held t s k)"
    and held_later: "t \<le> t' \<Longrightarrow> held t' s k \<subseteq> held t s k"
    and held_step: "good t s \<Longrightarrow> valid op \<Longrightarrow>
      held t (step t op s) k \<subseteq> held t s k
      \<or> (\<exists>m. held t (step t op s) k \<subseteq> insert m (held t s k) \<and> card (held t s k) < cap k)"
begin

lemma step_bounded:
  assumes "good t s" "valid op" "card (held t s k) \<le> cap k"
  shows "card (held t (step t op s) k) \<le> cap k"
  using held_step [OF assms(1,2), of k]
proof (elim disjE exE conjE)
  assume "held t (step t op s) k \<subseteq> held t s k"
  from card_mono [OF finite_held this] assms(3) show ?thesis by simp
next
  fix m assume "held t (step t op s) k \<subseteq> insert m (held t s k)" "card (held t s k) < cap k"
  moreover have "card (insert m (held t s k)) \<le> Suc (card (held t s k))"
    by (rule card_insert_le_m1 [of "Suc (card (held t s k))", simplified]) simp
  ultimately show ?thesis
    using card_mono [of "insert m (held t s k)" "held t (step t op s) k"] finite_held by force
qed

lemma run_bounded:
  assumes "good t0 s" "card (held t0 s k) \<le> cap k" "sorted (t0 # map fst calls @ [t])"
    and "\<forall>c \<in> set calls. valid (snd c)"
  shows "card (held t (timed_run step calls s) k) \<le> cap k"
  using assms
proof (induction calls arbitrary: t0 s)
  case Nil
  then show ?case
    using card_mono [OF finite_held held_later [of t0 t s k]] by simp
next
  case (Cons c calls)
  obtain t1 op where c: "c = (t1, op)" by (cases c)
  have t: "t0 \<le> t1" and sorted: "sorted (t1 # map fst calls @ [t])"
    using Cons.prems(3) by (auto simp: c)
  have "card (held t1 s k) \<le> cap k"
    using card_mono [OF finite_held held_later [OF t]] Cons.prems(2) by (meson order_trans)
  with good_later [OF Cons.prems(1) t] Cons.prems(4) have
    "good t1 (step t1 op s)" "card (held t1 (step t1 op s) k) \<le> cap k"
    by (simp_all add: c good_step step_bounded)
  from Cons.IH [OF this sorted] Cons.prems(4) show ?case by (simp add: c)
qed

end

definition held :: "string set \<Rightarrow> int \<Rightarrow> int \<Rightarrow> redis \<Rightarrow> string \<Rightarrow> string set" where
  "held K lag t r k = (if k \<in> K then dom (live lag t r k) else {})"

lemma held_finite: "finite (held K lag t r k)"
  by (simp add: held_def)

lemma held_shrinks: "t \<le> t' \<Longrightarrow> held K lag t' r k \<subseteq> held K lag t r k"
  using dom_live_later by (simp add: held_def)

definition limits_ok :: "string set \<Rightarrow> (string \<Rightarrow> nat) \<Rightarrow> (string \<times> nat) list \<Rightarrow> bool" where
  "limits_ok K cap ks = (\<forall>(k, n) \<in> set ks. k \<in> K \<and> 0 < n \<and> n \<le> cap k)"

text \<open>Requests: a call of the window script under its member.\<close>

definition window_step :: "int \<Rightarrow> int \<Rightarrow> string \<times> (string \<times> nat) list \<Rightarrow> redis \<Rightarrow> redis" where
  "window_step W t call r = snd (window_script t W (fst call) (snd call) r)"

lemma window_step_held:
  assumes "0 \<le> W" "keys_ok W 0 K t r" "limits_ok K cap (snd call)"
  shows "held K W t (window_step W t call r) k \<subseteq> held K W t r k
    \<or> (\<exists>m. held K W t (window_step W t call r) k \<subseteq> insert m (held K W t r k)
          \<and> card (held K W t r k) < cap k)"
proof -
  obtain m ks where call: "call = (m, ks)" by (cases call)
  obtain retry r' where run: "window_script t W m ks r = (retry, r')"
    by (cases "window_script t W m ks r")
  have ks: "fst ` set ks \<subseteq> K" "\<forall>kn \<in> set ks. 0 < snd kn"
    using assms(3) by (auto simp: call limits_ok_def)
  note sp = window_script_spec [OF assms(2) ks assms(1) run]
  show ?thesis
  proof (cases "retry = 0 \<and> k \<in> fst ` set ks")
    case True
    then obtain n where n: "(k, n) \<in> set ks" by auto
    with sp(5) True have "room W t r (k, n)" by blast
    moreover have "n \<le> cap k" using assms(3) n by (auto simp: call limits_ok_def)
    ultimately have "card (held K W t r k) < cap k"
      using ks(1) True by (auto simp: room_def held_def)
    moreover have "held K W t r' k \<subseteq> insert m (held K W t r k)"
      using sp(4) [of t k] True by (auto simp: held_def split: if_splits)
    ultimately show ?thesis by (auto simp: window_step_def call run)
  next
    case False
    then have "live W t r' k = live W t r k"
      using sp(3) [of t] sp(4) [of t k] by (cases "retry = 0") auto
    then show ?thesis by (simp add: window_step_def call run held_def)
  qed
qed

lemma window_step_ok:
  assumes "0 \<le> W" "keys_ok W 0 K t r" "limits_ok K cap (snd call)"
  shows "keys_ok W 0 K t (window_step W t call r)"
proof -
  obtain m ks where call: "call = (m, ks)" by (cases call)
  obtain retry r' where run: "window_script t W m ks r = (retry, r')"
    by (cases "window_script t W m ks r")
  have "fst ` set ks \<subseteq> K" "\<forall>kn \<in> set ks. 0 < snd kn"
    using assms(3) by (auto simp: call limits_ok_def)
  from window_script_spec(1) [OF assms(2) this assms(1) run] show ?thesis
    by (simp add: window_step_def call run)
qed

lemma millis_pos: "1000 \<le> millis w"
  by (simp add: millis_def)

lemma millis_nonneg [simp]: "0 \<le> millis w"
  using millis_pos [of w] by linarith

interpretation request_slots: bounded_slots "window_step (millis w)" "held K (millis w)"
    "keys_ok (millis w) 0 K" "\<lambda>call. limits_ok K cap (snd call)" cap for w K cap
  by unfold_locales
     (rule window_step_ok [OF millis_nonneg] keys_ok_later held_finite held_shrinks
       window_step_held [OF millis_nonneg]; assumption)+

subsection \<open>Requests in any window\<close>

text \<open>The requests admitted on a key, with their times.\<close>

fun admitted ::
  "int \<Rightarrow> string \<Rightarrow> (int \<times> string \<times> (string \<times> nat) list) list \<Rightarrow> redis \<Rightarrow> (int \<times> string) list" where
  "admitted W k [] r = []"
| "admitted W k ((t, m, ks) # calls) r =
     (let (retry, r') = window_script t W m ks r
      in (if retry = 0 \<and> k \<in> fst ` set ks then [(t, m)] else []) @ admitted W k calls r')"

definition in_window :: "int \<Rightarrow> int \<Rightarrow> (int \<times> string) list \<Rightarrow> (int \<times> string) list" where
  "in_window W t es = filter (\<lambda>(a, m). t - W < a \<and> a \<le> t) es"

lemma admitted_times: "(a, m) \<in> set (admitted W k calls r) \<Longrightarrow> a \<in> fst ` set calls"
  by (induction W k calls r rule: admitted.induct) (auto split: if_splits prod.splits)

text \<open>Entries so far: distinct, not in the future, and live while their window lasts.\<close>

definition logged :: "int \<Rightarrow> string \<Rightarrow> int \<Rightarrow> redis \<Rightarrow> (int \<times> string) list \<Rightarrow> bool" where
  "logged W k t r es =
     (distinct (map snd es)
      \<and> (\<forall>(a, m) \<in> set es. a \<le> t \<and> (\<forall>t' \<ge> t. t' - W < a \<longrightarrow> live W t' r k m = Some a)))"

lemma logged_window:
  assumes "logged W k t0 r es" "t0 \<le> t"
  shows "length (in_window W t es) \<le> card (dom (live W t r k))"
proof -
  have sub: "snd ` set (in_window W t es) \<subseteq> dom (live W t r k)"
    using assms by (fastforce simp: logged_def in_window_def)
  have "distinct (map snd (in_window W t es))"
    using assms(1) by (simp add: logged_def in_window_def distinct_map_filter)
  then have "length (in_window W t es) = card (snd ` set (in_window W t es))"
    using distinct_card [of "map snd (in_window W t es)"] by simp
  with card_mono [OF finite_dom_live sub] show ?thesis by simp
qed

lemma logged_step:
  assumes log: "logged W k t0 r es" and t: "t0 \<le> t" and W: "0 \<le> W"
    and good: "keys_ok W 0 K t r" and lim: "limits_ok K cap ks"
    and run: "window_script t W m ks r = (retry, r')" and fresh: "m \<notin> snd ` set es"
  shows "logged W k t r' (es @ (if retry = 0 \<and> k \<in> fst ` set ks then [(t, m)] else []))"
proof -
  have ks: "fst ` set ks \<subseteq> K" "\<forall>kn \<in> set ks. 0 < snd kn"
    using lim by (auto simp: limits_ok_def)
  note sp = window_script_spec [OF good ks W run]
  have old: "live W t' r' k n = Some a" if "(a, n) \<in> set es" "t \<le> t'" "t' - W < a" for a n t'
  proof -
    have "live W t' r k n = Some a" using log that t by (auto simp: logged_def)
    moreover have "n \<noteq> m" using fresh that(1) by (metis imageI snd_conv)
    ultimately show ?thesis
      using sp(3) [of t'] sp(4) [of t' k] that(2) by (cases "retry = 0") auto
  qed
  have new: "live W t' r' k m = Some t" if "retry = 0" "k \<in> fst ` set ks" "t \<le> t'" "t' - W < t" for t'
    using sp(4) [OF that(1,3)] that by simp
  show ?thesis
    using log fresh t old new by (force simp: logged_def)
qed

lemma admitted_in_window:
  assumes "logged (millis w) k t0 r es" "t0 \<le> t" "keys_ok (millis w) 0 K t0 r"
    "card (dom (live (millis w) t0 r k)) \<le> cap k"
    "sorted (t0 # map fst calls)" "distinct (map snd es @ map (fst \<circ> snd) calls)"
    "\<forall>c \<in> set calls. limits_ok K cap (snd (snd c))"
    and k: "k \<in> K"
  shows "length (in_window (millis w) t (es @ admitted (millis w) k calls r)) \<le> cap k"
  using assms(1-7)
proof (induction calls arbitrary: es r t0)
  case Nil
  have "card (dom (live (millis w) t r k)) \<le> card (dom (live (millis w) t0 r k))"
    by (rule card_mono) (simp_all add: dom_live_later Nil.prems(2))
  with logged_window [OF Nil.prems(1,2)] Nil.prems(4) show ?case by simp
next
  case (Cons c calls)
  obtain t1 m ks where c: "c = (t1, m, ks)" by (cases c)
  have t1: "t0 \<le> t1" "sorted (t1 # map fst calls)" using Cons.prems(5) by (auto simp: c)
  show ?case
  proof (cases "t1 \<le> t")
    case True
    obtain retry r' where run: "window_script t1 (millis w) m ks r = (retry, r')"
      by (cases "window_script t1 (millis w) m ks r")
    have lim: "limits_ok K cap ks" using Cons.prems(7) by (simp add: c)
    have good: "keys_ok (millis w) 0 K t1 r" using keys_ok_later [OF Cons.prems(3) t1(1)] .
    have card: "card (held K (millis w) t1 r k) \<le> cap k"
      using Cons.prems(4) card_mono [OF finite_dom_live dom_live_later [OF t1(1), of "millis w" r k]]
      by (simp add: held_def)
    have step: "window_step (millis w) t1 (m, ks) r = r'" by (simp add: window_step_def run)
    have good': "keys_ok (millis w) 0 K t1 r'"
      using request_slots.good_step [of w K t1 r cap "(m, ks)"] good lim step by simp
    have card': "card (dom (live (millis w) t1 r' k)) \<le> cap k"
      using request_slots.step_bounded [of w K t1 r cap "(m, ks)" k] good lim step card k
      by (simp add: held_def)
    have "m \<notin> snd ` set es" using Cons.prems(6) by (auto simp: c)
    from logged_step [OF Cons.prems(1) t1(1) millis_nonneg good lim run this]
    have "length (in_window (millis w) t ((es @ (if retry = 0 \<and> k \<in> fst ` set ks then [(t1, m)] else []))
        @ admitted (millis w) k calls r')) \<le> cap k"
      by (rule Cons.IH [OF _ True good' card' t1(2)])
         (use Cons.prems(6,7) in \<open>auto simp: c\<close>)
    then show ?thesis by (simp add: c run)
  next
    case False
    have "in_window (millis w) t (admitted (millis w) k (c # calls) r) = []"
      using False t1(2) admitted_times [of _ _ "millis w" k "c # calls" r]
      by (fastforce simp: in_window_def filter_empty_conv c)
    moreover have "card (dom (live (millis w) t r k)) \<le> card (dom (live (millis w) t0 r k))"
      by (rule card_mono) (simp_all add: dom_live_later Cons.prems(2))
    ultimately show ?thesis
      using logged_window [OF Cons.prems(1,2)] Cons.prems(4) by (simp add: in_window_def)
  qed
qed

text \<open>
  C19. The sliding window is exact: whatever requests arrive, over however many keys and with
  whatever limits up to the cap of the key, no interval of the length of the window ever holds
  more admitted requests of a key than its cap.
\<close>

theorem request_window_bound:
  assumes "sorted (map fst calls)" "distinct (map (fst \<circ> snd) calls)"
    and "\<forall>c \<in> set calls. limits_ok K cap (snd (snd c))" "k \<in> K"
  shows "length (in_window (millis w) t (admitted (millis w) k calls empty_redis)) \<le> cap k"
proof -
  let ?W = "millis w"
  let ?t0 = "Min (insert t (fst ` set calls))"
  have "keys_ok ?W 0 K ?t0 empty_redis" by (simp add: keys_ok_def empty_redis_def)
  moreover have "dom (live ?W ?t0 empty_redis k) = {}"
    by (auto simp: live_def raw_def empty_redis_def no_zset_def)
  moreover have "logged ?W k ?t0 empty_redis []" by (simp add: logged_def)
  moreover have "sorted (?t0 # map fst calls)" using assms(1) by simp
  ultimately show ?thesis
    using admitted_in_window [of w k ?t0 empty_redis "[]" t K cap calls] assms(2-4) by simp
qed

text \<open>
  C21. Retry-After is honest: a request refused with a wait of \<open>n\<close> seconds is admitted when it
  is repeated that much later, provided nobody was admitted in between and the keys were within
  their limits.
\<close>

theorem retry_after_suffices:
  assumes "keys_ok (millis w) 0 K t r" "limits_ok K cap ks"
    and "\<forall>(k, n) \<in> set ks. card (dom (live (millis w) t r k)) \<le> n"
    and "window_script t (millis w) m ks r = (retry, r')" "0 < retry"
    and "t + 1000 * retry \<le> t'"
  shows "fst (window_script t' (millis w) m' ks r') = 0"
proof -
  let ?W = "millis w"
  have ks: "fst ` set ks \<subseteq> K" "\<forall>kn \<in> set ks. 0 < snd kn"
    using assms(2) by (auto simp: limits_ok_def)
  note sp = window_script_spec [OF assms(1) ks millis_nonneg assms(4)]
  have t: "t \<le> t'" using assms(5,6) by linarith
  have same: "live ?W t' r' = live ?W t' r" using sp(3) [OF _ t] assms(5) by simp
  have "room ?W t' r' kn" if kn: "kn \<in> set ks" for kn
  proof (cases "room ?W t r kn")
    case True
    have "card (dom (live ?W t' r (fst kn))) \<le> card (dom (live ?W t r (fst kn)))"
      by (rule card_mono) (simp_all add: dom_live_later t)
    with True same show ?thesis by (simp add: room_def)
  next
    case False
    from sp(6) [OF kn False] obtain m0 s where
      m0: "live ?W t r (fst kn) m0 = Some s" "s + ?W - t \<le> 1000 * retry" by blast
    have "live ?W t' r (fst kn) m0 = None"
      using m0 assms(6) by (auto simp: live_def split: option.splits if_splits)
    then have "m0 \<notin> dom (live ?W t' r (fst kn))" by auto
    with m0 have "dom (live ?W t' r (fst kn)) \<subset> dom (live ?W t r (fst kn))"
      using dom_live_later [OF t] by blast
    then have "card (dom (live ?W t' r (fst kn))) < card (dom (live ?W t r (fst kn)))"
      by (rule psubset_card_mono [OF finite_dom_live])
    with assms(3) kn same show ?thesis by (auto simp: room_def)
  qed
  moreover obtain retry2 r2 where run: "window_script t' ?W m' ks r' = (retry2, r2)"
    by (cases "window_script t' ?W m' ks r'")
  ultimately show ?thesis
    using window_script_spec(5) [OF keys_ok_later [OF sp(1) t] ks millis_nonneg run] run by simp
qed

subsection \<open>Leased stream slots\<close>

lemma stream_scan_spec:
  assumes "keys_ok 0 gain K t r" "fst ` set ks \<subseteq> K" "stream_scan t ks r = (free, r')"
  shows "keys_ok 0 gain K t r'" "t \<le> t' \<Longrightarrow> live 0 t' r' = live 0 t' r"
    "free \<longleftrightarrow> (\<forall>kn \<in> set ks. room 0 t r kn)"
proof -
  have "keys_ok 0 gain K t r' \<and> (\<forall>t' \<ge> t. live 0 t' r' = live 0 t' r)
    \<and> (free \<longleftrightarrow> (\<forall>kn \<in> set ks. room 0 t r kn))"
    using assms
  proof (induction ks arbitrary: r)
    case (Cons kn ks)
    obtain k n where kn: "kn = (k, n)" by (cases kn)
    have k: "k \<in> K" and sub: "fst ` set ks \<subseteq> K" using Cons.prems(2) kn by auto
    let ?r = "zremrangebyscore t k t r"
    have ok: "keys_ok 0 gain K t ?r" by (rule trim_ok [OF Cons.prems(1)])
    have live: "live 0 t' ?r = live 0 t' r" if "t \<le> t'" for t'
      using trim_live [OF Cons.prems(1) k that] by (intro ext) simp
    have full: "n \<le> zcard t k ?r \<longleftrightarrow> \<not> room 0 t r kn"
      using trim_card [OF Cons.prems(1) k] by (auto simp: kn room_def)
    show ?case
    proof (cases "n \<le> zcard t k ?r")
      case True
      with Cons.prems(3) have "\<not> free" "r' = ?r" by (simp_all add: kn Let_def)
      with True full ok live show ?thesis by auto
    next
      case False
      with Cons.prems(3) have run: "stream_scan t ks ?r = (free, r')" by (simp add: kn Let_def)
      from Cons.IH [OF ok sub run] False full live room_live [OF live [OF order_refl]]
      show ?thesis by auto
    qed
  qed auto
  then show "keys_ok 0 gain K t r'" "t \<le> t' \<Longrightarrow> live 0 t' r' = live 0 t' r"
    "free \<longleftrightarrow> (\<forall>kn \<in> set ks. room 0 t r kn)" by blast+
qed

lemma stream_put_puts:
  "stream_put t ttl m ks r = foldl (\<lambda>r k. zput t k (t + ttl) m (ttl + 5000) r) r ks"
  by (induction ks arbitrary: r) (auto simp: zput_def)

lemma stream_put_spec:
  assumes "keys_ok 0 ttl K t r" "set ks \<subseteq> K" "0 \<le> ttl"
  shows "keys_ok 0 ttl K t (stream_put t ttl m ks r)"
    "t \<le> t' \<Longrightarrow> live 0 t' (stream_put t ttl m ks r) k =
       (if k \<in> set ks then (live 0 t' r k)(m := if t' < t + ttl then Some (t + ttl) else None)
        else live 0 t' r k)"
  using puts_spec [of 0 ttl K t r ks "ttl + 5000" m t' k] assms
  by (simp_all add: stream_put_puts)

lemma acquire_script_spec:
  assumes "keys_ok 0 ttl K t r" "fst ` set ks \<subseteq> K" "0 \<le> ttl"
    and "acquire_script t ttl m ks r = (got, r')"
  shows "keys_ok 0 ttl K t r'" "got \<longleftrightarrow> (\<forall>kn \<in> set ks. room 0 t r kn)"
    "t \<le> t' \<Longrightarrow> live 0 t' r' k =
       (if got \<and> k \<in> fst ` set ks
        then (live 0 t' r k)(m := if t' < t + ttl then Some (t + ttl) else None)
        else live 0 t' r k)"
proof -
  obtain free r1 where scan: "stream_scan t ks r = (free, r1)" by (cases "stream_scan t ks r")
  note sc = stream_scan_spec [OF assms(1,2) scan]
  have ks: "set (map fst ks) \<subseteq> K" using assms(2) by simp
  note put = stream_put_spec [OF sc(1) ks assms(3)]
  have res: "got = free" "r' = (if free then stream_put t ttl m (map fst ks) r1 else r1)"
    using assms(4) scan by (auto simp: acquire_script_def split: if_splits)
  show "keys_ok 0 ttl K t r'" using res sc(1) put(1) by simp
  show "got \<longleftrightarrow> (\<forall>kn \<in> set ks. room 0 t r kn)" using res sc(3) by simp
  show "live 0 t' r' k =
       (if got \<and> k \<in> fst ` set ks
        then (live 0 t' r k)(m := if t' < t + ttl then Some (t + ttl) else None)
        else live 0 t' r k)" if "t \<le> t'"
    using res sc(2) [OF that] put(2) [OF that, of m k] by simp
qed

lemma renew_scan_spec:
  assumes "keys_ok 0 gain K t r" "set ks \<subseteq> K" "renew_scan t m ks r = (ok, r')"
  shows "keys_ok 0 gain K t r'" "t \<le> t' \<Longrightarrow> live 0 t' r' = live 0 t' r"
    "ok \<longleftrightarrow> (\<forall>k \<in> set ks. live 0 t r k m \<noteq> None)"
proof -
  have "keys_ok 0 gain K t r' \<and> (\<forall>t' \<ge> t. live 0 t' r' = live 0 t' r)
    \<and> (ok \<longleftrightarrow> (\<forall>k \<in> set ks. live 0 t r k m \<noteq> None))"
    using assms
  proof (induction ks arbitrary: r)
    case (Cons k ks)
    have k: "k \<in> K" and sub: "set ks \<subseteq> K" using Cons.prems(2) by auto
    let ?r = "zremrangebyscore t k t r"
    have good: "keys_ok 0 gain K t ?r" by (rule trim_ok [OF Cons.prems(1)])
    have live: "live 0 t' ?r = live 0 t' r" if "t \<le> t'" for t'
      using trim_live [OF Cons.prems(1) k that] by (intro ext) simp
    have key: "key_ok 0 gain t (rd_zsets ?r k)" using good k by (simp add: keys_ok_def)
    have raw: "raw ?r k = live 0 t r k" using trim_raw [OF Cons.prems(1) k] by simp
    have "zset_at t ?r k = rd_zsets ?r k \<or> zset_at t ?r k = no_zset"
      by (auto simp: zset_at_def Let_def split: option.split)
    then have score: "zscore t k m ?r = live 0 t r k m"
      using zset_at_live [OF key order_refl, of m] raw live [OF order_refl]
      by (auto simp: zscore_def raw_def no_zset_def)
    show ?case
    proof (cases "zscore t k m ?r = None")
      case True
      with Cons.prems(3) have "\<not> ok" "r' = ?r" by (simp_all add: Let_def)
      with True score good live show ?thesis by auto
    next
      case False
      with Cons.prems(3) have run: "renew_scan t m ks ?r = (ok, r')" by (simp add: Let_def)
      from Cons.IH [OF good sub run] False score live show ?thesis by auto
    qed
  qed auto
  then show "keys_ok 0 gain K t r'" "t \<le> t' \<Longrightarrow> live 0 t' r' = live 0 t' r"
    "ok \<longleftrightarrow> (\<forall>k \<in> set ks. live 0 t r k m \<noteq> None)" by blast+
qed

lemma release_script_spec:
  assumes "keys_ok 0 gain K t r" "set ks \<subseteq> K"
  shows "keys_ok 0 gain K t (release_script t m ks r)
    \<and> (t \<le> t' \<longrightarrow> live 0 t' (release_script t m ks r) k =
         (if k \<in> set ks then (live 0 t' r k)(m := None) else live 0 t' r k))"
  using assms
proof (induction ks arbitrary: r)
  case (Cons j ks)
  have j: "j \<in> K" and sub: "set ks \<subseteq> K" using Cons.prems by auto
  note ok = zrem_ok [OF Cons.prems(1), of j m]
  have fold: "release_script t m (j # ks) r = release_script t m ks (zrem t j m r)"
    by (simp add: release_script_def)
  from Cons.IH [OF ok sub] show ?case
    using zrem_live [OF Cons.prems(1) j] by (auto simp: fold fun_eq_iff)
qed (simp add: release_script_def)

datatype lease_op =
    AcquireOp string "(string \<times> nat) list"
  | RenewOp string "string list"
  | ReleaseOp string "string list"

fun lease_step :: "int \<Rightarrow> int \<Rightarrow> lease_op \<Rightarrow> redis \<Rightarrow> redis" where
  "lease_step ttl t (AcquireOp m ks) r = snd (acquire_script t ttl m ks r)"
| "lease_step ttl t (RenewOp m ks) r = snd (renew_script t ttl m ks r)"
| "lease_step ttl t (ReleaseOp m ks) r = release_script t m ks r"

fun lease_valid :: "string set \<Rightarrow> (string \<Rightarrow> nat) \<Rightarrow> lease_op \<Rightarrow> bool" where
  "lease_valid K cap (AcquireOp m ks) = limits_ok K cap ks"
| "lease_valid K cap (RenewOp m ks) = (set ks \<subseteq> K)"
| "lease_valid K cap (ReleaseOp m ks) = (set ks \<subseteq> K)"

lemma renew_script_spec:
  assumes "keys_ok 0 ttl K t r" "set ks \<subseteq> K" "0 \<le> ttl" "renew_script t ttl m ks r = (ok, r')"
  shows "keys_ok 0 ttl K t r'" "ok \<longleftrightarrow> (\<forall>k \<in> set ks. live 0 t r k m \<noteq> None)"
    "t \<le> t' \<Longrightarrow> live 0 t' r' k =
       (if ok \<and> k \<in> set ks
        then (live 0 t' r k)(m := if t' < t + ttl then Some (t + ttl) else None)
        else live 0 t' r k)"
proof -
  obtain held r1 where scan: "renew_scan t m ks r = (held, r1)" by (cases "renew_scan t m ks r")
  note sc = renew_scan_spec [OF assms(1,2) scan]
  note put = stream_put_spec [OF sc(1) assms(2,3)]
  have res: "ok = held" "r' = (if held then stream_put t ttl m ks r1 else r1)"
    using assms(4) scan by (auto simp: renew_script_def split: if_splits)
  show "keys_ok 0 ttl K t r'" using res sc(1) put(1) by simp
  show "ok \<longleftrightarrow> (\<forall>k \<in> set ks. live 0 t r k m \<noteq> None)" using res sc(3) by simp
  show "live 0 t' r' k =
       (if ok \<and> k \<in> set ks
        then (live 0 t' r k)(m := if t' < t + ttl then Some (t + ttl) else None)
        else live 0 t' r k)" if "t \<le> t'"
    using res sc(2) [OF that] put(2) [OF that, of m k] by simp
qed

lemma lease_step_spec:
  assumes "0 \<le> ttl" "keys_ok 0 ttl K t r" "lease_valid K cap op"
  shows "keys_ok 0 ttl K t (lease_step ttl t op r)
    \<and> (held K 0 t (lease_step ttl t op r) k \<subseteq> held K 0 t r k
       \<or> (\<exists>m. held K 0 t (lease_step ttl t op r) k \<subseteq> insert m (held K 0 t r k)
             \<and> card (held K 0 t r k) < cap k))"
proof (cases op)
  case (AcquireOp m ks)
  obtain got r' where run: "acquire_script t ttl m ks r = (got, r')"
    by (cases "acquire_script t ttl m ks r")
  have ks: "fst ` set ks \<subseteq> K" using assms(3) by (auto simp: AcquireOp limits_ok_def)
  note sp = acquire_script_spec [OF assms(2) ks assms(1) run]
  show ?thesis
  proof (cases "got \<and> k \<in> fst ` set ks")
    case True
    then obtain n where n: "(k, n) \<in> set ks" by auto
    with sp(2) True have "room 0 t r (k, n)" by blast
    moreover have "n \<le> cap k" "k \<in> K" using assms(3) n by (auto simp: AcquireOp limits_ok_def)
    ultimately have "card (held K 0 t r k) < cap k" by (simp add: room_def held_def)
    moreover have "held K 0 t r' k \<subseteq> insert m (held K 0 t r k)"
      using sp(3) [of t k] True by (auto simp: held_def split: if_splits)
    ultimately show ?thesis using sp(1) by (auto simp: AcquireOp run)
  next
    case False
    with sp(3) [of t k] have "live 0 t r' k = live 0 t r k" by simp
    with sp(1) show ?thesis by (simp add: AcquireOp run held_def)
  qed
next
  case (RenewOp m ks)
  obtain ok r' where run: "renew_script t ttl m ks r = (ok, r')"
    by (cases "renew_script t ttl m ks r")
  have ks: "set ks \<subseteq> K" using assms(3) by (simp add: RenewOp)
  note sp = renew_script_spec [OF assms(2) ks assms(1) run]
  have "held K 0 t r' k \<subseteq> held K 0 t r k"
    using sp(2) sp(3) [of t k] by (auto simp: held_def split: if_splits)
  with sp(1) show ?thesis by (simp add: RenewOp run)
next
  case (ReleaseOp m ks)
  have ks: "set ks \<subseteq> K" using assms(3) by (simp add: ReleaseOp)
  from release_script_spec [OF assms(2) ks, of m t k] show ?thesis
    by (auto simp: ReleaseOp held_def)
qed

lemma lease_step_ok:
  "0 \<le> ttl \<Longrightarrow> keys_ok 0 ttl K t r \<Longrightarrow> lease_valid K cap op \<Longrightarrow>
   keys_ok 0 ttl K t (lease_step ttl t op r)"
  using lease_step_spec by blast

lemma lease_step_held:
  "0 \<le> ttl \<Longrightarrow> keys_ok 0 ttl K t r \<Longrightarrow> lease_valid K cap op \<Longrightarrow>
   held K 0 t (lease_step ttl t op r) k \<subseteq> held K 0 t r k
   \<or> (\<exists>m. held K 0 t (lease_step ttl t op r) k \<subseteq> insert m (held K 0 t r k)
         \<and> card (held K 0 t r k) < cap k)"
  using lease_step_spec by blast

interpretation stream_slots: bounded_slots "lease_step (millis w)" "held K 0"
    "keys_ok 0 (millis w) K" "lease_valid K cap" cap for w K cap
  by unfold_locales
     (rule lease_step_ok [OF millis_nonneg] keys_ok_later held_finite held_shrinks
       lease_step_held [OF millis_nonneg]; assumption)+

text \<open>
  Whatever streams are acquired, renewed and released by any number of replicas, the live
  leases of a key never exceed its cap.
\<close>

lemma stream_leases_bound:
  assumes "sorted (t0 # map fst calls @ [t])" "\<forall>c \<in> set calls. lease_valid K cap (snd c)" "k \<in> K"
  shows "card (dom (live 0 t (timed_run (lease_step (millis w)) calls empty_redis) k)) \<le> cap k"
proof -
  have "keys_ok 0 (millis w) K t0 empty_redis" by (simp add: keys_ok_def empty_redis_def)
  moreover have "held K 0 t0 empty_redis k = {}"
    by (auto simp: held_def live_def raw_def empty_redis_def no_zset_def)
  ultimately have "card (held K 0 t (timed_run (lease_step (millis w)) calls empty_redis) k) \<le> cap k"
    using stream_slots.run_bounded [of w K t0 empty_redis k cap calls t] assms(1,2) by simp
  with assms(3) show ?thesis by (simp add: held_def)
qed

text \<open>
  C20. An admission that does not hand a lease to its caller leaves no slot taken: when the call
  fails or the caller is cancelled and the compensating release reaches the server, no key holds
  the lease; when the release is lost as well, the lease is dead after its time to live.
\<close>

theorem acquire_stream_no_orphan:
  assumes "acquire_stream tr tr' cancelled t t' lease ks global source credential ttl_s r = (res, r')"
    and "res = Inl Unavailable \<or> res = Inl Cancelled" "t \<le> t'"
    and "keys_ok 0 (millis ttl_s) K t r"
    and "fst ` set (stream_keys ks global source credential) \<subseteq> K"
    and "\<forall>k \<in> K. live 0 t r k lease = None"
  shows "k \<in> K \<Longrightarrow> t' \<le> u \<Longrightarrow> tr' \<noteq> RequestLost \<or> t + millis ttl_s \<le> u \<Longrightarrow> live 0 u r' k lease = None"
proof -
  assume k: "k \<in> K" and u: "t' \<le> u" and rel: "tr' \<noteq> RequestLost \<or> t + millis ttl_s \<le> u"
  let ?rks = "stream_keys ks global source credential"
  let ?ttl = "millis ttl_s"
  obtain got r0 where acq: "acquire_script t ?ttl lease ?rks r = (got, r0)"
    by (cases "acquire_script t ?ttl lease ?rks r")
  note sp = acquire_script_spec [OF assms(4,5) millis_nonneg acq]
  have none: "live 0 u r j lease = None" if "j \<in> K" for j
    using assms(3,6) that u live_later [of t u 0 r j lease] by (cases "live 0 u r j lease") auto
  let ?r1 = "if tr = RequestLost then r else r0"
  have ne: "ks \<noteq> []" using assms(1,2) by (auto simp: acquire_stream_def)
  then have r': "r' = (if tr' = RequestLost then ?r1 else release_script t' lease (map fst ?rks) ?r1)"
    using assms(1,2) acq
    by (cases tr; cases tr'; cases cancelled)
       (auto simp: acquire_stream_def eval_def Let_def split: if_splits)
  have good: "keys_ok 0 ?ttl K t' ?r1"
    using sp(1) assms(4) keys_ok_later [OF _ assms(3)] by simp
  have r1: "live 0 u ?r1 k lease = None \<or> (k \<in> fst ` set ?rks \<and> (t + ?ttl \<le> u \<longrightarrow> live 0 u ?r1 k lease = None))"
    using sp(3) [of u k] none [OF k] assms(3) u by auto
  show "live 0 u r' k lease = None"
  proof (cases "tr' = RequestLost")
    case True
    then show ?thesis using r1 rel r' by auto
  next
    case False
    have sub: "set (map fst ?rks) \<subseteq> K" using assms(5) by simp
    from release_script_spec [OF good sub, of lease u k] u r1 False show ?thesis
      by (auto simp: r')
  qed
qed

subsection \<open>Lockout\<close>

lemma rd_strings_zops [simp]:
  "rd_strings (zremrangebyscore t k c r) = rd_strings r"
  "rd_strings (pexpire t k ttl (zadd t k s m r)) = rd_strings r"
  by (simp_all add: zremrangebyscore_def pexpire_def zadd_def put_zset_def Let_def)

lemma rd_zsets_set_px [simp]: "rd_zsets (set_px t l px r) = rd_zsets r"
  by (simp add: set_px_def)

lemma live_set_px [simp]: "live lag t (set_px u l px r) = live lag t r"
  by (intro ext) (simp add: live_def raw_def)

lemma keys_ok_set_px [simp]: "keys_ok lag gain K t (set_px u l px r) = keys_ok lag gain K t r"
  by (simp add: keys_ok_def)

text \<open>One pair of a failure set and its lock.\<close>

lemma failure_pair:
  fixes m :: string and lockout :: int
  assumes "keys_ok W 0 K t r" "f \<in> K" "0 < W"
  defines "r2 \<equiv> pexpire t f (max W lockout + 1000) (zadd t f t m (zremrangebyscore t f (t - W) r))"
  shows "keys_ok W 0 K t r2"
    "live W t r2 k = (if k = f then (live W t r k)(m \<mapsto> t) else live W t r k)"
    "zcard t f r2 = card (insert m (dom (live W t r f)))"
proof -
  let ?r1 = "zremrangebyscore t f (t - W) r"
  have r2: "r2 = zput t f (t + 0) m (max W lockout + 1000) ?r1" by (simp add: r2_def zput_def)
  have ok: "keys_ok W 0 K t ?r1" by (rule trim_ok [OF assms(1)])
  show good: "keys_ok W 0 K t r2"
    unfolding r2 by (rule zput_ok [OF ok]) (use assms(3) in auto)
  have px: "0 \<le> max W lockout + 1000" using assms(3) by linarith
  show "live W t r2 k = (if k = f then (live W t r k)(m \<mapsto> t) else live W t r k)"
    unfolding r2 using zput_live [OF ok assms(2) px order_refl] assms(3)
      trim_live [OF assms(1,2) order_refl] by (auto simp: fun_eq_iff)
  have d: "distinct (map fst (z_members (zset_at t ?r1 f)))"
    using key_ok_zset_at [of W 0 t ?r1 f t] ok assms(2) by (simp add: keys_ok_def key_ok_def)
  have m: "fst ` set (z_members (zset_at t ?r1 f)) = dom (live W t r f)"
  proof -
    have k: "key_ok W 0 t (rd_zsets ?r1 f)" using ok assms(2) by (simp add: keys_ok_def)
    have "zset_at t ?r1 f = rd_zsets ?r1 f \<or> zset_at t ?r1 f = no_zset"
      by (auto simp: zset_at_def Let_def split: option.split)
    moreover have "raw ?r1 f = live W t r f" using trim_raw [OF assms(1,2)] by simp
    moreover have "live W t ?r1 f = live W t r f"
      using trim_live [OF assms(1,2) order_refl] by (intro ext) simp
    ultimately have "map_of (z_members (zset_at t ?r1 f)) = live W t r f"
      using zset_at_live [OF k order_refl] by (auto simp: raw_def no_zset_def fun_eq_iff)
    then show ?thesis using dom_map_of_conv_image_fst by metis
  qed
  have "rd_zsets r2 f = \<lparr>z_members = dset m t (z_members (zset_at t ?r1 f)),
      z_expires_at = Some (t + (max W lockout + 1000))\<rparr>"
    unfolding r2 using zput_zset [OF px, of t f "t + 0" m ?r1 f] by simp
  then have "z_members (zset_at t r2 f) = dset m t (z_members (zset_at t ?r1 f))"
    using px by (simp add: zset_at_def Let_def)
  moreover have "length (dset m t (z_members (zset_at t ?r1 f))) = card (insert m (dom (live W t r f)))"
    using distinct_card [OF distinct_dset [OF d, of m t]] keys_dset [of m t] m by simp
  ultimately show "zcard t f r2 = card (insert m (dom (live W t r f)))" by (simp add: zcard_def)
qed

lemma failure_script_locks:
  assumes "keys_ok W 0 K t r" "fst ` set ks \<subseteq> K" "0 < W" "(f, l) \<in> set ks"
    and "lm \<le> card (insert m (dom (live W t r f)))"
  shows "rd_strings (auth_failure_script t lm W lockout m ks r) l = Some (Some (t + lockout))"
  using assms
proof (induction ks arbitrary: r)
  case (Cons p ks)
  obtain g j where p: "p = (g, j)" by (cases p)
  let ?r2 = "pexpire t g (max W lockout + 1000) (zadd t g t m (zremrangebyscore t g (t - W) r))"
  let ?r3 = "if lm \<le> zcard t g ?r2 then set_px t j lockout ?r2 else ?r2"
  have g: "g \<in> K" and sub: "fst ` set ks \<subseteq> K" using Cons.prems(2) p by auto
  note fp = failure_pair [OF Cons.prems(1) g Cons.prems(3), of lockout m]
  have good: "keys_ok W 0 K t ?r3" using fp(1) by simp
  have grows: "lm \<le> card (insert m (dom (live W t ?r3 f)))"
    using Cons.prems(5) fp(2) [of f] by (auto simp: insert_absorb)
  have kept: "rd_strings (auth_failure_script t lm W lockout m ks r') l = Some (Some (t + lockout))"
    if "rd_strings r' l = Some (Some (t + lockout))" for r'
    using that by (induction ks arbitrary: r') (auto simp: Let_def set_px_def)
  show ?case
  proof (cases "(f, l) \<in> set ks")
    case True
    from Cons.IH [OF good sub Cons.prems(3) True grows] show ?thesis by (simp add: p Let_def)
  next
    case False
    with Cons.prems(4) p have [simp]: "g = f" "j = l" by auto
    have full: "lm \<le> zcard t g ?r2" using fp(3) Cons.prems(5) by simp
    then have "rd_strings (set_px t j lockout ?r2) l = Some (Some (t + lockout))"
      by (simp add: set_px_def)
    from kept [OF this] full show ?thesis by (simp only: p auth_failure_script.simps Let_def if_True)
  qed
qed simp

lemma retry_script_ge:
  "retry \<le> auth_retry_script t ks r retry
   \<and> (\<forall>k \<in> set ks. 0 < pttl t k r \<longrightarrow> max (ceil_seconds (pttl t k r)) 1 \<le> auth_retry_script t ks r retry)"
proof (induction ks arbitrary: retry)
  case (Cons k ks)
  let ?n = "if pttl t k r = - 1 then max retry 1
            else if 0 < pttl t k r then max retry (max (ceil_seconds (pttl t k r)) 1) else retry"
  have "retry \<le> ?n" "0 < pttl t k r \<longrightarrow> max (ceil_seconds (pttl t k r)) 1 \<le> ?n" by auto
  with Cons [of ?n] show ?case by (fastforce simp: Let_def)
qed simp

lemma lockout_core:
  assumes "keys_ok (millis window_s) 0 K t r" "fst ` set (auth_keys subjects) \<subseteq> K"
    and "(f, l) \<in> set (auth_keys subjects)" "l \<in> set (map snd (auth_keys checked))"
    and "at_least_one lm \<le> card (insert token (dom (live (millis window_s) t r f)))"
    and "t \<le> t'" "t' < t + millis lockout_s"
  shows "\<exists>n. fst (auth_retry_after Answered t' checked
        (snd (record_auth_failure Answered t token subjects lm window_s lockout_s r))) = Inr (Some n)
      \<and> t + millis lockout_s \<le> t' + 1000 * n"
proof -
  let ?r' = "auth_failure_script t (at_least_one lm) (millis window_s) (millis lockout_s) token
               (auth_keys subjects) r"
  have W: "0 < millis window_s" using millis_pos [of window_s] by linarith
  have locked: "rd_strings ?r' l = Some (Some (t + millis lockout_s))"
    by (rule failure_script_locks [OF assms(1,2) W assms(3,5)])
  then have ttl: "pttl t' l ?r' = t + millis lockout_s - t'" using assms(7) by (simp add: pttl_def)
  let ?locks = "map snd (auth_keys checked)"
  let ?n = "auth_retry_script t' ?locks ?r' 0"
  have "max (ceil_seconds (pttl t' l ?r')) 1 \<le> ?n"
    using retry_script_ge [of 0 t' ?locks ?r'] assms(4,7) ttl by auto
  then have n: "1 \<le> ?n" "ceil_seconds (t + millis lockout_s - t') \<le> ?n" unfolding ttl by simp_all
  then have "t + millis lockout_s \<le> t' + 1000 * ?n"
    using ceil_seconds_ge [of "t + millis lockout_s - t'"] by linarith
  moreover have "subjects \<noteq> []" "?locks \<noteq> []" using assms(3,4) by (auto simp: auth_keys_def)
  ultimately show ?thesis
    using n(1) by (auto simp: record_auth_failure_def auth_retry_after_def eval_def opt_retry_def Let_def)
qed

text \<open>
  C22. A subject with as many failures inside the window as the limit admits is locked out: until
  the lockout ends, every check of that subject answers with a wait that is at least the time
  that is left.
\<close>

theorem auth_lockout_holds:
  assumes "keys_ok (millis window_s) 0 K t r" "fst ` set (auth_keys subjects) \<subseteq> K"
    and "subject \<in> set subjects" "subject \<in> set checked"
    and "at_least_one lm \<le> card (insert token (dom (live (millis window_s) t r
           (PREFIX @ '':auth-failures:'' @ subject_token subject))))"
    and "t \<le> t'" "t' < t + millis lockout_s"
  shows "\<exists>n. fst (auth_retry_after Answered t' checked
        (snd (record_auth_failure Answered t token subjects lm window_s lockout_s r))) = Inr (Some n)
      \<and> t + millis lockout_s \<le> t' + 1000 * n"
  by (rule lockout_core [OF assms(1,2) _ _ assms(5-7)])
     (use assms(3,4) in \<open>auto simp: auth_keys_def\<close>)

subsection \<open>Concrete calls\<close>

theorem request_window_bound_witness:
  "length (in_window (millis 1) 10
     (admitted (millis 1) ''k'' [(5, ''a'', [(''k'', 1)]), (6, ''b'', [(''k'', 1)])] empty_redis)) \<le> 1"
  using request_window_bound [of "[(5, ''a'', [(''k'', 1)]), (6, ''b'', [(''k'', 1)])]" "{''k''}"
      "\<lambda>_. 1" "''k''" 1 10]
  by (simp add: limits_ok_def)

definition one_request :: redis where
  "one_request = snd (window_script 0 (millis 1) ''a'' [(''k'', 1)] empty_redis)"

lemma one_request_zset:
  "one_request = empty_redis\<lparr>rd_zsets := (\<lambda>_. no_zset)(''k'' :=
     \<lparr>z_members = [(''a'', 0)], z_expires_at = Some 2000\<rparr>)\<rparr>"
  by (simp add: one_request_def window_script_def zremrangebyscore_def zcard_def zset_at_def
      empty_redis_def no_zset_def put_zset_def zadd_def pexpire_def millis_def Let_def)

theorem retry_after_suffices_witness:
  "fst (window_script 0 (millis 1) ''b'' [(''k'', 1)] one_request) = 1
   \<and> fst (window_script 1000 (millis 1) ''b''  [(''k'', 1)]
           (snd (window_script 0 (millis 1) ''b'' [(''k'', 1)] one_request))) = 0"
proof -
  have wait: "fst (window_script 0 (millis 1) ''b'' [(''k'', 1)] one_request) = 1"
    by (simp add: one_request_zset window_script_def zremrangebyscore_def zcard_def zset_at_def
        no_zset_def put_zset_def min_score_def ceil_seconds_def millis_def Let_def)
  have "live (millis 1) 0 one_request ''k'' = [''a'' \<mapsto> 0]"
    by (auto simp: live_def raw_def one_request_zset millis_def fun_eq_iff)
  moreover have "keys_ok (millis 1) 0 {''k''} 0 one_request"
    by (simp add: keys_ok_def key_ok_def one_request_zset millis_def)
  ultimately show ?thesis
    using retry_after_suffices [of 1 "{''k''}" 0 one_request "\<lambda>_. 1" "[(''k'', 1)]" "''b''" 1 _ 1000 "''b''"]
      wait by (simp add: limits_ok_def prod_eq_iff)
qed

theorem acquire_stream_no_orphan_witness:
  "live 0 7 (snd (acquire_stream ReplyLost Answered False 1 2 ''id'' [''ip''] 5 5 5 30 empty_redis))
     (PREFIX @ '':sse:global'') ''id'' = None"
proof -
  obtain res r' where run:
    "acquire_stream ReplyLost Answered False 1 2 ''id'' [''ip''] 5 5 5 30 empty_redis = (res, r')"
    by (cases "acquire_stream ReplyLost Answered False 1 2 ''id'' [''ip''] 5 5 5 30 empty_redis")
  moreover from run have "res = Inl Unavailable"
    by (simp add: acquire_stream_def eval_def Let_def split: prod.splits)
  ultimately show ?thesis
    using acquire_stream_no_orphan [OF run, of "fst ` set (stream_keys [''ip''] 5 5 5)"
        "PREFIX @ '':sse:global''" 7]
    by (simp add: keys_ok_empty live_empty stream_keys_def)
qed

theorem auth_lockout_holds_witness:
  "\<exists>n. fst (auth_retry_after Answered 1 [''u'']
        (snd (record_auth_failure Answered 0 ''m'' [''u''] 1 60 60 empty_redis))) = Inr (Some n)"
  using auth_lockout_holds [of 60 "fst ` set (auth_keys [''u''])" 0 empty_redis "[''u'']" "''u''"
      "[''u'']" 1 "''m''" 1 60]
  by (auto simp: keys_ok_empty at_least_one_def millis_def Suc_le_eq card_gt_0_iff)

end
