(* ===== verification/Json_Limits.thy ===== *)
theory Json_Limits
  imports Py_Value
begin

text \<open>
  The two non-recursive guards in front of JSON: \<open>validate_json_object\<close> of
  src/apex/domain/input_limits.py, which walks a decoded value with an explicit stack, and
  \<open>_validate_json_wire_limits\<close> of src/apex/adapters/http_resilience.py, which scans the text
  of a provider response before anything is decoded. Each is shown to decide exactly the
  recursive property of the value that it stands for.

  The values walked are decoded documents: no container occurs in another twice, so the test for
  repeated containers never fires.
\<close>

subsection \<open>Walking a value\<close>

record json_limits =
  jl_bytes :: nat
  jl_nodes :: nat
  jl_depth :: nat
  jl_key :: nat

text \<open>The defaults of \<open>validate_json_object\<close>.\<close>

definition default_limits :: json_limits where
  "default_limits = \<lparr>jl_bytes = 100000, jl_nodes = 2000, jl_depth = 16, jl_key = 255\<rparr>"

definition invalid_json :: "string \<Rightarrow> string \<Rightarrow> 'a res" where
  "invalid_json label m = Inl (ValueError (label @ m))"

definition too_many_nodes :: "string \<Rightarrow> json_limits \<Rightarrow> 'a res" where
  "too_many_nodes label L = invalid_json label ('' exceeds the '' @ nat_text (jl_nodes L) @ '' node limit'')"

definition too_many_bytes :: "string \<Rightarrow> json_limits \<Rightarrow> 'a res" where
  "too_many_bytes label L = invalid_json label ('' exceeds the '' @ nat_text (jl_bytes L) @ '' byte limit'')"

text \<open>The keys of an object; the result is the number of characters seen so far.\<close>

fun walk_keys :: "string \<Rightarrow> json_limits \<Rightarrow> pydict \<Rightarrow> nat \<Rightarrow> nat res" where
  "walk_keys label L [] seen = Inr seen"
| "walk_keys label L ((k, v) # d) seen =
     (if k = [] \<or> jl_key L < length k
      then invalid_json label ('' keys must be 1-'' @ nat_text (jl_key L) @ '' characters'')
      else if jl_bytes L < seen + length k then too_many_bytes label L
      else if \<not> nul_free k then invalid_json label '' keys must not contain U+0000''
      else walk_keys label L d (seen + length k))"

text \<open>
  One value: what it pushes on the stack (the last child is popped first) and the number of
  characters seen. \<open>used\<close> counts the values visited or on the stack.
\<close>

fun json_visit ::
  "string \<Rightarrow> json_limits \<Rightarrow> nat \<Rightarrow> nat \<Rightarrow> nat \<Rightarrow> pyval \<Rightarrow> ((pyval \<times> nat) list \<times> nat) res" where
  "json_visit label L used seen depth (PDict d) =
     (if jl_nodes L < used + length d then too_many_nodes label L
      else rbind (walk_keys label L d seen)
             (\<lambda>seen'. Inr (rev (map (\<lambda>kv. (snd kv, depth + 1)) d), seen')))"
| "json_visit label L used seen depth (PList xs) =
     (if jl_nodes L < used + length xs then too_many_nodes label L
      else Inr (rev (map (\<lambda>x. (x, depth + 1)) xs), seen))"
| "json_visit label L used seen depth (PStr s) =
     (if jl_bytes L < seen + length s then too_many_bytes label L
      else if \<not> nul_free s then invalid_json label '' strings must not contain U+0000''
      else Inr ([], seen + length s))"
| "json_visit label L used seen depth PNone = Inr ([], seen)"
| "json_visit label L used seen depth (PBool b) = Inr ([], seen)"
| "json_visit label L used seen depth (PInt i) =
     (if wide_int i then invalid_json label '' integers must not exceed 256 bits'' else Inr ([], seen))"
| "json_visit label L used seen depth (PFloat f) =
     (if float_finite f then Inr ([], seen) else invalid_json label '' numbers must be finite'')"
| "json_visit label L used seen depth (POther c) = invalid_json label '' contains unsupported values''"

function json_walk ::
  "string \<Rightarrow> json_limits \<Rightarrow> nat \<Rightarrow> nat \<Rightarrow> (pyval \<times> nat) list \<Rightarrow> unit res" where
  "json_walk label L nodes seen [] = Inr ()"
| "json_walk label L nodes seen ((current, depth) # stack) =
     (if jl_nodes L < nodes + 1 then too_many_nodes label L
      else if jl_depth L < depth
      then invalid_json label ('' exceeds the '' @ nat_text (jl_depth L) @ '' level nesting limit'')
      else rbind (json_visit label L (nodes + 1 + length stack) seen depth current)
             (\<lambda>(cs, seen'). json_walk label L (nodes + 1) seen' (cs @ stack)))"
  by pat_completeness auto
termination
  by (relation "measure (\<lambda>(l, L, nodes, t, stack). Suc (jl_nodes L) - nodes)") auto

declare json_walk.simps(2) [simp del]

definition validate_json_object :: "string \<Rightarrow> json_limits \<Rightarrow> pyval \<Rightarrow> unit res" where
  "validate_json_object label L value =
     (if jl_bytes L < 1 \<or> jl_nodes L < 1 \<or> jl_depth L < 1 \<or> jl_key L < 1
      then Inl (ValueError ''JSON validation limits must be positive'')
      else case value of
        PDict d \<Rightarrow>
          rbind (json_walk label L 0 0 [(value, 0)]) (\<lambda>_.
            case json_dumps False False False value of
              None \<Rightarrow> invalid_json label '' must contain finite JSON values''
            | Some s \<Rightarrow> if jl_bytes L < length (utf8 s) then too_many_bytes label L else Inr ())
      | _ \<Rightarrow> invalid_json label '' must be a JSON object'')"

subsection \<open>What the walk accepts\<close>

definition key_within :: "json_limits \<Rightarrow> string \<Rightarrow> bool" where
  "key_within L k \<longleftrightarrow> k \<noteq> [] \<and> length k \<le> jl_key L \<and> nul_free k"

fun json_shape :: "json_limits \<Rightarrow> nat \<Rightarrow> pyval \<Rightarrow> bool" where
  "json_shape L depth (PDict d) \<longleftrightarrow> depth \<le> jl_depth L
     \<and> (\<forall>kv \<in> set d. key_within L (fst kv) \<and> json_shape L (depth + 1) (snd kv))"
| "json_shape L depth (PList xs) \<longleftrightarrow> depth \<le> jl_depth L \<and> (\<forall>x \<in> set xs. json_shape L (depth + 1) x)"
| "json_shape L depth (PStr s) \<longleftrightarrow> depth \<le> jl_depth L \<and> nul_free s"
| "json_shape L depth (PInt i) \<longleftrightarrow> depth \<le> jl_depth L \<and> \<not> wide_int i"
| "json_shape L depth (PFloat f) \<longleftrightarrow> depth \<le> jl_depth L \<and> float_finite f"
| "json_shape L depth (POther c) \<longleftrightarrow> False"
| "json_shape L depth v \<longleftrightarrow> depth \<le> jl_depth L"

text \<open>The characters of the strings and keys of a value.\<close>

fun json_chars :: "pyval \<Rightarrow> nat" where
  "json_chars (PDict d) = sum_list (map (\<lambda>kv. length (fst kv) + json_chars (snd kv)) d)"
| "json_chars (PList xs) = sum_list (map json_chars xs)"
| "json_chars (PStr s) = length s"
| "json_chars _ = 0"

lemma json_shape_depth: "json_shape L depth v \<Longrightarrow> depth \<le> jl_depth L"
  by (cases v) auto

lemma walk_keys_Inr:
  "seen \<le> jl_bytes L \<Longrightarrow> walk_keys label L d seen = Inr seen' \<longleftrightarrow>
   (\<forall>kv \<in> set d. key_within L (fst kv)) \<and> seen' = seen + sum_list (map (length \<circ> fst) d)
   \<and> seen' \<le> jl_bytes L"
  by (induction label L d seen rule: walk_keys.induct)
     (auto simp: key_within_def invalid_json_def too_many_bytes_def not_less)

lemma sum_list_ge_length: "(\<And>x. x \<in> set xs \<Longrightarrow> 1 \<le> f x) \<Longrightarrow> length xs \<le> sum_list (map f xs)"
  for f :: "'a \<Rightarrow> nat"
proof (induction xs)
  case (Cons x xs)
  then have "length xs \<le> sum_list (map f xs)" "1 \<le> f x" by simp_all
  then show ?case by simp
qed simp

text \<open>A visited value passes its part of the test on to its children.\<close>

lemma json_visit_Inr:
  assumes "json_visit label L used seen depth v = Inr (cs, seen')"
    and "depth \<le> jl_depth L" "seen \<le> jl_bytes L"
  shows "Suc (sum_list (map (json_nodes \<circ> fst) cs)) = json_nodes v
    \<and> seen' + sum_list (map (json_chars \<circ> fst) cs) = seen + json_chars v
    \<and> seen' \<le> jl_bytes L
    \<and> (json_shape L depth v \<longleftrightarrow> (\<forall>c \<in> set cs. json_shape L (snd c) (fst c)))"
proof (cases v)
  case (PDict d)
  with assms show ?thesis
    by (auto simp: rbind_Inr_iff walk_keys_Inr too_many_nodes_def invalid_json_def rev_map comp_def
        sum_list_rev sum_list_addf simp flip: rev_map split: if_splits) (drule bspec, assumption, simp)+
next
  case (PList xs)
  with assms show ?thesis
    by (auto simp: too_many_nodes_def invalid_json_def rev_map comp_def sum_list_rev
        simp flip: rev_map split: if_splits)
qed (use assms in \<open>auto simp: too_many_bytes_def invalid_json_def split: if_splits\<close>)

lemma json_visit_Inl:
  assumes "json_visit label L used seen depth v = Inl e" "1 \<le> used" "seen \<le> jl_bytes L"
  shows "\<not> (used + json_nodes v \<le> Suc (jl_nodes L) \<and> seen + json_chars v \<le> jl_bytes L
    \<and> json_shape L depth v)"
proof (cases v)
  case (PDict d)
  have "length d \<le> sum_list (map (\<lambda>kv. json_nodes (snd kv)) d)"
    by (rule sum_list_ge_length) (rule json_nodes_pos)
  moreover have "walk_keys label L d seen = Inl e \<Longrightarrow>
      jl_bytes L < seen + sum_list (map (length \<circ> fst) d) \<or> \<not> (\<forall>kv \<in> set d. key_within L (fst kv))"
    using walk_keys_Inr [OF assms(3), of label d "seen + sum_list (map (length \<circ> fst) d)"] by auto
  ultimately show ?thesis
    using assms(1) PDict by (auto simp: rbind_Inl_iff sum_list_addf comp_def split: if_splits)
next
  case (PList xs)
  have "length xs \<le> sum_list (map json_nodes xs)"
    by (rule sum_list_ge_length) (rule json_nodes_pos)
  with assms PList show ?thesis by (auto split: if_splits)
qed (use assms in \<open>auto simp: too_many_bytes_def invalid_json_def split: if_splits\<close>)

lemma json_walk_spec:
  assumes "nodes + length stack \<le> jl_nodes L" "seen \<le> jl_bytes L"
  shows "json_walk label L nodes seen stack = Inr () \<longleftrightarrow>
    nodes + sum_list (map (json_nodes \<circ> fst) stack) \<le> jl_nodes L
    \<and> seen + sum_list (map (json_chars \<circ> fst) stack) \<le> jl_bytes L
    \<and> (\<forall>c \<in> set stack. json_shape L (snd c) (fst c))"
  using assms
proof (induction label L nodes seen stack rule: json_walk.induct)
  case (1 label L nodes seen)
  then show ?case by simp
next
  case (2 label L nodes seen v depth stack)
  have len: "length stack \<le> sum_list (map (json_nodes \<circ> fst) stack)"
    by (rule sum_list_ge_length) (use json_nodes_pos in auto)
  show ?case
  proof (cases "jl_depth L < depth")
    case True
    with 2 show ?thesis
      by (auto simp: json_walk.simps(2) invalid_json_def too_many_nodes_def dest: json_shape_depth)
  next
    case False
    note deep = this
    have room: "\<not> jl_nodes L < nodes + 1" using 2(2) by simp
    show ?thesis
    proof (cases "json_visit label L (nodes + 1 + length stack) seen depth v")
      case (Inl e)
      with json_visit_Inl [OF Inl _ 2(3)] len deep room show ?thesis
        by (auto simp: json_walk.simps(2) comp_def)
    next
      case (Inr r)
      obtain cs seen' where r: "r = (cs, seen')" by (cases r)
      have found: "Suc (sum_list (map (json_nodes \<circ> fst) cs)) = json_nodes v"
        "seen' + sum_list (map (json_chars \<circ> fst) cs) = seen + json_chars v" "seen' \<le> jl_bytes L"
        "json_shape L depth v \<longleftrightarrow> (\<forall>c \<in> set cs. json_shape L (snd c) (fst c))"
        using json_visit_Inr [OF Inr [unfolded r] _ 2(3)] deep by auto
      have fits: "nodes + 1 + length (cs @ stack) \<le> jl_nodes L"
        using Inr r 2(2) by (cases v) (auto simp: rbind_Inr_iff too_many_nodes_def invalid_json_def
            too_many_bytes_def split: if_splits)
      have "json_walk label L (nodes + 1) seen' (cs @ stack) = Inr () \<longleftrightarrow>
          nodes + 1 + sum_list (map (json_nodes \<circ> fst) (cs @ stack)) \<le> jl_nodes L
          \<and> seen' + sum_list (map (json_chars \<circ> fst) (cs @ stack)) \<le> jl_bytes L
          \<and> (\<forall>c \<in> set (cs @ stack). json_shape L (snd c) (fst c))"
        by (rule 2(1) [OF room deep Inr r [symmetric] fits]) (use found deep in auto)
      with found deep room Inr r show ?thesis
        by (auto simp: json_walk.simps(2) ball_Un comp_def)
    qed
  qed
qed

subsection \<open>The encoded size covers the characters\<close>

lemma utf8_append [simp]: "utf8 (s @ t) = utf8 s @ utf8 t"
  by (simp add: utf8_def)

lemma length_le_utf8: "length s \<le> length (utf8 s)"
proof (induction s)
  case (Cons c s)
  have "utf8 (c # s) = utf8_char c @ utf8 s" by (simp add: utf8_def)
  with Cons show ?case by (simp add: utf8_char_def Let_def)
qed simp

lemma length_json_text: "length s \<le> length (json_text ascii s)"
proof -
  have "length s \<le> length (concat (map (json_char ascii) s))"
    by (induction s) (auto simp: json_char_def Let_def hex4_def)
  then show ?thesis by (simp add: json_text_def)
qed

lemma length_join: "sum_list (map length ss) \<le> length (join sep ss)"
  by (induction sep ss rule: join.induct) auto

lemma None_notin_image: "None \<notin> f ` A \<longleftrightarrow> (\<forall>x \<in> A. \<exists>t. f x = Some t)"
  by (metis (no_types, lifting) image_iff option.exhaust option.simps(3))

lemma json_chars_dumps: "json_dumps sk ascii nan v = Some s \<Longrightarrow> \<not> sk \<Longrightarrow> json_chars v \<le> length s"
proof (induction v arbitrary: s rule: json_chars.induct)
  case (1 d)
  let ?part = "\<lambda>kv. json_text ascii (fst kv) @ '':'' @ the (json_dumps sk ascii nan (snd kv))"
  have s: "s = ''{'' @ join '','' (map ?part d) @ ''}''"
    using 1(2,3) by (auto simp: Let_def comp_def split_beta split: if_splits)
  have ok: "\<forall>kv \<in> set d. \<exists>t. json_dumps sk ascii nan (snd kv) = Some t"
    using 1(2,3)
    by (simp add: Let_def image_image split_beta None_notin_image split: if_splits)
  have "length (fst kv) + json_chars (snd kv) \<le> length (?part kv)" if "kv \<in> set d" for kv
    using ok that 1(1) [OF that _ 1(3)] length_json_text [of "fst kv" ascii]
    by (fastforce simp: split_beta)
  then have "json_chars (PDict d) \<le> sum_list (map (length \<circ> ?part) d)"
    by (simp add: sum_list_mono)
  also have "\<dots> \<le> length (join '','' (map ?part d))"
    using length_join [of "map ?part d"] by (simp add: comp_def)
  finally show ?case by (simp add: s)
next
  case (2 xs)
  have s: "s = ''['' @ join '','' (map (the \<circ> json_dumps sk ascii nan) xs) @ '']''"
    using 2(2) by (auto simp: Let_def comp_def split: if_splits)
  have ok: "\<forall>x \<in> set xs. \<exists>t. json_dumps sk ascii nan x = Some t"
    using 2(2) by (simp add: Let_def None_notin_image split: if_splits)
  have "json_chars (PList xs) \<le> sum_list (map (length \<circ> (the \<circ> json_dumps sk ascii nan)) xs)"
    using ok 2(1,3) by (fastforce intro: sum_list_mono)
  also have "\<dots> \<le> length (join '','' (map (the \<circ> json_dumps sk ascii nan) xs))"
    using length_join [of "map (the \<circ> json_dumps sk ascii nan) xs"] by (simp add: comp_def)
  finally show ?case by (simp add: s)
qed (auto intro: length_json_text)

lemma accepted_object_iff:
  "validate_json_object label L value = Inr () \<longleftrightarrow>
     0 < jl_bytes L \<and> 0 < jl_nodes L \<and> 0 < jl_depth L \<and> 0 < jl_key L
     \<and> (\<exists>d. value = PDict d) \<and> json_nodes value \<le> jl_nodes L \<and> json_shape L 0 value
     \<and> (\<exists>s. json_dumps False False False value = Some s \<and> length (utf8 s) \<le> jl_bytes L)"
proof (cases "0 < jl_bytes L \<and> 0 < jl_nodes L \<and> 0 < jl_depth L \<and> 0 < jl_key L \<and> (\<exists>d. value = PDict d)")
  case True
  then obtain d where d: "value = PDict d" by blast
  have walk: "json_walk label L 0 0 [(value, 0)] = Inr () \<longleftrightarrow>
      json_nodes value \<le> jl_nodes L \<and> json_chars value \<le> jl_bytes L \<and> json_shape L 0 value"
    using True by (subst json_walk_spec) auto
  have small: "json_chars value \<le> jl_bytes L"
    if "json_dumps False False False value = Some s" "length (utf8 s) \<le> jl_bytes L" for s
    using json_chars_dumps [OF that(1)] length_le_utf8 [of s] that(2) by simp
  have "validate_json_object label L value = Inr () \<longleftrightarrow>
      json_walk label L 0 0 [(value, 0)] = Inr ()
      \<and> (\<exists>s. json_dumps False False False value = Some s \<and> length (utf8 s) \<le> jl_bytes L)"
    using True unfolding validate_json_object_def d
    by (cases "json_walk label L 0 0 [(PDict d, 0)]")
       (auto simp: invalid_json_def too_many_bytes_def simp del: json_dumps.simps split: option.splits)
  with walk small True show ?thesis by auto
next
  case False
  then show ?thesis
    by (auto simp: validate_json_object_def invalid_json_def split: pyval.splits)
qed

text \<open>
  C27. The walk with its early exits decides a plain recursive property: the object has at most
  \<open>max_nodes\<close> values, nested at most \<open>max_depth\<close> deep, its keys and scalars are within their
  limits, and its compact UTF-8 encoding exists and fits.
\<close>

theorem validate_json_object_spec:
  "validate_json_object label L value = Inr () \<longleftrightarrow>
     0 < jl_bytes L \<and> 0 < jl_nodes L \<and> 0 < jl_depth L \<and> 0 < jl_key L
     \<and> (\<exists>d. value = PDict d) \<and> json_nodes value \<le> jl_nodes L \<and> json_shape L 0 value
     \<and> (\<exists>s. json_dumps False False False value = Some s \<and> length (utf8 s) \<le> jl_bytes L)"
  by (rule accepted_object_iff)

subsection \<open>Scanning the text of a response\<close>

text \<open>Where the scanner is: between tokens, in a string, after a backslash, in a number or a name.\<close>

datatype wire_mode = WOut | WString | WEscaped | WScalar

text \<open>Nesting depth (which an unbalanced bracket may drive below zero), tokens seen, mode.\<close>

type_synonym wire_state = "int \<times> nat \<times> wire_mode"

definition wire_space :: "char set" where
  "wire_space = {CHR '' '', CHR 0x09, CHR 0x0D, CHR 0x0A}"

definition consume_token :: "nat \<Rightarrow> int \<Rightarrow> nat \<Rightarrow> wire_mode \<Rightarrow> wire_state res" where
  "consume_token max_tokens depth tokens mode =
     (if max_tokens < tokens + 1
      then Inl (RuntimeError (''provider JSON exceeds the '' @ nat_text max_tokens
                              @ ''-token structural limit''))
      else Inr (depth, tokens + 1, mode))"

definition wire_token :: "nat \<Rightarrow> nat \<Rightarrow> char \<Rightarrow> int \<Rightarrow> nat \<Rightarrow> wire_state res" where
  "wire_token max_depth max_tokens c depth tokens =
     (if c = CHR 0x22 then consume_token max_tokens depth tokens WString
      else if c = CHR ''['' \<or> c = CHR ''{''
      then rbind (consume_token max_tokens depth tokens WOut) (\<lambda>_.
             if int max_depth < depth + 1
             then Inl (RuntimeError (''provider JSON exceeds the '' @ nat_text max_depth
                                     @ ''-level nesting limit''))
             else Inr (depth + 1, tokens + 1, WOut))
      else if c = CHR '']'' \<or> c = CHR ''}'' then Inr (depth - 1, tokens, WOut)
      else if c \<in> wire_space \<union> {CHR '','', CHR '':''} then Inr (depth, tokens, WOut)
      else consume_token max_tokens depth tokens WScalar)"

fun wire_char :: "nat \<Rightarrow> nat \<Rightarrow> char \<Rightarrow> wire_state \<Rightarrow> wire_state res" where
  "wire_char max_depth max_tokens c (depth, tokens, WString) =
     (if c = CHR 0x5C then Inr (depth, tokens, WEscaped)
      else if c = CHR 0x22 then Inr (depth, tokens, WOut) else Inr (depth, tokens, WString))"
| "wire_char max_depth max_tokens c (depth, tokens, WEscaped) = Inr (depth, tokens, WString)"
| "wire_char max_depth max_tokens c (depth, tokens, WScalar) =
     (if c \<notin> wire_space \<union> {CHR '','', CHR '']'', CHR ''}'', CHR '':''} then Inr (depth, tokens, WScalar)
      else wire_token max_depth max_tokens c depth tokens)"
| "wire_char max_depth max_tokens c (depth, tokens, WOut) =
     wire_token max_depth max_tokens c depth tokens"

definition wire_limits :: "nat \<Rightarrow> nat \<Rightarrow> string \<Rightarrow> unit res" where
  "wire_limits max_depth max_tokens text =
     rbind (rfold (wire_char max_depth max_tokens) text (0, 0, WOut)) (\<lambda>_. Inr ())"

subsection \<open>What the scan decides\<close>

fun json_levels :: "pyval \<Rightarrow> nat" where
  "json_levels (PDict d) = Suc (foldr max (map (\<lambda>kv. json_levels (snd kv)) d) 0)"
| "json_levels (PList xs) = Suc (foldr max (map json_levels xs) 0)"
| "json_levels _ = 0"

fun json_tokens :: "pyval \<Rightarrow> nat" where
  "json_tokens (PDict d) = Suc (sum_list (map (\<lambda>kv. Suc (json_tokens (snd kv))) d))"
| "json_tokens (PList xs) = Suc (sum_list (map json_tokens xs))"
| "json_tokens _ = 1"

lemma foldr_max_le: "foldr max (map f xs) 0 \<le> n \<longleftrightarrow> (\<forall>x \<in> set xs. f x \<le> n)" for n :: nat
  by (induction xs) auto

text \<open>Scanning \<open>s\<close> between tokens succeeds exactly when \<open>n\<close> more tokens and \<open>l\<close> more levels fit.\<close>

definition scans :: "nat \<Rightarrow> nat \<Rightarrow> string \<Rightarrow> nat \<Rightarrow> nat \<Rightarrow> wire_mode \<Rightarrow> bool" where
  "scans D T s n l m \<longleftrightarrow>
     (\<forall>depth tokens r. tokens \<le> T \<longrightarrow> depth \<le> int D \<longrightarrow>
        (rfold (wire_char D T) s (depth, tokens, WOut) = Inr r \<longleftrightarrow>
           tokens + n \<le> T \<and> depth + int l \<le> int D \<and> r = (depth, tokens + n, m)))"

lemma scansI:
  assumes "\<And>depth tokens. tokens + n \<le> T \<Longrightarrow> depth + int l \<le> int D \<Longrightarrow>
      rfold (wire_char D T) s (depth, tokens, WOut) = Inr (depth, tokens + n, m)"
    and "\<And>depth tokens. tokens \<le> T \<Longrightarrow> depth \<le> int D \<Longrightarrow> \<not> (tokens + n \<le> T \<and> depth + int l \<le> int D) \<Longrightarrow>
      \<exists>e. rfold (wire_char D T) s (depth, tokens, WOut) = Inl e"
  shows "scans D T s n l m"
  unfolding scans_def
proof (intro allI impI)
  fix depth tokens r
  assume "tokens \<le> T" "depth \<le> int D"
  then show "rfold (wire_char D T) s (depth, tokens, WOut) = Inr r \<longleftrightarrow>
      tokens + n \<le> T \<and> depth + int l \<le> int D \<and> r = (depth, tokens + n, m)"
    using assms(1) [of tokens depth] assms(2) [of tokens depth] by force
qed

lemma scansD:
  assumes "scans D T s n l m" "tokens \<le> T" "depth \<le> int D"
  shows "rfold (wire_char D T) s (depth, tokens, WOut) = Inr r \<longleftrightarrow>
    tokens + n \<le> T \<and> depth + int l \<le> int D \<and> r = (depth, tokens + n, m)"
  using assms unfolding scans_def by blast

lemma scans_fails:
  assumes "scans D T s n l m" "tokens \<le> T" "depth \<le> int D"
    and "\<not> (tokens + n \<le> T \<and> depth + int l \<le> int D)"
  shows "\<exists>e. rfold (wire_char D T) s (depth, tokens, WOut) = Inl e"
  using scansD [OF assms(1-3)] assms(4)
  by (cases "rfold (wire_char D T) s (depth, tokens, WOut)") auto

lemma scans_empty: "scans D T [] 0 0 WOut"
  by (auto simp: scans_def)

text \<open>A separator ends a scalar or follows a closed value.\<close>

lemma wire_separator:
  "m \<in> {WOut, WScalar} \<Longrightarrow> c \<in> {CHR '','', CHR '':''} \<Longrightarrow>
   wire_char D T c (depth, tokens, m) = Inr (depth, tokens, WOut)"
  by (auto simp: wire_token_def)

lemma wire_close:
  "m \<in> {WOut, WScalar} \<Longrightarrow> c \<in> {CHR '']'', CHR ''}''} \<Longrightarrow>
   wire_char D T c (depth, tokens, m) = Inr (depth - 1, tokens, WOut)"
  by (auto simp: wire_token_def)

lemma scans_sep:
  assumes s: "scans D T s n l m" and m: "m \<in> {WOut, WScalar}" and c: "c \<in> {CHR '','', CHR '':''}"
    and t: "scans D T t n' l' m'"
  shows "scans D T (s @ c # t) (n + n') (max l l') m'"
  unfolding scans_def
proof (intro allI impI)
  fix depth tokens r
  assume le: "tokens \<le> T" "depth \<le> int D"
  show "rfold (wire_char D T) (s @ c # t) (depth, tokens, WOut) = Inr r \<longleftrightarrow>
      tokens + (n + n') \<le> T \<and> depth + int (max l l') \<le> int D \<and> r = (depth, tokens + (n + n'), m')"
  proof (cases "tokens + n \<le> T \<and> depth + int l \<le> int D")
    case True
    then have "rfold (wire_char D T) s (depth, tokens, WOut) = Inr (depth, tokens + n, m)"
      using scansD [OF s le] by simp
    with True scansD [OF t _ le(2), of "tokens + n" r] wire_separator [OF m c] show ?thesis
      by (auto simp: rfold_append add.assoc)
  next
    case False
    from scans_fails [OF s le this] False show ?thesis
      by (auto simp: rfold_append)
  qed
qed

lemma scans_wrap:
  assumes s: "scans D T s n l m" and m: "m \<in> {WOut, WScalar}"
    and a: "a \<in> {CHR ''['', CHR ''{''}" and z: "z \<in> {CHR '']'', CHR ''}''}"
  shows "scans D T (a # s @ [z]) (Suc n) (Suc l) WOut"
  unfolding scans_def
proof (intro allI impI)
  fix depth tokens r
  assume le: "tokens \<le> T" "depth \<le> int D"
  have first: "wire_char D T a (depth, tokens, WOut) =
      (if T < tokens + 1 \<or> int D < depth + 1
       then wire_char D T a (depth, tokens, WOut) else Inr (depth + 1, tokens + 1, WOut))"
    "T < tokens + 1 \<or> int D < depth + 1 \<Longrightarrow> \<exists>e. wire_char D T a (depth, tokens, WOut) = Inl e"
    using a by (auto simp: wire_token_def consume_token_def)
  show "rfold (wire_char D T) (a # s @ [z]) (depth, tokens, WOut) = Inr r \<longleftrightarrow>
      tokens + Suc n \<le> T \<and> depth + int (Suc l) \<le> int D \<and> r = (depth, tokens + Suc n, WOut)"
  proof (cases "T < tokens + 1 \<or> int D < depth + 1")
    case True
    with first(2) show ?thesis by auto
  next
    case False
    note open1 = this
    show ?thesis
    proof (cases "tokens + 1 + n \<le> T \<and> depth + 1 + int l \<le> int D")
      case True
      then have "rfold (wire_char D T) s (depth + 1, tokens + 1, WOut) = Inr (depth + 1, tokens + 1 + n, m)"
        using scansD [OF s, of "tokens + 1" "depth + 1"] open1 by simp
      with True open1 first(1) wire_close [OF m z] show ?thesis
        by (auto simp: rfold_append)
    next
      case False
      then have "\<exists>e. rfold (wire_char D T) s (depth + 1, tokens + 1, WOut) = Inl e"
        using scans_fails [OF s, of "tokens + 1" "depth + 1"] open1 by auto
      with False open1 first(1) show ?thesis
        by (auto simp: rfold_append)
    qed
  qed
qed

text \<open>A scalar: a word without structural characters; a string literal.\<close>

definition wire_special :: "char set" where
  "wire_special = wire_space \<union> {CHR '','', CHR '':'', CHR ''['', CHR '']'', CHR ''{'', CHR ''}'', CHR 0x22}"

lemma word_rest:
  "set w \<inter> wire_special = {} \<Longrightarrow>
   rfold (wire_char D T) w (depth, tokens, WScalar) = Inr (depth, tokens, WScalar)"
  by (induction w) (auto simp: wire_special_def)

lemma scans_word:
  assumes "w \<noteq> []" "set w \<inter> wire_special = {}"
  shows "scans D T w 1 0 WScalar"
proof (cases w)
  case (Cons c u)
  with assms word_rest [of u D T] show ?thesis
    by (auto simp: scans_def wire_token_def consume_token_def wire_special_def)
qed (use assms in simp)

lemma char_codes: "char_of (34::nat) = CHR 0x22" "char_of (92::nat) = CHR 0x5C"
  by code_simp+

lemma hex_char_plain: "n < 16 \<Longrightarrow> hex_char n \<noteq> CHR 0x22 \<and> hex_char n \<noteq> CHR 0x5C"
proof -
  assume "n < 16"
  then have "of_char (hex_char n) = (if n < 10 then 48 + n else 87 + n)"
    by (simp add: hex_char_def)
  then show ?thesis by (auto split: if_splits)
qed

lemma json_char_scan:
  "rfold (wire_char D T) (json_char ascii c) (depth, tokens, WString) = Inr (depth, tokens, WString)"
proof -
  have "of_char c = (34::nat) \<longleftrightarrow> c = CHR 0x22" "of_char c = (92::nat) \<longleftrightarrow> c = CHR 0x5C"
    by (auto dest: arg_cong [where f = "char_of :: nat \<Rightarrow> char"] simp: char_codes)
  then show ?thesis
    using hex_char_plain by (simp add: json_char_def Let_def hex4_def char_codes)
qed

lemma json_chars_scan:
  "rfold (wire_char D T) (concat (map (json_char ascii) s)) (depth, tokens, WString)
   = Inr (depth, tokens, WString)"
  by (induction s) (auto simp: rfold_append json_char_scan)

lemma scans_json_text: "scans D T (json_text ascii s) 1 0 WOut"
  by (auto simp: scans_def json_text_def wire_token_def consume_token_def rfold_append json_chars_scan char_codes)

text \<open>Numbers are words of digits, signs, points and exponents, or the names of the infinities.\<close>

definition number_chars :: "char set" where
  "number_chars = set ''0123456789+-.eInfityNa''"

lemma digit_char_number: "n < 10 \<Longrightarrow> digit_char n \<in> number_chars"
proof -
  have "\<forall>k \<in> set [0..<10]. digit_char k \<in> number_chars" by code_simp
  then show "n < 10 \<Longrightarrow> digit_char n \<in> number_chars" by simp
qed

lemma nat_text_word: "nat_text n \<noteq> [] \<and> set (nat_text n) \<subseteq> number_chars"
proof (induction n rule: nat_text.induct)
  case (1 n)
  show ?case
  proof (cases "n < 10")
    case True
    then have "nat_text n = [digit_char n]" by (simp add: nat_text.simps [of n])
    with True digit_char_number show ?thesis by simp
  next
    case False
    then have "nat_text n = nat_text (n div 10) @ [digit_char (n mod 10)]"
      by (simp add: nat_text.simps [of n])
    with False 1 digit_char_number [of "n mod 10"] show ?thesis by simp
  qed
qed

lemma int_text_word: "int_text i \<noteq> [] \<and> set (int_text i) \<subseteq> number_chars"
  using nat_text_word by (auto simp: int_text_def number_chars_def)

lemma exponent_text_word: "exponent_text e \<noteq> [] \<and> set (exponent_text e) \<subseteq> number_chars"
  using nat_text_word [of "nat \<bar>e\<bar>"]
  by (auto simp: exponent_text_def pad_left_def number_chars_def split: if_splits)

lemma layout_word:
  assumes "set ds \<subseteq> number_chars"
  shows "layout_digits ds dp hi True \<noteq> [] \<and> set (layout_digits ds dp hi True) \<subseteq> number_chars"
proof -
  have "set (take n ds) \<subseteq> number_chars" "set (drop n ds) \<subseteq> number_chars" for n
    using assms set_take_subset set_drop_subset by fastforce+
  moreover have "set ''0.'' \<subseteq> number_chars" "set ''.0'' \<subseteq> number_chars" by (auto simp: number_chars_def)
  ultimately show ?thesis
    using assms exponent_text_word [of "dp - 1"]
    by (auto simp: layout_digits_def dest!: in_set_takeD in_set_dropD split: if_splits)
qed

lemma float_repr_word: "float_repr f \<noteq> [] \<and> set (float_repr f) \<subseteq> number_chars"
proof (cases f)
  case (FFin x)
  have "set (strip_zeros t) \<subseteq> set t" for t
    by (auto simp: strip_zeros_def dest: set_dropWhileD)
  with nat_text_word layout_word have
    "layout_digits (strip_zeros (nat_text n)) dp 16 True \<noteq> []
     \<and> set (layout_digits (strip_zeros (nat_text n)) dp 16 True) \<subseteq> number_chars" for n dp
    by (meson order_trans)
  with FFin show ?thesis
    by (auto simp: rat_repr_def Let_def split_beta number_chars_def)
qed (auto simp: number_chars_def)

lemma number_plain: "set w \<subseteq> number_chars \<Longrightarrow> set w \<inter> wire_special = {}"
  by (auto simp: number_chars_def wire_special_def wire_space_def)

lemma scans_number: "w \<noteq> [] \<and> set w \<subseteq> number_chars \<Longrightarrow> \<exists>m \<in> {WOut, WScalar}. scans D T w 1 0 m"
  using scans_word number_plain by blast

lemma scans_join:
  assumes "\<forall>x \<in> set xs. \<exists>m \<in> {WOut, WScalar}. scans D T (f x) (n x) (l x) m"
  shows "\<exists>m \<in> {WOut, WScalar}.
    scans D T (join '','' (map f xs)) (sum_list (map n xs)) (foldr max (map l xs) 0) m"
  using assms
proof (induction xs rule: induct_list012)
  case 1
  then show ?case using scans_empty by auto
next
  case (2 x)
  then show ?case by simp
next
  case (3 x y zs)
  obtain m where m: "m \<in> {WOut, WScalar}" "scans D T (f x) (n x) (l x) m"
    using 3(3) by auto
  obtain m' where m': "m' \<in> {WOut, WScalar}"
    "scans D T (join '','' (map f (y # zs))) (sum_list (map n (y # zs))) (foldr max (map l (y # zs)) 0) m'"
    using 3(2,3) by auto
  from scans_sep [OF m(2,1) _ m'(2), of "CHR '',''"] m'(1) show ?case by auto
qed

lemma dumps_scans:
  "json_dumps False ascii nan v = Some s \<Longrightarrow>
   \<exists>m \<in> {WOut, WScalar}. scans D T s (json_tokens v) (json_levels v) m"
proof (induction v arbitrary: s rule: json_tokens.induct [case_names Dict List None Bool Int Float Str Other])
  case (Dict d)
  let ?part = "\<lambda>kv. json_text ascii (fst kv) @ '':'' @ the (json_dumps False ascii nan (snd kv))"
  have s: "s = CHR ''{'' # join '','' (map ?part d) @ [CHR ''}'']"
    using Dict(2) by (auto simp: Let_def comp_def split_beta split: if_splits)
  have ok: "\<forall>kv \<in> set d. \<exists>t. json_dumps False ascii nan (snd kv) = Some t"
    using Dict(2) by (simp add: Let_def image_image split_beta None_notin_image split: if_splits)
  have "\<exists>m \<in> {WOut, WScalar}. scans D T (?part kv) (Suc (json_tokens (snd kv))) (json_levels (snd kv)) m"
    if kv: "kv \<in> set d" for kv
  proof -
    obtain t where t: "json_dumps False ascii nan (snd kv) = Some t" using ok kv by blast
    obtain m where m: "m \<in> {WOut, WScalar}" "scans D T t (json_tokens (snd kv)) (json_levels (snd kv)) m"
      using Dict(1) [OF kv t] by blast
    have "scans D T (json_text ascii (fst kv) @ CHR '':'' # t) (1 + json_tokens (snd kv))
        (max 0 (json_levels (snd kv))) m"
      by (rule scans_sep [OF scans_json_text _ _ m(2)]) simp_all
    with m(1) t show ?thesis by (intro bexI [of _ m]) simp_all
  qed
  then obtain m where m: "m \<in> {WOut, WScalar}"
    "scans D T (join '','' (map ?part d)) (sum_list (map (\<lambda>kv. Suc (json_tokens (snd kv))) d))
       (foldr max (map (\<lambda>kv. json_levels (snd kv)) d) 0) m"
    using scans_join [of d D T ?part "\<lambda>kv. Suc (json_tokens (snd kv))" "\<lambda>kv. json_levels (snd kv)"] by blast
  from scans_wrap [OF m(2,1), of "CHR ''{''" "CHR ''}''"] show ?case by (auto simp: s)
next
  case (List xs)
  let ?part = "\<lambda>x. the (json_dumps False ascii nan x)"
  have s: "s = CHR ''['' # join '','' (map ?part xs) @ [CHR '']'']"
    using List(2) by (auto simp: Let_def comp_def split: if_splits)
  have "\<forall>x \<in> set xs. \<exists>t. json_dumps False ascii nan x = Some t"
    using List(2) by (simp add: Let_def None_notin_image split: if_splits)
  then have "\<exists>m \<in> {WOut, WScalar}. scans D T (?part x) (json_tokens x) (json_levels x) m"
    if "x \<in> set xs" for x
    using List(1) [OF that] that by fastforce
  then obtain m where m: "m \<in> {WOut, WScalar}"
    "scans D T (join '','' (map ?part xs)) (sum_list (map json_tokens xs)) (foldr max (map json_levels xs) 0) m"
    using scans_join [of xs D T ?part json_tokens json_levels] by blast
  from scans_wrap [OF m(2,1), of "CHR ''[''" "CHR '']''"] show ?case by (auto simp: s)
next
  case None
  then show ?case using scans_word [of s D T] by (auto simp: wire_special_def wire_space_def)
next
  case (Bool b)
  then show ?case using scans_word [of s D T]
    by (auto simp: wire_special_def wire_space_def split: if_splits)
next
  case (Int i)
  then show ?case using scans_number [OF int_text_word] by auto
next
  case (Float f)
  then show ?case using scans_number [OF float_repr_word] by (auto split: if_splits)
next
  case (Str t)
  then show ?case using scans_json_text by auto
qed simp

text \<open>
  C28. The one-pass scan of a well-formed document decides its nesting and its number of tokens (values
  and keys), without decoding anything.
\<close>

theorem wire_limits_spec:
  assumes "json_dumps False ascii nan v = Some text"
  shows "wire_limits max_depth max_tokens text = Inr () \<longleftrightarrow>
    json_tokens v \<le> max_tokens \<and> json_levels v \<le> max_depth"
proof -
  obtain m where "scans max_depth max_tokens text (json_tokens v) (json_levels v) m"
    using dumps_scans [OF assms] by blast
  from scansD [OF this, of 0 0] show ?thesis
    by (auto simp: wire_limits_def rbind_Inr_iff)
qed

theorem wire_limits_spec_witness:
  "json_dumps False False False (PList [PInt 1]) = Some ''[1]''
   \<and> (wire_limits 1 2 ''[1]'' = Inr () \<longleftrightarrow> json_tokens (PList [PInt 1]) \<le> 2 \<and> json_levels (PList [PInt 1]) \<le> 1)
   \<and> wire_limits 1 2 ''[1]'' = Inr () \<and> wire_limits 0 2 ''[1]'' \<noteq> Inr ()"
proof -
  have dump: "json_dumps False False False (PList [PInt 1]) = Some ''[1]''" by code_simp
  from wire_limits_spec [OF dump, of 1 2] wire_limits_spec [OF dump, of 0 2] dump show ?thesis by simp
qed

end
