(* ===== verification/Mutation_Ledger.thy ===== *)
theory Mutation_Ledger
  imports Json_Limits Deliverables
begin

text \<open>
  The durable ledger of work-item mutations
  (src/apex/persistence/repositories/work_item_mutations.py): the row that binds an idempotency
  key to one provider mutation, the lease under which a worker runs it, and the tombstone that
  keeps a retired key bound for ever. Each transaction of the repository is a function of the
  tables; the times are microseconds, drawn by the caller as the code draws them.

  Arguments of the definitions: the credential scanner, \<open>item_form\<close> (the normal form of a
  provider item, \<open>validated_provider_work_item(...).model_dump(mode="json")\<close>). Texts that the
  code passes through \<open>sanitize_durable_text\<close> arrive sanitized.
\<close>

subsection \<open>Rows and tables\<close>

datatype mutation_status = MPending | MRunning | MCompleted | MFailed

datatype step_status = StepSkipped | StepPending | StepCompleted

record mutation_scope =
  ms_tenant :: string
  ms_consumer :: string
  ms_connection :: string
  ms_operation :: string
  ms_key :: string

record mutation =
  m_id :: string
  m_marker :: string
  m_scope :: mutation_scope
  m_project :: "string option"
  m_version :: int
  m_payload_hash :: string
  m_payload :: pyval
  m_target_key :: "string option"
  m_provider_attempted :: "int option"
  m_comment_attempted :: "int option"
  m_status :: mutation_status
  m_fields_status :: step_status
  m_comment_status :: step_status
  m_result :: "pyval option"
  m_claim_token :: "string option"
  m_claimed_at :: "int option"
  m_next_attempt :: "int option"
  m_attempts :: nat
  m_last_error :: "string option"
  m_terminal_error :: "string option"
  m_created_at :: int
  m_updated_at :: int

record tombstone =
  tb_payload_hash :: string
  tb_outcome :: mutation_status

record connection_row =
  cn_kind :: string
  cn_provider :: string
  cn_project :: "string option"
  cn_enabled :: bool
  cn_runtime_version :: int

record ledger =
  lg_rows :: "mutation list"
  lg_tombstones :: "(string \<times> tombstone) list"
  lg_connections :: "(string \<times> connection_row) list"

datatype ledger_error =
    PayloadConflict string
  | ClaimConflict string
  | RetiredKey string
  | ConnectionChanged string
  | LedgerValueError string
  | LedgerRuntimeError string

text \<open>Five minutes.\<close>

definition MUTATION_LEASE :: int where
  "MUTATION_LEASE = 300000000"

definition terminal :: "mutation_status \<Rightarrow> bool" where
  "terminal st = (st = MCompleted \<or> st = MFailed)"

subsection \<open>Digests of the scope and the payload\<close>

definition canonical_digest :: "pyval \<Rightarrow> string option" where
  "canonical_digest v = map_option (\<lambda>s. sha256_hex (utf8 s)) (json_dumps True False False v)"

definition optional_text :: "string option \<Rightarrow> pyval" where
  "optional_text t = (case t of None \<Rightarrow> PNone | Some s \<Rightarrow> PStr s)"

definition mutation_tenant_scope :: "string option \<Rightarrow> string option" where
  "mutation_tenant_scope project = canonical_digest (PDict [(''project_id'', optional_text project)])"

definition scope_value :: "mutation_scope \<Rightarrow> pyval" where
  "scope_value s = PDict
     [(''tenant_scope'', PStr (ms_tenant s)), (''consumer_id'', PStr (ms_consumer s)),
      (''connection_id'', PStr (ms_connection s)), (''operation'', PStr (ms_operation s)),
      (''idempotency_key'', PStr (ms_key s))]"

definition mutation_scope_hash :: "mutation_scope \<Rightarrow> string" where
  "mutation_scope_hash s = the (canonical_digest (scope_value s))"

text \<open>\<open>canonical_mutation_payload_hash\<close>.\<close>

definition payload_digest :: "pyval \<Rightarrow> ledger_error + string" where
  "payload_digest payload =
     (case validate_json_object ''work-item mutation payload'' default_limits payload of
        Inl e \<Rightarrow> Inl (LedgerValueError (case e of ValueError m \<Rightarrow> m | _ \<Rightarrow> []))
      | Inr _ \<Rightarrow> (case canonical_digest payload of
                   None \<Rightarrow> Inl (LedgerValueError ''Out of range float values are not JSON compliant'')
                 | Some d \<Rightarrow> Inr d))"

definition lowercase_sha256 :: "string \<Rightarrow> bool" where
  "lowercase_sha256 s \<longleftrightarrow> length s = 64 \<and> list_all (\<lambda>c. c \<in> set ''0123456789abcdef'') s"

lemma length_be_bytes [simp]: "length (be_bytes k n) = k"
  by (simp add: be_bytes_def)

lemma be_bytes_byte: "b \<in> set (be_bytes k n) \<Longrightarrow> b < 256"
  by (auto simp: be_bytes_def)

lemma length_sha_rounds: "length st = 8 \<Longrightarrow> length (sha_rounds ws st) = 8"
proof (induction ws st rule: sha_rounds.induct)
  case (1 k w r a b c d e f g h)
  then show ?case by (simp add: Let_def)
qed simp_all

lemma length_sha_block: "length st = 8 \<Longrightarrow> length (sha_block st block) = 8"
  by (simp add: sha_block_def length_sha_rounds)

lemma length_sha_blocks: "length st = 8 \<Longrightarrow> length (sha_blocks n st ws) = 8"
  by (induction n arbitrary: st ws) (simp_all add: length_sha_block)

lemma length_sha256: "length (sha256 bs) = 8"
  by (simp add: sha256_def Let_def length_sha_blocks sha_init_def)

lemma length_concat_map: "(\<And>x. x \<in> set xs \<Longrightarrow> length (f x) = n) \<Longrightarrow> length (concat (map f xs)) = length xs * n"
  by (induction xs) auto

lemma length_sha256_digest [simp]: "length (sha256_digest s) = 32"
  by (simp add: sha256_digest_def length_concat_map [where n = 4] word_bytes_def length_sha256)

lemma sha256_digest_byte: "b \<in> set (sha256_digest s) \<Longrightarrow> b < 256"
  by (auto simp: sha256_digest_def word_bytes_def dest: be_bytes_byte)

lemma hex_char_lower: "n < 16 \<Longrightarrow> hex_char n \<in> set ''0123456789abcdef''"
proof -
  have "\<forall>n \<in> {..<16}. hex_char n \<in> set ''0123456789abcdef''" by code_simp
  then show "n < 16 \<Longrightarrow> ?thesis" by simp
qed

text \<open>Every digest is a lower-case SHA-256.\<close>

lemma sha256_hex_lowercase: "lowercase_sha256 (sha256_hex s)"
  unfolding lowercase_sha256_def list_all_iff
proof
  show "length (sha256_hex s) = 64"
    by (simp add: sha256_hex_def length_concat_map [where n = 2] byte_hex_def)
  show "\<forall>c \<in> set (sha256_hex s). c \<in> set ''0123456789abcdef''"
  proof
    fix c assume "c \<in> set (sha256_hex s)"
    then obtain b where "b \<in> set (sha256_digest s)" "c = hex_char (b div 16) \<or> c = hex_char (b mod 16)"
      by (auto simp: sha256_hex_def byte_hex_def)
    with sha256_digest_byte [of b s] show "c \<in> set ''0123456789abcdef''"
      by (elim disjE; simp only:; intro hex_char_lower) simp_all
  qed
qed

subsection \<open>The normal form of a payload\<close>

definition text_between :: "nat \<Rightarrow> nat \<Rightarrow> pyval \<Rightarrow> bool" where
  "text_between lo hi v = (case v of PStr s \<Rightarrow> lo \<le> length s \<and> length s \<le> hi \<and> nul_free s | _ \<Rightarrow> False)"

definition with_default :: "pyval \<Rightarrow> pydict \<Rightarrow> string \<Rightarrow> pyval" where
  "with_default x d k = (case map_of d k of None \<Rightarrow> x | Some v \<Rightarrow> v)"

definition fields_ok :: "string \<Rightarrow> pyval \<Rightarrow> bool" where
  "fields_ok label v =
     (case v of
        PDict d \<Rightarrow> length d \<le> 64 \<and> validate_json_object label default_limits v = Inr ()
      | _ \<Rightarrow> False)"

text \<open>\<open>WorkItemDraft.model_validate(d).model_dump(mode="json")\<close>; \<open>None\<close> is a validation error.\<close>

definition draft_form :: "scanner \<Rightarrow> pydict \<Rightarrow> pyval option" where
  "draft_form cred d =
     (let title = with_default PNone d ''title'';
          kind = with_default (PStr ''story'') d ''kind'';
          description = with_default (PStr []) d ''description'';
          fs = with_default (PDict []) d ''fields'';
          form = PDict [(''title'', title), (''kind'', kind), (''description'', description),
                        (''fields'', fs)]
      in if fst ` set d \<subseteq> {''title'', ''kind'', ''description'', ''fields''}
            \<and> text_between 1 500 title \<and> text_between 1 64 kind \<and> text_between 0 20000 description
            \<and> fields_ok ''work item fields'' fs \<and> \<not> scan cred form
         then Some form else None)"

definition enrichment_form :: "scanner \<Rightarrow> pydict \<Rightarrow> pyval option" where
  "enrichment_form cred d =
     (let fs = with_default (PDict []) d ''fields'';
          comment = with_default PNone d ''comment'';
          form = PDict [(''fields'', fs), (''comment'', comment)]
      in if fst ` set d \<subseteq> {''fields'', ''comment''}
            \<and> (comment = PNone \<or> text_between 0 20000 comment)
            \<and> fields_ok ''work item enrichment fields'' fs \<and> \<not> scan cred form
         then Some form else None)"

definition key_char :: "char \<Rightarrow> bool" where
  "key_char c \<longleftrightarrow>
     c \<in> set ''ABCDEFGHIJKLMNOPQRSTUVWXYZabcdefghijklmnopqrstuvwxyz0123456789''"

definition target_key_ok :: "string \<Rightarrow> bool" where
  "target_key_ok s =
     (case s of [] \<Rightarrow> False
      | c # r \<Rightarrow> key_char c \<and> length r \<le> 254 \<and> list_all (\<lambda>x. key_char x \<or> x \<in> set ''_.:-'') r)"

text \<open>The payload in the form that its operation writes, or \<open>None\<close>.\<close>

definition payload_form :: "scanner \<Rightarrow> string \<Rightarrow> pyval \<Rightarrow> pydict option" where
  "payload_form cred operation payload =
     (case payload of
        PDict d \<Rightarrow>
          if operation = ''create'' then
            (if fst ` set d = {''draft''}
             then case dget d ''draft'' of
                 PDict r \<Rightarrow> map_option (\<lambda>f. [(''draft'', f)]) (draft_form cred r)
               | _ \<Rightarrow> None
             else None)
          else if operation = ''enrich'' then
            (if fst ` set d = {''key'', ''enrichment''}
             then case (dget d ''key'', dget d ''enrichment'') of
                 (PStr key, PDict r) \<Rightarrow>
                   if \<not> target_key_ok key \<or> scan cred (PStr key) then None
                   else Option.bind (enrichment_form cred r) (\<lambda>f. case f of
                     PDict e \<Rightarrow> if \<not> truthy (dget e ''fields'') \<and> \<not> truthy (dget e ''comment'') then None
                                else Some [(''key'', PStr key), (''enrichment'', f)]
                   | _ \<Rightarrow> None)
               | _ \<Rightarrow> None
             else None)
          else None
      | _ \<Rightarrow> None)"

subsection \<open>Validating a reservation\<close>

definition identifier_error :: "scanner \<Rightarrow> string \<Rightarrow> nat \<Rightarrow> bool \<Rightarrow> bool \<Rightarrow> string \<Rightarrow> ledger_error option" where
  "identifier_error cred label maximum optional trimmed v =
     (if 1 \<le> length v \<and> length v \<le> maximum \<and> nul_free v \<and> (trimmed \<longrightarrow> v = strip v)
         \<and> \<not> scan cred (PStr v)
      then None
      else Some (LedgerValueError (label @ '' must be a credential-free 1-'' @ nat_text maximum
             @ '' character string'' @ (if optional then '' or null'' else []))))"

text \<open>The first of several checks that fails.\<close>

fun first_error :: "ledger_error option list \<Rightarrow> ledger_error + unit" where
  "first_error [] = Inr ()"
| "first_error (None # es) = first_error es"
| "first_error (Some e # es) = Inl e"

definition validated_mutation_payload ::
  "scanner \<Rightarrow> mutation_scope \<Rightarrow> string \<Rightarrow> pyval \<Rightarrow> string option \<Rightarrow> ledger_error + pydict" where
  "validated_mutation_payload cred s hash payload project =
     rbind (first_error
       [identifier_error cred ''work-item mutation consumer id'' 255 False False (ms_consumer s),
        identifier_error cred ''work-item mutation connection id'' 32 False False (ms_connection s),
        identifier_error cred ''work-item mutation idempotency key'' 255 False True (ms_key s),
        Option.bind project (identifier_error cred ''work-item mutation project id'' 255 True False),
        (if \<not> lowercase_sha256 (ms_tenant s) \<or> mutation_tenant_scope project \<noteq> Some (ms_tenant s)
         then Some (LedgerValueError ''work-item mutation tenant scope does not match its project'')
         else None)])
     (\<lambda>_. case payload of
        PDict d \<Rightarrow>
          rbind (payload_digest payload) (\<lambda>digest.
               if \<not> lowercase_sha256 hash \<or> hash \<noteq> digest
               then Inl (LedgerValueError ''work-item mutation payload hash does not match canonical JSON'')
               else case payload_form cred (ms_operation s) payload of
                 None \<Rightarrow> Inl (LedgerValueError ''work-item mutation payload is invalid or credential-bearing'')
               | Some form \<Rightarrow>
                   if py_eq payload (PDict form) then Inr form
                   else Inl (LedgerValueError ''work-item mutation payload is not in canonical operation form''))
      | _ \<Rightarrow> Inl (LedgerValueError ''work-item mutation payload must be a JSON object''))"

text \<open>The steps that an enrichment has to take, from its normal form.\<close>

definition step_needed :: "pydict \<Rightarrow> string \<Rightarrow> step_status" where
  "step_needed form step =
     (case dget form ''enrichment'' of
        PDict e \<Rightarrow> if truthy (dget e step) then StepPending else StepSkipped
      | _ \<Rightarrow> StepSkipped)"

definition expected_target :: "mutation_scope \<Rightarrow> pydict \<Rightarrow> string option" where
  "expected_target s form =
     (if ms_operation s = ''create'' then None else Some (str_of (dget form ''key'')))"

definition validate_reservation ::
  "scanner \<Rightarrow> mutation_scope \<Rightarrow> string \<Rightarrow> pyval \<Rightarrow> string option \<Rightarrow> string option
   \<Rightarrow> step_status \<Rightarrow> step_status \<Rightarrow> ledger_error + unit" where
  "validate_reservation cred s hash payload target project fields_status comment_status =
     rbind (validated_mutation_payload cred s hash payload project) (\<lambda>form.
       if target \<noteq> expected_target s form
       then Inl (LedgerValueError ''work-item mutation target does not match its operation payload'')
       else if fields_status \<noteq> (if ms_operation s = ''create'' then StepSkipped else step_needed form ''fields'')
             \<or> comment_status \<noteq> (if ms_operation s = ''create'' then StepSkipped else step_needed form ''comment'')
       then Inl (LedgerValueError ''work-item mutation step states do not match its operation payload'')
       else Inr ())"

subsection \<open>Reading\<close>

definition find_scope :: "mutation_scope \<Rightarrow> ledger \<Rightarrow> mutation option" where
  "find_scope s L = find (\<lambda>m. m_scope m = s) (lg_rows L)"

definition find_row :: "string \<Rightarrow> ledger \<Rightarrow> mutation option" where
  "find_row i L = find (\<lambda>m. m_id m = i) (lg_rows L)"

definition find_tombstone :: "mutation_scope \<Rightarrow> ledger \<Rightarrow> tombstone option" where
  "find_tombstone s L = map_of (lg_tombstones L) (mutation_scope_hash s)"

text \<open>\<open>_validate_payload\<close>, \<open>_validate_project\<close> and \<open>_validate_connection_version\<close>.\<close>

definition validate_existing ::
  "mutation \<Rightarrow> string \<Rightarrow> pyval \<Rightarrow> string option \<Rightarrow> int \<Rightarrow> ledger_error + mutation" where
  "validate_existing m hash payload project version =
     (if m_payload_hash m \<noteq> hash \<or> \<not> py_eq (m_payload m) payload
      then Inl (PayloadConflict ''idempotency key is already bound to a different work-item mutation payload'')
      else if m_project m \<noteq> project
      then Inl (ConnectionChanged ''work-item mutation project binding changed'')
      else if m_version m \<noteq> version
      then Inl (ConnectionChanged ''work-tracking connection changed after this mutation was reserved'')
      else Inr m)"

definition tombstone_error :: "tombstone \<Rightarrow> string \<Rightarrow> ledger_error" where
  "tombstone_error t hash =
     (if tb_payload_hash t \<noteq> hash
      then PayloadConflict ''idempotency key is already bound to a different retired payload''
      else RetiredKey ''idempotency key is retired and cannot safely repeat its provider mutation'')"

subsection \<open>Transactions that write\<close>

text \<open>
  A transaction is a function of the tables at its commit: an error before the commit, or the
  row that it returns, with whether it has something to commit, and the new tables.
\<close>

type_synonym txn_result = "ledger_error + (mutation \<times> bool) \<times> ledger"

definition put_row :: "int \<Rightarrow> mutation \<Rightarrow> ledger \<Rightarrow> ledger" where
  "put_row now m L =
     L\<lparr>lg_rows := map (\<lambda>r. if m_id r = m_id m then m\<lparr>m_updated_at := now\<rparr> else r) (lg_rows L)\<rparr>"

text \<open>\<open>SELECT ... FOR UPDATE\<close>, a decision on the row, and the commit of the row when it changes.\<close>

definition on_row ::
  "int \<Rightarrow> string \<Rightarrow> ledger_error \<Rightarrow> (mutation \<Rightarrow> ledger_error + mutation \<times> bool) \<Rightarrow> ledger \<Rightarrow> txn_result" where
  "on_row now i missing decide L =
     (case find_row i L of
        None \<Rightarrow> Inl missing
      | Some m \<Rightarrow> rbind (decide m) (\<lambda>(m', write).
          Inr ((m', write), if write then put_row now m' L else L)))"

definition ascii_lower :: "string \<Rightarrow> string" where
  "ascii_lower s =
     map (\<lambda>c. let n = of_char c :: nat in if 65 \<le> n \<and> n \<le> 90 then char_of (n + 32) else c) s"

text \<open>
  The connection of a reservation, locked and checked in the transaction that inserts the row.
  The provider is compared with two ASCII names, for which lower case is \<open>casefold\<close>.
\<close>

definition connection_error ::
  "connection_row option \<Rightarrow> string option \<Rightarrow> int \<Rightarrow> ledger_error option" where
  "connection_error conn project version =
     (case conn of
        None \<Rightarrow> Some (ConnectionChanged ''work-tracking connection is missing or disabled'')
      | Some c \<Rightarrow>
          if \<not> cn_enabled c \<or> cn_kind c \<noteq> ''work_tracking''
          then Some (ConnectionChanged ''work-tracking connection is missing or disabled'')
          else if cn_project c \<noteq> None \<and> cn_project c \<noteq> project
          then Some (ConnectionChanged ''work-tracking connection is outside the mutation project'')
          else if project \<noteq> None \<and> cn_project c = None
                \<and> ascii_lower (strip (cn_provider c)) \<notin> {''stub'', ''fake''}
          then Some (ConnectionChanged ''real work-tracking connection is not bound to the mutation project'')
          else if cn_runtime_version c \<noteq> version
          then Some (ConnectionChanged ''work-tracking connection changed during mutation reservation'')
          else None)"

definition new_mutation ::
  "string \<Rightarrow> int \<Rightarrow> mutation_scope \<Rightarrow> string \<Rightarrow> pyval \<Rightarrow> string option \<Rightarrow> string option \<Rightarrow> int
   \<Rightarrow> step_status \<Rightarrow> step_status \<Rightarrow> mutation" where
  "new_mutation i now s hash payload target project version fs cs =
     \<lparr>m_id = i, m_marker = ''apex-idem-'' @ i, m_scope = s, m_project = project,
      m_version = version, m_payload_hash = hash, m_payload = payload, m_target_key = target,
      m_provider_attempted = None, m_comment_attempted = None, m_status = MPending,
      m_fields_status = fs, m_comment_status = cs, m_result = None, m_claim_token = None,
      m_claimed_at = None, m_next_attempt = None, m_attempts = 0, m_last_error = None,
      m_terminal_error = None, m_created_at = now, m_updated_at = now\<rparr>"

text \<open>
  The insertion; \<open>None\<close> is a commit that the unique constraint on the scope, or the primary key,
  refuses.
\<close>

definition insert_mutation :: "mutation \<Rightarrow> ledger \<Rightarrow> (ledger_error + ledger) option" where
  "insert_mutation m L =
     (case connection_error (map_of (lg_connections L) (ms_connection (m_scope m)))
             (m_project m) (m_version m) of
        Some e \<Rightarrow> Some (Inl e)
      | None \<Rightarrow>
          if list_ex (\<lambda>r. m_scope r = m_scope m \<or> m_id r = m_id m) (lg_rows L) then None
          else Some (Inr (L\<lparr>lg_rows := lg_rows L @ [m]\<rparr>)))"

definition leased :: "int \<Rightarrow> mutation \<Rightarrow> bool" where
  "leased now m \<longleftrightarrow>
     m_status m = MRunning \<and> (case m_claimed_at m of None \<Rightarrow> False | Some c \<Rightarrow> now - MUTATION_LEASE < c)"

definition claim_row :: "int \<Rightarrow> string \<Rightarrow> bool \<Rightarrow> mutation \<Rightarrow> ledger_error + mutation \<times> bool" where
  "claim_row now token ignore_backoff m =
     (if terminal (m_status m) then Inr (m, False)
      else if leased now m then Inl (ClaimConflict ''work-item mutation is already in progress'')
      else if \<not> ignore_backoff \<and> (case m_next_attempt m of None \<Rightarrow> False | Some n \<Rightarrow> now < n)
      then Inl (ClaimConflict ''work-item mutation retry is not due yet'')
      else Inr (m\<lparr>m_status := MRunning, m_claim_token := Some token, m_claimed_at := Some now,
                  m_next_attempt := None, m_attempts := m_attempts m + 1, m_last_error := None\<rparr>, True))"

text \<open>The transitions of a leased row, with the values that each writes.\<close>

datatype ledger_op =
    MarkFields
  | MarkComment
  | MarkProviderAttempted
  | MarkCommentAttempted
  | Renew
  | Complete pyval
  | FailWith string string
  | Release string int

fun op_mutate :: "int \<Rightarrow> ledger_op \<Rightarrow> mutation \<Rightarrow> mutation" where
  "op_mutate now MarkFields m = m\<lparr>m_fields_status := StepCompleted\<rparr>"
| "op_mutate now MarkComment m = m\<lparr>m_comment_status := StepCompleted\<rparr>"
| "op_mutate now MarkProviderAttempted m = m\<lparr>m_provider_attempted := Some now\<rparr>"
| "op_mutate now MarkCommentAttempted m = m\<lparr>m_comment_attempted := Some now\<rparr>"
| "op_mutate now Renew m = m\<lparr>m_claimed_at := Some now\<rparr>"
| "op_mutate now (Complete result) m =
     m\<lparr>m_status := MCompleted, m_result := Some result, m_claim_token := None, m_claimed_at := None,
       m_next_attempt := None, m_last_error := None\<rparr>"
| "op_mutate now (FailWith kind text) m =
     m\<lparr>m_status := MFailed, m_terminal_error := Some kind, m_last_error := Some text,
       m_claim_token := None, m_claimed_at := None, m_next_attempt := None\<rparr>"
| "op_mutate now (Release text delay) m =
     m\<lparr>m_status := MPending, m_last_error := Some text, m_claim_token := None, m_claimed_at := None,
       m_next_attempt := Some (now + delay)\<rparr>"

fun op_resolved :: "ledger_op \<Rightarrow> mutation \<Rightarrow> bool" where
  "op_resolved MarkFields m = (m_fields_status m = StepCompleted)"
| "op_resolved MarkComment m = (m_comment_status m = StepCompleted)"
| "op_resolved MarkProviderAttempted m = (m_provider_attempted m \<noteq> None)"
| "op_resolved MarkCommentAttempted m = (m_comment_attempted m \<noteq> None)"
| "op_resolved Renew m = False"
| "op_resolved (Complete result) m =
     (m_status m = MCompleted \<and> (case m_result m of None \<Rightarrow> False | Some r \<Rightarrow> py_eq r result))"
| "op_resolved (FailWith kind text) m = (m_status m = MFailed \<and> m_terminal_error m = Some kind)"
| "op_resolved (Release text delay) m = (m_status m \<noteq> MRunning)"

text \<open>\<open>require_owner_for_resolution\<close>.\<close>

definition op_owner_only :: "ledger_op \<Rightarrow> bool" where
  "op_owner_only act =
     (act \<in> {MarkFields, MarkComment, MarkProviderAttempted, MarkCommentAttempted})"

definition owns :: "string \<Rightarrow> mutation \<Rightarrow> bool" where
  "owns token m \<longleftrightarrow> m_status m = MRunning \<and> m_claim_token m = Some token"

definition lease_lost :: ledger_error where
  "lease_lost = ClaimConflict ''work-item mutation lease was lost''"

definition transition_row ::
  "int \<Rightarrow> string \<Rightarrow> ledger_op \<Rightarrow> mutation \<Rightarrow> ledger_error + mutation \<times> bool" where
  "transition_row now token act m =
     (if op_owner_only act \<and> \<not> owns token m then Inl lease_lost
      else if op_resolved act m then Inr (m, False)
      else if \<not> owns token m then Inl lease_lost
      else Inr (op_mutate now act m, True))"

definition defer_row :: "int \<Rightarrow> string \<Rightarrow> int \<Rightarrow> mutation \<Rightarrow> ledger_error + mutation \<times> bool" where
  "defer_row now text delay m =
     (if terminal (m_status m) then Inr (m, False)
      else if leased now m then Inl (ClaimConflict ''work-item mutation is already in progress'')
      else Inr (m\<lparr>m_status := MPending, m_claim_token := None, m_claimed_at := None,
                  m_next_attempt := Some (now + delay), m_attempts := m_attempts m + 1,
                  m_last_error := Some text\<rparr>, True))"

subsection \<open>Sweeping\<close>

text \<open>\<open>ready_ids\<close>: due rows and rows whose lease has lapsed, oldest first.\<close>

definition ready :: "int \<Rightarrow> mutation \<Rightarrow> bool" where
  "ready now m \<longleftrightarrow>
     (m_status m = MPending \<and> (case m_next_attempt m of None \<Rightarrow> True | Some n \<Rightarrow> n \<le> now))
     \<or> (m_status m = MRunning
        \<and> (case m_claimed_at m of None \<Rightarrow> True | Some c \<Rightarrow> c \<le> now - MUTATION_LEASE))"

definition ready_ids :: "int \<Rightarrow> nat \<Rightarrow> ledger \<Rightarrow> string list" where
  "ready_ids now bound L =
     map m_id (take bound (sort_key m_created_at (sort_key m_id (filter (ready now) (lg_rows L)))))"

definition retire_row :: "mutation \<Rightarrow> ledger \<Rightarrow> ledger_error + ledger" where
  "retire_row m L =
     (let h = mutation_scope_hash (m_scope m);
          rest = L\<lparr>lg_rows := filter (\<lambda>r. m_id r \<noteq> m_id m) (lg_rows L)\<rparr>
      in case map_of (lg_tombstones L) h of
           None \<Rightarrow> Inr (rest\<lparr>lg_tombstones := (h, \<lparr>tb_payload_hash = m_payload_hash m,
                                                tb_outcome = m_status m\<rparr>) # lg_tombstones L\<rparr>)
         | Some t \<Rightarrow> if tb_payload_hash t \<noteq> m_payload_hash m
                     then Inl (LedgerRuntimeError ''work-item mutation tombstone hash collision'')
                     else Inr rest)"

text \<open>
  \<open>retire_terminal_before\<close>: \<open>SKIP LOCKED\<close> leaves out the rows that another transaction holds,
  here those of the predicate \<open>locked\<close>. The result counts the retired rows.
\<close>

definition retire_terminal ::
  "int \<Rightarrow> nat \<Rightarrow> (mutation \<Rightarrow> bool) \<Rightarrow> ledger \<Rightarrow> ledger_error + nat \<times> ledger" where
  "retire_terminal cutoff bound locked L =
     (let old = filter (\<lambda>m. terminal (m_status m) \<and> m_updated_at m < cutoff \<and> \<not> locked m) (lg_rows L);
          batch = take bound (sort_key m_updated_at (sort_key m_id old))
      in rbind (rfold retire_row batch L) (\<lambda>L'. Inr (length batch, L')))"

subsection \<open>The transactions as one type\<close>

datatype txn =
    GetByScope mutation_scope
  | GetRow string
  | InsertRow mutation
  | ClaimRow string string int bool
  | Transition string string int ledger_op
  | DeferRow string int string int

text \<open>
  What a transaction comes to: an error that the code raises, a commit that the database refuses,
  or a row with the bit that says whether there was anything to commit.
\<close>

datatype txn_reply = TxnError ledger_error | CommitRefused | TxnRow "mutation option" bool

definition row_reply :: "ledger \<Rightarrow> txn_result \<Rightarrow> txn_reply \<times> ledger" where
  "row_reply L r =
     (case r of Inl e \<Rightarrow> (TxnError e, L) | Inr ((m, write), L') \<Rightarrow> (TxnRow (Some m) write, L'))"

fun run_txn :: "int \<Rightarrow> txn \<Rightarrow> ledger \<Rightarrow> txn_reply \<times> ledger" where
  "run_txn now (GetByScope s) L = (TxnRow (find_scope s L) False, L)"
| "run_txn now (GetRow i) L = (TxnRow (find_row i L) False, L)"
| "run_txn now (InsertRow m) L =
     (let m' = m\<lparr>m_created_at := now, m_updated_at := now\<rparr>
      in case insert_mutation m' L of
           None \<Rightarrow> (CommitRefused, L)
         | Some (Inl e) \<Rightarrow> (TxnError e, L)
         | Some (Inr L') \<Rightarrow> (TxnRow (Some m') True, L'))"
| "run_txn now (ClaimRow i token drawn ignore_backoff) L =
     row_reply L (on_row now i
       (LedgerRuntimeError ''work-item mutation disappeared before it was claimed'')
       (claim_row drawn token ignore_backoff) L)"
| "run_txn now (Transition i token drawn act) L =
     row_reply L (on_row now i
       (LedgerRuntimeError ''work-item mutation disappeared during state transition'')
       (transition_row drawn token act) L)"
| "run_txn now (DeferRow i drawn text delay) L =
     row_reply L (on_row now i
       (LedgerRuntimeError ''work-item mutation disappeared while deferring resolution'')
       (defer_row drawn text delay) L)"

end
