(* ===== verification/Mutation_Service.thy ===== *)
theory Mutation_Service
  imports Mutation_Ledger
begin

text \<open>
  The coordinator of work-item mutations (src/apex/services/work_item_mutations.py). A coroutine
  is a program: a tree with a node for each \<open>await\<close>, whose children are what the code does with
  each answer. The answers come from the tables, the clock, \<open>uuid4\<close>, the provider and the lease
  heartbeat; how the programs of many workers interleave over one set of tables is the subject of
  Mutation_Runs.
\<close>

subsection \<open>Programs\<close>

text \<open>
  Exceptions: of the repository, of the database before and during a commit, a cancelled task, the
  two errors with which an adapter refuses for good, \<open>_PermanentMutationFailure\<close>,
  \<open>WorkItemMutationOutcomeAmbiguousError\<close>, and any other.
\<close>

datatype failure =
    LedgerFailure ledger_error
  | DbFailure
  | CommitFailure
  | Cancelled
  | Rejected
  | TargetNotFound
  | Permanent string
  | Ambiguous string string
  | Forbidden string
  | Raised exn

datatype provider_call =
    FindMarker string
  | ValidateCreate pyval string
  | CreateItem pyval string
  | ValidateFields pyval
  | UpdateFields string pyval
  | HasMarker string string
  | AddComment string string string
  | GetItem string

datatype 'a prog =
    Done 'a
  | Throw failure
  | NewId "string \<Rightarrow> 'a prog"
  | Clock "int \<Rightarrow> 'a prog"
  | Txn txn "failure + mutation option \<Rightarrow> 'a prog"
  | ReadTombstone mutation_scope "failure + tombstone option \<Rightarrow> 'a prog"
  | Provider provider_call "failure + pyval \<Rightarrow> 'a prog"
  | HeartbeatEnd "failure option \<Rightarrow> 'a prog"

primrec pbind :: "'a prog \<Rightarrow> ('a \<Rightarrow> 'b prog) \<Rightarrow> 'b prog" where
  "pbind (Done a) f = f a"
| "pbind (Throw e) f = Throw e"
| "pbind (NewId k) f = NewId (\<lambda>x. pbind (k x) f)"
| "pbind (Clock k) f = Clock (\<lambda>x. pbind (k x) f)"
| "pbind (Txn t k) f = Txn t (\<lambda>x. pbind (k x) f)"
| "pbind (ReadTombstone s k) f = ReadTombstone s (\<lambda>x. pbind (k x) f)"
| "pbind (Provider c k) f = Provider c (\<lambda>x. pbind (k x) f)"
| "pbind (HeartbeatEnd k) f = HeartbeatEnd (\<lambda>x. pbind (k x) f)"

text \<open>\<open>try: p except ...: h\<close>.\<close>

primrec pcatch :: "'a prog \<Rightarrow> (failure \<Rightarrow> 'a prog) \<Rightarrow> 'a prog" where
  "pcatch (Done a) h = Done a"
| "pcatch (Throw e) h = h e"
| "pcatch (NewId k) h = NewId (\<lambda>x. pcatch (k x) h)"
| "pcatch (Clock k) h = Clock (\<lambda>x. pcatch (k x) h)"
| "pcatch (Txn t k) h = Txn t (\<lambda>x. pcatch (k x) h)"
| "pcatch (ReadTombstone s k) h = ReadTombstone s (\<lambda>x. pcatch (k x) h)"
| "pcatch (Provider c k) h = Provider c (\<lambda>x. pcatch (k x) h)"
| "pcatch (HeartbeatEnd k) h = HeartbeatEnd (\<lambda>x. pcatch (k x) h)"

fun lift :: "ledger_error + 'a \<Rightarrow> 'a prog" where
  "lift (Inl e) = Throw (LedgerFailure e)"
| "lift (Inr a) = Done a"

subsection \<open>Repository calls with recovery\<close>

text \<open>
  A commit that raises may have happened: the code reads the row again and accepts it when it
  proves that the transaction, or one of equal effect, went through.
\<close>

definition with_recovery :: "txn \<Rightarrow> txn \<Rightarrow> (mutation \<Rightarrow> mutation prog) \<Rightarrow> mutation prog" where
  "with_recovery t reread accept =
     Txn t (\<lambda>r. case r of
         Inr (Some m) \<Rightarrow> Done m
       | Inr None \<Rightarrow> Throw DbFailure
       | Inl e \<Rightarrow>
           if e = CommitFailure then
             Txn reread (\<lambda>r'. case r' of
                 Inr (Some m) \<Rightarrow> accept m
               | Inr None \<Rightarrow> Throw CommitFailure
               | Inl e' \<Rightarrow> Throw e')
           else Throw e)"

definition accept_if :: "bool \<Rightarrow> mutation \<Rightarrow> mutation prog" where
  "accept_if c m = (if c then Done m else Throw CommitFailure)"

definition claim :: "string \<Rightarrow> bool \<Rightarrow> mutation prog" where
  "claim i ignore_backoff =
     NewId (\<lambda>token. Clock (\<lambda>now.
       with_recovery (ClaimRow i token now ignore_backoff) (GetRow i)
         (\<lambda>m. accept_if (terminal (m_status m) \<or> owns token m) m)))"

definition lease_transition :: "string \<Rightarrow> string \<Rightarrow> ledger_op \<Rightarrow> mutation prog" where
  "lease_transition i token act =
     Clock (\<lambda>now.
       with_recovery (Transition i token now act) (GetRow i)
         (\<lambda>m. accept_if ((op_owner_only act \<longrightarrow> owns token m) \<and> op_resolved act m) m))"

text \<open>What identifies a reservation besides its scope.\<close>

record reservation =
  rv_scope :: mutation_scope
  rv_hash :: string
  rv_payload :: pyval
  rv_target :: "string option"
  rv_project :: "string option"
  rv_version :: int
  rv_fields_status :: step_status
  rv_comment_status :: step_status

definition existing_for :: "reservation \<Rightarrow> mutation \<Rightarrow> mutation prog" where
  "existing_for q m =
     lift (validate_existing m (rv_hash q) (rv_payload q) (rv_project q) (rv_version q))"

definition mutation_for :: "reservation \<Rightarrow> string \<Rightarrow> mutation" where
  "mutation_for q i =
     new_mutation i 0 (rv_scope q) (rv_hash q) (rv_payload q) (rv_target q) (rv_project q)
       (rv_version q) (rv_fields_status q) (rv_comment_status q)"

definition reserve :: "scanner \<Rightarrow> reservation \<Rightarrow> mutation prog" where
  "reserve cred q =
     pbind (lift (validate_reservation cred (rv_scope q) (rv_hash q) (rv_payload q) (rv_target q)
                    (rv_project q) (rv_fields_status q) (rv_comment_status q))) (\<lambda>_.
     Txn (GetByScope (rv_scope q)) (\<lambda>r. case r of
         Inl e \<Rightarrow> Throw e
       | Inr (Some m) \<Rightarrow> existing_for q m
       | Inr None \<Rightarrow>
           ReadTombstone (rv_scope q) (\<lambda>r. case r of
               Inl e \<Rightarrow> Throw e
             | Inr (Some t) \<Rightarrow> Throw (LedgerFailure (tombstone_error t (rv_hash q)))
             | Inr None \<Rightarrow>
                 NewId (\<lambda>i.
                   with_recovery (InsertRow (mutation_for q i)) (GetByScope (rv_scope q))
                     (existing_for q)))))"

text \<open>\<open>inspect\<close>: look a key up without reserving it.\<close>

definition inspect :: "scanner \<Rightarrow> reservation \<Rightarrow> mutation option prog" where
  "inspect cred q =
     pbind (lift (validated_mutation_payload cred (rv_scope q) (rv_hash q) (rv_payload q) (rv_project q)))
     (\<lambda>_. Txn (GetByScope (rv_scope q)) (\<lambda>r. case r of
         Inl e \<Rightarrow> Throw e
       | Inr (Some m) \<Rightarrow> pbind (existing_for q m) (\<lambda>x. Done (Some x))
       | Inr None \<Rightarrow>
           ReadTombstone (rv_scope q) (\<lambda>r. case r of
               Inl e \<Rightarrow> Throw e
             | Inr (Some t) \<Rightarrow> Throw (LedgerFailure (tombstone_error t (rv_hash q)))
             | Inr None \<Rightarrow> Done None)))"

subsection \<open>Results\<close>

text \<open>
  \<open>item_form\<close>: the JSON form of a provider item after \<open>validated_provider_work_item\<close>, or
  \<open>None\<close> when it is refused.
\<close>

type_synonym item_form = "pyval \<Rightarrow> pyval option"

definition item_key :: "pyval \<Rightarrow> pyval" where
  "item_key v = (case v of PDict d \<Rightarrow> dget d ''key'' | _ \<Rightarrow> PNone)"

definition stored_result :: "item_form \<Rightarrow> mutation \<Rightarrow> pyval prog" where
  "stored_result form m =
     (if m_status m \<noteq> MCompleted then Throw (Raised (RuntimeError ''completed work-item mutation has no durable result''))
      else case m_result m of
        None \<Rightarrow> Throw (Raised (RuntimeError ''completed work-item mutation has no durable result''))
      | Some r \<Rightarrow> (case form r of
          None \<Rightarrow> Throw (Raised (RuntimeError ''completed work-item mutation has an invalid durable result''))
        | Some item \<Rightarrow>
            if ms_operation (m_scope m) = ''enrich'' \<and> Some (item_key item) \<noteq> map_option PStr (m_target_key m)
            then Throw (Raised (RuntimeError ''completed enrichment result does not match its target''))
            else Done item))"

definition stored_failure :: "mutation \<Rightarrow> 'a prog" where
  "stored_failure m =
     Throw (Raised
       (if m_terminal_error m = Some ''not_found''
        then KeyError ''work tracker rejected the previously attempted target''
        else if m_terminal_error m = Some ''rejected''
        then ValueError ''work tracker rejected the previously attempted mutation''
        else RuntimeError ''work tracker mutation previously failed''))"

text \<open>\<open>complete\<close> with \<open>_validated_completion_result\<close>.\<close>

definition complete :: "item_form \<Rightarrow> string \<Rightarrow> string \<Rightarrow> pyval \<Rightarrow> mutation prog" where
  "complete form i token result =
     (case validate_json_object ''work-item mutation result'' default_limits result of
        Inl e \<Rightarrow> Throw (Raised e)
      | Inr _ \<Rightarrow>
          (case form result of
             None \<Rightarrow> Throw (Raised (ValueError ''work-item mutation result is invalid or credential-bearing''))
           | Some normal \<Rightarrow>
               if py_eq result normal then lease_transition i token (Complete normal)
               else Throw (Raised (ValueError ''work-item mutation result is not in canonical safe form''))))"

text \<open>\<open>_complete\<close>: the item in its durable form becomes the result of the row.\<close>

definition complete_item :: "item_form \<Rightarrow> string \<Rightarrow> string \<Rightarrow> pyval \<Rightarrow> pyval prog" where
  "complete_item form i token item =
     (case form item of
        None \<Rightarrow> Throw (Raised (RuntimeError ''work-tracking adapter returned an invalid work item''))
      | Some result \<Rightarrow> pbind (complete form i token result) (stored_result form))"

subsection \<open>Running a claimed row\<close>

text \<open>\<open>_run_optional_validator\<close>; an adapter without the method answers \<open>None\<close>.\<close>

definition run_validator :: "provider_call \<Rightarrow> unit prog" where
  "run_validator c =
     Provider c (\<lambda>r. case r of
         Inr _ \<Rightarrow> Done ()
       | Inl TargetNotFound \<Rightarrow> Throw (Permanent ''not_found'')
       | Inl Rejected \<Rightarrow> Throw (Permanent ''rejected'')
       | Inl (Raised (ValueError m)) \<Rightarrow> Throw (Permanent ''rejected'')
       | Inl e \<Rightarrow> Throw e)"

definition create_post :: "item_form \<Rightarrow> mutation \<Rightarrow> string \<Rightarrow> pyval \<Rightarrow> pyval prog" where
  "create_post form row token draft =
     Provider (CreateItem draft (m_marker row)) (\<lambda>r. case r of
         Inl Rejected \<Rightarrow> Throw (Permanent ''rejected'')
       | Inl Cancelled \<Rightarrow> Throw Cancelled
       | Inl e \<Rightarrow> Throw (Ambiguous (m_id row) ''create'')
       | Inr item \<Rightarrow>
           if item = PNone then Throw (Raised (RuntimeError ''work tracker returned no created item''))
           else complete_item form (m_id row) token item)"

definition execute_create :: "scanner \<Rightarrow> item_form \<Rightarrow> mutation \<Rightarrow> string \<Rightarrow> pyval prog" where
  "execute_create cred form row token =
     Provider (FindMarker (m_marker row)) (\<lambda>r. case r of
         Inl e \<Rightarrow> Throw e
       | Inr item \<Rightarrow>
           if item \<noteq> PNone then complete_item form (m_id row) token item
           else if m_provider_attempted row \<noteq> None then Throw (Ambiguous (m_id row) ''create'')
           else case m_payload row of
             PDict p \<Rightarrow>
               (case dget p ''draft'' of
                  PDict d \<Rightarrow>
                    (case draft_form cred d of
                       None \<Rightarrow> Throw (Permanent ''rejected'')
                     | Some draft \<Rightarrow>
                         pbind (run_validator (ValidateCreate draft (m_marker row))) (\<lambda>_.
                         pbind (lease_transition (m_id row) token MarkProviderAttempted) (\<lambda>row'.
                         create_post form row' token draft)))
                | _ \<Rightarrow> Throw (Permanent ''rejected''))
           | _ \<Rightarrow> Throw (Raised (TypeError ''payload'')))"

text \<open>A provider call of an enrichment whose refusals are permanent.\<close>

definition permanent_call :: "provider_call \<Rightarrow> (pyval \<Rightarrow> 'a prog) \<Rightarrow> 'a prog" where
  "permanent_call c k =
     Provider c (\<lambda>r. case r of
         Inr v \<Rightarrow> k v
       | Inl TargetNotFound \<Rightarrow> Throw (Permanent ''not_found'')
       | Inl Rejected \<Rightarrow> Throw (Permanent ''rejected'')
       | Inl e \<Rightarrow> Throw e)"

definition step_open :: "step_status \<Rightarrow> bool" where
  "step_open st \<longleftrightarrow> st \<noteq> StepCompleted \<and> st \<noteq> StepSkipped"

definition enrich_fields :: "mutation \<Rightarrow> string \<Rightarrow> string \<Rightarrow> pyval \<Rightarrow> mutation prog" where
  "enrich_fields row token key fs =
     (if step_open (m_fields_status row) then
        pbind (run_validator (ValidateFields fs)) (\<lambda>_.
        permanent_call (UpdateFields key fs) (\<lambda>_. lease_transition (m_id row) token MarkFields))
      else Done row)"

definition comment_post :: "mutation \<Rightarrow> string \<Rightarrow> string \<Rightarrow> unit prog" where
  "comment_post row key comment =
     Provider (AddComment key comment (m_marker row)) (\<lambda>r. case r of
         Inr _ \<Rightarrow> Done ()
       | Inl TargetNotFound \<Rightarrow> Throw (Permanent ''not_found'')
       | Inl Rejected \<Rightarrow> Throw (Permanent ''rejected'')
       | Inl Cancelled \<Rightarrow> Throw Cancelled
       | Inl e \<Rightarrow> Throw (Ambiguous (m_id row) ''comment''))"

text \<open>The comment step: the row it returns has the step recorded.\<close>

definition enrich_comment :: "mutation \<Rightarrow> string \<Rightarrow> string \<Rightarrow> pyval \<Rightarrow> mutation prog" where
  "enrich_comment row token key comment =
     (if step_open (m_comment_status row) then
        permanent_call (HasMarker key (m_marker row)) (\<lambda>has.
          if truthy has then lease_transition (m_id row) token MarkComment
          else if m_comment_attempted row \<noteq> None then Throw (Ambiguous (m_id row) ''comment'')
          else case comment of
            PStr text \<Rightarrow>
              pbind (lease_transition (m_id row) token MarkCommentAttempted) (\<lambda>row'.
              pbind (comment_post row' key text) (\<lambda>_. lease_transition (m_id row') token MarkComment))
          | _ \<Rightarrow> Throw (Raised (RuntimeError ''comment step has no durable comment payload'')))
      else Done row)"

definition read_enriched :: "item_form \<Rightarrow> mutation \<Rightarrow> string \<Rightarrow> string \<Rightarrow> pyval prog" where
  "read_enriched form row token key =
     Provider (GetItem key) (\<lambda>r. case r of
         Inl e \<Rightarrow> Throw e
       | Inr raw \<Rightarrow> (case form raw of
           None \<Rightarrow> Throw (Raised (RuntimeError ''work-tracking adapter returned an invalid work item''))
         | Some item \<Rightarrow>
             if item_key item \<noteq> PStr key
             then Throw (Raised (RuntimeError ''work tracker returned a mismatched enrichment target''))
             else complete_item form (m_id row) token item))"

definition execute_enrich :: "scanner \<Rightarrow> item_form \<Rightarrow> mutation \<Rightarrow> string \<Rightarrow> pyval prog" where
  "execute_enrich cred form row token =
     (case m_target_key row of
        None \<Rightarrow> Throw (Raised (RuntimeError ''enrichment mutation is missing its target key''))
      | Some key \<Rightarrow>
          if key = [] then Throw (Raised (RuntimeError ''enrichment mutation is missing its target key''))
          else case m_payload row of
            PDict p \<Rightarrow>
              (case dget p ''enrichment'' of
                 PDict d \<Rightarrow>
                   (case enrichment_form cred d of
                      Some (PDict e) \<Rightarrow>
                        pbind (enrich_fields row token key (dget e ''fields'')) (\<lambda>row1.
                        pbind (enrich_comment row1 token key (dget e ''comment'')) (\<lambda>row2.
                        read_enriched form row2 token key))
                    | _ \<Rightarrow> Throw (Permanent ''rejected''))
               | _ \<Rightarrow> Throw (Permanent ''rejected''))
          | _ \<Rightarrow> Throw (Raised (TypeError ''payload'')))"

subsection \<open>Leases and retries\<close>

text \<open>
  \<open>_retry_delay\<close>, in microseconds: thirty seconds, doubled per attempt up to an hour, times a
  jitter between 0.75 and 1.25 taken from a digest of the row and the attempt. The seconds are
  exact here; the code has the nearest double before \<open>timedelta\<close> rounds to a microsecond.
\<close>

definition retry_jitter :: "string \<Rightarrow> nat \<Rightarrow> rat" where
  "retry_jitter i attempts =
     (let d = sha256_digest (utf8 (i @ '':'' @ nat_text attempts))
      in 3 / 4 + of_nat (256 * d ! 0 + d ! 1) / 131070)"

definition retry_delay :: "string \<Rightarrow> nat \<Rightarrow> int" where
  "retry_delay i attempts =
     (let unjittered = min (30 * 2 ^ min (attempts - 1) 10) 3600
      in round_half_even (1000000 * min (unjittered * retry_jitter i attempts) 3600))"

text \<open>The delay before a retry.\<close>

lemma digest_byte: "n < 32 \<Longrightarrow> sha256_digest s ! n < 256"
  by (rule sha256_digest_byte [of _ s]) simp

lemma retry_jitter_bounds: "3 / 4 \<le> retry_jitter i n" "retry_jitter i n \<le> 5 / 4"
proof -
  let ?d = "sha256_digest (utf8 (i @ '':'' @ nat_text n))"
  have "?d ! 0 < 256" "?d ! 1 < 256" by (rule digest_byte; simp)+
  then have "256 * ?d ! 0 + ?d ! 1 \<le> 65535" by linarith
  then have "(of_nat (256 * ?d ! 0 + ?d ! 1) :: rat) \<le> of_nat 65535" by (simp only: of_nat_le_iff)
  then have "(of_nat (256 * ?d ! 0 + ?d ! 1) :: rat) / 131070 \<le> 65535 / 131070"
    by (intro divide_right_mono) simp_all
  then show "retry_jitter i n \<le> 5 / 4" unfolding retry_jitter_def Let_def by simp
  have "0 \<le> (of_nat (256 * ?d ! 0 + ?d ! 1) :: rat) / 131070" by simp
  then show "3 / 4 \<le> retry_jitter i n" unfolding retry_jitter_def Let_def by linarith
qed

lemma round_half_even_bounds:
  "of_int a \<le> y \<Longrightarrow> a \<le> round_half_even y" "y \<le> of_int b \<Longrightarrow> round_half_even y \<le> b"
proof -
  show "of_int a \<le> y \<Longrightarrow> a \<le> round_half_even y"
    by (simp add: round_half_even_def Let_def le_floor_iff) (smt (verit) le_floor_iff)
  assume y: "y \<le> of_int b"
  show "round_half_even y \<le> b"
  proof (cases "y = of_int b")
    case True
    then show ?thesis by (simp add: round_half_even_def)
  next
    case False
    with y have "\<lfloor>y\<rfloor> < b" by (simp add: floor_less_iff)
    then show ?thesis by (simp add: round_half_even_def Let_def)
  qed
qed

text \<open>The unjittered delay: thirty seconds, doubled with each attempt, at most an hour.\<close>

definition unjittered :: "nat \<Rightarrow> int" where
  "unjittered attempts = min (30 * 2 ^ min (attempts - 1) 10) 3600"

lemma retry_delay_bounds:
  "750000 * unjittered n \<le> retry_delay i n
   \<and> retry_delay i n \<le> min (1250000 * unjittered n) 3600000000
   \<and> 22500000 \<le> retry_delay i n"
proof -
  let ?j = "retry_jitter i n" and ?u = "of_int (unjittered n) :: rat"
  let ?y = "1000000 * min (?u * ?j) 3600"
  have u: "30 \<le> unjittered n" "unjittered n \<le> 3600"
    using one_le_power [of "2 :: int" "min (n - 1) 10"] unfolding unjittered_def by linarith+
  have eq: "retry_delay i n = round_half_even ?y"
    by (simp add: retry_delay_def Let_def unjittered_def of_int_min)
  have "(30 :: rat) \<le> ?u" "?u \<le> 3600" using u by (metis of_int_le_iff of_int_numeral)+
  have "?u * (3 / 4) \<le> ?u * ?j" "?u * ?j \<le> ?u * (5 / 4)"
    using retry_jitter_bounds [of i n] \<open>30 \<le> ?u\<close> by (intro mult_left_mono; simp)+
  then have "of_int (750000 * unjittered n) \<le> ?y" "?y \<le> of_int (min (1250000 * unjittered n) 3600000000)"
    using \<open>?u \<le> 3600\<close> by (simp_all add: of_int_min min_def)
  from round_half_even_bounds(1) [OF this(1)] round_half_even_bounds(2) [OF this(2)] u eq
  show ?thesis by linarith
qed

text \<open>\<open>safe_type_name\<close> of an exception.\<close>

fun ledger_error_name :: "ledger_error \<Rightarrow> string" where
  "ledger_error_name (PayloadConflict m) = ''MutationPayloadConflictError''"
| "ledger_error_name (ClaimConflict m) = ''MutationClaimedError''"
| "ledger_error_name (RetiredKey m) = ''MutationRetiredError''"
| "ledger_error_name (ConnectionChanged m) = ''MutationConnectionChangedError''"
| "ledger_error_name (LedgerValueError m) = ''ValueError''"
| "ledger_error_name (LedgerRuntimeError m) = ''RuntimeError''"

fun failure_name :: "failure \<Rightarrow> string" where
  "failure_name (LedgerFailure e) = ledger_error_name e"
| "failure_name DbFailure = ''OperationalError''"
| "failure_name CommitFailure = ''OperationalError''"
| "failure_name Cancelled = ''CancelledError''"
| "failure_name Rejected = ''WorkTrackingMutationRejectedError''"
| "failure_name TargetNotFound = ''WorkTrackingMutationTargetNotFoundError''"
| "failure_name (Permanent k) = ''_PermanentMutationFailure''"
| "failure_name (Ambiguous i k) = ''WorkItemMutationOutcomeAmbiguousError''"
| "failure_name (Forbidden m) = ''PermissionError''"
| "failure_name (Raised (ValueError m)) = ''ValueError''"
| "failure_name (Raised (KeyError m)) = ''KeyError''"
| "failure_name (Raised (RuntimeError m)) = ''RuntimeError''"
| "failure_name (Raised (TypeError m)) = ''TypeError''"

text \<open>
  \<open>_run_with_lease_heartbeat\<close>: when the heartbeat ends first it cancels the operation and its own
  error is raised.
\<close>

definition with_heartbeat :: "'a prog \<Rightarrow> 'a prog" where
  "with_heartbeat p =
     pcatch p (\<lambda>e. if e = Cancelled
                   then HeartbeatEnd (\<lambda>h. case h of None \<Rightarrow> Throw Cancelled | Some e' \<Rightarrow> Throw e')
                   else Throw e)"

text \<open>\<open>_release_after_interruption\<close>, then the original exception; only a cancellation replaces it.\<close>

definition release_then :: "mutation \<Rightarrow> string \<Rightarrow> failure \<Rightarrow> 'a prog" where
  "release_then m token e =
     pbind (pcatch (pbind (lease_transition (m_id m) token
                             (Release (failure_name e) (retry_delay (m_id m) (m_attempts m))))
                      (\<lambda>_. Done ()))
              (\<lambda>f. if f = Cancelled then Throw Cancelled else Done ()))
       (\<lambda>_. Throw e)"

record adapter =
  ad_read_only :: bool
  ad_idempotent :: bool

text \<open>\<open>_require_idempotent_adapter\<close>.\<close>

definition adapter_error :: "adapter \<Rightarrow> failure option" where
  "adapter_error a =
     (if ad_read_only a then Some Rejected
      else if \<not> ad_idempotent a
      then Some (Raised (RuntimeError ''resolved work-tracking adapter does not implement durable mutation reconciliation''))
      else None)"

definition require_adapter :: "adapter \<Rightarrow> 'a prog \<Rightarrow> 'a prog" where
  "require_adapter a p = (case adapter_error a of None \<Rightarrow> p | Some e \<Rightarrow> Throw e)"

definition replay :: "item_form \<Rightarrow> mutation \<Rightarrow> pyval prog \<Rightarrow> pyval prog" where
  "replay form m p =
     (if m_status m = MCompleted then stored_result form m
      else if m_status m = MFailed then stored_failure m else p)"

text \<open>What \<open>_run\<close> does with an exception of the operation it ran under the lease.\<close>

definition settle_failure :: "mutation \<Rightarrow> string \<Rightarrow> failure \<Rightarrow> 'a prog" where
  "settle_failure m token e =
     (case e of
        Permanent kind \<Rightarrow>
          pbind (lease_transition (m_id m) token
                  (FailWith kind (if kind = ''not_found'' then ''WorkTrackingMutationTargetNotFoundError''
                                  else ''WorkTrackingMutationRejectedError'')))
            (\<lambda>_. Throw (if kind = ''not_found'' then TargetNotFound else Rejected))
      | _ \<Rightarrow> release_then m token e)"

definition execute :: "scanner \<Rightarrow> item_form \<Rightarrow> mutation \<Rightarrow> string \<Rightarrow> pyval prog" where
  "execute cred form m token =
     (if ms_operation (m_scope m) = ''create'' then execute_create cred form m token
      else if ms_operation (m_scope m) = ''enrich'' then execute_enrich cred form m token
      else Throw (Raised (RuntimeError ''unknown work-item mutation operation'')))"

definition run_claimed :: "scanner \<Rightarrow> item_form \<Rightarrow> mutation \<Rightarrow> pyval prog" where
  "run_claimed cred form m =
     replay form m
       (case m_claim_token m of
          None \<Rightarrow> Throw (Raised (RuntimeError ''claimed work-item mutation has no lease token''))
        | Some token \<Rightarrow>
            if token = [] then Throw (Raised (RuntimeError ''claimed work-item mutation has no lease token''))
            else pcatch (with_heartbeat (execute cred form m token)) (settle_failure m token))"

text \<open>\<open>_run\<close>.\<close>

definition run_row :: "scanner \<Rightarrow> item_form \<Rightarrow> adapter \<Rightarrow> bool \<Rightarrow> mutation \<Rightarrow> pyval prog" where
  "run_row cred form a foreground m =
     replay form m
       (require_adapter a
         (pbind (claim (m_id m) (foreground \<and> m_attempts m = 0)) (run_claimed cred form)))"

subsection \<open>Requests\<close>

datatype role = Viewer | Operator | Admin

fun role_rank :: "role \<Rightarrow> nat" where
  "role_rank Viewer = 0"
| "role_rank Operator = 1"
| "role_rank Admin = 2"

definition at_least :: "role \<Rightarrow> role \<Rightarrow> bool" where
  "at_least r minimum = (role_rank minimum \<le> role_rank r)"

record identity =
  ci_consumer :: string
  ci_role :: role
  ci_scopes :: "(string \<times> string option) list"

definition is_unscoped :: "identity \<Rightarrow> bool" where
  "is_unscoped c = (ci_role c = Admin \<and> ci_scopes c = [])"

text \<open>\<open>_validated_mutation_scope_text\<close>.\<close>

definition scope_text_error :: "scanner \<Rightarrow> string \<Rightarrow> nat \<Rightarrow> string \<Rightarrow> failure option" where
  "scope_text_error cred label max_chars v =
     (if \<not> (1 \<le> length v \<and> length v \<le> max_chars \<and> v = strip v
            \<and> list_all (\<lambda>c. 32 \<le> (of_char c :: nat) \<and> of_char c \<noteq> (127::nat)) v)
      then Some (Raised (ValueError (label @ '' must contain 1-'' @ nat_text max_chars @ '' canonical characters'')))
      else if scan cred (PStr v)
      then Some (Raised (ValueError (label @ '' must not contain credential material'')))
      else None)"

fun first_failure :: "failure option list \<Rightarrow> failure + unit" where
  "first_failure [] = Inr ()"
| "first_failure (None # es) = first_failure es"
| "first_failure (Some e # es) = Inl e"

definition project_operator :: "identity \<Rightarrow> string option \<Rightarrow> bool" where
  "project_operator c project \<longleftrightarrow>
     at_least (ci_role c) Operator
     \<and> (is_unscoped c \<or> (\<exists>p \<in> set (ci_scopes c). project = Some (fst p) \<and> snd p = None))"

text \<open>\<open>_scope\<close>: the key is bound to the project and the connection, not to the caller's role.\<close>

definition make_scope ::
  "scanner \<Rightarrow> identity \<Rightarrow> string option \<Rightarrow> string \<Rightarrow> string \<Rightarrow> string \<Rightarrow> failure + mutation_scope" where
  "make_scope cred c project conn operation key =
     rbind (first_failure
       [scope_text_error cred ''Idempotency-Key'' 255 key,
        scope_text_error cred ''resolved work-tracking connection id'' 32 conn,
        scope_text_error cred ''consumer id'' 255 (ci_consumer c),
        Option.bind project (scope_text_error cred ''project id'' 255),
        (if operation \<notin> {''create'', ''enrich''}
         then Some (Raised (ValueError ''work-item mutation operation is invalid'')) else None),
        (if \<not> project_operator c project
         then Some (Forbidden ''work-item mutations require project-wide operator scope'') else None)])
     (\<lambda>_. case mutation_tenant_scope project of
        None \<Rightarrow> Inl (Raised (ValueError ''work-item mutation payload must be canonical JSON''))
      | Some tenant \<Rightarrow>
          Inr \<lparr>ms_tenant = tenant, ms_consumer = ci_consumer c, ms_connection = conn,
               ms_operation = operation, ms_key = key\<rparr>)"

definition raise_on :: "failure + 'a \<Rightarrow> ('a \<Rightarrow> 'b prog) \<Rightarrow> 'b prog" where
  "raise_on r k = (case r of Inl e \<Rightarrow> Throw e | Inr a \<Rightarrow> k a)"

text \<open>
  A request as the router hands it over: the caller, the project, the persisted connection with
  its version, and the key. Connections that are not persisted go to a process-local repository,
  which is not modelled.
\<close>

record mutation_request =
  mr_identity :: identity
  mr_project :: "string option"
  mr_connection :: string
  mr_version :: "int option"
  mr_key :: string

definition hash_of :: "pyval \<Rightarrow> failure + string" where
  "hash_of payload =
     (case canonical_digest payload of
        None \<Rightarrow> Inl (Raised (ValueError ''work-item mutation payload must be canonical JSON''))
      | Some h \<Rightarrow> Inr h)"

definition build_reservation ::
  "scanner \<Rightarrow> mutation_request \<Rightarrow> string \<Rightarrow> pyval \<Rightarrow> string option \<Rightarrow> step_status \<Rightarrow> step_status
   \<Rightarrow> failure + reservation" where
  "build_reservation cred q operation payload target fs cs =
     rbind (make_scope cred (mr_identity q) (mr_project q) (mr_connection q) operation (mr_key q)) (\<lambda>s.
     rbind (hash_of payload) (\<lambda>h.
       case mr_version q of
         None \<Rightarrow> Inl (LedgerFailure (ConnectionChanged ''persisted work-tracking connection has no immutable version''))
       | Some v \<Rightarrow> Inr \<lparr>rv_scope = s, rv_hash = h, rv_payload = payload, rv_target = target,
                       rv_project = mr_project q, rv_version = v, rv_fields_status = fs,
                       rv_comment_status = cs\<rparr>))"

definition draft_payload :: "scanner \<Rightarrow> pydict \<Rightarrow> failure + pyval" where
  "draft_payload cred draft =
     (case draft_form cred draft of
        None \<Rightarrow> Inl (Raised (ValueError ''work item draft is invalid or contains credential material''))
      | Some f \<Rightarrow> Inr (PDict [(''draft'', f)]))"

definition needs :: "pyval \<Rightarrow> string \<Rightarrow> step_status" where
  "needs enrichment step =
     (case enrichment of
        PDict e \<Rightarrow> if truthy (dget e step) then StepPending else StepSkipped
      | _ \<Rightarrow> StepSkipped)"

definition enrich_payload :: "scanner \<Rightarrow> string \<Rightarrow> pydict \<Rightarrow> failure + pyval" where
  "enrich_payload cred key enrichment =
     (if \<not> target_key_ok key \<or> scan cred (PStr key)
      then Inl (Raised (ValueError ''work-item key must be a safe identifier of at most 255 characters''))
      else case enrichment_form cred enrichment of
        None \<Rightarrow> Inl (Raised (ValueError ''work item enrichment is invalid or contains credential material''))
      | Some f \<Rightarrow>
          if needs f ''fields'' = StepSkipped \<and> needs f ''comment'' = StepSkipped
          then Inl (Raised (ValueError ''work-item enrichment must include fields or a comment''))
          else Inr (PDict [(''key'', PStr key), (''enrichment'', f)]))"

definition payload_part :: "string \<Rightarrow> pyval \<Rightarrow> pyval" where
  "payload_part k payload = (case payload of PDict d \<Rightarrow> dget d k | _ \<Rightarrow> PNone)"

definition create_reservation :: "scanner \<Rightarrow> mutation_request \<Rightarrow> pydict \<Rightarrow> failure + reservation" where
  "create_reservation cred q draft =
     rbind (draft_payload cred draft) (\<lambda>payload.
       build_reservation cred q ''create'' payload None StepSkipped StepSkipped)"

definition enrich_reservation ::
  "scanner \<Rightarrow> mutation_request \<Rightarrow> string \<Rightarrow> pydict \<Rightarrow> failure + reservation" where
  "enrich_reservation cred q key enrichment =
     rbind (enrich_payload cred key enrichment) (\<lambda>payload.
       build_reservation cred q ''enrich'' payload (Some key)
         (needs (payload_part ''enrichment'' payload) ''fields'')
         (needs (payload_part ''enrichment'' payload) ''comment''))"

text \<open>\<open>create\<close>, \<open>enrich\<close>, \<open>replay_create\<close> and \<open>replay_enrich\<close>.\<close>

definition service_create ::
  "scanner \<Rightarrow> item_form \<Rightarrow> adapter \<Rightarrow> mutation_request \<Rightarrow> pydict \<Rightarrow> pyval prog" where
  "service_create cred form a q draft =
     require_adapter a (raise_on (create_reservation cred q draft) (\<lambda>rv.
       pbind (reserve cred rv) (run_row cred form a True)))"

definition service_enrich ::
  "scanner \<Rightarrow> item_form \<Rightarrow> adapter \<Rightarrow> mutation_request \<Rightarrow> string \<Rightarrow> pydict \<Rightarrow> pyval prog" where
  "service_enrich cred form a q key enrichment =
     raise_on (enrich_payload cred key enrichment) (\<lambda>_.
     require_adapter a (raise_on (enrich_reservation cred q key enrichment) (\<lambda>rv.
       pbind (reserve cred rv) (run_row cred form a True))))"

definition inspect_replay :: "scanner \<Rightarrow> item_form \<Rightarrow> reservation \<Rightarrow> pyval option prog" where
  "inspect_replay cred form rv =
     pbind (inspect cred rv) (\<lambda>m. case m of
         None \<Rightarrow> Done None
       | Some row \<Rightarrow>
           if m_status row = MFailed then stored_failure row
           else if m_status row = MCompleted then pbind (stored_result form row) (\<lambda>v. Done (Some v))
           else Done None)"

definition replay_create ::
  "scanner \<Rightarrow> item_form \<Rightarrow> mutation_request \<Rightarrow> pydict \<Rightarrow> pyval option prog" where
  "replay_create cred form q draft =
     raise_on (create_reservation cred q draft) (inspect_replay cred form)"

definition replay_enrich ::
  "scanner \<Rightarrow> item_form \<Rightarrow> mutation_request \<Rightarrow> string \<Rightarrow> pydict \<Rightarrow> pyval option prog" where
  "replay_enrich cred form q key enrichment =
     raise_on (enrich_reservation cred q key enrichment) (inspect_replay cred form)"

subsection \<open>The reconciler\<close>

definition read_row :: "string \<Rightarrow> (mutation option \<Rightarrow> 'a prog) \<Rightarrow> 'a prog" where
  "read_row i k = Txn (GetRow i) (\<lambda>r. case r of Inl e \<Rightarrow> Throw e | Inr m \<Rightarrow> k m)"

definition resume_row :: "scanner \<Rightarrow> item_form \<Rightarrow> adapter \<Rightarrow> string \<Rightarrow> pyval prog" where
  "resume_row cred form a i =
     read_row i (\<lambda>m. case m of
         None \<Rightarrow> Throw (Raised (RuntimeError ''work-item mutation disappeared before reconciliation''))
       | Some row \<Rightarrow> run_row cred form a False row)"

text \<open>The service's \<open>defer_resolution\<close>, with no recovery of a failed commit.\<close>

definition defer_resolution :: "string \<Rightarrow> string \<Rightarrow> unit prog" where
  "defer_resolution i text =
     read_row i (\<lambda>m. case m of
         None \<Rightarrow> Done ()
       | Some row \<Rightarrow> Clock (\<lambda>now.
           Txn (DeferRow i now text (retry_delay (m_id row) (m_attempts row + 1)))
             (\<lambda>r. case r of Inl e \<Rightarrow> Throw e | Inr _ \<Rightarrow> Done ())))"

text \<open>
  What the connection resolver answered for a row: an exception, or whether the connection is
  persisted, its version, and the adapter.
\<close>

type_synonym resolution = "failure + (bool \<times> int option \<times> adapter)"

definition resolution_error :: "mutation \<Rightarrow> bool \<Rightarrow> int option \<Rightarrow> failure option" where
  "resolution_error m persisted version =
     (if \<not> persisted
      then Some (Raised (RuntimeError ''durable mutation resolved to a non-persisted connection''))
      else if version \<noteq> Some (m_version m)
      then Some (LedgerFailure (ConnectionChanged ''work-tracking connection version no longer matches the durable mutation''))
      else None)"

definition defer_quietly :: "string \<Rightarrow> failure \<Rightarrow> bool prog" where
  "defer_quietly i e =
     (case e of
        LedgerFailure (ClaimConflict m) \<Rightarrow> Done False
      | Cancelled \<Rightarrow> Throw Cancelled
      | _ \<Rightarrow> pcatch (pbind (defer_resolution i (failure_name e)) (\<lambda>_. Done False))
               (\<lambda>f. if f = Cancelled then Throw Cancelled else Done False))"

text \<open>
  One identity of a sweep of \<open>reconcile_work_item_mutations_once\<close>; the answer says whether the
  row counts as reconciled.
\<close>

definition reconcile_row ::
  "scanner \<Rightarrow> item_form \<Rightarrow> (mutation \<Rightarrow> resolution) \<Rightarrow> string \<Rightarrow> bool prog" where
  "reconcile_row cred form resolve i =
     read_row i (\<lambda>m. case m of
         None \<Rightarrow> Done False
       | Some row \<Rightarrow>
           (case resolve row of
              Inl e \<Rightarrow> defer_quietly i e
            | Inr (persisted, version, a) \<Rightarrow>
                (case resolution_error row persisted version of
                   Some e \<Rightarrow> defer_quietly i e
                 | None \<Rightarrow> pcatch (pbind (resume_row cred form a i) (\<lambda>_. Done True))
                             (\<lambda>f. if f = Cancelled then Throw Cancelled else Done False))))"

fun reconcile_rows ::
  "scanner \<Rightarrow> item_form \<Rightarrow> (mutation \<Rightarrow> resolution) \<Rightarrow> string list \<Rightarrow> nat prog" where
  "reconcile_rows cred form resolve [] = Done 0"
| "reconcile_rows cred form resolve (i # is) =
     pbind (reconcile_row cred form resolve i) (\<lambda>done.
     pbind (reconcile_rows cred form resolve is) (\<lambda>n. Done (if done then n + 1 else n)))"

end
