(* ===== verification/Mutation_Runs.thy ===== *)
theory Mutation_Runs
  imports Mutation_Service
begin

text \<open>
  The programs of the coordinator, run concurrently over one ledger: requests arrive, every
  \<open>await\<close> of every worker is a step, a commit may be lost in either direction, workers stall or
  die at any point (they are never scheduled again), leases lapse, terminal rows are retired.
  The theorems: a provider mutation is posted at most once per row, and at most once per
  idempotency key.
\<close>

subsection \<open>The world\<close>

datatype post_kind = CreatePost | CommentPost

record worker =
  wk_started :: int
  wk_prog :: "unit prog"

text \<open>
  The clock, the tables, the workers, the identities that \<open>uuid4\<close> has drawn (with the worker that
  drew each), the non-idempotent calls sent to the provider with their markers, and the rows ever
  inserted, each with its scope.
\<close>

record world =
  wo_now :: int
  wo_ledger :: ledger
  wo_workers :: "worker list"
  wo_drawn :: "(string \<times> nat) list"
  wo_posts :: "(post_kind \<times> string) list"
  wo_inserted :: "(string \<times> mutation_scope) list"

text \<open>Thirty days.\<close>

definition TERMINAL_REPLAY_RETENTION :: int where
  "TERMINAL_REPLAY_RETENTION = 2592000000000"

datatype request =
    Create adapter mutation_request pydict
  | Enrich adapter mutation_request string pydict
  | Reconcile "mutation \<Rightarrow> resolution" "string list"

definition forget :: "'a prog \<Rightarrow> unit prog" where
  "forget p = pbind p (\<lambda>_. Done ())"

fun program_of :: "scanner \<Rightarrow> item_form \<Rightarrow> request \<Rightarrow> unit prog" where
  "program_of cred form (Create a q draft) = forget (service_create cred form a q draft)"
| "program_of cred form (Enrich a q key enrichment) =
     forget (service_enrich cred form a q key enrichment)"
| "program_of cred form (Reconcile resolve is) = forget (reconcile_rows cred form resolve is)"

text \<open>The answers that a transaction may give its worker, and the tables they leave.\<close>

inductive txn_answer ::
  "int \<Rightarrow> ledger \<Rightarrow> txn \<Rightarrow> failure + mutation option \<Rightarrow> ledger \<Rightarrow> bool" for now L t where
  answered: "run_txn now t L = (TxnRow m write, L') \<Longrightarrow> txn_answer now L t (Inr m) L'"
| raised: "run_txn now t L = (TxnError e, L') \<Longrightarrow> txn_answer now L t (Inl (LedgerFailure e)) L"
| refused: "run_txn now t L = (CommitRefused, L') \<Longrightarrow> txn_answer now L t (Inl CommitFailure) L"
| ack_lost: "run_txn now t L = (TxnRow m True, L') \<Longrightarrow> e \<in> {CommitFailure, Cancelled} \<Longrightarrow>
    txn_answer now L t (Inl e) L'"
| rolled_back: "run_txn now t L = (TxnRow m True, L') \<Longrightarrow> txn_answer now L t (Inl CommitFailure) L"
| broken: "e \<in> {DbFailure, Cancelled} \<Longrightarrow> txn_answer now L t (Inl e) L"

fun post_of :: "provider_call \<Rightarrow> (post_kind \<times> string) option" where
  "post_of (CreateItem draft marker) = Some (CreatePost, marker)"
| "post_of (AddComment key text marker) = Some (CommentPost, marker)"
| "post_of _ = None"

definition log_post :: "provider_call \<Rightarrow> (post_kind \<times> string) list \<Rightarrow> (post_kind \<times> string) list" where
  "log_post c ps = (case post_of c of None \<Rightarrow> ps | Some p \<Rightarrow> p # ps)"

definition resume_with :: "nat \<Rightarrow> unit prog \<Rightarrow> world \<Rightarrow> world" where
  "resume_with w p W = W\<lparr>wo_workers := (wo_workers W)[w := (wo_workers W ! w)\<lparr>wk_prog := p\<rparr>]\<rparr>"

text \<open>The rows that a transaction added.\<close>

definition new_rows :: "ledger \<Rightarrow> ledger \<Rightarrow> (string \<times> mutation_scope) list" where
  "new_rows L L' =
     map (\<lambda>m. (m_id m, m_scope m)) (filter (\<lambda>m. m_id m \<notin> m_id ` set (lg_rows L)) (lg_rows L'))"

text \<open>Worker \<open>w\<close> is at the program \<open>p\<close>, and has not outlived the patience of its client.\<close>

definition awaits :: "int \<Rightarrow> world \<Rightarrow> nat \<Rightarrow> unit prog \<Rightarrow> bool" where
  "awaits patience W w p \<longleftrightarrow>
     w < length (wo_workers W) \<and> wk_prog (wo_workers W ! w) = p
     \<and> wo_now W \<le> wk_started (wo_workers W ! w) + patience"

inductive world_step :: "scanner \<Rightarrow> item_form \<Rightarrow> int \<Rightarrow> world \<Rightarrow> world \<Rightarrow> bool"
  for cred form patience where
  arrive: "world_step cred form patience W
    (W\<lparr>wo_workers := wo_workers W @ [\<lparr>wk_started = wo_now W, wk_prog = program_of cred form q\<rparr>]\<rparr>)"
| tick: "wo_now W \<le> now \<Longrightarrow> world_step cred form patience W (W\<lparr>wo_now := now\<rparr>)"
| draw: "awaits patience W w (NewId k) \<Longrightarrow> x \<notin> fst ` set (wo_drawn W) \<Longrightarrow>
    world_step cred form patience W (resume_with w (k x) (W\<lparr>wo_drawn := (x, w) # wo_drawn W\<rparr>))"
| read_clock: "awaits patience W w (Clock k) \<Longrightarrow>
    world_step cred form patience W (resume_with w (k (wo_now W)) W)"
| transact: "awaits patience W w (Txn t k) \<Longrightarrow> txn_answer (wo_now W) (wo_ledger W) t r L \<Longrightarrow>
    world_step cred form patience W (resume_with w (k r)
      (W\<lparr>wo_ledger := L, wo_inserted := new_rows (wo_ledger W) L @ wo_inserted W\<rparr>))"
| read_tombstone: "awaits patience W w (ReadTombstone s k) \<Longrightarrow>
    r = Inr (find_tombstone s (wo_ledger W)) \<or> r \<in> {Inl DbFailure, Inl Cancelled} \<Longrightarrow>
    world_step cred form patience W (resume_with w (k r) W)"
| call_provider: "awaits patience W w (Provider c k) \<Longrightarrow>
    world_step cred form patience W (resume_with w (k r) (W\<lparr>wo_posts := log_post c (wo_posts W)\<rparr>))"
| heartbeat_end: "awaits patience W w (HeartbeatEnd k) \<Longrightarrow>
    world_step cred form patience W (resume_with w (k h) W)"
| beat: "txn_answer (wo_now W) (wo_ledger W) (Transition i token drawn Renew) r L \<Longrightarrow>
    world_step cred form patience W (W\<lparr>wo_ledger := L\<rparr>)"
| retire: "retire_terminal (wo_now W - TERMINAL_REPLAY_RETENTION) 250 locked (wo_ledger W) = Inr (n, L) \<Longrightarrow>
    world_step cred form patience W (W\<lparr>wo_ledger := L\<rparr>)"
| reconnect: "world_step cred form patience W
    (W\<lparr>wo_ledger := (wo_ledger W)\<lparr>lg_connections := cs\<rparr>\<rparr>)"

definition empty_world :: "int \<Rightarrow> world" where
  "empty_world now = \<lparr>wo_now = now,
     wo_ledger = \<lparr>lg_rows = [], lg_tombstones = [], lg_connections = []\<rparr>,
     wo_workers = [], wo_drawn = [], wo_posts = [], wo_inserted = []\<rparr>"

inductive world_reachable :: "scanner \<Rightarrow> item_form \<Rightarrow> int \<Rightarrow> world \<Rightarrow> bool"
  for cred form patience where
  boot: "world_reachable cred form patience (empty_world now)"
| run_step: "world_reachable cred form patience W \<Longrightarrow> world_step cred form patience W W' \<Longrightarrow>
    world_reachable cred form patience W'"

subsection \<open>Weakest preconditions over what a worker knows\<close>

text \<open>
  An analysis of programs: what a worker knows, how each answer changes it, and when a
  transaction or a provider call is admissible. \<open>wp\<close> says that from a given knowledge every call
  is admissible whatever the answers, and that the program ends in its postconditions, one for a
  value and one for an exception.
\<close>

record 'k analysis =
  an_id :: "string \<Rightarrow> 'k \<Rightarrow> 'k"
  an_txn_ok :: "txn \<Rightarrow> 'k \<Rightarrow> bool"
  an_txn :: "txn \<Rightarrow> failure + mutation option \<Rightarrow> 'k \<Rightarrow> 'k"
  an_tombstone :: "mutation_scope \<Rightarrow> failure + tombstone option \<Rightarrow> 'k \<Rightarrow> 'k"
  an_call_ok :: "provider_call \<Rightarrow> 'k \<Rightarrow> bool"
  an_call :: "provider_call \<Rightarrow> 'k \<Rightarrow> 'k"

definition row_marker :: "string \<Rightarrow> string" where
  "row_marker i = ''apex-idem-'' @ i"

text \<open>What the tables guarantee of a row they return.\<close>

definition good_row :: "txn \<Rightarrow> mutation \<Rightarrow> bool" where
  "good_row t m \<longleftrightarrow> m_marker m = row_marker (m_id m)
     \<and> (case t of
          GetByScope s \<Rightarrow> True
        | GetRow i \<Rightarrow> m_id m = i
        | InsertRow n \<Rightarrow> True
        | ClaimRow i token now b \<Rightarrow> m_id m = i \<and> (terminal (m_status m) \<or> owns token m)
        | Transition i token now act \<Rightarrow> m_id m = i \<and> (op_owner_only act \<longrightarrow> owns token m)
        | DeferRow i now text delay \<Rightarrow> m_id m = i)"

definition good_reply :: "txn \<Rightarrow> failure + mutation option \<Rightarrow> bool" where
  "good_reply t r \<longleftrightarrow> (case r of Inr (Some m) \<Rightarrow> good_row t m | _ \<Rightarrow> True)"

primrec wp ::
  "'k analysis \<Rightarrow> ('a \<Rightarrow> 'k \<Rightarrow> bool) \<Rightarrow> (failure \<Rightarrow> 'k \<Rightarrow> bool) \<Rightarrow> 'a prog \<Rightarrow> 'k \<Rightarrow> bool" where
  "wp A Q R (Done a) kn = Q a kn"
| "wp A Q R (Throw e) kn = R e kn"
| "wp A Q R (NewId f) kn = (\<forall>x. wp A Q R (f x) (an_id A x kn))"
| "wp A Q R (Clock f) kn = (\<forall>x. wp A Q R (f x) kn)"
| "wp A Q R (Txn t f) kn =
     (an_txn_ok A t kn \<and> (\<forall>r. good_reply t r \<longrightarrow> wp A Q R (f r) (an_txn A t r kn)))"
| "wp A Q R (ReadTombstone s f) kn = (\<forall>r. wp A Q R (f r) (an_tombstone A s r kn))"
| "wp A Q R (Provider c f) kn = (an_call_ok A c kn \<and> (\<forall>r. wp A Q R (f r) (an_call A c kn)))"
| "wp A Q R (HeartbeatEnd f) kn = (\<forall>h. wp A Q R (f h) kn)"

lemma wp_mono:
  "wp A Q R p kn \<Longrightarrow> (\<And>a k. Q a k \<Longrightarrow> Q' a k) \<Longrightarrow> (\<And>e k. R e k \<Longrightarrow> R' e k) \<Longrightarrow> wp A Q' R' p kn"
  by (induction p arbitrary: kn) auto

lemma wp_bind [simp]: "wp A Q R (pbind p f) kn \<longleftrightarrow> wp A (\<lambda>a. wp A Q R (f a)) R p kn"
  by (induction p arbitrary: kn) auto

lemma wp_catch [simp]: "wp A Q R (pcatch p h) kn \<longleftrightarrow> wp A Q (\<lambda>e. wp A Q R (h e)) p kn"
  by (induction p arbitrary: kn) auto

lemma wp_ends [simp]: "wp A Q R (Done a) = Q a" "wp A Q R (Throw e) = R e"
  by (rule ext, simp)+

lemma wp_if [simp]: "wp A Q R (if c then p else q) = (if c then wp A Q R p else wp A Q R q)"
  by simp

lemma wp_lift [simp]:
  "wp A Q R (lift r) kn \<longleftrightarrow>
     (case r of Inl e \<Rightarrow> R (LedgerFailure e) kn | Inr a \<Rightarrow> Q a kn)"
  by (cases r) auto

lemma wp_forget [simp]: "wp A Q R (forget p) kn \<longleftrightarrow> wp A (\<lambda>_. Q ()) R p kn"
proof -
  have "wp A Q R (Done ()) = Q ()" by (rule ext) simp
  then show ?thesis by (simp add: forget_def)
qed

lemma wp_top: "wp A Q R p kn \<Longrightarrow> wp A (\<lambda>_ _. True) (\<lambda>_ _. True) p kn"
  by (erule wp_mono) simp_all

text \<open>A program that no knowledge makes inadmissible.\<close>

definition harmless :: "'k analysis \<Rightarrow> 'a prog \<Rightarrow> bool" where
  "harmless A p = (wp A (\<lambda>_ _. True) (\<lambda>_ _. True) p = (\<lambda>_. True))"

lemma harmlessI: "(\<And>kn. wp A (\<lambda>_ _. True) (\<lambda>_ _. True) p kn) \<Longrightarrow> harmless A p"
  by (auto simp: harmless_def)

lemma harmlessD: "harmless A p \<Longrightarrow> wp A (\<lambda>_ _. True) (\<lambda>_ _. True) p kn"
  by (simp add: harmless_def)

lemma harmless_wp [simp]: "harmless A p \<Longrightarrow> wp A (\<lambda>_ _. True) (\<lambda>_ _. True) p = (\<lambda>_. True)"
  by (simp add: harmless_def)

lemma harmless_ends [simp]: "harmless A (Done a)" "harmless A (Throw e)"
  by (simp_all add: harmless_def)

lemma harmless_bind [intro]: "harmless A p \<Longrightarrow> (\<And>a. harmless A (f a)) \<Longrightarrow> harmless A (pbind p f)"
  by (rule harmlessI) simp

lemma harmless_catch [intro]: "harmless A p \<Longrightarrow> (\<And>e. harmless A (h e)) \<Longrightarrow> harmless A (pcatch p h)"
  by (rule harmlessI) simp

lemma harmless_if [intro]:
  "(c \<Longrightarrow> harmless A p) \<Longrightarrow> (\<not> c \<Longrightarrow> harmless A q) \<Longrightarrow> harmless A (if c then p else q)"
  by simp

lemma harmless_lift [simp]: "harmless A (lift r)"
  by (cases r) simp_all

lemma harmless_awaits:
  "(\<And>x. harmless A (f x)) \<Longrightarrow> harmless A (Clock f)"
  "(\<And>x. harmless A (g x)) \<Longrightarrow> harmless A (NewId g)"
  "(\<And>h. harmless A (b h)) \<Longrightarrow> harmless A (HeartbeatEnd b)"
  "(\<And>r. harmless A (d r)) \<Longrightarrow> harmless A (ReadTombstone s d)"
  "(\<And>kn. an_txn_ok A t kn) \<Longrightarrow> (\<And>r. harmless A (e r)) \<Longrightarrow> harmless A (Txn t e)"
  "(\<And>kn. an_call_ok A c kn) \<Longrightarrow> (\<And>r. harmless A (p r)) \<Longrightarrow> harmless A (Provider c p)"
  by (auto intro!: harmlessI)

lemma harmless_recovery:
  assumes "\<And>kn. an_txn_ok A t kn" "\<And>kn. an_txn_ok A u kn" "\<And>m. harmless A (acc m)"
  shows "harmless A (with_recovery t u acc)"
  using assms by (auto intro!: harmlessI simp: with_recovery_def split: sum.split option.split)

lemma harmless_stored [simp]: "harmless A (stored_result form m)" "harmless A (stored_failure m)"
  by (auto simp: stored_result_def stored_failure_def split: option.split)

lemma harmless_accept [simp]: "harmless A (accept_if c m)"
  by (simp add: accept_if_def)

lemma harmless_existing [simp]: "harmless A (existing_for q m)"
  by (simp add: existing_for_def)

lemma harmless_heartbeat: "harmless A p \<Longrightarrow> harmless A (with_heartbeat p)"
  unfolding with_heartbeat_def
  by (intro harmless_catch harmless_if harmless_awaits) (simp_all split: option.split)

subsection \<open>The fence of a post\<close>

fun mark_op :: "post_kind \<Rightarrow> ledger_op" where
  "mark_op CreatePost = MarkProviderAttempted"
| "mark_op CommentPost = MarkCommentAttempted"

fun attempted :: "post_kind \<Rightarrow> mutation \<Rightarrow> int option" where
  "attempted CreatePost m = m_provider_attempted m"
| "attempted CommentPost m = m_comment_attempted m"

text \<open>
  What a worker knows about its lease: nothing; an identity it has just drawn; a row it may hold
  under its token; the same with the attempt not recorded while the token is current; that it may
  have recorded the attempt; that it has, and may post once.
\<close>

datatype know =
    Idle
  | Drew string
  | Leased string string
  | Holding string string
  | Marking string string
  | Armed string string

fun lease_of :: "know \<Rightarrow> (string \<times> string) option" where
  "lease_of (Leased i token) = Some (i, token)"
| "lease_of (Holding i token) = Some (i, token)"
| "lease_of (Marking i token) = Some (i, token)"
| "lease_of (Armed i token) = Some (i, token)"
| "lease_of _ = None"

definition observe :: "post_kind \<Rightarrow> string \<Rightarrow> string \<Rightarrow> mutation \<Rightarrow> know \<Rightarrow> know" where
  "observe k i token m kn =
     (if \<not> owns token m then kn
      else if attempted k m = None then Holding i token
      else if kn = Marking i token then Armed i token
      else if kn = Holding i token then Leased i token else kn)"

definition learn :: "post_kind \<Rightarrow> txn \<Rightarrow> failure + mutation option \<Rightarrow> know \<Rightarrow> know" where
  "learn k t r kn =
     (case t of
        GetByScope s \<Rightarrow> kn
      | GetRow i \<Rightarrow>
          (case (r, lease_of kn) of
             (Inr (Some m), Some (j, token)) \<Rightarrow> if j = i then observe k i token m kn else kn
           | _ \<Rightarrow> kn)
      | InsertRow n \<Rightarrow> Idle
      | ClaimRow i token now b \<Rightarrow>
          (case r of
             Inr (Some m) \<Rightarrow> if owns token m \<and> attempted k m = None then Holding i token else Leased i token
           | _ \<Rightarrow> Leased i token)
      | Transition i token now act \<Rightarrow>
          if act = mark_op k
          then (case r of Inr (Some m) \<Rightarrow> Armed i token | _ \<Rightarrow> Marking i token)
          else (case r of
              Inr (Some m) \<Rightarrow> if lease_of kn = Some (i, token) then observe k i token m kn else kn
            | _ \<Rightarrow> kn)
      | DeferRow i now text delay \<Rightarrow> kn)"

definition admissible :: "post_kind \<Rightarrow> txn \<Rightarrow> know \<Rightarrow> bool" where
  "admissible k t kn =
     (case t of
        ClaimRow i token now b \<Rightarrow> kn = Drew token
      | InsertRow m \<Rightarrow> kn = Drew (m_id m) \<and> attempted k m = None \<and> m_status m = MPending
                       \<and> m_marker m = row_marker (m_id m)
      | Transition i token now act \<Rightarrow> act = mark_op k \<longrightarrow> kn = Holding i token
      | _ \<Rightarrow> True)"

definition may_post :: "post_kind \<Rightarrow> provider_call \<Rightarrow> know \<Rightarrow> bool" where
  "may_post k c kn \<longleftrightarrow>
     (\<forall>marker. post_of c = Some (k, marker) \<longrightarrow> (\<exists>i token. kn = Armed i token \<and> marker = row_marker i))"

definition after_call :: "post_kind \<Rightarrow> provider_call \<Rightarrow> know \<Rightarrow> know" where
  "after_call k c kn =
     (case (post_of c, kn) of
        (Some (j, marker), Armed i token) \<Rightarrow> if j = k then Leased i token else kn
      | _ \<Rightarrow> kn)"

definition fence :: "post_kind \<Rightarrow> know analysis" where
  "fence k = \<lparr>an_id = (\<lambda>x kn. Drew x), an_txn_ok = admissible k, an_txn = learn k,
             an_tombstone = (\<lambda>s r kn. kn), an_call_ok = may_post k, an_call = after_call k\<rparr>"

lemma fence_simps [simp]:
  "an_id (fence k) x kn = Drew x"
  "an_txn_ok (fence k) = admissible k"
  "an_txn (fence k) = learn k"
  "an_tombstone (fence k) s r kn = kn"
  "an_call_ok (fence k) = may_post k"
  "an_call (fence k) = after_call k"
  by (simp_all add: fence_def)

abbreviation fenced :: "post_kind \<Rightarrow> ('a \<Rightarrow> know \<Rightarrow> bool) \<Rightarrow> 'a prog \<Rightarrow> know \<Rightarrow> bool" where
  "fenced k Q \<equiv> wp (fence k) Q (\<lambda>_ _. True)"

lemma fenced_mono: "fenced k Q p kn \<Longrightarrow> (\<And>a k. Q a k \<Longrightarrow> Q' a k) \<Longrightarrow> fenced k Q' p kn"
  by (erule wp_mono) simp_all

text \<open>A transaction that neither claims, inserts nor marks is admissible whatever is known.\<close>

lemma harmless_transition [simp]: "act \<noteq> mark_op k \<Longrightarrow> harmless (fence k) (lease_transition i token act)"
  by (rule harmlessI)
     (simp add: lease_transition_def accept_if_def admissible_def harmlessD harmless_recovery)

lemma plain_ops [simp]:
  "MarkFields \<noteq> mark_op k" "MarkComment \<noteq> mark_op k" "Renew \<noteq> mark_op k" "Complete r \<noteq> mark_op k"
  "FailWith a b \<noteq> mark_op k" "Release a d \<noteq> mark_op k"
  by (cases k; simp)+

lemma harmless_complete [simp]: "harmless (fence k) (complete form i token result)"
  by (auto simp: complete_def split: sum.split option.split)

lemma harmless_complete_item [simp]: "harmless (fence k) (complete_item form i token item)"
  by (auto simp: complete_item_def split: option.split)

lemma harmless_release [simp]: "harmless (fence k) (release_then m token e)"
  unfolding release_then_def
  by (intro harmless_bind harmless_catch harmless_if harmless_transition) simp_all

lemma harmless_settle [simp]: "harmless (fence k) (settle_failure m token e)"
  by (auto simp: settle_failure_def split: failure.split)

lemma harmless_provider:
  "(\<And>k'. post_of c \<noteq> Some (k, k')) \<Longrightarrow> (\<And>r. harmless (fence k) (f r)) \<Longrightarrow> harmless (fence k) (Provider c f)"
  by (auto intro!: harmlessI simp: may_post_def)

lemma fenced_heartbeat [simp]:
  "fenced k (\<lambda>_ _. True) (with_heartbeat p) kn \<longleftrightarrow> fenced k (\<lambda>_ _. True) p kn"
  for p :: "'a prog"
proof -
  have "harmless (fence k) (HeartbeatEnd (case_option (Throw Cancelled) Throw) :: 'a prog)"
    by (rule harmless_awaits) (simp split: option.split)
  then show ?thesis by (simp add: with_heartbeat_def cong: if_cong)
qed

subsection \<open>Every program respects the fence\<close>

text \<open>A row that the worker has just seen under its lease.\<close>

definition fresh_row :: "post_kind \<Rightarrow> string \<Rightarrow> string \<Rightarrow> mutation \<Rightarrow> know \<Rightarrow> bool" where
  "fresh_row k i token m kn \<longleftrightarrow>
     m_id m = i \<and> m_marker m = row_marker i \<and> kn \<in> {Leased i token, Holding i token}
     \<and> (attempted k m = None \<longrightarrow> kn = Holding i token)"

lemma fenced_claim:
  "fenced k (\<lambda>m kn. terminal (m_status m) \<or> (\<exists>token. m_claim_token m = Some token \<and> fresh_row k i token m kn))
     (claim i ignore_backoff) kn"
  by (auto simp: claim_def with_recovery_def accept_if_def admissible_def learn_def observe_def
      good_reply_def good_row_def fresh_row_def owns_def split: sum.split option.split)

lemma fenced_mark:
  assumes "kn = Holding i token"
  shows "fenced k (\<lambda>m kn. m_id m = i \<and> m_marker m = row_marker i \<and> kn = Armed i token)
    (lease_transition i token (mark_op k)) kn"
  using assms
  by (cases k)
     (auto simp: lease_transition_def with_recovery_def accept_if_def admissible_def learn_def observe_def
      good_reply_def good_row_def op_owner_only_def owns_def split: sum.split option.split)

lemma fenced_step:
  assumes "act \<in> {MarkFields, MarkComment}" "kn \<in> {Leased i token, Holding i token}"
  shows "fenced k (fresh_row k i token) (lease_transition i token act) kn"
  using assms
  by (cases k)
     (auto simp: lease_transition_def with_recovery_def accept_if_def admissible_def learn_def observe_def
      good_reply_def good_row_def op_owner_only_def fresh_row_def split: sum.split option.split)

lemma fenced_Provider:
  "may_post k c kn \<Longrightarrow> (\<And>r. fenced k Q (f r) (after_call k c kn)) \<Longrightarrow> fenced k Q (Provider c f) kn"
  by simp

text \<open>The create post: only under a recorded attempt of this lease.\<close>

lemma fenced_create_post:
  assumes "k = CreatePost \<Longrightarrow> \<exists>token. kn = Armed (m_id m) token \<and> m_marker m = row_marker (m_id m)"
  shows "fenced k (\<lambda>_ _. True) (create_post form m token draft) kn"
proof -
  have "may_post k (CreateItem draft (m_marker m)) kn"
    using assms by (auto simp: may_post_def)
  then show ?thesis
    unfolding create_post_def
    by (intro fenced_Provider) (auto simp: harmlessD split: sum.split failure.split)
qed

lemma fenced_validator: "fenced k (\<lambda>_ kn'. kn' = kn) (run_validator c) kn" if "post_of c = None"
  using that
  by (auto simp: run_validator_def may_post_def after_call_def split: sum.split failure.split exn.split)

lemma fenced_execute_create:
  assumes "fresh_row k (m_id m) token m kn"
  shows "fenced k (\<lambda>_ _. True) (execute_create cred form m token) kn"
proof -
  have post: "fenced k (\<lambda>_ _. True) (pbind (lease_transition (m_id m) token MarkProviderAttempted)
      (\<lambda>row'. create_post form row' token draft)) kn" if "m_provider_attempted m = None" for draft
  proof (cases k)
    case CreatePost
    with assms that have "kn = Holding (m_id m) token" by (simp add: fresh_row_def)
    note mark = fenced_mark [OF this, of CreatePost, unfolded mark_op.simps]
    show ?thesis
      unfolding wp_bind CreatePost by (rule fenced_mono [OF mark]) (auto intro: fenced_create_post)
  next
    case CommentPost
    have "harmless (fence CommentPost) (lease_transition (m_id m) token MarkProviderAttempted)" by simp
    show ?thesis
      unfolding wp_bind CommentPost
      by (rule fenced_mono [OF harmlessD [OF \<open>harmless (fence CommentPost) _\<close>]]) (auto intro: fenced_create_post)
  qed
  have "fenced k (\<lambda>_ _. True) (pbind (run_validator (ValidateCreate draft (m_marker m))) (\<lambda>_.
      pbind (lease_transition (m_id m) token MarkProviderAttempted) (\<lambda>row'. create_post form row' token draft))) kn"
    if "m_provider_attempted m = None" for draft
    unfolding wp_bind by (rule fenced_mono [OF fenced_validator]) (use post [OF that] in simp_all)
  moreover have "may_post k (FindMarker (m_marker m)) kn" "after_call k (FindMarker (m_marker m)) kn = kn"
    by (simp_all add: may_post_def after_call_def)
  ultimately show ?thesis
    unfolding execute_create_def
    by (intro fenced_Provider)
       (auto simp: harmlessD simp del: wp_bind split: sum.split pyval.split option.split)
qed

lemma fenced_permanent_call:
  assumes "post_of c = None" "\<And>v. fenced k Q (f v) kn"
  shows "fenced k Q (permanent_call c f) kn"
  using assms
  by (auto simp: permanent_call_def may_post_def after_call_def split: sum.split failure.split)

lemma fenced_enrich_fields:
  assumes "fresh_row k i token m kn"
  shows "fenced k (fresh_row k i token) (enrich_fields m token key fs) kn"
proof -
  have i: "m_id m = i" and kn: "kn \<in> {Leased i token, Holding i token}"
    using assms by (auto simp: fresh_row_def)
  have "fenced k (fresh_row k i token) (permanent_call (UpdateFields key fs) (\<lambda>_. lease_transition i token MarkFields)) kn"
    by (rule fenced_permanent_call) (use fenced_step [OF _ kn, of MarkFields] in auto)
  then have "fenced k (fresh_row k i token) (pbind (run_validator (ValidateFields fs)) (\<lambda>_.
      permanent_call (UpdateFields key fs) (\<lambda>_. lease_transition i token MarkFields))) kn"
    unfolding wp_bind by (intro fenced_mono [OF fenced_validator]) auto
  with assms i show ?thesis by (simp add: enrich_fields_def del: wp_bind)
qed

text \<open>The comment post, and what follows it.\<close>

lemma fenced_comment_post:
  assumes "k = CommentPost \<Longrightarrow> \<exists>token. kn = Armed (m_id m) token \<and> m_marker m = row_marker (m_id m)"
  shows "fenced k (\<lambda>_ _. True) (comment_post m key body) kn"
proof -
  have "may_post k (AddComment key body (m_marker m)) kn"
    using assms by (auto simp: may_post_def)
  then show ?thesis
    unfolding comment_post_def
    by (intro fenced_Provider) (auto split: sum.split failure.split)
qed

lemma fenced_posted_comment:
  assumes "k = CommentPost \<Longrightarrow> \<exists>t. kn = Armed (m_id m) t \<and> m_marker m = row_marker (m_id m)"
  shows "fenced k (\<lambda>_ _. True)
    (pbind (comment_post m key body) (\<lambda>_. lease_transition (m_id m) token MarkComment)) kn"
  unfolding wp_bind
  by (rule fenced_mono [OF fenced_comment_post]) (use assms in \<open>auto intro: harmlessD\<close>)

lemma fenced_enrich_comment:
  assumes "fresh_row k i token m kn"
  shows "fenced k (\<lambda>_ _. True) (enrich_comment m token key comment) kn"
proof -
  have i: "m_id m = i" using assms by (simp add: fresh_row_def)
  have post: "fenced k (\<lambda>_ _. True) (pbind (lease_transition i token MarkCommentAttempted)
      (\<lambda>row'. pbind (comment_post row' key body) (\<lambda>_. lease_transition (m_id row') token MarkComment))) kn"
    if "m_comment_attempted m = None" for body
  proof (cases k)
    case CommentPost
    with assms that have "kn = Holding i token" by (simp add: fresh_row_def)
    note mark = fenced_mark [OF this, of CommentPost, unfolded mark_op.simps]
    show ?thesis
      unfolding wp_bind [of _ _ _ "lease_transition _ _ _"] CommentPost
      by (rule fenced_mono [OF mark]) (auto intro!: fenced_posted_comment simp del: wp_bind)
  next
    case CreatePost
    have "harmless (fence CreatePost) (lease_transition i token MarkCommentAttempted)" by simp
    show ?thesis
      unfolding wp_bind [of _ _ _ "lease_transition _ _ _"] CreatePost
      by (rule fenced_mono [OF harmlessD [OF \<open>harmless (fence CreatePost) _\<close>]])
         (auto intro!: fenced_posted_comment simp del: wp_bind)
  qed
  show ?thesis
    unfolding enrich_comment_def i
    by (auto intro!: fenced_permanent_call post simp del: wp_bind simp: harmlessD split: pyval.split)
qed

lemma harmless_read_enriched [simp]: "harmless (fence k) (read_enriched form m token key)"
  unfolding read_enriched_def
  by (rule harmless_provider) (auto split: sum.split option.split)

lemma fenced_execute_enrich:
  assumes "fresh_row k (m_id m) token m kn"
  shows "fenced k (\<lambda>_ _. True) (execute_enrich cred form m token) kn"
proof -
  have "fenced k (\<lambda>_ _. True)
      (pbind (enrich_fields m token key fs) (\<lambda>row1. pbind (enrich_comment row1 token key comment)
        (\<lambda>row2. read_enriched form row2 token key))) kn" for key fs comment
    unfolding wp_bind [of _ _ _ "enrich_fields _ _ _ _"]
  proof (rule fenced_mono [OF fenced_enrich_fields [OF assms]])
    fix row1 kn1 assume "fresh_row k (m_id m) token row1 kn1"
    from fenced_enrich_comment [OF this] show "fenced k (\<lambda>_ _. True)
        (pbind (enrich_comment row1 token key comment) (\<lambda>row2. read_enriched form row2 token key)) kn1"
      by simp
  qed
  then show ?thesis
    unfolding execute_enrich_def
    by (auto simp del: wp_bind split: option.split pyval.split)
qed

lemma fenced_run_claimed:
  assumes "terminal (m_status m) \<or> (\<exists>token. m_claim_token m = Some token \<and> fresh_row k i token m kn)"
  shows "fenced k (\<lambda>_ _. True) (run_claimed cred form m) kn"
proof -
  have "fenced k (\<lambda>_ _. True) (pcatch (with_heartbeat (execute cred form m token)) (settle_failure m token)) kn"
    if "fresh_row k i token m kn" for token
  proof -
    have "fresh_row k (m_id m) token m kn" using that by (simp add: fresh_row_def)
    from fenced_execute_create [OF this] fenced_execute_enrich [OF this] show ?thesis
      by (simp add: execute_def)
  qed
  with assms show ?thesis
    by (auto simp: run_claimed_def replay_def terminal_def harmlessD simp del: wp_catch split: option.split)
qed

lemma harmless_run_row [simp]: "harmless (fence k) (run_row cred form a foreground m)"
proof (rule harmlessI)
  fix kn
  have "fenced k (\<lambda>_ _. True) (pbind (claim (m_id m) b) (run_claimed cred form)) kn" for b
    unfolding wp_bind by (rule fenced_mono [OF fenced_claim]) (rule fenced_run_claimed)
  then show "fenced k (\<lambda>_ _. True) (run_row cred form a foreground m) kn"
    by (auto simp: run_row_def replay_def require_adapter_def harmlessD simp del: wp_bind split: option.split)
qed

lemma harmless_insert: "harmless (fence k) (NewId (\<lambda>i. with_recovery (InsertRow (mutation_for q i)) (GetByScope s) (existing_for q)))"
  by (rule harmlessI)
     (cases k; auto simp: with_recovery_def admissible_def mutation_for_def new_mutation_def
      row_marker_def harmlessD split: sum.split option.split)

lemma harmless_reserve [simp]: "harmless (fence k) (reserve cred q)"
  unfolding reserve_def
  by (intro harmless_bind harmless_awaits harmless_lift)
     (auto simp: admissible_def split: sum.split option.split intro!: harmless_awaits(4) harmless_insert)

lemma harmless_defer [simp]: "harmless (fence k) (defer_resolution i text)"
  unfolding defer_resolution_def read_row_def
  by (rule harmless_awaits)
     (auto simp: admissible_def split: sum.split option.split intro!: harmless_awaits)

lemma harmless_defer_quietly [simp]: "harmless (fence k) (defer_quietly i e)"
  unfolding defer_quietly_def
  by (auto split: failure.split ledger_error.split intro!: harmless_catch harmless_bind)

lemma harmless_reconcile_row [simp]: "harmless (fence k) (reconcile_row cred form resolve i)"
  unfolding reconcile_row_def read_row_def resume_row_def
  by (rule harmless_awaits)
     (auto simp: admissible_def split: sum.split option.split
       intro!: harmless_catch harmless_bind harmless_awaits(5))

lemma harmless_reconcile [simp]: "harmless (fence k) (reconcile_rows cred form resolve is)"
  by (induction "is") (auto intro!: harmless_bind)

lemma harmless_program: "harmless (fence k) (program_of cred form q)"
  by (cases q)
     (auto simp: forget_def service_create_def service_enrich_def require_adapter_def raise_on_def
       split: option.split sum.split intro!: harmless_bind)

end
