(* ===== verification/Mutation_Fence.thy ===== *)
theory Mutation_Fence
  imports Mutation_Runs
begin

text \<open>
  The fence of a post is an invariant of every run: whoever may post for a row is the one worker
  whose attempt the row has on record. Hence no marker is posted twice.
\<close>

subsection \<open>The invariant of the fence\<close>

text \<open>The row that a worker's knowledge binds.\<close>

fun bound_row :: "know \<Rightarrow> string option" where
  "bound_row (Holding i token) = Some i"
| "bound_row (Marking i token) = Some i"
| "bound_row (Armed i token) = Some i"
| "bound_row _ = None"

definition drawn_ids :: "(string \<times> nat) list \<Rightarrow> string set" where
  "drawn_ids ds = fst ` set ds"

text \<open>Nobody has posted for the row, and nobody is about to.\<close>

definition unspent :: "post_kind \<Rightarrow> nat \<Rightarrow> (post_kind \<times> string) list \<Rightarrow> (nat \<Rightarrow> know) \<Rightarrow> string \<Rightarrow> bool" where
  "unspent k n ps K i \<longleftrightarrow> (k, row_marker i) \<notin> set ps \<and> (\<forall>w < n. \<forall>token. K w \<noteq> Armed i token)"

text \<open>What is true when worker \<open>w\<close> has the knowledge \<open>kn\<close>.\<close>

definition holds ::
  "post_kind \<Rightarrow> nat \<Rightarrow> (string \<times> nat) list \<Rightarrow> string set \<Rightarrow> mutation list \<Rightarrow> (post_kind \<times> string) list
   \<Rightarrow> (nat \<Rightarrow> know) \<Rightarrow> nat \<Rightarrow> know \<Rightarrow> bool" where
  "holds k n ds B rows ps K w kn \<longleftrightarrow>
     (\<forall>i token. lease_of kn = Some (i, token) \<longrightarrow> (token, w) \<in> set ds)
     \<and> (\<forall>i. bound_row kn = Some i \<longrightarrow> i \<in> B)
     \<and> (case kn of
          Drew x \<Rightarrow> (x, w) \<in> set ds \<and> x \<notin> B
        | Holding i token \<Rightarrow> \<forall>m \<in> set rows. m_id m = i \<longrightarrow> owns token m \<longrightarrow> attempted k m = None
        | Marking i token \<Rightarrow>
            \<forall>m \<in> set rows. m_id m = i \<longrightarrow> owns token m \<longrightarrow> attempted k m \<noteq> None \<longrightarrow> unspent k n ps K i
        | Armed i token \<Rightarrow> (k, row_marker i) \<notin> set ps
            \<and> (\<forall>w' < n. w' \<noteq> w \<longrightarrow> (\<forall>token'. K w' \<noteq> Armed i token'))
            \<and> (\<forall>m \<in> set rows. m_id m = i \<longrightarrow> attempted k m \<noteq> None)
        | _ \<Rightarrow> True)"

definition core ::
  "post_kind \<Rightarrow> nat \<Rightarrow> (string \<times> nat) list \<Rightarrow> string set \<Rightarrow> mutation list \<Rightarrow> (post_kind \<times> string) list
   \<Rightarrow> (nat \<Rightarrow> know) \<Rightarrow> bool" where
  "core k n ds B rows ps K \<longleftrightarrow>
     distinct (map fst ds) \<and> distinct (map m_id rows) \<and> B \<subseteq> drawn_ids ds
     \<and> (\<forall>m \<in> set rows. m_marker m = row_marker (m_id m) \<and> m_id m \<in> B)
     \<and> (\<forall>mk. (k, mk) \<in> set ps \<longrightarrow> mk \<in> row_marker ` B)
     \<and> (\<forall>m \<in> set rows. attempted k m = None \<longrightarrow> unspent k n ps K (m_id m))
     \<and> (\<forall>w < n. holds k n ds B rows ps K w (K w))
     \<and> distinct (filter (\<lambda>p. fst p = k) ps)"

lemma row_marker_inj [simp]: "row_marker i = row_marker j \<longleftrightarrow> i = j"
  by (simp add: row_marker_def)

text \<open>Tokens and identities are drawn by one worker.\<close>

lemma drawn_once: "distinct (map fst ds) \<Longrightarrow> (x, w) \<in> set ds \<Longrightarrow> (x, w') \<in> set ds \<Longrightarrow> w = w'"
  by (metis eq_key_imp_eq_value)

lemma owner_unique: "owns token m \<Longrightarrow> owns token' m \<Longrightarrow> token = token'"
  by (simp add: owns_def)

lemma drawn_Cons [simp]: "drawn_ids ((x, w) # ds) = insert x (drawn_ids ds)"
  by (simp add: drawn_ids_def)

text \<open>A change of the rows that records no attempt and hands out no lease.\<close>

definition quiet :: "post_kind \<Rightarrow> mutation list \<Rightarrow> mutation list \<Rightarrow> bool" where
  "quiet k rows rows' \<longleftrightarrow> distinct (map m_id rows')
     \<and> (\<forall>m' \<in> set rows'. \<exists>m \<in> set rows. m_id m = m_id m' \<and> m_marker m = m_marker m'
          \<and> attempted k m = attempted k m' \<and> (\<forall>token. owns token m' \<longrightarrow> owns token m))"

lemma quiet_refl: "distinct (map m_id rows) \<Longrightarrow> quiet k rows rows"
  by (auto simp: quiet_def)

lemma quietD:
  "quiet k rows rows' \<Longrightarrow> m' \<in> set rows' \<Longrightarrow>
   \<exists>m \<in> set rows. m_id m = m_id m' \<and> m_marker m = m_marker m'
     \<and> attempted k m = attempted k m' \<and> (\<forall>token. owns token m' \<longrightarrow> owns token m)"
  by (simp add: quiet_def)

lemma quiet_ids: "quiet k rows rows' \<Longrightarrow> m_id ` set rows' \<subseteq> m_id ` set rows"
  by (metis image_eqI image_subsetI quietD)

lemma same_row: "distinct (map m_id rows) \<Longrightarrow> m \<in> set rows \<Longrightarrow> m' \<in> set rows \<Longrightarrow> m_id m = m_id m' \<Longrightarrow> m = m'"
  by (metis distinct_map inj_onD)

lemma coreD:
  assumes "core k n ds B rows ps K"
  shows "distinct (map fst ds)" "distinct (map m_id rows)"
    "\<And>m. m \<in> set rows \<Longrightarrow> m_marker m = row_marker (m_id m)"
    "\<And>m. m \<in> set rows \<Longrightarrow> m_id m \<in> B"
    "\<And>i. (k, row_marker i) \<in> set ps \<Longrightarrow> i \<in> B"
    "\<And>m. m \<in> set rows \<Longrightarrow> attempted k m = None \<Longrightarrow> unspent k n ps K (m_id m)"
    "\<And>w. w < n \<Longrightarrow> holds k n ds B rows ps K w (K w)"
    "distinct (filter (\<lambda>p. fst p = k) ps)" "B \<subseteq> drawn_ids ds"
  using assms by (auto simp: core_def)

text \<open>What the other workers know survives a quiet change in which nobody is newly armed.\<close>

lemma holds_quiet:
  assumes "holds k n ds B rows ps K v kn" "quiet k rows rows'"
    and "\<And>w i token. w < n \<Longrightarrow> K' w = Armed i token \<Longrightarrow> \<exists>token'. K w = Armed i token'"
  shows "holds k n ds B rows' ps K' v kn"
proof (cases kn)
  case (Drew x)
  with assms(1) show ?thesis by (simp add: holds_def)
next
  case (Holding i token)
  have "attempted k m' = None" if "m' \<in> set rows'" "m_id m' = i" "owns token m'" for m'
    using quietD [OF assms(2) that(1)] that assms(1) Holding by (auto simp: holds_def)
  with assms(1) Holding show ?thesis by (simp add: holds_def)
next
  case (Marking i token)
  have "unspent k n ps K' i" if "m' \<in> set rows'" "m_id m' = i" "owns token m'" "attempted k m' \<noteq> None" for m'
  proof -
    have "unspent k n ps K i"
      using quietD [OF assms(2) that(1)] that assms(1) Marking by (auto simp: holds_def)
    then show ?thesis using assms(3) by (fastforce simp: unspent_def)
  qed
  with assms(1) Marking show ?thesis by (simp add: holds_def)
next
  case (Armed i token)
  from assms(1) Armed have old: "(k, row_marker i) \<notin> set ps" "\<forall>w' < n. w' \<noteq> v \<longrightarrow> (\<forall>t. K w' \<noteq> Armed i t)"
    "\<forall>m \<in> set rows. m_id m = i \<longrightarrow> attempted k m \<noteq> None"
    by (simp_all add: holds_def)
  have "attempted k m' \<noteq> None" if "m' \<in> set rows'" "m_id m' = i" for m'
    using quietD [OF assms(2) that(1)] that(2) old(3) by metis
  moreover have "\<forall>w' < n. w' \<noteq> v \<longrightarrow> (\<forall>t. K' w' \<noteq> Armed i t)" using old(2) assms(3) by blast
  ultimately show ?thesis using old(1) assms(1) Armed by (simp add: holds_def)
qed (use assms(1) in \<open>simp_all add: holds_def\<close>)

lemma core_quiet:
  assumes c: "core k n ds B rows ps K" and w: "w < n" and q: "quiet k rows rows'"
    and armed: "\<And>i token. kn \<noteq> Armed i token \<or> (\<exists>token'. K w = Armed i token')"
    and new: "holds k n ds B rows' ps (K(w := kn)) w kn"
  shows "core k n ds B rows' ps (K(w := kn))"
proof -
  have others: "holds k n ds B rows' ps (K(w := kn)) v (K v)" if "v < n" for v
    using coreD(7) [OF c that] by (rule holds_quiet [OF _ q]) (use armed in \<open>auto split: if_splits\<close>)
  have "unspent k n ps K i \<Longrightarrow> unspent k n ps (K(w := kn)) i" for i
    using armed w by (fastforce simp: unspent_def)
  moreover have "holds k n ds B rows' ps (K(w := kn)) v ((K(w := kn)) v)" if "v < n" for v
    using others [OF that] new by simp
  ultimately show ?thesis
    using c q quietD [OF q] unfolding core_def by (fastforce simp: quiet_def)
qed

lemma core_same_rows:
  assumes c: "core k n ds B rows ps K" and q: "quiet k rows rows'"
  shows "core k n ds B rows' ps K"
proof -
  have "holds k n ds B rows' ps K v (K v)" if "v < n" for v
    by (rule holds_quiet [OF coreD(7) [OF c that] q]) auto
  then show ?thesis
    using c q quietD [OF q] unfolding core_def by (fastforce simp: quiet_def)
qed

lemma core_new_worker:
  assumes "core k n ds B rows ps K"
  shows "core k (Suc n) ds B rows ps (K(n := Idle))"
proof -
  have un: "unspent k n ps K i \<Longrightarrow> unspent k (Suc n) ps (K(n := Idle)) i" for i
    by (auto simp: unspent_def less_Suc_eq)
  have "holds k (Suc n) ds B rows ps (K(n := Idle)) w kn" if "holds k n ds B rows ps K w kn" for w kn
    using that un by (cases kn) (auto simp: holds_def less_Suc_eq)
  with assms un show ?thesis
    unfolding core_def by (auto simp: less_Suc_eq holds_def)
qed

lemma core_draw:
  assumes c: "core k n ds B rows ps K" and w: "w < n" and x: "x \<notin> drawn_ids ds"
  shows "core k n ((x, w) # ds) B rows ps (K(w := Drew x))"
proof -
  have un: "unspent k n ps K i \<Longrightarrow> unspent k n ps (K(w := Drew x)) i" for i
    by (auto simp: unspent_def)
  have old: "holds k n ((x, w) # ds) B rows ps (K(w := Drew x)) v (K v)" if "v < n" for v
    using coreD(7) [OF c that] un by (cases "K v") (auto simp: holds_def)
  have "holds k n ((x, w) # ds) B rows ps (K(w := Drew x)) w (Drew x)"
    using x coreD(9) [OF c] by (auto simp: holds_def)
  with c x un old show ?thesis
    unfolding core_def by (auto simp: drawn_ids_def)
qed

text \<open>Forgetting part of what is known.\<close>

lemma core_weaken:
  assumes c: "core k n ds B rows ps K" and w: "w < n"
    and kn: "kn = Idle \<or> (\<exists>i token. lease_of (K w) = Some (i, token) \<and> kn = Leased i token)"
  shows "core k n ds B rows ps (K(w := kn))"
  by (rule core_quiet [OF c w quiet_refl [OF coreD(2) [OF c]]])
     (use kn coreD(7) [OF c w] in \<open>auto simp: holds_def\<close>)

lemma core_see_unattempted:
  assumes c: "core k n ds B rows ps K" and w: "w < n" and kn: "lease_of (K w) = Some (i, token)"
    and m: "m \<in> set rows" "m_id m = i" "attempted k m = None"
  shows "core k n ds B rows ps (K(w := Holding i token))"
proof (rule core_quiet [OF c w quiet_refl [OF coreD(2) [OF c]]])
  have "attempted k m' = None" if "m' \<in> set rows" "m_id m' = i" for m'
    using same_row [OF coreD(2) [OF c] m(1) that(1)] that(2) m(2,3) by simp
  moreover have "(token, w) \<in> set ds" using kn coreD(7) [OF c w] by (simp add: holds_def)
  moreover have "i \<in> B" using coreD(4) [OF c m(1)] m(2) by simp
  ultimately show "holds k n ds B rows ps (K(w := Holding i token)) w (Holding i token)"
    by (simp add: holds_def)
qed (use m in auto)

lemma core_arm:
  assumes c: "core k n ds B rows ps K" and w: "w < n" and kn: "K w = Marking i token"
    and m: "m \<in> set rows" "m_id m = i" "owns token m" "attempted k m \<noteq> None"
  shows "core k n ds B rows ps (K(w := Armed i token))"
proof -
  have un: "unspent k n ps K i" and tok: "(token, w) \<in> set ds" "i \<in> B"
    using coreD(7) [OF c w] kn m by (auto simp: holds_def)
  have keep: "unspent k n ps (K(w := Armed i token)) j" if "unspent k n ps K j" "j \<noteq> i" for j
    using that by (auto simp: unspent_def)
  have others: "holds k n ds B rows ps (K(w := Armed i token)) v (K v)" if "v < n" "v \<noteq> w" for v
  proof (cases "K v")
    case (Marking j t)
    have "\<not> owns t m'" if "m' \<in> set rows" "m_id m' = i" "j = i" for m'
      using same_row [OF coreD(2) [OF c] m(1) that(1)] that m owner_unique [of t m token]
        drawn_once [OF coreD(1) [OF c] tok(1), of v] coreD(7) [OF c \<open>v < n\<close>] Marking \<open>v \<noteq> w\<close>
      by (auto simp: holds_def)
    with Marking coreD(7) [OF c \<open>v < n\<close>] keep show ?thesis by (auto simp: holds_def)
  next
    case (Armed j t)
    with un that have "j \<noteq> i" by (auto simp: unspent_def)
    with Armed coreD(7) [OF c \<open>v < n\<close>] show ?thesis by (auto simp: holds_def)
  next
    case (Drew x)
    with coreD(7) [OF c \<open>v < n\<close>] m show ?thesis by (auto simp: holds_def)
  qed (use coreD(7) [OF c \<open>v < n\<close>] in \<open>auto simp: holds_def\<close>)
  have "attempted k m' \<noteq> None" if "m' \<in> set rows" "m_id m' = i" for m'
    using same_row [OF coreD(2) [OF c] m(1) that(1)] that m by auto
  then have "holds k n ds B rows ps (K(w := Armed i token)) w (Armed i token)"
    using un tok by (auto simp: holds_def unspent_def)
  moreover have "unspent k n ps (K(w := Armed i token)) (m_id m')"
    if "m' \<in> set rows" "attempted k m' = None" for m'
    using keep coreD(6) [OF c that] same_row [OF coreD(2) [OF c] m(1) that(1)] that m by fastforce
  ultimately show ?thesis
    using c others unfolding core_def by auto
qed

text \<open>The changes of the rows that are not quiet, and the post.\<close>

lemma core_claim:
  assumes c: "core k n ds B rows ps K" and w: "w < n" and kn: "K w = Drew token"
    and ids: "map m_id rows' = map m_id rows"
    and rows: "\<And>m'. m' \<in> set rows' \<Longrightarrow> \<exists>m \<in> set rows. m_id m = m_id m' \<and> m_marker m = m_marker m'
        \<and> attempted k m = attempted k m' \<and> (\<forall>t. t \<noteq> token \<longrightarrow> owns t m' \<longrightarrow> owns t m)"
  shows "core k n ds B rows' ps (K(w := Leased i token))"
proof -
  have tok: "(token, w) \<in> set ds" using coreD(7) [OF c w] kn by (simp add: holds_def)
  have un: "unspent k n ps K j \<Longrightarrow> unspent k n ps (K(w := Leased i token)) j" for j
    by (auto simp: unspent_def)
  have set_ids: "m_id ` set rows' = m_id ` set rows" using arg_cong [OF ids, of set] by simp
  have others: "holds k n ds B rows' ps (K(w := Leased i token)) v (K v)" if v: "v < n" "v \<noteq> w" for v
  proof -
    note old = coreD(7) [OF c v(1)]
    have other: "t \<noteq> token" if "lease_of (K v) = Some (j, t)" for j t
      using drawn_once [OF coreD(1) [OF c] tok, of v] old that v(2) by (auto simp: holds_def)
    show ?thesis
    proof (cases "K v")
      case (Drew x)
      with old set_ids show ?thesis by (auto simp: holds_def)
    next
      case (Holding j t)
      have "attempted k m' = None" if "m' \<in> set rows'" "m_id m' = j" "owns t m'" for m'
        using rows [OF that(1)] that(2,3) old other [of j t] Holding by (auto simp: holds_def)
      with old Holding show ?thesis by (simp add: holds_def)
    next
      case (Marking j t)
      have "unspent k n ps K j" if "m' \<in> set rows'" "m_id m' = j" "owns t m'" "attempted k m' \<noteq> None" for m'
        using rows [OF that(1)] that(2-4) old other [of j t] Marking by (auto simp: holds_def)
      with old un Marking show ?thesis by (simp add: holds_def)
    next
      case (Armed j t)
      have "\<forall>m \<in> set rows. m_id m = j \<longrightarrow> attempted k m \<noteq> None" using old Armed by (simp add: holds_def)
      then have "attempted k m' \<noteq> None" if "m' \<in> set rows'" "m_id m' = j" for m'
        using rows [OF that(1)] that(2) by metis
      with old Armed show ?thesis by (simp add: holds_def)
    qed (use old in \<open>simp_all add: holds_def\<close>)
  qed
  have "holds k n ds B rows' ps (K(w := Leased i token)) w (Leased i token)"
    using tok by (simp add: holds_def)
  moreover have "m_marker m' = row_marker (m_id m') \<and> m_id m' \<in> B
      \<and> (attempted k m' = None \<longrightarrow> unspent k n ps (K(w := Leased i token)) (m_id m'))"
    if "m' \<in> set rows'" for m'
    using rows [OF that] coreD(3,4,6) [OF c] un by metis
  ultimately show ?thesis
    using c others ids unfolding core_def by auto
qed

lemma core_insert:
  assumes c: "core k n ds B rows ps K" and w: "w < n" and kn: "K w = Drew (m_id m)"
    and m: "attempted k m = None" "\<And>t. \<not> owns t m" "m_marker m = row_marker (m_id m)"
  shows "core k n ds (insert (m_id m) B) (rows @ [m]) ps (K(w := Idle))"
proof -
  have new: "m_id m \<notin> B" "m_id m \<in> drawn_ids ds"
    using coreD(7) [OF c w] kn by (auto simp: holds_def drawn_ids_def rev_image_eqI)
  then have fresh: "m_id m \<notin> m_id ` set rows" "(k, row_marker (m_id m)) \<notin> set ps"
    using coreD(4,5) [OF c] by auto
  have bound: "bound_row (K v) \<noteq> Some (m_id m)" if "v < n" for v
    using coreD(7) [OF c that] new by (auto simp: holds_def)
  have un: "unspent k n ps K j \<Longrightarrow> unspent k n ps (K(w := Idle)) j" for j
    by (auto simp: unspent_def)
  have "unspent k n ps (K(w := Idle)) (m_id m)"
    using fresh bound by (force simp: unspent_def)
  moreover have "holds k n ds (insert (m_id m) B) (rows @ [m]) ps (K(w := Idle)) v (K v)"
    if v: "v < n" "v \<noteq> w" for v
  proof -
    note old = coreD(7) [OF c v(1)]
    have "K v \<noteq> Drew (m_id m)"
      using old coreD(7) [OF c w] kn drawn_once [OF coreD(1) [OF c], of "m_id m" v w] v(2)
      by (auto simp: holds_def)
    then show ?thesis
      using old un bound [OF v(1)] m by (cases "K v") (auto simp: holds_def)
  qed
  moreover have "holds k n ds (insert (m_id m) B) (rows @ [m]) ps (K(w := Idle)) w Idle"
    by (simp add: holds_def)
  ultimately show ?thesis
    using c m new fresh un unfolding core_def by auto
qed

lemma core_mark:
  assumes c: "core k n ds B rows ps K" and w: "w < n" and kn: "K w = Holding i token"
    and ids: "map m_id rows' = map m_id rows"
    and rows: "\<And>m'. m' \<in> set rows' \<Longrightarrow> \<exists>m \<in> set rows. m_id m = m_id m' \<and> m_marker m = m_marker m'
        \<and> (\<forall>t. owns t m' \<longrightarrow> owns t m)
        \<and> (attempted k m = attempted k m' \<or> m_id m = i \<and> owns token m \<and> attempted k m' \<noteq> None)"
  shows "core k n ds B rows' ps (K(w := Marking i token))"
proof -
  have tok: "(token, w) \<in> set ds" "i \<in> B"
    "\<And>m. m \<in> set rows \<Longrightarrow> m_id m = i \<Longrightarrow> owns token m \<Longrightarrow> attempted k m = None"
    using coreD(7) [OF c w] kn by (auto simp: holds_def)
  have un: "unspent k n ps K j \<Longrightarrow> unspent k n ps (K(w := Marking i token)) j" for j
    by (auto simp: unspent_def)
  have set_ids: "m_id ` set rows' = m_id ` set rows" using arg_cong [OF ids, of set] by simp
  have others: "holds k n ds B rows' ps (K(w := Marking i token)) v (K v)" if v: "v < n" "v \<noteq> w" for v
  proof -
    note old = coreD(7) [OF c v(1)]
    have other: "t \<noteq> token" if "lease_of (K v) = Some (j, t)" for j t
      using drawn_once [OF coreD(1) [OF c] tok(1), of v] old that v(2) by (auto simp: holds_def)
    have row: "\<exists>m \<in> set rows. m_id m = m_id m' \<and> owns t m \<and> attempted k m = attempted k m'"
      if "m' \<in> set rows'" "owns t m'" "lease_of (K v) = Some (j, t)" for m' j t
      using rows [OF that(1)] that(2) other [OF that(3)] owner_unique by metis
    show ?thesis
    proof (cases "K v")
      case (Drew x)
      with old set_ids kn w show ?thesis by (auto simp: holds_def)
    next
      case (Holding j t)
      have "attempted k m' = None" if "m' \<in> set rows'" "m_id m' = j" "owns t m'" for m'
        using row [OF that(1,3), of j] that(2) old Holding by (auto simp: holds_def)
      with old Holding show ?thesis by (simp add: holds_def)
    next
      case (Marking j t)
      have "unspent k n ps K j" if "m' \<in> set rows'" "m_id m' = j" "owns t m'" "attempted k m' \<noteq> None" for m'
        using row [OF that(1,3), of j] that(2,4) old Marking by (auto simp: holds_def)
      with old un Marking show ?thesis by (simp add: holds_def)
    next
      case (Armed j t)
      have "\<forall>m \<in> set rows. m_id m = j \<longrightarrow> attempted k m \<noteq> None" using old Armed by (simp add: holds_def)
      then have "attempted k m' \<noteq> None" if "m' \<in> set rows'" "m_id m' = j" for m'
        using rows [OF that(1)] that(2) by metis
      with old Armed show ?thesis by (simp add: holds_def)
    qed (use old in \<open>simp_all add: holds_def\<close>)
  qed
  have "unspent k n ps K i" if row: "m' \<in> set rows'" "m_id m' = i" "owns token m'" for m'
  proof -
    obtain m where "m \<in> set rows" "m_id m = i" "owns token m" using rows [OF row(1)] row(2,3) by metis
    with tok(3) coreD(6) [OF c] show ?thesis by metis
  qed
  with tok un have "holds k n ds B rows' ps (K(w := Marking i token)) w (Marking i token)"
    by (auto simp: holds_def)
  moreover have "m_marker m' = row_marker (m_id m') \<and> m_id m' \<in> B
      \<and> (attempted k m' = None \<longrightarrow> unspent k n ps (K(w := Marking i token)) (m_id m'))"
    if "m' \<in> set rows'" for m'
    using rows [OF that] coreD(3,4,6) [OF c] un by metis
  ultimately show ?thesis
    using c others ids unfolding core_def by auto
qed

lemma core_post:
  assumes c: "core k n ds B rows ps K" and w: "w < n" and kn: "K w = Armed i token"
  shows "core k n ds B rows ((k, row_marker i) # ps) (K(w := Leased i token))"
proof -
  have armed: "(token, w) \<in> set ds" "i \<in> B" "(k, row_marker i) \<notin> set ps"
    "\<And>v t. v < n \<Longrightarrow> v \<noteq> w \<Longrightarrow> K v \<noteq> Armed i t"
    "\<And>m. m \<in> set rows \<Longrightarrow> m_id m = i \<Longrightarrow> attempted k m \<noteq> None"
    using coreD(7) [OF c w] kn by (auto simp: holds_def)
  have un: "unspent k n ((k, row_marker i) # ps) (K(w := Leased i token)) j" if "unspent k n ps K j" for j
  proof -
    have "j \<noteq> i" using that kn w by (auto simp: unspent_def)
    with that show ?thesis by (auto simp: unspent_def)
  qed
  have "holds k n ds B rows ((k, row_marker i) # ps) (K(w := Leased i token)) v (K v)"
    if v: "v < n" "v \<noteq> w" for v
  proof -
    note old = coreD(7) [OF c v(1)]
    show ?thesis
    proof (cases "K v")
      case (Drew x)
      with old show ?thesis by (simp add: holds_def)
    next
      case (Armed j t)
      have "j \<noteq> i" using armed(4) [OF v] Armed by auto
      with old Armed show ?thesis by (auto simp: holds_def)
    qed (use old un in \<open>auto simp: holds_def\<close>)
  qed
  moreover have "holds k n ds B rows ((k, row_marker i) # ps) (K(w := Leased i token)) w (Leased i token)"
    using armed by (simp add: holds_def)
  ultimately show ?thesis
    using c armed un unfolding core_def by auto
qed

lemma core_other_post:
  assumes "core k n ds B rows ps K" "fst p \<noteq> k"
  shows "core k n ds B rows (p # ps) K"
proof -
  have posted: "(k, mk) \<in> set (p # ps) \<longleftrightarrow> (k, mk) \<in> set ps" for mk using assms(2) by auto
  have un: "unspent k n (p # ps) K = unspent k n ps K" unfolding unspent_def posted by simp
  have "holds k n ds B rows (p # ps) K v kn = holds k n ds B rows ps K v kn" for v kn
    unfolding holds_def un posted by simp
  with assms un posted show ?thesis unfolding core_def by auto
qed

subsection \<open>Transactions keep the invariant\<close>

lemma attempted_touch [simp]: "attempted k (m\<lparr>m_updated_at := t\<rparr>) = attempted k m"
  by (cases k) simp_all

lemma owns_touch [simp]: "owns token (m\<lparr>m_updated_at := t\<rparr>) = owns token m"
  by (simp add: owns_def)

lemma find_rowD: "find_row i L = Some m \<Longrightarrow> m \<in> set (lg_rows L) \<and> m_id m = i"
  by (auto simp: find_row_def find_Some_iff)

lemma put_row_rows:
  "r \<in> set (lg_rows (put_row now m L)) \<Longrightarrow>
   r \<in> set (lg_rows L) \<and> m_id r \<noteq> m_id m \<or> r = m\<lparr>m_updated_at := now\<rparr>"
  by (auto simp: put_row_def split: if_splits)

lemma put_row_ids: "map m_id (lg_rows (put_row now m L)) = map m_id (lg_rows L)"
  by (simp add: put_row_def)

lemma put_row_has:
  "find_row (m_id m) L = Some old \<Longrightarrow> m\<lparr>m_updated_at := now\<rparr> \<in> set (lg_rows (put_row now m L))"
  using find_rowD [of "m_id m" L old] by (force simp: put_row_def)

text \<open>What a decision on a row may change.\<close>

definition quiet_row :: "post_kind \<Rightarrow> mutation \<Rightarrow> mutation \<Rightarrow> bool" where
  "quiet_row k m m' \<longleftrightarrow> m_id m' = m_id m \<and> m_marker m' = m_marker m
     \<and> attempted k m' = attempted k m \<and> (\<forall>t. owns t m' \<longrightarrow> owns t m)"

lemma transition_quiet:
  "transition_row now token act m = Inr (m', b) \<Longrightarrow> act \<noteq> mark_op k \<Longrightarrow> quiet_row k m m'"
  by (cases act; cases k)
     (auto simp: transition_row_def quiet_row_def owns_def split: if_splits)

lemma defer_quiet: "defer_row now body delay m = Inr (m', b) \<Longrightarrow> quiet_row k m m'"
  by (cases k) (auto simp: defer_row_def quiet_row_def owns_def split: if_splits)

lemma claim_decision:
  "claim_row now token b m = Inr (m', c) \<Longrightarrow>
   m_id m' = m_id m \<and> m_marker m' = m_marker m \<and> attempted k m' = attempted k m
   \<and> (\<forall>t. t \<noteq> token \<longrightarrow> owns t m' \<longrightarrow> owns t m) \<and> (terminal (m_status m') \<or> owns token m')"
  by (cases k) (auto simp: claim_row_def owns_def split: if_splits)

lemma mark_decision:
  "transition_row now token (mark_op k) m = Inr (m', b) \<Longrightarrow>
   m_id m' = m_id m \<and> m_marker m' = m_marker m \<and> owns token m \<and> owns token m'
   \<and> (\<forall>t. owns t m' \<longrightarrow> owns t m) \<and> attempted k m' \<noteq> None"
  by (cases k) (auto simp: transition_row_def op_owner_only_def owns_def split: if_splits)

lemma quiet_put:
  assumes "distinct (map m_id (lg_rows L))" "find_row i L = Some m" "quiet_row k m m'"
  shows "quiet k (lg_rows L) (lg_rows (put_row now m' L))"
proof -
  have m: "m \<in> set (lg_rows L)" "m_id m' = i"
    using find_rowD [OF assms(2)] assms(3) by (auto simp: quiet_row_def)
  show ?thesis
    unfolding quiet_def put_row_ids
  proof (intro conjI ballI assms(1))
    fix r assume "r \<in> set (lg_rows (put_row now m' L))"
    then consider "r \<in> set (lg_rows L)" | "r = m'\<lparr>m_updated_at := now\<rparr>"
      using put_row_rows by blast
    then show "\<exists>x \<in> set (lg_rows L). m_id x = m_id r \<and> m_marker x = m_marker r
        \<and> attempted k x = attempted k r \<and> (\<forall>token. owns token r \<longrightarrow> owns token x)"
      using m assms(3) by cases (auto simp: quiet_row_def)
  qed
qed

text \<open>Seeing a row of the ledger under the lease.\<close>

lemma core_observe:
  assumes c: "core k n ds B rows ps K" and w: "w < n" and kn: "lease_of (K w) = Some (i, token)"
    and m: "m \<in> set rows" "m_id m = i" "owns token m' \<longrightarrow> owns token m" "attempted k m' = attempted k m"
  shows "core k n ds B rows ps (K(w := observe k i token m' (K w)))"
proof (cases "owns token m'")
  case False
  with c show ?thesis by (simp add: observe_def)
next
  case True
  show ?thesis
  proof (cases "attempted k m' = None")
    case True
    with core_see_unattempted [OF c w kn m(1,2)] m(4) \<open>owns token m'\<close> show ?thesis
      by (simp add: observe_def)
  next
    case False
    with True m core_arm [OF c w _ m(1,2)] core_weaken [OF c w, of "Leased i token"] kn c show ?thesis
      by (auto simp: observe_def)
  qed
qed

lemma core_lost:
  assumes c: "core k n ds B rows ps K" and w: "w < n" and ok: "admissible k t (K w)"
  shows "core k n ds B rows ps (K(w := learn k t (Inl e) (K w)))"
proof (cases t)
  case (ClaimRow i token now b)
  with ok have "K w = Drew token" by (simp add: admissible_def)
  from core_claim [OF c w this refl] ClaimRow show ?thesis by (auto simp: learn_def)
next
  case (Transition i token now act)
  show ?thesis
  proof (cases "act = mark_op k")
    case True
    with ok Transition have "K w = Holding i token" by (simp add: admissible_def)
    from core_mark [OF c w this refl] True Transition show ?thesis by (auto simp: learn_def)
  qed (use c Transition in \<open>simp add: learn_def\<close>)
qed (use c core_weaken [OF c w, of Idle] in \<open>simp_all add: learn_def\<close>)

lemma row_reply_row:
  "row_reply L (on_row now i e decide L) = (TxnRow r b, L') \<Longrightarrow>
   \<exists>m m'. find_row i L = Some m \<and> decide m = Inr (m', b) \<and> r = Some m'
     \<and> L' = (if b then put_row now m' L else L)"
  by (auto simp: row_reply_def on_row_def rbind_Inr_iff split: sum.splits option.splits)

lemma put_row_if:
  assumes "find_row i L = Some m" "m_id m' = i" "b \<longrightarrow> L' = put_row now m' L" "\<not> b \<longrightarrow> L' = L \<and> m' = m"
  shows "\<exists>r \<in> set (lg_rows L'). m_id r = i \<and> owns token r = owns token m' \<and> attempted k r = attempted k m'"
proof (cases b)
  case True
  have "m'\<lparr>m_updated_at := now\<rparr> \<in> set (lg_rows L')"
    using put_row_has [of m' L m now] assms True by simp
  then show ?thesis by (rule rev_bexI) (simp add: assms(2))
next
  case False
  with assms find_rowD [OF assms(1)] show ?thesis by auto
qed

lemma transition_same: "transition_row now token act m = Inr (m', False) \<Longrightarrow> m' = m"
  by (auto simp: transition_row_def split: if_splits)

lemma claim_same: "claim_row now token b m = Inr (m', False) \<Longrightarrow> m' = m"
  by (auto simp: claim_row_def split: if_splits)

lemma defer_same: "defer_row now body delay m = Inr (m', False) \<Longrightarrow> m' = m"
  by (auto simp: defer_row_def split: if_splits)

text \<open>The row that a committed transaction returned is a good reply, and what it teaches is true.\<close>

lemma core_txn_plain:
  assumes c: "core k n ds B (lg_rows L) ps K" and w: "w < n"
    and find: "find_row i L = Some m" and q: "quiet_row k m m'" and same: "\<not> b \<longrightarrow> m' = m"
    and L': "L' = (if b then put_row now m' L else L)"
  shows "core k n ds B (lg_rows L') ps K"
    and "lease_of (K w) = Some (i, token) \<Longrightarrow>
      core k n ds B (lg_rows L') ps (K(w := observe k i token m' (K w)))"
proof -
  have "quiet k (lg_rows L) (lg_rows L')"
    using quiet_put [OF coreD(2) [OF c] find q] quiet_refl [OF coreD(2) [OF c]] by (simp add: L')
  from core_same_rows [OF c this] show c': "core k n ds B (lg_rows L') ps K" .
  have id: "m_id m' = i" using q find_rowD [OF find] by (simp add: quiet_row_def)
  obtain r where "r \<in> set (lg_rows L')" "m_id r = i" "owns token r = owns token m'"
    "attempted k r = attempted k m'"
    using put_row_if [OF find id, of b L' now token k] same L' by auto
  then show "core k n ds B (lg_rows L') ps (K(w := observe k i token m' (K w)))"
    if "lease_of (K w) = Some (i, token)"
    using core_observe [OF c' w that, of r m'] by simp
qed

lemma core_txn_claim:
  assumes c: "core k n ds B (lg_rows L) ps K" and w: "w < n" and kn: "K w = Drew token"
    and find: "find_row i L = Some m" and dec: "claim_row at_time token ig m = Inr (m', b)"
    and L': "L' = (if b then put_row now m' L else L)"
  shows "core k n ds B (lg_rows L') ps (K(w := Leased i token))"
    and "owns token m' \<Longrightarrow> attempted k m' = None \<Longrightarrow>
      core k n ds B (lg_rows L') ps (K(w := Holding i token))"
proof -
  note m = find_rowD [OF find] and d = claim_decision [OF dec, of k]
  have rows: "\<exists>x \<in> set (lg_rows L). m_id x = m_id r \<and> m_marker x = m_marker r
      \<and> attempted k x = attempted k r \<and> (\<forall>t. t \<noteq> token \<longrightarrow> owns t r \<longrightarrow> owns t x)"
    if r: "r \<in> set (lg_rows L')" for r
  proof (cases "r \<in> set (lg_rows L)")
    case False
    with r put_row_rows [of r now m' L] L' have "r = m'\<lparr>m_updated_at := now\<rparr>"
      by (auto split: if_splits)
    with m d show ?thesis by auto
  qed auto
  have "map m_id (lg_rows L') = map m_id (lg_rows L)" by (simp add: L' put_row_ids)
  from core_claim [OF c w kn this rows] show c': "core k n ds B (lg_rows L') ps (K(w := Leased i token))"
    by blast
  obtain r where "r \<in> set (lg_rows L')" "m_id r = i" "owns token r = owns token m'"
    "attempted k r = attempted k m'"
    using put_row_if [OF find, of m' b L' now token k] m d L' claim_same [of at_time token ig m m'] dec
    by auto
  then show "core k n ds B (lg_rows L') ps (K(w := Holding i token))"
    if "owns token m'" "attempted k m' = None"
    using core_see_unattempted [OF c' w, of i token r] that by simp
qed

lemma core_txn_mark:
  assumes c: "core k n ds B (lg_rows L) ps K" and w: "w < n" and kn: "K w = Holding i token"
    and find: "find_row i L = Some m" and dec: "transition_row at_time token (mark_op k) m = Inr (m', b)"
    and L': "L' = (if b then put_row now m' L else L)"
  shows "core k n ds B (lg_rows L') ps (K(w := Marking i token))"
    and "core k n ds B (lg_rows L') ps (K(w := Armed i token))"
proof -
  note m = find_rowD [OF find] and d = mark_decision [OF dec]
  have rows: "\<exists>x \<in> set (lg_rows L). m_id x = m_id r \<and> m_marker x = m_marker r
      \<and> (\<forall>t. owns t r \<longrightarrow> owns t x)
      \<and> (attempted k x = attempted k r \<or> m_id x = i \<and> owns token x \<and> attempted k r \<noteq> None)"
    if r: "r \<in> set (lg_rows L')" for r
  proof (cases "r \<in> set (lg_rows L)")
    case False
    with r put_row_rows [of r now m' L] L' have "r = m'\<lparr>m_updated_at := now\<rparr>"
      by (auto split: if_splits)
    with m d show ?thesis by auto
  qed auto
  have "map m_id (lg_rows L') = map m_id (lg_rows L)" by (simp add: L' put_row_ids)
  from core_mark [OF c w kn this rows] show c': "core k n ds B (lg_rows L') ps (K(w := Marking i token))"
    by blast
  obtain r where "r \<in> set (lg_rows L')" "m_id r = i" "owns token r = owns token m'"
    "attempted k r = attempted k m'"
    using put_row_if [OF find, of m' b L' now token k] m d L'
      transition_same [of at_time token "mark_op k" m m'] dec
    by auto
  then show "core k n ds B (lg_rows L') ps (K(w := Armed i token))"
    using core_arm [OF c' w, of i token r] d by simp
qed

lemma core_absorb:
  assumes "core k n ds B rows ps K"
  shows "core k n ds (B \<union> m_id ` set rows) rows ps K"
proof -
  have "B \<union> m_id ` set rows = B" using coreD(4) [OF assms] by auto
  with assms show ?thesis by simp
qed

lemma core_txn:
  assumes c: "core k n ds B (lg_rows L) ps K" and w: "w < n" and ok: "admissible k t (K w)"
    and run: "run_txn now t L = (TxnRow r b, L')"
  shows "core k n ds (B \<union> m_id ` set (lg_rows L')) (lg_rows L') ps (K(w := learn k t (Inr r) (K w)))
    \<and> core k n ds (B \<union> m_id ` set (lg_rows L')) (lg_rows L') ps (K(w := learn k t (Inl e) (K w)))
    \<and> good_reply t (Inr r)"
proof -
  have marker: "m_marker m = row_marker (m_id m)" if "find_row i L = Some m" for i m
    using coreD(3) [OF c] find_rowD [OF that] by blast
  show ?thesis
  proof (cases t)
    case (GetByScope s)
    with run have r: "r = find_scope s L" "L' = L" by auto
    have "m_marker m = row_marker (m_id m)" if "find_scope s L = Some m" for m
      using that coreD(3) [OF c] by (auto simp: find_scope_def find_Some_iff)
    with GetByScope r c show ?thesis
      by (auto simp: learn_def good_reply_def good_row_def intro: core_absorb split: option.split)
  next
    case (GetRow i)
    with run have r: "r = find_row i L" "L' = L" by auto
    have "good_reply t (Inr r)"
      using GetRow r marker find_rowD by (auto simp: good_reply_def good_row_def split: option.split)
    moreover have "core k n ds B (lg_rows L) ps (K(w := learn k t (Inr r) (K w)))"
    proof (cases "r = None \<or> lease_of (K w) = None")
      case True
      with c GetRow show ?thesis by (auto simp: learn_def split: option.split)
    next
      case False
      then obtain m j token where m: "r = Some m" "lease_of (K w) = Some (j, token)" by auto
      with r have "find_row i L = Some m" by simp
      from find_rowD [OF this] core_observe [OF c w, of i token m m] c m GetRow show ?thesis
        by (auto simp: learn_def)
    qed
    ultimately show ?thesis using c GetRow r by (auto simp: learn_def intro: core_absorb)
  next
    case (InsertRow m)
    let ?m = "m\<lparr>m_created_at := now, m_updated_at := now\<rparr>"
    have L': "lg_rows L' = lg_rows L @ [?m]" and r: "r = Some ?m"
      using run InsertRow by (auto simp: Let_def insert_mutation_def split: option.splits sum.splits if_splits)
    from ok InsertRow have m: "K w = Drew (m_id m)" "attempted k m = None" "m_status m = MPending"
      "m_marker m = row_marker (m_id m)"
      by (auto simp: admissible_def)
    have "core k n ds (insert (m_id ?m) B) (lg_rows L @ [?m]) ps (K(w := Idle))"
      by (rule core_insert [OF c w]) (use m in \<open>cases k; simp add: owns_def\<close>)+
    from core_absorb [OF this] have "core k n ds (B \<union> m_id ` set (lg_rows L')) (lg_rows L') ps (K(w := Idle))"
      by (simp add: L' insert_commute Un_commute)
    with InsertRow L' r m show ?thesis
      by (simp add: learn_def good_reply_def good_row_def)
  next
    case (ClaimRow i token tm ig)
    obtain m m' where find: "find_row i L = Some m" "claim_row tm token ig m = Inr (m', b)"
      "r = Some m'" "L' = (if b then put_row now m' L else L)"
      using row_reply_row run ClaimRow by (metis run_txn.simps(4))
    have kn: "K w = Drew token" using ok ClaimRow by (simp add: admissible_def)
    from core_txn_claim [OF c w kn find(1,2,4)] claim_decision [OF find(2), of k]
      find_rowD [OF find(1)] marker [OF find(1)] ClaimRow find(3) show ?thesis
      by (auto simp: learn_def good_reply_def good_row_def intro: core_absorb)
  next
    case (Transition i token tm act)
    obtain m m' where find: "find_row i L = Some m" "transition_row tm token act m = Inr (m', b)"
      "r = Some m'" "L' = (if b then put_row now m' L else L)"
      using row_reply_row run Transition by (metis run_txn.simps(5))
    have good: "good_reply t (Inr r)"
    proof -
      have "m_id m' = m_id m \<and> m_marker m' = m_marker m \<and> (op_owner_only act \<longrightarrow> owns token m')"
        using find(2) by (cases act) (auto simp: transition_row_def op_owner_only_def owns_def split: if_splits)
      with Transition find_rowD [OF find(1)] marker [OF find(1)] find(3) show ?thesis
        by (simp add: good_reply_def good_row_def)
    qed
    show ?thesis
    proof (cases "act = mark_op k")
      case True
      then have "K w = Holding i token" using ok Transition by (simp add: admissible_def)
      from core_txn_mark [OF c w this find(1) find(2) [unfolded True] find(4)] good Transition True find(3)
      show ?thesis by (auto simp: learn_def intro: core_absorb)
    next
      case False
      have same: "\<not> b \<longrightarrow> m' = m" using transition_same find(2) by (cases b) auto
      from core_txn_plain [OF c w find(1) transition_quiet [OF find(2) False] same find(4)]
        good Transition False find(3) show ?thesis
        by (auto simp: learn_def intro: core_absorb)
    qed
  next
    case (DeferRow i tm body delay)
    obtain m m' where find: "find_row i L = Some m" "defer_row tm body delay m = Inr (m', b)"
      "r = Some m'" "L' = (if b then put_row now m' L else L)"
      using row_reply_row run DeferRow by (metis run_txn.simps(6))
    have same: "\<not> b \<longrightarrow> m' = m" using defer_same find(2) by (cases b) auto
    from core_txn_plain [OF c w find(1) defer_quiet [OF find(2)] same find(4)]
      DeferRow find(3) defer_quiet [OF find(2), of k] find_rowD [OF find(1)] marker [OF find(1)]
    show ?thesis by (auto simp: learn_def good_reply_def good_row_def quiet_row_def intro: core_absorb)
  qed
qed

lemma core_answer:
  assumes c: "core k n ds B (lg_rows L) ps K" and w: "w < n" and ok: "admissible k t (K w)"
    and run: "txn_answer now L t r L'"
  shows "core k n ds (B \<union> m_id ` set (lg_rows L')) (lg_rows L') ps (K(w := learn k t r (K w)))
    \<and> good_reply t r"
  using run
proof cases
  case (answered m b)
  with core_txn [OF c w ok] show ?thesis by blast
next
  case (ack_lost m e)
  with core_txn [OF c w ok] show ?thesis by (auto simp: good_reply_def)
qed (use core_absorb [OF core_lost [OF c w ok]] in \<open>auto simp: good_reply_def\<close>)

subsection \<open>Every step keeps the invariant\<close>

definition fence_inv :: "post_kind \<Rightarrow> world \<Rightarrow> (nat \<Rightarrow> know) \<Rightarrow> bool" where
  "fence_inv k W K \<longleftrightarrow>
     core k (length (wo_workers W)) (wo_drawn W) (fst ` set (wo_inserted W)) (lg_rows (wo_ledger W))
       (wo_posts W) K
     \<and> (\<forall>w < length (wo_workers W). fenced k (\<lambda>_ _. True) (wk_prog (wo_workers W ! w)) (K w))"

lemma resume_simps [simp]:
  "wo_now (resume_with w p W) = wo_now W"
  "wo_ledger (resume_with w p W) = wo_ledger W"
  "wo_drawn (resume_with w p W) = wo_drawn W"
  "wo_posts (resume_with w p W) = wo_posts W"
  "wo_inserted (resume_with w p W) = wo_inserted W"
  "length (wo_workers (resume_with w p W)) = length (wo_workers W)"
  by (simp_all add: resume_with_def)

lemma resume_prog:
  "v < length (wo_workers W) \<Longrightarrow>
   wk_prog (wo_workers (resume_with w p W) ! v) = (if v = w then p else wk_prog (wo_workers W ! v))"
  by (auto simp: resume_with_def nth_list_update)

lemma fence_resume:
  assumes inv: "fence_inv k W K" and w: "awaits patience W w q"
    and workers: "wo_workers W' = wo_workers W"
    and "core k (length (wo_workers W)) (wo_drawn W') (fst ` set (wo_inserted W'))
           (lg_rows (wo_ledger W')) (wo_posts W') (K(w := kn))"
    and "fenced k (\<lambda>_ _. True) p kn"
  shows "fence_inv k (resume_with w p W') (K(w := kn))"
  using assms by (auto simp: fence_inv_def resume_prog)

text \<open>Retirement only removes rows.\<close>

lemma retire_row_rows: "retire_row m L = Inr L' \<Longrightarrow> lg_rows L' = filter (\<lambda>r. m_id r \<noteq> m_id m) (lg_rows L)"
  by (auto simp: retire_row_def Let_def split: option.splits if_splits)

lemma retire_rows_filter:
  "rfold retire_row ms L = Inr L' \<Longrightarrow> lg_rows L' = filter (\<lambda>r. m_id r \<notin> m_id ` set ms) (lg_rows L)"
proof (induction ms arbitrary: L)
  case (Cons m ms)
  then obtain L1 where "retire_row m L = Inr L1" "rfold retire_row ms L1 = Inr L'"
    by (auto simp: rbind_Inr_iff)
  with Cons.IH retire_row_rows show ?case by (auto intro: filter_cong)
qed simp

lemma retire_terminal_rows:
  "retire_terminal cutoff bound locked L = Inr (c, L') \<Longrightarrow> \<exists>P. lg_rows L' = filter P (lg_rows L)"
  by (auto simp: retire_terminal_def Let_def rbind_Inr_iff dest: retire_rows_filter)

lemma quiet_filter: "distinct (map m_id rows) \<Longrightarrow> quiet k rows (filter P rows)"
  by (auto simp: quiet_def distinct_map_filter)

lemma new_rows_ids: "fst ` set (new_rows L L') = m_id ` set (lg_rows L') - m_id ` set (lg_rows L)"
  by (force simp: new_rows_def)

lemma renew_quiet:
  assumes "txn_answer now L (Transition i token drawn Renew) r L'" "distinct (map m_id (lg_rows L))"
  shows "quiet k (lg_rows L) (lg_rows L')"
  using assms(1)
proof cases
  case (answered m b)
  then obtain o1 m' where "find_row i L = Some o1" "transition_row drawn token Renew o1 = Inr (m', b)"
    "L' = (if b then put_row now m' L else L)"
    using row_reply_row by (metis run_txn.simps(5))
  with quiet_put [OF assms(2)] transition_quiet quiet_refl [OF assms(2)] show ?thesis by auto
next
  case (ack_lost m e)
  then obtain o1 m' where "find_row i L = Some o1" "transition_row drawn token Renew o1 = Inr (m', True)"
    "L' = put_row now m' L"
    using row_reply_row by (metis run_txn.simps(5))
  with quiet_put [OF assms(2)] transition_quiet show ?thesis by auto
qed (use quiet_refl [OF assms(2)] in simp_all)

lemma fence_step:
  assumes step: "world_step cred form patience W W'" and inv: "fence_inv k W K"
  shows "\<exists>K'. fence_inv k W' K'"
proof -
  note c = inv [unfolded fence_inv_def, THEN conjunct1]
  have f: "fenced k (\<lambda>_ _. True) p (K w)" if "awaits patience W w p" for w p
    using inv that by (auto simp: fence_inv_def awaits_def)
  show ?thesis
    using step
  proof cases
    case (arrive q)
    from core_new_worker [OF c] have "fence_inv k W' (K(length (wo_workers W) := Idle))"
      using inv arrive harmlessD [OF harmless_program, of k cred form q Idle]
      by (auto simp: fence_inv_def nth_append less_Suc_eq)
    then show ?thesis by blast
  next
    case (tick now)
    with inv show ?thesis by (auto simp: fence_inv_def)
  next
    case (draw w q x)
    have w: "w < length (wo_workers W)" using draw by (simp add: awaits_def)
    have "x \<notin> drawn_ids (wo_drawn W)" using draw by (simp add: drawn_ids_def)
    from fence_resume [OF inv draw(2), of "W\<lparr>wo_drawn := (x, w) # wo_drawn W\<rparr>" "Drew x" "q x"]
      core_draw [OF c w this] f [OF draw(2)] draw show ?thesis by auto
  next
    case (read_clock w q)
    from fence_resume [OF inv read_clock(2), of W "K w"] c f [OF read_clock(2)] read_clock
    show ?thesis by auto
  next
    case (transact w t q r L)
    have w: "w < length (wo_workers W)" using transact by (simp add: awaits_def)
    have ok: "admissible k t (K w)" using f [OF transact(2)] by simp
    note new = core_answer [OF c w ok transact(3)]
    let ?W = "W\<lparr>wo_ledger := L, wo_inserted := new_rows (wo_ledger W) L @ wo_inserted W\<rparr>"
    have ids: "fst ` set (wo_inserted ?W) = fst ` set (wo_inserted W) \<union> m_id ` set (lg_rows L)"
      using coreD(4) [OF c] by (auto simp: new_rows_ids image_Un)
    have "fence_inv k (resume_with w (q r) ?W) (K(w := learn k t r (K w)))"
    proof (rule fence_resume [OF inv transact(2)])
      show "fenced k (\<lambda>_ _. True) (q r) (learn k t r (K w))"
        using f [OF transact(2)] new by simp
    qed (use new ids in simp_all)
    with transact(1) show ?thesis by blast
  next
    case (read_tombstone w s q r)
    from fence_resume [OF inv read_tombstone(2), of W "K w"] c f [OF read_tombstone(2)] read_tombstone
    show ?thesis by auto
  next
    case (call_provider w cl q r)
    have w: "w < length (wo_workers W)" using call_provider by (simp add: awaits_def)
    have ok: "may_post k cl (K w)" using f [OF call_provider(2)] by simp
    have "core k (length (wo_workers W)) (wo_drawn W) (fst ` set (wo_inserted W)) (lg_rows (wo_ledger W))
        (log_post cl (wo_posts W)) (K(w := after_call k cl (K w)))"
    proof (cases "post_of cl")
      case None
      with c show ?thesis by (simp add: log_post_def after_call_def)
    next
      case (Some p)
      obtain j mk where p: "p = (j, mk)" by (cases p)
      show ?thesis
      proof (cases "j = k")
        case True
        with ok Some p obtain i token where "K w = Armed i token" "mk = row_marker i"
          by (auto simp: may_post_def)
        with core_post [OF c w, of i token] Some p True show ?thesis
          by (simp add: log_post_def after_call_def)
      next
        case False
        then have "after_call k cl (K w) = K w"
          using Some p by (cases "K w") (simp_all add: after_call_def)
        with core_other_post [OF c, of p] Some p False show ?thesis
          by (simp add: log_post_def)
      qed
    qed
    with fence_resume [OF inv call_provider(2), of "W\<lparr>wo_posts := log_post cl (wo_posts W)\<rparr>"
        "after_call k cl (K w)" "q r"] f [OF call_provider(2)] call_provider show ?thesis by auto
  next
    case (heartbeat_end w q h)
    from fence_resume [OF inv heartbeat_end(2), of W "K w"] c f [OF heartbeat_end(2)] heartbeat_end
    show ?thesis by auto
  next
    case (beat i token drawn r L)
    from core_same_rows [OF c renew_quiet [OF beat(2) coreD(2) [OF c]]] inv beat show ?thesis
      by (auto simp: fence_inv_def)
  next
    case (retire locked m L)
    obtain P where "lg_rows L = filter P (lg_rows (wo_ledger W))"
      using retire_terminal_rows retire(2) by blast
    with core_same_rows [OF c quiet_filter [OF coreD(2) [OF c]], of P] inv retire show ?thesis
      by (auto simp: fence_inv_def)
  next
    case (reconnect cs)
    with inv show ?thesis by (auto simp: fence_inv_def)
  qed
qed

lemma fence_reachable: "world_reachable cred form patience W \<Longrightarrow> \<exists>K. fence_inv k W K"
proof (induction rule: world_reachable.induct)
  case (boot now)
  have "fence_inv k (empty_world now) (\<lambda>_. Idle)"
    by (simp add: fence_inv_def empty_world_def core_def)
  then show ?case by blast
next
  case (run_step W W')
  then show ?case using fence_step by blast
qed

lemma distinct_classes: "(\<And>k. distinct (filter (\<lambda>p. fst p = k) ps)) \<Longrightarrow> distinct ps"
proof (induction ps)
  case (Cons p ps)
  have "distinct (filter (\<lambda>q. fst q = k) ps)" for k
    using Cons.prems [of k] by (auto split: if_splits)
  moreover have "p \<notin> set ps" using Cons.prems [of "fst p"] by auto
  ultimately show ?case using Cons.IH by simp
qed simp

lemma posts_at_most_once:
  assumes "world_reachable cred form patience W"
  shows "distinct (wo_posts W)"
    and "(k, mk) \<in> set (wo_posts W) \<Longrightarrow> \<exists>i \<in> fst ` set (wo_inserted W). mk = row_marker i"
proof -
  have c: "\<exists>K. core k (length (wo_workers W)) (wo_drawn W) (fst ` set (wo_inserted W)) (lg_rows (wo_ledger W))
      (wo_posts W) K" for k
    using fence_reachable [OF assms] by (auto simp: fence_inv_def)
  show "distinct (wo_posts W)"
    by (rule distinct_classes) (use c coreD(8) in blast)
  show "\<exists>i \<in> fst ` set (wo_inserted W). mk = row_marker i" if "(k, mk) \<in> set (wo_posts W)"
    using c [of k] that unfolding core_def by blast
qed

end
