(* ===== verification/Mutation_Sample.thy ===== *)
theory Mutation_Sample
  imports Mutation_Fence
begin

text \<open>
  A run of the coordinator evaluated by hand: a request to create an item arrives, reserves its
  row, claims it, records the attempt and posts. The theorems about all runs are applied to it.
\<close>

subsection \<open>A run by hand\<close>

text \<open>
  The first worker alone, every answer a success, a provider that answers \<open>None\<close>: it stops after
  so many steps, or when the identities run out.
\<close>

fun drive :: "nat \<Rightarrow> string list \<Rightarrow> world \<Rightarrow> world" where
  "drive 0 xs W = W"
| "drive (Suc n) xs W =
     (case wk_prog (wo_workers W ! 0) of
        NewId k \<Rightarrow> (case xs of
            [] \<Rightarrow> W
          | x # r \<Rightarrow> drive n r (resume_with 0 (k x) (W\<lparr>wo_drawn := (x, 0) # wo_drawn W\<rparr>)))
      | Clock k \<Rightarrow> drive n xs (resume_with 0 (k (wo_now W)) W)
      | Txn t k \<Rightarrow>
          (case run_txn (wo_now W) t (wo_ledger W) of
             (TxnRow m b, L) \<Rightarrow> drive n xs (resume_with 0 (k (Inr m))
                (W\<lparr>wo_ledger := L, wo_inserted := new_rows (wo_ledger W) L @ wo_inserted W\<rparr>))
           | _ \<Rightarrow> W)
      | ReadTombstone s k \<Rightarrow>
          drive n xs (resume_with 0 (k (Inr (find_tombstone s (wo_ledger W)))) W)
      | Provider c k \<Rightarrow>
          drive n xs (resume_with 0 (k (Inr PNone)) (W\<lparr>wo_posts := log_post c (wo_posts W)\<rparr>))
      | _ \<Rightarrow> W)"

lemma resume_started:
  "v < length (wo_workers W) \<Longrightarrow>
   wk_started (wo_workers (resume_with w p W) ! v) = wk_started (wo_workers W ! v)"
  by (cases "v = w") (simp_all add: resume_with_def)

lemma drive_reachable:
  assumes "world_reachable cred form patience W" "0 < length (wo_workers W)"
    and "wo_now W \<le> wk_started (wo_workers W ! 0) + patience"
    and "distinct xs" "set xs \<inter> fst ` set (wo_drawn W) = {}"
  shows "world_reachable cred form patience (drive n xs W)"
  using assms
proof (induction n xs W rule: drive.induct)
  case (2 n xs W)
  have at: "awaits patience W 0 (wk_prog (wo_workers W ! 0))" using 2 by (simp add: awaits_def)
  have go: "world_reachable cred form patience W'" if "world_step cred form patience W W'" for W'
    using 2(6) that by (rule run_step)
  show ?case
  proof (cases "wk_prog (wo_workers W ! 0)")
    case (NewId k)
    show ?thesis
    proof (cases xs)
      case (Cons x r)
      with go [OF world_step.draw [of patience W 0 k x]] at NewId 2 show ?thesis
        by (auto simp: resume_started)
    qed (use 2 NewId in simp)
  next
    case (Clock k)
    with go [OF world_step.read_clock [of patience W 0 k]] at 2 show ?thesis by (simp add: resume_started)
  next
    case (Txn t k)
    obtain r L where run: "run_txn (wo_now W) t (wo_ledger W) = (r, L)" by fastforce
    show ?thesis
    proof (cases r)
      case (TxnRow m b)
      with go [OF world_step.transact [of patience W 0 t k "Inr m" L]] run txn_answer.answered [of "wo_now W" t] at Txn 2
      show ?thesis by (simp add: resume_started)
    qed (use run 2 Txn in simp_all)
  next
    case (ReadTombstone s k)
    with go [OF world_step.read_tombstone [of patience W 0 s k]] at 2 show ?thesis by (simp add: resume_started)
  next
    case (Provider c k)
    with go [OF world_step.call_provider [of patience W 0 c k]] at 2 show ?thesis by (simp add: resume_started)
  qed (use 2 in simp_all)
qed simp

subsection \<open>The sample request\<close>

definition no_secrets :: scanner where
  "no_secrets = (\<lambda>_ _ _ _. False)"

definition sample_request :: mutation_request where
  "sample_request = \<lparr>mr_identity = \<lparr>ci_consumer = ''svc'', ci_role = Admin, ci_scopes = []\<rparr>,
     mr_project = None, mr_connection = ''jira'', mr_version = Some 1, mr_key = ''k1''\<rparr>"

definition sample_form :: pyval where
  "sample_form = PDict [(''title'', PStr ''Login''), (''kind'', PStr ''story''),
     (''description'', PStr []), (''fields'', PDict [])]"

definition sample_payload :: pyval where
  "sample_payload = PDict [(''draft'', sample_form)]"

definition sample_tenant :: string where
  "sample_tenant = the (mutation_tenant_scope None)"

definition sample_hash :: string where
  "sample_hash = the (canonical_digest sample_payload)"

definition sample_scope :: mutation_scope where
  "sample_scope = \<lparr>ms_tenant = sample_tenant, ms_consumer = ''svc'',
     ms_connection = ''jira'', ms_operation = ''create'', ms_key = ''k1''\<rparr>"

definition sample_reservation :: reservation where
  "sample_reservation = \<lparr>rv_scope = sample_scope, rv_hash = sample_hash,
     rv_payload = sample_payload, rv_target = None, rv_project = None, rv_version = 1,
     rv_fields_status = StepSkipped, rv_comment_status = StepSkipped\<rparr>"

lemma scan_no_secrets [simp]: "\<not> scan no_secrets v"
  by (simp add: scan_def no_secrets_def)

lemma sample_no_fields [simp]: "fields_ok label (PDict [])"
proof -
  have "json_dumps False False False (PDict []) = Some ''{}''" by code_simp
  then show ?thesis
    by (simp add: fields_ok_def validate_json_object_def default_limits_def json_walk.simps utf8_def utf8_char_def)
qed

lemma sample_draft_form:
  "draft_form no_secrets [(''title'', PStr ''Login'')] = Some sample_form"
  by (simp add: draft_form_def with_default_def sample_form_def text_between_def nul_free_def)

lemma sample_form_form:
  "draft_form no_secrets [(''title'', PStr ''Login''), (''kind'', PStr ''story''),
     (''description'', PStr []), (''fields'', PDict [])] = Some sample_form"
  by (simp add: draft_form_def with_default_def sample_form_def text_between_def nul_free_def)

lemma sample_digests:
  "mutation_tenant_scope None = Some sample_tenant" "canonical_digest sample_payload = Some sample_hash"
  "lowercase_sha256 sample_tenant" "lowercase_sha256 sample_hash"
proof -
  have some: "canonical_digest v = Some (the (canonical_digest v)) \<and> lowercase_sha256 (the (canonical_digest v))"
    if "json_dumps True False False v \<noteq> None" for v
    using that by (auto simp: canonical_digest_def sha256_hex_lowercase)
  have "json_dumps True False False sample_payload \<noteq> None" by code_simp
  from some [OF this] show "canonical_digest sample_payload = Some sample_hash" "lowercase_sha256 sample_hash"
    by (simp_all add: sample_hash_def)
  have "json_dumps True False False (PDict [(''project_id'', optional_text None)]) \<noteq> None" by code_simp
  from some [OF this] show "mutation_tenant_scope None = Some sample_tenant" "lowercase_sha256 sample_tenant"
    by (simp_all add: sample_tenant_def mutation_tenant_scope_def)
qed

lemma sample_strips: "strip ''k1'' = ''k1''" "strip ''jira'' = ''jira''" "strip ''svc'' = ''svc''"
  by code_simp+

lemma sample_make_scope:
  "make_scope no_secrets (mr_identity sample_request) None ''jira'' ''create'' ''k1'' = Inr sample_scope"
proof -
  have "scope_text_error no_secrets ''Idempotency-Key'' 255 ''k1'' = None"
    "scope_text_error no_secrets ''resolved work-tracking connection id'' 32 ''jira'' = None"
    "scope_text_error no_secrets ''consumer id'' 255 ''svc'' = None"
    by (simp_all add: scope_text_error_def sample_strips)
  then show ?thesis
    by (simp add: make_scope_def sample_request_def project_operator_def at_least_def is_unscoped_def
        sample_scope_def sample_digests)
qed

lemma sample_create_reservation:
  "create_reservation no_secrets sample_request [(''title'', PStr ''Login'')] = Inr sample_reservation"
proof -
  have "draft_payload no_secrets [(''title'', PStr ''Login'')] = Inr sample_payload"
    by (simp add: draft_payload_def sample_draft_form sample_payload_def)
  then show ?thesis
    using sample_make_scope
    by (simp add: create_reservation_def build_reservation_def sample_request_def sample_reservation_def
        hash_of_def sample_digests)
qed

lemma sample_valid:
  "validate_reservation no_secrets sample_scope sample_hash sample_payload
     None None StepSkipped StepSkipped = Inr ()"
proof -
  have "identifier_error no_secrets ''work-item mutation consumer id'' 255 False False ''svc'' = None"
    "identifier_error no_secrets ''work-item mutation connection id'' 32 False False ''jira'' = None"
    "identifier_error no_secrets ''work-item mutation idempotency key'' 255 False True ''k1'' = None"
    by (simp_all add: identifier_error_def nul_free_def sample_strips)
  moreover have "validate_json_object ''work-item mutation payload'' default_limits sample_payload = Inr ()"
  proof -
    obtain t where t: "json_dumps False False False sample_payload = Some t" "length (utf8 t) \<le> 80"
    proof
      show "json_dumps False False False sample_payload = Some ''{\"draft\":{\"title\":\"Login\",\"kind\":\"story\",\"description\":\"\",\"fields\":{}}}''"
        by code_simp
    qed code_simp
    then show ?thesis
      by (simp add: validate_json_object_def default_limits_def json_walk.simps sample_payload_def sample_form_def nul_free_def)
  qed
  moreover have "py_eq sample_payload sample_payload" by code_simp
  moreover have "payload_form no_secrets ''create'' sample_payload = Some [(''draft'', sample_form)]"
    by (simp add: payload_form_def sample_payload_def dget_def)
       (simp add: sample_form_def sample_form_form)
  moreover have "payload_digest sample_payload = Inr sample_hash"
    using calculation by (simp add: payload_digest_def sample_digests)
  ultimately have "validated_mutation_payload no_secrets sample_scope sample_hash sample_payload None
      = Inr [(''draft'', sample_form)]"
    using sample_digests
    by (simp add: validated_mutation_payload_def sample_scope_def sample_payload_def)
  then show ?thesis
    by (simp add: validate_reservation_def sample_scope_def expected_target_def)
qed

definition sample_adapter :: adapter where
  "sample_adapter = \<lparr>ad_read_only = False, ad_idempotent = True\<rparr>"

definition sample_program :: "unit prog" where
  "sample_program = program_of no_secrets Some (Create sample_adapter sample_request [(''title'', PStr ''Login'')])"

text \<open>A request has arrived at a deployment with one stub connection.\<close>

definition sample_world :: world where
  "sample_world = \<lparr>wo_now = 0,
     wo_ledger = \<lparr>lg_rows = [], lg_tombstones = [],
       lg_connections = [(''jira'', \<lparr>cn_kind = ''work_tracking'', cn_provider = ''stub'', cn_project = None,
                                     cn_enabled = True, cn_runtime_version = 1\<rparr>)]\<rparr>,
     wo_workers = [\<lparr>wk_started = 0, wk_prog = sample_program\<rparr>],
     wo_drawn = [], wo_posts = [], wo_inserted = []\<rparr>"

lemma sample_world_reachable: "world_reachable no_secrets Some patience sample_world"
proof -
  have "world_reachable no_secrets Some patience (empty_world 0)" by (rule boot)
  from run_step [OF this reconnect] have
    "world_reachable no_secrets Some patience (sample_world\<lparr>wo_workers := []\<rparr>)"
    by (fastforce simp: empty_world_def sample_world_def)
  from run_step [OF this arrive [where q = "Create sample_adapter sample_request [(''title'', PStr ''Login'')]"]]
  show ?thesis by (simp add: sample_world_def sample_program_def del: program_of.simps)
qed

lemma sample_program_run:
  "sample_program = forget (pbind (reserve no_secrets sample_reservation) (run_row no_secrets Some sample_adapter True))"
  by (simp add: sample_program_def service_create_def require_adapter_def adapter_error_def
      sample_adapter_def sample_create_reservation raise_on_def)

lemma sample_parts:
  "ms_connection sample_scope = ''jira''" "ms_operation sample_scope = ''create''"
  "sample_payload = PDict [(''draft'', sample_form)]"
  "sample_form = PDict [(''title'', PStr ''Login''), (''kind'', PStr ''story''),
     (''description'', PStr []), (''fields'', PDict [])]"
  by (simp_all add: sample_scope_def sample_payload_def sample_form_def)

text \<open>It reserves the row, claims it, finds no item, records the attempt and posts.\<close>

lemma sample_posts:
  "wo_posts (drive 12 [''a'', ''t''] sample_world) = [(CreatePost, row_marker ''a'')]"
  "wo_inserted (drive 12 [''a'', ''t''] sample_world) = [(''a'', sample_scope)]"
  by (simp_all add: sample_world_def sample_program_run forget_def reserve_def sample_reservation_def sample_valid [unfolded sample_parts(3,4)]
      find_scope_def find_tombstone_def resume_with_def with_recovery_def mutation_for_def new_mutation_def Let_def
      insert_mutation_def connection_error_def new_rows_def eval_nat_numeral sample_parts(1,2)
      run_row_def replay_def require_adapter_def adapter_error_def sample_adapter_def claim_def on_row_def
      find_row_def claim_row_def leased_def terminal_def put_row_def row_reply_def run_claimed_def with_heartbeat_def
      execute_def execute_create_def log_post_def sample_parts(3,4) dget_def sample_form_form [unfolded sample_parts(4)] run_validator_def
      lease_transition_def transition_row_def op_owner_only_def owns_def create_post_def row_marker_def)

lemma sample_run_reachable:
  "world_reachable no_secrets Some 30000000 (drive 12 [''a'', ''t''] sample_world)"
  by (rule drive_reachable [OF sample_world_reachable]) (simp_all add: sample_world_def)

end
