(* ===== verification/Mutation_Once.thy ===== *)
theory Mutation_Once
  imports Mutation_Sample
begin

text \<open>
  One row for each idempotency key, for ever: while a request is not kept longer than retired rows
  are, a key that has had a row never has another, and so its mutation is posted at most once.
\<close>

subsection \<open>One row for each key\<close>

text \<open>
  What a reservation has seen of its scope: no row; then no tombstone either.
\<close>

datatype seen = Unseen | NoRow mutation_scope | NoTomb mutation_scope

definition see :: "txn \<Rightarrow> failure + mutation option \<Rightarrow> seen \<Rightarrow> seen" where
  "see t r kn =
     (case t of
        GetByScope s \<Rightarrow> if r = Inr None then NoRow s else Unseen
      | InsertRow m \<Rightarrow> Unseen
      | _ \<Rightarrow> kn)"

definition reserved_scope :: "txn \<Rightarrow> seen \<Rightarrow> bool" where
  "reserved_scope t kn = (case t of InsertRow m \<Rightarrow> kn = NoTomb (m_scope m) | _ \<Rightarrow> True)"

definition see_tombstone :: "mutation_scope \<Rightarrow> failure + tombstone option \<Rightarrow> seen \<Rightarrow> seen" where
  "see_tombstone s r kn = (if r = Inr None \<and> kn = NoRow s then NoTomb s else Unseen)"

definition guard :: "seen analysis" where
  "guard = \<lparr>an_id = (\<lambda>x kn. kn), an_txn_ok = reserved_scope, an_txn = see,
           an_tombstone = see_tombstone, an_call_ok = (\<lambda>c kn. True), an_call = (\<lambda>c kn. kn)\<rparr>"

lemma guard_simps [simp]:
  "an_id guard x kn = kn"
  "an_txn_ok guard = reserved_scope"
  "an_txn guard = see"
  "an_tombstone guard = see_tombstone"
  "an_call_ok guard c kn"
  "an_call guard c kn = kn"
  by (simp_all add: guard_def)

lemma reserved_scope_simps [simp]:
  "reserved_scope (GetByScope s) kn" "reserved_scope (GetRow i) kn"
  "reserved_scope (ClaimRow i token now b) kn" "reserved_scope (Transition i token now act) kn"
  "reserved_scope (DeferRow i now body delay) kn"
  "reserved_scope (InsertRow m) kn \<longleftrightarrow> kn = NoTomb (m_scope m)"
  by (simp_all add: reserved_scope_def)

lemma guard_transition [simp]: "harmless guard (lease_transition i token act)"
  unfolding lease_transition_def by (intro harmless_awaits harmless_recovery) simp_all

lemma guard_claim [simp]: "harmless guard (claim i b)"
  unfolding claim_def by (intro harmless_awaits harmless_recovery) simp_all

lemma guard_complete_item [simp]: "harmless guard (complete_item form i token item)"
  by (auto simp: complete_item_def complete_def split: option.split sum.split)

lemma guard_settle [simp]: "harmless guard (settle_failure m token e)"
proof -
  have "harmless guard (release_then m token e)"
    unfolding release_then_def by (intro harmless_bind harmless_catch harmless_if) simp_all
  then show ?thesis by (auto simp: settle_failure_def split: failure.split)
qed

lemma guard_permanent_call: "(\<And>v. harmless guard (f v)) \<Longrightarrow> harmless guard (permanent_call c f)"
  unfolding permanent_call_def
  by (rule harmless_awaits) (auto split: sum.split failure.split)

lemma guard_validator [simp]: "harmless guard (run_validator c)"
  unfolding run_validator_def
  by (rule harmless_awaits) (auto split: sum.split failure.split exn.split)

lemma guard_execute_create [simp]: "harmless guard (execute_create cred form m token)"
proof -
  have "harmless guard (create_post form r token d)" for r d
    unfolding create_post_def by (rule harmless_awaits) (auto split: sum.split failure.split)
  then show ?thesis
    unfolding execute_create_def
    by (intro harmless_awaits) (auto intro!: harmless_bind split: sum.split pyval.split option.split)
qed

lemma guard_execute_enrich [simp]: "harmless guard (execute_enrich cred form m token)"
proof -
  have "harmless guard (comment_post r key body)" for r key body
    unfolding comment_post_def by (rule harmless_awaits) (auto split: sum.split failure.split)
  then have "harmless guard (enrich_comment r token key c)" for r key c
    by (auto simp: enrich_comment_def intro!: guard_permanent_call harmless_bind split: pyval.split)
  moreover have "harmless guard (read_enriched form r token key)" for r key
    unfolding read_enriched_def by (rule harmless_awaits) (auto split: sum.split option.split)
  moreover have "harmless guard (enrich_fields r token key fs)" for r key fs
    by (auto simp: enrich_fields_def intro!: guard_permanent_call harmless_bind)
  ultimately show ?thesis
    by (auto simp: execute_enrich_def intro!: harmless_bind split: option.split pyval.split)
qed

lemma guard_run_row [simp]: "harmless guard (run_row cred form a foreground m)"
proof -
  have "harmless guard (execute cred form r token)" for r token by (simp add: execute_def)
  then have "harmless guard (run_claimed cred form r)" for r
    by (auto simp: run_claimed_def replay_def intro!: harmless_catch harmless_heartbeat split: option.split)
  then show ?thesis
    by (auto simp: run_row_def replay_def require_adapter_def intro!: harmless_bind split: option.split)
qed

lemma guard_reserve [simp]: "harmless guard (reserve cred q)"
proof (rule harmlessI)
  fix kn
  have scope: "m_scope (mutation_for q i) = rv_scope q" for i
    by (simp add: mutation_for_def new_mutation_def)
  have "wp guard (\<lambda>_ _. True) (\<lambda>_ _. True)
      (NewId (\<lambda>i. with_recovery (InsertRow (mutation_for q i)) (GetByScope (rv_scope q)) (existing_for q)))
      (NoTomb (rv_scope q))"
    using scope harmlessD [OF harmless_existing, of guard q]
    by (auto simp: with_recovery_def split: sum.split option.split)
  then show "wp guard (\<lambda>_ _. True) (\<lambda>_ _. True) (reserve cred q) kn"
    using harmlessD [OF harmless_existing, of guard q]
    by (auto simp: reserve_def see_def see_tombstone_def split: sum.split option.split)
qed

lemma guard_reconcile [simp]: "harmless guard (reconcile_rows cred form resolve is)"
proof -
  have "harmless guard (defer_resolution i body)" for i body
    unfolding defer_resolution_def read_row_def
    by (intro harmless_awaits) (auto split: sum.split option.split intro!: harmless_awaits)
  then have "harmless guard (defer_quietly i e)" for i e
    by (auto simp: defer_quietly_def intro!: harmless_catch harmless_bind
        split: failure.split ledger_error.split)
  moreover have "harmless guard (resume_row cred form a i)" for a i
    unfolding resume_row_def read_row_def
    by (intro harmless_awaits) (auto split: sum.split option.split)
  ultimately have "harmless guard (reconcile_row cred form resolve i)" for i
    unfolding reconcile_row_def read_row_def
    by (intro harmless_awaits)
       (auto split: sum.split option.split intro!: harmless_catch harmless_bind)
  then show ?thesis by (induction "is") (auto intro!: harmless_bind)
qed

lemma guard_program: "harmless guard (program_of cred form q)"
  by (cases q)
     (auto simp: forget_def service_create_def service_enrich_def require_adapter_def raise_on_def
       split: option.split sum.split intro!: harmless_bind)

definition row_key :: "mutation \<Rightarrow> string \<times> mutation_scope" where
  "row_key m = (m_id m, m_scope m)"

lemma decision_key:
  "claim_row tm token b m = Inr (m', c) \<Longrightarrow> row_key m' = row_key m"
  "transition_row tm token act m = Inr (m', c) \<Longrightarrow> row_key m' = row_key m"
  "defer_row tm body delay m = Inr (m', c) \<Longrightarrow> row_key m' = row_key m"
proof -
  show "transition_row tm token act m = Inr (m', c) \<Longrightarrow> row_key m' = row_key m"
    by (cases act) (auto simp: transition_row_def row_key_def split: if_splits)
qed (auto simp: claim_row_def defer_row_def row_key_def split: if_splits)

text \<open>What a transaction other than an insertion leaves as it was.\<close>

definition same_keys :: "int \<Rightarrow> ledger \<Rightarrow> ledger \<Rightarrow> bool" where
  "same_keys now L L' \<longleftrightarrow> lg_tombstones L' = lg_tombstones L
     \<and> map row_key (lg_rows L') = map row_key (lg_rows L)
     \<and> (\<forall>m \<in> set (lg_rows L'). m \<in> set (lg_rows L) \<or> m_updated_at m = now)"

lemma same_keys_refl: "same_keys now L L"
  by (simp add: same_keys_def)

lemma same_keys_put:
  assumes "distinct (map m_id (lg_rows L))" "find_row i L = Some m" "row_key m' = row_key m"
  shows "same_keys now L (put_row now m' L)"
proof -
  have "row_key (if m_id r = m_id m' then m'\<lparr>m_updated_at := now\<rparr> else r) = row_key r"
    if "r \<in> set (lg_rows L)" for r
    using same_row [OF assms(1) that, of m] find_rowD [OF assms(2)] assms(3) by (auto simp: row_key_def)
  then show ?thesis by (auto simp: same_keys_def put_row_def)
qed

lemma txn_same_keys:
  assumes run: "run_txn now t L = (TxnRow r b, L')" and d: "distinct (map m_id (lg_rows L))"
    and t: "\<And>m. t \<noteq> InsertRow m"
  shows "same_keys now L L'"
proof (cases t)
  case (ClaimRow i token tm ig)
  then obtain m m' where "find_row i L = Some m" "claim_row tm token ig m = Inr (m', b)"
    "L' = (if b then put_row now m' L else L)"
    using row_reply_row run by (metis run_txn.simps(4))
  with same_keys_put [OF d] decision_key(1) same_keys_refl show ?thesis by auto
next
  case (Transition i token tm act)
  then obtain m m' where "find_row i L = Some m" "transition_row tm token act m = Inr (m', b)"
    "L' = (if b then put_row now m' L else L)"
    using row_reply_row run by (metis run_txn.simps(5))
  with same_keys_put [OF d] decision_key(2) same_keys_refl show ?thesis by auto
next
  case (DeferRow i tm body delay)
  then obtain m m' where "find_row i L = Some m" "defer_row tm body delay m = Inr (m', b)"
    "L' = (if b then put_row now m' L else L)"
    using row_reply_row run by (metis run_txn.simps(6))
  with same_keys_put [OF d] decision_key(3) same_keys_refl show ?thesis by auto
qed (use run t same_keys_refl in auto)

lemma answer_same_keys:
  assumes "txn_answer now L t r L'" "distinct (map m_id (lg_rows L))" "\<And>m. t \<noteq> InsertRow m"
  shows "same_keys now L L'"
  using assms(1)
proof cases
  case (answered m b)
  with txn_same_keys [OF _ assms(2,3)] show ?thesis by blast
next
  case (ack_lost m e)
  with txn_same_keys [OF _ assms(2,3)] show ?thesis by blast
qed (simp_all add: same_keys_refl)

lemma insert_row_txn:
  assumes "run_txn now (InsertRow m) L = (TxnRow r b, L')"
  shows "lg_tombstones L' = lg_tombstones L
    \<and> lg_rows L' = lg_rows L @ [m\<lparr>m_created_at := now, m_updated_at := now\<rparr>]
    \<and> m_scope m \<notin> m_scope ` set (lg_rows L) \<and> m_id m \<notin> m_id ` set (lg_rows L)"
proof -
  let ?m = "m\<lparr>m_created_at := now, m_updated_at := now\<rparr>"
  obtain L1 where L1: "insert_mutation ?m L = Some (Inr L1)" "L' = L1"
    using assms by (auto simp: Let_def split: option.splits sum.splits)
  then have "L1 = L\<lparr>lg_rows := lg_rows L @ [?m]\<rparr>"
    "\<not> list_ex (\<lambda>r. m_scope r = m_scope ?m \<or> m_id r = m_id ?m) (lg_rows L)"
    unfolding insert_mutation_def by (simp_all split: option.splits if_splits)
  with L1(2) show ?thesis by (auto simp: list_ex_iff)
qed

lemma insert_answer:
  assumes "txn_answer now L (InsertRow m) r L'"
  shows "L' = L \<or> (lg_tombstones L' = lg_tombstones L
    \<and> lg_rows L' = lg_rows L @ [m\<lparr>m_created_at := now, m_updated_at := now\<rparr>]
    \<and> m_scope m \<notin> m_scope ` set (lg_rows L) \<and> m_id m \<notin> m_id ` set (lg_rows L))"
  using assms
proof cases
  case (answered m' b)
  from insert_row_txn [OF answered(2)] show ?thesis by (rule disjI2)
next
  case (ack_lost m' e)
  from insert_row_txn [OF ack_lost(2)] show ?thesis by (rule disjI2)
qed simp_all

lemma same_keys_set:
  assumes "same_keys now L L'"
  shows "row_key ` set (lg_rows L') = row_key ` set (lg_rows L)"
proof -
  have "set (map row_key (lg_rows L')) = set (map row_key (lg_rows L))"
    using assms unfolding same_keys_def by simp
  then show ?thesis by (simp only: list.set_map)
qed

lemma ids_of_keys: "fst ` row_key ` A = m_id ` A" "snd ` row_key ` A = m_scope ` A"
  by (simp_all add: image_image row_key_def)

lemma new_rows_same:
  assumes "same_keys now L L'"
  shows "new_rows L L' = []"
proof -
  have "m_id ` set (lg_rows L') = m_id ` set (lg_rows L)"
    using same_keys_set [OF assms] ids_of_keys(1) by metis
  then have "m_id m \<in> m_id ` set (lg_rows L)" if "m \<in> set (lg_rows L')" for m
    using that by blast
  then show ?thesis unfolding new_rows_def by (simp add: filter_empty_conv)
qed

text \<open>The invariant: every inserted scope has its row or its tombstone.\<close>

definition sees :: "int \<Rightarrow> mutation list \<Rightarrow> mutation_scope set \<Rightarrow> int \<Rightarrow> seen \<Rightarrow> bool" where
  "sees now rows born started kn =
     (case kn of
        Unseen \<Rightarrow> True
      | NoRow s \<Rightarrow> \<forall>m \<in> set rows. m_scope m = s \<longrightarrow> started \<le> m_updated_at m
      | NoTomb s \<Rightarrow> (\<forall>m \<in> set rows. m_scope m = s \<longrightarrow> started \<le> m_updated_at m)
          \<and> (s \<in> born \<longrightarrow> s \<notin> m_scope ` set rows \<longrightarrow> started + TERMINAL_REPLAY_RETENTION < now))"

definition key_bound :: "int \<Rightarrow> ledger \<Rightarrow> (string \<times> mutation_scope) list \<Rightarrow> bool" where
  "key_bound now L born \<longleftrightarrow>
     (\<forall>m \<in> set (lg_rows L). m_updated_at m \<le> now \<and> row_key m \<in> set born)
     \<and> distinct (map snd born)
     \<and> (\<forall>s \<in> snd ` set born. s \<in> m_scope ` set (lg_rows L) \<or> find_tombstone s L \<noteq> None)"

definition scope_inv :: "world \<Rightarrow> (nat \<Rightarrow> seen) \<Rightarrow> bool" where
  "scope_inv W K \<longleftrightarrow>
     key_bound (wo_now W) (wo_ledger W) (wo_inserted W)
     \<and> (\<forall>w < length (wo_workers W). wk_started (wo_workers W ! w) \<le> wo_now W
          \<and> wp guard (\<lambda>_ _. True) (\<lambda>_ _. True) (wk_prog (wo_workers W ! w)) (K w)
          \<and> sees (wo_now W) (lg_rows (wo_ledger W)) (snd ` set (wo_inserted W))
              (wk_started (wo_workers W ! w)) (K w))"

lemma scope_of_key: "row_key ` A = row_key ` B \<Longrightarrow> m_scope ` A = m_scope ` B"
proof -
  assume "row_key ` A = row_key ` B"
  then have "snd ` row_key ` A = snd ` row_key ` B" by simp
  then show ?thesis by (simp add: image_image row_key_def)
qed

lemma key_bound_same:
  assumes "key_bound now L born" "same_keys now L L'"
  shows "key_bound now L' born"
proof -
  have keys: "row_key ` set (lg_rows L') = row_key ` set (lg_rows L)" by (rule same_keys_set [OF assms(2)])
  have tomb: "find_tombstone s L' = find_tombstone s L" for s
    using assms(2) by (simp add: same_keys_def find_tombstone_def)
  have "m_updated_at m \<le> now" if "m \<in> set (lg_rows L')" for m
    using that assms unfolding key_bound_def same_keys_def by fastforce
  moreover have "row_key m \<in> set born" if "m \<in> set (lg_rows L')" for m
  proof -
    have "row_key m \<in> row_key ` set (lg_rows L)" using that keys by blast
    then obtain r where "r \<in> set (lg_rows L)" "row_key m = row_key r" by blast
    with assms(1) show ?thesis by (simp add: key_bound_def)
  qed
  moreover have "s \<in> m_scope ` set (lg_rows L') \<or> find_tombstone s L' \<noteq> None" if "s \<in> snd ` set born" for s
    using that assms(1) scope_of_key [OF keys] tomb [of s] unfolding key_bound_def by metis
  ultimately show ?thesis using assms(1) unfolding key_bound_def by blast
qed

lemma sees_same:
  assumes "sees now (lg_rows L) born st kn" "same_keys now L L'" "st \<le> now"
  shows "sees now (lg_rows L') born st kn"
proof -
  have "st \<le> m_updated_at m" if "\<forall>m \<in> set (lg_rows L). m_scope m = s \<longrightarrow> st \<le> m_updated_at m"
    "m \<in> set (lg_rows L')" "m_scope m = s" for s m
    using that assms(2,3) by (auto simp: same_keys_def)
  moreover have "m_scope ` set (lg_rows L') = m_scope ` set (lg_rows L)"
    by (rule scope_of_key [OF same_keys_set [OF assms(2)]])
  ultimately show ?thesis
    using assms(1) by (auto simp: sees_def split: seen.splits)
qed

text \<open>The passing of time.\<close>

lemma key_bound_later: "key_bound now L born \<Longrightarrow> now \<le> now' \<Longrightarrow> key_bound now' L born"
  unfolding key_bound_def by fastforce

lemma sees_later: "sees now rows born st kn \<Longrightarrow> now \<le> now' \<Longrightarrow> sees now' rows born st kn"
  by (cases kn) (fastforce simp: sees_def)+

text \<open>An insertion of a scope that has never been inserted.\<close>

lemma key_bound_insert:
  assumes "key_bound now L born" "s \<notin> snd ` set born" "m_updated_at m = now" "m_scope m = s"
    and "lg_rows L' = lg_rows L @ [m]" "lg_tombstones L' = lg_tombstones L"
  shows "key_bound now L' ((m_id m, s) # born)"
  using assms by (auto simp: key_bound_def find_tombstone_def row_key_def)

lemma sees_insert:
  assumes "sees now rows born st kn" "st \<le> m_updated_at m"
  shows "sees now (rows @ [m]) (insert (m_scope m) born) st kn"
  using assms by (auto simp: sees_def split: seen.splits)

text \<open>Retirement leaves a tombstone for each row that it removes.\<close>

lemma retire_row_tombs:
  assumes "retire_row m L = Inr L'"
  shows "find_tombstone (m_scope m) L' \<noteq> None" "find_tombstone s L \<noteq> None \<Longrightarrow> find_tombstone s L' \<noteq> None"
  using assms by (auto simp: retire_row_def find_tombstone_def Let_def split: option.splits if_splits)

lemma retire_rows_tombs:
  "rfold retire_row ms L = Inr L' \<Longrightarrow>
   (\<forall>s. find_tombstone s L \<noteq> None \<longrightarrow> find_tombstone s L' \<noteq> None)
   \<and> (\<forall>m \<in> set ms. find_tombstone (m_scope m) L' \<noteq> None)"
proof (induction ms arbitrary: L)
  case (Cons m ms)
  then obtain L1 where L1: "retire_row m L = Inr L1" "rfold retire_row ms L1 = Inr L'"
    by (auto simp: rbind_Inr_iff)
  from Cons.IH [OF L1(2)] retire_row_tombs [OF L1(1)] show ?case by (metis set_ConsD)
qed simp

lemma retire_kept:
  assumes retire: "retire_terminal cutoff bound locked L = Inr (c, L')"
    and d: "distinct (map m_id (lg_rows L))"
  shows "set (lg_rows L') \<subseteq> set (lg_rows L)"
    and "find_tombstone s L \<noteq> None \<Longrightarrow> find_tombstone s L' \<noteq> None"
    and "m \<in> set (lg_rows L) \<Longrightarrow>
      m \<in> set (lg_rows L') \<or> m_updated_at m < cutoff \<and> find_tombstone (m_scope m) L' \<noteq> None"
proof -
  obtain ms where ms: "rfold retire_row ms L = Inr L'"
    and old: "set ms \<subseteq> {m \<in> set (lg_rows L). m_updated_at m < cutoff}"
  proof
    let ?batch = "take bound (sort_key m_updated_at (sort_key m_id
      (filter (\<lambda>m. terminal (m_status m) \<and> m_updated_at m < cutoff \<and> \<not> locked m) (lg_rows L))))"
    show "rfold retire_row ?batch L = Inr L'"
      using retire by (auto simp: retire_terminal_def Let_def rbind_Inr_iff)
    show "set ?batch \<subseteq> {m \<in> set (lg_rows L). m_updated_at m < cutoff}"
      by (rule subset_trans [OF set_take_subset]) auto
  qed
  note rows = retire_rows_filter [OF ms] and tombs = retire_rows_tombs [OF ms]
  from rows show "set (lg_rows L') \<subseteq> set (lg_rows L)" by simp
  from tombs show "find_tombstone s L \<noteq> None \<Longrightarrow> find_tombstone s L' \<noteq> None" by blast
  show "m \<in> set (lg_rows L') \<or> m_updated_at m < cutoff \<and> find_tombstone (m_scope m) L' \<noteq> None"
    if m: "m \<in> set (lg_rows L)"
  proof (cases "m_id m \<in> m_id ` set ms")
    case True
    then obtain r where r: "r \<in> set ms" "m_id m = m_id r" by blast
    with old have "r \<in> set (lg_rows L)" by blast
    from same_row [OF d m this r(2)] r(1) old tombs show ?thesis by blast
  next
    case False
    with m rows show ?thesis by simp
  qed
qed

lemma key_bound_retire:
  assumes "key_bound now L born" "retire_terminal cutoff bound locked L = Inr (c, L')"
    and "distinct (map m_id (lg_rows L))"
  shows "key_bound now L' born"
proof -
  note kept = retire_kept [OF assms(2,3)]
  have "s \<in> m_scope ` set (lg_rows L') \<or> find_tombstone s L' \<noteq> None" if "s \<in> snd ` set born" for s
  proof (cases "s \<in> m_scope ` set (lg_rows L)")
    case True
    then obtain m where "m \<in> set (lg_rows L)" "m_scope m = s" by blast
    with kept(3) [OF this(1)] show ?thesis by blast
  next
    case False
    with assms(1) that kept(2) show ?thesis unfolding key_bound_def by blast
  qed
  with assms(1) kept(1) show ?thesis unfolding key_bound_def by blast
qed

lemma sees_retire:
  assumes "sees now (lg_rows L) born st kn"
    and "retire_terminal (now - TERMINAL_REPLAY_RETENTION) bound locked L = Inr (c, L')"
    and "distinct (map m_id (lg_rows L))"
  shows "sees now (lg_rows L') born st kn"
proof (cases kn)
  case (NoTomb s)
  note kept = retire_kept [OF assms(2,3)]
  have rows: "\<forall>m \<in> set (lg_rows L). m_scope m = s \<longrightarrow> st \<le> m_updated_at m"
    and old: "s \<in> born \<longrightarrow> s \<notin> m_scope ` set (lg_rows L) \<longrightarrow> st + TERMINAL_REPLAY_RETENTION < now"
    using assms(1) NoTomb by (simp_all add: sees_def)
  have "st + TERMINAL_REPLAY_RETENTION < now" if "s \<in> born" "s \<notin> m_scope ` set (lg_rows L')"
  proof (cases "s \<in> m_scope ` set (lg_rows L)")
    case True
    then obtain m where m: "m \<in> set (lg_rows L)" "m_scope m = s" by blast
    have "m \<notin> set (lg_rows L')" using m(2) that(2) by blast
    with kept(3) [OF m(1)] have "m_updated_at m < now - TERMINAL_REPLAY_RETENTION" by blast
    moreover have "st \<le> m_updated_at m" using rows m by blast
    ultimately show ?thesis by linarith
  next
    case False
    with old that(1) show ?thesis by blast
  qed
  with rows kept(1) NoTomb show ?thesis by (auto simp: sees_def)
qed (use assms(1) retire_kept(1) [OF assms(2,3)] in \<open>auto simp: sees_def\<close>)

text \<open>What the reads of a reservation show.\<close>

lemma scope_answer:
  assumes "txn_answer now L (GetByScope s) (Inr None) L'"
  shows "L' = L" "s \<notin> m_scope ` set (lg_rows L)"
  using assms by (auto elim!: txn_answer.cases simp: find_scope_def find_None_iff)

lemma sees_scope:
  assumes ans: "txn_answer now L (GetByScope s) r L'"
  shows "sees now (lg_rows L') born st (see (GetByScope s) r kn)"
proof (cases "r = Inr None")
  case True
  with scope_answer [OF ans [unfolded True]] show ?thesis by (auto simp: see_def sees_def)
qed (simp add: see_def sees_def)

lemma sees_tombstone:
  assumes "key_bound now L born" "sees now (lg_rows L) (snd ` set born) st kn"
    and "r = Inr (find_tombstone s L) \<or> r \<in> {Inl DbFailure, Inl Cancelled}"
  shows "sees now (lg_rows L) (snd ` set born) st (see_tombstone s r kn)"
proof (cases "r = Inr None \<and> kn = NoRow s")
  case True
  with assms(3) have "find_tombstone s L = None" by auto
  with assms(1) have "s \<in> m_scope ` set (lg_rows L)" if "s \<in> snd ` set born"
    using that unfolding key_bound_def by blast
  with assms(2) True show ?thesis by (simp add: see_tombstone_def sees_def)
qed (auto simp: see_tombstone_def sees_def)

lemma key_bound_fresh:
  assumes "key_bound now L born" "sees now (lg_rows L) (snd ` set born) st (NoTomb s)"
    and "s \<notin> m_scope ` set (lg_rows L)" "now \<le> st + patience" "patience \<le> TERMINAL_REPLAY_RETENTION"
  shows "s \<notin> snd ` set born"
  using assms(2-5) by (auto simp: sees_def)

lemma new_rows_insert:
  "lg_rows L' = lg_rows L @ [m\<lparr>m_created_at := t, m_updated_at := t\<rparr>] \<Longrightarrow> m_id m \<notin> m_id ` set (lg_rows L) \<Longrightarrow>
   new_rows L L' = [(m_id m, m_scope m)]"
  by (auto simp: new_rows_def filter_empty_conv)

lemma scope_txn:
  assumes inv: "key_bound now L born" and d: "distinct (map m_id (lg_rows L))"
    and ok: "reserved_scope t kn" and kn: "sees now (lg_rows L) (snd ` set born) st kn"
    and ans: "txn_answer now L t r L'" and time: "now \<le> st + patience" "patience \<le> TERMINAL_REPLAY_RETENTION"
    and st: "st \<le> now"
  shows "key_bound now L' (new_rows L L' @ born)"
    and "sees now (lg_rows L') (snd ` set (new_rows L L' @ born)) st (see t r kn)"
    and "st' \<le> now \<Longrightarrow> sees now (lg_rows L) (snd ` set born) st' kn' \<Longrightarrow>
      sees now (lg_rows L') (snd ` set (new_rows L L' @ born)) st' kn'"
proof -
  have same: "key_bound now L' (new_rows L L' @ born)"
    "\<And>st' kn'. st' \<le> now \<Longrightarrow> sees now (lg_rows L) (snd ` set born) st' kn' \<Longrightarrow>
      sees now (lg_rows L') (snd ` set (new_rows L L' @ born)) st' kn'"
    if "same_keys now L L'"
    using that new_rows_same [OF that] key_bound_same [OF inv that] sees_same [OF _ that] by simp_all
  have all: "key_bound now L' (new_rows L L' @ born)
    \<and> sees now (lg_rows L') (snd ` set (new_rows L L' @ born)) st (see t r kn)
    \<and> (\<forall>st' kn'. st' \<le> now \<longrightarrow> sees now (lg_rows L) (snd ` set born) st' kn' \<longrightarrow>
        sees now (lg_rows L') (snd ` set (new_rows L L' @ born)) st' kn')"
  proof (cases t)
    case (GetByScope s)
    from answer_same_keys [OF ans d] GetByScope have "same_keys now L L'" by simp
    from same [OF this] sees_scope [OF ans [unfolded GetByScope]] GetByScope show ?thesis by simp
  next
    case (InsertRow m)
    have unseen: "see t r kn = Unseen" using InsertRow by (simp add: see_def)
    from insert_answer [OF ans [unfolded InsertRow]] show ?thesis
    proof (elim disjE conjE)
      assume "L' = L"
      with same [of] same_keys_refl [of now L] unseen show ?thesis by (auto simp: sees_def)
    next
      assume tomb: "lg_tombstones L' = lg_tombstones L"
        and rows: "lg_rows L' = lg_rows L @ [m\<lparr>m_created_at := now, m_updated_at := now\<rparr>]"
        and new: "m_scope m \<notin> m_scope ` set (lg_rows L)" "m_id m \<notin> m_id ` set (lg_rows L)"
      let ?m = "m\<lparr>m_created_at := now, m_updated_at := now\<rparr>"
      have "kn = NoTomb (m_scope m)" using ok InsertRow by simp
      from key_bound_fresh [OF inv kn [unfolded this] new(1) time]
      have "key_bound now L' ((m_id ?m, m_scope m) # born)"
        by (intro key_bound_insert [OF inv]) (use rows tomb in simp_all)
      moreover have "new_rows L L' = [(m_id m, m_scope m)]" by (rule new_rows_insert [OF rows new(2)])
      moreover have "sees now (lg_rows L') (insert (m_scope m) (snd ` set born)) st' kn'"
        if "st' \<le> now" "sees now (lg_rows L) (snd ` set born) st' kn'" for st' kn'
        using sees_insert [OF that(2), of ?m] that(1) rows by simp
      ultimately show ?thesis using unseen by (simp add: sees_def)
    qed
  qed (use same [OF answer_same_keys [OF ans d]] kn st in \<open>auto simp: see_def\<close>)
  then show "key_bound now L' (new_rows L L' @ born)"
    and "sees now (lg_rows L') (snd ` set (new_rows L L' @ born)) st (see t r kn)"
    and "st' \<le> now \<Longrightarrow> sees now (lg_rows L) (snd ` set born) st' kn' \<Longrightarrow>
      sees now (lg_rows L') (snd ` set (new_rows L L' @ born)) st' kn'"
    by simp_all
qed

abbreviation guarded :: "unit prog \<Rightarrow> seen \<Rightarrow> bool" where
  "guarded \<equiv> wp guard (\<lambda>_ _. True) (\<lambda>_ _. True)"

lemma scope_resume:
  assumes inv: "scope_inv W K" and w: "awaits patience W w q"
    and W': "wo_workers W' = wo_workers W" "wo_now W' = wo_now W"
    and "key_bound (wo_now W) (wo_ledger W') (wo_inserted W')" "guarded p kn"
    and new: "sees (wo_now W) (lg_rows (wo_ledger W')) (snd ` set (wo_inserted W'))
      (wk_started (wo_workers W ! w)) kn"
    and others: "\<And>st kn'. st \<le> wo_now W \<Longrightarrow>
      sees (wo_now W) (lg_rows (wo_ledger W)) (snd ` set (wo_inserted W)) st kn' \<Longrightarrow>
      sees (wo_now W) (lg_rows (wo_ledger W')) (snd ` set (wo_inserted W')) st kn'"
  shows "scope_inv (resume_with w p W') (K(w := kn))"
proof -
  have "sees (wo_now W) (lg_rows (wo_ledger W')) (snd ` set (wo_inserted W'))
      (wk_started (wo_workers W ! v)) ((K(w := kn)) v)" if "v < length (wo_workers W)" for v
    using that new others inv by (simp add: scope_inv_def)
  with assms show ?thesis by (simp add: scope_inv_def resume_prog resume_started)
qed

text \<open>A step that leaves the tables alone.\<close>

lemma scope_continue:
  assumes "scope_inv W K" "awaits patience W w q" "guarded p kn"
    and "wo_workers W' = wo_workers W" "wo_now W' = wo_now W"
    and "wo_ledger W' = wo_ledger W" "wo_inserted W' = wo_inserted W"
    and "sees (wo_now W) (lg_rows (wo_ledger W)) (snd ` set (wo_inserted W))
      (wk_started (wo_workers W ! w)) kn"
  shows "scope_inv (resume_with w p W') (K(w := kn))"
  by (rule scope_resume [OF assms(1,2,4,5)]) (use assms in \<open>simp_all add: scope_inv_def\<close>)

lemma fence_reply:
  assumes inv: "fence_inv k W F" and w: "awaits patience W w (Txn t q)"
    and ans: "txn_answer (wo_now W) (wo_ledger W) t r L"
  shows "good_reply t r"
proof -
  have "admissible k t (F w)" using inv w by (auto simp: fence_inv_def awaits_def)
  from core_answer [OF inv [unfolded fence_inv_def, THEN conjunct1] _ this ans] w show ?thesis
    by (simp add: awaits_def)
qed

lemma scope_step:
  assumes step: "world_step cred form patience W W'" and inv: "scope_inv W K"
    and fence: "fence_inv k W F" and p: "patience \<le> TERMINAL_REPLAY_RETENTION"
  shows "\<exists>K'. scope_inv W' K'"
proof -
  have d: "distinct (map m_id (lg_rows (wo_ledger W)))"
    using fence coreD(2) by (auto simp: fence_inv_def)
  let ?born = "wo_inserted W"
  have key_bound: "key_bound (wo_now W) (wo_ledger W) ?born" using inv by (simp add: scope_inv_def)
  have at_w: "guarded q (K w)" "wk_started (wo_workers W ! w) \<le> wo_now W"
    "wo_now W \<le> wk_started (wo_workers W ! w) + patience"
    "sees (wo_now W) (lg_rows (wo_ledger W)) (snd ` set ?born) (wk_started (wo_workers W ! w)) (K w)"
    if "awaits patience W w q" for w q
    using inv that by (auto simp: scope_inv_def awaits_def)
  show ?thesis
    using step
  proof cases
    case (arrive q)
    with inv harmlessD [OF guard_program, of cred form q Unseen]
    have "scope_inv W' (K(length (wo_workers W) := Unseen))"
      by (auto simp: scope_inv_def nth_append less_Suc_eq sees_def)
    then show ?thesis by blast
  next
    case (tick now)
    with inv key_bound_later sees_later have "scope_inv W' K" by (fastforce simp: scope_inv_def)
    then show ?thesis by blast
  next
    case (draw w q x)
    from scope_continue [OF inv draw(2), of "q x" "K w" "W\<lparr>wo_drawn := (x, w) # wo_drawn W\<rparr>"]
      at_w [OF draw(2)] draw show ?thesis by auto
  next
    case (read_clock w q)
    from scope_continue [OF inv read_clock(2), of "q (wo_now W)" "K w" W]
      at_w [OF read_clock(2)] read_clock show ?thesis by auto
  next
    case (transact w t q r L)
    let ?W = "W\<lparr>wo_ledger := L, wo_inserted := new_rows (wo_ledger W) L @ ?born\<rparr>"
    have ok: "reserved_scope t (K w)" using at_w(1) [OF transact(2)] by simp
    note new = scope_txn [OF key_bound d ok at_w(4) [OF transact(2)] transact(3) at_w(3) [OF transact(2)] p
        at_w(2) [OF transact(2)]]
    have "scope_inv (resume_with w (q r) ?W) (K(w := see t r (K w)))"
      by (rule scope_resume [OF inv transact(2)]) (use new at_w(1) [OF transact(2)] fence_reply [OF fence transact(2,3)] in simp_all)
    with transact show ?thesis by blast
  next
    case (read_tombstone w s q r)
    from scope_continue [OF inv read_tombstone(2), of "q r" "see_tombstone s r (K w)" W]
      at_w [OF read_tombstone(2)] sees_tombstone [OF key_bound at_w(4) [OF read_tombstone(2)] read_tombstone(3)]
      read_tombstone show ?thesis by auto
  next
    case (call_provider w c q r)
    from scope_continue [OF inv call_provider(2), of "q r" "K w" "W\<lparr>wo_posts := log_post c (wo_posts W)\<rparr>"]
      at_w [OF call_provider(2)] call_provider show ?thesis by auto
  next
    case (heartbeat_end w q h)
    from scope_continue [OF inv heartbeat_end(2), of "q h" "K w" W]
      at_w [OF heartbeat_end(2)] heartbeat_end show ?thesis by auto
  next
    case (beat i token drawn r L)
    have "same_keys (wo_now W) (wo_ledger W) L" by (rule answer_same_keys [OF beat(2) d]) simp
    with inv key_bound_same [OF key_bound this] sees_same [OF _ this] beat have "scope_inv W' K"
      by (simp add: scope_inv_def)
    then show ?thesis by blast
  next
    case (retire locked m L)
    from inv key_bound_retire [OF key_bound retire(2) d] sees_retire [OF _ retire(2) d] retire have "scope_inv W' K"
      by (simp add: scope_inv_def)
    then show ?thesis by blast
  next
    case (reconnect cs)
    with inv have "scope_inv W' K" by (simp add: scope_inv_def key_bound_def find_tombstone_def)
    then show ?thesis by blast
  qed
qed

lemma scope_reachable:
  assumes "world_reachable cred form patience W" "patience \<le> TERMINAL_REPLAY_RETENTION"
  shows "\<exists>K. scope_inv W K"
  using assms
proof (induction rule: world_reachable.induct)
  case (boot now)
  have "scope_inv (empty_world now) (\<lambda>_. Unseen)"
    by (simp add: scope_inv_def key_bound_def empty_world_def)
  then show ?case by blast
next
  case (run_step W W')
  obtain K where "scope_inv W K" using run_step by blast
  moreover obtain F where "fence_inv CreatePost W F" using fence_reachable [OF run_step.hyps(1)] by blast
  ultimately show ?case using scope_step [OF run_step.hyps(2)] run_step.prems by blast
qed

text \<open>The posts of one kind that carry the marker of a row of one key.\<close>

definition posts_for_key :: "post_kind \<Rightarrow> mutation_scope \<Rightarrow> world \<Rightarrow> (post_kind \<times> string) list" where
  "posts_for_key k s W =
     filter (\<lambda>(j, marker). j = k \<and> (\<exists>(i, s') \<in> set (wo_inserted W). s' = s \<and> marker = row_marker i))
       (wo_posts W)"

lemma at_most_one: "distinct xs \<Longrightarrow> (\<And>x y. x \<in> set xs \<Longrightarrow> y \<in> set xs \<Longrightarrow> x = y) \<Longrightarrow> length xs \<le> 1"
  by (metis One_nat_def card_le_Suc0_iff_eq distinct_card finite_set)

text \<open>
  C23. However requests, retries, lost commits, crashes, lapsed leases, the reconciler and the
  sweeps of old rows interleave, no two posts to the provider carry the same kind and marker, and
  every post carries the marker of a row of the ledger.
\<close>

theorem provider_posts_once:
  assumes "world_reachable cred form patience W"
  shows "distinct (wo_posts W)
    \<and> snd ` set (wo_posts W) \<subseteq> (\<lambda>(i, s). row_marker i) ` set (wo_inserted W)"
  using posts_at_most_once [OF assms] by fastforce

text \<open>The theorem on the sample run, which has posted.\<close>

theorem provider_posts_once_witness:
  "wo_posts (drive 12 [''a'', ''t''] sample_world) = [(CreatePost, row_marker ''a'')]
   \<and> distinct (wo_posts (drive 12 [''a'', ''t''] sample_world))
   \<and> snd ` set (wo_posts (drive 12 [''a'', ''t''] sample_world))
       \<subseteq> (\<lambda>(i, s). row_marker i) ` set (wo_inserted (drive 12 [''a'', ''t''] sample_world))"
  using provider_posts_once [OF sample_run_reachable] sample_posts(1) by simp

text \<open>
  C24. While no client waits longer for its request than retired rows are kept, the runs post at
  most once for each scope and idempotency key and each kind of post, also across retirement.
\<close>

theorem one_post_per_key:
  assumes "world_reachable cred form patience W" "patience \<le> TERMINAL_REPLAY_RETENTION"
  shows "length (posts_for_key k s W) \<le> 1"
proof (rule at_most_one)
  show "distinct (posts_for_key k s W)"
    using posts_at_most_once(1) [OF assms(1)] by (simp add: posts_for_key_def)
  obtain K where "scope_inv W K" using scope_reachable [OF assms] by blast
  then have one: "distinct (map snd (wo_inserted W))" by (simp add: scope_inv_def key_bound_def)
  have "i = j" if "(i, s) \<in> set (wo_inserted W)" "(j, s) \<in> set (wo_inserted W)" for i j
    using one that by (metis distinct_map inj_onD prod.inject snd_conv)
  then show "x = y" if "x \<in> set (posts_for_key k s W)" "y \<in> set (posts_for_key k s W)" for x y
    using that by (auto simp: posts_for_key_def)
qed


theorem one_post_per_key_witness:
  "posts_for_key CreatePost sample_scope (drive 12 [''a'', ''t''] sample_world) = [(CreatePost, row_marker ''a'')]
   \<and> length (posts_for_key CreatePost sample_scope (drive 12 [''a'', ''t''] sample_world)) \<le> 1"
proof
  show "length (posts_for_key CreatePost sample_scope (drive 12 [''a'', ''t''] sample_world)) \<le> 1"
    by (rule one_post_per_key [OF sample_run_reachable]) (simp add: TERMINAL_REPLAY_RETENTION_def)
qed (simp add: posts_for_key_def sample_posts)

end
