(* ===== verification/Engine_Runs.thy ===== *)
theory Engine_Runs
  imports Mutation_Ledger "HOL-Library.AList"
begin

text \<open>
  The durable projection of external engine runs (src/apex/services/engine_runs.py): one row for
  each thread and attempt, written by the nodes of the execution phase before and after each call
  of a provider. An operation is a function of the tables at its commit; the connection versions
  are instants in microseconds.

  Arguments of the definitions: the services below, whose scanner, diagnostic bound and field
  test stand for src/apex/domain/diagnostics.py.
\<close>

subsection \<open>Services and handles\<close>

record engine_services =
  es_cred :: scanner
  es_diagnostic :: "nat \<Rightarrow> string \<Rightarrow> string"
  es_secret_field :: "string \<Rightarrow> bool"
  es_locked :: bool
  es_new_id :: string

record engine_handle =
  eh_engine :: string
  eh_connection :: "string option"
  eh_run :: "string option"
  eh_key :: string
  eh_extras :: "(string \<times> string) list"

definition handle_json :: "engine_handle \<Rightarrow> pydict" where
  "handle_json h =
     [(''engine'', PStr (eh_engine h)), (''connection_id'', optional_text (eh_connection h)),
      (''external_run_id'', optional_text (eh_run h)), (''idempotency_key'', PStr (eh_key h)),
      (''extras'', PDict (map (\<lambda>(k, v). (k, PStr v)) (eh_extras h)))]"

definition optional_between :: "nat \<Rightarrow> pyval \<Rightarrow> bool" where
  "optional_between hi v \<longleftrightarrow> v = PNone \<or> text_between 0 hi v"

definition text_option :: "pyval \<Rightarrow> string option" where
  "text_option v = (case v of PStr s \<Rightarrow> Some s | _ \<Rightarrow> None)"

definition extra_ok :: "engine_services \<Rightarrow> string \<times> pyval \<Rightarrow> bool" where
  "extra_ok sv kv \<longleftrightarrow>
     text_between 1 64 (PStr (fst kv)) \<and> \<not> es_secret_field sv (fst kv) \<and> text_between 0 2048 (snd kv)
     \<and> (let s = str_of (snd kv) in es_diagnostic sv (max 1 (length s)) s = s)"

definition extras_ok :: "engine_services \<Rightarrow> pyval \<Rightarrow> bool" where
  "extras_ok sv v =
     (case v of
        PDict d \<Rightarrow> length d \<le> 32 \<and> list_all (extra_ok sv) d
          \<and> sum_list (map (\<lambda>kv. length (fst kv) + length (str_of (snd kv))) d) \<le> 16384
      | _ \<Rightarrow> False)"

definition extras_of :: "pyval \<Rightarrow> (string \<times> string) list" where
  "extras_of v = (case v of PDict d \<Rightarrow> map (\<lambda>kv. (fst kv, str_of (snd kv))) d | _ \<Rightarrow> [])"

text \<open>The fields of a handle, with the defaults of the model.\<close>

definition handle_fields :: "engine_services \<Rightarrow> pydict \<Rightarrow> engine_handle" where
  "handle_fields sv d =
     \<lparr>eh_engine = str_of (dget d ''engine''), eh_connection = text_option (dget d ''connection_id''),
      eh_run = text_option (dget d ''external_run_id''),
      eh_key = str_of (with_default (PStr (es_new_id sv)) d ''idempotency_key''),
      eh_extras = extras_of (with_default (PDict []) d ''extras'')\<rparr>"

text \<open>\<open>EngineHandle.model_validate(d)\<close>; \<open>None\<close> is a validation error.\<close>

definition handle_model :: "engine_services \<Rightarrow> pydict \<Rightarrow> engine_handle option" where
  "handle_model sv d =
     (let h = handle_fields sv d
      in if set (map fst d) \<subseteq> {''engine'', ''connection_id'', ''external_run_id'', ''idempotency_key'', ''extras''}
            \<and> text_between 1 64 (dget d ''engine'') \<and> optional_between 256 (dget d ''connection_id'')
            \<and> optional_between 255 (dget d ''external_run_id'')
            \<and> text_between 1 256 (with_default (PStr (es_new_id sv)) d ''idempotency_key'')
            \<and> extras_ok sv (with_default (PDict []) d ''extras'')
            \<and> \<not> scan (es_cred sv) (PDict (handle_json h))
         then Some h else None)"

text \<open>\<open>engine_artifact_namespace\<close>, with its guard apart.\<close>

definition safe_key :: "scanner \<Rightarrow> string \<Rightarrow> bool" where
  "safe_key cred k \<longleftrightarrow> text_between 1 256 (PStr k) \<and> \<not> scan cred (PStr k)"

definition artifact_namespace :: "string \<Rightarrow> string" where
  "artifact_namespace key = ''engine-runs/'' @ sha256_hex (utf8 key)"

subsection \<open>Rows\<close>

datatype engine_phase =
    EProvisioning | EReady | ERunning | EStopping | ECollecting | ECompleted | EFailed | EAborted

definition terminal_phase :: "engine_phase \<Rightarrow> bool" where
  "terminal_phase p \<longleftrightarrow> p \<in> {ECompleted, EFailed, EAborted}"

text \<open>\<open>_NONTERMINAL_ORDER\<close>, continued by the terminal phases.\<close>

fun phase_order :: "engine_phase \<Rightarrow> nat" where
  "phase_order EProvisioning = 0"
| "phase_order EReady = 1"
| "phase_order ERunning = 2"
| "phase_order EStopping = 3"
| "phase_order ECollecting = 4"
| "phase_order _ = 5"

datatype completion = CollectionTeardown | CleanupTeardown

record engine_run =
  er_engine :: string
  er_handle :: pydict
  er_status :: engine_phase
  er_project :: "string option"
  er_app :: "string option"
  er_known :: bool
  er_scope_known :: bool
  er_run :: "string option"
  er_namespace :: "string option"
  er_connection :: "string option"
  er_version :: "int option"
  er_artifact_connection :: "string option"
  er_artifact_version :: "int option"
  er_completion :: "completion option"
  er_summary :: "pyval option"
  er_ended :: "int option"

text \<open>\<open>ed_runs\<close>: the table, keyed by thread and attempt. \<open>ed_traffic\<close>: the project of the traffic entry among the participants of a run.\<close>

record engine_db =
  ed_runs :: "((string \<times> int) \<times> engine_run) list"
  ed_connections :: "string \<rightharpoonup> connection_row"
  ed_traffic :: "string \<rightharpoonup> string"

datatype run_error = Rejected string | Unsafe string | ProjectionFailed

subsection \<open>Validating the arguments of an operation\<close>

definition clean_text :: "scanner \<Rightarrow> nat \<Rightarrow> string \<Rightarrow> bool" where
  "clean_text cred hi s \<longleftrightarrow> s \<noteq> [] \<and> length s \<le> hi \<and> s = strip s
     \<and> list_all (\<lambda>c. 32 \<le> (of_char c :: nat) \<and> of_char c \<noteq> (127 :: nat)) s \<and> \<not> scan cred (PStr s)"

text \<open>\<open>_is_exact_scope_component\<close>.\<close>

definition exact_scope :: "scanner \<Rightarrow> string option \<Rightarrow> bool" where
  "exact_scope cred v = (case v of None \<Rightarrow> False | Some s \<Rightarrow> clean_text cred 255 s)"

definition text_error :: "scanner \<Rightarrow> string \<Rightarrow> nat \<Rightarrow> string option \<Rightarrow> run_error option" where
  "text_error cred label hi v =
     (case v of
        None \<Rightarrow> None
      | Some s \<Rightarrow> if clean_text cred hi s then None
                  else Some (Unsafe (''engine-run '' @ label @ '' is invalid or contains credential material'')))"

definition projection_handle :: "engine_services \<Rightarrow> string \<Rightarrow> bool \<Rightarrow> pydict \<Rightarrow> run_error + pydict" where
  "projection_handle sv eng allow_empty d =
     (if d = [] \<and> allow_empty then Inr []
      else if es_cred sv 64 250000 32768 (PDict d)
      then Inl (Unsafe ''engine-run handle is invalid or contains credential material'')
      else case handle_model sv d of
        None \<Rightarrow> Inl (Unsafe ''engine-run handle is invalid or contains credential material'')
      | Some h \<Rightarrow>
          if eh_engine h \<noteq> eng then Inl (Unsafe ''engine-run handle provider does not match the projection'')
          else Inr (handle_json h))"

text \<open>The arguments that every operation shares.\<close>

record run_args =
  ra_thread :: string
  ra_attempt :: int
  ra_engine :: string
  ra_handle :: pydict
  ra_project :: "string option"
  ra_app :: "string option"
  ra_run :: "string option"
  ra_namespace :: "string option"
  ra_connection :: "string option"
  ra_version :: "int option"
  ra_artifact_connection :: "string option"
  ra_artifact_version :: "int option"

fun first_run_error :: "run_error option list \<Rightarrow> run_error + unit" where
  "first_run_error [] = Inr ()"
| "first_run_error (None # es) = first_run_error es"
| "first_run_error (Some e # es) = Inl e"

definition strip_slashes :: "string \<Rightarrow> string" where
  "strip_slashes s = rev (dropWhile (\<lambda>c. c = CHR ''/'') (rev s))"

definition projection_input :: "engine_services \<Rightarrow> run_args \<Rightarrow> engine_phase \<Rightarrow> run_error + pydict" where
  "projection_input sv a status =
     rbind (first_run_error
       [text_error (es_cred sv) ''thread id'' 64 (Some (ra_thread a)),
        text_error (es_cred sv) ''engine'' 64 (Some (ra_engine a)),
        (if 1 \<le> ra_attempt a \<and> ra_attempt a \<le> 1000000 then None
         else Some (Unsafe ''engine-run attempt must be between 1 and 1000000'')),
        text_error (es_cred sv) ''project id'' 255 (ra_project a),
        text_error (es_cred sv) ''application id'' 255 (ra_app a),
        text_error (es_cred sv) ''external run id'' 255 (ra_run a),
        text_error (es_cred sv) ''artifact namespace'' 512 (ra_namespace a),
        text_error (es_cred sv) ''artifact connection id'' 255 (ra_artifact_connection a),
        text_error (es_cred sv) ''execution connection id'' 255 (ra_connection a)]) (\<lambda>_.
     rbind (projection_handle sv (ra_engine a) (status = EFailed) (ra_handle a)) (\<lambda>h.
       if h = [] then Inr []
       else if ra_run a \<noteq> None \<and> text_option (dget h ''external_run_id'') \<noteq> ra_run a
       then Inl (Unsafe ''engine-run external id does not match the durable handle'')
       else if ra_connection a \<noteq> None \<and> text_option (dget h ''connection_id'') \<noteq> ra_connection a
       then Inl (Unsafe ''engine-run connection does not match the durable handle'')
       else if \<not> safe_key (es_cred sv) (str_of (dget h ''idempotency_key''))
       then Inl (Unsafe ''idempotency key is unsafe for an engine artifact namespace'')
       else if ra_namespace a \<noteq> None
            \<and> map_option strip_slashes (ra_namespace a) \<noteq> Some (artifact_namespace (str_of (dget h ''idempotency_key'')))
       then Inl (Unsafe ''engine-run artifact namespace does not match the durable handle'')
       else Inr h))"

text \<open>
  \<open>_normalize_development_connection_ids\<close>: outside a locked deployment the connections named
  \<open>dev-\<close> have no row. The result says whether there is nothing to project.
\<close>

definition dev_id :: "string option \<Rightarrow> bool" where
  "dev_id v = (case v of None \<Rightarrow> False | Some s \<Rightarrow> take 4 s = ''dev-'')"

definition normal_connections :: "engine_services \<Rightarrow> pydict \<Rightarrow> run_args \<Rightarrow> bool \<times> run_args" where
  "normal_connections sv h a =
     (if es_locked sv then (False, a)
      else
        let own = (if ra_connection a \<noteq> None \<and> ra_connection a \<noteq> Some [] then ra_connection a
                   else text_option (dget h ''connection_id''));
            a1 = (if dev_id (ra_connection a) then a\<lparr>ra_connection := None, ra_version := None\<rparr> else a);
            a2 = (if dev_id (ra_artifact_connection a) then a1\<lparr>ra_artifact_connection := None\<rparr> else a1)
        in (dev_id own \<and> ra_artifact_connection a2 = None, a2))"

text \<open>\<open>_authoritative_scope\<close> with \<open>required=True\<close>.\<close>

definition require_scope :: "engine_services \<Rightarrow> string \<Rightarrow> run_args \<Rightarrow> run_error + unit" where
  "require_scope sv operation a =
     (if exact_scope (es_cred sv) (ra_project a) \<and> exact_scope (es_cred sv) (ra_app a) then Inr ()
      else Inl (Rejected (''engine-run '' @ operation @ '' requires exact project and application ownership'')))"

definition require_version :: "run_args \<Rightarrow> run_error + unit" where
  "require_version a =
     (if ra_connection a \<noteq> None \<and> ra_version a = None
      then Inl (Rejected ''execution connection is missing its reservation version'') else Inr ())"

text \<open>
  The reservation of the execution connection: its row is locked and must be the enabled adapter
  of the run's project, or of the project that owns the traffic, at the reserved version.
\<close>

definition execution_project :: "engine_db \<Rightarrow> run_args \<Rightarrow> connection_row option \<Rightarrow> string option" where
  "execution_project db a conn =
     (case conn of
        None \<Rightarrow> ra_project a
      | Some c \<Rightarrow>
          if cn_project c \<noteq> None \<and> cn_project c \<noteq> ra_project a
          then (case ed_traffic db (ra_thread a) of None \<Rightarrow> ra_project a | Some p \<Rightarrow> Some p)
          else ra_project a)"

definition lock_execution :: "engine_db \<Rightarrow> run_args \<Rightarrow> run_error + unit" where
  "lock_execution db a =
     (case (ra_connection a, ra_version a) of
        (Some cid, Some version) \<Rightarrow>
          (case ed_connections db cid of
             None \<Rightarrow> Inl (Rejected ''execution connection reservation is missing or disabled'')
           | Some c \<Rightarrow>
               if \<not> cn_enabled c
               then Inl (Rejected ''execution connection reservation is missing or disabled'')
               else if cn_kind c \<noteq> ''execution_engine'' \<or> cn_provider c \<noteq> ra_engine a
               then Inl (Rejected ''execution connection reservation has a different adapter identity'')
               else if cn_project c \<noteq> None \<and> cn_project c \<noteq> execution_project db a (Some c)
               then Inl (Rejected ''execution connection reservation has different project ownership'')
               else if cn_runtime_version c \<noteq> version
               then Inl (Rejected ''execution connection changed during reservation'')
               else Inr ())
      | _ \<Rightarrow> Inr ())"

definition lock_artifacts :: "engine_db \<Rightarrow> run_args \<Rightarrow> run_error + unit" where
  "lock_artifacts db a =
     (case ra_artifact_connection a of
        None \<Rightarrow> Inr ()
      | Some cid \<Rightarrow>
          (case ed_connections db cid of
             None \<Rightarrow> Inl (Rejected ''artifact-store connection reservation is missing, disabled, or has the wrong kind'')
           | Some c \<Rightarrow>
               if \<not> cn_enabled c \<or> cn_kind c \<noteq> ''artifact_store''
               then Inl (Rejected ''artifact-store connection reservation is missing, disabled, or has the wrong kind'')
               else if cn_project c \<noteq> None \<and> cn_project c \<noteq> ra_project a
               then Inl (Rejected ''artifact-store connection reservation has different project ownership'')
               else (case ra_artifact_version a of
                   None \<Rightarrow> Inl (Rejected ''artifact-store connection is missing its reservation version'')
                 | Some v \<Rightarrow> if cn_runtime_version c \<noteq> v
                             then Inl (Rejected ''artifact-store connection changed during reservation'')
                             else Inr ())))"

subsection \<open>The upsert\<close>

text \<open>
  The columns of a write: \<open>None\<close> is a column that the statement does not mention. A terminal
  status clears the connection and stamps the end.
\<close>

record run_values =
  rv_engine :: string
  rv_handle :: pydict
  rv_status :: engine_phase
  rv_project :: "string option"
  rv_app :: "string option"
  rv_owned :: bool
  rv_run :: "string option"
  rv_namespace :: "string option"
  rv_connection :: "string option option"
  rv_version :: "int option"
  rv_artifact_connection :: "string option"
  rv_artifact_version :: "int option"
  rv_completion :: "completion option"
  rv_summary :: "pyval option"
  rv_ended :: "int option"

definition keep_old :: "'a option \<Rightarrow> 'a option \<Rightarrow> 'a option" where
  "keep_old old new = (case new of None \<Rightarrow> old | Some x \<Rightarrow> Some x)"

definition inserted_row :: "run_values \<Rightarrow> engine_run" where
  "inserted_row v =
     \<lparr>er_engine = rv_engine v, er_handle = rv_handle v, er_status = rv_status v,
      er_project = rv_project v, er_app = rv_app v, er_known = rv_owned v, er_scope_known = rv_owned v,
      er_run = rv_run v, er_namespace = rv_namespace v,
      er_connection = (case rv_connection v of None \<Rightarrow> None | Some c \<Rightarrow> c), er_version = rv_version v,
      er_artifact_connection = rv_artifact_connection v, er_artifact_version = rv_artifact_version v,
      er_completion = rv_completion v, er_summary = rv_summary v, er_ended = rv_ended v\<rparr>"

definition transition_allowed :: "engine_run \<Rightarrow> run_values \<Rightarrow> bool" where
  "transition_allowed r v \<longleftrightarrow>
     (\<not> terminal_phase (er_status r) \<or> terminal_phase (rv_status v) \<and> er_status r = rv_status v)
     \<and> er_engine r = rv_engine v
     \<and> (er_project r = rv_project v \<or> \<not> er_scope_known r \<and> er_project r = None)
     \<and> (er_app r = rv_app v \<or> \<not> er_scope_known r \<and> er_app r = None)"

text \<open>The row already has the status of the write, if it is terminal, or a later one.\<close>

definition stale_write :: "engine_run \<Rightarrow> run_values \<Rightarrow> bool" where
  "stale_write r v \<longleftrightarrow>
     (if terminal_phase (rv_status v) then er_status r = rv_status v
      else \<not> terminal_phase (er_status r) \<and> phase_order (rv_status v) < phase_order (er_status r))"

definition overwritten_row :: "engine_run \<Rightarrow> run_values \<Rightarrow> engine_run" where
  "overwritten_row r v =
     r\<lparr>er_engine := rv_engine v, er_handle := rv_handle v, er_status := rv_status v,
       er_project := rv_project v, er_app := rv_app v, er_known := rv_owned v, er_scope_known := rv_owned v,
       er_run := keep_old (er_run r) (rv_run v), er_namespace := keep_old (er_namespace r) (rv_namespace v),
       er_connection := (case rv_connection v of None \<Rightarrow> er_connection r | Some c \<Rightarrow> c),
       er_version := keep_old (er_version r) (rv_version v),
       er_artifact_connection := keep_old (er_artifact_connection r) (rv_artifact_connection v),
       er_artifact_version := keep_old (er_artifact_version r) (rv_artifact_version v),
       er_completion := keep_old (er_completion r) (rv_completion v),
       er_summary := keep_old (er_summary r) (rv_summary v), er_ended := rv_ended v\<rparr>"

definition updated_row :: "engine_run \<Rightarrow> run_values \<Rightarrow> engine_run" where
  "updated_row r v =
     (let r' = (if stale_write r v then r else overwritten_row r v)
      in if rv_owned v then r'
         else r'\<lparr>er_known := er_known r, er_scope_known := er_scope_known r,
                 er_project := er_project r, er_app := er_app r\<rparr>)"

definition find_run :: "engine_db \<Rightarrow> string \<times> int \<Rightarrow> engine_run option" where
  "find_run db k = map_of (ed_runs db) k"

text \<open>The unique constraint on the namespace.\<close>

definition namespace_free :: "engine_db \<Rightarrow> string \<times> int \<Rightarrow> string option \<Rightarrow> bool" where
  "namespace_free db k ns \<longleftrightarrow>
     ns = None \<or> list_all (\<lambda>(k', r). k' = k \<or> er_namespace r \<noteq> ns) (ed_runs db)"

definition put_run :: "string \<times> int \<Rightarrow> engine_run \<Rightarrow> engine_db \<Rightarrow> engine_db" where
  "put_run k r db = db\<lparr>ed_runs := AList.update k r (ed_runs db)\<rparr>"

text \<open>The statement with its row count: \<open>None\<close> is a violated constraint.\<close>

definition upsert :: "string \<times> int \<Rightarrow> run_values \<Rightarrow> engine_db \<Rightarrow> (nat \<times> engine_db) option" where
  "upsert k v db =
     (let put = (\<lambda>r. if namespace_free db k (er_namespace r) then Some (1, put_run k r db) else None)
      in case find_run db k of
           None \<Rightarrow> put (inserted_row v)
         | Some r \<Rightarrow> if transition_allowed r v then put (updated_row r v) else Some (0, db))"

subsection \<open>The operations\<close>

definition run_key :: "run_args \<Rightarrow> string \<times> int" where
  "run_key a = (ra_thread a, ra_attempt a)"

definition values_of ::
  "pydict \<Rightarrow> run_args \<Rightarrow> engine_phase \<Rightarrow> bool \<Rightarrow> completion option \<Rightarrow> pyval option \<Rightarrow> int \<Rightarrow> run_values" where
  "values_of h a status owned kind summary now =
     \<lparr>rv_engine = ra_engine a, rv_handle = h, rv_status = status, rv_project = ra_project a,
      rv_app = ra_app a, rv_owned = owned, rv_run = ra_run a,
      rv_namespace =
        (case ra_namespace a of
           Some ns \<Rightarrow> Some (strip_slashes ns)
         | None \<Rightarrow> (case text_option (dget h ''idempotency_key'') of
               None \<Rightarrow> None
             | Some k \<Rightarrow> if k = [] then None else Some (artifact_namespace k))),
      rv_connection =
        (if terminal_phase status then Some None
         else if ra_connection a \<noteq> None \<and> ra_version a \<noteq> None then Some (ra_connection a) else None),
      rv_version = (if ra_connection a \<noteq> None then ra_version a else None),
      rv_artifact_connection = ra_artifact_connection a, rv_artifact_version = ra_artifact_version a,
      rv_completion = kind, rv_summary = summary,
      rv_ended = (if terminal_phase status then Some now else None)\<rparr>"

text \<open>
  \<open>record_engine_run\<close> as far as it can raise; \<open>summary\<close> is the validated summary. A call that is
  not \<open>required\<close> proves no ownership, locks nothing and ignores the row count.
\<close>

definition required_checks ::
  "engine_services \<Rightarrow> bool \<Rightarrow> run_args \<Rightarrow> engine_phase \<Rightarrow> completion option \<Rightarrow> engine_db \<Rightarrow> run_error + unit" where
  "required_checks sv required a status kind db =
     rbind (if required then require_scope sv ''record'' a else Inr ()) (\<lambda>_.
     rbind (if required then require_version a else Inr ()) (\<lambda>_.
       if kind \<noteq> None \<and> \<not> terminal_phase status
       then Inl (Unsafe ''engine completion witness is invalid'')
       else if kind \<noteq> None \<and> ra_connection a \<noteq> None \<and> ra_version a = None
       then Inl (Rejected ''engine completion witness has no execution generation'')
       else if required then rbind (lock_execution db a) (\<lambda>_. lock_artifacts db a)
       else Inr ()))"

definition record_checked ::
  "engine_services \<Rightarrow> bool \<Rightarrow> run_args \<Rightarrow> engine_phase \<Rightarrow> completion option \<Rightarrow> pyval option \<Rightarrow> int
   \<Rightarrow> engine_db \<Rightarrow> run_error + engine_db" where
  "record_checked sv required a0 status kind summary now db =
     rbind (projection_input sv a0 status) (\<lambda>h.
     (let (skip, a1) = normal_connections sv h a0;
          a = (if ra_artifact_connection a1 = None then a1\<lparr>ra_artifact_version := None\<rparr> else a1)
      in if skip then Inr db
         else rbind (required_checks sv required a status kind db) (\<lambda>_.
              case upsert (run_key a) (values_of h a status required kind summary now) db of
                None \<Rightarrow> Inl ProjectionFailed
              | Some (n, db') \<Rightarrow>
                  if required \<and> n \<noteq> 1
                  then Inl (Rejected ''required engine-run reservation was rejected by the durable projection'')
                  else Inr db')))"

text \<open>\<open>record_engine_run\<close>: a failure is raised to a caller that requires the write only.\<close>

definition record_run ::
  "engine_services \<Rightarrow> bool \<Rightarrow> run_args \<Rightarrow> engine_phase \<Rightarrow> completion option \<Rightarrow> pyval option \<Rightarrow> int
   \<Rightarrow> engine_db \<Rightarrow> run_error + engine_db" where
  "record_run sv required a status kind summary now db =
     (case record_checked sv required a status kind summary now db of
        Inl e \<Rightarrow> if required then Inl e else Inr db
      | Inr db' \<Rightarrow> Inr db')"

text \<open>\<open>_bind_locked_run_ownership\<close>: a quarantined row may be given the owner it lacks.\<close>

definition bind_owner :: "run_args \<Rightarrow> string \<Rightarrow> engine_run \<Rightarrow> run_error + engine_run" where
  "bind_owner a operation r =
     (if er_project r \<noteq> ra_project a \<and> \<not> (\<not> er_scope_known r \<and> er_project r = None)
      then Inl (Rejected (''engine-run '' @ operation @ '' reservation has different project ownership''))
      else if er_app r \<noteq> ra_app a \<and> \<not> (\<not> er_scope_known r \<and> er_app r = None)
      then Inl (Rejected (''engine-run '' @ operation @ '' reservation has different application ownership''))
      else if er_scope_known r then Inr r
      else Inr (r\<lparr>er_project := ra_project a, er_app := ra_app a, er_known := True, er_scope_known := True\<rparr>))"

definition same_generation :: "run_args \<Rightarrow> string \<Rightarrow> engine_run \<Rightarrow> run_error + unit" where
  "same_generation a operation r =
     (if ra_connection a = None then Inr ()
      else if er_connection r \<noteq> ra_connection a
      then Inl (Rejected (''engine-run '' @ operation @ '' reservation has different connection affinity''))
      else if ra_version a = None \<or> er_version r \<noteq> ra_version a
      then Inl (Rejected (''engine-run '' @ operation @ '' reservation has different connection generation''))
      else Inr ())"

definition same_handle ::
  "engine_services \<Rightarrow> run_args \<Rightarrow> pydict \<Rightarrow> string \<Rightarrow> engine_run \<Rightarrow> run_error + pydict" where
  "same_handle sv a h operation r =
     (case projection_handle sv (ra_engine a) False (er_handle r) of
        Inl _ \<Rightarrow> Inl (Rejected (''engine-run '' @ operation @ '' reservation has an invalid durable handle''))
      | Inr rh \<Rightarrow>
          if dget rh ''idempotency_key'' \<noteq> dget h ''idempotency_key''
          then Inl (Rejected (''engine-run '' @ operation @ '' reservation has a different idempotency key''))
          else if ra_connection a \<noteq> None \<and> text_option (dget rh ''connection_id'') \<noteq> ra_connection a
          then Inl (Rejected (''engine-run '' @ operation @ '' reservation handle has different connection affinity''))
          else Inr rh)"

text \<open>
  What the two reservations share: the row, locked, of the same provider, owner, connection and
  key, and not terminal. \<open>check\<close> stands between the connection and the handle.
\<close>

definition reserved_row ::
  "engine_services \<Rightarrow> run_args \<Rightarrow> pydict \<Rightarrow> string \<Rightarrow> (engine_run \<Rightarrow> run_error + unit) \<Rightarrow> engine_db
   \<Rightarrow> run_error + pydict \<times> engine_run" where
  "reserved_row sv a h operation check db =
     (case find_run db (run_key a) of
        None \<Rightarrow> Inl (Rejected (''required engine-run '' @ operation @ '' reservation is missing''))
      | Some r0 \<Rightarrow>
          if er_engine r0 \<noteq> ra_engine a
          then Inl (Rejected (''engine-run '' @ operation @ '' reservation has a different provider''))
          else rbind (bind_owner a operation r0) (\<lambda>r.
               rbind (same_generation a operation r) (\<lambda>_.
               rbind (check r) (\<lambda>_.
               rbind (same_handle sv a h operation r) (\<lambda>rh.
               if terminal_phase (er_status r)
               then Inl (Rejected (''engine-run '' @ operation @ '' reservation is already terminal''))
               else Inr (rh, r))))))"

text \<open>The two reservations take fewer arguments than the others.\<close>

definition provision_args :: "run_args \<Rightarrow> run_args" where
  "provision_args a = a\<lparr>ra_run := None, ra_artifact_connection := None, ra_artifact_version := None\<rparr>"

definition start_args :: "run_args \<Rightarrow> run_args" where
  "start_args a = (provision_args a)\<lparr>ra_namespace := None\<rparr>"

text \<open>\<open>prepare_engine_start\<close>: a returned handle means that the run has been started.\<close>

definition prepare_start ::
  "engine_services \<Rightarrow> run_args \<Rightarrow> engine_db \<Rightarrow> run_error + pydict option \<times> engine_db" where
  "prepare_start sv a0 db =
     rbind (projection_input sv (start_args a0) EReady) (\<lambda>h.
     (let (skip, a) = normal_connections sv h (start_args a0)
      in if skip then Inr (None, db)
         else rbind (require_scope sv ''start'' a) (\<lambda>_.
              rbind (require_version a) (\<lambda>_.
              rbind (lock_execution db a) (\<lambda>_.
              rbind (reserved_row sv a h ''start'' (\<lambda>_. Inr ()) db) (\<lambda>(rh, r).
                if er_status r = ERunning then Inr (Some rh, put_run (run_key a) r db)
                else if er_status r \<in> {EProvisioning, EReady} then Inr (None, put_run (run_key a) r db)
                else Inl (Rejected ''engine-run status is not startable'')))))))"

text \<open>The row that reserves an attempt before its first call of the provider.\<close>

definition reservation_row :: "pydict \<Rightarrow> run_args \<Rightarrow> engine_run" where
  "reservation_row h a =
     \<lparr>er_engine = ra_engine a, er_handle = h, er_status = EProvisioning, er_project = ra_project a,
      er_app = ra_app a, er_known = True, er_scope_known = True, er_run = None,
      er_namespace = map_option strip_slashes (ra_namespace a), er_connection = ra_connection a,
      er_version = ra_version a, er_artifact_connection = None, er_artifact_version = None,
      er_completion = None, er_summary = None, er_ended = None\<rparr>"

definition provisioned :: "pydict \<Rightarrow> bool" where
  "provisioned rh \<longleftrightarrow> text_option (dget rh ''external_run_id'') \<notin> {None, Some []} \<or> extras_of (dget rh ''extras'') \<noteq> []"

text \<open>\<open>prepare_engine_provision\<close>: a returned handle means that the provider has been called.\<close>

definition prepare_provision ::
  "engine_services \<Rightarrow> run_args \<Rightarrow> engine_db \<Rightarrow> run_error + pydict option \<times> engine_db" where
  "prepare_provision sv a0 db =
     rbind (projection_input sv (provision_args a0) EProvisioning) (\<lambda>h.
     (let (skip, a) = normal_connections sv h (provision_args a0)
      in if skip then Inr (None, db)
         else rbind (require_scope sv ''provision'' a) (\<lambda>_.
              rbind (require_version a) (\<lambda>_.
              rbind (lock_execution db a) (\<lambda>_.
              let new = reservation_row h a;
                  taken = find_run db (run_key a) = None \<and> \<not> namespace_free db (run_key a) (er_namespace new);
                  db1 = (if find_run db (run_key a) = None then put_run (run_key a) new db else db);
                  check = (\<lambda>r. if ra_namespace a \<noteq> None \<and> er_namespace r \<noteq> er_namespace new
                               then Inl (Rejected ''engine-run provision reservation has a different artifact namespace'')
                               else Inr ())
              in if taken then Inl ProjectionFailed
                 else rbind (reserved_row sv a h ''provision'' check db1) (\<lambda>(rh, r).
                   if er_status r \<in> {EReady, ERunning} then Inr (Some rh, put_run (run_key a) r db1)
                   else if er_status r = EProvisioning
                   then Inr (if provisioned rh then Some rh else None, put_run (run_key a) r db1)
                   else Inl (Rejected ''engine-run status cannot provision'')))))))"

text \<open>
  \<open>recover_engine_completion\<close>: the terminal status of an attempt whose teardown is on record, for
  the exact row that the caller would have written.
\<close>

definition completion_mismatch ::
  "pydict \<Rightarrow> run_args \<Rightarrow> completion \<Rightarrow> engine_phase set \<Rightarrow> pydict \<Rightarrow> engine_run \<Rightarrow> bool" where
  "completion_mismatch h a kind expected rh r \<longleftrightarrow>
     er_engine r \<noteq> ra_engine a \<or> \<not> er_known r \<or> \<not> er_scope_known r \<or> er_project r \<noteq> ra_project a
     \<or> er_app r \<noteq> ra_app a \<or> er_run r \<noteq> ra_run a
     \<or> er_namespace r \<noteq> map_option strip_slashes (ra_namespace a)
     \<or> er_artifact_connection r \<noteq> ra_artifact_connection a \<or> er_artifact_version r \<noteq> ra_artifact_version a
     \<or> er_version r \<noteq> ra_version a \<or> er_completion r \<noteq> Some kind \<or> er_status r \<notin> expected
     \<or> dget rh ''connection_id'' \<noteq> dget h ''connection_id''
     \<or> text_option (dget rh ''external_run_id'') \<noteq> ra_run a
     \<or> dget rh ''idempotency_key'' \<noteq> dget h ''idempotency_key''"

definition recover_completion ::
  "engine_services \<Rightarrow> run_args \<Rightarrow> completion \<Rightarrow> engine_phase set \<Rightarrow> engine_db \<Rightarrow> run_error + engine_phase option" where
  "recover_completion sv a0 kind expected db =
     rbind (projection_input sv a0 (if EFailed \<in> expected then EFailed else EAborted)) (\<lambda>h.
     (let (skip, a1) = normal_connections sv h a0;
          a = (if ra_artifact_connection a1 = None then a1\<lparr>ra_artifact_version := None\<rparr> else a1)
      in if skip then Inr None
         else rbind (require_scope sv ''completion recovery'' a) (\<lambda>_.
              case find_run db (run_key a) of
                None \<Rightarrow> Inl (Rejected ''engine completion recovery projection is missing'')
              | Some r \<Rightarrow>
                  if \<not> terminal_phase (er_status r) then Inr None
                  else (case projection_handle sv (ra_engine a) False (er_handle r) of
                      Inl _ \<Rightarrow> Inl (Rejected ''terminal engine-run projection does not match the completion witness'')
                    | Inr rh \<Rightarrow>
                        if completion_mismatch h a kind expected rh r
                        then Inl (Rejected ''terminal engine-run projection does not match the completion witness'')
                        else Inr (Some (er_status r))))))"

subsection \<open>Sequences of calls\<close>

datatype run_call =
    Record bool run_args engine_phase "completion option" "pyval option" int
  | PrepareStart run_args
  | PrepareProvision run_args

definition run_step :: "engine_services \<Rightarrow> engine_db \<Rightarrow> run_call \<Rightarrow> run_error + engine_db" where
  "run_step sv db c =
     (case c of
        Record required a status kind summary now \<Rightarrow> record_run sv required a status kind summary now db
      | PrepareStart a \<Rightarrow> rbind (prepare_start sv a db) (\<lambda>p. Inr (snd p))
      | PrepareProvision a \<Rightarrow> rbind (prepare_provision sv a db) (\<lambda>p. Inr (snd p)))"

subsection \<open>What every call keeps\<close>

text \<open>
  The order of the rows of an attempt: the status goes forward, a terminal row is final, the
  provider never changes, nor does the owner once it is known.
\<close>

definition row_le :: "engine_run \<Rightarrow> engine_run \<Rightarrow> bool" where
  "row_le r r' \<longleftrightarrow>
     phase_order (er_status r) \<le> phase_order (er_status r') \<and> (terminal_phase (er_status r) \<longrightarrow> r' = r)
     \<and> er_engine r' = er_engine r
     \<and> (er_scope_known r \<longrightarrow>
          er_scope_known r' \<and> er_project r' = er_project r \<and> er_app r' = er_app r)"

definition runs_le :: "engine_db \<Rightarrow> engine_db \<Rightarrow> bool" where
  "runs_le db db' \<longleftrightarrow>
     (\<forall>k r. find_run db k = Some r \<longrightarrow> (\<exists>r'. find_run db' k = Some r' \<and> row_le r r'))"

text \<open>A terminal row has released its connection and is stamped; a namespace has one row.\<close>

definition row_ok :: "engine_run \<Rightarrow> bool" where
  "row_ok r \<longleftrightarrow> (terminal_phase (er_status r) \<longleftrightarrow> er_ended r \<noteq> None)
     \<and> (terminal_phase (er_status r) \<longrightarrow> er_connection r = None)"

definition runs_ok :: "engine_db \<Rightarrow> bool" where
  "runs_ok db \<longleftrightarrow>
     (\<forall>k r. find_run db k = Some r \<longrightarrow> row_ok r)
     \<and> (\<forall>k k' r r' ns. find_run db k = Some r \<longrightarrow> find_run db k' = Some r' \<longrightarrow> er_namespace r = Some ns
          \<longrightarrow> er_namespace r' = Some ns \<longrightarrow> k = k')"

lemma find_put_run [simp]: "find_run (put_run k r db) k' = (if k' = k then Some r else find_run db k')"
  by (simp add: find_run_def put_run_def update_conv')

lemma phase_order_terminal: "terminal_phase p \<longleftrightarrow> phase_order p = 5"
  by (cases p) (simp_all add: terminal_phase_def)

lemma phase_order_le: "phase_order p \<le> 5"
  by (cases p) simp_all

lemma row_le_refl [simp]: "row_le r r"
  by (simp add: row_le_def)

lemma row_le_trans: "row_le r s \<Longrightarrow> row_le s t \<Longrightarrow> row_le r t"
  unfolding row_le_def by (metis order_trans)

lemma runs_le_refl [simp]: "runs_le db db"
  by (simp add: runs_le_def)

lemma runs_le_trans: "runs_le a b \<Longrightarrow> runs_le b c \<Longrightarrow> runs_le a c"
  unfolding runs_le_def by (metis row_le_trans)

lemma runs_le_put: "(\<And>r. find_run db k = Some r \<Longrightarrow> row_le r r') \<Longrightarrow> runs_le db (put_run k r' db)"
  by (auto simp: runs_le_def)

lemma namespace_freeD:
  "namespace_free db k (Some ns) \<Longrightarrow> find_run db k' = Some r \<Longrightarrow> er_namespace r = Some ns \<Longrightarrow> k' = k"
  by (auto simp: namespace_free_def find_run_def list_all_iff dest!: map_of_SomeD)

lemma runs_ok_put:
  assumes "runs_ok db" "row_ok r"
    and "namespace_free db k (er_namespace r) \<or> (\<exists>r0. find_run db k = Some r0 \<and> er_namespace r = er_namespace r0)"
  shows "runs_ok (put_run k r db)"
proof -
  have other: "er_namespace r' \<noteq> Some ns"
    if "find_run db k' = Some r'" "k' \<noteq> k" "er_namespace r = Some ns" for k' r' ns
  proof -
    from assms(3) show ?thesis
    proof
      assume "namespace_free db k (er_namespace r)"
      with namespace_freeD that show ?thesis by metis
    next
      assume "\<exists>r0. find_run db k = Some r0 \<and> er_namespace r = er_namespace r0"
      with assms(1) that show ?thesis unfolding runs_ok_def by metis
    qed
  qed
  from assms(1) have "k1 = k2" if "find_run db k1 = Some r1" "find_run db k2 = Some r2"
    "er_namespace r1 = Some ns" "er_namespace r2 = Some ns" for k1 k2 r1 r2 ns
    using that unfolding runs_ok_def by blast
  with assms(1,2) other show ?thesis
    unfolding runs_ok_def by (auto split: if_splits)
qed

text \<open>What the statement of an upsert assigns.\<close>

definition values_ok :: "run_values \<Rightarrow> bool" where
  "values_ok v \<longleftrightarrow> (terminal_phase (rv_status v) \<longleftrightarrow> rv_ended v \<noteq> None)
     \<and> (terminal_phase (rv_status v) \<longrightarrow> rv_connection v = Some None)"

lemma values_of_ok: "values_ok (values_of h a status owned kind summary now)"
  by (simp add: values_ok_def values_of_def)

lemma stale_row: "stale_write r v \<Longrightarrow> updated_row r v = r"
  by (simp add: updated_row_def)

lemma overwritten_row_sel [simp]:
  "er_status (overwritten_row r v) = rv_status v"
  "er_engine (overwritten_row r v) = rv_engine v"
  "er_scope_known (overwritten_row r v) = rv_owned v"
  "er_project (overwritten_row r v) = rv_project v"
  "er_app (overwritten_row r v) = rv_app v"
  by (simp_all add: overwritten_row_def)

lemma fresh_row:
  assumes "\<not> stale_write r v"
  shows "er_status (updated_row r v) = rv_status v"
    and "er_engine (updated_row r v) = rv_engine v"
    and "er_scope_known (updated_row r v) = (if rv_owned v then True else er_scope_known r)"
    and "er_project (updated_row r v) = (if rv_owned v then rv_project v else er_project r)"
    and "er_app (updated_row r v) = (if rv_owned v then rv_app v else er_app r)"
  unfolding updated_row_def Let_def if_not_P [OF assms] by simp_all

lemma fresh_status:
  assumes "transition_allowed r v" "\<not> stale_write r v"
  shows "\<not> terminal_phase (er_status r) \<and> phase_order (er_status r) \<le> phase_order (rv_status v)"
  using assms phase_order_le [of "er_status r"]
  by (auto simp: transition_allowed_def stale_write_def phase_order_terminal split: if_splits)

lemma updated_row_le:
  assumes "transition_allowed r v"
  shows "row_le r (updated_row r v)"
proof (cases "stale_write r v")
  case True
  then show ?thesis by (simp add: stale_row)
next
  case False
  with assms fresh_status [OF assms False] show ?thesis
    by (auto simp: row_le_def transition_allowed_def fresh_row)
qed

lemma updated_row_ok: "row_ok r \<Longrightarrow> values_ok v \<Longrightarrow> row_ok (updated_row r v)"
  by (auto simp: row_ok_def values_ok_def updated_row_def overwritten_row_def Let_def)

lemma inserted_row_ok: "values_ok v \<Longrightarrow> row_ok (inserted_row v)"
  by (auto simp: row_ok_def values_ok_def inserted_row_def)

lemma upsert_le:
  assumes "upsert k v db = Some (n, db')"
  shows "runs_le db db'"
proof (cases "find_run db k")
  case None
  with assms show ?thesis
    by (auto simp: upsert_def Let_def split: if_splits intro: runs_le_put)
next
  case (Some r)
  with assms updated_row_le show ?thesis
    by (auto simp: upsert_def Let_def split: if_splits intro!: runs_le_put)
qed

lemma upsert_ok:
  assumes "upsert k v db = Some (n, db')" "values_ok v" "runs_ok db"
  shows "runs_ok db'"
proof (cases "find_run db k")
  case None
  with assms inserted_row_ok show ?thesis
    by (auto simp: upsert_def Let_def split: if_splits intro!: runs_ok_put)
next
  case (Some r)
  with assms(3) have "row_ok r" unfolding runs_ok_def by blast
  then have "row_ok (updated_row r v)" using assms(2) by (rule updated_row_ok)
  with Some assms(1,3) show ?thesis
    by (auto simp: upsert_def Let_def split: if_splits intro: runs_ok_put)
qed

lemma run_key_normal:
  "normal_connections sv h a = (skip, b) \<Longrightarrow> run_key b = run_key a"
  by (auto simp: normal_connections_def run_key_def Let_def split: if_splits)

definition paired_artifacts :: "run_args \<Rightarrow> run_args" where
  "paired_artifacts a = (if ra_artifact_connection a = None then a\<lparr>ra_artifact_version := None\<rparr> else a)"

lemma run_key_args [simp]:
  "run_key (paired_artifacts a) = run_key a"
  "run_key (start_args a) = run_key a"
  "run_key (provision_args a) = run_key a"
  by (simp_all add: paired_artifacts_def start_args_def provision_args_def run_key_def)

lemma record_checked_cases:
  assumes "record_checked sv required a status kind summary now db = Inr db'"
  obtains "db' = db"
  | h b n where "upsert (run_key a) (values_of h b status required kind summary now) db = Some (n, db')"
      "required \<Longrightarrow> n = 1"
proof -
  from assms obtain h where h: "projection_input sv a status = Inr h"
    by (auto simp: record_checked_def rbind_Inr_iff)
  obtain skip a1 where norm: "normal_connections sv h a = (skip, a1)" by fastforce
  then have key: "run_key (paired_artifacts a1) = run_key a" by (simp add: run_key_normal)
  show ?thesis
  proof (cases skip)
    case True
    with assms h norm that(1) show ?thesis by (simp add: record_checked_def Let_def)
  next
    case False
    with assms h norm key that(2) show ?thesis
      by (auto simp: record_checked_def Let_def rbind_Inr_iff paired_artifacts_def [symmetric]
          split: option.splits prod.splits if_splits)
  qed
qed

lemma record_run_cases:
  assumes "record_run sv required a status kind summary now db = Inr db'"
  obtains "db' = db"
  | h b n where "upsert (run_key a) (values_of h b status required kind summary now) db = Some (n, db')"
  using assms
  by (auto simp: record_run_def split: sum.splits if_splits elim: record_checked_cases)

lemma bind_owner_le:
  assumes "bind_owner a operation r = Inr r'" "row_ok r" "\<not> terminal_phase (er_status r)"
  shows "row_le r r' \<and> row_ok r' \<and> er_namespace r' = er_namespace r \<and> er_status r' = er_status r"
  using assms by (auto simp: bind_owner_def row_le_def row_ok_def split: if_splits)

lemma bind_owner_status: "bind_owner a operation r = Inr r' \<Longrightarrow> er_status r' = er_status r"
  by (auto simp: bind_owner_def split: if_splits)

lemma reserved_row_put:
  assumes "reserved_row sv a h operation check db = Inr (rh, r)" "runs_ok db"
  shows "runs_le db (put_run (run_key a) r db) \<and> runs_ok (put_run (run_key a) r db)"
proof -
  from assms(1) obtain r0 where r0: "find_run db (run_key a) = Some r0"
    by (auto simp: reserved_row_def split: option.splits)
  with assms(1) have r: "bind_owner a operation r0 = Inr r" "\<not> terminal_phase (er_status r)"
    by (auto simp: reserved_row_def rbind_Inr_iff split: if_splits)
  from r0 assms(2) have "row_ok r0" unfolding runs_ok_def by blast
  from bind_owner_le [OF r(1) this] r bind_owner_status [OF r(1)]
  have le: "row_le r0 r" and ok: "row_ok r" and ns: "er_namespace r = er_namespace r0" by simp_all
  from le r0 have "runs_le db (put_run (run_key a) r db)" by (auto intro: runs_le_put)
  moreover from assms(2) ok ns r0 have "runs_ok (put_run (run_key a) r db)" by (auto intro: runs_ok_put)
  ultimately show ?thesis ..
qed

text \<open>
  A call is projected in a locked deployment, and elsewhere when the connection of its engine is not
  a development one, whose runs have no row.
\<close>

definition own_connection :: "run_args \<Rightarrow> string option" where
  "own_connection a =
     (if ra_connection a \<noteq> None \<and> ra_connection a \<noteq> Some [] then ra_connection a
      else text_option (dget (ra_handle a) ''connection_id''))"

definition projected :: "engine_services \<Rightarrow> run_args \<Rightarrow> bool" where
  "projected sv a \<longleftrightarrow> es_locked sv \<or> \<not> dev_id (own_connection a)"

lemma text_option_optional [simp]: "text_option (optional_text t) = t"
  by (cases t) (simp_all add: text_option_def optional_text_def)

lemma projection_input_connection:
  assumes "projection_input sv a status = Inr h"
  shows "text_option (dget h ''connection_id'') = text_option (dget (ra_handle a) ''connection_id'')"
proof -
  have handle: "projection_handle sv (ra_engine a) (status = EFailed) (ra_handle a) = Inr h"
    using assms by (auto simp: projection_input_def rbind_Inr_iff split: if_splits)
  show ?thesis
  proof (cases "ra_handle a = [] \<and> status = EFailed")
    case True
    with handle show ?thesis by (simp add: projection_handle_def)
  next
    case False
    with handle obtain hh where "handle_model sv (ra_handle a) = Some hh" "h = handle_json hh"
      by (auto simp: projection_handle_def split: if_splits option.splits)
    then show ?thesis
      by (auto simp: handle_model_def handle_fields_def handle_json_def dget_def Let_def split: if_splits)
  qed
qed

lemma normal_projected:
  assumes "projection_input sv a status = Inr h" "projected sv a"
  shows "\<exists>b. normal_connections sv h a = (False, b)"
  using projection_input_connection [OF assms(1)] assms(2)
  by (auto simp: normal_connections_def projected_def own_connection_def Let_def)

lemma normal_locked [simp]: "es_locked sv \<Longrightarrow> normal_connections sv h a = (False, a)"
  by (simp add: normal_connections_def)

lemma projected_args [simp]:
  "projected sv (start_args a) = projected sv a"
  "projected sv (provision_args a) = projected sv a"
  by (simp_all add: projected_def own_connection_def start_args_def provision_args_def)

lemma prepare_start_cases:
  assumes "prepare_start sv a db = Inr (got, db')"
  obtains "db' = db" "\<not> projected sv a"
  | h b rh r where "run_key b = run_key a" "reserved_row sv b h ''start'' (\<lambda>_. Inr ()) db = Inr (rh, r)"
      "db' = put_run (run_key a) r db" "got = None \<Longrightarrow> er_status r \<in> {EProvisioning, EReady}"
proof -
  from assms obtain h where h: "projection_input sv (start_args a) EReady = Inr h"
    by (auto simp: prepare_start_def rbind_Inr_iff)
  obtain skip b where norm: "normal_connections sv h (start_args a) = (skip, b)" by fastforce
  then have key: "run_key b = run_key a" using run_key_normal by fastforce
  show ?thesis
  proof (cases skip)
    case True
    with norm normal_projected [OF h] have "\<not> projected sv a" by auto
    with True assms h norm that(1) show ?thesis by (simp add: prepare_start_def)
  next
    case False
    with assms h norm obtain rh r where "reserved_row sv b h ''start'' (\<lambda>_. Inr ()) db = Inr (rh, r)"
      "db' = put_run (run_key b) r db" "got = None \<Longrightarrow> er_status r \<in> {EProvisioning, EReady}"
      by (auto simp: prepare_start_def rbind_Inr_iff split: if_splits)
    with key that(2) show ?thesis by simp
  qed
qed

lemma prepare_provision_cases:
  assumes "prepare_provision sv a db = Inr (got, db')"
  obtains "db' = db" "\<not> projected sv a"
  | h b rh r check db1 where "run_key b = run_key a"
      "db1 = db \<or> find_run db (run_key a) = None
         \<and> namespace_free db (run_key a) (er_namespace (reservation_row h b))
         \<and> db1 = put_run (run_key a) (reservation_row h b) db"
      "reserved_row sv b h ''provision'' check db1 = Inr (rh, r)"
      "db' = put_run (run_key a) r db1" "got = None \<Longrightarrow> er_status r = EProvisioning"
proof -
  from assms obtain h where h: "projection_input sv (provision_args a) EProvisioning = Inr h"
    by (auto simp: prepare_provision_def rbind_Inr_iff)
  obtain skip b where norm: "normal_connections sv h (provision_args a) = (skip, b)" by fastforce
  then have key: "run_key b = run_key a" using run_key_normal by fastforce
  show ?thesis
  proof (cases skip)
    case True
    with norm normal_projected [OF h] have "\<not> projected sv a" by auto
    with True assms h norm that(1) show ?thesis by (simp add: prepare_provision_def)
  next
    case False
    let ?db1 = "if find_run db (run_key b) = None then put_run (run_key b) (reservation_row h b) db else db"
    from False assms h norm obtain rh r check where
      row: "reserved_row sv b h ''provision'' check ?db1 = Inr (rh, r)" "db' = put_run (run_key b) r ?db1"
        "got = None \<Longrightarrow> er_status r = EProvisioning"
      and "\<not> (find_run db (run_key b) = None
             \<and> \<not> namespace_free db (run_key b) (er_namespace (reservation_row h b)))"
      by (auto simp: prepare_provision_def rbind_Inr_iff Let_def split: if_splits)
    with key that(2) [of b ?db1 h check rh r] show ?thesis by (auto split: if_splits)
  qed
qed

lemma reservation_row_ok: "row_ok (reservation_row h a)"
  by (simp add: row_ok_def reservation_row_def terminal_phase_def)

lemma run_step_keeps:
  assumes "runs_ok db" "run_step sv db c = Inr db'"
  shows "runs_le db db' \<and> runs_ok db'"
proof (cases c)
  case (Record required a status kind summary now)
  with assms(2) have "record_run sv required a status kind summary now db = Inr db'"
    by (simp add: run_step_def)
  then show ?thesis
    by (rule record_run_cases) (use assms(1) in \<open>auto intro: upsert_le upsert_ok values_of_ok\<close>)
next
  case (PrepareStart a)
  with assms(2) obtain got where "prepare_start sv a db = Inr (got, db')"
    by (auto simp: run_step_def rbind_Inr_iff)
  then show ?thesis
    by (rule prepare_start_cases) (use assms(1) in \<open>auto dest: reserved_row_put\<close>)
next
  case (PrepareProvision a)
  with assms(2) obtain got where "prepare_provision sv a db = Inr (got, db')"
    by (auto simp: run_step_def rbind_Inr_iff)
  then show ?thesis
  proof (rule prepare_provision_cases)
    fix h b rh r check db1
    assume key: "run_key b = run_key a"
      and db1: "db1 = db \<or> find_run db (run_key a) = None
        \<and> namespace_free db (run_key a) (er_namespace (reservation_row h b))
        \<and> db1 = put_run (run_key a) (reservation_row h b) db"
      and row: "reserved_row sv b h ''provision'' check db1 = Inr (rh, r)" "db' = put_run (run_key a) r db1"
    from db1 assms(1) have "runs_le db db1 \<and> runs_ok db1"
      by (auto intro: runs_le_put runs_ok_put reservation_row_ok)
    with reserved_row_put [OF row(1)] row(2) key show ?thesis by (auto intro: runs_le_trans)
  qed (use assms(1) in auto)
qed

interpretation runs: monotone_steps "run_step sv" "\<lambda>_. True" runs_ok runs_le for sv
  by unfold_locales (use run_step_keeps runs_le_trans in auto)

lemma calls_keep:
  assumes "runs_ok db"
  shows "runs_ok (run_ops (run_step sv) db cs)" "runs_le db (run_ops (run_step sv) db cs)"
  using assms by (auto intro: runs.run_inv runs.run_le simp: list_all_iff)

end
