(* ===== verification/Engine_Effects.thy ===== *)
theory Engine_Effects
  imports Engine_Runs
begin

text \<open>
  The effects of the engine nodes of the execution phase
  (src/apex/graphs/pipeline/execution_phase.py) as a state monad with exceptions over the provider
  calls made so far, the table of engine runs and the number of effects before the process dies;
  with the weakest precondition of a program, one postcondition for its values and one for its
  exceptions.

  Arguments of the definitions: the services of Engine_Runs with \<open>parse_time\<close>
  (\<open>datetime.fromisoformat\<close>: the instant, if the time has a zone) and \<open>iso\<close>
  (\<open>datetime.isoformat\<close>); the configuration of the phase, whose poll cycles are the quotient of the
  two limits rounded up; the answers of the outside world to one execution of a node.
\<close>

subsection \<open>Configuration and answers\<close>

record node_services = engine_services +
  ns_parse_time :: "string \<Rightarrow> int option option"
  ns_iso :: "int \<Rightarrow> string"
  ns_outcome :: "pyval \<Rightarrow> (pyval \<times> bool option) option"

record engine_cfg =
  ec_engine :: string
  ec_project :: "string option"
  ec_app :: "string option"
  ec_connection :: "string option"
  ec_dispatch :: bool
  ec_cycles :: int
  ec_timeout_text :: string

text \<open>
  A resolved adapter: \<open>rs_wrapped\<close> is a \<open>ResolvedAdapter\<close>, otherwise the metadata are attributes
  that the adapter may carry. \<open>rs_version\<close>: \<open>Some None\<close> is a value that is no datetime.
\<close>

record resolved =
  rs_wrapped :: bool
  rs_connection :: pyval
  rs_version :: "int option option"
  rs_persisted :: bool

datatype provider_error = RunGone | Failure string

text \<open>A database call: it answers, or its request or its reply is lost.\<close>

datatype db_link = Delivered | RequestLost | ReplyLost

text \<open>
  The answers to one execution: a provider method may change the copy of the handle that it is
  given, so \<open>start\<close> and \<open>abort\<close> answer with that copy. \<open>an_before\<close> and \<open>an_between\<close> are the calls
  of other workers before the first and the second call of the projection.
\<close>

record answers =
  an_spec :: "string + pydict \<times> pydict"
  an_binding :: "string + bool"
  an_resolve :: "string + resolved"
  an_store :: "string + resolved"
  an_validate :: "string + pyval"
  an_provision :: "string + pyval"
  an_start :: "string option \<times> pyval"
  an_status :: "provider_error + pyval"
  an_abort :: "string option \<times> pyval"
  an_teardown :: "string option"
  an_collect :: "string + pyval"
  an_written :: "(string \<times> string \<times> string) list"
  an_cleanup :: "string option"
  an_summary :: "string + pyval"
  an_index :: "string option"
  an_before :: "run_call list"
  an_link :: db_link
  an_between :: "run_call list"
  an_link2 :: db_link
  an_now :: string
  an_clock :: int
  an_overdue :: bool
  an_observed :: string

subsection \<open>Effects\<close>

text \<open>
  The exceptions that a node tells apart. \<open>Died\<close> is the end of the process, which nothing
  catches.
\<close>

datatype engine_exn =
    Plain string
  | RejectedWrite string
  | Definitive string
  | ProviderGone
  | Died

datatype engine_call =
    PValidate
  | PProvision
  | PStart engine_handle
  | PStatus engine_handle
  | PAbort engine_handle
  | PTeardown engine_handle
  | PCollect engine_handle
  | PSummary engine_handle

text \<open>The calls made, and whether each of them returned.\<close>

record engine_world =
  ew_calls :: "(engine_call \<times> bool) list"
  ew_db :: engine_db
  ew_left :: nat

text \<open>A program over a world, with its exceptions.\<close>

type_synonym ('w, 'e, 'a) eff = "'w \<Rightarrow> ('e + 'a) \<times> 'w"

type_synonym 'a prog = "(engine_world, engine_exn, 'a) eff"

definition ret :: "'a \<Rightarrow> ('w, 'e, 'a) eff" where
  "ret x w = (Inr x, w)"

definition raise :: "'e \<Rightarrow> ('w, 'e, 'a) eff" where
  "raise e w = (Inl e, w)"

definition seq :: "('w, 'e, 'a) eff \<Rightarrow> ('a \<Rightarrow> ('w, 'e, 'b) eff) \<Rightarrow> ('w, 'e, 'b) eff" where
  "seq m f w = (case m w of (Inl e, w') \<Rightarrow> (Inl e, w') | (Inr x, w') \<Rightarrow> f x w')"

text \<open>\<open>except Exception\<close>.\<close>

definition attempt :: "'a prog \<Rightarrow> (engine_exn \<Rightarrow> 'a prog) \<Rightarrow> 'a prog" where
  "attempt m h w =
     (case m w of
        (Inl e, w') \<Rightarrow> if e = Died then (Inl e, w') else h e w'
      | (Inr x, w') \<Rightarrow> (Inr x, w'))"

definition exn_text :: "exn \<Rightarrow> string" where
  "exn_text e = (case e of ValueError m \<Rightarrow> m | KeyError m \<Rightarrow> m | RuntimeError m \<Rightarrow> m | TypeError m \<Rightarrow> m)"

definition pure :: "exn + 'a \<Rightarrow> 'a prog" where
  "pure r = (case r of Inl e \<Rightarrow> raise (Plain (exn_text e)) | Inr x \<Rightarrow> ret x)"

definition error_text :: "engine_exn \<Rightarrow> string" where
  "error_text e =
     (case e of Plain m \<Rightarrow> m | RejectedWrite m \<Rightarrow> m | Definitive m \<Rightarrow> m
      | ProviderGone \<Rightarrow> ''external run not found'' | Died \<Rightarrow> [])"

text \<open>A call of the provider; when the process dies, the call was made and nothing came back.\<close>

definition call :: "engine_call \<Rightarrow> engine_exn + 'a \<Rightarrow> 'a prog" where
  "call c r w =
     (let alive = (ew_left w \<noteq> 0)
      in (if alive then r else Inl Died,
          w\<lparr>ew_calls := ew_calls w @ [(c, alive \<and> (\<exists>x. r = Inr x))], ew_left := ew_left w - 1\<rparr>))"

definition or_plain :: "string + 'a \<Rightarrow> engine_exn + 'a" where
  "or_plain r = (case r of Inl m \<Rightarrow> Inl (Plain m) | Inr x \<Rightarrow> Inr x)"

definition unit_call :: "string option \<Rightarrow> engine_exn + unit" where
  "unit_call r = (case r of None \<Rightarrow> Inr () | Some m \<Rightarrow> Inl (Plain m))"

definition run_exn :: "run_error \<Rightarrow> engine_exn" where
  "run_exn e =
     (case e of Rejected m \<Rightarrow> RejectedWrite m | Unsafe m \<Rightarrow> Plain m
      | ProjectionFailed \<Rightarrow> Plain ''engine-run projection failed'')"

text \<open>
  A call of the projection, after the calls of other workers. A lost reply leaves the commit
  behind.
\<close>

definition answered :: "db_link \<Rightarrow> (run_error + 'a \<times> engine_db) \<Rightarrow> engine_exn + 'a" where
  "answered link r =
     (if link \<noteq> Delivered then Inl (Plain ''engine-run projection failed'')
      else case r of Inl e \<Rightarrow> Inl (run_exn e) | Inr (x, db) \<Rightarrow> Inr x)"

definition committed :: "db_link \<Rightarrow> engine_db \<Rightarrow> (run_error + 'a \<times> engine_db) \<Rightarrow> engine_db" where
  "committed link db r =
     (case r of Inl e \<Rightarrow> db | Inr (x, db') \<Rightarrow> if link = RequestLost then db else db')"

definition run_services :: "node_services \<Rightarrow> engine_services" where
  "run_services sv = engine_services.truncate sv"

definition project ::
  "node_services \<Rightarrow> run_call list \<Rightarrow> db_link \<Rightarrow> (engine_db \<Rightarrow> run_error + 'a \<times> engine_db) \<Rightarrow> 'a prog" where
  "project sv others link f w =
     (let db = run_ops (run_step (run_services sv)) (ew_db w) others
      in (if ew_left w = 0 then Inl Died else answered link (f db),
          w\<lparr>ew_db := committed link db (f db), ew_left := ew_left w - 1\<rparr>))"

subsection \<open>Weakest preconditions\<close>

named_theorems wp_rules \<open>the weakest precondition of each operation\<close>

definition wp :: "('w, 'e, 'a) eff \<Rightarrow> ('a \<Rightarrow> 'w \<Rightarrow> bool) \<Rightarrow> ('e \<Rightarrow> 'w \<Rightarrow> bool) \<Rightarrow> 'w \<Rightarrow> bool" where
  "wp m Q E w = (case m w of (Inl e, w') \<Rightarrow> E e w' | (Inr x, w') \<Rightarrow> Q x w')"

lemma wp_ret [wp_rules]: "wp (ret x) Q E w = Q x w"
  by (simp add: wp_def ret_def)

lemma wp_raise [wp_rules]: "wp (raise e) Q E w = E e w"
  by (simp add: wp_def raise_def)

lemma wp_seq [wp_rules]: "wp (seq m f) Q E w = wp m (\<lambda>x. wp (f x) Q E) E w"
  by (simp add: wp_def seq_def split: prod.split sum.split)

lemma wp_attempt [wp_rules]: "wp (attempt m h) Q E w = wp m Q (\<lambda>e. if e = Died then E e else wp (h e) Q E) w"
  by (simp add: wp_def attempt_def split: prod.split sum.split)

lemma wp_pure [wp_rules]:
  "wp (pure r) Q E w = (case r of Inl e \<Rightarrow> E (Plain (exn_text e)) w | Inr x \<Rightarrow> Q x w)"
  by (simp add: pure_def wp_ret wp_raise split: sum.split)

lemma wp_branch [wp_rules]: "wp (if b then m else n) Q E w = (if b then wp m Q E w else wp n Q E w)"
  by simp

lemma wp_conseq:
  "wp m Q E w \<Longrightarrow> (\<And>x w'. Q x w' \<Longrightarrow> Q' x w') \<Longrightarrow> (\<And>e w'. E e w' \<Longrightarrow> E' e w') \<Longrightarrow> wp m Q' E' w"
  by (auto simp: wp_def split: prod.splits sum.splits)

lemma wp_run: "wp m Q E w \<Longrightarrow> m w = (Inr x, w') \<Longrightarrow> Q x w'"
  by (simp add: wp_def)

end
