(* ===== verification/Engine_State.thy ===== *)
theory Engine_State
  imports Engine_Effects Reducers
begin

text \<open>
  What the engine nodes of the execution phase share (src/apex/graphs/pipeline/execution_phase.py):
  the readers of the checkpoint, the fences of the pinned connections, and the validators of what a
  provider returns.
\<close>

subsection \<open>Reading the checkpoint\<close>

definition exec_entry :: "pydict \<Rightarrow> pydict res" where
  "exec_entry state =
     rbind (case dget state ''phase_results'' of
              PNone \<Rightarrow> Inr [] | PDict d \<Rightarrow> Inr d
            | _ \<Rightarrow> bad ''checkpointed phase results are invalid'') (\<lambda>results.
     (case dget results ''execution'' of
        PNone \<Rightarrow> Inr [] | PDict e \<Rightarrow> Inr e
      | _ \<Rightarrow> bad ''checkpointed execution phase is invalid''))"

definition checkpoint_int :: "string \<Rightarrow> int \<Rightarrow> int \<Rightarrow> int \<Rightarrow> pyval \<Rightarrow> int res" where
  "checkpoint_int label dflt lo hi v =
     (case v of
        PNone \<Rightarrow> Inr dflt
      | PInt i \<Rightarrow> if lo \<le> i \<and> i \<le> hi then Inr i else bad (''checkpointed '' @ label @ '' is invalid'')
      | _ \<Rightarrow> bad (''checkpointed '' @ label @ '' is invalid''))"

definition exec_attempt :: "pydict \<Rightarrow> int res" where
  "exec_attempt entry = checkpoint_int ''execution attempt'' 1 1 1000000 (dget entry ''attempt'')"

text \<open>The counters of failures, with the bounds that the reader has by default.\<close>

definition counter :: "pydict \<Rightarrow> string \<Rightarrow> string \<Rightarrow> int res" where
  "counter entry label field = checkpoint_int label 0 0 1000000 (dget entry field)"

definition checkpoint_flag :: "pydict \<Rightarrow> string \<Rightarrow> bool res" where
  "checkpoint_flag entry field =
     (case dget entry field of
        PNone \<Rightarrow> Inr False
      | PBool b \<Rightarrow> Inr b
      | _ \<Rightarrow> bad (''checkpointed '' @ field @ '' flag is invalid''))"

definition scanned_text :: "scanner \<Rightarrow> nat \<Rightarrow> pyval \<Rightarrow> bool" where
  "scanned_text cred hi v \<longleftrightarrow> text_between 1 hi v \<and> \<not> scan cred v"

definition zoned_time :: "node_services \<Rightarrow> string \<Rightarrow> int option" where
  "zoned_time sv s = (case ns_parse_time sv s of None \<Rightarrow> None | Some t \<Rightarrow> t)"

definition checkpoint_timestamp_or_now :: "node_services \<Rightarrow> string \<Rightarrow> pyval \<Rightarrow> string" where
  "checkpoint_timestamp_or_now sv now v =
     (if scanned_text (es_cred sv) 64 v \<and> zoned_time sv (str_of v) \<noteq> None then str_of v else now)"

definition diagnostic :: "node_services \<Rightarrow> string \<Rightarrow> string" where
  "diagnostic sv s = es_diagnostic sv 4096 s"

definition diagnostic_text :: "node_services \<Rightarrow> pyval \<Rightarrow> string \<Rightarrow> string" where
  "diagnostic_text sv v dflt =
     (case v of PStr s \<Rightarrow> if s = [] then dflt else diagnostic sv s | _ \<Rightarrow> dflt)"

definition safe_connection_id :: "scanner \<Rightarrow> pyval \<Rightarrow> bool" where
  "safe_connection_id cred v \<longleftrightarrow>
     text_between 1 256 v \<and> str_of v = strip (str_of v) \<and> \<not> scan cred v"

record engine_update =
  eu_entry :: pydict
  eu_handle :: "pydict option"
  eu_artifacts :: "pydict list"

definition exec_update :: "int \<Rightarrow> pydict \<Rightarrow> engine_update" where
  "exec_update a fs = \<lparr>eu_entry = (''attempt'', PInt a) # fs, eu_handle = None, eu_artifacts = []\<rparr>"

definition with_handle :: "engine_handle \<Rightarrow> engine_update \<Rightarrow> engine_update" where
  "with_handle h u = u\<lparr>eu_handle := Some (handle_json h)\<rparr>"

definition thread_of :: "scanner \<Rightarrow> pyval \<Rightarrow> string res" where
  "thread_of cred config =
     rbind (case config of PNone \<Rightarrow> Inr [] | PDict d \<Rightarrow> Inr d
            | _ \<Rightarrow> bad ''execution phase configuration is invalid'') (\<lambda>d.
     rbind (case dget d ''configurable'' of PNone \<Rightarrow> Inr [] | PDict c \<Rightarrow> Inr c
            | _ \<Rightarrow> bad ''execution phase configuration is invalid'') (\<lambda>c.
     let t = dget c ''thread_id'' in
     if text_between 1 255 t \<and> str_of t = strip (str_of t) \<and> \<not> scan cred t then Inr (str_of t)
     else bad ''execution phase requires a safe durable thread_id; stateless execution is not allowed''))"

definition ENGINE_OPTION_FIELDS :: "string \<Rightarrow> string list" where
  "ENGINE_OPTION_FIELDS engine =
     (if engine = ''loadrunner'' then [''abortive_stop'', ''test_id'', ''test_instance_id'']
      else if engine = ''sim'' then [''fail_at_pct''] else [])"

definition option_value_ok :: "pyval \<Rightarrow> bool" where
  "option_value_ok v =
     (case v of
        PNone \<Rightarrow> True | PBool _ \<Rightarrow> True | PInt i \<Rightarrow> \<bar>i\<bar> < 2 ^ 128 | PFloat f \<Rightarrow> float_finite f
      | PStr s \<Rightarrow> text_between 0 2048 v | _ \<Rightarrow> False)"

definition engine_options :: "scanner \<Rightarrow> pydict \<Rightarrow> string \<Rightarrow> pydict res" where
  "engine_options cred entry engine =
     rbind (case dget entry ''engine_options'' of PNone \<Rightarrow> Inr [] | PDict d \<Rightarrow> Inr d
            | _ \<Rightarrow> bad ''checkpointed engine options are invalid'') (\<lambda>opts.
     if 16 < length opts \<or> \<not> list_all (\<lambda>kv. text_between 1 64 (PStr (fst kv))) opts
        \<or> \<not> list_all (\<lambda>kv. option_value_ok (snd kv)) opts
     then bad ''checkpointed engine options are invalid''
     else if cred 64 250000 32768 (PDict opts)
     then bad ''checkpointed engine options contain credential material''
     else if set (map fst opts) \<subseteq> set (ENGINE_OPTION_FIELDS engine) then Inr opts
     else bad ''unsupported load_test engine option(s)'')"

text \<open>
  The generation that fences the execution connection: nothing for a checkpoint from before
  generations, otherwise the connection of the handle with its version.
\<close>

definition parsed_version ::
  "node_services \<Rightarrow> string \<Rightarrow> bool \<Rightarrow> pyval \<Rightarrow> int option res" where
  "parsed_version sv what persisted v =
     (if v = PNone
      then (if persisted then Inl (RuntimeError (''persisted '' @ what @ '' affinity has no checkpointed version''))
            else Inr None)
      else if \<not> persisted \<or> \<not> scanned_text (es_cred sv) 64 v
      then Inl (RuntimeError (''checkpointed '' @ what @ '' connection version is inconsistent''))
      else (case ns_parse_time sv (str_of v) of
          None \<Rightarrow> Inl (RuntimeError (''checkpointed '' @ what @ '' connection version is malformed''))
        | Some None \<Rightarrow> Inl (RuntimeError (''checkpointed '' @ what @ '' connection version has no timezone''))
        | Some (Some t) \<Rightarrow> Inr (Some t)))"

definition is_bool :: "pyval \<Rightarrow> bool" where
  "is_bool v = (case v of PBool _ \<Rightarrow> True | _ \<Rightarrow> False)"

definition affinity_missing :: "exn + 'a" where
  "affinity_missing = Inl (RuntimeError
     (''engine run lacks durable execution-connection affinity; identify the original ''
      @ ''provider connection and recover the run out of band before retrying''))"

definition connection_affinity ::
  "node_services \<Rightarrow> pydict \<Rightarrow> engine_handle \<Rightarrow> (string option \<times> int option) res" where
  "connection_affinity sv entry h =
     (let staged = dget entry ''engine_connection_affinity_staged'';
          cid = dget entry ''engine_connection_id'';
          raw = dget entry ''engine_connection_persisted'';
          persisted = (raw = PBool True)
      in if staged \<noteq> PNone \<and> \<not> is_bool staged
         then Inl (RuntimeError ''checkpointed execution affinity flag is invalid'')
         else if staged \<noteq> PBool True
         then (if es_locked sv then affinity_missing else Inr (None, None))
         else if cid \<noteq> PNone \<and> \<not> safe_connection_id (es_cred sv) cid
         then Inl (RuntimeError ''checkpointed execution connection id is invalid'')
         else if cid \<noteq> optional_text (eh_connection h)
         then Inl (RuntimeError ''checkpointed execution handle does not match its connection affinity'')
         else if raw \<noteq> PNone \<and> \<not> is_bool raw
         then Inl (RuntimeError ''checkpointed execution persistence flag is invalid'')
         else if es_locked sv \<and> \<not> persisted then affinity_missing
         else rbind (parsed_version sv ''execution'' persisted (dget entry ''engine_connection_version''))
                (\<lambda>v. Inr (eh_connection h, v)))"

definition artifact_affinity :: "node_services \<Rightarrow> pydict \<Rightarrow> pyval \<Rightarrow> int option res" where
  "artifact_affinity sv entry cid =
     (let raw = dget entry ''artifact_store_connection_persisted''; persisted = (raw = PBool True)
      in if \<not> safe_connection_id (es_cred sv) cid
         then Inl (RuntimeError ''checkpointed artifact-store connection id is invalid'')
         else if raw \<noteq> PNone \<and> \<not> is_bool raw
         then Inl (RuntimeError ''checkpointed artifact-store persistence flag is invalid'')
         else if es_locked sv \<and> \<not> persisted
         then Inl (RuntimeError ''checkpointed artifact-store affinity has no durable connection generation'')
         else parsed_version sv ''artifact-store'' persisted (dget entry ''artifact_store_connection_version''))"

subsection \<open>What a provider returns\<close>

text \<open>
  \<open>_exact_provider_payload\<close>: a model instance arrives as the dict of its fields. The result is the
  payload.
\<close>

definition exact_payload :: "string \<Rightarrow> string list \<Rightarrow> string list \<Rightarrow> pyval \<Rightarrow> pydict res" where
  "exact_payload label allowed required v =
     (case v of
        PDict d \<Rightarrow>
          if distinct (map fst d) \<and> set (map fst d) \<subseteq> set allowed \<and> set required \<subseteq> set (map fst d)
          then Inr d else bad (label @ '' is invalid'')
      | _ \<Rightarrow> bad (label @ '' is invalid''))"

definition provider_text :: "nat \<Rightarrow> bool \<Rightarrow> pyval \<Rightarrow> bool" where
  "provider_text hi optional v \<longleftrightarrow> optional \<and> v = PNone \<or> text_between 0 hi v"

definition provider_number :: "pyval \<Rightarrow> bool" where
  "provider_number v =
     (case v of PInt i \<Rightarrow> \<bar>i\<bar> < 2 ^ 128 | PFloat f \<Rightarrow> float_finite f | _ \<Rightarrow> False)"

definition bounded_mapping :: "string \<Rightarrow> nat \<Rightarrow> nat \<Rightarrow> pyval \<Rightarrow> pydict res" where
  "bounded_mapping label items chars v =
     (case v of
        PDict d \<Rightarrow>
          if length d \<le> items \<and> distinct (map fst d) \<and> list_all (\<lambda>kv. text_between 1 chars (PStr (fst kv))) d
          then Inr d else bad (label @ '' is invalid'')
      | _ \<Rightarrow> bad (label @ '' is invalid''))"

definition number_within :: "rat \<Rightarrow> rat \<Rightarrow> pyval \<Rightarrow> bool" where
  "number_within lo hi v =
     (case number_of v of None \<Rightarrow> False | Some x \<Rightarrow> lo \<le> x \<and> x \<le> hi)"

definition as_float :: "pyval \<Rightarrow> pyval" where
  "as_float v = (case number_of v of None \<Rightarrow> v | Some x \<Rightarrow> PFloat (FFin x))"

definition engine_phase_value :: "engine_phase \<Rightarrow> string" where
  "engine_phase_value p =
     (case p of EProvisioning \<Rightarrow> ''provisioning'' | EReady \<Rightarrow> ''ready'' | ERunning \<Rightarrow> ''running''
      | EStopping \<Rightarrow> ''stopping'' | ECollecting \<Rightarrow> ''collecting'' | ECompleted \<Rightarrow> ''completed''
      | EFailed \<Rightarrow> ''failed'' | EAborted \<Rightarrow> ''aborted'')"

definition ENGINE_PHASES :: "engine_phase list" where
  "ENGINE_PHASES =
     [EProvisioning, EReady, ERunning, EStopping, ECollecting, ECompleted, EFailed, EAborted]"

definition engine_phase_of :: "string \<Rightarrow> engine_phase option" where
  "engine_phase_of s = find (\<lambda>p. engine_phase_value p = s) ENGINE_PHASES"

record engine_status =
  st_phase :: engine_phase
  st_progress :: pyval
  st_stats :: "pydict option"
  st_message :: "string option"

definition STAT_BOUNDS :: "(string \<times> rat) list" where
  "STAT_BOUNDS = [(''vusers'', 1000000000), (''tps'', 1000000000000), (''error_rate'', 1), (''p95_ms'', 1000000000000)]"

definition validated_stats :: "pyval \<Rightarrow> pydict option res" where
  "validated_stats v =
     (if v = PNone then Inr None
      else rbind (exact_payload ''engine status'' (map fst STAT_BOUNDS) [] v) (\<lambda>d.
        if list_all (\<lambda>kv. snd kv = PNone
             \<or> provider_number (snd kv) \<and> number_within 0 (the (map_of STAT_BOUNDS (fst kv))) (snd kv)) d
        then Inr (Some (map (\<lambda>(k, _). (k, as_float (dget d k))) STAT_BOUNDS))
        else bad ''engine status is invalid''))"

definition validated_status :: "node_services \<Rightarrow> pyval \<Rightarrow> engine_status res" where
  "validated_status sv v =
     rbind (exact_payload ''engine status'' [''phase'', ''progress_pct'', ''live_stats'', ''message''] [''phase''] v) (\<lambda>d.
     let progress = with_default (PFloat (FFin 0)) d ''progress_pct'' in
     if \<not> provider_text 32 False (dget d ''phase'') \<or> \<not> provider_number progress
        \<or> \<not> provider_text 4096 True (dget d ''message'')
     then bad ''engine status is invalid''
     else rbind (validated_stats (dget d ''live_stats'')) (\<lambda>stats.
       if es_cred sv 16 250000 8192 (PDict d)
       then bad ''engine status must not contain credential material''
       else case engine_phase_of (str_of (dget d ''phase'')) of
         None \<Rightarrow> bad ''engine status is invalid''
       | Some p \<Rightarrow>
           if number_within 0 100 progress
           then Inr \<lparr>st_phase = p, st_progress = as_float progress, st_stats = stats,
                     st_message = text_option (dget d ''message'')\<rparr>
           else bad ''engine status is invalid''))"

definition HANDLE_FIELDS :: "string list" where
  "HANDLE_FIELDS = [''engine'', ''connection_id'', ''external_run_id'', ''idempotency_key'', ''extras'']"

text \<open>
  \<open>unsafe\<close> allows credential material, which then stays in memory: the handle is built without its
  validators.
\<close>

definition validated_handle :: "node_services \<Rightarrow> bool \<Rightarrow> pyval \<Rightarrow> engine_handle res" where
  "validated_handle sv unsafe v =
     rbind (exact_payload ''engine handle'' HANDLE_FIELDS [''engine''] v) (\<lambda>d.
     if \<not> provider_text 64 False (dget d ''engine'') \<or> \<not> provider_text 256 True (dget d ''connection_id'')
        \<or> \<not> provider_text 255 True (dget d ''external_run_id'')
        \<or> \<not> provider_text 256 False (with_default (PStr []) d ''idempotency_key'')
     then bad ''engine handle is invalid''
     else rbind (bounded_mapping ''engine handle'' 32 64 (with_default (PDict []) d ''extras'')) (\<lambda>extras.
       if \<not> list_all (\<lambda>kv. provider_text 2048 False (snd kv)) extras then bad ''engine handle is invalid''
       else if es_cred sv 64 250000 32768 (PDict (dset ''extras'' (PDict extras) d))
       then (if unsafe then Inr (handle_fields (run_services sv) (dset ''extras'' (PDict extras) d))
             else bad ''engine handle must not contain credential material'')
       else (case handle_model (run_services sv) (dset ''extras'' (PDict extras) d) of
           None \<Rightarrow> bad ''engine handle is invalid''
         | Some h \<Rightarrow> Inr h)))"

text \<open>What the trusted handle fixes: the engine, the connection and the key.\<close>

definition pinned :: "engine_handle \<Rightarrow> engine_handle \<Rightarrow> engine_handle" where
  "pinned trusted h =
     h\<lparr>eh_engine := eh_engine trusted, eh_connection := eh_connection trusted, eh_key := eh_key trusted\<rparr>"

definition validated_started_handle :: "node_services \<Rightarrow> bool \<Rightarrow> engine_handle \<Rightarrow> pyval \<Rightarrow> engine_handle res" where
  "validated_started_handle sv unsafe trusted v =
     rbind (validated_handle sv unsafe v) (\<lambda>h. Inr (pinned trusted h))"

definition text_items :: "nat \<Rightarrow> nat \<Rightarrow> pyval \<Rightarrow> string list option" where
  "text_items n hi v =
     (case v of
        PList xs \<Rightarrow> if length xs \<le> n \<and> list_all (provider_text hi False) xs then Some (map str_of xs) else None
      | _ \<Rightarrow> None)"

text \<open>The report: whether it is ok, and its issues and warnings.\<close>

definition validated_report :: "scanner \<Rightarrow> pyval \<Rightarrow> (bool \<times> string list \<times> string list) res" where
  "validated_report cred v =
     rbind (exact_payload ''engine validation report'' [''ok'', ''issues'', ''warnings''] [] v) (\<lambda>d.
     case (with_default (PBool True) d ''ok'', text_items 128 2048 (with_default (PList []) d ''issues''),
           text_items 128 2048 (with_default (PList []) d ''warnings'')) of
       (PBool good, Some issues, Some warnings) \<Rightarrow>
         if cred 160 250000 300000 (PDict d)
         then bad ''engine validation report must not contain credential material''
         else if list_ex blank issues \<or> list_ex blank warnings then bad ''engine validation report is invalid''
         else Inr (good, issues, warnings)
     | _ \<Rightarrow> bad ''engine validation report is invalid'')"

record engine_summary =
  sm_engine :: string
  sm_passed :: "bool option"
  sm_outcome :: pyval
  sm_kpis :: pydict
  sm_breaches :: "string list"
  sm_notes :: "string option"

definition summary_json :: "engine_summary \<Rightarrow> pydict" where
  "summary_json m =
     [(''engine'', PStr (sm_engine m)),
      (''passed'', case sm_passed m of None \<Rightarrow> PNone | Some b \<Rightarrow> PBool b),
      (''outcome'', sm_outcome m), (''kpis'', PDict (sm_kpis m)),
      (''sla_breaches'', PList (map PStr (sm_breaches m))), (''notes'', optional_text (sm_notes m))]"

definition bool_option :: "pyval \<Rightarrow> bool option" where
  "bool_option v = (case v of PBool b \<Rightarrow> Some b | _ \<Rightarrow> None)"

definition kpi_ok :: "string \<times> pyval \<Rightarrow> bool" where
  "kpi_ok kv \<longleftrightarrow> \<not> blank (fst kv) \<and> number_within (- 1000000000000) 1000000000000 (snd kv)"

definition outcome_of :: "node_services \<Rightarrow> pyval \<Rightarrow> (pyval \<times> bool option) option res" where
  "outcome_of sv v =
     (if v = PNone then Inr None
      else case ns_outcome sv v of None \<Rightarrow> bad ''engine summary is invalid'' | Some x \<Rightarrow> Inr (Some x))"

definition validated_summary :: "node_services \<Rightarrow> string \<Rightarrow> pyval \<Rightarrow> engine_summary res" where
  "validated_summary sv expected v =
     rbind (exact_payload ''engine summary''
              [''engine'', ''passed'', ''kpis'', ''sla_breaches'', ''notes'', ''outcome''] [''engine'', ''passed''] v) (\<lambda>d.
     if \<not> provider_text 64 False (dget d ''engine'') \<or> \<not> (dget d ''passed'' = PNone \<or> is_bool (dget d ''passed''))
        \<or> \<not> provider_text 20000 True (dget d ''notes'')
     then bad ''engine summary is invalid''
     else rbind (bounded_mapping ''engine summary'' 64 64 (with_default (PDict []) d ''kpis'')) (\<lambda>kpis.
       if \<not> list_all (\<lambda>kv. provider_number (snd kv)) kpis then bad ''engine summary is invalid''
       else case text_items 128 2048 (with_default (PList []) d ''sla_breaches'') of
         None \<Rightarrow> bad ''engine summary is invalid''
       | Some breaches \<Rightarrow> rbind (outcome_of sv (dget d ''outcome'')) (\<lambda>outcome.
           let m = \<lparr>sm_engine = str_of (dget d ''engine''),
                    sm_passed = (case outcome of None \<Rightarrow> bool_option (dget d ''passed'') | Some (_, p) \<Rightarrow> p),
                    sm_outcome = (case outcome of None \<Rightarrow> PNone | Some (x, _) \<Rightarrow> x),
                    sm_kpis = map (\<lambda>kv. (fst kv, as_float (snd kv))) kpis, sm_breaches = breaches,
                    sm_notes = text_option (dget d ''notes'')\<rparr>
           in if es_cred sv 256 250000 300000 (PDict d)
              then bad ''engine summary must not contain credential material''
              else if sm_engine m = [] \<or> \<not> list_all kpi_ok kpis \<or> list_ex blank breaches
              then bad ''engine summary is invalid''
              else if sm_engine m \<noteq> expected
              then bad ''engine summary provider does not match the checkpointed engine''
              else Inr m)))"

definition handle_from :: "node_services \<Rightarrow> pydict \<Rightarrow> pydict \<Rightarrow> engine_handle res" where
  "handle_from sv state entry =
     (let top = dget state ''engine_handle''; nested = dget entry ''engine_handle'';
          read = (\<lambda>v. if v = PNone then Inr None
                      else rbind (validated_handle sv False v) (\<lambda>h. Inr (Some h)))
      in if top = PNone \<and> nested = PNone
         then bad ''execution phase: engine_handle missing from state (engine_start must run first)''
         else rbind (read top) (\<lambda>t. rbind (read nested) (\<lambda>n.
           case (t, n) of
             (Some a, Some b) \<Rightarrow> if a = b then Inr b else bad ''checkpointed execution handles are inconsistent''
           | (None, Some b) \<Rightarrow> Inr b
           | (Some a, None) \<Rightarrow> Inr a
           | (None, None) \<Rightarrow> bad ''checkpointed execution handle is missing'')))"

end
