(* ===== verification/Engine_Nodes.thy ===== *)
theory Engine_Nodes
  imports Engine_State
begin

text \<open>
  The nodes of the execution phase that start, watch and stop an engine run
  (src/apex/graphs/pipeline/execution_phase.py). A node reads the checkpoint \<open>state\<close>, makes its
  calls, and ends with a command (the next node and an update of the checkpoint), an interrupt, or
  an exception. Events of the stream and log lines are left out.
\<close>

datatype node_result = Moved string engine_update | Paused pyval

definition EXECUTION :: pyval where
  "EXECUTION = PStr ''execution''"

definition running :: "string \<times> pyval" where
  "running = (''status'', PStr ''running'')"

definition failed :: "string \<times> pyval" where
  "failed = (''status'', PStr ''failed'')"

definition flag :: "string \<Rightarrow> bool \<Rightarrow> string \<times> pyval" where
  "flag name b = (name, PBool b)"

definition count :: "string \<Rightarrow> int \<Rightarrow> string \<times> pyval" where
  "count name n = (name, PInt n)"

definition put_text :: "string \<Rightarrow> string \<Rightarrow> string \<times> pyval" where
  "put_text name s = (name, PStr s)"

definition cleared :: "string \<Rightarrow> string \<times> pyval" where
  "cleared name = (name, PNone)"

definition handle_field :: "engine_handle \<Rightarrow> string \<times> pyval" where
  "handle_field h = (''engine_handle'', PDict (handle_json h))"

definition ratio :: "int \<Rightarrow> int \<Rightarrow> string" where
  "ratio n m = ''('' @ int_text n @ ''/'' @ int_text m @ ''): ''"

subsection \<open>Projection calls and the pinned adapter\<close>

definition engine_namespace :: "node_services \<Rightarrow> string \<Rightarrow> string res" where
  "engine_namespace sv key =
     (if safe_key (es_cred sv) key then Inr (artifact_namespace key)
      else bad ''idempotency key is unsafe for an engine artifact namespace'')"

text \<open>The arguments of a projection call for a handle and its fence.\<close>

definition handle_args ::
  "engine_cfg \<Rightarrow> string \<Rightarrow> int \<Rightarrow> engine_handle \<Rightarrow> string option \<Rightarrow> int option \<Rightarrow> run_args" where
  "handle_args cfg thread a h cid ver =
     \<lparr>ra_thread = thread, ra_attempt = a, ra_engine = eh_engine h, ra_handle = handle_json h,
      ra_project = ec_project cfg, ra_app = ec_app cfg, ra_run = eh_run h,
      ra_namespace = Some (artifact_namespace (eh_key h)), ra_connection = cid, ra_version = ver,
      ra_artifact_connection = None, ra_artifact_version = None\<rparr>"

definition recorded ::
  "node_services \<Rightarrow> run_args \<Rightarrow> engine_phase \<Rightarrow> completion option \<Rightarrow> pyval option \<Rightarrow> int
   \<Rightarrow> engine_db \<Rightarrow> run_error + unit \<times> engine_db" where
  "recorded sv a status kind summary now db =
     rbind (record_run (run_services sv) True a status kind summary now db) (\<lambda>db'. Inr ((), db'))"

definition record_first ::
  "node_services \<Rightarrow> answers \<Rightarrow> run_args \<Rightarrow> engine_phase \<Rightarrow> completion option \<Rightarrow> pyval option \<Rightarrow> unit prog" where
  "record_first sv an a status kind summary =
     seq (pure (engine_namespace sv (str_of (dget (ra_handle a) ''idempotency_key'')))) (\<lambda>_.
     project sv (an_before an) (an_link an) (recorded sv a status kind summary (an_clock an)))"

definition record_second ::
  "node_services \<Rightarrow> answers \<Rightarrow> run_args \<Rightarrow> engine_phase \<Rightarrow> completion option \<Rightarrow> pyval option \<Rightarrow> unit prog" where
  "record_second sv an a status kind summary =
     seq (pure (engine_namespace sv (str_of (dget (ra_handle a) ''idempotency_key'')))) (\<lambda>_.
     project sv (an_between an) (an_link2 an) (recorded sv a status kind summary (an_clock an)))"

definition recovered ::
  "node_services \<Rightarrow> run_args \<Rightarrow> completion \<Rightarrow> engine_phase set \<Rightarrow> engine_db
   \<Rightarrow> run_error + engine_phase option \<times> engine_db" where
  "recovered sv a kind expected db =
     rbind (recover_completion (run_services sv) a kind expected db) (\<lambda>p. Inr (p, db))"

definition pinned_version :: "int option \<Rightarrow> int option option" where
  "pinned_version v = map_option Some v"

text \<open>\<open>connection_id or handle.connection_id\<close>.\<close>

definition or_else :: "string option \<Rightarrow> string option \<Rightarrow> string option" where
  "or_else a b = (if a = None \<or> a = Some [] then b else a)"

definition io_resolution_error ::
  "node_services \<Rightarrow> bool \<Rightarrow> bool \<Rightarrow> string option \<Rightarrow> int option \<Rightarrow> resolved \<Rightarrow> string option" where
  "io_resolution_error sv staged persisted expected ver r =
     (let c = rs_connection r
      in if rs_wrapped r
         then (if \<not> safe_connection_id (es_cred sv) c
               then Some ''execution resolver returned an invalid connection id''
               else if expected \<noteq> None \<and> c \<noteq> optional_text expected
               then Some ''execution resolver did not honor checkpointed connection affinity''
               else if staged \<and> (rs_persisted r \<noteq> persisted \<or> rs_version r \<noteq> pinned_version ver)
               then Some ''execution connection changed after its checkpointed affinity reservation''
               else None)
         else if c \<noteq> PNone \<and> \<not> safe_connection_id (es_cred sv) c
         then Some ''execution resolver returned an invalid connection id''
         else if c \<noteq> PNone \<and> expected \<noteq> None \<and> c \<noteq> optional_text expected
         then Some ''execution resolver did not honor checkpointed connection affinity''
         else if rs_version r \<noteq> None \<and> (\<not> staged \<or> rs_version r \<noteq> pinned_version ver)
         then Some ''execution connection changed after its checkpointed affinity reservation''
         else if staged \<and> persisted \<and> es_locked sv \<and> (c = PNone \<or> rs_version r = None)
         then Some ''execution resolver returned no connection-generation metadata''
         else None)"

definition resolve_for_io ::
  "node_services \<Rightarrow> answers \<Rightarrow> pydict \<Rightarrow> engine_handle \<Rightarrow> string option \<Rightarrow> int option \<Rightarrow> unit prog" where
  "resolve_for_io sv an entry h cid ver =
     (case an_resolve an of
        Inl m \<Rightarrow> raise (Plain m)
      | Inr r \<Rightarrow>
          let expected = or_else cid (eh_connection h)
          in if expected \<noteq> None \<and> \<not> safe_connection_id (es_cred sv) (optional_text expected)
             then raise (Plain ''checkpointed execution connection id is invalid'')
             else seq (pure (checkpoint_flag entry ''engine_connection_affinity_staged'')) (\<lambda>staged.
                  seq (pure (checkpoint_flag entry ''engine_connection_persisted'')) (\<lambda>persisted.
                  case io_resolution_error sv staged persisted expected ver r of
                    Some m \<Rightarrow> raise (Plain m) | None \<Rightarrow> ret ())))"

definition status_answer :: "answers \<Rightarrow> engine_exn + pyval" where
  "status_answer an =
     (case an_status an of
        Inl RunGone \<Rightarrow> Inl ProviderGone | Inl (Failure m) \<Rightarrow> Inl (Plain m) | Inr v \<Rightarrow> Inr v)"

definition get_status :: "node_services \<Rightarrow> answers \<Rightarrow> engine_handle \<Rightarrow> engine_status prog" where
  "get_status sv an h = seq (call (PStatus h) (status_answer an)) (\<lambda>v. pure (validated_status sv v))"

definition on_gone :: "'a prog \<Rightarrow> 'a prog \<Rightarrow> 'a prog" where
  "on_gone m n = attempt m (\<lambda>e. if e = ProviderGone then n else raise e)"

text \<open>The abort with its confirmation; \<open>left\<close> is the handle as the provider left it.\<close>

definition compensate_unsafe :: "node_services \<Rightarrow> answers \<Rightarrow> engine_handle \<Rightarrow> unit prog" where
  "compensate_unsafe sv an h =
     (let left = handle_fields (run_services sv) (case snd (an_abort an) of PDict d \<Rightarrow> d | _ \<Rightarrow> [])
      in attempt
           (seq (call (PAbort h) (unit_call (fst (an_abort an)))) (\<lambda>_.
            seq (on_gone (seq (get_status sv an left) (\<lambda>st. ret (Some st))) (ret None)) (\<lambda>st.
            case st of
              Some s \<Rightarrow> if terminal_phase (st_phase s) then call (PTeardown left) (unit_call (an_teardown an))
                        else raise (Plain ''compensating abort did not reach a terminal state'')
            | None \<Rightarrow> call (PTeardown left) (unit_call (an_teardown an)))))
           (\<lambda>_. raise (Plain ''unsafe engine handle compensation could not be confirmed'')))"

definition confirm_abort ::
  "node_services \<Rightarrow> answers \<Rightarrow> engine_handle \<Rightarrow> (engine_phase \<times> engine_handle) prog" where
  "confirm_abort sv an h =
     seq (call (PAbort h) (unit_call (fst (an_abort an)))) (\<lambda>_.
     seq (pure (validated_handle sv False (snd (an_abort an)))) (\<lambda>candidate.
     let follow = (pinned h candidate)\<lparr>eh_run := eh_run h\<rparr>
     in seq (on_gone (seq (get_status sv an follow) (\<lambda>st. ret (Some st))) (ret None)) (\<lambda>st.
        case st of
          None \<Rightarrow> ret (EAborted, follow)
        | Some s \<Rightarrow>
            if terminal_phase (st_phase s) then ret (st_phase s, follow)
            else raise (Plain (''abort accepted but external run remains '' @ engine_phase_value (st_phase s))))))"

subsection \<open>Start\<close>

definition join_errors :: "node_services \<Rightarrow> string option \<Rightarrow> string \<Rightarrow> string" where
  "join_errors sv before detail =
     (case before of None \<Rightarrow> detail | Some m \<Rightarrow> diagnostic sv (m @ ''; '' @ detail))"

text \<open>The call itself: its error, and the copy of the handle that the provider was given.\<close>

definition start_call ::
  "node_services \<Rightarrow> engine_cfg \<Rightarrow> answers \<Rightarrow> engine_handle \<Rightarrow> (string option \<times> pyval) prog" where
  "start_call sv cfg an h =
     (case (if ec_dispatch cfg then an_binding an else Inr True) of
        Inl m \<Rightarrow> ret (Some (diagnostic sv m), PDict (handle_json h))
      | Inr _ \<Rightarrow>
          attempt (seq (call (PStart h) (unit_call (fst (an_start an)))) (\<lambda>_. ret (None, snd (an_start an))))
            (\<lambda>e. ret (Some (diagnostic sv (error_text e)), snd (an_start an))))"

text \<open>\<open>_start\<close>: the error, the handle to keep, and whether an unsafe run was compensated.\<close>

definition start_run ::
  "node_services \<Rightarrow> engine_cfg \<Rightarrow> answers \<Rightarrow> pydict \<Rightarrow> engine_handle \<Rightarrow> string option \<Rightarrow> int option
   \<Rightarrow> (string option \<times> engine_handle \<times> bool) prog" where
  "start_run sv cfg an entry h cid ver =
     seq (resolve_for_io sv an entry h cid ver) (\<lambda>_.
     seq (start_call sv cfg an h) (\<lambda>(err, v).
     case validated_started_handle sv False h v of
       Inr started \<Rightarrow> ret (err, started, False)
     | Inl x \<Rightarrow>
         let detail = diagnostic sv (''provider returned an invalid start handle: '' @ diagnostic sv (exn_text x));
             give_up = (\<lambda>d. ret (Some (join_errors sv err d), h, False))
         in case validated_started_handle sv True h v of
              Inl _ \<Rightarrow> give_up detail
            | Inr u \<Rightarrow>
                if \<not> scan (es_cred sv) (PDict (handle_json u)) then give_up detail
                else seq (attempt (seq (compensate_unsafe sv an u) (\<lambda>_. ret True)) (\<lambda>_. ret False)) (\<lambda>confirmed.
                  if confirmed
                  then ret (Some (diagnostic sv (join_errors sv err detail @ ''; unsafe start handle was compensated'')),
                            h, True)
                  else give_up (diagnostic sv (detail @ ''; unsafe start handle compensation could not be confirmed'')))))"

definition engine_start ::
  "node_services \<Rightarrow> engine_cfg \<Rightarrow> string \<Rightarrow> answers \<Rightarrow> pydict \<Rightarrow> node_result prog" where
  "engine_start sv cfg thread an state =
     seq (pure (exec_entry state)) (\<lambda>entry.
     seq (pure (exec_attempt entry)) (\<lambda>a.
     seq (pure (handle_from sv state entry)) (\<lambda>h.
     seq (pure (engine_options (es_cred sv) entry (ec_engine cfg))) (\<lambda>_.
     seq (pure (connection_affinity sv entry h)) (\<lambda>(cid, ver).
     seq (project sv (an_before an) (an_link an)
            (prepare_start (run_services sv) (handle_args cfg thread a h cid ver))) (\<lambda>got.
     case got of
       Some d \<Rightarrow>
         seq (pure (validated_started_handle sv False h (PDict d))) (\<lambda>h'.
           ret (Moved ''engine_status'' (with_handle h' (exec_update a
             [handle_field h',
              put_text ''engine_started_at''
                (checkpoint_timestamp_or_now sv (an_now an) (dget entry ''engine_started_at''))]))))
     | None \<Rightarrow>
         seq (attempt (start_run sv cfg an entry h cid ver)
                (\<lambda>e. ret (Some (diagnostic sv (error_text e)), h, False))) (\<lambda>(err, h', compensated).
         if compensated
         then seq (record_second sv an (handle_args cfg thread a h' cid ver\<lparr>ra_run := None\<rparr>) EFailed None None) (\<lambda>_.
              ret (Moved ''finalize'' (with_handle h' (exec_update a
                [failed, handle_field h', flag ''engine_cleanup_required'' False,
                 cleared ''engine_cleanup_reason'', cleared ''engine_cleanup_final_error'',
                 count ''engine_cleanup_failures'' 0,
                 (''errors'', PList [PStr (''execution engine returned an unsafe start handle; ''
                    @ ''remote run was compensated'')])]))))
         else case err of
           Some m \<Rightarrow>
             ret (Moved ''engine_cleanup'' (with_handle h' (exec_update a
               [handle_field h', flag ''engine_cleanup_required'' True,
                put_text ''engine_cleanup_reason'' (diagnostic sv (''start failed: '' @ m)),
                put_text ''engine_cleanup_final_error'' (diagnostic sv (''execution engine start failed: '' @ m)),
                count ''engine_cleanup_failures'' 0])))
         | None \<Rightarrow>
             seq (record_second sv an (handle_args cfg thread a h' cid ver) ERunning None None) (\<lambda>_.
             ret (Moved ''engine_status'' (with_handle h' (exec_update a
               [handle_field h', put_text ''engine_started_at'' (an_now an)])))))))))))"

subsection \<open>Status and polling\<close>

definition MAX_CONSECUTIVE_POLL_ERRORS :: int where
  "MAX_CONSECUTIVE_POLL_ERRORS = 3"

text \<open>\<open>MAX_POLL_CYCLES * 2 + 64\<close>.\<close>

definition MAX_RECURSION_LIMIT :: int where
  "MAX_RECURSION_LIMIT = 50000 * 2 + 64"

definition poll_sample :: "node_services \<Rightarrow> answers \<Rightarrow> engine_status \<Rightarrow> pyval" where
  "poll_sample sv an st =
     PDict ([(''at'', PStr (an_now an)), (''status'', PStr (engine_phase_value (st_phase st))),
             (''progress_pct'', st_progress st)]
            @ (case st_stats st of None \<Rightarrow> [] | Some d \<Rightarrow> [(''live_stats'', PDict d)])
            @ (case st_message st of
                 None \<Rightarrow> []
               | Some m \<Rightarrow> if m = [] then [] else [(''message'', PStr (diagnostic sv m))]))"

text \<open>One read of the status of the provider: the status, or the text of what went wrong.\<close>

definition read_status ::
  "node_services \<Rightarrow> answers \<Rightarrow> pydict \<Rightarrow> engine_handle \<Rightarrow> string option \<Rightarrow> int option
   \<Rightarrow> (string + engine_status) prog" where
  "read_status sv an entry h cid ver =
     attempt (seq (resolve_for_io sv an entry h cid ver) (\<lambda>_. seq (get_status sv an h) (\<lambda>st. ret (Inr st))))
       (\<lambda>e. ret (Inl (diagnostic sv (error_text e))))"

definition engine_status_node :: "node_services \<Rightarrow> engine_cfg \<Rightarrow> answers \<Rightarrow> pydict \<Rightarrow> node_result prog" where
  "engine_status_node sv cfg an state =
     seq (pure (exec_entry state)) (\<lambda>entry.
     seq (pure (exec_attempt entry)) (\<lambda>a.
     seq (pure (handle_from sv state entry)) (\<lambda>h.
     seq (pure (engine_options (es_cred sv) entry (ec_engine cfg))) (\<lambda>_.
     seq (pure (connection_affinity sv entry h)) (\<lambda>(cid, ver).
     seq (pure (checkpoint_int ''engine poll count'' 0 0 (MAX_RECURSION_LIMIT - 1)
                  (dget entry ''engine_poll_count''))) (\<lambda>prior.
     seq (read_status sv an entry h cid ver) (\<lambda>answer.
     case answer of
       Inl m \<Rightarrow>
         seq (pure (counter entry ''engine poll error count'' ''engine_poll_errors'')) (\<lambda>n.
         ret (Moved ''engine_poll'' (exec_update a
           [count ''engine_poll_count'' prior, count ''engine_poll_errors'' (n + 1),
            put_text ''engine_poll_error_last'' (diagnostic sv (''execution engine initial status failed ''
              @ ratio (n + 1) MAX_CONSECUTIVE_POLL_ERRORS @ m))])))
     | Inr st \<Rightarrow>
         ret (Moved (if terminal_phase (st_phase st) then ''engine_collect'' else ''engine_poll'')
           (exec_update a
             [(''engine_poll_last'', poll_sample sv an st), count ''engine_poll_count'' (prior + 1),
              count ''engine_poll_errors'' 0])))))))))"

definition timeout_error :: "engine_cfg \<Rightarrow> answers \<Rightarrow> engine_handle \<Rightarrow> bool \<Rightarrow> string" where
  "timeout_error cfg an h cycles =
     ''execution engine run '' @ (case eh_run h of None \<Rightarrow> ''None'' | Some r \<Rightarrow> r) @ '' timed out after ''
     @ an_observed an @ '' (limits.poll_timeout_s='' @ ec_timeout_text cfg
     @ (if cycles then ''; durable poll-cycle budget '' @ int_text (ec_cycles cfg) @ '' exhausted'' else []) @ '')''"

definition poll_failed ::
  "node_services \<Rightarrow> int \<Rightarrow> int \<Rightarrow> string \<Rightarrow> node_result" where
  "poll_failed sv a n m =
     (let message = diagnostic sv (''execution engine poll failed '' @ ratio n MAX_CONSECUTIVE_POLL_ERRORS @ m)
      in if n < MAX_CONSECUTIVE_POLL_ERRORS
         then Moved ''engine_poll'' (exec_update a
                [count ''engine_poll_errors'' n, put_text ''engine_poll_error_last'' message])
         else Moved ''engine_cleanup'' (exec_update a
                [count ''engine_poll_errors'' n, flag ''engine_cleanup_required'' True,
                 put_text ''engine_cleanup_reason'' message, put_text ''engine_cleanup_final_error'' message,
                 count ''engine_cleanup_failures'' 0]))"

definition polled ::
  "node_services \<Rightarrow> engine_cfg \<Rightarrow> answers \<Rightarrow> int \<Rightarrow> engine_handle \<Rightarrow> int \<Rightarrow> engine_status \<Rightarrow> node_result" where
  "polled sv cfg an a h n st =
     (let seen = [(''engine_poll_last'', poll_sample sv an st), count ''engine_poll_count'' n];
          cycles = (ec_cycles cfg \<le> n)
      in if terminal_phase (st_phase st)
         then Moved ''engine_collect'' (exec_update a (seen @ [count ''engine_poll_errors'' 0]))
         else if an_overdue an \<or> cycles
         then Moved ''engine_cleanup'' (exec_update a (seen @
                [flag ''engine_cleanup_required'' True,
                 put_text ''engine_cleanup_reason'' (''poll timeout after '' @ ec_timeout_text cfg @ ''s''),
                 put_text ''engine_cleanup_final_error'' (timeout_error cfg an h cycles),
                 count ''engine_cleanup_failures'' 0]))
         else Moved ''engine_poll'' (exec_update a (seen @ [count ''engine_poll_errors'' 0])))"

definition engine_poll :: "node_services \<Rightarrow> engine_cfg \<Rightarrow> answers \<Rightarrow> pydict \<Rightarrow> node_result prog" where
  "engine_poll sv cfg an state =
     seq (pure (exec_entry state)) (\<lambda>entry.
     seq (pure (exec_attempt entry)) (\<lambda>a.
     seq (pure (handle_from sv state entry)) (\<lambda>h.
     seq (pure (engine_options (es_cred sv) entry (ec_engine cfg))) (\<lambda>_.
     seq (pure (connection_affinity sv entry h)) (\<lambda>(cid, ver).
     seq (read_status sv an entry h cid ver) (\<lambda>answer.
     case answer of
       Inl m \<Rightarrow>
         seq (pure (counter entry ''engine poll error count'' ''engine_poll_errors'')) (\<lambda>n.
         ret (poll_failed sv a (n + 1) m))
     | Inr st \<Rightarrow>
         seq (pure (checkpoint_int ''engine poll count'' 0 0 MAX_RECURSION_LIMIT
                      (dget entry ''engine_poll_count''))) (\<lambda>n.
         ret (polled sv cfg an a h (n + 1) st))))))))"

subsection \<open>Cleanup\<close>

definition terminal_phases :: "engine_phase set" where
  "terminal_phases = {ECompleted, EFailed, EAborted}"

text \<open>The witness of an earlier cleanup whose acknowledgement was lost.\<close>

definition recover_cleanup ::
  "node_services \<Rightarrow> answers \<Rightarrow> run_args \<Rightarrow> engine_phase option prog" where
  "recover_cleanup sv an args =
     (if ra_connection args \<noteq> None \<and> ra_version args \<noteq> None
      then seq (pure (engine_namespace sv (str_of (dget (ra_handle args) ''idempotency_key'')))) (\<lambda>_.
           project sv (an_before an) (an_link an) (recovered sv args CleanupTeardown terminal_phases))
      else ret None)"

definition stop_run ::
  "node_services \<Rightarrow> answers \<Rightarrow> pydict \<Rightarrow> engine_handle \<Rightarrow> string option \<Rightarrow> int option \<Rightarrow> engine_phase prog" where
  "stop_run sv an entry h cid ver =
     seq (resolve_for_io sv an entry h cid ver) (\<lambda>_.
     seq (confirm_abort sv an h) (\<lambda>(p, follow).
     seq (call (PTeardown follow) (unit_call (an_teardown an))) (\<lambda>_. ret p)))"

definition cleanup_failed :: "engine_cfg \<Rightarrow> int \<Rightarrow> int \<Rightarrow> string \<Rightarrow> node_result" where
  "cleanup_failed cfg a n detail =
     (let blocked = (max 3 (ec_cycles cfg) \<le> n)
      in Moved (if blocked then ''engine_cleanup_blocked'' else ''engine_cleanup'') (exec_update a
           [running, flag ''engine_cleanup_required'' True, flag ''engine_cleanup_blocked'' blocked,
            count ''engine_cleanup_failures'' n, put_text ''engine_cleanup_last_error'' detail]))"

definition cleanup_done :: "node_services \<Rightarrow> answers \<Rightarrow> pydict \<Rightarrow> int \<Rightarrow> string \<Rightarrow> engine_phase \<Rightarrow> node_result" where
  "cleanup_done sv an entry a reason p =
     (let outcome = (if p = EAborted then ''external engine abort confirmed''
                     else ''external engine reached '' @ engine_phase_value p @ '' during cleanup'')
      in Moved ''finalize'' (exec_update a
           [failed,
            (''errors'', PList [PStr (diagnostic sv
               (diagnostic_text sv (dget entry ''engine_cleanup_final_error'') reason @ ''; '' @ outcome))]),
            flag ''engine_cleanup_required'' False, flag ''engine_cleanup_blocked'' False,
            put_text ''engine_cleanup_completed_at'' (an_now an), cleared ''engine_cleanup_last_error'']))"

definition engine_cleanup ::
  "node_services \<Rightarrow> engine_cfg \<Rightarrow> string \<Rightarrow> answers \<Rightarrow> pydict \<Rightarrow> node_result prog" where
  "engine_cleanup sv cfg thread an state =
     seq (pure (exec_entry state)) (\<lambda>entry.
     seq (pure (exec_attempt entry)) (\<lambda>a.
     seq (pure (handle_from sv state entry)) (\<lambda>h.
     seq (pure (engine_options (es_cred sv) entry (ec_engine cfg))) (\<lambda>_.
     let reason = diagnostic_text sv (dget entry ''engine_cleanup_reason'') ''execution cleanup required'' in
     seq (pure (connection_affinity sv entry h)) (\<lambda>(cid, ver).
     let args = handle_args cfg thread a h cid ver;
         kind = (if cid \<noteq> None \<and> ver \<noteq> None then Some CleanupTeardown else None) in
     seq (recover_cleanup sv an args) (\<lambda>was.
     seq (attempt (case was of Some p \<Rightarrow> ret (Inr p)
                   | None \<Rightarrow> seq (stop_run sv an entry h cid ver) (\<lambda>p. ret (Inr p)))
            (\<lambda>e. ret (Inl (diagnostic sv (error_text e))))) (\<lambda>stopped.
     case stopped of
       Inl m \<Rightarrow>
         seq (pure (checkpoint_int ''engine cleanup failure count'' 0 0 MAX_RECURSION_LIMIT
                      (dget entry ''engine_cleanup_failures''))) (\<lambda>n.
         ret (cleanup_failed cfg a (n + 1) m))
     | Inr p \<Rightarrow>
         seq (case was of Some _ \<Rightarrow> ret () | None \<Rightarrow> record_second sv an args p kind None) (\<lambda>_.
         ret (cleanup_done sv an entry a reason p)))))))))"

subsection \<open>Blocked nodes and the router\<close>

definition retry_payload :: "string \<Rightarrow> int \<Rightarrow> string \<Rightarrow> string \<Rightarrow> string \<Rightarrow> pyval" where
  "retry_payload kind a thread detail message =
     PDict [(''schema_version'', PInt 1), put_text ''kind'' kind, (''phase'', EXECUTION),
            count ''attempt'' a, put_text ''thread_id'' thread, (''actions'', PList [PStr ''retry'']),
            put_text ''error'' detail, put_text ''message'' message]"

definition reopened_cleanup :: "int \<Rightarrow> node_result" where
  "reopened_cleanup a =
     Moved ''engine_cleanup'' (exec_update a
       [running, flag ''engine_cleanup_required'' True, flag ''engine_cleanup_blocked'' False,
        count ''engine_cleanup_failures'' 0, cleared ''engine_cleanup_last_error''])"

text \<open>
  A blocked node waits for a decision, whatever it is; \<open>resumed\<close> says whether one has arrived.
\<close>

definition engine_cleanup_blocked ::
  "node_services \<Rightarrow> string \<Rightarrow> bool \<Rightarrow> pydict \<Rightarrow> node_result prog" where
  "engine_cleanup_blocked sv thread resumed state =
     seq (pure (exec_entry state)) (\<lambda>entry.
     seq (pure (exec_attempt entry)) (\<lambda>a.
     if resumed then ret (reopened_cleanup a)
     else ret (Paused (retry_payload ''engine_cleanup_retry'' a thread
            (diagnostic sv (diagnostic_text sv (dget entry ''engine_cleanup_last_error'')
              ''external engine abort remains unconfirmed''))
            (''Engine abort confirmation exhausted its retry budget. The exact ''
             @ ''provider handle remains durable; resume to retry abort and teardown.'')))))"

definition route_execution_entry :: "pydict \<Rightarrow> string res" where
  "route_execution_entry state =
     rbind (exec_entry state) (\<lambda>entry.
     rbind (checkpoint_flag entry ''engine_cleanup_required'') (\<lambda>cleanup.
     if cleanup then Inr ''engine_cleanup'' else
     rbind (checkpoint_flag entry ''engine_collection_settle_required'') (\<lambda>settle.
     if settle then Inr ''engine_collection_settle_resume'' else
     rbind (checkpoint_flag entry ''engine_collection_staged'') (\<lambda>staged.
     if staged then Inr ''engine_collection_settle'' else
     rbind (checkpoint_flag entry ''engine_collection_settled'') (\<lambda>settled.
     if settled
     then (if dget entry ''engine_collection_next'' \<in> {PStr ''open_output_gate'', PStr ''finalize''}
           then Inr (str_of (dget entry ''engine_collection_next''))
           else Inl (RuntimeError ''settled engine collection has no valid continuation'')) else
     rbind (checkpoint_flag entry ''engine_collection_index_required'') (\<lambda>index.
     if index then Inr ''engine_collection_resume'' else
     rbind (checkpoint_flag entry ''engine_collection_required'') (\<lambda>collect.
     if collect then Inr ''engine_collection_resume'' else
     rbind (checkpoint_flag entry ''engine_provision_required'') (\<lambda>provision.
     Inr (if provision then ''engine_provision_resume'' else ''prepare'')))))))))"

end
