(* ===== verification/Engine_Provision.thy ===== *)
theory Engine_Provision
  imports Engine_Nodes
begin

text \<open>
  The nodes that reserve and provision an engine run
  (src/apex/graphs/pipeline/execution_phase.py). The specification of a reservation (the target of
  the catalog and the overrides of the run) is an answer of the outside world.
\<close>

subsection \<open>The checkpointed specification\<close>

definition execution_idempotency_key :: "string \<Rightarrow> int \<Rightarrow> string" where
  "execution_idempotency_key thread a = thread @ ''-execution-a'' @ int_text a"

definition SPEC_FIELDS :: "string list" where
  "SPEC_FIELDS = [''idempotency_key'', ''title'', ''script_refs'', ''vusers'', ''ramp_s'', ''duration_s'', ''slas'',
                  ''target_environment'', ''release_id'', ''mapping_revision'']"

definition script_ref_ok :: "pyval \<Rightarrow> bool" where
  "script_ref_ok v \<longleftrightarrow> text_between 1 2048 v \<and> \<not> blank (str_of v)"

definition sla_entry_ok :: "string \<times> pyval \<Rightarrow> bool" where
  "sla_entry_ok kv \<longleftrightarrow> text_between 1 64 (PStr (fst kv)) \<and> \<not> blank (fst kv)
     \<and> provider_number (snd kv) \<and> number_within 0 1000000000000 (snd kv)"

definition positive_number :: "pyval \<Rightarrow> bool" where
  "positive_number v = (case number_of v of None \<Rightarrow> False | Some x \<Rightarrow> 0 < x)"

text \<open>The bounds of the fields; the result is the key, which is all that the nodes below read.\<close>

definition spec_fields_ok :: "pydict \<Rightarrow> bool" where
  "spec_fields_ok d \<longleftrightarrow>
     length d \<le> length SPEC_FIELDS \<and> set (map fst d) \<subseteq> set SPEC_FIELDS
     \<and> text_between 1 1000 (dget d ''title'') \<and> text_between 1 256 (dget d ''idempotency_key'')
     \<and> (case with_default (PList []) d ''script_refs'' of
          PList xs \<Rightarrow> length xs \<le> 100 \<and> list_all script_ref_ok xs | _ \<Rightarrow> False)
     \<and> (case with_default (PInt 10) d ''vusers'' of PInt n \<Rightarrow> 1 \<le> n \<and> n \<le> 10000 | _ \<Rightarrow> False)
     \<and> (let ramp = with_default (PFloat (FFin 5)) d ''ramp_s'' in provider_number ramp \<and> number_within 0 86400 ramp)
     \<and> (let time = with_default (PFloat (FFin 2)) d ''duration_s''
        in provider_number time \<and> positive_number time \<and> number_within 0 86400 time)
     \<and> (case with_default (PDict []) d ''slas'' of
          PDict s \<Rightarrow> length s \<le> 32 \<and> list_all sla_entry_ok s | _ \<Rightarrow> False)
     \<and> (dget d ''target_environment'' = PNone \<or> text_between 0 2048 (dget d ''target_environment''))"

text \<open>\<open>ns_spec_model\<close> is the validation by the model \<open>LoadTestSpec\<close>.\<close>

definition checkpoint_spec :: "node_services \<Rightarrow> (pydict \<Rightarrow> bool) \<Rightarrow> pyval \<Rightarrow> string res" where
  "checkpoint_spec sv spec_model v =
     (case v of
        PDict d \<Rightarrow>
          if \<not> spec_fields_ok d then bad ''checkpointed load-test spec is invalid''
          else if es_cred sv 256 250000 300000 v then bad ''checkpointed load-test spec contains credential material''
          else if spec_model d then Inr (str_of (dget d ''idempotency_key''))
          else bad ''checkpointed load-test spec is invalid''
      | _ \<Rightarrow> bad ''checkpointed load-test spec is invalid'')"

subsection \<open>Reserve\<close>

definition engine_reserve :: "node_services \<Rightarrow> engine_cfg \<Rightarrow> answers \<Rightarrow> pydict \<Rightarrow> node_result prog" where
  "engine_reserve sv cfg an state =
     seq (pure (exec_entry state)) (\<lambda>entry.
     seq (pure (exec_attempt entry)) (\<lambda>a.
     case an_spec an of
       Inl m \<Rightarrow>
         ret (Moved ''finalize'' (exec_update a
           [failed, put_text ''engine'' (ec_engine cfg),
            (''errors'', PList [PStr (diagnostic sv (''load_test validation failed: '' @ diagnostic sv m))])]))
     | Inr (spec, opts) \<Rightarrow>
         ret (Moved ''engine_provision'' (exec_update a
           [(''load_test_spec'', PDict spec), put_text ''engine'' (ec_engine cfg),
            (''engine_connection_id'', optional_text (ec_connection cfg)), (''engine_options'', PDict opts)]))))"

subsection \<open>Provision\<close>

definition MAX_ENGINE_PROVISION_ATTEMPTS :: int where
  "MAX_ENGINE_PROVISION_ATTEMPTS = 3"

definition retry_provision ::
  "node_services \<Rightarrow> pydict \<Rightarrow> int \<Rightarrow> string \<Rightarrow> pydict \<Rightarrow> node_result prog" where
  "retry_provision sv entry a m fs =
     seq (pure (counter entry ''engine provision failure count'' ''engine_provision_failures'')) (\<lambda>n0.
     let n = n0 + 1; blocked = (MAX_ENGINE_PROVISION_ATTEMPTS \<le> n) in
     ret (Moved (if blocked then ''engine_provision_blocked'' else ''engine_provision'') (exec_update a
       ([running, flag ''engine_provision_required'' True, flag ''engine_provision_blocked'' blocked,
         count ''engine_provision_failures'' n,
         put_text ''engine_provision_last_error'' (diagnostic sv (''engine provisioning failed ''
           @ ratio n MAX_ENGINE_PROVISION_ATTEMPTS @ es_diagnostic sv 2048 m))] @ fs))))"

definition unstaged :: pydict where
  "unstaged =
     [cleared ''engine_connection_id'', cleared ''engine_connection_version'',
      flag ''engine_connection_persisted'' False, flag ''engine_connection_affinity_staged'' False]"

text \<open>
  The connection that a resolution names: that of the metadata, or else the checkpointed one, or
  else the configured one (for a raw adapter only).
\<close>

definition named_connection :: "resolved \<Rightarrow> string option \<Rightarrow> string option \<Rightarrow> pyval" where
  "named_connection r cid dflt =
     (if rs_wrapped r \<or> rs_connection r \<noteq> PNone then rs_connection r
      else if cid \<noteq> None then optional_text cid else optional_text dflt)"

definition is_persisted :: "resolved \<Rightarrow> bool" where
  "is_persisted r = (if rs_wrapped r then rs_persisted r else rs_version r \<noteq> None)"

definition version_text :: "node_services \<Rightarrow> int option option \<Rightarrow> pyval" where
  "version_text sv v = (case v of Some (Some t) \<Rightarrow> PStr (ns_iso sv t) | _ \<Rightarrow> PNone)"

definition staging_error ::
  "node_services \<Rightarrow> engine_cfg \<Rightarrow> string option \<Rightarrow> resolved \<Rightarrow> string option" where
  "staging_error sv cfg cid r =
     (let c = named_connection r cid (ec_connection cfg)
      in if \<not> safe_connection_id (es_cred sv) c
         then Some ''resolved execution connection has no valid durable id''
         else if cid \<noteq> None \<and> c \<noteq> optional_text cid
         then Some ''execution resolver did not honor checkpointed connection affinity''
         else if rs_version r = Some None then Some ''resolved execution connection has an invalid version''
         else if is_persisted r \<and> rs_version r = None
         then Some (''persisted execution connection '' @ str_of c @ '' has no version'')
         else if es_locked sv \<and> \<not> is_persisted r
         then Some ''locked execution requires a durable connection generation''
         else None)"

text \<open>The superstep that pins the connection, before any call of the provider.\<close>

definition stage_affinity ::
  "node_services \<Rightarrow> engine_cfg \<Rightarrow> answers \<Rightarrow> pydict \<Rightarrow> int \<Rightarrow> string option \<Rightarrow> node_result prog" where
  "stage_affinity sv cfg an entry a cid =
     (case an_resolve an of
        Inl m \<Rightarrow> retry_provision sv entry a m []
      | Inr r \<Rightarrow>
          (case staging_error sv cfg cid r of
             Some m \<Rightarrow> retry_provision sv entry a m []
           | None \<Rightarrow>
               seq (pure (counter entry ''engine provision failure count'' ''engine_provision_failures'')) (\<lambda>n.
               ret (Moved ''engine_provision'' (exec_update a
                 [running, (''engine_connection_id'', named_connection r cid (ec_connection cfg)),
                  (''engine_connection_version'', version_text sv (rs_version r)),
                  flag ''engine_connection_persisted'' (is_persisted r),
                  flag ''engine_connection_affinity_staged'' True, flag ''engine_provision_required'' True,
                  flag ''engine_provision_blocked'' False, count ''engine_provision_failures'' n])))))"

definition staged_version_ok :: "node_services \<Rightarrow> pyval \<Rightarrow> bool" where
  "staged_version_ok sv v \<longleftrightarrow>
     v = PNone \<or> scanned_text (es_cred sv) 64 v \<and> zoned_time sv (str_of v) \<noteq> None"

text \<open>The handle that identifies an attempt before the provider has answered.\<close>

definition first_handle :: "engine_cfg \<Rightarrow> string \<Rightarrow> string \<Rightarrow> engine_handle" where
  "first_handle cfg cid key =
     \<lparr>eh_engine = ec_engine cfg, eh_connection = Some cid, eh_run = None, eh_key = key, eh_extras = []\<rparr>"

definition affinity_changed ::
  "node_services \<Rightarrow> string \<Rightarrow> pyval \<Rightarrow> bool \<Rightarrow> resolved \<Rightarrow> string option" where
  "affinity_changed sv cid version persisted r =
     (let c = named_connection r (Some cid) None
      in if \<not> safe_connection_id (es_cred sv) c \<or> c \<noteq> PStr cid \<or> is_persisted r \<noteq> persisted
            \<or> version_text sv (rs_version r) \<noteq> version
         then Some ''execution connection changed after its checkpointed affinity reservation''
         else if is_persisted r \<and> rs_version r = None
         then Some (''persisted execution connection '' @ cid @ '' has no version'')
         else None)"

text \<open>
  The calls of the provider for a new attempt: the issues of a refused specification, or the
  handle. A cycle dispatch needs its approved source, which \<open>an_binding\<close> reports.
\<close>

definition provision_run ::
  "node_services \<Rightarrow> engine_cfg \<Rightarrow> answers \<Rightarrow> string \<Rightarrow> string \<Rightarrow> (string list + engine_handle) prog" where
  "provision_run sv cfg an cid key =
     seq (case (if ec_dispatch cfg then an_binding an else Inr True) of
            Inl m \<Rightarrow> raise (Plain m)
          | Inr good \<Rightarrow> if good then ret ()
                      else raise (Definitive ''Cycle source execution contract is unavailable or changed'')) (\<lambda>_.
     seq (call PValidate (or_plain (an_validate an))) (\<lambda>v.
     seq (pure (validated_report (es_cred sv) v)) (\<lambda>(good, issues, warnings).
     if \<not> good then ret (Inl issues)
     else seq (call PProvision (or_plain (an_provision an))) (\<lambda>v.
          seq (pure (validated_handle sv True v)) (\<lambda>h0.
          let h = pinned (first_handle cfg cid key) h0 in
          if scan (es_cred sv) (PDict (handle_json h0))
          then seq (compensate_unsafe sv an h) (\<lambda>_.
               raise (Definitive ''execution engine returned an unsafe handle; remote run was compensated''))
          else ret (Inr h))))))"

definition reserve_provision ::
  "node_services \<Rightarrow> engine_cfg \<Rightarrow> string \<Rightarrow> answers \<Rightarrow> int \<Rightarrow> string \<Rightarrow> string \<Rightarrow> int option
   \<Rightarrow> pydict option prog" where
  "reserve_provision sv cfg thread an a cid key ver =
     seq (pure (engine_namespace sv key)) (\<lambda>_.
     project sv (an_before an) (an_link an)
       (prepare_provision (run_services sv) (handle_args cfg thread a (first_handle cfg cid key) (Some cid) ver)))"

text \<open>\<open>_provision\<close>; the last component says that the handle was on record already.\<close>

definition provision_attempt ::
  "node_services \<Rightarrow> engine_cfg \<Rightarrow> string \<Rightarrow> answers \<Rightarrow> int \<Rightarrow> string \<Rightarrow> string \<Rightarrow> pyval \<Rightarrow> bool
   \<Rightarrow> (string list + engine_handle \<times> bool) prog" where
  "provision_attempt sv cfg thread an a cid key version persisted =
     (case an_resolve an of
        Inl m \<Rightarrow> raise (Plain m)
      | Inr r \<Rightarrow>
          (case affinity_changed sv cid version persisted r of
             Some m \<Rightarrow> raise (Definitive m)
           | None \<Rightarrow>
               seq (reserve_provision sv cfg thread an a cid key
                      (case rs_version r of Some (Some t) \<Rightarrow> Some t | _ \<Rightarrow> None)) (\<lambda>got.
               case got of
                 Some d \<Rightarrow>
                   seq (pure (validated_handle sv False (PDict d))) (\<lambda>h.
                   ret (Inr (pinned (first_handle cfg cid key) h, True)))
               | None \<Rightarrow>
                   seq (provision_run sv cfg an cid key) (\<lambda>x.
                   case x of Inl issues \<Rightarrow> ret (Inl issues) | Inr h \<Rightarrow> ret (Inr (h, False))))))"

text \<open>
  What \<open>engine_provision\<close> tells apart: a refusal of the projection is raised, a definitive error
  ends the attempt, any other failure is retried.
\<close>

datatype provision_outcome = Refused "string list" | Provisioned engine_handle bool | Ambiguous string

definition provision_caught :: "(string list + engine_handle \<times> bool) prog \<Rightarrow> node_services \<Rightarrow> provision_outcome prog" where
  "provision_caught m sv =
     attempt (seq m (\<lambda>x. case x of Inl issues \<Rightarrow> ret (Refused issues) | Inr (h, known) \<Rightarrow> ret (Provisioned h known)))
       (\<lambda>e. case e of
          RejectedWrite t \<Rightarrow> raise e
        | Definitive t \<Rightarrow> ret (Refused [diagnostic sv (''engine provisioning failed: '' @ diagnostic sv t)])
        | _ \<Rightarrow> ret (Ambiguous (error_text e)))"

definition provision_failed ::
  "node_services \<Rightarrow> engine_cfg \<Rightarrow> string \<Rightarrow> answers \<Rightarrow> int \<Rightarrow> string \<Rightarrow> string list \<Rightarrow> node_result prog" where
  "provision_failed sv cfg thread an a key issues =
     seq (pure (engine_namespace sv key)) (\<lambda>_.
     seq (project sv (an_between an) (an_link2 an)
            (recorded sv \<lparr>ra_thread = thread, ra_attempt = a, ra_engine = ec_engine cfg, ra_handle = [],
               ra_project = ec_project cfg, ra_app = ec_app cfg, ra_run = None,
               ra_namespace = Some (artifact_namespace key), ra_connection = None, ra_version = None,
               ra_artifact_connection = None, ra_artifact_version = None\<rparr> EFailed None None (an_clock an))) (\<lambda>_.
     ret (Moved ''finalize'' (exec_update a
       [failed,
        (''errors'', PList (map (\<lambda>i. PStr (diagnostic sv (''engine spec validation failed: '' @ diagnostic sv i))) issues)),
        flag ''engine_provision_required'' False, flag ''engine_provision_blocked'' False,
        cleared ''engine_provision_last_error'']))))"

text \<open>The record of the ready handle: a refusal is raised, any other failure is retried.\<close>

definition record_ready ::
  "node_services \<Rightarrow> engine_cfg \<Rightarrow> string \<Rightarrow> answers \<Rightarrow> int \<Rightarrow> engine_handle \<Rightarrow> string option prog" where
  "record_ready sv cfg thread an a h =
     attempt (seq (record_second sv an (handle_args cfg thread a h None None) EReady None None) (\<lambda>_. ret None))
       (\<lambda>e. case e of RejectedWrite t \<Rightarrow> raise e | _ \<Rightarrow> ret (Some (error_text e)))"

definition provision_done :: "answers \<Rightarrow> int \<Rightarrow> engine_handle \<Rightarrow> node_result" where
  "provision_done an a h =
     Moved ''engine_start'' (with_handle h (exec_update a
       [put_text ''engine'' (eh_engine h),
        put_text ''provenance'' (if eh_engine h = ''sim'' then ''simulator'' else ''live_provider''),
        (''engine_connection_id'', optional_text (eh_connection h)), handle_field h,
        flag ''engine_provision_required'' False, flag ''engine_provision_blocked'' False,
        count ''engine_provision_failures'' 0, cleared ''engine_provision_last_error'',
        put_text ''engine_provision_completed_at'' (an_now an)]))"

definition engine_provision ::
  "node_services \<Rightarrow> (pydict \<Rightarrow> bool) \<Rightarrow> engine_cfg \<Rightarrow> string \<Rightarrow> answers \<Rightarrow> pydict \<Rightarrow> node_result prog" where
  "engine_provision sv spec_model cfg thread an state =
     seq (pure (exec_entry state)) (\<lambda>entry.
     seq (pure (exec_attempt entry)) (\<lambda>a.
     seq (pure (checkpoint_spec sv spec_model (dget entry ''load_test_spec''))) (\<lambda>key.
     seq (pure (engine_options (es_cred sv) entry (ec_engine cfg))) (\<lambda>_.
     let raw = dget entry ''engine_connection_id''; version = dget entry ''engine_connection_version'' in
     if raw \<noteq> PNone \<and> \<not> safe_connection_id (es_cred sv) raw
     then retry_provision sv entry a ''checkpointed execution connection id is malformed'' unstaged
     else seq (pure (checkpoint_flag entry ''engine_connection_affinity_staged'')) (\<lambda>staged.
     if \<not> staged then stage_affinity sv cfg an entry a (text_option raw)
     else case text_option raw of
       None \<Rightarrow> retry_provision sv entry a ''staged execution connection affinity is missing'' []
     | Some cid \<Rightarrow>
         if \<not> staged_version_ok sv version
         then retry_provision sv entry a ''staged execution connection version is malformed'' unstaged
         else seq (pure (checkpoint_flag entry ''engine_connection_persisted'')) (\<lambda>persisted.
         if es_locked sv \<and> \<not> persisted
         then retry_provision sv entry a ''locked execution affinity has no durable connection generation'' unstaged
         else seq (provision_caught (provision_attempt sv cfg thread an a cid key version persisted) sv) (\<lambda>x.
         case x of
           Ambiguous m \<Rightarrow> retry_provision sv entry a m []
         | Refused issues \<Rightarrow> provision_failed sv cfg thread an a key issues
         | Provisioned h known \<Rightarrow>
             seq (if known then ret None else record_ready sv cfg thread an a h) (\<lambda>err.
             case err of
               Some m \<Rightarrow> retry_provision sv entry a m []
             | None \<Rightarrow> ret (provision_done an a h)))))))))"

definition reopened_provision :: "int \<Rightarrow> node_result" where
  "reopened_provision a =
     Moved ''engine_provision'' (exec_update a
       [running, flag ''engine_provision_required'' True, flag ''engine_provision_blocked'' False,
        count ''engine_provision_failures'' 0, cleared ''engine_provision_last_error''])"

definition engine_provision_blocked ::
  "node_services \<Rightarrow> string \<Rightarrow> bool \<Rightarrow> pydict \<Rightarrow> node_result prog" where
  "engine_provision_blocked sv thread resumed state =
     seq (pure (exec_entry state)) (\<lambda>entry.
     seq (pure (exec_attempt entry)) (\<lambda>a.
     if resumed then ret (reopened_provision a)
     else ret (Paused (retry_payload ''engine_provision_retry'' a thread
            (diagnostic sv (diagnostic_text sv (dget entry ''engine_provision_last_error'')
              ''engine provisioning unavailable''))
            (''Engine provisioning exhausted its retry budget. Resume to reconcile ''
             @ ''the same idempotency key on the pinned execution connection.'')))))"

definition engine_provision_resume :: "pydict \<Rightarrow> node_result prog" where
  "engine_provision_resume state =
     seq (pure (exec_entry state)) (\<lambda>entry.
     seq (pure (exec_attempt entry)) (\<lambda>a. ret (reopened_provision a)))"

end
