(* ===== verification/Engine_Collection.thy ===== *)
theory Engine_Collection
  imports Engine_Nodes
begin

text \<open>
  The nodes that collect the results of an engine run, index them, and settle the run
  (src/apex/graphs/pipeline/execution_phase.py).
\<close>

subsection \<open>Artifact references\<close>

definition MAX_ENGINE_ARTIFACT_REFS :: nat where
  "MAX_ENGINE_ARTIFACT_REFS = 32"

definition unreserved :: "char \<Rightarrow> bool" where
  "unreserved c = (let n = of_char c :: nat in
     48 \<le> n \<and> n \<le> 57 \<or> 65 \<le> n \<and> n \<le> 90 \<or> 97 \<le> n \<and> n \<le> 122 \<or> c \<in> set ''/-._~'')"

definition hex_digit :: "nat \<Rightarrow> char" where
  "hex_digit n = ''0123456789ABCDEF'' ! n"

definition quoted_char :: "char \<Rightarrow> string" where
  "quoted_char c = (if unreserved c then [c] else
     (let n = of_char c :: nat in [CHR ''%'', hex_digit (n div 16), hex_digit (n mod 16)]))"

definition artifact_uri :: "string \<Rightarrow> string" where
  "artifact_uri key = ''apex-artifact:///'' @ concat (map quoted_char (utf8 key))"

record artifact_ref =
  af_kind :: string
  af_name :: string
  af_uri :: string
  af_key :: string
  af_media :: string
  af_summary :: "string option"

definition ref_json :: "artifact_ref \<Rightarrow> pydict" where
  "ref_json r =
     [(''kind'', PStr (af_kind r)), (''name'', PStr (af_name r)), (''uri'', PStr (af_uri r)),
      (''key'', PStr (af_key r)), (''media_type'', PStr (af_media r)), (''summary'', optional_text (af_summary r))]"

definition REF_LIMITS :: "(string \<times> nat \<times> bool) list" where
  "REF_LIMITS = [(''kind'', 64, False), (''name'', 512, False), (''uri'', 4096, False), (''key'', 1024, True),
                 (''media_type'', 255, False), (''summary'', 4000, True)]"

definition artifact_error :: "nat \<Rightarrow> string \<Rightarrow> 'a res" where
  "artifact_error i m = bad (''engine artifact ref '' @ nat_text i @ m)"

text \<open>One reference; \<open>written\<close> are the objects put through the scoped store, by their keys.\<close>

definition validated_ref ::
  "node_services \<Rightarrow> string \<Rightarrow> (string \<times> string \<times> string) list option \<Rightarrow> string list \<Rightarrow> nat \<Rightarrow> pyval
   \<Rightarrow> artifact_ref res" where
  "validated_ref sv namespace written seen i v =
     (case exact_payload [] [''id'', ''kind'', ''name'', ''uri'', ''key'', ''artifact_connection_id'', ''media_type'',
                             ''summary'', ''created_at''] [''kind'', ''name'', ''uri''] v of
        Inl _ \<Rightarrow> artifact_error i '' is invalid''
      | Inr d0 \<Rightarrow>
          let d = filter (\<lambda>kv. fst kv \<in> set (map fst REF_LIMITS)) d0;
              r = \<lparr>af_kind = str_of (dget d ''kind''), af_name = str_of (dget d ''name''),
                   af_uri = str_of (dget d ''uri''), af_key = str_of (dget d ''key''),
                   af_media = str_of (with_default (PStr ''application/octet-stream'') d ''media_type''),
                   af_summary = text_option (dget d ''summary'')\<rparr>
          in if \<not> list_all (\<lambda>(k, hi, optional). map_of d k = None \<or> provider_text hi optional (dget d k)) REF_LIMITS
             then artifact_error i '' is invalid''
             else if es_cred sv 16 250000 16384 (PDict d)
             then artifact_error i '' must not contain credential material''
             else if af_kind r = [] \<or> af_name r = [] \<or> af_uri r = [] \<or> af_media r = []
             then artifact_error i '' is invalid''
             else if af_kind r \<notin> {''engine_results'', ''engine_report''}
             then artifact_error i '' has an unsupported kind''
             else if take (Suc (length namespace)) (af_key r) \<noteq> namespace @ ''/'' \<or> af_key r = namespace @ ''/''
             then artifact_error i '' key must be beneath its namespace''
             else if af_uri r \<noteq> artifact_uri (af_key r)
             then artifact_error i '' URI does not match its canonical object''
             else if af_key r \<in> set seen then artifact_error i '' duplicates an artifact key''
             else (case written of
                 None \<Rightarrow> Inr r
               | Some ws \<Rightarrow>
                   (case map_of ws (af_key r) of
                      None \<Rightarrow> artifact_error i '' was not written through the scoped store''
                    | Some (uri, media) \<Rightarrow>
                        if af_uri r \<noteq> uri then artifact_error i '' URI does not match its object''
                        else if af_media r \<noteq> media then artifact_error i '' media type does not match its object''
                        else Inr r)))"

fun validated_refs ::
  "node_services \<Rightarrow> string \<Rightarrow> (string \<times> string \<times> string) list option \<Rightarrow> string list \<Rightarrow> nat \<Rightarrow> pyval list
   \<Rightarrow> artifact_ref list res" where
  "validated_refs sv ns written seen i [] = Inr []"
| "validated_refs sv ns written seen i (v # vs) =
     rbind (validated_ref sv ns written seen i v) (\<lambda>r.
     rbind (validated_refs sv ns written (af_key r # seen) (Suc i) vs) (\<lambda>rs. Inr (r # rs)))"

definition validated_artifacts ::
  "node_services \<Rightarrow> engine_handle \<Rightarrow> (string \<times> string \<times> string) list option \<Rightarrow> pyval \<Rightarrow> artifact_ref list res" where
  "validated_artifacts sv h written v =
     (case v of
        PList vs \<Rightarrow>
          if MAX_ENGINE_ARTIFACT_REFS < length vs
          then bad (''engine returned '' @ nat_text (length vs) @ '' artifact refs; limit is 32'')
          else rbind (engine_namespace sv (eh_key h)) (\<lambda>ns. validated_refs sv ns written [] 0 vs)
      | _ \<Rightarrow> bad ''engine artifact refs must be a list'')"

subsection \<open>Collect\<close>

definition MAX_ENGINE_COLLECTION_ATTEMPTS :: int where
  "MAX_ENGINE_COLLECTION_ATTEMPTS = 3"

text \<open>The terminal status that the last poll has seen, or what is wrong with it.\<close>

definition malformed_status :: string where
  "malformed_status = ''execution collection state is invalid: a terminal engine status is missing or malformed''"

definition polled_phase :: "pydict \<Rightarrow> string + engine_phase" where
  "polled_phase entry =
     (let sample = (case dget entry ''engine_poll_last'' of PDict d \<Rightarrow> d | _ \<Rightarrow> [])
      in case dget sample ''status'' of
           PStr s \<Rightarrow>
             if 32 < length s then Inl malformed_status
             else (case engine_phase_of s of
                 None \<Rightarrow> Inl malformed_status
               | Some p \<Rightarrow>
                   if terminal_phase p then Inr p
                   else Inl (''execution collection requires a confirmed terminal engine status; got '' @ [CHR 0x27] @ s @ [CHR 0x27]))
         | _ \<Rightarrow> Inl malformed_status)"

definition retry_collection ::
  "node_services \<Rightarrow> pydict \<Rightarrow> int \<Rightarrow> string \<Rightarrow> pydict \<Rightarrow> node_result prog" where
  "retry_collection sv entry a m fs =
     seq (pure (counter entry ''engine collection failure count'' ''engine_collection_failures'')) (\<lambda>n0.
     let n = n0 + 1; blocked = (MAX_ENGINE_COLLECTION_ATTEMPTS \<le> n) in
     ret (Moved (if blocked then ''engine_collection_blocked'' else ''engine_collect'') (exec_update a
       ([running, flag ''engine_collection_required'' True, flag ''engine_collection_blocked'' blocked,
         count ''engine_collection_failures'' n,
         put_text ''engine_collection_last_error'' (''engine collection failed ''
           @ ratio n MAX_ENGINE_COLLECTION_ATTEMPTS @ es_diagnostic sv 2048 m)] @ fs))))"

definition no_store :: pydict where
  "no_store =
     [cleared ''artifact_store_connection_id'', cleared ''artifact_store_connection_version'',
      flag ''artifact_store_connection_persisted'' False]"

definition store_error :: "node_services \<Rightarrow> resolved \<Rightarrow> string option" where
  "store_error sv r =
     (if \<not> safe_connection_id (es_cred sv) (rs_connection r)
      then Some ''resolved artifact-store connection has no valid durable id''
      else if rs_version r = Some None then Some ''resolved artifact-store connection has an invalid version''
      else if rs_persisted r \<and> rs_version r = None
      then Some (''persisted artifact-store connection '' @ str_of (rs_connection r) @ '' has no version'')
      else if es_locked sv \<and> \<not> rs_persisted r
      then Some ''locked artifact collection requires a durable connection generation''
      else None)"

text \<open>The superstep that pins the artifact store, before anything is written.\<close>

definition reserve_store :: "node_services \<Rightarrow> answers \<Rightarrow> pydict \<Rightarrow> int \<Rightarrow> node_result prog" where
  "reserve_store sv an entry a =
     (case an_store an of
        Inl m \<Rightarrow> retry_collection sv entry a m []
      | Inr r \<Rightarrow>
          (case store_error sv r of
             Some m \<Rightarrow> retry_collection sv entry a m []
           | None \<Rightarrow> ret (Moved ''engine_collect'' (exec_update a
               [running, (''artifact_store_connection_id'', rs_connection r),
                (''artifact_store_connection_version'',
                 case rs_version r of Some (Some t) \<Rightarrow> PStr (ns_iso sv t) | _ \<Rightarrow> PNone),
                flag ''artifact_store_connection_persisted'' (rs_persisted r),
                flag ''engine_collection_required'' True]))))"

text \<open>What the resolved engine and store must still be.\<close>

definition collected_connection :: "engine_handle \<Rightarrow> resolved \<Rightarrow> pyval" where
  "collected_connection h r =
     (if rs_wrapped r \<or> rs_connection r \<noteq> PNone then rs_connection r else optional_text (eh_connection h))"

definition engine_fence :: "node_services \<Rightarrow> engine_handle \<Rightarrow> resolved \<Rightarrow> string option" where
  "engine_fence sv h r =
     (let c = collected_connection h r
      in if rs_wrapped r \<and> rs_persisted r \<and> rs_version r = None
         then Some (''persisted execution connection '' @ str_of c @ '' has no version'')
         else if \<not> safe_connection_id (es_cred sv) c then Some ''resolved execution connection has no durable id''
         else None)"

definition collection_fence ::
  "node_services \<Rightarrow> engine_handle \<Rightarrow> string option \<Rightarrow> int option \<Rightarrow> string \<Rightarrow> int option \<Rightarrow> bool
   \<Rightarrow> resolved \<Rightarrow> resolved \<Rightarrow> string option" where
  "collection_fence sv h cid ver store store_ver store_persisted r s =
     (if \<not> safe_connection_id (es_cred sv) (rs_connection s)
      then Some ''artifact-store resolver returned an invalid connection id''
      else if rs_connection s \<noteq> PStr store
      then Some ''artifact-store resolver did not honor checkpointed connection affinity''
      else if rs_version s \<noteq> pinned_version store_ver \<or> rs_persisted s \<noteq> store_persisted
      then Some ''artifact-store connection changed after its checkpointed reservation''
      else if cid \<noteq> None \<and> (collected_connection h r \<noteq> optional_text cid \<or> rs_version r \<noteq> pinned_version ver)
      then Some ''execution connection changed after its checkpointed reservation''
      else None)"

text \<open>
  \<open>_collect\<close>: the run is projected as collecting, with both connections, before the adapter may
  write. \<open>an_cleanup\<close> is the removal of the slots that no reference keeps; that of all slots after
  an error is left out, since its own failure would only replace the message.
\<close>

definition collect_run ::
  "node_services \<Rightarrow> engine_cfg \<Rightarrow> string \<Rightarrow> answers \<Rightarrow> pydict \<Rightarrow> int \<Rightarrow> engine_handle
   \<Rightarrow> string option \<Rightarrow> int option \<Rightarrow> string \<Rightarrow> int option \<Rightarrow> (artifact_ref list \<times> engine_summary) prog" where
  "collect_run sv cfg thread an entry a h cid ver store store_ver =
     (case an_resolve an of
        Inl m \<Rightarrow> raise (Plain m)
      | Inr r \<Rightarrow>
          (case engine_fence sv h r of
             Some m \<Rightarrow> raise (Plain m)
           | None \<Rightarrow>
               (case an_store an of
                  Inl m \<Rightarrow> raise (Plain m)
                | Inr s \<Rightarrow>
                    seq (pure (checkpoint_flag entry ''artifact_store_connection_persisted'')) (\<lambda>store_persisted.
                    case collection_fence sv h cid ver store store_ver store_persisted r s of
                      Some m \<Rightarrow> raise (Plain m)
                    | None \<Rightarrow>
                        seq (record_first sv an (handle_args cfg thread a h (text_option (collected_connection h r))
                               (case rs_version r of Some (Some t) \<Rightarrow> Some t | _ \<Rightarrow> None)
                             \<lparr>ra_artifact_connection := Some store, ra_artifact_version := store_ver\<rparr>)
                             ECollecting None None) (\<lambda>_.
                        seq (call (PCollect h) (or_plain (an_collect an))) (\<lambda>v.
                        seq (pure (validated_artifacts sv h (Some (an_written an)) v)) (\<lambda>refs.
                        seq (case an_cleanup an of None \<Rightarrow> ret () | Some m \<Rightarrow> raise (Plain m)) (\<lambda>_.
                        seq (call (PSummary h) (or_plain (an_summary an))) (\<lambda>v.
                        seq (pure (validated_summary sv (eh_engine h) v)) (\<lambda>m.
                        ret (refs, m)))))))))))"

definition staged_batch :: "int \<Rightarrow> string \<Rightarrow> artifact_ref list \<Rightarrow> engine_summary \<Rightarrow> node_result" where
  "staged_batch a store refs m =
     Moved ''engine_collection_index'' (exec_update a
       [running, (''engine_collection_pending_refs'', PList (map (\<lambda>r. PDict (ref_json r)) refs)),
        (''engine_collection_pending_summary'', PDict (summary_json m)),
        put_text ''engine_collection_pending_connection_id'' store,
        flag ''engine_collection_index_required'' True, count ''engine_collection_index_failures'' 0,
        cleared ''engine_collection_index_last_error''])"

definition invalid_collection :: "int \<Rightarrow> string \<Rightarrow> node_result" where
  "invalid_collection a reason =
     Moved ''engine_cleanup'' (exec_update a
       [running, flag ''engine_cleanup_required'' True, put_text ''engine_cleanup_reason'' reason,
        put_text ''engine_cleanup_last_error'' reason])"

definition no_change :: engine_update where
  "no_change = \<lparr>eu_entry = [], eu_handle = None, eu_artifacts = []\<rparr>"

definition engine_collect ::
  "node_services \<Rightarrow> engine_cfg \<Rightarrow> string \<Rightarrow> answers \<Rightarrow> pydict \<Rightarrow> node_result prog" where
  "engine_collect sv cfg thread an state =
     seq (pure (exec_entry state)) (\<lambda>entry.
     seq (pure (exec_attempt entry)) (\<lambda>a.
     seq (pure (handle_from sv state entry)) (\<lambda>h.
     seq (pure (engine_options (es_cred sv) entry (ec_engine cfg))) (\<lambda>_.
     case polled_phase entry of
       Inl reason \<Rightarrow> ret (invalid_collection a reason)
     | Inr _ \<Rightarrow>
         seq (pure (connection_affinity sv entry h)) (\<lambda>(cid, ver).
         let raw = dget entry ''artifact_store_connection_id'' in
         if raw = PNone then reserve_store sv an entry a
         else if \<not> safe_connection_id (es_cred sv) raw
         then retry_collection sv entry a ''checkpointed artifact-store connection id is malformed'' no_store
         else case artifact_affinity sv entry raw of
           Inl x \<Rightarrow> retry_collection sv entry a (exn_text x) no_store
         | Inr store_ver \<Rightarrow>
             if dget entry ''engine_collection_pending_refs'' \<noteq> PNone
                \<or> dget entry ''engine_collection_pending_summary'' \<noteq> PNone
             then ret (Moved ''engine_collection_index'' no_change)
             else attempt (seq (collect_run sv cfg thread an entry a h cid ver (str_of raw) store_ver)
                            (\<lambda>(refs, m). ret (staged_batch a (str_of raw) refs m)))
                    (\<lambda>e. retry_collection sv entry a (error_text e) []))))))"

subsection \<open>Index\<close>

definition retry_index :: "node_services \<Rightarrow> pydict \<Rightarrow> int \<Rightarrow> string \<Rightarrow> node_result prog" where
  "retry_index sv entry a m =
     seq (pure (counter entry ''engine collection index failure count'' ''engine_collection_index_failures'')) (\<lambda>n0.
     let n = n0 + 1; blocked = (MAX_ENGINE_COLLECTION_ATTEMPTS \<le> n);
         message = ''engine artifact indexing failed '' @ ratio n MAX_ENGINE_COLLECTION_ATTEMPTS @ es_diagnostic sv 2048 m in
     ret (Moved (if blocked then ''engine_collection_blocked'' else ''engine_collection_index'') (exec_update a
       [running, flag ''engine_collection_required'' True, flag ''engine_collection_blocked'' blocked,
        count ''engine_collection_failures'' n, put_text ''engine_collection_last_error'' message,
        flag ''engine_collection_index_required'' True, count ''engine_collection_index_failures'' n,
        put_text ''engine_collection_index_last_error'' message])))"

definition checkpointed_phase :: "pydict \<Rightarrow> engine_phase res" where
  "checkpointed_phase entry =
     (case dget entry ''engine_poll_last'' of
        PDict sample \<Rightarrow>
          (case dget sample ''status'' of
             PStr s \<Rightarrow>
               (case (if 32 < length s then None else engine_phase_of s) of
                  None \<Rightarrow> bad ''checkpointed engine terminal status is invalid''
                | Some p \<Rightarrow> if terminal_phase p then Inr p
                            else bad ''checkpointed engine terminal status is invalid'')
           | _ \<Rightarrow> bad ''checkpointed engine terminal status is invalid'')
      | _ \<Rightarrow> bad ''checkpointed engine terminal status is invalid'')"

text \<open>The staged batch as the index node reads it back.\<close>

definition read_batch ::
  "node_services \<Rightarrow> pydict \<Rightarrow> engine_handle \<Rightarrow> (string \<times> artifact_ref list \<times> engine_summary \<times> engine_phase) res" where
  "read_batch sv entry h =
     (let pending = dget entry ''engine_collection_pending_connection_id'';
          store = dget entry ''artifact_store_connection_id''
      in if \<not> safe_connection_id (es_cred sv) pending \<or> \<not> safe_connection_id (es_cred sv) store \<or> pending \<noteq> store
         then bad ''checkpointed engine artifact affinity is invalid''
         else rbind (case dget entry ''engine_collection_pending_refs'' of
                PList vs \<Rightarrow> validated_artifacts sv h None (PList vs)
              | _ \<Rightarrow> bad ''checkpointed engine artifact refs are invalid'') (\<lambda>refs.
              rbind (validated_summary sv (eh_engine h) (dget entry ''engine_collection_pending_summary'')) (\<lambda>m.
              rbind (checkpointed_phase entry) (\<lambda>p. Inr (str_of pending, refs, m, p)))))"

definition artifact_entry :: "answers \<Rightarrow> int \<Rightarrow> string \<Rightarrow> nat \<Rightarrow> artifact_ref \<Rightarrow> pydict" where
  "artifact_entry an a store i r =
     (''id'', PStr (''execution-a'' @ int_text a @ ''-engine-artifact-'' @ nat_text i))
     # ref_json r @ [put_text ''artifact_connection_id'' store, put_text ''created_at'' (an_now an)]"

definition kpi_texts :: "pydict \<Rightarrow> string list" where
  "kpi_texts kpis =
     map (\<lambda>(k, v). k @ ''='' @ (case number_of v of None \<Rightarrow> [] | Some x \<Rightarrow> rat_fmt_g x)) (sort_key fst kpis)"

fun joined :: "string \<Rightarrow> string list \<Rightarrow> string" where
  "joined sep [] = []"
| "joined sep [s] = s"
| "joined sep (s # t # ss) = s @ sep @ joined sep (t # ss)"

definition run_summary :: "engine_handle \<Rightarrow> engine_phase \<Rightarrow> engine_summary \<Rightarrow> string" where
  "run_summary h p m =
     ''Engine run '' @ (case eh_run h of None \<Rightarrow> ''None'' | Some r \<Rightarrow> r) @ '' ('' @ eh_engine h @ '') ''
     @ engine_phase_value p @ ''; SLA ''
     @ (case sm_passed m of Some True \<Rightarrow> ''passed'' | Some False \<Rightarrow> ''failed'' | None \<Rightarrow> ''unknown (not a pass)'')
     @ ''. KPIs: '' @ (if sm_kpis m = [] then ''none reported'' else joined '', '' (kpi_texts (sm_kpis m)))"

text \<open>
  The outcome of the phase: its final status and errors, if any, and where it goes on.
\<close>

definition collection_outcome ::
  "node_services \<Rightarrow> pydict \<Rightarrow> engine_handle \<Rightarrow> engine_phase \<Rightarrow> engine_summary
   \<Rightarrow> (string \<times> string list) option" where
  "collection_outcome sv entry h p m =
     (if p = EAborted
      then Some (''aborted'', [''engine run '' @ (case eh_run h of None \<Rightarrow> ''None'' | Some r \<Rightarrow> r) @ '' was aborted''])
      else if p = EFailed \<or> sm_passed m = Some False
      then Some (''failed'',
             if sm_breaches m \<noteq> [] then sm_breaches m
             else [diagnostic_text sv
                     (case dget entry ''engine_poll_last'' of PDict sample \<Rightarrow> dget sample ''message'' | _ \<Rightarrow> PNone)
                     ''engine run failed''])
      else None)"

definition projected_phase :: "(string \<times> string list) option \<Rightarrow> engine_phase \<Rightarrow> engine_phase" where
  "projected_phase out p = (case out of Some (s, _) \<Rightarrow> if s = ''failed'' then EFailed else p | None \<Rightarrow> p)"

definition indexed ::
  "node_services \<Rightarrow> answers \<Rightarrow> pydict \<Rightarrow> int \<Rightarrow> engine_handle \<Rightarrow> string \<Rightarrow> artifact_ref list \<Rightarrow> engine_summary
   \<Rightarrow> engine_phase \<Rightarrow> node_result" where
  "indexed sv an entry a h store refs m p =
     (let arts = map (\<lambda>(i, r). artifact_entry an a store i r) (enumerate 0 refs);
          out = collection_outcome sv entry h p m
      in Moved ''engine_collection_settle''
           (exec_update a
             ([running, put_text ''summary'' (run_summary h p m), (''test_summary'', PDict (summary_json m)),
               (''artifact_ids'', PList (map (\<lambda>d. dget d ''id'') arts)),
               put_text ''artifact_namespace'' (artifact_namespace (eh_key h)),
               put_text ''artifact_store_connection_id'' store,
               flag ''engine_collection_required'' False, flag ''engine_collection_blocked'' False,
               count ''engine_collection_failures'' 0, cleared ''engine_collection_last_error'',
               flag ''engine_collection_index_required'' False, count ''engine_collection_index_failures'' 0,
               cleared ''engine_collection_index_last_error'', cleared ''engine_collection_pending_refs'',
               cleared ''engine_collection_pending_summary'', cleared ''engine_collection_pending_connection_id'',
               put_text ''engine_collection_completed_at'' (an_now an), flag ''engine_collection_staged'' True]
              @ (case out of None \<Rightarrow> [] | Some (_, es) \<Rightarrow> [(''errors'', PList (map PStr es))])
              @ [put_text ''engine_collection_projected_phase'' (engine_phase_value (projected_phase out p)),
                 (''engine_collection_final_status'', optional_text (map_option fst out)),
                 put_text ''engine_collection_next'' (if out = None then ''open_output_gate'' else ''finalize'')])
            \<lparr>eu_artifacts := arts\<rparr>))"

definition engine_collection_index ::
  "node_services \<Rightarrow> answers \<Rightarrow> pydict \<Rightarrow> node_result prog" where
  "engine_collection_index sv an state =
     seq (pure (exec_entry state)) (\<lambda>entry.
     seq (pure (exec_attempt entry)) (\<lambda>a.
     seq (pure (handle_from sv state entry)) (\<lambda>h.
     case read_batch sv entry h of
       Inl x \<Rightarrow> retry_index sv entry a (exn_text x)
     | Inr (store, refs, m, p) \<Rightarrow>
         (case an_index an of
            Some _ \<Rightarrow> retry_index sv entry a ''required engine artifact indexing failed''
          | None \<Rightarrow> ret (indexed sv an entry a h store refs m p)))))"

subsection \<open>Settle\<close>

definition MAX_ENGINE_SETTLE_ATTEMPTS :: int where
  "MAX_ENGINE_SETTLE_ATTEMPTS = 3"

text \<open>The staged outcome, checked for consistency: its phase and its continuation.\<close>

definition staged_outcome :: "pydict \<Rightarrow> (engine_phase \<times> string) res" where
  "staged_outcome entry =
     (let raw = dget entry ''engine_collection_projected_phase'';
          next = dget entry ''engine_collection_next'';
          final = dget entry ''engine_collection_final_status''
      in case (if is_str raw \<and> length (str_of raw) \<le> 32 then engine_phase_of (str_of raw) else None) of
           None \<Rightarrow> Inl (RuntimeError ''staged engine collection has an invalid terminal phase'')
         | Some p \<Rightarrow>
             if \<not> terminal_phase p then Inl (RuntimeError ''staged engine collection phase is not terminal'')
             else if next \<notin> {PStr ''finalize'', PStr ''open_output_gate''}
             then Inl (RuntimeError ''staged engine collection has no continuation'')
             else if final \<notin> {PNone, PStr ''aborted'', PStr ''failed''}
             then Inl (RuntimeError ''staged engine collection has an invalid final status'')
             else if (final, next) \<noteq> (if p = EAborted then (PStr ''aborted'', PStr ''finalize'')
                                     else if p = EFailed then (PStr ''failed'', PStr ''finalize'')
                                     else (PNone, PStr ''open_output_gate''))
             then Inl (RuntimeError ''staged engine collection outcome is inconsistent'')
             else Inr (p, str_of next))"

definition settle_failed :: "node_services \<Rightarrow> pydict \<Rightarrow> int \<Rightarrow> string \<Rightarrow> node_result prog" where
  "settle_failed sv entry a m =
     seq (pure (counter entry ''engine collection settle failure count'' ''engine_collection_settle_failures'')) (\<lambda>n0.
     let n = n0 + 1; blocked = (MAX_ENGINE_SETTLE_ATTEMPTS \<le> n) in
     ret (Moved (if blocked then ''engine_collection_settle_blocked'' else ''engine_collection_settle'') (exec_update a
       [running, flag ''engine_collection_settle_required'' True, flag ''engine_collection_settle_blocked'' blocked,
        count ''engine_collection_settle_failures'' n,
        put_text ''engine_collection_settle_last_error'' (diagnostic sv (''engine teardown failed ''
          @ ratio n MAX_ENGINE_SETTLE_ATTEMPTS @ m))])))"

definition settled :: "answers \<Rightarrow> int \<Rightarrow> string \<Rightarrow> node_result" where
  "settled an a next =
     Moved next (exec_update a
       [running, flag ''engine_collection_staged'' False, flag ''engine_collection_settled'' True,
        cleared ''engine_collection_projected_phase'', flag ''engine_collection_settle_required'' False,
        flag ''engine_collection_settle_blocked'' False, count ''engine_collection_settle_failures'' 0,
        cleared ''engine_collection_settle_last_error'', put_text ''engine_collection_settled_at'' (an_now an)])"

definition recover_settled ::
  "node_services \<Rightarrow> answers \<Rightarrow> run_args \<Rightarrow> bool \<Rightarrow> engine_phase \<Rightarrow> bool prog" where
  "recover_settled sv an args witness p =
     (if witness
      then seq (pure (engine_namespace sv (str_of (dget (ra_handle args) ''idempotency_key'')))) (\<lambda>_.
           seq (project sv (an_before an) (an_link an) (recovered sv args CollectionTeardown {p})) (\<lambda>got.
           ret (got \<noteq> None)))
      else ret False)"

definition engine_collection_settle ::
  "node_services \<Rightarrow> engine_cfg \<Rightarrow> string \<Rightarrow> answers \<Rightarrow> pydict \<Rightarrow> node_result prog" where
  "engine_collection_settle sv cfg thread an state =
     seq (pure (exec_entry state)) (\<lambda>entry.
     seq (pure (exec_attempt entry)) (\<lambda>a.
     seq (pure (handle_from sv state entry)) (\<lambda>h.
     seq (pure (engine_options (es_cred sv) entry (ec_engine cfg))) (\<lambda>_.
     seq (pure (checkpoint_flag entry ''engine_collection_staged'')) (\<lambda>staged.
     if \<not> staged then raise (Plain ''engine collection settle requires checkpointed collection output'')
     else
     seq (pure (staged_outcome entry)) (\<lambda>(p, next).
     seq (pure (validated_summary sv (eh_engine h) (dget entry ''test_summary''))) (\<lambda>m.
     let store = dget entry ''artifact_store_connection_id'' in
     if \<not> safe_connection_id (es_cred sv) store
     then raise (Plain ''staged engine collection has no valid artifact-store affinity'')
     else
     seq (pure (connection_affinity sv entry h)) (\<lambda>(cid, ver).
     seq (pure (artifact_affinity sv entry store)) (\<lambda>store_ver.
     let witness = (cid \<noteq> None \<and> ver \<noteq> None \<or> store_ver \<noteq> None);
         args = handle_args cfg thread a h cid ver
                  \<lparr>ra_artifact_connection := text_option store, ra_artifact_version := store_ver\<rparr> in
     seq (recover_settled sv an args witness p) (\<lambda>was.
     seq (if was then ret None
          else attempt (seq (resolve_for_io sv an entry h cid ver) (\<lambda>_.
                        seq (call (PTeardown h) (unit_call (an_teardown an))) (\<lambda>_. ret None)))
                 (\<lambda>e. ret (Some (diagnostic sv (error_text e))))) (\<lambda>err.
     case err of
       Some t \<Rightarrow> settle_failed sv entry a t
     | None \<Rightarrow>
         seq (if was then ret ()
              else record_second sv an args p (if witness then Some CollectionTeardown else None)
                     (Some (PDict (summary_json m)))) (\<lambda>_.
         ret (settled an a next)))))))))))))"

subsection \<open>Blocked and resumed nodes\<close>

definition reopened_settle :: "int \<Rightarrow> node_result" where
  "reopened_settle a =
     Moved ''engine_collection_settle'' (exec_update a
       [running, flag ''engine_collection_settle_required'' True, flag ''engine_collection_settle_blocked'' False,
        count ''engine_collection_settle_failures'' 0, cleared ''engine_collection_settle_last_error''])"

definition engine_collection_settle_blocked ::
  "node_services \<Rightarrow> string \<Rightarrow> bool \<Rightarrow> pydict \<Rightarrow> node_result prog" where
  "engine_collection_settle_blocked sv thread resumed state =
     seq (pure (exec_entry state)) (\<lambda>entry.
     seq (pure (exec_attempt entry)) (\<lambda>a.
     if resumed then ret (reopened_settle a)
     else ret (Paused (retry_payload ''engine_collection_settle_retry'' a thread
            (diagnostic sv (diagnostic_text sv (dget entry ''engine_collection_settle_last_error'')
              ''engine teardown unavailable''))
            (''Engine teardown exhausted its retry budget. Collected results and the ''
             @ ''execution lease remain durable; resume to retry teardown.'')))))"

definition engine_collection_settle_resume :: "pydict \<Rightarrow> node_result prog" where
  "engine_collection_settle_resume state =
     seq (pure (exec_entry state)) (\<lambda>entry.
     seq (pure (checkpoint_flag entry ''engine_collection_staged'')) (\<lambda>staged.
     if \<not> staged then raise (Plain ''engine teardown resume requires staged collection output'')
     else seq (pure (exec_attempt entry)) (\<lambda>a. ret (reopened_settle a))))"

definition reopened_collection :: "bool \<Rightarrow> int \<Rightarrow> node_result" where
  "reopened_collection indexing a =
     Moved (if indexing then ''engine_collection_index'' else ''engine_collect'') (exec_update a
       [running, flag ''engine_collection_required'' True, flag ''engine_collection_blocked'' False,
        count ''engine_collection_failures'' 0, cleared ''engine_collection_last_error'',
        count ''engine_collection_index_failures'' 0, cleared ''engine_collection_index_last_error''])"

definition engine_collection_blocked ::
  "node_services \<Rightarrow> string \<Rightarrow> bool \<Rightarrow> pydict \<Rightarrow> node_result prog" where
  "engine_collection_blocked sv thread resumed state =
     seq (pure (exec_entry state)) (\<lambda>entry.
     seq (pure (checkpoint_flag entry ''engine_collection_index_required'')) (\<lambda>indexing.
     seq (pure (exec_attempt entry)) (\<lambda>a.
     if resumed then ret (reopened_collection indexing a)
     else ret (Paused (retry_payload ''engine_collection_retry'' a thread
            (diagnostic_text sv (dget entry (if indexing then ''engine_collection_index_last_error''
                                             else ''engine_collection_last_error''))
              ''engine collection unavailable'')
            (''Engine result collection exhausted its retry budget. Resume to retry ''
             @ ''the exact checkpointed batch and pinned connections.''))))))"

definition engine_collection_resume :: "pydict \<Rightarrow> node_result prog" where
  "engine_collection_resume state =
     seq (pure (exec_entry state)) (\<lambda>entry.
     seq (pure (checkpoint_flag entry ''engine_collection_index_required'')) (\<lambda>indexing.
     seq (pure (exec_attempt entry)) (\<lambda>a. ret (reopened_collection indexing a))))"

end
