(* ===== verification/Engine_Calls.thy ===== *)
theory Engine_Calls
  imports Engine_Runs
begin

text \<open>
  What the barriers of Engine_Runs promise the nodes of the execution phase: an attempt whose start
  or provision is on record is never authorised again, and the terminal write of an attempt can be
  recovered after its acknowledgement was lost.
\<close>

subsection \<open>A required write\<close>

lemma record_unskipped:
  assumes "record_run sv True a status kind summary now db = Inr db'"
    and "projection_input sv a status = Inr h" "normal_connections sv h a = (False, b)"
  shows "required_checks sv True (paired_artifacts b) status kind db = Inr ()"
    "upsert (run_key a) (values_of h (paired_artifacts b) status True kind summary now) db = Some (1, db')"
proof -
  have "record_checked sv True a status kind summary now db = Inr db'"
    using assms(1) by (auto simp: record_run_def split: sum.splits)
  with assms(2,3) run_key_normal [OF assms(3)]
  show "required_checks sv True (paired_artifacts b) status kind db = Inr ()"
    "upsert (run_key a) (values_of h (paired_artifacts b) status True kind summary now) db = Some (1, db')"
    by (auto simp: record_checked_def rbind_Inr_iff Let_def paired_artifacts_def [symmetric]
        split: option.splits if_splits)
qed

lemma record_projected:
  assumes "projected sv a" "record_run sv True a status kind summary now db = Inr db'"
  obtains h b where
    "upsert (run_key a) (values_of h (paired_artifacts b) status True kind summary now) db = Some (1, db')"
proof -
  obtain h where h: "projection_input sv a status = Inr h"
    using assms(2) by (auto simp: record_run_def record_checked_def rbind_Inr_iff split: sum.splits)
  from normal_projected [OF h assms(1)] obtain b where "normal_connections sv h a = (False, b)" ..
  from record_unskipped(2) [OF assms(2) h this] show thesis by (rule that)
qed

lemma upsert_row:
  assumes "upsert k v db = Some (1, db')"
  shows "find_run db' k = Some (case find_run db k of None \<Rightarrow> inserted_row v | Some r \<Rightarrow> updated_row r v)"
    and "find_run db k = Some r \<Longrightarrow> transition_allowed r v"
  using assms by (auto simp: upsert_def Let_def split: if_splits option.splits)

lemma inserted_row_status [simp]: "er_status (inserted_row v) = rv_status v"
  by (simp add: inserted_row_def)

lemma values_of_sel [simp]:
  "rv_status (values_of h a status owned kind summary now) = status"
  "rv_engine (values_of h a status owned kind summary now) = ra_engine a"
  by (simp_all add: values_of_def)

lemma recorded_status:
  assumes "upsert k v db = Some (1, db')"
  shows "\<exists>r. find_run db' k = Some r \<and> phase_order (rv_status v) \<le> phase_order (er_status r)"
proof (cases "find_run db k")
  case None
  with upsert_row(1) [OF assms] show ?thesis by simp
next
  case (Some r)
  have "phase_order (rv_status v) \<le> phase_order (er_status (updated_row r v))"
  proof (cases "stale_write r v")
    case True
    then show ?thesis by (auto simp: stale_row stale_write_def split: if_splits)
  next
    case False
    then show ?thesis by (simp add: fresh_row)
  qed
  with Some upsert_row(1) [OF assms] show ?thesis by simp
qed

lemma reserved_row_order:
  assumes "reserved_row sv b h operation check db = Inr (rh, r)" "runs_le db0 db"
    "find_run db0 (run_key b) = Some r0"
  shows "phase_order (er_status r0) \<le> phase_order (er_status r)"
proof -
  from assms(2,3) obtain r1 where r1: "find_run db (run_key b) = Some r1" "row_le r0 r1"
    unfolding runs_le_def by blast
  with assms(1) have "bind_owner b operation r1 = Inr r"
    by (auto simp: reserved_row_def rbind_Inr_iff split: if_splits)
  with r1(2) show ?thesis by (auto simp: row_le_def dest: bind_owner_status)
qed

text \<open>An authorised attempt was never further than its reservation, resp. its provision.\<close>

lemma start_authorised:
  assumes "projected sv b" "prepare_start sv b db = Inr (None, db')" "runs_le db0 db"
    and "find_run db0 (run_key b) = Some r0"
  shows "phase_order (er_status r0) \<le> phase_order EReady"
  using assms(2)
proof (rule prepare_start_cases)
  fix h b' rh r
  assume "run_key b' = run_key b" "reserved_row sv b' h ''start'' (\<lambda>_. Inr ()) db = Inr (rh, r)"
    "None = None \<Longrightarrow> er_status r \<in> {EProvisioning, EReady}"
  with reserved_row_order [OF _ assms(3)] assms(4) show ?thesis by fastforce
qed (use assms(1) in simp)

lemma provision_authorised:
  assumes "projected sv b" "prepare_provision sv b db = Inr (None, db')" "runs_le db0 db"
    and "find_run db0 (run_key b) = Some r0"
  shows "er_status r0 = EProvisioning"
  using assms(2)
proof (rule prepare_provision_cases)
  fix h b' rh r check db1
  assume key: "run_key b' = run_key b" and db1: "db1 = db \<or> find_run db (run_key b) = None
      \<and> namespace_free db (run_key b) (er_namespace (reservation_row h b'))
      \<and> db1 = put_run (run_key b) (reservation_row h b') db"
    and row: "reserved_row sv b' h ''provision'' check db1 = Inr (rh, r)"
    and st: "None = None \<Longrightarrow> er_status r = EProvisioning"
  from assms(3,4) have "find_run db (run_key b) \<noteq> None"
    unfolding runs_le_def by (metis option.distinct(1))
  with db1 have "db1 = db" by blast
  with reserved_row_order [OF row, of db0 r0] assms(3,4) key st show ?thesis
    by (cases "er_status r0") simp_all
qed (use assms(1) in simp)

subsection \<open>No second start\<close>

text \<open>
  C25. Whatever calls the workers make of the projection of engine runs, in any order and however
  many of them are refused: the status of an attempt never goes back, a terminal row is final in
  every column, its provider never changes, nor does its owner once it is known; a terminal row has
  released its connection, and no two attempts share an artifact namespace.
\<close>

theorem engine_rows_monotone:
  assumes "runs_ok db"
  shows "runs_ok (run_ops (run_step sv) db cs) \<and> runs_le db (run_ops (run_step sv) db cs)"
  using calls_keep [OF assms] by blast

text \<open>
  Once the write of a running status has committed, no later call of the start barrier tells a
  worker to start the engine of this attempt, whatever was written in between and whatever
  arguments the worker passes; and once the write of a ready status has committed, no later call of
  the provision barrier tells one to provision it.
\<close>

lemma started_engine_not_restarted:
  assumes "projected sv a" "projected sv b" "runs_ok db" "record_run sv True a status None None now db = Inr db1"
    and "run_key b = run_key a"
  shows "(status = ERunning \<longrightarrow> prepare_start sv b (run_ops (run_step sv) db1 cs) \<noteq> Inr (None, db2))
    \<and> (status = EReady \<longrightarrow> prepare_provision sv b (run_ops (run_step sv) db1 cs) \<noteq> Inr (None, db2))"
proof -
  let ?db = "run_ops (run_step sv) db1 cs"
  obtain h c where "upsert (run_key a) (values_of h (paired_artifacts c) status True None None now) db = Some (1, db1)"
    using record_projected [OF assms(1,4)] by blast
  from recorded_status [OF this] obtain r0 where r0: "find_run db1 (run_key a) = Some r0"
    "phase_order status \<le> phase_order (er_status r0)" by auto
  from run_step_keeps [OF assms(3), of sv "Record True a status None None now"] assms(4)
  have "runs_ok db1" by (simp add: run_step_def)
  then have le: "runs_le db1 ?db" by (rule calls_keep)
  have "prepare_start sv b ?db \<noteq> Inr (None, db2)" if "status = ERunning"
    using start_authorised [OF assms(2) _ le] r0 assms(5) that by fastforce
  moreover have "prepare_provision sv b ?db \<noteq> Inr (None, db2)" if "status = EReady"
    using provision_authorised [OF assms(2) _ le] r0 assms(5) that by fastforce
  ultimately show ?thesis by blast
qed

subsection \<open>Recovering a lost acknowledgement\<close>

lemma handle_fields_json [simp]: "handle_fields sv (handle_json h) = h"
proof -
  have "extras_of (PDict (map (\<lambda>(k, v). (k, PStr v)) xs)) = xs" for xs
    by (induction xs) (auto simp: extras_of_def)
  moreover have "text_option (optional_text t) = t" for t
    by (cases t) (simp_all add: text_option_def optional_text_def)
  ultimately show ?thesis
    by (simp add: handle_fields_def handle_json_def dget_def with_default_def)
qed

lemma projection_handle_json:
  assumes "projection_handle sv eng allow (handle_json hh) = Inr h"
  shows "h = handle_json hh" "eh_engine hh = eng" "projection_handle sv eng False (handle_json hh) = Inr h"
proof -
  have ne: "handle_json hh \<noteq> []" by (simp add: handle_json_def)
  with assms show "h = handle_json hh" "eh_engine hh = eng"
    "projection_handle sv eng False (handle_json hh) = Inr h"
    by (auto simp: projection_handle_def handle_model_def Let_def split: if_splits option.splits)
qed

lemma projection_input_handle:
  "projection_input sv a status = Inr h \<Longrightarrow>
   projection_handle sv (ra_engine a) (status = EFailed) (ra_handle a) = Inr h"
  by (auto simp: projection_input_def rbind_Inr_iff split: if_splits)

lemma projection_input_status:
  assumes "projection_input sv a status = Inr h" "ra_handle a = handle_json hh"
  shows "projection_input sv a status' = Inr h"
proof -
  have ne: "handle_json hh \<noteq> []" by (simp add: handle_json_def)
  then have "projection_handle sv (ra_engine a) (status' = EFailed) (ra_handle a)
    = projection_handle sv (ra_engine a) (status = EFailed) (ra_handle a)"
    by (simp add: projection_handle_def assms(2))
  with assms(1) show ?thesis by (simp add: projection_input_def)
qed

text \<open>
  The columns that a write leaves alone when its arguments, normalised to \<open>b\<close>, do not give them
  must not hold another value from an earlier write.
\<close>

definition columns_free :: "run_args \<Rightarrow> run_args \<Rightarrow> engine_run \<Rightarrow> bool" where
  "columns_free a b r \<longleftrightarrow>
     (ra_run a = None \<longrightarrow> er_run r = None) \<and> (ra_connection b = None \<longrightarrow> er_version r = None)
     \<and> (ra_artifact_connection b = None \<longrightarrow> er_artifact_connection r = None \<and> er_artifact_version r = None)"

lemma normal_args:
  "normal_connections sv h a = (False, b) \<Longrightarrow>
     ra_engine b = ra_engine a \<and> ra_project b = ra_project a \<and> ra_app b = ra_app a \<and> ra_run b = ra_run a
     \<and> ra_namespace b = ra_namespace a"
  by (auto simp: normal_connections_def Let_def split: if_splits)

lemma paired_sel [simp]:
  "ra_engine (paired_artifacts b) = ra_engine b" "ra_project (paired_artifacts b) = ra_project b"
  "ra_app (paired_artifacts b) = ra_app b" "ra_run (paired_artifacts b) = ra_run b"
  "ra_namespace (paired_artifacts b) = ra_namespace b" "ra_connection (paired_artifacts b) = ra_connection b"
  "ra_version (paired_artifacts b) = ra_version b"
  "ra_artifact_connection (paired_artifacts b) = ra_artifact_connection b"
  "ra_artifact_connection b = None \<Longrightarrow> ra_artifact_version (paired_artifacts b) = None"
  by (simp_all add: paired_artifacts_def)

text \<open>What the first terminal write leaves in the row of an open attempt.\<close>

lemma settled_row:
  assumes up: "upsert k (values_of h c status True (Some kind) summary now) db = Some (1, db')"
    and open_row: "\<forall>r. find_run db k = Some r \<longrightarrow> \<not> terminal_phase (er_status r) \<and> columns_free c c r"
    and status: "terminal_phase status" and ns: "ra_namespace c \<noteq> None"
    and pairs: "ra_connection c = None \<longleftrightarrow> ra_version c = None"
      "ra_artifact_connection c = None \<longleftrightarrow> ra_artifact_version c = None"
  shows "\<exists>r. find_run db' k = Some r \<and> er_status r = status \<and> er_engine r = ra_engine c \<and> er_handle r = h
    \<and> er_known r \<and> er_scope_known r \<and> er_project r = ra_project c \<and> er_app r = ra_app c \<and> er_run r = ra_run c
    \<and> er_namespace r = map_option strip_slashes (ra_namespace c)
    \<and> er_artifact_connection r = ra_artifact_connection c \<and> er_artifact_version r = ra_artifact_version c
    \<and> er_version r = ra_version c \<and> er_completion r = Some kind"
proof (cases "find_run db k")
  case None
  with upsert_row(1) [OF up] ns pairs show ?thesis by (auto simp: inserted_row_def values_of_def)
next
  case (Some r)
  let ?v = "values_of h c status True (Some kind) summary now"
  from open_row Some status have "\<not> stale_write r ?v" and free: "columns_free c c r"
    by (auto simp: stale_write_def)
  then have "updated_row r ?v = overwritten_row r ?v"
    unfolding updated_row_def Let_def by (simp add: values_of_def)
  with upsert_row(1) [OF up] Some ns pairs free show ?thesis
    by (auto simp: overwritten_row_def values_of_def keep_old_def columns_free_def split: option.splits)
qed

lemma completion_recovered:
  assumes "runs_ok db"
    and written: "record_run sv True a status (Some kind) summary now db = Inr db1"
    and "status \<in> expected" "terminal_phase status"
    and open_row: "\<forall>r. find_run db (run_key a) = Some r \<longrightarrow> \<not> terminal_phase (er_status r) \<and> columns_free a b r"
    and handle: "ra_handle a = handle_json hh" "ra_run a = eh_run hh" "ra_namespace a \<noteq> None"
    and norm: "normal_connections sv (handle_json hh) a = (False, b)"
    and pair: "ra_connection b = None \<longrightarrow> ra_version b = None"
  shows "recover_completion sv a kind expected (run_ops (run_step sv) db1 cs) = Inr (Some status)"
proof -
  let ?c = "paired_artifacts b"
  obtain h where h: "projection_input sv a status = Inr h"
    using written by (auto simp: record_run_def record_checked_def rbind_Inr_iff split: sum.splits)
  from projection_input_handle [OF h] handle(1)
  have "projection_handle sv (ra_engine a) (status = EFailed) (handle_json hh) = Inr h" by simp
  note canonical = projection_handle_json [OF this]
  note same = normal_args [OF norm] and key = run_key_normal [OF norm]
  have checks: "required_checks sv True ?c status (Some kind) db = Inr ()"
    and up: "upsert (run_key a) (values_of h ?c status True (Some kind) summary now) db = Some (1, db1)"
    using record_unskipped [OF written h] norm canonical(1) by simp_all
  have scope: "require_scope sv ''completion recovery'' ?c = Inr ()"
    and version: "ra_connection b \<noteq> None \<longrightarrow> ra_version b \<noteq> None"
    and store: "ra_artifact_connection ?c = None \<longleftrightarrow> ra_artifact_version ?c = None"
    using checks
    by (auto simp: required_checks_def rbind_Inr_iff require_version_def require_scope_def lock_artifacts_def
        split: if_splits option.splits)
  have free: "\<forall>r. find_run db (run_key a) = Some r \<longrightarrow> \<not> terminal_phase (er_status r) \<and> columns_free ?c ?c r"
    using open_row same by (auto simp: columns_free_def)
  have ns: "ra_namespace ?c \<noteq> None" and pairs: "ra_connection ?c = None \<longleftrightarrow> ra_version ?c = None"
    using handle(3) same pair version by auto
  from settled_row [OF up free assms(4) ns pairs store] obtain r where
    r: "find_run db1 (run_key a) = Some r" "er_status r = status" "er_handle r = h"
    and row: "er_engine r = ra_engine ?c" "er_known r" "er_scope_known r" "er_project r = ra_project ?c"
      "er_app r = ra_app ?c" "er_run r = ra_run ?c" "er_namespace r = map_option strip_slashes (ra_namespace ?c)"
      "er_artifact_connection r = ra_artifact_connection ?c" "er_artifact_version r = ra_artifact_version ?c"
      "er_version r = ra_version ?c" "er_completion r = Some kind"
    by blast
  from run_step_keeps [OF assms(1), of sv "Record True a status (Some kind) summary now"] written
  have "runs_le db1 (run_ops (run_step sv) db1 cs)" by (auto simp: run_step_def intro: calls_keep)
  with r assms(4) have kept: "find_run (run_ops (run_step sv) db1 cs) (run_key a) = Some r"
    unfolding runs_le_def row_le_def by metis
  have "text_option (dget h ''external_run_id'') = ra_run a"
    unfolding canonical(1) handle(2) by (simp add: handle_json_def dget_def)
  with row r(2) assms(3) same have "\<not> completion_mismatch h ?c kind expected h r"
    by (simp add: completion_mismatch_def)
  with kept canonical scope same key norm projection_input_status [OF h handle(1)] r assms(4) show ?thesis
    by (simp add: recover_completion_def paired_artifacts_def [symmetric] Let_def)
qed

text \<open>
  C26. The terminal write of an open attempt may commit and its acknowledgement be lost: the recovery
  with the same arguments returns the status written, whatever calls were made in between. This
  covers the writes of a collection, with an artifact store, and those of a cleanup, without one.
  The write is projected at all (its normalised arguments are \<open>b\<close>), it names the handle, the run of
  the handle and an artifact namespace, as the nodes do, and no column that it leaves out was set
  by an earlier write.
\<close>

theorem lost_completion_recovered:
  assumes "runs_ok db"
    and written: "record_run sv True a status (Some kind) summary now db = Inr db1"
    and "status \<in> expected" "terminal_phase status"
    and open_row: "\<forall>r. find_run db (run_key a) = Some r \<longrightarrow> \<not> terminal_phase (er_status r) \<and> columns_free a b r"
    and handle: "ra_handle a = handle_json hh" "ra_run a = eh_run hh" "ra_namespace a \<noteq> None"
    and norm: "normal_connections sv (handle_json hh) a = (False, b)"
    and pair: "ra_connection b = None \<longrightarrow> ra_version b = None"
  shows "recover_completion sv a kind expected (run_ops (run_step sv) db1 cs) = Inr (Some status)"
  using assms by (rule completion_recovered)

subsection \<open>A sample attempt\<close>

definition sample_services :: engine_services where
  "sample_services =
     \<lparr>es_cred = \<lambda>_ _ _ _. False, es_diagnostic = \<lambda>_ s. s, es_secret_field = \<lambda>_. False,
      es_locked = True, es_new_id = ''n''\<rparr>"

definition sample_handle :: engine_handle where
  "sample_handle =
     \<lparr>eh_engine = ''jmeter'', eh_connection = Some ''c'', eh_run = Some ''r'', eh_key = ''k'', eh_extras = []\<rparr>"

definition sample_args :: run_args where
  "sample_args =
     \<lparr>ra_thread = ''t'', ra_attempt = 1, ra_engine = ''jmeter'', ra_handle = handle_json sample_handle,
      ra_project = Some ''p'', ra_app = Some ''a'', ra_run = Some ''r'',
      ra_namespace = Some (artifact_namespace ''k''), ra_connection = Some ''c'', ra_version = Some 1,
      ra_artifact_connection = Some ''s'', ra_artifact_version = Some 2\<rparr>"

text \<open>A cleanup names no artifact store.\<close>

definition cleanup_args :: run_args where
  "cleanup_args = sample_args\<lparr>ra_artifact_connection := None, ra_artifact_version := None\<rparr>"

definition sample_tables :: engine_db where
  "sample_tables =
     \<lparr>ed_runs = [],
      ed_connections =
        [''c'' \<mapsto> \<lparr>cn_kind = ''execution_engine'', cn_provider = ''jmeter'', cn_project = None,
           cn_enabled = True, cn_runtime_version = 1\<rparr>,
         ''s'' \<mapsto> \<lparr>cn_kind = ''artifact_store'', cn_provider = ''minio'', cn_project = None,
           cn_enabled = True, cn_runtime_version = 2\<rparr>],
      ed_traffic = Map.empty\<rparr>"

lemma sha256_hex_chars: "c \<in> set (sha256_hex s) \<Longrightarrow> c \<in> set ''0123456789abcdef''"
  using sha256_hex_lowercase [of s] unfolding lowercase_sha256_def list_all_iff by blast

lemma sha256_hex_nonempty: "sha256_hex s \<noteq> []"
  using sha256_hex_lowercase [of s] unfolding lowercase_sha256_def by force

lemma namespace_chars:
  assumes "c \<in> set (artifact_namespace k)"
  shows "c \<in> set ''engine-runs/'' \<or> c \<in> set ''0123456789abcdef''"
  using assms sha256_hex_chars unfolding artifact_namespace_def set_append by blast

lemma namespace_last: "last (artifact_namespace k) \<in> set ''0123456789abcdef''"
  unfolding artifact_namespace_def last_appendR [OF sha256_hex_nonempty]
  by (rule sha256_hex_chars) (rule last_in_set [OF sha256_hex_nonempty])

lemma dropWhile_last: "xs \<noteq> [] \<Longrightarrow> \<not> P (last xs) \<Longrightarrow> rev (dropWhile P (rev xs)) = xs"
  by (cases xs rule: rev_cases) simp_all

lemma strip_namespace [simp]: "strip_slashes (artifact_namespace k) = artifact_namespace k"
proof -
  have "last (artifact_namespace k) \<noteq> CHR ''/''" using namespace_last [of k] by auto
  then show ?thesis
    unfolding strip_slashes_def by (rule dropWhile_last [rotated]) (simp add: artifact_namespace_def)
qed

lemma clean_namespace: "clean_text (\<lambda>_ _ _ _. False) 512 (artifact_namespace k)"
proof -
  have "\<not> is_space (last (artifact_namespace k))"
    using namespace_last [of k] by (auto simp: is_space_def)
  moreover have head: "dropWhile is_space (artifact_namespace k) = artifact_namespace k"
    by (simp add: artifact_namespace_def is_space_def)
  ultimately have "strip (artifact_namespace k) = artifact_namespace k"
    unfolding strip_def head by (intro dropWhile_last) (simp_all add: artifact_namespace_def)
  moreover have "length (artifact_namespace k) = 76"
    using sha256_hex_lowercase [of "utf8 k"] by (simp add: artifact_namespace_def lowercase_sha256_def)
  moreover have "32 \<le> (of_char c :: nat) \<and> of_char c \<noteq> (127 :: nat)" if "c \<in> set (artifact_namespace k)" for c
    using namespace_chars [OF that] by auto
  ultimately show ?thesis
    by (auto simp: clean_text_def scan_def list_all_iff artifact_namespace_def)
qed

lemma clean_sample_texts:
  "list_all (\<lambda>s. clean_text (\<lambda>_ _ _ _. False) 64 s) [''t'', ''jmeter'', ''p'', ''a'', ''r'', ''c'', ''s'']"
  by (simp add: clean_text_def scan_def strip_def is_space_def)

lemma clean_sample [simp]:
  assumes "64 \<le> hi"
  shows "clean_text (\<lambda>_ _ _ _. False) hi ''t''" "clean_text (\<lambda>_ _ _ _. False) hi ''jmeter''"
    "clean_text (\<lambda>_ _ _ _. False) hi ''p''" "clean_text (\<lambda>_ _ _ _. False) hi ''a''"
    "clean_text (\<lambda>_ _ _ _. False) hi ''r''" "clean_text (\<lambda>_ _ _ _. False) hi ''c''"
    "clean_text (\<lambda>_ _ _ _. False) hi ''s''"
proof -
  have "clean_text cred 64 s \<Longrightarrow> clean_text cred hi s" for cred s
    using assms by (simp add: clean_text_def)
  from clean_sample_texts this show "clean_text (\<lambda>_ _ _ _. False) hi ''t''"
    "clean_text (\<lambda>_ _ _ _. False) hi ''jmeter''" "clean_text (\<lambda>_ _ _ _. False) hi ''p''"
    "clean_text (\<lambda>_ _ _ _. False) hi ''a''" "clean_text (\<lambda>_ _ _ _. False) hi ''r''"
    "clean_text (\<lambda>_ _ _ _. False) hi ''c''" "clean_text (\<lambda>_ _ _ _. False) hi ''s''"
    by simp_all
qed

lemma sample_input:
  "projection_input sample_services sample_args status = Inr (handle_json sample_handle)"
  "projection_input sample_services cleanup_args status = Inr (handle_json sample_handle)"
proof -
  have "projection_handle sample_services ''jmeter'' b (handle_json sample_handle) = Inr (handle_json sample_handle)" for b
    by (simp add: projection_handle_def handle_model_def sample_services_def sample_handle_def handle_json_def
        optional_text_def text_between_def nul_free_def with_default_def dget_def extras_ok_def optional_between_def
        scan_def Let_def handle_fields_def text_option_def extras_of_def)
  then show "projection_input sample_services sample_args status = Inr (handle_json sample_handle)"
    "projection_input sample_services cleanup_args status = Inr (handle_json sample_handle)"
    by (simp_all add: projection_input_def cleanup_args_def sample_args_def text_error_def clean_sample clean_namespace
        sample_services_def) (simp_all add: handle_json_def sample_handle_def optional_text_def text_option_def dget_def
        safe_key_def text_between_def nul_free_def scan_def)
qed

lemma sample_checks:
  assumes "kind \<noteq> None \<longrightarrow> terminal_phase status"
  shows "required_checks sample_services True sample_args status kind (sample_tables\<lparr>ed_runs := rows\<rparr>) = Inr ()"
    "required_checks sample_services True cleanup_args status kind (sample_tables\<lparr>ed_runs := rows\<rparr>) = Inr ()"
  using assms
  by (auto simp: required_checks_def require_scope_def require_version_def exact_scope_def sample_args_def cleanup_args_def
      sample_services_def clean_sample lock_execution_def lock_artifacts_def sample_tables_def execution_project_def)

text \<open>The sample attempt, open, and after the write of a status.\<close>

definition sample_open :: engine_db where
  "sample_open = sample_tables\<lparr>ed_runs := [((''t'', 1), reservation_row (handle_json sample_handle) sample_args)]\<rparr>"

definition sample_written :: "engine_phase \<Rightarrow> completion option \<Rightarrow> engine_db" where
  "sample_written status kind =
     put_run (''t'', 1) (updated_row (reservation_row (handle_json sample_handle) sample_args)
       (values_of (handle_json sample_handle) sample_args status True kind None 9)) sample_open"

lemma sample_open_ok: "runs_ok sample_open"
  by (auto simp: runs_ok_def sample_open_def find_run_def reservation_row_ok split: if_splits)

lemma sample_record:
  assumes "kind \<noteq> None \<longrightarrow> terminal_phase status"
  shows "record_run sample_services True sample_args status kind None 9 sample_open = Inr (sample_written status kind)"
proof -
  let ?r = "reservation_row (handle_json sample_handle) sample_args"
  let ?v = "values_of (handle_json sample_handle) sample_args status True kind None 9"
  have pair: "paired_artifacts sample_args = sample_args"
    by (simp add: paired_artifacts_def sample_args_def)
  have key: "run_key sample_args = (''t'', 1)" by (simp add: run_key_def sample_args_def)
  have found: "find_run sample_open (''t'', 1) = Some ?r" by (simp add: find_run_def sample_open_def)
  have allowed: "transition_allowed ?r ?v"
    by (simp add: transition_allowed_def reservation_row_def values_of_def terminal_phase_def sample_args_def)
  have free: "namespace_free sample_open (''t'', 1) ns" for ns
    by (simp add: namespace_free_def sample_open_def)
  have "upsert (''t'', 1) ?v sample_open = Some (1, sample_written status kind)"
    by (simp add: upsert_def found allowed free sample_written_def)
  moreover have "normal_connections sample_services (handle_json sample_handle) sample_args = (False, sample_args)"
    by (simp add: sample_services_def)
  ultimately show ?thesis
    using sample_checks(1) [OF assms, of "ed_runs sample_open"] assms
    by (simp add: record_run_def record_checked_def sample_input paired_artifacts_def [symmetric] pair key Let_def
        sample_open_def)
qed

theorem engine_rows_monotone_witness:
  "runs_ok (run_ops (run_step sample_services) sample_open
      [Record True sample_args ECollecting None None 9, Record True sample_args ERunning None None 9])
   \<and> runs_le sample_open (run_ops (run_step sample_services) sample_open
      [Record True sample_args ECollecting None None 9, Record True sample_args ERunning None None 9])"
  by (rule engine_rows_monotone [OF sample_open_ok])

definition cleanup_written :: engine_db where
  "cleanup_written =
     put_run (''t'', 1) (updated_row (reservation_row (handle_json sample_handle) sample_args)
       (values_of (handle_json sample_handle) cleanup_args EAborted True (Some CleanupTeardown) None 9)) sample_open"

lemma cleanup_record:
  "record_run sample_services True cleanup_args EAborted (Some CleanupTeardown) None 9 sample_open = Inr cleanup_written"
proof -
  let ?r = "reservation_row (handle_json sample_handle) sample_args"
  let ?v = "values_of (handle_json sample_handle) cleanup_args EAborted True (Some CleanupTeardown) None 9"
  have checks: "required_checks sample_services True cleanup_args EAborted (Some CleanupTeardown) sample_open = Inr ()"
    unfolding sample_open_def by (rule sample_checks(2)) (simp add: terminal_phase_def)
  have key: "run_key cleanup_args = (''t'', 1)" by (simp add: run_key_def cleanup_args_def sample_args_def)
  have found: "find_run sample_open (''t'', 1) = Some ?r" by (simp add: find_run_def sample_open_def)
  have allowed: "transition_allowed ?r ?v"
    by (simp add: transition_allowed_def reservation_row_def values_of_def terminal_phase_def sample_args_def cleanup_args_def)
  have free: "namespace_free sample_open (''t'', 1) ns" for ns
    by (simp add: namespace_free_def sample_open_def)
  have up: "upsert (''t'', 1) ?v sample_open = Some (1, cleanup_written)"
    by (simp add: upsert_def found allowed free cleanup_written_def)
  have "normal_connections sample_services (handle_json sample_handle) cleanup_args = (False, cleanup_args)"
    by (simp add: sample_services_def)
  moreover have "cleanup_args\<lparr>ra_artifact_version := None\<rparr> = cleanup_args"
    by (simp add: cleanup_args_def)
  moreover have "ra_artifact_connection cleanup_args = None" by (simp add: cleanup_args_def)
  ultimately show ?thesis
    using checks up by (simp add: record_run_def record_checked_def sample_input key Let_def)
qed

lemma sample_open_columns:
  "\<forall>r. find_run sample_open (run_key sample_args) = Some r \<longrightarrow>
     \<not> terminal_phase (er_status r) \<and> columns_free sample_args sample_args r"
  "\<forall>r. find_run sample_open (run_key cleanup_args) = Some r \<longrightarrow>
     \<not> terminal_phase (er_status r) \<and> columns_free cleanup_args cleanup_args r"
  by (simp_all add: sample_open_def find_run_def run_key_def sample_args_def cleanup_args_def reservation_row_def
      terminal_phase_def columns_free_def)

lemma sample_projected:
  "normal_connections sample_services (handle_json sample_handle) a = (False, a)"
  "ra_handle sample_args = handle_json sample_handle" "ra_run sample_args = eh_run sample_handle"
  "ra_handle cleanup_args = handle_json sample_handle" "ra_run cleanup_args = eh_run sample_handle"
  by (simp_all add: sample_services_def sample_args_def cleanup_args_def sample_handle_def)

theorem lost_completion_recovered_witness:
  "recover_completion sample_services sample_args CollectionTeardown {ECompleted, EFailed}
     (run_ops (run_step sample_services) (sample_written ECompleted (Some CollectionTeardown))
        [PrepareStart sample_args]) = Inr (Some ECompleted)
   \<and> recover_completion sample_services cleanup_args CleanupTeardown {ECompleted, EFailed, EAborted}
     (run_ops (run_step sample_services) cleanup_written [PrepareStart sample_args]) = Inr (Some EAborted)"
proof
  have written: "record_run sample_services True sample_args ECompleted (Some CollectionTeardown) None 9 sample_open
    = Inr (sample_written ECompleted (Some CollectionTeardown))"
    by (rule sample_record) (simp add: terminal_phase_def)
  show "recover_completion sample_services sample_args CollectionTeardown {ECompleted, EFailed}
     (run_ops (run_step sample_services) (sample_written ECompleted (Some CollectionTeardown))
        [PrepareStart sample_args]) = Inr (Some ECompleted)"
    by (rule lost_completion_recovered [OF sample_open_ok written _ _ sample_open_columns(1) sample_projected(2,3) _ sample_projected(1)])
      (simp_all add: sample_args_def terminal_phase_def)
  show "recover_completion sample_services cleanup_args CleanupTeardown {ECompleted, EFailed, EAborted}
     (run_ops (run_step sample_services) cleanup_written [PrepareStart sample_args]) = Inr (Some EAborted)"
    by (rule lost_completion_recovered [OF sample_open_ok cleanup_record _ _ sample_open_columns(2) sample_projected(4,5) _ sample_projected(1)])
      (simp_all add: cleanup_args_def sample_args_def terminal_phase_def)
qed

end
