(* ===== verification/Engine_Spine.thy ===== *)
theory Engine_Spine
  imports Engine_Provision Engine_Collection Engine_Calls
begin

text \<open>
  The engine nodes together: the node of a name, how an update reaches the next checkpoint, and what
  holds of every execution of a node, whatever the provider and the database answer, whatever the
  other workers have written meanwhile, and wherever the process dies.
\<close>

subsection \<open>The spine\<close>

definition spine_node ::
  "node_services \<Rightarrow> (pydict \<Rightarrow> bool) \<Rightarrow> engine_cfg \<Rightarrow> string \<Rightarrow> answers \<Rightarrow> bool \<Rightarrow> string \<Rightarrow> pydict
   \<Rightarrow> node_result prog" where
  "spine_node sv spec_model cfg thread an resumed name state =
     (if name = ''engine_reserve'' then engine_reserve sv cfg an state
      else if name = ''engine_provision'' then engine_provision sv spec_model cfg thread an state
      else if name = ''engine_provision_blocked'' then engine_provision_blocked sv thread resumed state
      else if name = ''engine_provision_resume'' then engine_provision_resume state
      else if name = ''engine_start'' then engine_start sv cfg thread an state
      else if name = ''engine_status'' then engine_status_node sv cfg an state
      else if name = ''engine_poll'' then engine_poll sv cfg an state
      else if name = ''engine_cleanup'' then engine_cleanup sv cfg thread an state
      else if name = ''engine_cleanup_blocked'' then engine_cleanup_blocked sv thread resumed state
      else if name = ''engine_collect'' then engine_collect sv cfg thread an state
      else if name = ''engine_collection_index'' then engine_collection_index sv an state
      else if name = ''engine_collection_settle'' then engine_collection_settle sv cfg thread an state
      else if name = ''engine_collection_settle_blocked''
      then engine_collection_settle_blocked sv thread resumed state
      else if name = ''engine_collection_settle_resume'' then engine_collection_settle_resume state
      else if name = ''engine_collection_blocked'' then engine_collection_blocked sv thread resumed state
      else if name = ''engine_collection_resume'' then engine_collection_resume state
      else raise (Plain ''unknown node''))"

text \<open>The reducers of the three channels that an update writes.\<close>

definition apply_update :: "scanner \<Rightarrow> pydict \<Rightarrow> engine_update \<Rightarrow> pydict res" where
  "apply_update cred state u =
     rbind (if eu_entry u = [] then Inr state
            else rbind (merge_phase_results cred (dget state ''phase_results'')
                          (PDict [(''execution'', PDict (eu_entry u))]))
                   (\<lambda>m. Inr (dset ''phase_results'' (PDict m) state))) (\<lambda>s.
     rbind (if eu_artifacts u = [] then Inr s
            else rbind (merge_artifacts cred (dget s ''artifacts'') (PList (map PDict (eu_artifacts u))))
                   (\<lambda>xs. Inr (dset ''artifacts'' (PList (map PDict xs)) s))) (\<lambda>s.
     Inr (case eu_handle u of None \<Rightarrow> s | Some h \<Rightarrow> dset ''engine_handle'' (PDict h) s)))"

subsection \<open>Final nodes leave a settled row\<close>

definition settled_run :: "string \<Rightarrow> int \<Rightarrow> engine_world \<Rightarrow> bool" where
  "settled_run thread a w \<longleftrightarrow>
     (\<exists>r. find_run (ew_db w) (thread, a) = Some r \<and> terminal_phase (er_status r))"

definition torn_down :: "string \<Rightarrow> int \<Rightarrow> completion \<Rightarrow> engine_world \<Rightarrow> bool" where
  "torn_down thread a kind w \<longleftrightarrow>
     (\<exists>r. find_run (ew_db w) (thread, a) = Some r \<and> terminal_phase (er_status r) \<and> er_completion r = Some kind)"

lemma torn_down_settled: "torn_down thread a kind w \<Longrightarrow> settled_run thread a w"
  by (auto simp: torn_down_def settled_run_def)

definition final_node :: "string \<Rightarrow> bool" where
  "final_node g \<longleftrightarrow> g = ''finalize'' \<or> g = ''open_output_gate''"

lemma run_services_locked [simp]: "es_locked (run_services sv) = es_locked sv"
  by (simp add: run_services_def engine_services.truncate_def)

lemma wp_project:
  fixes Q :: "'a \<Rightarrow> engine_world \<Rightarrow> bool"
  assumes "\<And>x db w'. f (run_ops (run_step (run_services sv)) (ew_db w) others) = Inr (x, db) \<Longrightarrow>
      ew_db w' = db \<Longrightarrow> ew_calls w' = ew_calls w \<Longrightarrow> Q x w'"
    and "\<And>e w'. ew_calls w' = ew_calls w \<Longrightarrow> E e w'"
  shows "wp (project sv others link f) Q E w"
  using assms
  by (auto simp: wp_def project_def Let_def answered_def committed_def split: sum.split if_split)

lemma recorded_terminal:
  assumes "projected (run_services sv) a" "terminal_phase st"
    and "recorded sv a st kind summary now db = Inr (u, db')"
  shows "\<exists>r. find_run db' (run_key a) = Some r \<and> terminal_phase (er_status r)"
proof -
  from assms(3) have "record_run (run_services sv) True a st kind summary now db = Inr db'"
    by (auto simp: recorded_def rbind_Inr_iff)
  then obtain h b where "upsert (run_key a) (values_of h (paired_artifacts b) st True kind summary now) db = Some (1, db')"
    by (rule record_projected [OF assms(1)])
  from recorded_status [OF this] assms(2) show ?thesis
    using phase_order_le by (auto simp: phase_order_terminal intro: le_antisym)
qed

lemma recovered_terminal:
  assumes "recovered sv a kind expected db = Inr (Some p, db')"
  shows "db' = db \<and> (\<exists>r. find_run db (run_key a) = Some r \<and> terminal_phase (er_status r) \<and> er_completion r = Some kind)"
proof -
  from assms have r: "recover_completion (run_services sv) a kind expected db = Inr (Some p)" "db' = db"
    by (auto simp: recovered_def rbind_Inr_iff)
  then obtain h where h: "projection_input (run_services sv) a (if EFailed \<in> expected then EFailed else EAborted) = Inr h"
    by (auto simp: recover_completion_def rbind_Inr_iff)
  obtain skip b where norm: "normal_connections (run_services sv) h a = (skip, b)" by fastforce
  then have key: "run_key (paired_artifacts b) = run_key a" by (simp add: run_key_normal)
  from r h norm key show ?thesis
    by (auto simp: recover_completion_def rbind_Inr_iff paired_artifacts_def [symmetric] Let_def completion_mismatch_def
        split: if_splits option.splits sum.splits)
qed

lemma handle_args_key [simp]:
  "run_key (handle_args cfg thread a h cid ver) = (thread, a)"
  "run_key (x\<lparr>ra_run := None\<rparr>) = run_key x"
  "run_key (x\<lparr>ra_artifact_connection := c, ra_artifact_version := v\<rparr>) = run_key x"
  by (simp_all add: handle_args_def run_key_def)

text \<open>
  A locked deployment, or an execution whose checkpoint names no development connection as that of
  its engine.
\<close>

definition durable_engine :: "node_services \<Rightarrow> pydict \<Rightarrow> bool" where
  "durable_engine sv state \<longleftrightarrow> es_locked sv \<or>
     (case exec_entry state of
        Inl _ \<Rightarrow> True
      | Inr entry \<Rightarrow>
          \<not> dev_id (text_option (dget entry ''engine_connection_id''))
          \<and> (case handle_from sv state entry of Inl _ \<Rightarrow> True | Inr h \<Rightarrow> \<not> dev_id (eh_connection h)))"

lemma projected_updates [simp]:
  "projected sv (x\<lparr>ra_run := r\<rparr>) = projected sv x"
  "projected sv (x\<lparr>ra_artifact_connection := c, ra_artifact_version := v\<rparr>) = projected sv x"
  by (simp_all add: projected_def own_connection_def)

lemma affinity_connection: "connection_affinity sv entry h = Inr (cid, ver) \<Longrightarrow> cid = None \<or> cid = eh_connection h"
  by (auto simp: connection_affinity_def affinity_missing_def Let_def rbind_Inr_iff split: if_splits)

lemma projected_handle_args:
  assumes "durable_engine sv state" "exec_entry state = Inr entry" "handle_from sv state entry = Inr h"
    and "connection_affinity sv entry h = Inr (cid, ver)"
  shows "projected (run_services sv) (handle_args cfg thread a h cid ver)"
  using assms(1-3) affinity_connection [OF assms(4)]
  by (auto simp: durable_engine_def projected_def own_connection_def handle_args_def handle_json_def dget_def)

lemma projected_first_handle:
  assumes "durable_engine sv state" "exec_entry state = Inr entry"
    and "text_option (dget entry ''engine_connection_id'') = Some cid"
  shows "projected (run_services sv) (handle_args cfg thread a (first_handle cfg cid key) (Some cid) ver)"
  using assms
  by (auto simp: durable_engine_def projected_def own_connection_def handle_args_def first_handle_def handle_json_def dget_def)

lemma wp_record_settled:
  assumes "projected (run_services sv) args" "terminal_phase st" "run_key args = (thread, a)"
    and "\<And>w' :: engine_world. settled_run thread a w' \<Longrightarrow> ew_calls w' = ew_calls w \<Longrightarrow> Q () w'"
    and "\<And>e w' :: engine_world. ew_calls w' = ew_calls w \<Longrightarrow> E e w'"
  shows "wp (project sv others link (recorded sv args st kind summary now)) Q E w"
proof (rule wp_project)
  fix x db and w' :: engine_world
  assume "recorded sv args st kind summary now (run_ops (run_step (run_services sv)) (ew_db w) others) = Inr (x, db)"
    and w': "ew_db w' = db" "ew_calls w' = ew_calls w"
  from recorded_terminal [OF assms(1,2) this(1)] assms(3) w'(1) have "settled_run thread a w'"
    by (simp add: settled_run_def)
  with assms(4) w'(2) show "Q x w'" by simp
qed (rule assms(5))

lemma wp_record_second:
  assumes "projected (run_services sv) args" "terminal_phase st" "run_key args = (thread, a)"
    and "\<And>w' :: engine_world. settled_run thread a w' \<Longrightarrow> ew_calls w' = ew_calls w \<Longrightarrow> Q () w'"
    and "\<And>e w' :: engine_world. ew_calls w' = ew_calls w \<Longrightarrow> E e w'"
  shows "wp (record_second sv an args st kind summary) Q E w"
  unfolding record_second_def wp_seq wp_pure
  using assms by (auto intro!: wp_record_settled split: sum.split)

text \<open>A postcondition on the command only.\<close>

definition on_final :: "(engine_world \<Rightarrow> bool) \<Rightarrow> node_result \<Rightarrow> engine_world \<Rightarrow> bool" where
  "on_final P res w \<longleftrightarrow> (case res of Moved g u \<Rightarrow> final_node g \<longrightarrow> P w | Paused v \<Rightarrow> True)"

lemma on_final_Paused [simp]: "on_final P (Paused v) w"
  by (simp add: on_final_def)

lemma on_final_Moved [simp]: "on_final P (Moved g u) w \<longleftrightarrow> (final_node g \<longrightarrow> P w)"
  by (simp add: on_final_def)

lemma wp_trivial: "(\<And>x w'. Q x w') \<Longrightarrow> wp m Q (\<lambda>_ _. True) w"
  by (auto simp: wp_def split: prod.split sum.split)

lemma final_nodes [simp]:
  "final_node ''finalize''" "final_node ''open_output_gate''" "\<not> final_node ''engine_provision''"
  "\<not> final_node ''engine_provision_blocked''" "\<not> final_node ''engine_start''"
  "\<not> final_node ''engine_status''" "\<not> final_node ''engine_poll''" "\<not> final_node ''engine_cleanup''"
  "\<not> final_node ''engine_cleanup_blocked''" "\<not> final_node ''engine_collect''"
  "\<not> final_node ''engine_collection_index''" "\<not> final_node ''engine_collection_blocked''"
  "\<not> final_node ''engine_collection_settle''" "\<not> final_node ''engine_collection_settle_blocked''"
  by (simp_all add: final_node_def)

lemmas wp_simps = wp_rules on_final_Moved final_nodes

text \<open>The nodes that never move to a final node.\<close>

lemma retry_provision_final: "wp (retry_provision sv entry a m fs) (on_final P) (\<lambda>_ _. True) w"
  by (simp add: retry_provision_def wp_rules Let_def split: sum.split)

lemma stage_affinity_final: "wp (stage_affinity sv cfg an entry a cid) (on_final P) (\<lambda>_ _. True) w"
  by (simp add: stage_affinity_def wp_rules retry_provision_final split: sum.split option.split)

lemma retry_collection_final: "wp (retry_collection sv entry a m fs) (on_final P) (\<lambda>_ _. True) w"
  by (simp add: retry_collection_def wp_rules Let_def split: sum.split)

lemma reserve_store_final: "wp (reserve_store sv an entry a) (on_final P) (\<lambda>_ _. True) w"
  by (simp add: reserve_store_def wp_rules retry_collection_final split: sum.split option.split)

lemma retry_index_final: "wp (retry_index sv entry a m) (on_final P) (\<lambda>_ _. True) w"
  by (simp add: retry_index_def wp_rules Let_def split: sum.split)

lemma settle_failed_final: "wp (settle_failed sv entry a m) (on_final P) (\<lambda>_ _. True) w"
  by (simp add: settle_failed_def wp_rules Let_def split: sum.split)

lemma wp_seq_any: "(\<And>x w'. wp (f x) Q (\<lambda>_ _. True) w') \<Longrightarrow> wp (seq m f) Q (\<lambda>_ _. True) w"
  by (simp add: wp_seq wp_trivial)

lemma wp_case_prod: "(\<And>x y. p = (x, y) \<Longrightarrow> wp (f x y) Q E w) \<Longrightarrow> wp (case p of (x, y) \<Rightarrow> f x y) Q E w"
  by (cases p) simp

lemma wp_case_sum:
  "(\<And>x. s = Inl x \<Longrightarrow> wp (f x) Q E w) \<Longrightarrow> (\<And>y. s = Inr y \<Longrightarrow> wp (g y) Q E w) \<Longrightarrow>
   wp (case s of Inl x \<Rightarrow> f x | Inr y \<Rightarrow> g y) Q E w"
  by (cases s) simp_all

lemma wp_case_option:
  "(s = None \<Longrightarrow> wp m Q E w) \<Longrightarrow> (\<And>y. s = Some y \<Longrightarrow> wp (g y) Q E w) \<Longrightarrow>
   wp (case s of None \<Rightarrow> m | Some y \<Rightarrow> g y) Q E w"
  by (cases s) simp_all

lemma wp_cond: "(b \<Longrightarrow> wp m Q E w) \<Longrightarrow> (\<not> b \<Longrightarrow> wp n Q E w) \<Longrightarrow> wp (if b then m else n) Q E w"
  by simp

lemma wp_retI: "Q x w \<Longrightarrow> wp (ret x) Q E w"
  by (simp add: wp_ret)

lemma wp_raise_any: "wp (raise e) Q (\<lambda>_ _. True) w"
  by (simp add: wp_raise)

lemmas wp_skip = wp_seq_any wp_case_prod wp_case_sum wp_case_option wp_cond wp_retI wp_raise_any

lemma engine_status_final: "wp (engine_status_node sv cfg an state) (on_final P) (\<lambda>_ _. True) w"
  unfolding engine_status_node_def by (intro wp_skip) simp_all

lemma engine_poll_final: "wp (engine_poll sv cfg an state) (on_final P) (\<lambda>_ _. True) w"
  unfolding engine_poll_def by (intro wp_skip) (simp_all add: poll_failed_def polled_def Let_def)

lemma engine_collect_final: "wp (engine_collect sv cfg thread an state) (on_final P) (\<lambda>_ _. True) w"
proof -
  have "wp (attempt (seq m (\<lambda>(refs, m). ret (staged_batch a store refs m)))
              (\<lambda>e. retry_collection sv entry a (error_text e) [])) (on_final P) (\<lambda>_ _. True) w" for m a store entry w
    by (auto simp: wp_attempt wp_seq wp_ret staged_batch_def retry_collection_final wp_def [of m]
        split: prod.split sum.split)
  then show ?thesis
    unfolding engine_collect_def Let_def
    by (intro wp_skip reserve_store_final retry_collection_final) (simp_all add: invalid_collection_def)
qed

lemma engine_index_final: "wp (engine_collection_index sv an state) (on_final P) (\<lambda>_ _. True) w"
  unfolding engine_collection_index_def
  by (intro wp_skip retry_index_final) (simp_all add: indexed_def Let_def)

lemma resumed_final:
  "wp (engine_provision_blocked sv thread resumed state) (on_final P) (\<lambda>_ _. True) w"
  "wp (engine_provision_resume state) (on_final P) (\<lambda>_ _. True) w"
  "wp (engine_cleanup_blocked sv thread resumed state) (on_final P) (\<lambda>_ _. True) w"
  "wp (engine_collection_settle_blocked sv thread resumed state) (on_final P) (\<lambda>_ _. True) w"
  "wp (engine_collection_settle_resume state) (on_final P) (\<lambda>_ _. True) w"
  "wp (engine_collection_blocked sv thread resumed state) (on_final P) (\<lambda>_ _. True) w"
  "wp (engine_collection_resume state) (on_final P) (\<lambda>_ _. True) w"
  unfolding engine_provision_blocked_def engine_provision_resume_def engine_cleanup_blocked_def
    engine_collection_settle_blocked_def engine_collection_settle_resume_def engine_collection_blocked_def
    engine_collection_resume_def
  by (intro wp_skip; simp add: reopened_provision_def reopened_cleanup_def reopened_settle_def reopened_collection_def)+

text \<open>The nodes that end the attempt: each of them has a terminal row written first.\<close>

lemma wp_read:
  "(\<And>x. r = Inr x \<Longrightarrow> wp (f x) Q (\<lambda>_ _. True) w) \<Longrightarrow> wp (seq (pure r) f) Q (\<lambda>_ _. True) w"
  by (simp add: wp_seq wp_pure split: sum.split)

lemma wp_known:
  "r = Inr x \<Longrightarrow> wp (f x) Q E w \<Longrightarrow> wp (seq (pure r) f) Q E w"
  by (simp add: wp_seq wp_pure)

lemma wp_moved_after:
  assumes "final_node g \<Longrightarrow> wp m (\<lambda>_. P) (\<lambda>_ _. True) w"
  shows "wp (seq m (\<lambda>_. ret (Moved g u))) (on_final P) (\<lambda>_ _. True) w"
proof (cases "final_node g")
  case True
  show ?thesis unfolding wp_seq wp_ret by (rule wp_conseq [OF assms [OF True]]) simp_all
qed (simp add: wp_seq wp_ret wp_trivial)

lemma wp_rbind:
  assumes "wp m R (\<lambda>_ _. True) w" "\<And>x w'. R x w' \<Longrightarrow> wp (f x) Q (\<lambda>_ _. True) w'"
  shows "wp (seq m f) Q (\<lambda>_ _. True) w"
  unfolding wp_seq by (rule wp_conseq [OF assms(1)]) (simp_all add: assms(2))

lemma wp_tried:
  assumes "wp m Q (\<lambda>_ _. True) w" "\<And>e w'. wp (h e) Q (\<lambda>_ _. True) w'"
  shows "wp (attempt m h) Q (\<lambda>_ _. True) w"
  unfolding wp_attempt by (rule wp_conseq [OF assms(1)]) (simp_all add: assms(2))

lemma start_run_handle:
  "wp (start_run sv cfg an entry h cid ver) (\<lambda>(err, h', compensated) _. compensated \<longrightarrow> h' = h) (\<lambda>_ _. True) w"
  unfolding start_run_def Let_def by (intro wp_skip) simp_all

lemma engine_start_final:
  assumes "durable_engine sv state" "exec_entry state = Inr entry" "exec_attempt entry = Inr a"
  shows "wp (engine_start sv cfg thread an state) (on_final (settled_run thread a)) (\<lambda>_ _. True) w"
proof -
  have tried: "wp (attempt (start_run sv cfg an entry h cid ver) (\<lambda>e. ret (Some (m e), h, False)))
      (\<lambda>(err, h', compensated) _. compensated \<longrightarrow> h' = h) (\<lambda>_ _. True) w" for h cid ver m w
    by (rule wp_tried [OF start_run_handle]) (simp add: wp_ret)
  show ?thesis
    unfolding engine_start_def
    apply (rule wp_known [OF assms(2)], rule wp_known [OF assms(3)])
    apply (rule wp_read, rule wp_read, rule wp_read, rule wp_case_prod, rule wp_seq_any, rule wp_case_option)
     apply (rule wp_rbind [OF tried], intro wp_case_prod wp_cond wp_case_option)
       apply (intro wp_moved_after wp_record_second)
           apply (simp_all add: terminal_phase_def wp_retI projected_handle_args [OF assms(1,2)])
     apply (intro wp_moved_after, simp)
    apply (intro wp_skip, simp)
    done
qed

lemma engine_provision_final:
  assumes "durable_engine sv state" "exec_entry state = Inr entry" "exec_attempt entry = Inr a"
  shows "wp (engine_provision sv spec_model cfg thread an state) (on_final (settled_run thread a)) (\<lambda>_ _. True) w"
proof -
  have failed: "wp (provision_failed sv cfg thread an a key issues) (on_final (settled_run thread a)) (\<lambda>_ _. True) w" for key issues w
    unfolding provision_failed_def
    by (intro wp_read wp_moved_after wp_record_settled)
      (simp_all add: terminal_phase_def run_key_def projected_def own_connection_def dev_id_def text_option_def dget_def)
  show ?thesis
    unfolding engine_provision_def Let_def
    apply (rule wp_known [OF assms(2)], rule wp_known [OF assms(3)])
    apply (intro wp_skip failed retry_provision_final stage_affinity_final)
    apply (auto split: provision_outcome.split intro!: wp_skip failed retry_provision_final stage_affinity_final simp: provision_done_def)
    done
qed

lemma confirm_abort_terminal:
  "wp (confirm_abort sv an h) (\<lambda>(p, f) _. terminal_phase p) (\<lambda>_ _. True) w"
  unfolding confirm_abort_def Let_def
  by (intro wp_skip) (auto simp: terminal_phase_def)

lemma wp_recovered:
  assumes "run_key args = (thread, a)"
    and "\<And>p w' :: engine_world. torn_down thread a kind w' \<Longrightarrow> ew_calls w' = ew_calls w \<Longrightarrow> Q (Some p) w'"
    and "\<And>w' :: engine_world. ew_calls w' = ew_calls w \<Longrightarrow> Q None w'"
    and "\<And>e w' :: engine_world. ew_calls w' = ew_calls w \<Longrightarrow> E e w'"
  shows "wp (project sv others link (recovered sv args kind expected)) Q E w"
proof (rule wp_project)
  fix x db and w' :: engine_world
  let ?db = "run_ops (run_step (run_services sv)) (ew_db w) others"
  assume got: "recovered sv args kind expected ?db = Inr (x, db)"
    and w': "ew_db w' = db" "ew_calls w' = ew_calls w"
  show "Q x w'"
  proof (cases x)
    case (Some p)
    with recovered_terminal [of sv args kind expected ?db p db] got assms(1) w'(1)
    have "torn_down thread a kind w'" by (auto simp: torn_down_def)
    with Some assms(2) w'(2) show ?thesis by simp
  qed (use assms(3) w'(2) in simp)
qed (rule assms(4))

lemma stop_run_terminal: "wp (stop_run sv an entry h cid ver) (\<lambda>p _. terminal_phase p) (\<lambda>_ _. True) w"
proof -
  have "wp (seq (call (PTeardown f) r) (\<lambda>_. ret p)) (\<lambda>p _. terminal_phase p) (\<lambda>_ _. True) w"
    if "terminal_phase p" for f p and r :: "engine_exn + unit" and w
    using that by (intro wp_skip)
  then show ?thesis
    unfolding stop_run_def
    by (intro wp_seq_any wp_rbind [OF confirm_abort_terminal]) auto
qed

lemma recover_cleanup_known:
  assumes "run_key args = (thread, a)"
  shows "wp (recover_cleanup sv an args)
    (\<lambda>was w'. ew_calls w' = ew_calls w \<and> (was \<noteq> None \<longrightarrow> torn_down thread a CleanupTeardown w')) (\<lambda>_ _. True) w"
  unfolding recover_cleanup_def
  by (intro wp_cond wp_read wp_recovered wp_retI) (simp_all add: assms)

lemma engine_cleanup_final:
  assumes "durable_engine sv state" "exec_entry state = Inr entry" "exec_attempt entry = Inr a"
  shows "wp (engine_cleanup sv cfg thread an state) (on_final (settled_run thread a)) (\<lambda>_ _. True) w"
proof -
  have stopped: "wp (attempt (case was of Some p \<Rightarrow> ret (Inr p)
                   | None \<Rightarrow> seq (stop_run sv an entry h cid ver) (\<lambda>p. ret (Inr p)))
            (\<lambda>e. ret (Inl (diagnostic sv (error_text e)))))
      (\<lambda>s w'. case s of Inl m \<Rightarrow> True | Inr p \<Rightarrow>
         if was = None then terminal_phase p else settled_run thread a w') (\<lambda>_ _. True) w"
    if "was \<noteq> None \<longrightarrow> settled_run thread a w" for was h cid ver w
    using that
    by (intro wp_tried wp_case_option wp_rbind [OF stop_run_terminal] wp_retI) simp_all
  have rest: "wp (seq (case was of Some _ \<Rightarrow> ret () | None \<Rightarrow> record_second sv an args p kind None) (\<lambda>_.
         ret (cleanup_done sv an entry a reason p))) (on_final (settled_run thread a)) (\<lambda>_ _. True) w"
    if "run_key args = (thread, a)" "projected (run_services sv) args"
      "if was = None then terminal_phase p else settled_run thread a w" for was args p kind reason w
    using that unfolding cleanup_done_def Let_def
    by (intro wp_moved_after wp_case_option wp_record_second wp_retI) auto
  show ?thesis
    unfolding engine_cleanup_def Let_def
    apply (rule wp_known [OF assms(2)], rule wp_known [OF assms(3)])
    apply (intro wp_read wp_case_prod)
    apply (rule wp_rbind [OF recover_cleanup_known], simp)
    apply (rule wp_rbind [OF stopped], blast dest: torn_down_settled)
    apply (intro wp_case_sum wp_read wp_retI rest)
       apply (simp_all add: cleanup_failed_def Let_def projected_handle_args [OF assms(1,2)])
    done
qed

lemma staged_outcome_terminal: "staged_outcome entry = Inr (p, next) \<Longrightarrow> terminal_phase p"
  by (auto simp: staged_outcome_def Let_def split: option.splits if_splits)

lemma recover_settled_known:
  assumes "run_key args = (thread, a)"
  shows "wp (recover_settled sv an args witness p)
    (\<lambda>was w'. ew_calls w' = ew_calls w \<and> (was \<longrightarrow> torn_down thread a CollectionTeardown w')) (\<lambda>_ _. True) w"
proof -
  have "wp (seq (project sv (an_before an) (an_link an) (recovered sv args CollectionTeardown {p})) (\<lambda>got. ret (got \<noteq> None)))
     (\<lambda>was w'. ew_calls w' = ew_calls w \<and> (was \<longrightarrow> torn_down thread a CollectionTeardown w')) (\<lambda>_ _. True) w" for w
    unfolding wp_seq wp_ret by (rule wp_recovered [OF assms]) simp_all
  then show ?thesis
    unfolding recover_settled_def by (auto simp: wp_ret intro: wp_read)
qed

lemma engine_settle_final:
  assumes "durable_engine sv state" "exec_entry state = Inr entry" "exec_attempt entry = Inr a"
  shows "wp (engine_collection_settle sv cfg thread an state) (on_final (settled_run thread a)) (\<lambda>_ _. True) w"
proof -
  have stopped: "wp (if was then ret None else attempt m n)
      (\<lambda>_ w'. was \<longrightarrow> settled_run thread a w') (\<lambda>_ _. True) w"
    if "was \<longrightarrow> settled_run thread a w" for was w and m :: "string option prog" and n
    using that by (cases was) (auto intro: wp_retI wp_trivial)
  have rest: "wp (seq (if was then ret () else record_second sv an args p kind s) (\<lambda>_. ret (settled an a g)))
      (on_final (settled_run thread a)) (\<lambda>_ _. True) w"
    if "run_key args = (thread, a)" "projected (run_services sv) args" "terminal_phase p"
      "was \<longrightarrow> settled_run thread a w" for was args p kind s g w
    using that unfolding settled_def
    by (intro wp_moved_after wp_cond wp_record_second wp_retI) auto
  show ?thesis
    unfolding engine_collection_settle_def Let_def
    apply (rule wp_known [OF assms(2)], rule wp_known [OF assms(3)])
    apply (intro wp_read wp_case_prod wp_cond wp_raise_any)
    apply (rule wp_rbind [OF recover_settled_known], simp)
    apply (rule wp_rbind [OF stopped], blast dest: torn_down_settled)
    apply (intro wp_case_option rest settle_failed_final)
      apply (auto dest: staged_outcome_terminal simp: projected_handle_args [OF assms(1,2)])
    done
qed

end
