(* ===== verification/Engine_Sample.thy ===== *)
theory Engine_Sample
  imports Engine_Spine
begin

text \<open>
  A run of the execution phase on which the properties of the engine nodes are instantiated: a
  development deployment whose connection has no row, and a locked one with the rows of
  Engine_Calls.
\<close>

definition node_sample :: "engine_services \<Rightarrow> node_services" where
  "node_sample sv = engine_services.extend sv
     \<lparr>ns_parse_time = \<lambda>s. Some (Some (if s = ''v1'' then 1 else 2)), ns_iso = \<lambda>t. if t = 1 then ''v1'' else ''v2'',
      ns_outcome = \<lambda>_. None\<rparr>"

definition dev_services :: node_services where
  "dev_services = node_sample (sample_services\<lparr>es_locked := False\<rparr>)"

definition locked_services :: node_services where
  "locked_services = node_sample sample_services"

definition sample_cfg :: engine_cfg where
  "sample_cfg =
     \<lparr>ec_engine = ''jmeter'', ec_project = Some ''p'', ec_app = Some ''a'', ec_connection = None,
      ec_dispatch = False, ec_cycles = 3, ec_timeout_text = ''15''\<rparr>"

definition raw_adapter :: resolved where
  "raw_adapter = \<lparr>rs_wrapped = False, rs_connection = PNone, rs_version = None, rs_persisted = False\<rparr>"

definition dev_handle :: engine_handle where
  "dev_handle = sample_handle\<lparr>eh_connection := Some ''dev-c''\<rparr>"

definition sample_answers :: answers where
  "sample_answers =
     \<lparr>an_spec = Inl ''none'', an_binding = Inr True, an_resolve = Inr raw_adapter, an_store = Inl ''none'',
      an_validate = Inl ''none'', an_provision = Inl ''none'', an_start = (None, PNone), an_status = Inl RunGone,
      an_abort = (None, PDict (handle_json dev_handle)), an_teardown = None, an_collect = Inl ''none'',
      an_written = [], an_cleanup = None, an_summary = Inl ''none'', an_index = None, an_before = [],
      an_link = Delivered, an_between = [], an_link2 = Delivered, an_now = ''now'', an_clock = 9,
      an_overdue = False, an_observed = ''1s''\<rparr>"

definition sample_state :: "pydict \<Rightarrow> pydict" where
  "sample_state fs = [(''phase_results'', PDict [(''execution'', PDict ((''attempt'', PInt 1) # fs))])]"

lemma sample_entry [simp]:
  "exec_entry (sample_state fs) = Inr ((''attempt'', PInt 1) # fs)"
  "exec_attempt ((''attempt'', PInt 1) # fs) = Inr 1"
  "dget ((''attempt'', PInt 1) # fs) ''attempt'' = PInt 1"
  by (simp_all add: exec_entry_def exec_attempt_def checkpoint_int_def sample_state_def dget_def)

lemma node_sample_sel [simp]:
  "es_cred (node_sample sv) = es_cred sv" "es_locked (node_sample sv) = es_locked sv"
  "es_diagnostic (node_sample sv) = es_diagnostic sv" "es_secret_field (node_sample sv) = es_secret_field sv"
  "run_services (node_sample sv) = sv"
  "ns_parse_time (node_sample sv) s = Some (Some (if s = ''v1'' then 1 else 2))"
  by (simp_all add: node_sample_def engine_services.defs node_services.defs run_services_def)

lemma read_known: "seq (pure (Inr x)) f = f x"
  by (rule ext) (simp add: seq_def pure_def ret_def)

lemma sample_seq: "m w = (Inr x, w') \<Longrightarrow> seq m f w = f x w'"
  by (simp add: seq_def)

lemma dev_validated:
  "validated_handle dev_services unsafe (PDict (handle_json dev_handle)) = Inr dev_handle"
  by (simp add: validated_handle_def exact_payload_def HANDLE_FIELDS_def provider_text_def text_between_def
      bounded_mapping_def handle_model_def dev_services_def sample_services_def dev_handle_def sample_handle_def
      handle_json_def handle_fields_def optional_text_def with_default_def dget_def nul_free_def
      optional_between_def scan_def extras_ok_def text_option_def extras_of_def Let_def)

lemma dev_handle_from:
  "handle_from dev_services (sample_state [(''engine_handle'', PDict (handle_json dev_handle))])
     [(''attempt'', PInt 1), (''engine_handle'', PDict (handle_json dev_handle))] = Inr dev_handle"
  by (simp add: handle_from_def sample_state_def dget_def dev_validated Let_def)

definition dev_state :: pydict where
  "dev_state = sample_state [(''engine_handle'', PDict (handle_json dev_handle))]"

definition dev_world :: engine_world where
  "dev_world = \<lparr>ew_calls = [], ew_db = sample_tables, ew_left = 5\<rparr>"

definition dev_args :: run_args where
  "dev_args = handle_args sample_cfg ''t'' 1 dev_handle None None"

lemma dev_input: "projection_input (sample_services\<lparr>es_locked := False\<rparr>) dev_args EAborted = Inr (handle_json dev_handle)"
proof -
  have "projection_handle (sample_services\<lparr>es_locked := False\<rparr>) ''jmeter'' False (handle_json dev_handle) = Inr (handle_json dev_handle)"
    by (simp add: projection_handle_def handle_model_def sample_services_def dev_handle_def sample_handle_def handle_json_def
        optional_text_def text_between_def nul_free_def with_default_def dget_def extras_ok_def optional_between_def
        scan_def Let_def handle_fields_def text_option_def extras_of_def)
  moreover have "ra_engine dev_args = ''jmeter''" "ra_handle dev_args = handle_json dev_handle" "ra_thread dev_args = ''t''"
    "ra_attempt dev_args = 1" "ra_project dev_args = Some ''p''" "ra_app dev_args = Some ''a''" "ra_run dev_args = Some ''r''"
    "ra_namespace dev_args = Some (artifact_namespace ''k'')" "ra_connection dev_args = None" "ra_artifact_connection dev_args = None"
    by (simp_all add: dev_args_def handle_args_def dev_handle_def sample_handle_def sample_cfg_def)
  ultimately show ?thesis
    by (simp add: projection_input_def text_error_def clean_sample clean_namespace sample_services_def)
      (simp add: dev_handle_def handle_json_def sample_handle_def optional_text_def text_option_def dget_def
        safe_key_def text_between_def nul_free_def scan_def)
qed

lemma dev_record:
  "project dev_services [] Delivered (recorded dev_services dev_args EAborted None None 9) w
    = (if ew_left w = 0 then Inl Died else Inr (), w\<lparr>ew_left := ew_left w - 1\<rparr>)"
proof -
  have "dev_services = node_sample (sample_services\<lparr>es_locked := False\<rparr>)" by (rule dev_services_def)
  have "record_run (sample_services\<lparr>es_locked := False\<rparr>) True dev_args EAborted None None 9 db = Inr db" for db
    by (simp add: record_run_def record_checked_def dev_input normal_connections_def Let_def)
      (simp add: dev_args_def handle_args_def dev_id_def dev_handle_def handle_json_def text_option_def optional_text_def
        dget_def sample_services_def)
  then show ?thesis
    by (simp add: project_def recorded_def dev_services_def answered_def committed_def)
qed

lemma dev_resolve:
  "resolve_for_io dev_services sample_answers ((''attempt'', PInt 1) # [(''engine_handle'', h)]) dev_handle None None = ret ()"
  by (simp add: resolve_for_io_def sample_answers_def raw_adapter_def or_else_def dev_handle_def sample_handle_def
      safe_connection_id_def text_between_def nul_free_def strip_def is_space_def scan_def optional_text_def
      dev_services_def sample_services_def checkpoint_flag_def dget_def read_known io_resolution_error_def Let_def)

lemma dev_abort:
  "stop_run dev_services sample_answers ((''attempt'', PInt 1) # [(''engine_handle'', h)]) dev_handle None None dev_world
    = (Inr EAborted, \<lparr>ew_calls = [(PAbort dev_handle, True), (PStatus dev_handle, False), (PTeardown dev_handle, True)],
        ew_db = sample_tables, ew_left = 2\<rparr>)"
proof -
  have same: "pinned dev_handle dev_handle\<lparr>eh_run := eh_run dev_handle\<rparr> = dev_handle"
    by (simp add: pinned_def)
  have "snd (an_abort sample_answers) = PDict (handle_json dev_handle)" "fst (an_abort sample_answers) = None"
    "status_answer sample_answers = Inl ProviderGone" "an_teardown sample_answers = None"
    by (simp_all add: sample_answers_def status_answer_def)
  then show ?thesis
    by (simp add: stop_run_def dev_resolve confirm_abort_def dev_validated read_known same get_status_def on_gone_def
        seq_def ret_def attempt_def call_def unit_call_def dev_world_def Let_def)
qed

lemma dev_stopped:
  "\<exists>w. engine_cleanup dev_services sample_cfg ''t'' sample_answers dev_state dev_world
    = (Inr (cleanup_done dev_services sample_answers
         [(''attempt'', PInt 1), (''engine_handle'', PDict (handle_json dev_handle))] 1
         ''execution cleanup required'' EAborted), w)"
proof -
  have options: "engine_options (es_cred dev_services) [(''attempt'', PInt 1), (''engine_handle'', h)] (ec_engine sample_cfg) = Inr []" for h
    by (simp add: engine_options_def dget_def dev_services_def sample_services_def)
  have affinity: "connection_affinity dev_services [(''attempt'', PInt 1), (''engine_handle'', h)] dev_handle = Inr (None, None)" for h
    by (simp add: connection_affinity_def dget_def is_bool_def dev_services_def sample_services_def)
  have reason: "diagnostic_text dev_services PNone s = s" for s
    by (simp add: diagnostic_text_def)
  have ns: "engine_namespace dev_services ''k'' = Inr (artifact_namespace ''k'')"
    by (simp add: engine_namespace_def safe_key_def text_between_def nul_free_def scan_def dev_services_def sample_services_def)
  have key: "str_of (dget (ra_handle dev_args) ''idempotency_key'') = ''k''"
    by (simp add: dev_args_def handle_args_def dev_handle_def handle_json_def sample_handle_def dget_def)
  have links: "an_between sample_answers = []" "an_link2 sample_answers = Delivered" "an_clock sample_answers = 9"
    by (simp_all add: sample_answers_def)
  have written: "record_second dev_services sample_answers (handle_args sample_cfg ''t'' 1 dev_handle None None) EAborted None None w
    = (if ew_left w = 0 then Inl Died else Inr (), w\<lparr>ew_left := ew_left w - 1\<rparr>)" for w
    by (simp add: record_second_def dev_args_def [symmetric] key ns links read_known dev_record)
  have conn: "ra_connection (handle_args sample_cfg ''t'' 1 dev_handle None None) = None"
    by (simp add: handle_args_def)
  show ?thesis
    unfolding engine_cleanup_def dev_state_def
    by (simp add: read_known dev_handle_from options affinity reason Let_def recover_cleanup_def conn)
      (simp add: seq_def ret_def attempt_def dev_abort written)
qed

subsection \<open>A settled collection\<close>

definition settle_fields :: pydict where
  "settle_fields =
     [(''engine_handle'', PDict (handle_json sample_handle)), (''engine_connection_affinity_staged'', PBool True),
      (''engine_connection_id'', PStr ''c''), (''engine_connection_persisted'', PBool True),
      (''engine_connection_version'', PStr ''v1''), (''engine_collection_staged'', PBool True),
      (''engine_collection_projected_phase'', PStr ''completed''),
      (''engine_collection_next'', PStr ''open_output_gate''),
      (''test_summary'', PDict [(''engine'', PStr ''jmeter''), (''passed'', PNone)]),
      (''artifact_store_connection_id'', PStr ''s''), (''artifact_store_connection_persisted'', PBool True),
      (''artifact_store_connection_version'', PStr ''v2'')]"

definition settle_world :: engine_world where
  "settle_world = \<lparr>ew_calls = [], ew_db = sample_written ECompleted (Some CollectionTeardown), ew_left = 5\<rparr>"

lemma settle_recovered:
  "recovered locked_services sample_args CollectionTeardown {ECompleted} (sample_written ECompleted (Some CollectionTeardown))
    = Inr (Some ECompleted, sample_written ECompleted (Some CollectionTeardown))"
proof -
  have "recover_completion sample_services sample_args CollectionTeardown {ECompleted}
     (run_ops (run_step sample_services) (sample_written ECompleted (Some CollectionTeardown)) []) = Inr (Some ECompleted)"
  proof (rule completion_recovered [OF sample_open_ok _ _ _ sample_open_columns(1) sample_projected(2,3) _ sample_projected(1)])
    show "record_run sample_services True sample_args ECompleted (Some CollectionTeardown) None 9 sample_open
      = Inr (sample_written ECompleted (Some CollectionTeardown))"
      by (rule sample_record) (simp add: terminal_phase_def)
  qed (simp_all add: sample_args_def terminal_phase_def)
  then show ?thesis by (simp add: recovered_def locked_services_def)
qed

lemma settle_handle:
  "handle_from locked_services (sample_state settle_fields) ((''attempt'', PInt 1) # settle_fields) = Inr sample_handle"
proof -
  have "validated_handle locked_services False (PDict (handle_json sample_handle)) = Inr sample_handle"
    by (simp add: validated_handle_def exact_payload_def HANDLE_FIELDS_def provider_text_def text_between_def
        bounded_mapping_def handle_model_def locked_services_def sample_services_def sample_handle_def
        handle_json_def handle_fields_def optional_text_def with_default_def dget_def nul_free_def
        optional_between_def scan_def extras_ok_def text_option_def extras_of_def Let_def)
  then show ?thesis by (simp add: handle_from_def sample_state_def settle_fields_def dget_def Let_def)
qed

lemma settle_reads:
  "engine_options (es_cred locked_services) ((''attempt'', PInt 1) # settle_fields) (ec_engine sample_cfg) = Inr []"
  "checkpoint_flag ((''attempt'', PInt 1) # settle_fields) ''engine_collection_staged'' = Inr True"
  "staged_outcome ((''attempt'', PInt 1) # settle_fields) = Inr (ECompleted, ''open_output_gate'')"
  "dget ((''attempt'', PInt 1) # settle_fields) ''artifact_store_connection_id'' = PStr ''s''"
  "connection_affinity locked_services ((''attempt'', PInt 1) # settle_fields) sample_handle = Inr (Some ''c'', Some 1)"
  "artifact_affinity locked_services ((''attempt'', PInt 1) # settle_fields) (PStr ''s'') = Inr (Some 2)"
  "safe_connection_id (es_cred locked_services) (PStr ''s'')"
  by (simp_all add: settle_fields_def dget_def engine_options_def locked_services_def sample_services_def
      checkpoint_flag_def staged_outcome_def engine_phase_of_def ENGINE_PHASES_def engine_phase_value_def terminal_phase_def
      connection_affinity_def artifact_affinity_def is_bool_def safe_connection_id_def text_between_def nul_free_def strip_def
      is_space_def scan_def optional_text_def parsed_version_def scanned_text_def sample_handle_def Let_def)

lemma settle_summary:
  "\<exists>m. validated_summary locked_services ''jmeter'' (dget ((''attempt'', PInt 1) # settle_fields) ''test_summary'') = Inr m"
  by (simp add: settle_fields_def dget_def validated_summary_def exact_payload_def provider_text_def text_between_def
      nul_free_def with_default_def bounded_mapping_def text_items_def outcome_of_def locked_services_def
      sample_services_def Let_def)

lemma settle_args:
  "handle_args sample_cfg ''t'' 1 sample_handle (Some ''c'') (Some 1)
     \<lparr>ra_artifact_connection := Some ''s'', ra_artifact_version := Some 2\<rparr> = sample_args"
  by (simp add: handle_args_def sample_args_def sample_cfg_def sample_handle_def)

lemma settle_done:
  "engine_collection_settle locked_services sample_cfg ''t'' sample_answers (sample_state settle_fields) settle_world
    = (Inr (settled sample_answers 1 ''open_output_gate''), settle_world\<lparr>ew_left := 4\<rparr>)"
proof -
  obtain m where m: "validated_summary locked_services ''jmeter'' (dget ((''attempt'', PInt 1) # settle_fields) ''test_summary'') = Inr m"
    using settle_summary by blast
  have jm: "eh_engine sample_handle = ''jmeter''" by (simp add: sample_handle_def)
  have known: "recover_settled locked_services sample_answers
      (handle_args sample_cfg ''t'' 1 sample_handle (Some ''c'') (Some 1)
       \<lparr>ra_artifact_connection := Some ''s'', ra_artifact_version := Some 2\<rparr>) True ECompleted settle_world
    = (Inr True, settle_world\<lparr>ew_left := 4\<rparr>)"
  proof -
    have "engine_namespace locked_services (str_of (dget (ra_handle sample_args) ''idempotency_key'')) = Inr (artifact_namespace ''k'')"
      by (simp add: engine_namespace_def safe_key_def text_between_def nul_free_def scan_def locked_services_def
          sample_services_def sample_args_def handle_json_def sample_handle_def dget_def)
    moreover have "an_before sample_answers = []" "an_link sample_answers = Delivered" by (simp_all add: sample_answers_def)
    ultimately show ?thesis
      unfolding settle_args
      by (simp add: recover_settled_def read_known)
        (simp add: seq_def project_def settle_world_def settle_recovered answered_def committed_def ret_def)
  qed
  show ?thesis
    unfolding engine_collection_settle_def
    by (simp add: read_known settle_handle settle_reads m jm Let_def text_option_def)
      (simp add: seq_def known ret_def)
qed

lemma sample_written_ok: "runs_ok (sample_written ERunning None)"
proof -
  have "run_step sample_services sample_open (Record True sample_args ERunning None None 9) = Inr (sample_written ERunning None)"
    using sample_record [of None ERunning] by (simp add: run_step_def)
  from run_step_keeps [OF sample_open_ok this] show ?thesis by blast
qed

lemma sample_written_row: "\<exists>r. find_run (sample_written ERunning None) (''t'', 1) = Some r \<and> er_status r = ERunning"
proof -
  have "\<not> stale_write (reservation_row (handle_json sample_handle) sample_args)
     (values_of (handle_json sample_handle) sample_args ERunning True None None 9)"
    by (simp add: stale_write_def reservation_row_def values_of_def terminal_phase_def)
  then show ?thesis by (auto simp: sample_written_def fresh_row)
qed

end
