(* ===== verification/Engine_Safety.thy ===== *)
theory Engine_Safety
  imports Engine_Sample
begin

text \<open>
  Invariants of the engine nodes over any number of executions, by any workers, each of which may
  die between two of its effects: what a node may call, and what it leaves in the table of engine
  runs.
\<close>

subsection \<open>Executions\<close>

record execution =
  ex_cfg :: engine_cfg
  ex_answers :: answers
  ex_resumed :: bool
  ex_name :: string
  ex_state :: pydict
  ex_left :: nat

definition run_node ::
  "node_services \<Rightarrow> (pydict \<Rightarrow> bool) \<Rightarrow> string \<Rightarrow> execution \<Rightarrow> engine_world \<Rightarrow> (engine_exn + node_result) \<times> engine_world" where
  "run_node sv spec_model thread x w =
     spine_node sv spec_model (ex_cfg x) thread (ex_answers x) (ex_resumed x) (ex_name x) (ex_state x)
       (w\<lparr>ew_left := ex_left x\<rparr>)"

text \<open>Executions one after the other; what other workers write in between is in their answers.\<close>

fun run_nodes ::
  "node_services \<Rightarrow> (pydict \<Rightarrow> bool) \<Rightarrow> string \<Rightarrow> execution list \<Rightarrow> engine_world \<Rightarrow> engine_world" where
  "run_nodes sv spec_model thread [] w = w"
| "run_nodes sv spec_model thread (x # xs) w =
     run_nodes sv spec_model thread xs (snd (run_node sv spec_model thread x w))"

definition attempt_number :: "pydict \<Rightarrow> int res" where
  "attempt_number state = rbind (exec_entry state) exec_attempt"

subsection \<open>Programs that keep an invariant\<close>

definition keeps :: "(engine_world \<Rightarrow> bool) \<Rightarrow> 'a prog \<Rightarrow> bool" where
  "keeps I m \<longleftrightarrow> (\<forall>w. I w \<longrightarrow> wp m (\<lambda>_. I) (\<lambda>_. I) w)"

lemma keepsD: "keeps I m \<Longrightarrow> I w \<Longrightarrow> I (snd (m w))"
  by (cases "m w"; cases "fst (m w)") (force simp: keeps_def wp_def)+

lemma keeps_ret: "keeps I (ret x)"
  by (simp add: keeps_def wp_ret)

lemma keeps_raise: "keeps I (raise e)"
  by (simp add: keeps_def wp_raise)

lemma keeps_pure: "keeps I (pure r)"
  by (simp add: keeps_def wp_pure split: sum.split)

lemma keeps_seq: "keeps I m \<Longrightarrow> (\<And>x. keeps I (f x)) \<Longrightarrow> keeps I (seq m f)"
  unfolding keeps_def wp_seq by (blast intro: wp_conseq)

lemma keeps_attempt: "keeps I m \<Longrightarrow> (\<And>e. keeps I (h e)) \<Longrightarrow> keeps I (attempt m h)"
  unfolding keeps_def wp_attempt by (auto intro: wp_conseq)

lemma keeps_cond: "keeps I m \<Longrightarrow> keeps I n \<Longrightarrow> keeps I (if b then m else n)"
  by simp

lemma keeps_prod: "(\<And>x y. keeps I (f x y)) \<Longrightarrow> keeps I (case p of (x, y) \<Rightarrow> f x y)"
  by (cases p) simp

lemma keeps_sum: "(\<And>x. keeps I (f x)) \<Longrightarrow> (\<And>y. keeps I (g y)) \<Longrightarrow> keeps I (case s of Inl x \<Rightarrow> f x | Inr y \<Rightarrow> g y)"
  by (cases s) simp_all

lemma keeps_option: "keeps I m \<Longrightarrow> (\<And>y. keeps I (g y)) \<Longrightarrow> keeps I (case s of None \<Rightarrow> m | Some y \<Rightarrow> g y)"
  by (cases s) simp_all

lemma keeps_outcome:
  "(\<And>xs. keeps I (f xs)) \<Longrightarrow> (\<And>h b. keeps I (g h b)) \<Longrightarrow> (\<And>m. keeps I (k m)) \<Longrightarrow>
   keeps I (case x of Refused xs \<Rightarrow> f xs | Provisioned h b \<Rightarrow> g h b | Ambiguous m \<Rightarrow> k m)"
  by (cases x) simp_all

lemma keeps_exn:
  "(\<And>m. keeps I (f m)) \<Longrightarrow> (\<And>m. keeps I (g m)) \<Longrightarrow> (\<And>m. keeps I (k m)) \<Longrightarrow> keeps I a \<Longrightarrow> keeps I b \<Longrightarrow>
   keeps I (case e of Plain m \<Rightarrow> f m | RejectedWrite m \<Rightarrow> g m | Definitive m \<Rightarrow> k m | ProviderGone \<Rightarrow> a | Died \<Rightarrow> b)"
  by (cases e) simp_all

lemma keeps_known: "r = Inr x \<Longrightarrow> keeps I (f x) \<Longrightarrow> keeps I (seq (pure r) f)"
  by (simp add: keeps_def wp_seq wp_pure)

lemma keeps_read: "(\<And>x. r = Inr x \<Longrightarrow> keeps I (f x)) \<Longrightarrow> keeps I (seq (pure r) f)"
  by (simp add: keeps_def wp_seq wp_pure split: sum.split)

lemma keeps_read_pair: "(\<And>x y. r = Inr (x, y) \<Longrightarrow> keeps I (f x y)) \<Longrightarrow> keeps I (seq (pure r) (\<lambda>(x, y). f x y))"
  by (rule keeps_read) auto

lemma keeps_some:
  "keeps I m \<Longrightarrow> (\<And>y. s = Some y \<Longrightarrow> keeps I (g y)) \<Longrightarrow> keeps I (case s of None \<Rightarrow> m | Some y \<Rightarrow> g y)"
  by (cases s) simp_all

lemmas keeps_basic =
  keeps_ret keeps_raise keeps_pure keeps_seq keeps_attempt keeps_cond keeps_prod keeps_sum keeps_option
  keeps_outcome keeps_exn

text \<open>A call that keeps the invariant and answers nothing only when \<open>P\<close> holds.\<close>

definition guards :: "(engine_world \<Rightarrow> bool) \<Rightarrow> bool \<Rightarrow> 'a option prog \<Rightarrow> bool" where
  "guards I P m \<longleftrightarrow> (\<forall>w. I w \<longrightarrow> wp m (\<lambda>got w'. I w' \<and> (got = None \<longrightarrow> P)) (\<lambda>_. I) w)"

lemma keeps_guarded:
  assumes "guards I P m" "P \<Longrightarrow> keeps I n" "\<And>d. keeps I (g d)"
  shows "keeps I (seq m (\<lambda>got. case got of None \<Rightarrow> n | Some d \<Rightarrow> g d))"
proof -
  have "wp (case got of None \<Rightarrow> n | Some d \<Rightarrow> g d) (\<lambda>_. I) (\<lambda>_. I) w" if "I w" "got = None \<longrightarrow> P" for got w
    using assms(2,3) that unfolding keeps_def by (cases got) auto
  with assms(1) show ?thesis
    unfolding guards_def keeps_def wp_seq by (blast intro: wp_conseq)
qed

lemma guards_read: "(\<And>x. guards I P (f x)) \<Longrightarrow> guards I P (seq (pure r) f)"
  by (simp add: guards_def wp_seq wp_pure split: sum.split)

subsection \<open>The interface of an invariant\<close>

text \<open>A call of the projection that is one of the steps, whatever it answers.\<close>

definition step_like :: "node_services \<Rightarrow> (engine_db \<Rightarrow> run_error + 'a \<times> engine_db) \<Rightarrow> bool" where
  "step_like sv f \<longleftrightarrow> (\<forall>db x db'. f db = Inr (x, db') \<longrightarrow>
     db' = db \<or> (\<exists>c. run_step (run_services sv) db c = Inr db'))"

lemma step_like_recorded: "step_like sv (recorded sv a st kind summary now)"
  unfolding step_like_def
  by (auto simp: recorded_def rbind_Inr_iff intro: exI [of _ "Record True a st kind summary now"] simp: run_step_def)

lemma step_like_recovered: "step_like sv (recovered sv a kind expected)"
  by (auto simp: step_like_def recovered_def rbind_Inr_iff)

lemma step_like_start: "step_like sv (prepare_start (run_services sv) a)"
  unfolding step_like_def by (auto intro!: exI [of _ "PrepareStart a"] simp: run_step_def)

lemma step_like_provision: "step_like sv (prepare_provision (run_services sv) a)"
  unfolding step_like_def by (auto intro!: exI [of _ "PrepareProvision a"] simp: run_step_def)

text \<open>
  What an invariant has to promise for the attempt \<open>k\<close>: the projection keeps it, and so does each
  call that a node may make; the calls of a new run are made only behind their barrier.
\<close>

locale spine_invariant =
  fixes sv :: node_services and I :: "engine_world \<Rightarrow> bool" and allowed :: "engine_call \<Rightarrow> bool"
    and k :: "string \<times> int"
  assumes called: "I w \<Longrightarrow> allowed c \<Longrightarrow> I (w\<lparr>ew_calls := ew_calls w @ [(c, b)], ew_left := n\<rparr>)"
    and stepped: "I w \<Longrightarrow> run_step (run_services sv) (ew_db w) s = Inr db \<Longrightarrow> I (w\<lparr>ew_db := db\<rparr>)"
    and tick: "I w \<Longrightarrow> I (w\<lparr>ew_left := n\<rparr>)"
    and start: "I w \<Longrightarrow> run_key args = k \<Longrightarrow> projected (run_services sv) args \<Longrightarrow>
      prepare_start (run_services sv) args (ew_db w) = Inr (None, db) \<Longrightarrow> allowed (PStart h)"
    and provision: "I w \<Longrightarrow> run_key args = k \<Longrightarrow> projected (run_services sv) args \<Longrightarrow>
      prepare_provision (run_services sv) args (ew_db w) = Inr (None, db) \<Longrightarrow> allowed PValidate \<and> allowed PProvision"
    and other: "allowed (PStatus h)" "allowed (PAbort h)" "allowed (PTeardown h)" "allowed (PCollect h)"
      "allowed (PSummary h)"
begin

lemma others_keep:
  assumes "I w"
  shows "I (w\<lparr>ew_db := run_ops (run_step (run_services sv)) (ew_db w) cs\<rparr>)"
  using assms
proof (induction cs arbitrary: w)
  case (Cons c cs)
  then show ?case
    using stepped [OF Cons.prems, of c] Cons.IH [of "w\<lparr>ew_db := db\<rparr>" for db]
    by (auto simp: attempt_op_def split: sum.split)
qed simp

lemma keeps_call: "allowed c \<Longrightarrow> keeps I (call c r)"
  by (auto simp: keeps_def wp_def call_def Let_def called split: sum.split)

lemma wp_step:
  assumes "step_like sv f" "I w"
    and "\<And>x w' db. f (ew_db w') = Inr (x, db) \<Longrightarrow> I w' \<Longrightarrow> Q x"
  shows "wp (project sv cs link f) (\<lambda>x w'. I w' \<and> Q x) (\<lambda>_. I) w"
proof -
  let ?w = "w\<lparr>ew_db := run_ops (run_step (run_services sv)) (ew_db w) cs\<rparr>"
  have w: "I ?w" by (rule others_keep [OF assms(2)])
  have "I (?w\<lparr>ew_db := committed link (ew_db ?w) (f (ew_db ?w)), ew_left := n\<rparr>)" for n
  proof -
    have "I (?w\<lparr>ew_db := committed link (ew_db ?w) (f (ew_db ?w))\<rparr>)"
    proof (cases "f (ew_db ?w)")
      case (Inr p)
      with assms(1) have "snd p = ew_db ?w \<or> (\<exists>s. run_step (run_services sv) (ew_db ?w) s = Inr (snd p))"
        unfolding step_like_def by (metis prod.collapse)
      with w stepped [OF w] Inr show ?thesis
        by (cases p) (auto simp: committed_def)
    qed (use w in \<open>simp add: committed_def\<close>)
    from tick [OF this, of n] show ?thesis by simp
  qed
  moreover have "Q x" if "f (ew_db ?w) = Inr (x, db)" for x db
    using assms(3) that w by blast
  ultimately show ?thesis
    by (auto simp: wp_def project_def Let_def answered_def split: sum.split if_split)
qed

lemma keeps_project: "step_like sv f \<Longrightarrow> keeps I (project sv cs link f)"
  using wp_step [of f _ "\<lambda>_. True"] by (simp add: keeps_def)

lemma keeps_record:
  "keeps I (record_first sv an a st kind summary)" "keeps I (record_second sv an a st kind summary)"
  unfolding record_first_def record_second_def
  by (intro keeps_basic keeps_project step_like_recorded)+

lemma allowed_calls:
  "keeps I (call (PStatus h) r)" "keeps I (call (PAbort h) r')" "keeps I (call (PTeardown h) r')"
  "keeps I (call (PCollect h) r)" "keeps I (call (PSummary h) r)"
  by (intro keeps_call other)+

lemmas keeps_rules =
  keeps_basic allowed_calls keeps_record keeps_project step_like_recorded step_like_recovered

lemma keeps_parts:
  "keeps I (resolve_for_io sv an entry h cid ver)"
  "keeps I (get_status sv an h)"
  "keeps I (compensate_unsafe sv an h)"
  "keeps I (confirm_abort sv an h)"
  unfolding resolve_for_io_def get_status_def compensate_unsafe_def confirm_abort_def on_gone_def Let_def
  by (intro keeps_rules)+

lemma keeps_watch:
  "keeps I (engine_status_node sv cfg an state)"
  "keeps I (engine_poll sv cfg an state)"
  "keeps I (engine_cleanup sv cfg thread an state)"
  unfolding engine_status_node_def engine_poll_def engine_cleanup_def read_status_def recover_cleanup_def
    stop_run_def Let_def
  by (intro keeps_rules keeps_parts)+

lemma keeps_retry:
  "keeps I (retry_collection sv entry a m fs)" "keeps I (retry_index sv entry a m)"
  "keeps I (settle_failed sv entry a m)" "keeps I (retry_provision sv entry a m fs)"
  unfolding retry_collection_def retry_index_def settle_failed_def retry_provision_def Let_def
  by (intro keeps_rules)+

lemma keeps_collection:
  "keeps I (engine_collect sv cfg thread an state)"
  "keeps I (engine_collection_index sv an state)"
  "keeps I (engine_collection_settle sv cfg thread an state)"
  unfolding engine_collect_def engine_collection_index_def engine_collection_settle_def
    collect_run_def reserve_store_def recover_settled_def Let_def
  by (intro keeps_rules keeps_retry keeps_parts)+

lemma keeps_blocked:
  "keeps I (engine_reserve sv cfg an state)"
  "keeps I (engine_provision_blocked sv thread resumed state)"
  "keeps I (engine_provision_resume state)"
  "keeps I (engine_cleanup_blocked sv thread resumed state)"
  "keeps I (engine_collection_settle_blocked sv thread resumed state)"
  "keeps I (engine_collection_settle_resume state)"
  "keeps I (engine_collection_blocked sv thread resumed state)"
  "keeps I (engine_collection_resume state)"
  unfolding engine_reserve_def engine_provision_blocked_def engine_provision_resume_def engine_cleanup_blocked_def
    engine_collection_settle_blocked_def engine_collection_settle_resume_def engine_collection_blocked_def
    engine_collection_resume_def
  by (intro keeps_rules)+

lemma guards_project:
  assumes "step_like sv f" "\<And>w db. I w \<Longrightarrow> f (ew_db w) = Inr (None, db) \<Longrightarrow> P"
  shows "guards I P (project sv cs link f)"
  unfolding guards_def using assms by (auto intro!: wp_step)

lemma keeps_start:
  assumes "durable_engine sv state" "exec_entry state = Inr entry" "exec_attempt entry = Inr (snd k)"
    and "fst k = thread"
  shows "keeps I (engine_start sv cfg thread an state)"
proof -
  have run: "keeps I (start_run sv cfg an e h cid ver)" if "\<And>h. allowed (PStart h)" for e h cid ver
    using that unfolding start_run_def start_call_def Let_def
    by (intro keeps_rules keeps_parts keeps_call)
  have key: "run_key (handle_args cfg thread (snd k) h cid ver) = k" for h cid ver
    using assms(4) by auto
  have barrier: "guards I (\<forall>h. allowed (PStart h)) (project sv cs link
      (prepare_start (run_services sv) (handle_args cfg thread (snd k) h cid ver)))"
    if "handle_from sv state entry = Inr h" "connection_affinity sv entry h = Inr (cid, ver)" for cs link h cid ver
    by (rule guards_project [OF step_like_start])
      (use start [OF _ key projected_handle_args [OF assms(1,2) that]] in blast)
  show ?thesis
    unfolding engine_start_def
    by (rule keeps_known [OF assms(2)], rule keeps_known [OF assms(3)], rule keeps_read, rule keeps_read,
        rule keeps_read_pair, rule keeps_guarded [OF barrier], assumption, assumption)
      (intro keeps_rules run; simp)+
qed

lemma keeps_provision:
  assumes "durable_engine sv state" "exec_entry state = Inr entry" "exec_attempt entry = Inr (snd k)"
    and "fst k = thread"
  shows "keeps I (engine_provision sv spec_model cfg thread an state)"
proof -
  have run: "keeps I (provision_run sv cfg an cid key)" if "allowed PValidate \<and> allowed PProvision" for cid key
    using that unfolding provision_run_def Let_def
    by (intro keeps_rules keeps_parts keeps_call) simp_all
  have key: "run_key (handle_args cfg thread (snd k) h cid ver) = k" for h cid ver
    using assms(4) by auto
  have barrier: "guards I (allowed PValidate \<and> allowed PProvision)
      (reserve_provision sv cfg thread an (snd k) cid key ver)"
    if "text_option (dget entry ''engine_connection_id'') = Some cid" for cid key ver
    unfolding reserve_provision_def
    by (intro guards_read guards_project [OF step_like_provision])
      (use provision [OF _ key projected_first_handle [OF assms(1,2) that]] in blast)
  have once: "keeps I (provision_attempt sv cfg thread an (snd k) cid key version persisted)"
    if "text_option (dget entry ''engine_connection_id'') = Some cid" for cid key version persisted
    unfolding provision_attempt_def
    by (intro keeps_guarded [OF barrier [OF that]] keeps_rules run)
  show ?thesis
    unfolding engine_provision_def Let_def stage_affinity_def provision_caught_def provision_failed_def record_ready_def
    by (rule keeps_known [OF assms(2)], rule keeps_known [OF assms(3)])
      (intro keeps_some keeps_rules keeps_retry once)
qed

lemma keeps_node:
  assumes "durable_engine sv state" "exec_entry state = Inr entry" "exec_attempt entry = Inr (snd k)"
    and "fst k = thread"
  shows "keeps I (spine_node sv spec_model cfg thread an resumed name state)"
  unfolding spine_node_def
  by (intro keeps_cond keeps_raise keeps_blocked keeps_collection keeps_watch keeps_start [OF assms]
      keeps_provision [OF assms])

lemma keeps_nodes:
  assumes "\<And>x. x \<in> set xs \<Longrightarrow> attempt_number (ex_state x) = Inr (snd k) \<and> durable_engine sv (ex_state x)"
    and "fst k = thread" "I w"
  shows "I (run_nodes sv spec_model thread xs w)"
  using assms(1,3)
proof (induction xs arbitrary: w)
  case (Cons x xs)
  from Cons.prems(1) [of x] obtain entry where "durable_engine sv (ex_state x)"
    "exec_entry (ex_state x) = Inr entry" "exec_attempt entry = Inr (snd k)"
    by (auto simp: attempt_number_def rbind_Inr_iff)
  from keepsD [OF keeps_node [OF this assms(2)] tick [OF Cons.prems(2)]]
  have "I (snd (run_node sv spec_model thread x w))" by (simp add: run_node_def)
  with Cons show ?case by simp
qed simp

end

subsection \<open>A started attempt\<close>

text \<open>The calls that the status of an attempt authorises.\<close>

definition authorised :: "engine_phase \<Rightarrow> engine_call \<Rightarrow> bool" where
  "authorised st c =
     (case c of PStart _ \<Rightarrow> st \<in> {EProvisioning, EReady} | PValidate \<Rightarrow> st = EProvisioning
      | PProvision \<Rightarrow> st = EProvisioning | _ \<Rightarrow> True)"

definition authorised_since ::
  "node_services \<Rightarrow> engine_world \<Rightarrow> string \<times> int \<Rightarrow> engine_phase \<Rightarrow> engine_world \<Rightarrow> bool" where
  "authorised_since sv w0 k st w \<longleftrightarrow>
     runs_ok (ew_db w) \<and> runs_le (ew_db w0) (ew_db w)
     \<and> (\<exists>r. find_run (ew_db w0) k = Some r \<and> er_status r = st)
     \<and> (\<exists>new. ew_calls w = ew_calls w0 @ new \<and> list_all (\<lambda>(c, b). authorised st c) new)"

lemma phase_order_startable: "phase_order p \<le> Suc 0 \<Longrightarrow> p = EProvisioning \<or> p = EReady"
  by (cases p) simp_all

interpretation authorised: spine_invariant sv "authorised_since sv w0 k st" "authorised st" k for sv w0 k st
proof unfold_locales
  fix w s db
  assume w: "authorised_since sv w0 k st w" and step: "run_step (run_services sv) (ew_db w) s = Inr db"
  from w run_step_keeps [OF _ step] show "authorised_since sv w0 k st (w\<lparr>ew_db := db\<rparr>)"
    by (auto simp: authorised_since_def intro: runs_le_trans)
next
  fix w args db h
  assume "authorised_since sv w0 k st w" "run_key args = k" "projected (run_services sv) args"
    "prepare_start (run_services sv) args (ew_db w) = Inr (None, db)"
  with start_authorised [of "run_services sv" args "ew_db w" db "ew_db w0"]
  show "authorised st (PStart h)"
    by (auto simp: authorised_since_def authorised_def dest: phase_order_startable)
next
  fix w args db
  assume "authorised_since sv w0 k st w" "run_key args = k" "projected (run_services sv) args"
    "prepare_provision (run_services sv) args (ew_db w) = Inr (None, db)"
  with provision_authorised [of "run_services sv" args "ew_db w" db "ew_db w0"]
  show "authorised st PValidate \<and> authorised st PProvision"
    by (auto simp: authorised_since_def authorised_def)
qed (auto simp: authorised_since_def authorised_def)

text \<open>
  C29. However often the nodes of an attempt are executed, in whatever order, by whichever workers,
  wherever an execution dies and whatever the provider, the database and the other workers do: once
  the row of the attempt has left the status ready, no execution starts the engine again, and once
  it has left provisioning, none provisions it again. The deployment is locked, or no checkpoint of
  the attempt names a development connection as that of the engine: an unlocked deployment keeps
  no row for such an engine and answers each barrier with a new authorisation.
\<close>

theorem engine_started_once:
  assumes "runs_ok (ew_db w)" "find_run (ew_db w) (thread, a) = Some r"
    and "\<forall>x \<in> set xs. attempt_number (ex_state x) = Inr a \<and> durable_engine sv (ex_state x)"
  shows "\<exists>new. ew_calls (run_nodes sv spec_model thread xs w) = ew_calls w @ new
    \<and> list_all (\<lambda>(c, b). authorised (er_status r) c) new"
proof -
  have "authorised_since sv w (thread, a) (er_status r) w"
    using assms(1,2) by (simp add: authorised_since_def)
  then have "authorised_since sv w (thread, a) (er_status r) (run_nodes sv spec_model thread xs w)"
    by (intro authorised.keeps_nodes) (simp_all add: assms(3))
  then show ?thesis by (simp add: authorised_since_def)
qed

definition started_world :: engine_world where
  "started_world = \<lparr>ew_calls = [], ew_db = sample_written ERunning None, ew_left = 0\<rparr>"

theorem engine_started_once_witness:
  "\<exists>new. ew_calls (run_nodes locked_services (\<lambda>_. True) ''t''
       [\<lparr>ex_cfg = sample_cfg, ex_answers = sample_answers, ex_resumed = False, ex_name = ''engine_start'',
         ex_state = sample_state settle_fields, ex_left = 9\<rparr>] started_world) = new
     \<and> list_all (\<lambda>(c, b). authorised ERunning c) new"
proof -
  obtain r where r: "find_run (ew_db started_world) (''t'', 1) = Some r" "er_status r = ERunning"
    using sample_written_row by (auto simp: started_world_def)
  have "durable_engine locked_services state" for state
    by (simp add: durable_engine_def locked_services_def sample_services_def)
  moreover have "runs_ok (ew_db started_world)" by (simp add: started_world_def sample_written_ok)
  ultimately show ?thesis
    using engine_started_once [of started_world "''t''" 1 r
        "[\<lparr>ex_cfg = sample_cfg, ex_answers = sample_answers, ex_resumed = False, ex_name = ''engine_start'',
         ex_state = sample_state settle_fields, ex_left = 9\<rparr>]" locked_services "\<lambda>_. True"] r
    by (simp add: attempt_number_def started_world_def del: run_nodes.simps)
qed

subsection \<open>A stopped run\<close>

lemma wp_call:
  assumes "\<And>x (w' :: engine_world). r = Inr x \<Longrightarrow> ew_calls w' = ew_calls w @ [(c, True)] \<Longrightarrow> ew_db w' = ew_db w \<Longrightarrow> Q x w'"
    and "\<And>e (w' :: engine_world). ew_calls w' = ew_calls w @ [(c, False)] \<Longrightarrow> E e w'"
  shows "wp (call c r) Q E w"
  using assms by (auto simp: wp_def call_def Let_def split: sum.split)

text \<open>The handle that a provider returns for a run, pinned to that run.\<close>

definition same_run :: "engine_handle \<Rightarrow> engine_handle \<Rightarrow> bool" where
  "same_run f h \<longleftrightarrow> eh_engine f = eh_engine h \<and> eh_connection f = eh_connection h \<and> eh_run f = eh_run h
     \<and> eh_key f = eh_key h"

text \<open>
  What the answer to the status call says of the run: the provider no longer knows it, or it reports
  one of the three terminal phases.
\<close>

definition run_stopped :: "node_services \<Rightarrow> answers \<Rightarrow> bool \<Rightarrow> bool" where
  "run_stopped sv an told \<longleftrightarrow>
     (case an_status an of
        Inl x \<Rightarrow> x = RunGone \<and> \<not> told
      | Inr v \<Rightarrow> told \<and> (\<exists>s. validated_status sv v = Inr s \<and> st_phase s \<in> {ECompleted, EFailed, EAborted}))"

lemma wp_get_status:
  "wp (get_status sv an f)
     (\<lambda>s w'. ew_calls w' = ew_calls w @ [(PStatus f, True)]
        \<and> (\<exists>v. an_status an = Inr v \<and> validated_status sv v = Inr s))
     (\<lambda>e w'. e = ProviderGone \<longrightarrow> ew_calls w' = ew_calls w @ [(PStatus f, False)] \<and> an_status an = Inl RunGone) w"
  by (auto simp: get_status_def wp_def seq_def pure_def call_def status_answer_def ret_def raise_def Let_def
      split: sum.splits if_splits provider_error.splits)

lemma wp_seq_after:
  assumes "wp m R S w" "\<And>x w'. R x w' \<Longrightarrow> wp (f x) Q E w'" "\<And>e w'. S e w' \<Longrightarrow> E e w'"
  shows "wp (seq m f) Q E w"
  unfolding wp_seq by (rule wp_conseq [OF assms(1)]) (simp_all add: assms(2,3))

lemma wp_call_any:
  assumes "\<And>x (w' :: engine_world). ew_calls w' = ew_calls w @ [(c, True)] \<Longrightarrow> ew_db w' = ew_db w \<Longrightarrow> Q x w'"
  shows "wp (call c r) Q (\<lambda>_ _. True) w"
  by (rule wp_call) (simp_all add: assms)

lemma record_second_calls:
  assumes "\<And>w' :: engine_world. ew_calls w' = ew_calls w \<Longrightarrow> Q () w'"
  shows "wp (record_second sv an args st kind summary) Q (\<lambda>_ _. True) w"
  unfolding record_second_def using assms by (intro wp_read wp_project) auto

text \<open>An answered or gone run: the status was asked exactly once.\<close>

lemma wp_status_or_gone:
  "wp (on_gone (seq (get_status sv an f) (\<lambda>st. ret (Some st))) (ret None))
     (\<lambda>got w'. case got of
          None \<Rightarrow> ew_calls w' = ew_calls w @ [(PStatus f, False)] \<and> an_status an = Inl RunGone
        | Some s \<Rightarrow> ew_calls w' = ew_calls w @ [(PStatus f, True)]
            \<and> (\<exists>v. an_status an = Inr v \<and> validated_status sv v = Inr s)) (\<lambda>_ _. True) w"
  unfolding on_gone_def wp_attempt wp_seq
  by (rule wp_conseq [OF wp_get_status]) (auto simp: wp_ret wp_raise)

definition stopped_calls ::
  "node_services \<Rightarrow> answers \<Rightarrow> engine_handle \<Rightarrow> (engine_call \<times> bool) list \<Rightarrow> bool" where
  "stopped_calls sv an h cs \<longleftrightarrow>
     (\<exists>f b. same_run f h \<and> run_stopped sv an b
        \<and> cs = [(PAbort h, True), (PStatus f, b), (PTeardown f, True)])"

lemma confirm_abort_calls:
  "wp (confirm_abort sv an h)
     (\<lambda>(p, f) w'. same_run f h
        \<and> (\<exists>b. run_stopped sv an b \<and> ew_calls w' = ew_calls w @ [(PAbort h, True), (PStatus f, b)])) (\<lambda>_ _. True) w"
  unfolding confirm_abort_def Let_def
  apply (rule wp_seq_after [where S = "\<lambda>_ _. True"], rule wp_call_any [where Q = "\<lambda>_ w'. ew_calls w' = ew_calls w @ [(PAbort h, True)]"])
    apply assumption
   apply (rule wp_read)
   apply (rule wp_rbind [OF wp_status_or_gone])
   apply (intro wp_case_option wp_cond wp_retI wp_raise_any)
    apply (auto simp: same_run_def pinned_def terminal_phase_def run_stopped_def)
  done

lemma resolve_silent:
  "wp (resolve_for_io sv an entry h cid ver) (\<lambda>_ w'. ew_calls w' = ew_calls w) (\<lambda>_ _. True) w"
  unfolding resolve_for_io_def Let_def by (intro wp_read wp_skip) simp_all

lemma stop_run_calls:
  "wp (stop_run sv an entry h cid ver)
     (\<lambda>p w'. \<exists>cs. ew_calls w' = ew_calls w @ cs \<and> stopped_calls sv an h cs) (\<lambda>_ _. True) w"
  unfolding stop_run_def
  apply (rule wp_rbind [OF resolve_silent])
  apply (rule wp_rbind [OF confirm_abort_calls])
  apply (rule wp_case_prod)
  apply (unfold wp_seq wp_ret)
  apply (rule wp_call_any)
  apply (auto simp: stopped_calls_def)
  done

text \<open>
  C31. The cleanup of a run gives up the attempt only when the run is known to have stopped: the
  abort of its handle was accepted; then the provider, asked once for the status of the same run,
  either reported a terminal phase or no longer knew the run; then the teardown of that run was
  acknowledged, and no other call was made; or no call was made, and the row of the attempt already
  held the witness of such a teardown. An abort that was accepted while the run is still reported
  as provisioning, ready, running or collecting does not end the attempt.
\<close>

theorem cleanup_stops_run:
  assumes entry: "exec_entry state = Inr entry" "exec_attempt entry = Inr a" "handle_from sv state entry = Inr h"
    and run: "engine_cleanup sv cfg thread an state w = (Inr (Moved ''finalize'' u), w')"
  shows "(\<exists>cs. ew_calls w' = ew_calls w @ cs \<and> stopped_calls sv an h cs)
    \<or> ew_calls w' = ew_calls w \<and> torn_down thread a CleanupTeardown w'"
proof -
  let ?P = "\<lambda>w'. (\<exists>cs. ew_calls w' = ew_calls w @ cs \<and> stopped_calls sv an h cs)
    \<or> ew_calls w' = ew_calls w \<and> torn_down thread a CleanupTeardown w'"
  have stopped: "wp (attempt (case was of Some p \<Rightarrow> ret (Inr p)
                   | None \<Rightarrow> seq (stop_run sv an entry h cid ver) (\<lambda>p. ret (Inr p)))
            (\<lambda>e. ret (Inl (diagnostic sv (error_text e)))))
      (\<lambda>s w'. s \<in> range Inr \<longrightarrow> (if was = None then \<exists>cs. ew_calls w' = ew_calls w @ cs \<and> stopped_calls sv an h cs
         else ew_calls w' = ew_calls w \<and> torn_down thread a CleanupTeardown w')) (\<lambda>_ _. True) v"
    if "ew_calls v = ew_calls w \<and> (was \<noteq> None \<longrightarrow> torn_down thread a CleanupTeardown v)" for was cid ver v
    using that
    by (intro wp_tried wp_case_option wp_rbind [OF stop_run_calls] wp_retI) auto
  have rest: "wp (seq (case was of Some _ \<Rightarrow> ret () | None \<Rightarrow> record_second sv an args p kind None) (\<lambda>_.
         ret (cleanup_done sv an entry a reason p))) (on_final ?P) (\<lambda>_ _. True) v"
    if "if was = None then \<exists>cs. ew_calls v = ew_calls w @ cs \<and> stopped_calls sv an h cs
         else ew_calls v = ew_calls w \<and> torn_down thread a CleanupTeardown v" for was args p kind reason v
    using that unfolding cleanup_done_def Let_def
    by (intro wp_moved_after wp_case_option wp_retI record_second_calls) auto
  have "wp (engine_cleanup sv cfg thread an state) (on_final ?P) (\<lambda>_ _. True) w"
    unfolding engine_cleanup_def Let_def
    apply (rule wp_known [OF entry(1)], rule wp_known [OF entry(2)], rule wp_known [OF entry(3)])
    apply (intro wp_read wp_case_prod)
    apply (rule wp_rbind [OF recover_cleanup_known], simp)
    apply (rule wp_rbind [OF stopped], assumption)
    apply (intro wp_case_sum wp_read wp_retI rest)
      apply (simp_all add: cleanup_failed_def Let_def)
    done
  from wp_run [OF this run] show ?thesis by (simp add: on_final_def)
qed

theorem cleanup_stops_run_witness:
  "let w' = snd (engine_cleanup dev_services sample_cfg ''t'' sample_answers dev_state dev_world)
   in (\<exists>cs. ew_calls w' = cs \<and> stopped_calls dev_services sample_answers dev_handle cs)
     \<or> ew_calls w' = [] \<and> torn_down ''t'' 1 CleanupTeardown w'"
proof -
  obtain u w' where run: "engine_cleanup dev_services sample_cfg ''t'' sample_answers dev_state dev_world
      = (Inr (Moved ''finalize'' u), w')"
    using dev_stopped by (auto simp: cleanup_done_def Let_def)
  have read: "exec_entry dev_state = Inr [(''attempt'', PInt 1), (''engine_handle'', PDict (handle_json dev_handle))]"
    "handle_from dev_services dev_state [(''attempt'', PInt 1), (''engine_handle'', PDict (handle_json dev_handle))] = Inr dev_handle"
    by (simp_all add: dev_state_def dev_handle_from)
  have "ew_calls dev_world = []" by (simp add: dev_world_def)
  with cleanup_stops_run [OF read(1) _ read(2) run, of 1] show ?thesis by (simp add: run Let_def)
qed

text \<open>
  A collected run is settled only when its teardown was acknowledged, or when the row of the
  attempt already holds the witness of that teardown; no other call is made of the provider.
\<close>

lemma settle_tears_down:
  assumes entry: "exec_entry state = Inr entry" "exec_attempt entry = Inr a" "handle_from sv state entry = Inr h"
    and run: "engine_collection_settle sv cfg thread an state w = (Inr (Moved g u), w')" "final_node g"
  shows "ew_calls w' = ew_calls w @ [(PTeardown h, True)]
    \<or> ew_calls w' = ew_calls w \<and> torn_down thread a CollectionTeardown w'"
proof -
  let ?P = "\<lambda>w'. ew_calls w' = ew_calls w @ [(PTeardown h, True)]
    \<or> ew_calls w' = ew_calls w \<and> torn_down thread a CollectionTeardown w'"
  have torn: "wp (seq (resolve_for_io sv an entry h cid ver) (\<lambda>_.
        seq (call (PTeardown h) (unit_call (an_teardown an))) (\<lambda>_. ret None)))
      (\<lambda>_ w'. ew_calls w' = ew_calls v @ [(PTeardown h, True)]) (\<lambda>_ _. True) v" for cid ver v
    apply (rule wp_rbind [OF resolve_silent])
    apply (unfold wp_seq wp_ret)
    apply (rule wp_call_any, simp)
    done
  have stopped: "wp (if was then ret None
          else attempt (seq (resolve_for_io sv an entry h cid ver) (\<lambda>_.
                        seq (call (PTeardown h) (unit_call (an_teardown an))) (\<lambda>_. ret None)))
                 (\<lambda>e. ret (Some (diagnostic sv (error_text e)))))
      (\<lambda>err w'. err = None \<longrightarrow> (if was then ew_calls w' = ew_calls w \<and> torn_down thread a CollectionTeardown w'
           else ew_calls w' = ew_calls w @ [(PTeardown h, True)])) (\<lambda>_ _. True) v"
    if "ew_calls v = ew_calls w \<and> (was \<longrightarrow> torn_down thread a CollectionTeardown v)" for was cid ver v
    using that by (intro wp_cond wp_retI wp_tried wp_conseq [OF torn]) auto
  have rest: "wp (seq (if was then ret () else record_second sv an args p kind s) (\<lambda>_. ret (settled an a n)))
      (on_final ?P) (\<lambda>_ _. True) v"
    if "if was then ew_calls v = ew_calls w \<and> torn_down thread a CollectionTeardown v
        else ew_calls v = ew_calls w @ [(PTeardown h, True)]" for was args p kind s n v
    using that unfolding settled_def
    by (intro wp_moved_after wp_cond wp_retI record_second_calls) auto
  have "wp (engine_collection_settle sv cfg thread an state) (on_final ?P) (\<lambda>_ _. True) w"
    unfolding engine_collection_settle_def Let_def
    apply (rule wp_known [OF entry(1)], rule wp_known [OF entry(2)], rule wp_known [OF entry(3)])
    apply (intro wp_read wp_case_prod wp_cond wp_raise_any)
    apply (rule wp_rbind [OF recover_settled_known], simp)
    apply (rule wp_rbind [OF stopped], assumption)
    apply (intro wp_case_option rest settle_failed_final)
      apply auto
    done
  from wp_run [OF this run(1)] run(2) show ?thesis by (simp add: on_final_def)
qed

text \<open>
  C30. Whatever the provider and the database answer and wherever the process may have died before:
  when an execution of a node after the reservation moves on to the end of the phase or to its
  output gate, the row of the attempt is terminal. The deployment is locked, or the checkpoint names
  no development connection as that of the engine: an unlocked deployment keeps no row for such an
  engine.
\<close>

theorem engine_final_projected:
  assumes "durable_engine sv state" "name \<noteq> ''engine_reserve''"
    and "exec_entry state = Inr entry" "exec_attempt entry = Inr a"
    and "spine_node sv spec_model cfg thread an resumed name state w = (Inr (Moved g u), w')" "final_node g"
  shows "\<exists>r. find_run (ew_db w') (thread, a) = Some r \<and> terminal_phase (er_status r)"
proof -
  have "wp (spine_node sv spec_model cfg thread an resumed name state) (on_final (settled_run thread a)) (\<lambda>_ _. True) w"
    unfolding spine_node_def if_not_P [OF assms(2)]
    by (intro wp_cond wp_raise_any resumed_final engine_status_final engine_poll_final engine_collect_final
        engine_index_final engine_start_final [OF assms(1,3,4)] engine_provision_final [OF assms(1,3,4)]
        engine_cleanup_final [OF assms(1,3,4)] engine_settle_final [OF assms(1,3,4)])
  from wp_run [OF this assms(5)] assms(6) show ?thesis by (simp add: on_final_def settled_run_def)
qed

theorem engine_final_projected_witness:
  "\<exists>r. find_run (ew_db settle_world) (''t'', 1) = Some r \<and> terminal_phase (er_status r)"
proof -
  have "spine_node locked_services (\<lambda>_. True) sample_cfg ''t'' sample_answers False ''engine_collection_settle''
      (sample_state settle_fields) settle_world
    = (Inr (Moved ''open_output_gate'' (case settled sample_answers 1 ''open_output_gate'' of Moved g u \<Rightarrow> u)), settle_world\<lparr>ew_left := 4\<rparr>)"
    by (simp add: spine_node_def settle_done) (simp add: settled_def)
  from engine_final_projected [OF _ _ _ _ this] show ?thesis
    by (simp add: durable_engine_def locked_services_def sample_services_def)
qed

end
