(* ===== verification/Engine_Progress.thy ===== *)
theory Engine_Progress
  imports Engine_Sample
begin

text \<open>
  How the checkpoint of the execution phase moves on: the entry that an update of a node leaves
  behind, the bound of the poll loop, and the node at which a later execution of the phase resumes.
\<close>

subsection \<open>The entry after an update\<close>

lemma exec_entry_found:
  assumes "exec_entry state = Inr entry" "entry \<noteq> []"
  obtains d where "dget state ''phase_results'' = PDict d" "map_of d ''execution'' = Some (PDict entry)"
  using assms
  by (auto simp: exec_entry_def rbind_Inr_iff bad_def dget_def split: pyval.splits option.splits)

lemma merge_execution:
  assumes "merge_phase_results cred (PDict d) (PDict [(''execution'', PDict inc)]) = Inr m"
    and "map_of d ''execution'' = Some (PDict entry)"
  shows "\<exists>b e. bounded_phase_entry cred inc = Inr b \<and> merge_phase_entry cred entry b = Inr e
    \<and> map_of m ''execution'' = Some (PDict e)"
proof -
  from assms(1) obtain safe where safe: "validated_source cred [(''execution'', PDict inc)] = Inr safe"
    by (auto simp: merge_phase_results_def opt_dict_def bad_def rbind_Inr_iff split: if_splits)
  then obtain b where b: "bounded_phase_entry cred inc = Inr b" "safe = [(''execution'', PDict b)]"
    by (auto simp: validated_source_def validated_item_def res_simps bad_def split: if_splits)
  from assms(2) have "d \<noteq> []" by auto
  with assms(1) safe b(2) have "rbind (rmap (merge_inherited cred safe) d)
      (\<lambda>merged. Inr (merged @ filter (\<lambda>(phase, _). phase \<notin> fst ` set merged) safe)) = Inr m"
    by (simp add: merge_phase_results_def opt_dict_def bad_def del: filter.simps split: if_splits)
  then obtain merged rest where merged: "rmap (merge_inherited cred safe) d = Inr merged" "m = merged @ rest"
    by (auto simp: rbind_Inr_iff simp del: filter.simps)
  have "list_all2 (\<lambda>x y. fst y = fst x \<and> (fst x = ''execution'' \<longrightarrow>
      (\<forall>cur. snd x = PDict cur \<longrightarrow> (\<exists>e. merge_phase_entry cred cur b = Inr e \<and> snd y = PDict e)))) d merged"
    using merged(1) b(2)
    by (auto simp: res_simps merge_inherited_def bad_def elim!: list_all2_mono split: pyval.splits if_splits option.splits)
  from list_all2_map_of [OF this assms(2)] b merged(2) show ?thesis
    by (auto simp: map_add_def split: option.splits)
qed

lemma merged_entry:
  assumes "apply_update cred state u = Inr state'" "exec_entry state = Inr entry"
    and "eu_entry u \<noteq> []" "wf_dict (eu_entry u)"
    and "dget entry ''attempt'' = PInt a" "dget (eu_entry u) ''attempt'' = PInt a"
  shows "\<exists>e. exec_entry state' = Inr e \<and> (\<forall>k. scalar_key k \<longrightarrow>
    dget e k = (case map_of (eu_entry u) k of Some v \<Rightarrow> v | None \<Rightarrow> dget entry k))"
proof -
  from assms(5) have "entry \<noteq> []" by (auto simp: dget_def)
  with assms(2) obtain d where d: "dget state ''phase_results'' = PDict d" "map_of d ''execution'' = Some (PDict entry)"
    by (rule exec_entry_found)
  from assms(1,3) d(1) obtain m where m: "merge_phase_results cred (PDict d) (PDict [(''execution'', PDict (eu_entry u))]) = Inr m"
    and results: "dget state' ''phase_results'' = PDict m"
    by (auto simp: apply_update_def rbind_Inr_iff split: if_splits option.splits)
  from merge_execution [OF m d(2)] obtain b e where b: "bounded_phase_entry cred (eu_entry u) = Inr b"
    and e: "merge_phase_entry cred entry b = Inr e" "map_of m ''execution'' = Some (PDict e)" by blast
  have other: "map_of b k = map_of (eu_entry u) k" if "scalar_key k" for k
    using bounded_phase_entry_other(1) [OF b that] .
  have wf: "wf_dict b" using bounded_phase_entry_other(2) [OF b scalar_keys(1) assms(4)] .
  have same: "dget b ''attempt'' = dget entry ''attempt''"
    using dget_cong [OF other [OF scalar_keys(1)]] assms(5,6) by simp
  have "map_of e k = (map_of entry ++ map_of b) k" if "scalar_key k" for k
    using e(1) by (cases rule: merge_phase_entry_cases) (use same same_attempt_other(1) [OF _ _ that wf] in auto)
  with other have "dget e k = (case map_of (eu_entry u) k of Some v \<Rightarrow> v | None \<Rightarrow> dget entry k)" if "scalar_key k" for k
    using that by (auto simp: dget_def map_add_def split: option.splits)
  moreover have "exec_entry state' = Inr e"
    using results e(2) by (simp add: exec_entry_def rbind_Inr_iff dget_def)
  ultimately show ?thesis by blast
qed

lemma merged_update:
  assumes "apply_update cred state (exec_update a fs) = Inr state'" "exec_entry state = Inr entry"
    and "dget entry ''attempt'' = PInt a" "distinct (map fst fs)" "''attempt'' \<notin> fst ` set fs"
  shows "\<exists>e. exec_entry state' = Inr e \<and> dget e ''attempt'' = PInt a \<and> (\<forall>k. k \<noteq> ''attempt'' \<and> scalar_key k \<longrightarrow>
    dget e k = (case map_of fs k of Some v \<Rightarrow> v | None \<Rightarrow> dget entry k))"
proof -
  have "eu_entry (exec_update a fs) \<noteq> []" "dget (eu_entry (exec_update a fs)) ''attempt'' = PInt a"
    and "wf_dict (eu_entry (exec_update a fs))"
    using assms(4,5) by (simp_all add: exec_update_def dget_def wf_dict_def image_iff)
  from merged_entry [OF assms(1,2) this(1,3) assms(3) this(2)] obtain e where e: "exec_entry state' = Inr e"
    "\<And>k. scalar_key k \<Longrightarrow> dget e k = (case map_of (eu_entry (exec_update a fs)) k of Some v \<Rightarrow> v | None \<Rightarrow> dget entry k)"
    by blast
  have "dget e ''attempt'' = PInt a" using e(2) [of "''attempt''"] by (simp add: exec_update_def)
  with e show ?thesis by (auto simp: exec_update_def)
qed

subsection \<open>The poll loop\<close>

text \<open>
  Executions of \<open>engine_poll\<close>, one per answer, as long as its command names the node itself.
\<close>

datatype poll_end = StillPolling | LeftPoll string engine_update | PollRaised engine_exn

fun poll_loop :: "node_services \<Rightarrow> engine_cfg \<Rightarrow> answers list \<Rightarrow> pydict \<Rightarrow> engine_world \<Rightarrow> poll_end" where
  "poll_loop sv cfg [] state w = StillPolling"
| "poll_loop sv cfg (an # ans) state w =
     (case engine_poll sv cfg an state w of
        (Inl e, w') \<Rightarrow> PollRaised e
      | (Inr (Paused v), w') \<Rightarrow> StillPolling
      | (Inr (Moved g u), w') \<Rightarrow>
          if g = ''engine_poll''
          then (case apply_update (es_cred sv) state u of
                  Inl x \<Rightarrow> PollRaised (Plain (exn_text x))
                | Inr state' \<Rightarrow> poll_loop sv cfg ans state' w')
          else LeftPoll g u)"

definition poll_number :: "pydict \<Rightarrow> string \<Rightarrow> int" where
  "poll_number entry k = (case dget entry k of PInt n \<Rightarrow> max 0 n | _ \<Rightarrow> 0)"

definition poll_measure :: "engine_cfg \<Rightarrow> pydict \<Rightarrow> nat" where
  "poll_measure cfg entry =
     3 * nat (ec_cycles cfg - poll_number entry ''engine_poll_count'')
     + nat (max 1 (3 - poll_number entry ''engine_poll_errors''))"

lemma poll_measure_le: "poll_measure cfg entry \<le> 3 * nat (ec_cycles cfg) + 3"
proof -
  have "0 \<le> poll_number entry k" for k
    by (simp add: poll_number_def split: pyval.split)
  from this [of "''engine_poll_count''"] this [of "''engine_poll_errors''"] show ?thesis
    unfolding poll_measure_def by linarith
qed

lemma checkpoint_int_number:
  "checkpoint_int label 0 0 hi (dget entry k) = Inr n \<Longrightarrow> poll_number entry k = n \<and> 0 \<le> n"
  by (auto simp: checkpoint_int_def poll_number_def bad_def split: pyval.splits if_splits)

lemma engine_poll_result:
  assumes "exec_entry state = Inr entry" "exec_attempt entry = Inr a"
  shows "wp (engine_poll sv cfg an state)
     (\<lambda>r _. (\<exists>n m. poll_number entry ''engine_poll_errors'' = n \<and> 0 \<le> n \<and> r = poll_failed sv a (n + 1) m)
        \<or> (\<exists>n h st. poll_number entry ''engine_poll_count'' = n \<and> 0 \<le> n \<and> r = polled sv cfg an a h (n + 1) st))
     (\<lambda>_ _. True) w"
  unfolding engine_poll_def counter_def
  apply (rule wp_known [OF assms(1)], rule wp_known [OF assms(2)])
  apply (intro wp_read wp_case_prod wp_seq_any wp_case_sum wp_retI)
   apply (auto dest: checkpoint_int_number)
  done

lemma poll_fields [simp]:
  "scalar_key ''engine_poll_count''" "scalar_key ''engine_poll_errors''"
  by (simp_all add: scalar_key_def BY_ID_FIELDS_def PLAIN_LIST_FIELDS_def)

lemma engine_poll_cases:
  assumes "exec_entry state = Inr entry" "dget entry ''attempt'' = PInt a"
    and "engine_poll sv cfg an state w = (Inr r, w')"
  shows "(\<exists>n m. poll_number entry ''engine_poll_errors'' = n \<and> 0 \<le> n \<and> r = poll_failed sv a (n + 1) m)
    \<or> (\<exists>n h st. poll_number entry ''engine_poll_count'' = n \<and> 0 \<le> n \<and> r = polled sv cfg an a h (n + 1) st)"
proof -
  from assms(1,3) obtain a' where a': "exec_attempt entry = Inr a'"
    by (auto simp: engine_poll_def seq_def pure_def ret_def raise_def split: sum.splits prod.splits)
  with assms(2) have "a' = a" by (auto simp: exec_attempt_def checkpoint_int_def bad_def split: if_splits)
  with wp_run [OF engine_poll_result [OF assms(1) a'] assms(3)] show ?thesis by simp
qed

text \<open>An execution that stays in the loop uses up some of the measure.\<close>

lemma poll_progress:
  assumes "exec_entry state = Inr entry" "dget entry ''attempt'' = PInt a"
    and "engine_poll sv cfg an state w = (Inr (Moved ''engine_poll'' u), w')"
    and "apply_update (es_cred sv) state u = Inr state'"
  shows "\<exists>e. exec_entry state' = Inr e \<and> dget e ''attempt'' = PInt a \<and> poll_measure cfg e < poll_measure cfg entry"
proof -
  consider (failed) n m where "poll_number entry ''engine_poll_errors'' = n" "0 \<le> n" "n + 1 < 3"
      "u = exec_update a [count ''engine_poll_errors'' (n + 1), put_text ''engine_poll_error_last'' m]"
    | (polled) n x where "poll_number entry ''engine_poll_count'' = n" "0 \<le> n" "n + 1 < ec_cycles cfg"
      "u = exec_update a [(''engine_poll_last'', x), count ''engine_poll_count'' (n + 1), count ''engine_poll_errors'' 0]"
    using engine_poll_cases [OF assms(1,2,3)]
    by (auto simp: poll_failed_def polled_def Let_def MAX_CONSECUTIVE_POLL_ERRORS_def split: if_splits)
  then show ?thesis
  proof cases
    case failed
    then obtain e where e: "exec_entry state' = Inr e" "dget e ''attempt'' = PInt a"
      "dget e ''engine_poll_errors'' = PInt (n + 1)" "dget e ''engine_poll_count'' = dget entry ''engine_poll_count''"
      using merged_update [OF assms(4) [unfolded failed(4)] assms(1,2)]
      by (auto simp: count_def put_text_def)
    with failed(1-3) show ?thesis by (auto simp: poll_measure_def poll_number_def)
  next
    case polled
    then obtain e where e: "exec_entry state' = Inr e" "dget e ''attempt'' = PInt a"
      "dget e ''engine_poll_errors'' = PInt 0" "dget e ''engine_poll_count'' = PInt (n + 1)"
      using merged_update [OF assms(4) [unfolded polled(4)] assms(1,2)] by (auto simp: count_def)
    with polled(1-3) show ?thesis by (auto simp: poll_measure_def poll_number_def)
  qed
qed

text \<open>
  C33. The poll loop ends: after three executions per poll cycle of the budget and three more, a node
  other than \<open>engine_poll\<close> has been named or an exception raised, whatever the provider answers and
  however far the counters of the checkpoint have come.
\<close>

theorem poll_budget:
  assumes "exec_entry state = Inr entry" "dget entry ''attempt'' = PInt a"
    and "3 * nat (ec_cycles cfg) + 3 \<le> length ans"
  shows "poll_loop sv cfg ans state w \<noteq> StillPolling"
proof -
  have "poll_measure cfg entry \<le> length ans"
    using poll_measure_le [of cfg entry] assms(3) by linarith
  with assms(1,2) show ?thesis
  proof (induction ans arbitrary: state entry w)
    case Nil
    then show ?case by (simp add: poll_measure_def)
  next
    case (Cons an ans)
    obtain r w' where run: "engine_poll sv cfg an state w = (r, w')" by fastforce
    show ?case
    proof (cases "\<exists>u state'. r = Inr (Moved ''engine_poll'' u) \<and> apply_update (es_cred sv) state u = Inr state'")
      case True
      then obtain u state' where u: "r = Inr (Moved ''engine_poll'' u)" "apply_update (es_cred sv) state u = Inr state'"
        by blast
      from poll_progress [OF Cons.prems(1,2) run [unfolded u(1)] u(2)] Cons.IH [of state' _ w'] Cons.prems(3) run u
      show ?thesis by fastforce
    next
      case False
      moreover have "r \<noteq> Inr (Paused v)" for v
        using engine_poll_cases [OF Cons.prems(1,2)] run
        by (fastforce simp: poll_failed_def polled_def Let_def split: if_splits)
      ultimately show ?thesis using run
        by (auto split: sum.splits node_result.splits)
    qed
  qed
qed

theorem poll_budget_witness:
  "poll_loop dev_services sample_cfg (replicate 12 sample_answers) dev_state dev_world \<noteq> StillPolling"
  by (rule poll_budget [of _ "[(''attempt'', PInt 1), (''engine_handle'', PDict (handle_json dev_handle))]" 1])
    (simp_all add: dev_state_def sample_cfg_def)

subsection \<open>Where a later execution resumes\<close>

text \<open>A command that names the cleanup records that it is required.\<close>

definition cleanup_recorded :: "int \<Rightarrow> node_result \<Rightarrow> engine_world \<Rightarrow> bool" where
  "cleanup_recorded a r w \<longleftrightarrow>
     (case r of
        Moved g u \<Rightarrow> g \<in> {''engine_cleanup'', ''engine_cleanup_blocked''} \<longrightarrow>
          wf_dict (eu_entry u) \<and> dget (eu_entry u) ''attempt'' = PInt a
          \<and> map_of (eu_entry u) ''engine_cleanup_required'' = Some (PBool True)
      | Paused v \<Rightarrow> True)"

lemma cleanup_recorded_simps [simp]:
  "cleanup_recorded a (Paused v) w"
  "g \<notin> {''engine_cleanup'', ''engine_cleanup_blocked''} \<Longrightarrow> cleanup_recorded a (Moved g u) w"
  "distinct (map fst fs) \<Longrightarrow> ''attempt'' \<notin> fst ` set fs \<Longrightarrow>
   map_of fs ''engine_cleanup_required'' = Some (PBool True) \<Longrightarrow> cleanup_recorded a (Moved g (exec_update a fs)) w"
  "cleanup_recorded a (Moved g (with_handle h u)) w = cleanup_recorded a (Moved g u) w"
  by (simp_all add: cleanup_recorded_def exec_update_def with_handle_def wf_dict_def dget_def image_iff)

lemmas recorded_fields =
  running_def failed_def flag_def count_def put_text_def cleared_def handle_field_def

lemma cleanup_recorded_watch:
  assumes "exec_entry state = Inr entry" "exec_attempt entry = Inr a"
  shows "wp (engine_start sv cfg thread an state) (cleanup_recorded a) (\<lambda>_ _. True) w"
    "wp (engine_status_node sv cfg an state) (cleanup_recorded a) (\<lambda>_ _. True) w"
    "wp (engine_poll sv cfg an state) (cleanup_recorded a) (\<lambda>_ _. True) w"
    "wp (engine_cleanup sv cfg thread an state) (cleanup_recorded a) (\<lambda>_ _. True) w"
  unfolding engine_start_def engine_status_node_def engine_poll_def engine_cleanup_def
  by (rule wp_known [OF assms(1)], rule wp_known [OF assms(2)], (intro wp_skip)?,
      (simp_all add: poll_failed_def polled_def cleanup_failed_def cleanup_done_def Let_def recorded_fields)?)+

lemma cleanup_recorded_retry:
  "wp (retry_provision sv entry a m fs) (cleanup_recorded a) (\<lambda>_ _. True) w"
  "wp (stage_affinity sv cfg an entry a cid) (cleanup_recorded a) (\<lambda>_ _. True) w"
  "wp (retry_collection sv entry a m fs) (cleanup_recorded a) (\<lambda>_ _. True) w"
  "wp (reserve_store sv an entry a) (cleanup_recorded a) (\<lambda>_ _. True) w"
  "wp (retry_index sv entry a m) (cleanup_recorded a) (\<lambda>_ _. True) w"
  "wp (settle_failed sv entry a m) (cleanup_recorded a) (\<lambda>_ _. True) w"
  "wp (provision_failed sv cfg thread an a key issues) (cleanup_recorded a) (\<lambda>_ _. True) w"
  unfolding stage_affinity_def reserve_store_def retry_provision_def retry_collection_def retry_index_def
    settle_failed_def provision_failed_def Let_def
  by (intro wp_skip; simp)+

lemma staged_outcome_next: "staged_outcome entry = Inr (p, next) \<Longrightarrow> final_node next"
  by (auto simp: staged_outcome_def Let_def final_node_def split: option.splits if_splits)

lemma cleanup_recorded_others:
  assumes "exec_entry state = Inr entry" "exec_attempt entry = Inr a"
  shows "wp (engine_reserve sv cfg an state) (cleanup_recorded a) (\<lambda>_ _. True) w"
    "wp (engine_provision sv spec_model cfg thread an state) (cleanup_recorded a) (\<lambda>_ _. True) w"
    "wp (engine_collection_index sv an state) (cleanup_recorded a) (\<lambda>_ _. True) w"
    "wp (engine_provision_blocked sv thread resumed state) (cleanup_recorded a) (\<lambda>_ _. True) w"
    "wp (engine_provision_resume state) (cleanup_recorded a) (\<lambda>_ _. True) w"
    "wp (engine_cleanup_blocked sv thread resumed state) (cleanup_recorded a) (\<lambda>_ _. True) w"
    "wp (engine_collection_settle_blocked sv thread resumed state) (cleanup_recorded a) (\<lambda>_ _. True) w"
    "wp (engine_collection_settle_resume state) (cleanup_recorded a) (\<lambda>_ _. True) w"
    "wp (engine_collection_blocked sv thread resumed state) (cleanup_recorded a) (\<lambda>_ _. True) w"
    "wp (engine_collection_resume state) (cleanup_recorded a) (\<lambda>_ _. True) w"
proof -
  note defs = engine_reserve_def engine_provision_blocked_def engine_provision_resume_def engine_cleanup_blocked_def
    engine_collection_settle_blocked_def engine_collection_settle_resume_def engine_collection_blocked_def
    engine_collection_resume_def
  show "wp (engine_provision sv spec_model cfg thread an state) (cleanup_recorded a) (\<lambda>_ _. True) w"
    unfolding engine_provision_def Let_def
    apply (rule wp_known [OF assms(1)], rule wp_known [OF assms(2)])
    apply (intro wp_skip cleanup_recorded_retry)
    apply (auto split: provision_outcome.split intro!: wp_skip cleanup_recorded_retry simp: provision_done_def)
    done
  show "wp (engine_collection_index sv an state) (cleanup_recorded a) (\<lambda>_ _. True) w"
    unfolding engine_collection_index_def
    by (rule wp_known [OF assms(1)], rule wp_known [OF assms(2)], intro wp_skip cleanup_recorded_retry)
      (simp add: indexed_def Let_def cleanup_recorded_def)
  show "wp (engine_reserve sv cfg an state) (cleanup_recorded a) (\<lambda>_ _. True) w"
    "wp (engine_provision_blocked sv thread resumed state) (cleanup_recorded a) (\<lambda>_ _. True) w"
    "wp (engine_provision_resume state) (cleanup_recorded a) (\<lambda>_ _. True) w"
    "wp (engine_collection_settle_blocked sv thread resumed state) (cleanup_recorded a) (\<lambda>_ _. True) w"
    "wp (engine_collection_settle_resume state) (cleanup_recorded a) (\<lambda>_ _. True) w"
    "wp (engine_collection_blocked sv thread resumed state) (cleanup_recorded a) (\<lambda>_ _. True) w"
    "wp (engine_collection_resume state) (cleanup_recorded a) (\<lambda>_ _. True) w"
    unfolding defs
    by (intro wp_skip; simp add: reopened_provision_def reopened_cleanup_def reopened_settle_def reopened_collection_def)+
  show "wp (engine_cleanup_blocked sv thread resumed state) (cleanup_recorded a) (\<lambda>_ _. True) w"
    unfolding engine_cleanup_blocked_def
    by (rule wp_known [OF assms(1)], rule wp_known [OF assms(2)], intro wp_skip)
      (simp_all add: reopened_cleanup_def recorded_fields)
qed

lemma cleanup_recorded_collection:
  assumes "exec_entry state = Inr entry" "exec_attempt entry = Inr a"
  shows "wp (engine_collect sv cfg thread an state) (cleanup_recorded a) (\<lambda>_ _. True) w"
    "wp (engine_collection_settle sv cfg thread an state) (cleanup_recorded a) (\<lambda>_ _. True) w"
proof -
  have batch: "wp (attempt (seq m (\<lambda>(refs, m). ret (staged_batch a store refs m)))
              (\<lambda>e. retry_collection sv entry a (error_text e) [])) (cleanup_recorded a) (\<lambda>_ _. True) w" for m store w
    by (intro wp_tried wp_seq_any wp_case_prod wp_retI cleanup_recorded_retry) (simp add: staged_batch_def)
  show "wp (engine_collect sv cfg thread an state) (cleanup_recorded a) (\<lambda>_ _. True) w"
    unfolding engine_collect_def Let_def
    apply (rule wp_known [OF assms(1)], rule wp_known [OF assms(2)])
    apply (intro wp_skip batch cleanup_recorded_retry)
     apply (simp_all add: invalid_collection_def recorded_fields)
    done
  have moved: "cleanup_recorded a (settled an a g) w" if "final_node g" for g w
    using that by (auto simp: settled_def final_node_def)
  show "wp (engine_collection_settle sv cfg thread an state) (cleanup_recorded a) (\<lambda>_ _. True) w"
    unfolding engine_collection_settle_def Let_def
    apply (rule wp_known [OF assms(1)], rule wp_known [OF assms(2)])
    apply (intro wp_read wp_case_prod wp_cond wp_raise_any wp_seq_any wp_case_option wp_retI cleanup_recorded_retry moved)
    apply (auto dest: staged_outcome_next)
    done
qed

text \<open>
  C32. An unfinished kill is never forgotten: whenever a node sends the attempt to its cleanup, or to
  the node that waits for a decision about it, the checkpoint with the update of this command
  re-enters the phase at the cleanup.
\<close>

theorem unfinished_cleanup_resumed:
  assumes "exec_entry state = Inr entry" "exec_attempt entry = Inr a" "dget entry ''attempt'' = PInt a"
    and "spine_node sv spec_model cfg thread an resumed name state w = (Inr (Moved g u), w')"
    and "g \<in> {''engine_cleanup'', ''engine_cleanup_blocked''}"
    and "apply_update cred state u = Inr state'"
  shows "route_execution_entry state' = Inr ''engine_cleanup''"
proof -
  have "wp (spine_node sv spec_model cfg thread an resumed name state) (cleanup_recorded a) (\<lambda>_ _. True) w"
    unfolding spine_node_def
    by (intro wp_cond wp_raise_any cleanup_recorded_watch cleanup_recorded_others cleanup_recorded_collection)
      (rule assms(1,2))+
  from wp_run [OF this assms(4)] assms(5) have u: "wf_dict (eu_entry u)" "dget (eu_entry u) ''attempt'' = PInt a"
    "map_of (eu_entry u) ''engine_cleanup_required'' = Some (PBool True)"
    by (auto simp: cleanup_recorded_def)
  then have "eu_entry u \<noteq> []" by auto
  from merged_entry [OF assms(6,1) this u(1) assms(3) u(2)] obtain e where e: "exec_entry state' = Inr e"
    "\<forall>k. scalar_key k \<longrightarrow> dget e k = (case map_of (eu_entry u) k of Some v \<Rightarrow> v | None \<Rightarrow> dget entry k)" by blast
  have "scalar_key ''engine_cleanup_required''" by (simp add: scalar_key_def BY_ID_FIELDS_def PLAIN_LIST_FIELDS_def)
  with e(2) u(3) have "dget e ''engine_cleanup_required'' = PBool True" by simp
  with e(1) show ?thesis by (simp add: route_execution_entry_def checkpoint_flag_def)
qed

lemma reopened_applied:
  "\<exists>u s. spine_node dev_services (\<lambda>_. True) sample_cfg ''t'' sample_answers True ''engine_cleanup_blocked'' (sample_state []) dev_world
      = (Inr (Moved ''engine_cleanup'' u), dev_world)
    \<and> apply_update (\<lambda>_ _ _ _. False) (sample_state []) u = Inr s"
proof -
  have "spine_node dev_services (\<lambda>_. True) sample_cfg ''t'' sample_answers True ''engine_cleanup_blocked'' (sample_state []) dev_world
    = (Inr (reopened_cleanup 1), dev_world)"
    by (simp add: spine_node_def engine_cleanup_blocked_def read_known ret_def)
  moreover have "\<exists>s. apply_update (\<lambda>_ _ _ _. False) (sample_state []) (exec_update 1
       [running, flag ''engine_cleanup_required'' True, flag ''engine_cleanup_blocked'' False,
        count ''engine_cleanup_failures'' 0, cleared ''engine_cleanup_last_error'']) = Inr s"
    by (simp add: apply_update_def exec_update_def sample_state_def recorded_fields merge_phase_results_def opt_dict_def
        phase_names_ok_def validated_source_def validated_item_def merge_inherited_def bound_elsewhere_def entry_eval
        merge_by_id_field_def merge_plain_field_def bounded_exact_list_def
        merge_lists_by_id_def merge_unique_def cap_plain_phase_list_def phase_list_limit_def take_last_def)
  ultimately show ?thesis by (simp add: reopened_cleanup_def)
qed

theorem unfinished_cleanup_resumed_witness:
  "\<exists>u s. spine_node dev_services (\<lambda>_. True) sample_cfg ''t'' sample_answers True ''engine_cleanup_blocked'' (sample_state []) dev_world
      = (Inr (Moved ''engine_cleanup'' u), dev_world)
    \<and> apply_update (\<lambda>_ _ _ _. False) (sample_state []) u = Inr s
    \<and> route_execution_entry s = Inr ''engine_cleanup''"
  using reopened_applied unfinished_cleanup_resumed [OF sample_entry(1,2,3)] by fastforce

end
