(* ===== verification/Artifact_Slots.thy ===== *)
theory Artifact_Slots
  imports Py_Value
begin

text \<open>
  The view of the artifact store that an engine adapter writes its results through
  (\<open>_EngineArtifactStoreView\<close> in src/apex/graphs/pipeline/execution_phase.py), together with the
  objects of the store beneath it. Puts may overlap: each of them is its reservation and, later,
  the answer of the store. \<open>artifact-0000\<close>, \<open>artifact-0001\<close> and so on are the slots.
\<close>

subsection \<open>State\<close>

definition MAX_ENGINE_ARTIFACT_WRITES :: nat where
  "MAX_ENGINE_ARTIFACT_WRITES = 32"

definition MAX_ENGINE_ARTIFACT_BYTES_PER_OBJECT :: int where
  "MAX_ENGINE_ARTIFACT_BYTES_PER_OBJECT = 512 * 1024 * 1024"

definition MAX_ENGINE_ARTIFACT_BYTES_TOTAL :: int where
  "MAX_ENGINE_ARTIFACT_BYTES_TOTAL = 1024 * 1024 * 1024"

text \<open>
  \<open>vw_open\<close> are the puts that wait for the store, each a stream or not, with the bytes
  and the content type that it may write; \<open>vw_objects\<close> is the store itself: the sizes of its objects by their keys.
\<close>

record slot_view =
  vw_namespace :: string
  vw_written :: "string \<rightharpoonup> nat \<times> string"
  vw_attempted :: "(string \<times> nat) list"
  vw_requested :: "string set"
  vw_compensated :: "string set"
  vw_reserved :: int
  vw_open :: "(string \<times> bool \<times> nat \<times> string) list"
  vw_objects :: "string \<rightharpoonup> nat"

definition slot_text :: "nat \<Rightarrow> string" where
  "slot_text n = pad_left 4 (nat_text n)"

definition slot_key :: "string \<Rightarrow> nat \<Rightarrow> string" where
  "slot_key ns n = ns @ ''/artifact-'' @ slot_text n"

definition all_slot_keys :: "string \<Rightarrow> string list" where
  "all_slot_keys ns = map (slot_key ns) [0..<MAX_ENGINE_ARTIFACT_WRITES]"

definition new_view :: "string \<Rightarrow> (string \<rightharpoonup> nat) \<Rightarrow> slot_view" where
  "new_view ns objects =
     \<lparr>vw_namespace = ns, vw_written = Map.empty, vw_attempted = [], vw_requested = {}, vw_compensated = {},
      vw_reserved = 0, vw_open = [], vw_objects = objects\<rparr>"

subsection \<open>Requests\<close>

text \<open>\<open>str.split\<close> at a character.\<close>

fun split_at :: "char \<Rightarrow> string \<Rightarrow> string list" where
  "split_at c [] = [[]]"
| "split_at c (x # xs) =
     (if x = c then [] # split_at c xs
      else case split_at c xs of [] \<Rightarrow> [[x]] | p # ps \<Rightarrow> (x # p) # ps)"

definition slot_request_ok :: "string \<Rightarrow> string \<Rightarrow> bool" where
  "slot_request_ok ns key \<longleftrightarrow>
     take (length ns + 1) key = ns @ ''/'' \<and> key \<noteq> ns @ ''/'' \<and> length key \<le> 1024 \<and> nul_free key
     \<and> CHR 0x5C \<notin> set key \<and> list_all (\<lambda>p. p \<notin> {[], ''.'', ''..''}) (split_at (CHR ''/'') key)"

definition content_type_ok :: "string \<Rightarrow> bool" where
  "content_type_ok s \<longleftrightarrow> s \<noteq> [] \<and> length s \<le> 255 \<and> nul_free s \<and> CHR 0x0D \<notin> set s \<and> CHR 0x0A \<notin> set s"

text \<open>\<open>_reserve\<close>: the slot, before the store is called.\<close>

definition reserve_slot :: "string \<Rightarrow> nat \<Rightarrow> slot_view \<Rightarrow> string + string \<times> slot_view" where
  "reserve_slot key bytes v =
     (if key \<in> vw_requested v then Inl ''execution engine artifact keys may be attempted only once''
      else if MAX_ENGINE_ARTIFACT_WRITES \<le> length (vw_attempted v)
      then Inl ''execution engine artifact write count exceeds the hard limit''
      else if MAX_ENGINE_ARTIFACT_BYTES_PER_OBJECT < int bytes
      then Inl ''execution engine artifact exceeds the per-object byte limit''
      else if MAX_ENGINE_ARTIFACT_BYTES_TOTAL - vw_reserved v < int bytes
      then Inl ''execution engine artifacts exceed the aggregate byte limit''
      else let slot = slot_key (vw_namespace v) (length (vw_attempted v))
           in Inr (slot, v\<lparr>vw_requested := insert key (vw_requested v),
                           vw_attempted := vw_attempted v @ [(slot, bytes)],
                           vw_reserved := vw_reserved v + int bytes\<rparr>))"

text \<open>
  The beginning of \<open>put\<close> and of \<open>put_stream\<close>, whose size is the most that the stream may carry.
\<close>

definition begin_put :: "bool \<Rightarrow> string \<Rightarrow> nat \<Rightarrow> string \<Rightarrow> slot_view \<Rightarrow> string + slot_view" where
  "begin_put stream key bytes content v =
     (if stream \<and> bytes = 0 then Inl ''execution engine artifact max_bytes must be a positive integer''
      else if \<not> slot_request_ok (vw_namespace v) key
      then Inl (''execution engine artifact key must remain beneath '' @ vw_namespace v)
      else if \<not> content_type_ok content then Inl ''execution engine artifact content type is invalid''
      else case reserve_slot key bytes v of
        Inl m \<Rightarrow> Inl m
      | Inr (slot, v') \<Rightarrow> Inr (v'\<lparr>vw_open := (slot, stream, bytes, content) # vw_open v'\<rparr>))"

subsection \<open>Answers\<close>

text \<open>
  A put ends with an acknowledgement of \<open>n\<close> bytes at the slot, which has passed
  \<open>validate_stored_artifact_ack\<close> and, for a stream, was consumed to its end; or it fails, and
  \<open>landed\<close> is what the store has kept all the same. A deletion succeeds (a missing object counts),
  or fails and may have removed the object.
\<close>

datatype put_answer = Acknowledged nat | PutFailed "nat option"

datatype delete_answer = Removed | DeleteFailed bool

definition delete_object :: "string \<Rightarrow> delete_answer \<Rightarrow> slot_view \<Rightarrow> bool \<times> slot_view" where
  "delete_object key d v =
     (case d of
        Removed \<Rightarrow> (True, v\<lparr>vw_objects := (vw_objects v)(key := None), vw_compensated := insert key (vw_compensated v),
                           vw_written := (vw_written v)(key := None)\<rparr>)
      | DeleteFailed gone \<Rightarrow>
          (False, if gone then v\<lparr>vw_objects := (vw_objects v)(key := None)\<rparr> else v))"

fun cleanup_keys :: "(string \<Rightarrow> delete_answer) \<Rightarrow> string list \<Rightarrow> slot_view \<Rightarrow> bool \<times> slot_view" where
  "cleanup_keys ans [] v = (True, v)"
| "cleanup_keys ans (k # ks) v =
     (let (good, v') = delete_object k (ans k) v; (rest, v'') = cleanup_keys ans ks v' in (good \<and> rest, v''))"

definition cleanup_definitively :: "(string \<Rightarrow> delete_answer) \<Rightarrow> string list \<Rightarrow> slot_view \<Rightarrow> bool \<times> slot_view" where
  "cleanup_definitively ans keys v = cleanup_keys ans (filter (\<lambda>k. k \<notin> vw_compensated v) keys) v"

definition cleanup_except :: "(string \<Rightarrow> delete_answer) \<Rightarrow> string set \<Rightarrow> slot_view \<Rightarrow> bool \<times> slot_view" where
  "cleanup_except ans retained v =
     cleanup_definitively ans (filter (\<lambda>k. k \<notin> retained) (all_slot_keys (vw_namespace v))) v"

text \<open>The end of a put at \<open>slot\<close>: what is not used of its reservation is given back.\<close>

definition end_put :: "string \<Rightarrow> put_answer \<Rightarrow> delete_answer \<Rightarrow> slot_view \<Rightarrow> bool \<times> slot_view" where
  "end_put slot answer d v =
     (case map_of (vw_open v) slot of
        None \<Rightarrow> (False, v)
      | Some (stream, most, content) \<Rightarrow>
          let v1 = v\<lparr>vw_open := filter (\<lambda>p. fst p \<noteq> slot) (vw_open v)\<rparr>
          in case answer of
               Acknowledged n \<Rightarrow>
                 if n = most \<or> stream \<and> n \<le> most
                 then (True, v1\<lparr>vw_objects := (vw_objects v)(slot \<mapsto> n),
                                vw_reserved := vw_reserved v - (int most - int n),
                                vw_attempted := map (\<lambda>(k, b). (k, if k = slot then n else b)) (vw_attempted v),
                                vw_written := (vw_written v)(slot \<mapsto> (n, content))\<rparr>)
                 else (False, snd (cleanup_definitively (\<lambda>_. d) [slot] v1))
             | PutFailed landed \<Rightarrow>
                 (False, snd (cleanup_definitively (\<lambda>_. d) [slot]
                    (case landed of None \<Rightarrow> v1
                     | Some n \<Rightarrow> v1\<lparr>vw_objects := (vw_objects v)(slot \<mapsto> min n most)\<rparr>))))"

text \<open>The calls of an engine adapter, in the order in which they take effect.\<close>

datatype put_op =
    BeginPut bool string nat string
  | EndPut string put_answer delete_answer

definition put_step :: "slot_view \<Rightarrow> put_op \<Rightarrow> string + slot_view" where
  "put_step v c =
     (case c of
        BeginPut stream key bytes content \<Rightarrow> begin_put stream key bytes content v
      | EndPut slot answer d \<Rightarrow> Inr (snd (end_put slot answer d v)))"

subsection \<open>What the puts keep\<close>

text \<open>
  The slots are attempted in their order and never twice, within the limits of the counts and of the
  bytes; what the view has put into the store lies in an attempted slot and within its reservation;
  a put that waits has its slot to itself.
\<close>

definition open_ok :: "(string \<times> nat) list \<Rightarrow> (string \<times> bool \<times> nat \<times> string) list \<Rightarrow> bool" where
  "open_ok att op \<longleftrightarrow> (\<forall>p \<in> set op. map_of att (fst p) = Some (fst (snd (snd p))))"

definition written_ok ::
  "(string \<rightharpoonup> nat \<times> string) \<Rightarrow> (string \<times> nat) list \<Rightarrow> (string \<rightharpoonup> nat) \<Rightarrow> string set \<Rightarrow> bool" where
  "written_ok w att objects waiting \<longleftrightarrow>
     (\<forall>k p. w k = Some p \<longrightarrow> map_of att k = Some (fst p) \<and> objects k = Some (fst p) \<and> k \<notin> waiting)"

definition slots_ok :: "(string \<rightharpoonup> nat) \<Rightarrow> slot_view \<Rightarrow> bool" where
  "slots_ok objects v \<longleftrightarrow>
     map fst (vw_attempted v) = map (slot_key (vw_namespace v)) [0..<length (vw_attempted v)]
     \<and> length (vw_attempted v) \<le> MAX_ENGINE_ARTIFACT_WRITES
     \<and> vw_reserved v = int (sum_list (map snd (vw_attempted v)))
     \<and> vw_reserved v \<le> MAX_ENGINE_ARTIFACT_BYTES_TOTAL
     \<and> (\<forall>p \<in> set (vw_attempted v). int (snd p) \<le> MAX_ENGINE_ARTIFACT_BYTES_PER_OBJECT)
     \<and> open_ok (vw_attempted v) (vw_open v)
     \<and> (\<forall>k. vw_objects v k \<noteq> objects k \<and> vw_objects v k \<noteq> None \<longrightarrow>
          (\<exists>n b. vw_objects v k = Some n \<and> map_of (vw_attempted v) k = Some b \<and> n \<le> b))
     \<and> written_ok (vw_written v) (vw_attempted v) (vw_objects v) (fst ` set (vw_open v))
     \<and> (\<forall>k \<in> vw_compensated v. vw_objects v k = None \<and> k \<in> fst ` set (vw_attempted v) - fst ` set (vw_open v))"

lemma open_ok_filter: "open_ok att op \<Longrightarrow> open_ok att (filter P op)"
  by (simp add: open_ok_def)

lemma open_ok_append: "open_ok att op \<Longrightarrow> map_of att k = None \<Longrightarrow> open_ok (att @ [(k, n)]) ((k, stream, n, c) # op)"
  by (auto simp: open_ok_def map_add_def split: option.split)

lemma open_ok_map_of: "open_ok att op \<Longrightarrow> map_of op k = Some (stream, n, c) \<Longrightarrow> map_of att k = Some n"
  unfolding open_ok_def by (drule map_of_SomeD) force

lemma open_ok_fresh: "open_ok att op \<Longrightarrow> map_of att k = None \<Longrightarrow> k \<notin> fst ` set op"
  by (auto simp: open_ok_def)

lemma written_ok_none:
  "written_ok w att objects waiting \<Longrightarrow> map_of att k = None \<or> k \<in> waiting \<Longrightarrow> w k = None"
  unfolding written_ok_def by (metis not_Some_eq option.distinct(1))

lemma written_ok_other:
  "written_ok w att objects waiting \<Longrightarrow> w k = None \<Longrightarrow>
   (\<And>k'. k' \<noteq> k \<Longrightarrow> map_of att' k' = map_of att k' \<and> objects' k' = objects k') \<Longrightarrow> waiting' \<subseteq> insert k waiting \<Longrightarrow>
   written_ok w att' objects' waiting'"
  unfolding written_ok_def by (metis insert_iff option.distinct(1) subsetD)

lemma written_ok_put:
  "written_ok w att objects waiting \<Longrightarrow> map_of att' k = Some (fst p) \<Longrightarrow> objects' k = Some (fst p) \<Longrightarrow>
   (\<And>k'. k' \<noteq> k \<Longrightarrow> map_of att' k' = map_of att k' \<and> objects' k' = objects k') \<Longrightarrow> waiting' \<subseteq> waiting - {k} \<Longrightarrow>
   written_ok (w(k \<mapsto> p)) att' objects' waiting'"
  unfolding written_ok_def by auto

lemma written_ok_drop: "written_ok w att objects waiting \<Longrightarrow> written_ok (w(k := None)) att (objects(k := None)) waiting"
  by (simp add: written_ok_def)

lemma digit_zero: "digit_char 0 = CHR ''0''"
  by code_simp

lemma slot_text_two:
  assumes "n < 100"
  shows "slot_text n = ''00'' @ [digit_char (n div 10), digit_char (n mod 10)]"
proof (cases "n < 10")
  case True
  then show ?thesis by (simp add: slot_text_def pad_left_def nat_text.simps [of n] digit_zero numeral_3_eq_3)
next
  case False
  with assms have "n div 10 < 10" by linarith
  with False show ?thesis
    by (simp add: slot_text_def pad_left_def nat_text.simps [of n] nat_text.simps [of "n div 10"] numeral_2_eq_2)
qed

lemma digit_char_inj: "digit_char m = digit_char n \<Longrightarrow> m < 10 \<Longrightarrow> n < 10 \<Longrightarrow> m = n"
proof -
  assume "digit_char m = digit_char n" "m < 10" "n < 10"
  then have "(of_char (digit_char m) :: nat) = of_char (digit_char n)" by simp
  with \<open>m < 10\<close> \<open>n < 10\<close> show ?thesis by (simp add: digit_char_def)
qed

lemma slot_key_inj:
  assumes "slot_key ns m = slot_key ns n" "m < MAX_ENGINE_ARTIFACT_WRITES" "n < MAX_ENGINE_ARTIFACT_WRITES"
  shows "m = n"
proof -
  from assms(2,3) have less: "m < 100" "n < 100" by (simp_all add: MAX_ENGINE_ARTIFACT_WRITES_def)
  with assms(1) have "digit_char (m div 10) = digit_char (n div 10)" "digit_char (m mod 10) = digit_char (n mod 10)"
    by (simp_all add: slot_key_def slot_text_two)
  with less have "m div 10 = n div 10" "m mod 10 = n mod 10"
    by (auto intro: digit_char_inj)
  then show ?thesis by (metis div_mult_mod_eq)
qed

lemma slot_keys_distinct:
  "n \<le> MAX_ENGINE_ARTIFACT_WRITES \<Longrightarrow> distinct (map (slot_key ns) [0..<n])"
  by (auto simp: distinct_map inj_on_def intro: slot_key_inj)

lemma attempted_distinct: "slots_ok objects v \<Longrightarrow> distinct (map fst (vw_attempted v))"
  using slot_keys_distinct [of "length (vw_attempted v)" "vw_namespace v"] by (simp add: slots_ok_def)

lemma slot_fresh:
  assumes "slots_ok objects v" "length (vw_attempted v) < MAX_ENGINE_ARTIFACT_WRITES"
  shows "map_of (vw_attempted v) (slot_key (vw_namespace v) (length (vw_attempted v))) = None"
proof -
  have "slot_key (vw_namespace v) (length (vw_attempted v)) \<notin> set (map fst (vw_attempted v))"
    using assms slot_key_inj [of "vw_namespace v"] unfolding slots_ok_def by fastforce
  then show ?thesis by (simp add: map_of_eq_None_iff)
qed

lemma begin_put_ok:
  assumes "slots_ok objects v" "begin_put stream key n c v = Inr v'"
  shows "slots_ok objects v'"
proof -
  let ?slot = "slot_key (vw_namespace v) (length (vw_attempted v))"
  from assms(2) have room: "length (vw_attempted v) < MAX_ENGINE_ARTIFACT_WRITES"
    and bytes: "int n \<le> MAX_ENGINE_ARTIFACT_BYTES_PER_OBJECT" "int n \<le> MAX_ENGINE_ARTIFACT_BYTES_TOTAL - vw_reserved v"
    and v': "v' = v\<lparr>vw_requested := insert key (vw_requested v), vw_attempted := vw_attempted v @ [(?slot, n)],
      vw_reserved := vw_reserved v + int n, vw_open := (?slot, stream, n, c) # vw_open v\<rparr>"
    by (auto simp: begin_put_def reserve_slot_def Let_def split: if_splits)
  note fresh = slot_fresh [OF assms(1) room]
  have new: "map_of (vw_attempted v @ [(?slot, n)]) k = (if k = ?slot then Some n else map_of (vw_attempted v) k)" for k
    using fresh by (simp add: map_add_def split: option.split)
  have ok: "open_ok (vw_attempted v) (vw_open v)"
    "written_ok (vw_written v) (vw_attempted v) (vw_objects v) (fst ` set (vw_open v))"
    using assms(1) by (simp_all add: slots_ok_def)
  have written: "written_ok (vw_written v) (vw_attempted v @ [(?slot, n)]) (vw_objects v) (insert ?slot (fst ` set (vw_open v)))"
    by (rule written_ok_other [OF ok(2) written_ok_none [OF ok(2)]]) (use fresh new in auto)
  have "?slot \<notin> vw_compensated v"
    using assms(1) fresh unfolding slots_ok_def by (auto simp: map_of_eq_None_iff)
  with assms(1) room bytes written open_ok_append [OF ok(1) fresh] show ?thesis
    unfolding slots_ok_def v' by (auto simp: new fresh simp del: map_of_append)
qed

definition set_size :: "string \<Rightarrow> nat \<Rightarrow> (string \<times> nat) list \<Rightarrow> (string \<times> nat) list" where
  "set_size slot n xs = map (\<lambda>(k, b). (k, if k = slot then n else b)) xs"

lemma set_size_keys [simp]: "map fst (set_size slot n xs) = map fst xs" "length (set_size slot n xs) = length xs"
  by (auto simp: set_size_def)

lemma set_size_map_of:
  "map_of (set_size slot n xs) k = (if k = slot then map_option (\<lambda>_. n) (map_of xs k) else map_of xs k)"
  unfolding set_size_def by (induction xs) auto

lemma set_size_other: "slot \<notin> fst ` set xs \<Longrightarrow> set_size slot n xs = xs"
  unfolding set_size_def by (induction xs) auto

lemma set_size_sum:
  "distinct (map fst xs) \<Longrightarrow> map_of xs slot = Some b \<Longrightarrow>
   int (sum_list (map snd (set_size slot n xs))) = int (sum_list (map snd xs)) - (int b - int n)"
proof (induction xs)
  case (Cons x xs)
  have step: "set_size slot n (x # xs) = (fst x, if fst x = slot then n else snd x) # set_size slot n xs"
    by (simp add: set_size_def split_beta)
  show ?case
  proof (cases "fst x = slot")
    case True
    with Cons.prems have "snd x = b" "slot \<notin> fst ` set xs" by (auto split: if_splits)
    with True show ?thesis unfolding step by (simp add: set_size_other)
  next
    case False
    with Cons.prems have "map_of xs slot = Some b" by (cases x) simp
    with False Cons show ?thesis unfolding step by simp
  qed
qed simp

lemma set_size_bound: "p \<in> set (set_size slot n xs) \<Longrightarrow> p \<in> set xs \<or> p = (slot, n)"
  by (auto simp: set_size_def split: if_splits)

lemma set_size_image [simp]: "fst ` set (set_size slot n xs) = fst ` set xs"
  using arg_cong [OF set_size_keys(1), of set slot n xs] by (simp only: set_map)

lemma open_ok_set_size: "open_ok att op \<Longrightarrow> open_ok (set_size slot n att) (filter (\<lambda>p. fst p \<noteq> slot) op)"
  by (auto simp: open_ok_def set_size_map_of)

lemma cleanup_slot:
  "snd (cleanup_definitively (\<lambda>_. d) [slot] v) = (if slot \<in> vw_compensated v then v else snd (delete_object slot d v))"
  by (simp add: cleanup_definitively_def split_beta Let_def)

lemma delete_slot_ok:
  assumes "slots_ok objects v" "slot \<in> fst ` set (vw_attempted v)" "slot \<notin> fst ` set (vw_open v)" "vw_written v slot = None"
  shows "slots_ok objects (snd (delete_object slot d v))"
proof -
  have "(vw_written v)(slot := None) = vw_written v" using assms(4) by auto
  with written_ok_drop [of "vw_written v" "vw_attempted v" "vw_objects v" "fst ` set (vw_open v)" slot] assms
  show ?thesis unfolding slots_ok_def by (auto simp: delete_object_def split: delete_answer.split)
qed

lemma open_slot:
  assumes "slots_ok objects v" "map_of (vw_open v) slot = Some (stream, most, c)"
  shows "map_of (vw_attempted v) slot = Some most" "slot \<in> fst ` set (vw_attempted v)" "vw_written v slot = None"
    "slot \<notin> vw_compensated v"
proof -
  from map_of_SomeD [OF assms(2)] have mem: "slot \<in> fst ` set (vw_open v)" by force
  from assms show most: "map_of (vw_attempted v) slot = Some most"
    by (auto simp: slots_ok_def intro: open_ok_map_of)
  from map_of_SomeD [OF this] show "slot \<in> fst ` set (vw_attempted v)" by force
  from mem assms(1) show "vw_written v slot = None" "slot \<notin> vw_compensated v"
    by (auto simp: slots_ok_def intro: written_ok_none)
qed

lemma failed_put_ok:
  assumes "slots_ok objects v" "map_of (vw_open v) slot = Some (stream, most, c)"
    and "\<And>n. landed = Some n \<Longrightarrow> n \<le> most"
  shows "slots_ok objects (v\<lparr>vw_open := filter (\<lambda>p. fst p \<noteq> slot) (vw_open v),
    vw_objects := (case landed of None \<Rightarrow> vw_objects v | Some n \<Rightarrow> (vw_objects v)(slot \<mapsto> n))\<rparr>)"
proof -
  note slot = open_slot [OF assms(1,2)]
  have "written_ok (vw_written v) (vw_attempted v) (vw_objects v) (fst ` set (vw_open v))"
    using assms(1) by (simp add: slots_ok_def)
  then have "written_ok (vw_written v) (vw_attempted v) (case landed of None \<Rightarrow> vw_objects v | Some n \<Rightarrow> (vw_objects v)(slot \<mapsto> n))
      (fst ` set (filter (\<lambda>p. fst p \<noteq> slot) (vw_open v)))"
    by (rule written_ok_other [where k = slot]) (auto simp: slot(3) split: option.split)
  with assms(1,3) slot show ?thesis
    unfolding slots_ok_def by (cases landed) (auto simp: open_ok_filter)
qed

lemma acknowledged_put_ok:
  assumes "slots_ok objects v" "map_of (vw_open v) slot = Some (stream, most, c)" "n \<le> most"
  shows "slots_ok objects (v\<lparr>vw_open := filter (\<lambda>p. fst p \<noteq> slot) (vw_open v), vw_objects := (vw_objects v)(slot \<mapsto> n),
    vw_reserved := vw_reserved v - (int most - int n), vw_attempted := set_size slot n (vw_attempted v),
    vw_written := (vw_written v)(slot \<mapsto> (n, c))\<rparr>)"
proof -
  note slot = open_slot [OF assms(1,2)]
  have sum: "int (sum_list (map snd (set_size slot n (vw_attempted v)))) = vw_reserved v - (int most - int n)"
    using set_size_sum [OF attempted_distinct [OF assms(1)] slot(1)] assms(1) by (simp add: slots_ok_def)
  have each: "int (snd p) \<le> MAX_ENGINE_ARTIFACT_BYTES_PER_OBJECT" if "p \<in> set (set_size slot n (vw_attempted v))" for p
    using set_size_bound [OF that] map_of_SomeD [OF slot(1)] assms(1,3) unfolding slots_ok_def by force
  have "written_ok (vw_written v) (vw_attempted v) (vw_objects v) (fst ` set (vw_open v))"
    using assms(1) by (simp add: slots_ok_def)
  then have written: "written_ok ((vw_written v)(slot \<mapsto> (n, c))) (set_size slot n (vw_attempted v)) ((vw_objects v)(slot \<mapsto> n))
      (fst ` set (filter (\<lambda>p. fst p \<noteq> slot) (vw_open v)))"
    by (rule written_ok_put) (use slot(1) in \<open>auto simp: set_size_map_of\<close>)
  have objects: "\<exists>m b. ((vw_objects v)(slot \<mapsto> n)) k = Some m \<and> map_of (set_size slot n (vw_attempted v)) k = Some b \<and> m \<le> b"
    if "((vw_objects v)(slot \<mapsto> n)) k \<noteq> objects k \<and> ((vw_objects v)(slot \<mapsto> n)) k \<noteq> None" for k
    using that assms(1) slot(1) by (cases "k = slot") (auto simp: slots_ok_def set_size_map_of)
  from assms(1,3) slot(4) sum each written objects show ?thesis
    unfolding slots_ok_def by (auto simp: open_ok_set_size)
qed

lemma end_put_ok:
  assumes "slots_ok objects v"
  shows "slots_ok objects (snd (end_put slot answer d v))"
proof (cases "map_of (vw_open v) slot")
  case None
  with assms show ?thesis by (simp add: end_put_def)
next
  case (Some p)
  obtain stream most c where p: "p = (stream, most, c)" by (cases p) auto
  note slot = open_slot [OF assms Some [unfolded p]]
  let ?kept = "\<lambda>landed. v\<lparr>vw_open := filter (\<lambda>p. fst p \<noteq> slot) (vw_open v),
    vw_objects := (case landed of None \<Rightarrow> vw_objects v | Some n \<Rightarrow> (vw_objects v)(slot \<mapsto> n))\<rparr>"
  have failed: "slots_ok objects (snd (delete_object slot d (?kept landed)))" if "\<And>n. landed = Some n \<Longrightarrow> n \<le> most" for landed
    using slot by (intro delete_slot_ok failed_put_ok [OF assms Some [unfolded p] that]) auto
  show ?thesis
  proof (cases answer)
    case (Acknowledged n)
    show ?thesis
    proof (cases "n = most \<or> stream \<and> n \<le> most")
      case True
      then have "n \<le> most" by auto
      from acknowledged_put_ok [OF assms Some [unfolded p] this] True show ?thesis
        by (simp only: end_put_def Acknowledged Some p Let_def set_size_def option.case prod.case put_answer.case
            if_True snd_conv slot_view.simps)
    next
      case False
      with failed [of None] slot(4) show ?thesis
        by (auto simp: end_put_def Acknowledged Some p cleanup_slot Let_def)
    qed
  next
    case (PutFailed landed)
    from failed [of None] failed [of "Some (min n most)" for n] slot(4) show ?thesis
      by (auto simp: end_put_def PutFailed Some p cleanup_slot Let_def split: option.split)
  qed
qed

lemma new_view_ok: "slots_ok objects (new_view ns objects)"
  by (simp add: slots_ok_def new_view_def open_ok_def written_ok_def MAX_ENGINE_ARTIFACT_BYTES_TOTAL_def)

interpretation slots: invariant_steps put_step "\<lambda>_. True" "slots_ok objects" for objects
  by unfold_locales (auto simp: put_step_def end_put_ok intro: begin_put_ok split: put_op.splits)

lemma puts_ok: "slots_ok objects (run_ops put_step (new_view ns objects) cs)"
  by (rule slots.run_inv) (simp_all add: new_view_ok list_all_iff)

lemma namespace_kept: "vw_namespace (run_ops put_step v cs) = vw_namespace v"
proof (induction cs arbitrary: v)
  case (Cons c cs)
  have "vw_namespace (attempt_op put_step v c) = vw_namespace v"
    by (auto simp: attempt_op_def put_step_def begin_put_def reserve_slot_def end_put_def cleanup_slot delete_object_def Let_def
        split: put_op.split sum.split if_split put_answer.split option.split delete_answer.split)
  with Cons show ?case by simp
qed simp

lemma changed_attempted:
  assumes "slots_ok objects v" "vw_objects v k = Some n" "objects k \<noteq> Some n"
  shows "\<exists>b. map_of (vw_attempted v) k = Some b \<and> n \<le> b"
  using assms unfolding slots_ok_def by (metis option.distinct(1) option.sel)

lemma attempted_slots:
  assumes "slots_ok objects v"
  shows "set (map fst (vw_attempted v)) \<subseteq> set (all_slot_keys (vw_namespace v))"
proof -
  from assms have keys: "map fst (vw_attempted v) = map (slot_key (vw_namespace v)) [0..<length (vw_attempted v)]"
    and "length (vw_attempted v) \<le> MAX_ENGINE_ARTIFACT_WRITES" by (simp_all add: slots_ok_def)
  then show ?thesis unfolding keys all_slot_keys_def by (auto simp del: map_map)
qed

lemma sum_sizes:
  fixes xs :: "('a \<times> nat) list"
  assumes "distinct (map fst xs)" "finite K" "\<And>k. k \<in> K \<Longrightarrow> \<exists>b. map_of xs k = Some b \<and> f k \<le> b"
  shows "sum f K \<le> sum_list (map snd xs)"
proof -
  have "sum f K \<le> sum (\<lambda>k. the (map_of xs k)) K"
    using assms(3) by (intro sum_mono) force
  also have "\<dots> \<le> sum (\<lambda>k. the (map_of xs k)) (set (map fst xs))"
    using assms(3) by (intro sum_mono2) (force dest: map_of_SomeD)+
  also have "\<dots> = sum_list (map (\<lambda>k. the (map_of xs k)) (map fst xs))"
    using assms(1) by (rule sum_list_distinct_conv_sum_set [symmetric])
  also have "map (\<lambda>k. the (map_of xs k)) (map fst xs) = map snd xs"
    using assms(1) by (auto simp: map_of_eq_Some_iff intro: map_cong)
  finally show ?thesis .
qed

text \<open>
  C34. Whatever an engine adapter writes through its view, under whatever names and however its puts
  overlap, and whatever the store and its deletions answer: the objects that are new or different
  afterwards lie in the 32 slots of the attempt, each of them within 512 MiB, all of them together
  within 1 GiB.
\<close>

theorem collected_bytes_bound:
  assumes "v = run_ops put_step (new_view ns objects) cs"
    and "K = {k. vw_objects v k \<noteq> None \<and> vw_objects v k \<noteq> objects k}"
  shows "K \<subseteq> set (all_slot_keys ns) \<and> card K \<le> 32
    \<and> (\<forall>k n. k \<in> K \<and> vw_objects v k = Some n \<longrightarrow> n \<le> 512 * 1024 * 1024)
    \<and> (\<Sum>k \<in> K. the (vw_objects v k)) \<le> 1024 * 1024 * 1024"
proof -
  have ok: "slots_ok objects v" using puts_ok assms(1) by simp
  have ns: "vw_namespace v = ns" unfolding assms(1) namespace_kept by (simp add: new_view_def)
  have each: "\<exists>b. map_of (vw_attempted v) k = Some b \<and> the (vw_objects v k) \<le> b" if "k \<in> K" for k
    using that changed_attempted [OF ok, of k] by (auto simp: assms(2))
  have sub: "K \<subseteq> set (map fst (vw_attempted v))"
    using each by (force dest: map_of_SomeD)
  then have fin: "finite K" by (rule finite_subset) simp
  have "K \<subseteq> set (all_slot_keys ns)" using sub attempted_slots [OF ok] ns by blast
  moreover from this have "card K \<le> 32"
    using card_mono [of "set (all_slot_keys ns)" K] card_length [of "all_slot_keys ns"]
    by (simp add: all_slot_keys_def MAX_ENGINE_ARTIFACT_WRITES_def)
  moreover have "n \<le> 512 * 1024 * 1024" if "k \<in> K" "vw_objects v k = Some n" for k n
  proof -
    from each [OF that(1)] that(2) obtain b where b: "map_of (vw_attempted v) k = Some b" "n \<le> b" by auto
    from map_of_SomeD [OF b(1)] ok have "int b \<le> 512 * 1024 * 1024"
      unfolding slots_ok_def MAX_ENGINE_ARTIFACT_BYTES_PER_OBJECT_def by force
    with b(2) show ?thesis by linarith
  qed
  moreover have "(\<Sum>k \<in> K. the (vw_objects v k)) \<le> 1024 * 1024 * 1024"
  proof -
    have "int (sum_list (map snd (vw_attempted v))) \<le> 1024 * 1024 * 1024"
      using ok by (simp add: slots_ok_def MAX_ENGINE_ARTIFACT_BYTES_TOTAL_def)
    with sum_sizes [OF attempted_distinct [OF ok] fin each] show ?thesis by linarith
  qed
  ultimately show ?thesis by blast
qed

lemma cleanup_keys_removed:
  "cleanup_keys ans ks v = (True, v') \<Longrightarrow>
   vw_objects v' = (\<lambda>k. if k \<in> set ks then None else vw_objects v k)
   \<and> vw_written v' = (\<lambda>k. if k \<in> set ks then None else vw_written v k)"
proof (induction ks arbitrary: v)
  case (Cons k ks)
  then have "ans k = Removed" by (auto simp: delete_object_def split_beta Let_def split: delete_answer.splits)
  with Cons show ?case by (fastforce simp: delete_object_def split_beta Let_def fun_eq_iff)
qed auto

text \<open>
  C35. After the collection the view deletes every slot that no reference keeps. When that cleanup
  succeeds, no object is left in any other slot, whatever an earlier execution had left there; the
  retained objects are untouched; and what the view still counts as written is exactly stored under
  a retained key.
\<close>

theorem cleanup_leaves_retained:
  assumes "v = run_ops put_step (new_view ns objects) cs"
    and "cleanup_except ans retained v = (True, v')"
  shows "(\<forall>k \<in> set (all_slot_keys ns) - retained. vw_objects v' k = None)
    \<and> (\<forall>k \<in> retained. vw_objects v' k = vw_objects v k)
    \<and> (\<forall>k n c. vw_written v' k = Some (n, c) \<longrightarrow> k \<in> retained \<and> vw_objects v' k = Some n)"
proof -
  have ok: "slots_ok objects v" using puts_ok assms(1) by simp
  have ns: "vw_namespace v = ns" unfolding assms(1) namespace_kept by (simp add: new_view_def)
  let ?ks = "set (all_slot_keys ns) - retained - vw_compensated v"
  from cleanup_keys_removed [OF assms(2) [unfolded cleanup_except_def cleanup_definitively_def]] ns
  have v': "vw_objects v' = (\<lambda>k. if k \<in> ?ks then None else vw_objects v k)"
    "vw_written v' = (\<lambda>k. if k \<in> ?ks then None else vw_written v k)"
    by (auto simp: fun_eq_iff)
  have gone: "vw_objects v k = None" if "k \<in> vw_compensated v" for k
    using ok that by (simp add: slots_ok_def)
  have written: "map_of (vw_attempted v) k = Some n \<and> vw_objects v k = Some n" if "vw_written v k = Some (n, c)" for k n c
    using ok that by (auto simp: slots_ok_def written_ok_def)
  have "k \<in> retained \<and> vw_objects v' k = Some n" if "vw_written v' k = Some (n, c)" for k n c
  proof -
    from that v'(2) have k: "k \<notin> ?ks" "vw_written v k = Some (n, c)" by (auto split: if_splits)
    from written [OF k(2)] gone [of k] have "k \<notin> vw_compensated v" by auto
    moreover from written [OF k(2)] attempted_slots [OF ok] ns have "k \<in> set (all_slot_keys ns)"
      by (force dest: map_of_SomeD)
    ultimately show ?thesis using k(1) v'(1) written [OF k(2)] by auto
  qed
  moreover have "vw_objects v' k = None" if "k \<in> set (all_slot_keys ns) - retained" for k
    using that gone v'(1) by auto
  moreover have "vw_objects v' k = vw_objects v k" if "k \<in> retained" for k
    using that v'(1) by auto
  ultimately show ?thesis by blast
qed

subsection \<open>A sample collection\<close>

definition sample_puts :: "put_op list" where
  "sample_puts =
     [BeginPut False ''r/a'' 7 ''text/csv'', BeginPut True ''r/b'' 9 ''text/csv'',
      EndPut ''r/artifact-0001'' (PutFailed (Some 3)) Removed, EndPut ''r/artifact-0000'' (Acknowledged 7) Removed]"

theorem collected_bytes_bound_witness:
  "card {k. vw_objects (run_ops put_step (new_view ''r'' Map.empty) sample_puts) k \<noteq> None
     \<and> vw_objects (run_ops put_step (new_view ''r'' Map.empty) sample_puts) k \<noteq> Map.empty k} \<le> 32"
  using collected_bytes_bound [OF refl refl] by blast

lemma sample_cleanup:
  "\<exists>v. cleanup_except (\<lambda>_. Removed) retained w = (True, v)"
proof -
  have "fst (cleanup_keys (\<lambda>_. Removed) ks w)" for ks w
    by (induction ks arbitrary: w) (simp_all add: delete_object_def split_beta Let_def)
  then have "\<exists>v. cleanup_keys (\<lambda>_. Removed) ks w = (True, v)" for ks w
    by (metis prod.collapse)
  then show ?thesis by (simp add: cleanup_except_def cleanup_definitively_def)
qed

theorem cleanup_leaves_retained_witness:
  "\<exists>v. cleanup_except (\<lambda>_. Removed) {slot_key ''r'' 0} (run_ops put_step (new_view ''r'' Map.empty) sample_puts) = (True, v)
     \<and> vw_objects v (slot_key ''r'' 1) = None"
proof -
  obtain v where v: "cleanup_except (\<lambda>_. Removed) {slot_key ''r'' 0} (run_ops put_step (new_view ''r'' Map.empty) sample_puts) = (True, v)"
    using sample_cleanup by blast
  have "slot_key ''r'' 1 \<in> set (all_slot_keys ''r'')" by (auto simp: all_slot_keys_def MAX_ENGINE_ARTIFACT_WRITES_def)
  moreover have "slot_key ''r'' 1 \<noteq> slot_key ''r'' 0"
    using slot_key_inj [of "''r''" 1 0] by (auto simp: MAX_ENGINE_ARTIFACT_WRITES_def)
  ultimately show ?thesis using cleanup_leaves_retained [OF refl v] v by blast
qed

end
