(* ===== verification/Analysis_Phase.thy ===== *)
theory Analysis_Phase
  imports Phase_Gates Json_Limits Engine_Collection
begin

text \<open>
  The analysis steps of the reporting phase (src/apex/graphs/pipeline/analysis_phase.py) with the
  durable claims of native submissions (src/apex/services/native_analysis_submissions.py) and the
  contract of analysis services (src/apex/ports/analysis.py). A node is a program over the claims,
  the native requests that any worker has posted, its own copy of the ledger row and the number of
  effects before the process dies.

  Arguments of the definitions: the credential scanner, the diagnostic bound and the parser of
  times; the configuration of the phase; the answers of the outside world to one execution.
\<close>

subsection \<open>Values of the analysis contract\<close>

datatype job_status = JQueued | JRunning | JSucceeded | JFailed | JCancelled

record analysis_job =
  aj_id :: string
  aj_status :: job_status
  aj_error :: "string option"

record capabilities =
  ca_engines :: "string list"
  ca_evidence :: "string list"
  ca_available :: bool

record analysis_result =
  ax_summary :: string
  ax_tool :: string
  ax_version :: string
  ax_digest :: string
  ax_findings :: "pydict list"
  ax_artifacts :: "pydict list"
  ax_warnings :: "string list"
  ax_gaps :: "string list"

definition job_status_text :: "job_status \<Rightarrow> string" where
  "job_status_text s =
     (case s of JQueued \<Rightarrow> ''queued'' | JRunning \<Rightarrow> ''running'' | JSucceeded \<Rightarrow> ''succeeded''
      | JFailed \<Rightarrow> ''failed'' | JCancelled \<Rightarrow> ''cancelled'')"

definition job_status_of :: "pyval \<Rightarrow> job_status option" where
  "job_status_of v = find (\<lambda>s. v = PStr (job_status_text s)) [JQueued, JRunning, JSucceeded, JFailed, JCancelled]"

definition validated_job :: "scanner \<Rightarrow> pyval \<Rightarrow> pyval \<Rightarrow> pyval \<Rightarrow> analysis_job option" where
  "validated_job cred job status error =
     (case job_status_of status of
        None \<Rightarrow> None
      | Some s \<Rightarrow>
          if text_between 1 256 job \<and> optional_between 4096 error
            \<and> \<not> scan cred (PDict [(''job_id'', job), (''status'', status), (''error'', error)])
          then Some \<lparr>aj_id = str_of job, aj_status = s, aj_error = text_option error\<rparr> else None)"

definition native_job :: "scanner \<Rightarrow> pydict \<Rightarrow> analysis_job option" where
  "native_job cred raw =
     validated_job cred (dget raw ''analysis_id'')
       (if dget raw ''state'' = PStr ''completed'' then PStr ''succeeded'' else dget raw ''state'')
       (dget raw ''error'')"

definition result_json :: "analysis_result \<Rightarrow> pydict" where
  "result_json r =
     [(''schema_version'', PInt 1), (''summary'', PStr (ax_summary r)), (''tool'', PStr (ax_tool r)),
      (''tool_version'', PStr (ax_version r)), (''input_digest'', PStr (ax_digest r)),
      (''findings'', PList (map PDict (ax_findings r))), (''artifacts'', PList (map PDict (ax_artifacts r))),
      (''warnings'', text_list (ax_warnings r)), (''gaps'', text_list (ax_gaps r))]"

definition RESULT_LIMITS :: json_limits where
  "RESULT_LIMITS = \<lparr>jl_bytes = 256000, jl_nodes = 4096, jl_depth = 12, jl_key = 256\<rparr>"

definition valid_result :: "scanner \<Rightarrow> analysis_result \<Rightarrow> bool" where
  "valid_result cred r \<longleftrightarrow>
     text_between 1 12000 (PStr (ax_summary r)) \<and> text_between 1 128 (PStr (ax_tool r))
     \<and> text_between 1 128 (PStr (ax_version r)) \<and> lowercase_sha256 (ax_digest r)
     \<and> length (ax_findings r) \<le> 128 \<and> length (ax_artifacts r) \<le> 64
     \<and> length (ax_warnings r) \<le> 64 \<and> list_all nul_free (ax_warnings r)
     \<and> length (ax_gaps r) \<le> 64 \<and> list_all nul_free (ax_gaps r)
     \<and> validate_json_object ''analysis result'' RESULT_LIMITS (PDict (result_json r)) = Inr ()
     \<and> \<not> cred 4096 250000 256000 (PDict (result_json r))"

text \<open>\<open>model_dump_json().encode()\<close>.\<close>

definition result_content :: "analysis_result \<Rightarrow> string option" where
  "result_content r = map_option utf8 (json_dumps False False False (PDict (result_json r)))"

text \<open>\<open>json.dumps(value, sort_keys=sk)\<close> with the default separators.\<close>

fun dumps_spaced :: "bool \<Rightarrow> pyval \<Rightarrow> string option" where
  "dumps_spaced sk (PList xs) =
     (let parts = map (dumps_spaced sk) xs
      in if None \<in> set parts then None else Some (''['' @ join '', '' (map the parts) @ '']''))"
| "dumps_spaced sk (PDict d) =
     (let raw = map (\<lambda>(k, v). (k, dumps_spaced sk v)) d;
          parts = (if sk then sort_key fst raw else raw)
      in if None \<in> snd ` set parts then None
         else Some (''{'' @ join '', '' (map (\<lambda>(k, p). json_text True k @ '': '' @ the p) parts) @ ''}''))"
| "dumps_spaced sk v = json_dumps sk True True v"

definition dumped :: "bool \<Rightarrow> pyval \<Rightarrow> string res" where
  "dumped sk v = (case dumps_spaced sk v of
     None \<Rightarrow> Inl (TypeError ''Object is not JSON serializable'') | Some t \<Rightarrow> Inr t)"

subsection \<open>The ledger and the state of the phase\<close>

datatype row_status = RPending | RQueued | RRunning | RCollecting | RSucceeded | RFailed

record row_result =
  rr_preview :: string
  rr_artifact :: string
  rr_sha :: string
  rr_summary :: string
  rr_completed :: string

text \<open>\<open>ar_request\<close>: the request that an older version stored in the row.\<close>

record analysis_row =
  ar_tool :: string
  ar_connection :: string
  ar_digest :: string
  ar_attempt :: int
  ar_key :: string
  ar_status :: row_status
  ar_job :: "string option"
  ar_started :: "string option"
  ar_polls :: nat
  ar_error :: "string option"
  ar_terminal :: bool
  ar_uncertain :: bool
  ar_request :: "pydict option"
  ar_result :: "row_result option"

record analysis_cfg =
  ac_selections :: "analysis_selection list option"
  ac_timeout :: int
  ac_engine :: string
  ac_project :: "string option"
  ac_traffic :: "string option"
  ac_scope :: pyval
  ac_participants :: "string list"

text \<open>
  What the nodes read of the pipeline state: the entry of the reporting phase that prepare wrote,
  the entry of the execution phase and the engine handle of the thread.
\<close>

record analysis_state =
  st_attempt :: int
  st_ledger :: "analysis_row list option"
  st_entry :: pydict
  st_execution :: pydict
  st_handle :: pyval
  st_aborted :: bool

definition py_or :: "pyval \<Rightarrow> pyval \<Rightarrow> pyval" where
  "py_or a b = (if truthy a then a else b)"

definition dict_of :: "pyval \<Rightarrow> pydict" where
  "dict_of v = (case v of PDict d \<Rightarrow> d | _ \<Rightarrow> [])"

definition execution_evidence :: "analysis_state \<Rightarrow> analysis_cfg \<Rightarrow> pydict" where
  "execution_evidence st cfg =
     (let ex = st_execution st;
          external = (dget ex ''external'' = PBool True);
          handle = (if external then [] else dict_of (py_or (dget ex ''engine_handle'') (st_handle st)));
          verified = (dget ex ''native_source_verified'' = PBool True)
      in [(''test_scope'', ac_scope cfg), (''attribution'', PStr ''run-level''),
          (''test_summary'', dget ex ''test_summary''), (''source_uri'', dget ex ''source_uri''),
          (''artifact_ids'', with_default (PList []) ex ''artifact_ids''),
          (''native_run_id'', py_or (dget handle ''external_run_id'')
             (if verified then dget ex ''native_run_id'' else PNone)),
          (''native_connection_id'', py_or (dget handle ''connection_id'')
             (if verified then dget ex ''native_connection_id'' else PNone))])"

definition evidence_digest :: "pydict \<Rightarrow> string res" where
  "evidence_digest ev = rbind (dumped True (PDict ev)) (\<lambda>t. Inr (sha256_hex (utf8 t)))"

text \<open>The order in which the tools run.\<close>

definition tool_rank :: "string \<Rightarrow> nat" where
  "tool_rank t = (if t \<in> {''lra_engine'', ''internal_rca''} then 0 else if t = ''perfreportforge'' then 1 else 2)"

definition ordered_selections :: "analysis_cfg \<Rightarrow> analysis_selection list" where
  "ordered_selections cfg =
     (case ac_selections cfg of None \<Rightarrow> [] | Some ss \<Rightarrow> sort_key (tool_rank \<circ> tool) ss)"

subsection \<open>Preparing and routing\<close>

definition first_key :: "string \<Rightarrow> int \<Rightarrow> string \<Rightarrow> string \<Rightarrow> string" where
  "first_key thread n connection digest =
     sha256_hex (utf8 (thread @ '':reporting:'' @ int_text n @ '':'' @ connection @ '':'' @ digest @ '':1''))"

definition new_row :: "string \<Rightarrow> int \<Rightarrow> string \<Rightarrow> analysis_selection \<Rightarrow> analysis_row" where
  "new_row thread n digest s =
     \<lparr>ar_tool = tool s, ar_connection = connection_id s, ar_digest = digest, ar_attempt = 1,
      ar_key = first_key thread n (connection_id s) digest, ar_status = RPending, ar_job = None,
      ar_started = None, ar_polls = 0, ar_error = None, ar_terminal = False, ar_uncertain = False,
      ar_request = None, ar_result = None\<rparr>"

definition prepare_analysis :: "analysis_cfg \<Rightarrow> string \<Rightarrow> analysis_state \<Rightarrow> analysis_row list option res" where
  "prepare_analysis cfg thread st =
     (if st_ledger st \<noteq> None \<or> ordered_selections cfg = [] then Inr None
      else rbind (evidence_digest (execution_evidence st cfg)) (\<lambda>digest.
           Inr (Some (map (new_row thread (st_attempt st) digest) (ordered_selections cfg)))))"

definition ledger_of :: "analysis_state \<Rightarrow> analysis_row list" where
  "ledger_of st = (case st_ledger st of None \<Rightarrow> [] | Some rs \<Rightarrow> rs)"

definition route_analysis :: "analysis_state \<Rightarrow> string" where
  "route_analysis st =
     (if st_aborted st then ''finalize''
      else if \<exists>r \<in> set (ledger_of st). ar_status r = RFailed then ''analysis_recovery''
      else if \<forall>r \<in> set (ledger_of st). ar_status r = RSucceeded then ''report_agent''
      else ''analysis_step'')"

definition submission_request ::
  "analysis_cfg \<Rightarrow> string \<Rightarrow> analysis_state \<Rightarrow> analysis_row \<Rightarrow> pydict res" where
  "submission_request cfg thread st row =
     (case ar_request row of
        Some d \<Rightarrow> Inr d
      | None \<Rightarrow>
          rbind (evidence_digest (execution_evidence st cfg)) (\<lambda>digest.
          if digest \<noteq> ar_digest row then bad ''Analysis input evidence changed after preparation''
          else Inr [(''schema_version'', PInt 1), (''run_id'', PStr thread), (''phase'', PStr ''reporting''),
                    (''attempt'', PInt (st_attempt st)), (''project_id'', optional_text (ac_project cfg)),
                    (''engine'', PStr (ac_engine cfg)), (''evidence'', PDict (execution_evidence st cfg)),
                    (''input_digest'', PStr digest), (''idempotency_key'', PStr (ar_key row))]))"

subsection \<open>Effects of a step\<close>

text \<open>
  The exceptions of adapters, as the handler of a step tells them apart: \<open>Transport\<close> is
  \<open>httpx.TransportError\<close> and the transport and ambiguous-response errors of the APEX Load engine,
  \<open>HttpStatus\<close> is \<open>httpx.HTTPStatusError\<close>. Nothing catches \<open>WorkerDied\<close>.
\<close>

datatype analysis_exn =
    Transport string
  | HttpStatus int string
  | SubmissionUncertain string
  | Failed string
  | WorkerDied

text \<open>The scope of a native submission and its durable claim, under the idempotency key.\<close>

record native_scope =
  ns_thread :: string
  ns_attempt :: int
  ns_project :: "string option"
  ns_connection :: string
  ns_run :: pyval
  ns_digest :: string
  ns_key :: string

record native_claim =
  nc_scope :: string
  nc_job :: "string option"

type_synonym claims = "(string, native_claim) odict"

text \<open>A call of the claim service by another worker, who posts when its claim is granted.\<close>

datatype claim_call = OtherClaim string string | OtherReceipt string string string

text \<open>
  \<open>aw_row\<close> and \<open>aw_posting\<close> are the local row and the flag \<open>native_submit_started\<close> of the step;
  \<open>aw_stored\<close> the objects that it hands to the artifact store: the connection, the key and the bytes.
\<close>

record analysis_world =
  aw_claims :: claims
  aw_posts :: "string list"
  aw_left :: nat
  aw_row :: analysis_row
  aw_posting :: bool
  aw_stored :: "(string \<times> string \<times> string) list"

type_synonym 'a act = "(analysis_world, analysis_exn, 'a) eff"

record analysis_services =
  as_cred :: scanner
  as_diagnostic :: "nat \<Rightarrow> pyval \<Rightarrow> string"
  as_time :: "string \<Rightarrow> int option"

record analysis_answers =
  aa_now :: string
  aa_clock :: int
  aa_adapter :: "analysis_exn + unit"
  aa_native :: "analysis_exn + pydict"
  aa_capabilities :: "analysis_exn + capabilities"
  aa_job :: "analysis_exn + analysis_job"
  aa_result :: "analysis_exn + analysis_result"
  aa_store :: "analysis_exn + string"
  aa_persist :: "analysis_exn + unit"
  aa_completed :: string
  aa_closed :: "string option"
  aa_before :: "claim_call list"
  aa_link :: db_link
  aa_between :: "claim_call list"
  aa_link2 :: db_link

definition checked :: "'a res \<Rightarrow> 'a act" where
  "checked r = (case r of Inl e \<Rightarrow> raise (Failed (exn_text e)) | Inr x \<Rightarrow> ret x)"

definition require :: "bool \<Rightarrow> string \<Rightarrow> unit act" where
  "require b m = (if b then ret () else raise (Failed m))"

definition get_row :: "analysis_row act" where
  "get_row w = (Inr (aw_row w), w)"

definition set_row :: "(analysis_row \<Rightarrow> analysis_row) \<Rightarrow> unit act" where
  "set_row f w = (Inr (), w\<lparr>aw_row := f (aw_row w)\<rparr>)"

text \<open>A call of an adapter or a store: the process may die in it.\<close>

definition outside :: "analysis_exn + 'a \<Rightarrow> 'a act" where
  "outside r w = (if aw_left w = 0 then Inl WorkerDied else r, w\<lparr>aw_left := aw_left w - 1\<rparr>)"

text \<open>The request is sent, whatever comes back.\<close>

definition post_native :: "string \<Rightarrow> analysis_exn + 'a \<Rightarrow> 'a act" where
  "post_native key r w =
     (if aw_left w = 0 then Inl WorkerDied else r,
      w\<lparr>aw_posts := aw_posts w @ [key], aw_posting := True, aw_left := aw_left w - 1\<rparr>)"

text \<open>
  \<open>persist_artifact_with_intent\<close>: the bytes are handed to the store, whatever comes back.
\<close>

definition persist_artifact :: "string \<Rightarrow> string \<Rightarrow> string \<Rightarrow> analysis_exn + unit \<Rightarrow> unit act" where
  "persist_artifact store key content r w =
     (if aw_left w = 0 then Inl WorkerDied else r,
      w\<lparr>aw_stored := aw_stored w @ [(store, key, content)], aw_left := aw_left w - 1\<rparr>)"

subsection \<open>Native claims\<close>

definition scope_json :: "native_scope \<Rightarrow> pydict" where
  "scope_json sc =
     [(''thread_id'', PStr (ns_thread sc)), (''phase_attempt'', PInt (ns_attempt sc)),
      (''project_id'', optional_text (ns_project sc)), (''connection_id'', PStr (ns_connection sc)),
      (''native_run_id'', ns_run sc), (''input_digest'', PStr (ns_digest sc)),
      (''idempotency_key'', PStr (ns_key sc))]"

definition scope_valid :: "scanner \<Rightarrow> native_scope \<Rightarrow> bool" where
  "scope_valid cred sc \<longleftrightarrow>
     text_between 1 255 (PStr (ns_thread sc)) \<and> 1 \<le> ns_attempt sc \<and> ns_attempt sc \<le> 1000000
     \<and> optional_between 256 (optional_text (ns_project sc)) \<and> text_between 1 256 (PStr (ns_connection sc))
     \<and> text_between 1 256 (ns_run sc) \<and> lowercase_sha256 (ns_digest sc) \<and> lowercase_sha256 (ns_key sc)
     \<and> \<not> scan cred (PDict (scope_json sc))"

definition scope_digest :: "native_scope \<Rightarrow> string res" where
  "scope_digest sc =
     (case json_dumps False False False (PDict (scope_json sc)) of
        None \<Rightarrow> Inl (TypeError ''scope'') | Some t \<Rightarrow> Inr (sha256_hex (utf8 t)))"

definition queued_ok :: "scanner \<Rightarrow> string \<Rightarrow> bool" where
  "queued_ok cred job \<longleftrightarrow> validated_job cred (PStr job) (PStr ''queued'') PNone \<noteq> None"

text \<open>
  One transaction: insert the claim unless the key has one, then read it. \<open>Inr None\<close> is a new claim.
\<close>

definition claim_native_analysis ::
  "scanner \<Rightarrow> string \<Rightarrow> string \<Rightarrow> claims \<Rightarrow> analysis_exn + string option \<times> claims" where
  "claim_native_analysis cred key scope db =
     (case map_of db key of
        None \<Rightarrow> Inr (None, dset key \<lparr>nc_scope = scope, nc_job = None\<rparr> db)
      | Some c \<Rightarrow>
          if nc_scope c \<noteq> scope then Inl (Failed ''Native analysis submission is bound to different inputs'')
          else (case nc_job c of
            None \<Rightarrow> Inl (SubmissionUncertain ''A prior native RCA submission has no confirmed remote identity'')
          | Some job \<Rightarrow> if queued_ok cred job then Inr (Some job, db) else Inl (Failed ''validation error'')))"

definition record_native_analysis_receipt ::
  "scanner \<Rightarrow> string \<Rightarrow> string \<Rightarrow> string \<Rightarrow> claims \<Rightarrow> analysis_exn + unit \<times> claims" where
  "record_native_analysis_receipt cred key scope job db =
     (if \<not> queued_ok cred job then Inl (Failed ''validation error'')
      else case map_of db key of
        Some c \<Rightarrow>
          if nc_scope c = scope \<and> (nc_job c = None \<or> nc_job c = Some job)
          then Inr ((), dset key (c\<lparr>nc_job := Some job\<rparr>) db)
          else Inl (Failed ''Native analysis receipt conflicts with its durable reservation'')
      | None \<Rightarrow> Inl (Failed ''Native analysis receipt conflicts with its durable reservation''))"

fun others_call :: "scanner \<Rightarrow> claim_call \<Rightarrow> claims \<times> string list \<Rightarrow> claims \<times> string list" where
  "others_call cred (OtherClaim key scope) (db, posts) =
     (case claim_native_analysis cred key scope db of
        Inr (None, db') \<Rightarrow> (db', posts @ [key])
      | _ \<Rightarrow> (db, posts))"
| "others_call cred (OtherReceipt key scope job) (db, posts) =
     (case record_native_analysis_receipt cred key scope job db of
        Inr (u, db') \<Rightarrow> (db', posts) | Inl e \<Rightarrow> (db, posts))"

text \<open>A call of the claim service, after the calls of other workers.\<close>

definition service ::
  "scanner \<Rightarrow> claim_call list \<Rightarrow> db_link \<Rightarrow> (claims \<Rightarrow> analysis_exn + 'a \<times> claims) \<Rightarrow> 'a act" where
  "service cred others link f w =
     (let (db, posts) = fold (others_call cred) others (aw_claims w, aw_posts w);
          db' = (case f db of Inl e \<Rightarrow> db | Inr (x, d) \<Rightarrow> if link = RequestLost then db else d)
      in (if aw_left w = 0 then Inl WorkerDied
          else if link \<noteq> Delivered then Inl (Failed ''Native analysis submission persistence is unavailable'')
          else (case f db of Inl e \<Rightarrow> Inl e | Inr (x, d) \<Rightarrow> Inr x),
          w\<lparr>aw_claims := db', aw_posts := posts, aw_left := aw_left w - 1\<rparr>))"

text \<open>\<open>except Exception\<close>.\<close>

definition rescue :: "'a act \<Rightarrow> (analysis_exn \<Rightarrow> 'a act) \<Rightarrow> 'a act" where
  "rescue m h w =
     (case m w of
        (Inl e, w') \<Rightarrow> if e = WorkerDied then (Inl e, w') else h e w'
      | (Inr x, w') \<Rightarrow> (Inr x, w'))"

subsection \<open>One step\<close>

definition needed :: "pydict \<Rightarrow> string \<Rightarrow> pyval res" where
  "needed d k = (case map_of d k of None \<Rightarrow> Inl (KeyError k) | Some v \<Rightarrow> Inr v)"

text \<open>The native run of an internal RCA, with the checks of its provenance.\<close>

definition native_run_of :: "analysis_cfg \<Rightarrow> analysis_state \<Rightarrow> analysis_row \<Rightarrow> pydict \<Rightarrow> pyval res" where
  "native_run_of cfg st row request =
     rbind (needed request ''evidence'') (\<lambda>v. case v of
       PDict ev \<Rightarrow>
         rbind (needed ev ''native_run_id'') (\<lambda>run.
         let current = execution_evidence st cfg;
             external = (dget (st_execution st) ''external'' = PBool True);
             connection = dget (if external then [] else dict_of (st_handle st)) ''connection_id''
         in if \<not> truthy run then bad ''Internal RCA requires the native APEX Load run identity''
            else if dget ev ''native_connection_id'' \<noteq> PStr (ar_connection row)
            then bad ''Internal RCA requires verified execution connection provenance''
            else if dget current ''native_run_id'' \<noteq> run
              \<or> dget current ''native_connection_id'' \<noteq> dget ev ''native_connection_id''
            then bad ''Internal RCA execution provenance changed after preparation''
            else if truthy connection \<and> connection \<noteq> PStr (ar_connection row)
            then bad ''Internal RCA must use the execution run's connection''
            else Inr run)
     | _ \<Rightarrow> Inl (TypeError ''evidence''))"

definition read_job :: "scanner \<Rightarrow> pydict \<Rightarrow> analysis_job act" where
  "read_job cred raw = (case native_job cred raw of None \<Rightarrow> raise (Failed ''validation error'') | Some j \<Rightarrow> ret j)"

definition job_known :: "string \<Rightarrow> analysis_row \<Rightarrow> analysis_row" where
  "job_known job r = r\<lparr>ar_job := Some job, ar_status := RQueued\<rparr>"

definition native_scope_of ::
  "analysis_cfg \<Rightarrow> analysis_state \<Rightarrow> analysis_row \<Rightarrow> pydict \<Rightarrow> pyval \<Rightarrow> native_scope" where
  "native_scope_of cfg st row request run =
     \<lparr>ns_thread = str_of (dget request ''run_id''), ns_attempt = st_attempt st, ns_project = ac_traffic cfg,
      ns_connection = ar_connection row, ns_run = run, ns_digest = ar_digest row, ns_key = ar_key row\<rparr>"

text \<open>\<open>None\<close>: the claim already names the job and the step is over.\<close>

definition submit_native ::
  "analysis_services \<Rightarrow> analysis_answers \<Rightarrow> pydict \<Rightarrow> native_scope \<Rightarrow> (analysis_job \<times> pydict) option act" where
  "submit_native sv an request sc =
     seq (require (is_str (dget request ''run_id'') \<and> scope_valid (as_cred sv) sc) ''validation error'') (\<lambda>_.
     seq (checked (scope_digest sc)) (\<lambda>digest.
     seq (service (as_cred sv) (aa_before an) (aa_link an)
            (claim_native_analysis (as_cred sv) (ns_key sc) digest)) (\<lambda>claimed. case claimed of
       Some job \<Rightarrow> seq (set_row (job_known job)) (\<lambda>_. ret None)
     | None \<Rightarrow>
         seq (post_native (ns_key sc) (aa_native an)) (\<lambda>raw.
         seq (read_job (as_cred sv) raw) (\<lambda>job.
         seq (rescue (service (as_cred sv) (aa_between an) (aa_link2 an)
                        (record_native_analysis_receipt (as_cred sv) (ns_key sc) digest (aj_id job)))
                     (\<lambda>e. seq (set_row (job_known (aj_id job))) (\<lambda>_. raise e))) (\<lambda>_.
         ret (Some (job, raw))))))))"

definition native_step ::
  "analysis_services \<Rightarrow> analysis_cfg \<Rightarrow> analysis_state \<Rightarrow> analysis_answers \<Rightarrow> analysis_row \<Rightarrow> pydict
   \<Rightarrow> (analysis_job \<times> pydict) option act" where
  "native_step sv cfg st an row request =
     seq (checked (native_run_of cfg st row request)) (\<lambda>run.
     case ar_job row of
       Some job \<Rightarrow> seq (outside (aa_native an)) (\<lambda>raw.
                   seq (read_job (as_cred sv) raw) (\<lambda>j. ret (Some (j, raw))))
     | None \<Rightarrow> submit_native sv an request (native_scope_of cfg st row request run))"

definition connector_step :: "analysis_cfg \<Rightarrow> analysis_answers \<Rightarrow> analysis_row \<Rightarrow> (analysis_job \<times> pydict) option act" where
  "connector_step cfg an row =
     (case ar_job row of
        Some job \<Rightarrow> seq (outside (aa_job an)) (\<lambda>j. ret (Some (j, [])))
      | None \<Rightarrow>
          seq (outside (aa_capabilities an)) (\<lambda>cap.
          seq (require (ca_available cap \<and> ac_engine cfg \<in> set (ca_engines cap))
                 ''Analysis connector does not support this engine'') (\<lambda>_.
          seq (require (''test_summary'' \<in> set (ca_evidence cap))
                 ''Analysis connector does not accept test summary evidence'') (\<lambda>_.
          seq (outside (aa_job an)) (\<lambda>j. ret (Some (j, [])))))))"

definition result_of ::
  "analysis_services \<Rightarrow> analysis_answers \<Rightarrow> analysis_row \<Rightarrow> pydict \<Rightarrow> analysis_result act" where
  "result_of sv an row raw =
     (if ar_tool row = ''internal_rca''
      then (let assessment = dget raw ''assessment'';
                r = \<lparr>ax_summary = ''APEX Load RCA assessment'', ax_tool = ''internal_rca'',
                     ax_version = ''native-v2'', ax_digest = ar_digest row, ax_findings = [dict_of assessment],
                     ax_artifacts = [], ax_warnings = [], ax_gaps = []\<rparr>
            in seq (require (truthy assessment \<and> \<not> truthy (dget raw ''archive_changed''))
                      ''RCA returned no current assessment'') (\<lambda>_.
               seq (require ((\<exists>d. assessment = PDict d) \<and> valid_result (as_cred sv) r) ''validation error'') (\<lambda>_.
               ret r)))
      else outside (aa_result an))"

definition finding_ok :: "analysis_cfg \<Rightarrow> pydict \<Rightarrow> bool" where
  "finding_ok cfg f \<longleftrightarrow>
     dget f ''participant_id'' = PNone \<or> dget f ''participant_id'' \<in> PStr ` set (ac_participants cfg)"

definition analysis_key :: "string \<Rightarrow> string \<Rightarrow> string" where
  "analysis_key thread key = ''analysis/'' @ thread @ ''/'' @ key @ ''.json''"

definition analysis_artifact :: "analysis_answers \<Rightarrow> string \<Rightarrow> string \<Rightarrow> analysis_row \<Rightarrow> analysis_result \<Rightarrow> pydict" where
  "analysis_artifact an thread store row r =
     [(''id'', PStr (''analysis-'' @ ar_key row)), (''kind'', PStr ''analysis''),
      (''name'', PStr (ar_tool row @ '' analysis'')),
      (''uri'', PStr (artifact_uri (analysis_key thread (ar_key row)))),
      (''key'', PStr (analysis_key thread (ar_key row))), (''artifact_connection_id'', PStr store),
      (''media_type'', PStr ''application/json''), (''summary'', PStr (take 2000 (ax_summary r))),
      (''created_at'', PStr (aa_now an))]"

text \<open>\<open>ArtifactRef\<close> of src/apex/domain/pipeline.py.\<close>

definition artifact_valid :: "pydict \<Rightarrow> bool" where
  "artifact_valid d \<longleftrightarrow>
     text_between 1 128 (dget d ''id'') \<and> text_between 1 64 (dget d ''kind'') \<and> text_between 1 512 (dget d ''name'')
     \<and> text_between 1 4096 (dget d ''uri'') \<and> optional_between 1024 (dget d ''key'')
     \<and> optional_between 256 (dget d ''artifact_connection_id'')
     \<and> text_between 1 255 (with_default (PStr ''application/octet-stream'') d ''media_type'')
     \<and> optional_between 4000 (dget d ''summary'')
     \<and> text_between 1 64 (with_default (PStr ''now'') d ''created_at'')"

definition succeeded_row :: "analysis_answers \<Rightarrow> string \<Rightarrow> string \<Rightarrow> analysis_result \<Rightarrow> analysis_row \<Rightarrow> analysis_row" where
  "succeeded_row an preview content r row =
     row\<lparr>ar_status := RSucceeded,
         ar_result := Some \<lparr>rr_preview = take 2000 preview, rr_artifact = ''analysis-'' @ ar_key row,
                            rr_sha = sha256_hex content, rr_summary = take 2000 (ax_summary r),
                            rr_completed = aa_completed an\<rparr>,
         ar_error := None\<rparr>"

text \<open>
  The answer of \<open>persist_artifact_with_intent\<close> is an argument; the reference that it returns is the
  canonical one of the key.
\<close>

definition collect_result ::
  "analysis_services \<Rightarrow> analysis_cfg \<Rightarrow> analysis_answers \<Rightarrow> analysis_row \<Rightarrow> pydict \<Rightarrow> pydict \<Rightarrow> pydict list act" where
  "collect_result sv cfg an row request raw =
     seq (result_of sv an row raw) (\<lambda>r.
     seq (require (ax_tool r = ar_tool row) ''Analysis results belong to a different tool'') (\<lambda>_.
     seq (require (ax_digest r = ar_digest row) ''Analysis results belong to different input evidence'') (\<lambda>_.
     seq (require (list_all (finding_ok cfg) (ax_findings r))
            ''Analysis finding references a system outside this test'') (\<lambda>_.
     seq (checked (case result_content r of None \<Rightarrow> Inl (TypeError ''content'') | Some c \<Rightarrow> Inr c)) (\<lambda>content.
     seq (outside (aa_store an)) (\<lambda>store.
     seq (persist_artifact store (analysis_key (str_of (dget request ''run_id'')) (ar_key row)) content
            (aa_persist an)) (\<lambda>_.
     (let artifact = analysis_artifact an (str_of (dget request ''run_id'')) store row r
      in seq (require (artifact_valid artifact) ''validation error'') (\<lambda>_.
         seq (checked (dumped False (PDict [(''findings'', PList (map PDict (ax_findings r))),
                (''warnings'', text_list (ax_warnings r)), (''gaps'', text_list (ax_gaps r))]))) (\<lambda>preview.
         seq (set_row (succeeded_row an preview content r)) (\<lambda>_. ret [artifact])))))))))))"

definition job_progress :: "job_status \<Rightarrow> row_status" where
  "job_progress s = (if s = JSucceeded then RCollecting else if s = JQueued then RQueued else RRunning)"

definition job_failure :: "analysis_job \<Rightarrow> string" where
  "job_failure j = (case aj_error j of
     Some m \<Rightarrow> if m = [] then ''Analysis '' @ job_status_text (aj_status j) else m
   | None \<Rightarrow> ''Analysis '' @ job_status_text (aj_status j))"

definition settle_job ::
  "analysis_services \<Rightarrow> analysis_cfg \<Rightarrow> analysis_answers \<Rightarrow> analysis_row \<Rightarrow> pydict \<Rightarrow> analysis_job \<Rightarrow> pydict
   \<Rightarrow> pydict list act" where
  "settle_job sv cfg an row request job raw =
     (case ar_job row of
        None \<Rightarrow> seq (set_row (job_known (aj_id job))) (\<lambda>_. ret [])
      | Some known \<Rightarrow>
          if aj_id job \<noteq> known then raise (Failed ''Analysis provider returned a different job identity'')
          else if aj_status job \<in> {JFailed, JCancelled}
          then seq (set_row (\<lambda>r. r\<lparr>ar_terminal := True\<rparr>)) (\<lambda>_. raise (Failed (job_failure job)))
          else seq (set_row (\<lambda>r. r\<lparr>ar_status := job_progress (aj_status job)\<rparr>)) (\<lambda>_.
               if aj_status job = JSucceeded then collect_result sv cfg an row request raw
               else seq (set_row (\<lambda>r. r\<lparr>ar_polls := ar_polls r + 1\<rparr>)) (\<lambda>_. ret [])))"

definition step_body ::
  "analysis_services \<Rightarrow> analysis_cfg \<Rightarrow> string \<Rightarrow> analysis_state \<Rightarrow> analysis_answers \<Rightarrow> pydict list act" where
  "step_body sv cfg thread st an =
     seq get_row (\<lambda>row.
     seq (checked (submission_request cfg thread st row)) (\<lambda>request.
     case ar_started row of
       None \<Rightarrow> seq (set_row (\<lambda>r. r\<lparr>ar_started := Some (aa_now an)\<rparr>)) (\<lambda>_. ret [])
     | Some t \<Rightarrow>
         seq (checked (case as_time sv t of None \<Rightarrow> bad ''Invalid isoformat string'' | Some s \<Rightarrow> Inr s)) (\<lambda>started.
         seq (require (aa_clock an - started \<le> ac_timeout cfg * 1000000) ''Analysis deadline expired'') (\<lambda>_.
         seq (outside (aa_adapter an)) (\<lambda>_.
         seq (if ar_tool row = ''internal_rca'' then native_step sv cfg st an row request
              else connector_step cfg an row) (\<lambda>got.
         case got of
           None \<Rightarrow> ret []
         | Some (job, raw) \<Rightarrow> settle_job sv cfg an row request job raw))))))"

definition transient :: "analysis_exn \<Rightarrow> bool" where
  "transient e =
     (case e of Transport m \<Rightarrow> True | HttpStatus c m \<Rightarrow> c \<in> {408, 429, 500, 502, 503, 504} | _ \<Rightarrow> False)"

definition analysis_error_text :: "analysis_exn \<Rightarrow> string" where
  "analysis_error_text e =
     (case e of Transport m \<Rightarrow> m | HttpStatus c m \<Rightarrow> m | SubmissionUncertain m \<Rightarrow> m | Failed m \<Rightarrow> m | WorkerDied \<Rightarrow> [])"

definition failed_row :: "analysis_services \<Rightarrow> bool \<Rightarrow> analysis_exn \<Rightarrow> analysis_row \<Rightarrow> analysis_row" where
  "failed_row sv posting e r =
     (let d = as_diagnostic sv 4096 (PStr (analysis_error_text e))
      in if (\<exists>m. e = SubmissionUncertain m) \<or> posting \<and> ar_job r = None
         then r\<lparr>ar_uncertain := True, ar_status := RFailed,
                ar_error := Some (take 4096 (''Native RCA submission outcome is unconfirmed. A remote job may exist; retry explicitly starts a new attempt and may create another job. '' @ d))\<rparr>
         else if transient e then r\<lparr>ar_error := Some d, ar_polls := ar_polls r + 1\<rparr>
         else r\<lparr>ar_error := Some d, ar_status := RFailed\<rparr>)"

definition on_failure :: "analysis_services \<Rightarrow> analysis_exn \<Rightarrow> pydict list act" where
  "on_failure sv e w = (Inr [], w\<lparr>aw_row := failed_row sv (aw_posting w) e (aw_row w)\<rparr>)"

text \<open>
  The step works on the first row that has not succeeded. Closing the adapters may fail: then the
  step raises and nothing is checkpointed.
\<close>

definition row_step ::
  "analysis_services \<Rightarrow> analysis_cfg \<Rightarrow> string \<Rightarrow> analysis_state \<Rightarrow> analysis_answers \<Rightarrow> nat
   \<Rightarrow> claims \<times> string list \<Rightarrow> analysis_row \<Rightarrow> (analysis_exn + pydict list) \<times> analysis_world" where
  "row_step sv cfg thread st an left db row =
     rescue (step_body sv cfg thread st an) (on_failure sv)
       \<lparr>aw_claims = fst db, aw_posts = snd db, aw_left = left, aw_row = row, aw_posting = False, aw_stored = []\<rparr>"

definition analysis_step ::
  "analysis_services \<Rightarrow> analysis_cfg \<Rightarrow> string \<Rightarrow> analysis_state \<Rightarrow> analysis_answers \<Rightarrow> nat
   \<Rightarrow> claims \<times> string list
   \<Rightarrow> (analysis_exn + analysis_row list \<times> pydict list) \<times> claims \<times> string list" where
  "analysis_step sv cfg thread st an left db =
     (case dropWhile (\<lambda>r. ar_status r = RSucceeded) (ledger_of st) of
        [] \<Rightarrow> (Inl (Failed ''StopIteration''), db)
      | row # rest \<Rightarrow>
          if ac_selections cfg = None then (Inl (Failed ''AssertionError''), db)
          else (case row_step sv cfg thread st an left db row of
            (Inl e, w) \<Rightarrow> (Inl e, aw_claims w, aw_posts w)
          | (Inr arts, w) \<Rightarrow>
              (case aa_closed an of
                 Some m \<Rightarrow> Inl (Failed m)
               | None \<Rightarrow> Inr (takeWhile (\<lambda>r. ar_status r = RSucceeded) (ledger_of st) @ aw_row w # rest, arts),
               aw_claims w, aw_posts w)))"

text \<open>The objects that a step hands to the artifact store.\<close>

definition step_objects ::
  "analysis_services \<Rightarrow> analysis_cfg \<Rightarrow> string \<Rightarrow> analysis_state \<Rightarrow> analysis_answers \<Rightarrow> nat
   \<Rightarrow> claims \<times> string list \<Rightarrow> (string \<times> string \<times> string) list" where
  "step_objects sv cfg thread st an left db =
     (case dropWhile (\<lambda>r. ar_status r = RSucceeded) (ledger_of st) of
        [] \<Rightarrow> []
      | row # rest \<Rightarrow>
          if ac_selections cfg = None then [] else aw_stored (snd (row_step sv cfg thread st an left db row)))"

end
