(* ===== verification/Analysis_Recovery.thy ===== *)
theory Analysis_Recovery
  imports Analysis_Phase
begin

text \<open>
  The recovery gate of the reporting phase (analysis_recovery of
  src/apex/graphs/pipeline/analysis_phase.py) and the reader of the collected results
  (_load_analysis_report_evidence of phase_subgraph.py), with the histories of a ledger.
\<close>

subsection \<open>Recovery\<close>

definition RECOVERY_ACTIONS :: "string list" where
  "RECOVERY_ACTIONS = [''retry'', ''assign_hitl'', ''abort'']"

record recovery_command =
  rc_goto :: string
  rc_ledger :: "analysis_row list option"
  rc_fields :: pydict
  rc_abort :: bool

text \<open>The node waits for one more decision and shows an error, or leaves.\<close>

datatype recovery = RecoveryWaits pyval | RecoveryGoes recovery_command

text \<open>
  A known job is resumed; only a job that failed at its provider, or a submission whose outcome the
  operator accepts as unknown, starts a new attempt under a new key.
\<close>

definition next_key :: "analysis_row \<Rightarrow> string" where
  "next_key r = sha256_hex (utf8 (ar_key r @ '':'' @ int_text (ar_attempt r + 1)))"

definition retried_row :: "analysis_row \<Rightarrow> analysis_row" where
  "retried_row r =
     (let r' = (if ar_terminal r \<or> ar_uncertain r
                then r\<lparr>ar_attempt := ar_attempt r + 1, ar_key := next_key r,
                       ar_request := map_option (dset ''idempotency_key'' (PStr (next_key r))) (ar_request r),
                       ar_job := None, ar_terminal := False, ar_uncertain := False\<rparr>
                else r)
      in r'\<lparr>ar_status := RPending, ar_started := None, ar_error := None\<rparr>)"

definition retry_first :: "analysis_row list \<Rightarrow> analysis_row list" where
  "retry_first rows =
     (case dropWhile (\<lambda>r. ar_status r \<noteq> RFailed) rows of
        [] \<Rightarrow> rows
      | r # rest \<Rightarrow> takeWhile (\<lambda>r. ar_status r \<noteq> RFailed) rows @ retried_row r # rest)"

definition last_error :: "pydict \<Rightarrow> pyval" where
  "last_error entry =
     (case dget entry ''errors'' of
        PList es \<Rightarrow> if es = [] then dget entry ''reasoning_digest'' else last es
      | _ \<Rightarrow> dget entry ''reasoning_digest'')"

definition recovery_reason :: "analysis_services \<Rightarrow> pydict \<Rightarrow> analysis_row option \<Rightarrow> string" where
  "recovery_reason sv entry row =
     as_diagnostic sv 4096
       (py_or (case row of Some r \<Rightarrow> optional_text (ar_error r) | None \<Rightarrow> last_error entry)
              (PStr ''Report assembly failed''))"

text \<open>A human owner takes the report; a note that is blank is replaced by the reason.\<close>

definition ownership_override :: "gate_services \<Rightarrow> pyval \<Rightarrow> pydict \<Rightarrow> string \<Rightarrow> pydict" where
  "ownership_override gs config decision reason =
     (let said = strip (if is_str (dget decision ''note'') then str_of (dget decision ''note'') else [])
      in [(''owner'', PStr ''hitl''), (''actor'', PStr (resolve_actor (gs_cred gs) (gs_attr gs) config)),
          (''at'', PStr (gs_now gs)), (''reason'', PStr (if said = [] then reason else said))])"

definition revisions :: "pydict \<Rightarrow> int option" where
  "revisions entry =
     (case with_default (PInt 0) entry ''revise_count'' of
        PInt n \<Rightarrow> if 0 \<le> n \<and> n < 10 then Some n else None | _ \<Rightarrow> None)"

definition recovery_turn ::
  "gate_services \<Rightarrow> pyval \<Rightarrow> analysis_state \<Rightarrow> analysis_row option \<Rightarrow> string \<Rightarrow> pyval
   \<Rightarrow> string + recovery_command" where
  "recovery_turn gs config st row reason v =
     (let decision = parse_gate_decision (gs_limits gs) (gs_cred gs) (gs_edit_ok gs) v RECOVERY_ACTIONS;
          action = dget decision ''action'';
          go = \<lparr>rc_goto = [], rc_ledger = None, rc_fields = [], rc_abort = False\<rparr>
      in if action = PStr ''retry''
         then (case row of
           Some r \<Rightarrow> Inr (go\<lparr>rc_goto := ''analysis_step'', rc_ledger := Some (retry_first (ledger_of st))\<rparr>)
         | None \<Rightarrow>
             (case revisions (st_entry st) of
                None \<Rightarrow> Inl ''Report retry limit reached; assign HITL or abort''
              | Some n \<Rightarrow> Inr (go\<lparr>rc_goto := ''report_agent'',
                             rc_fields := [(''status'', PStr ''running''), (''report_failure'', PBool False),
                                           (''revise_count'', PInt (n + 1))]\<rparr>)))
         else if action = PStr ''assign_hitl''
         then Inr (go\<lparr>rc_goto := ''open_human_task'',
                rc_fields := [(''executor'', PStr ''hitl''), (''report_failure'', PBool False),
                              (''ownership_override'', PDict (ownership_override gs config decision reason))]\<rparr>)
         else if action = PStr ''abort''
         then Inr (go\<lparr>rc_goto := ''finalize'', rc_fields := [(''status'', PStr ''aborted'')], rc_abort := True\<rparr>)
         else Inl (str_of (dget decision ''error'')))"

fun recovery_loop :: "(pyval \<Rightarrow> string + recovery_command) \<Rightarrow> string \<Rightarrow> pyval list \<Rightarrow> recovery" where
  "recovery_loop body err [] = RecoveryWaits (PStr err)"
| "recovery_loop body err (v # vs) =
     (case body v of Inr c \<Rightarrow> RecoveryGoes c | Inl m \<Rightarrow> recovery_loop body m vs)"

definition recoverable_report :: "analysis_state \<Rightarrow> bool" where
  "recoverable_report st \<longleftrightarrow>
     dget (st_entry st) ''report_failure'' = PBool True \<and> dget (st_entry st) ''status'' = PStr ''running''
     \<and> (\<forall>r \<in> set (ledger_of st). ar_status r = RSucceeded)"

definition analysis_recovery ::
  "analysis_services \<Rightarrow> gate_services \<Rightarrow> pyval \<Rightarrow> analysis_state \<Rightarrow> pyval list \<Rightarrow> recovery res" where
  "analysis_recovery sv gs config st decisions =
     (let row = find (\<lambda>r. ar_status r = RFailed) (ledger_of st);
          reason = recovery_reason sv (st_entry st) row
      in if row = None \<and> \<not> recoverable_report st
         then bad ''Reporting recovery requires failed report assembly or analysis''
         else Inr (recovery_loop (recovery_turn gs config st row reason) reason decisions))"

subsection \<open>Reading the results\<close>

text \<open>
  \<open>fetch\<close> resolves a connection of artifacts and reads a key: the connection it resolved and the
  bytes; \<open>parse\<close> is \<open>AnalysisResult.model_validate_json\<close>.
\<close>

definition evidence_entry :: "analysis_row \<Rightarrow> string \<Rightarrow> analysis_result \<Rightarrow> pydict" where
  "evidence_entry row artifact r =
     [(''connection_id'', PStr (ar_connection row)), (''artifact_id'', PStr artifact),
      (''result'', PDict (result_json r))]"

definition recorded_artifact ::
  "string \<Rightarrow> pydict list \<Rightarrow> string list \<Rightarrow> analysis_row \<Rightarrow> (string \<times> string \<times> string) res" where
  "recorded_artifact thread artifacts ids row =
     (let wanted = optional_text (map_option rr_artifact (ar_result row))
      in case filter (\<lambda>a. dget a ''id'' = wanted) artifacts of
        [a] \<Rightarrow>
          if wanted \<notin> PStr ` set ids then bad ''Analysis result is missing its recorded run artifact''
          else if \<not> artifact_valid a then bad ''validation error''
          else if \<not> lowercase_sha256 (ar_key row) \<or> dget a ''id'' \<noteq> PStr (''analysis-'' @ ar_key row)
            \<or> dget a ''kind'' \<noteq> PStr ''analysis''
            \<or> dget a ''key'' \<noteq> PStr (analysis_key thread (ar_key row))
            \<or> \<not> truthy (dget a ''artifact_connection_id'')
          then bad ''Analysis artifact is not bound to this run and selection''
          else Inr (str_of (dget a ''id''), str_of (dget a ''key''), str_of (dget a ''artifact_connection_id''))
      | _ \<Rightarrow> bad ''Analysis result is missing its recorded run artifact'')"

definition report_row ::
  "string \<Rightarrow> pydict list \<Rightarrow> string list \<Rightarrow> (string \<Rightarrow> string \<Rightarrow> (string \<times> string) res)
   \<Rightarrow> (string \<Rightarrow> analysis_result option) \<Rightarrow> analysis_row \<Rightarrow> pydict res" where
  "report_row thread artifacts ids fetch parse row =
     (if ar_status row \<noteq> RSucceeded then bad ''Every selected analysis tool must succeed before report assembly''
      else rbind (recorded_artifact thread artifacts ids row) (\<lambda>(artifact, key, connection).
      rbind (fetch connection key) (\<lambda>(resolved, content).
      if resolved \<noteq> connection then bad ''Analysis artifact connection affinity changed''
      else if 256000 < length content then bad ''Analysis result artifact exceeds its contract byte limit''
      else if \<exists>rr. ar_result row = Some rr \<and> sha256_hex content \<noteq> rr_sha rr
      then bad ''Analysis result artifact changed after collection''
      else (case parse content of
        None \<Rightarrow> bad ''validation error''
      | Some r \<Rightarrow>
          if ax_tool r \<noteq> ar_tool row \<or> ax_digest r \<noteq> ar_digest row
          then bad ''Analysis result artifact belongs to different tool or evidence''
          else Inr (evidence_entry row artifact r)))))"

definition load_report_evidence ::
  "analysis_cfg \<Rightarrow> string \<Rightarrow> analysis_state \<Rightarrow> pydict list \<Rightarrow> string list
   \<Rightarrow> (string \<Rightarrow> string \<Rightarrow> (string \<times> string) res) \<Rightarrow> (string \<Rightarrow> analysis_result option) \<Rightarrow> pydict list res" where
  "load_report_evidence cfg thread st artifacts ids fetch parse =
     (let rows = ledger_of st;
          selections = (case ac_selections cfg of None \<Rightarrow> [] | Some ss \<Rightarrow> ss);
          actual = map (\<lambda>r. (ar_tool r, ar_connection r)) rows
      in if length rows \<noteq> length selections \<or> rows = []
         then bad ''Analysis results do not match the selected tools''
         else if set actual \<noteq> set (map (\<lambda>s. (tool s, connection_id s)) selections) \<or> \<not> distinct actual
         then bad ''Analysis results do not match the selected tools''
         else rmap (report_row thread artifacts ids fetch parse) rows)"

subsection \<open>The histories of a ledger\<close>

text \<open>
  The checkpoints of one attempt: prepare, then steps to which the router sends and recoveries in
  any order, each with any answers of the outside world. A step that raises leaves the checkpoint
  as it is.
\<close>

definition with_ledger :: "analysis_row list \<Rightarrow> analysis_state \<Rightarrow> analysis_state" where
  "with_ledger rows st = st\<lparr>st_ledger := Some rows\<rparr>"

inductive analysis_move ::
  "analysis_services \<Rightarrow> analysis_cfg \<Rightarrow> string \<Rightarrow> analysis_row list \<Rightarrow> analysis_row list \<Rightarrow> bool"
  for sv cfg thread where
  step_move: "ledger_of st = rows \<Longrightarrow> route_analysis st = ''analysis_step''
     \<Longrightarrow> analysis_step sv cfg thread st an left db = (Inr (rows', arts), db')
     \<Longrightarrow> analysis_move sv cfg thread rows rows'"
| retry_move: "ledger_of st = rows \<Longrightarrow> analysis_recovery sv gs config st ds = Inr (RecoveryGoes c)
     \<Longrightarrow> rc_ledger c = Some rows' \<Longrightarrow> analysis_move sv cfg thread rows rows'"

inductive_cases analysis_moveE: "analysis_move sv cfg thread rows rows'"

inductive analysis_ledger ::
  "analysis_services \<Rightarrow> analysis_cfg \<Rightarrow> string \<Rightarrow> analysis_row list \<Rightarrow> bool"
  for sv cfg thread where
  ledger_prepared: "prepare_analysis cfg thread st = Inr (Some rows) \<Longrightarrow> analysis_ledger sv cfg thread rows"
| ledger_moved: "analysis_ledger sv cfg thread rows \<Longrightarrow> analysis_move sv cfg thread rows rows'
     \<Longrightarrow> analysis_ledger sv cfg thread rows'"

text \<open>The world that every worker shares: the claims and the native requests posted.\<close>

record analysis_run =
  an_cfg :: analysis_cfg
  an_thread :: string
  an_state :: analysis_state
  an_answers :: analysis_answers
  an_left :: nat

definition run_analysis :: "analysis_services \<Rightarrow> analysis_run \<Rightarrow> claims \<times> string list \<Rightarrow> claims \<times> string list" where
  "run_analysis sv x db =
     snd (analysis_step sv (an_cfg x) (an_thread x) (an_state x) (an_answers x) (an_left x) db)"

end
