(* ===== verification/Analysis_Safety.thy ===== *)
theory Analysis_Safety
  imports Analysis_Recovery
begin

text \<open>
  Facts of the analysis steps: a native submission is posted at most once under a key; the
  invariant of a ledger and how its rows move; and the report reads exactly the results that the
  steps collected.
\<close>

subsection \<open>Weakest preconditions\<close>

lemma wp_outside [wp_rules]:
  "wp (outside r) Q E w =
    (let w' = w\<lparr>aw_left := aw_left w - 1\<rparr>
     in if aw_left w = 0 then E WorkerDied w' else case r of Inl e \<Rightarrow> E e w' | Inr x \<Rightarrow> Q x w')"
  by (simp add: wp_def outside_def Let_def split: sum.split)

lemma wp_persist [wp_rules]:
  "wp (persist_artifact store key content r) Q E w =
    (let w' = w\<lparr>aw_stored := aw_stored w @ [(store, key, content)], aw_left := aw_left w - 1\<rparr>
     in if aw_left w = 0 then E WorkerDied w' else case r of Inl e \<Rightarrow> E e w' | Inr x \<Rightarrow> Q x w')"
  by (simp add: wp_def persist_artifact_def Let_def split: sum.split)

lemma wp_checked [wp_rules]:
  "wp (checked r) Q E w = (case r of Inl e \<Rightarrow> E (Failed (exn_text e)) w | Inr x \<Rightarrow> Q x w)"
  by (simp add: checked_def wp_ret wp_raise split: sum.split)

lemma wp_require [wp_rules]: "wp (require b m) Q E w = (if b then Q () w else E (Failed m) w)"
  by (simp add: require_def wp_ret wp_raise)

lemma wp_get_row [wp_rules]: "wp get_row Q E w = Q (aw_row w) w"
  by (simp add: wp_def get_row_def)

lemma wp_set_row [wp_rules]: "wp (set_row f) Q E w = Q () (w\<lparr>aw_row := f (aw_row w)\<rparr>)"
  by (simp add: wp_def set_row_def)

lemma wp_rescue [wp_rules]:
  "wp (rescue m h) Q E w = wp m Q (\<lambda>e. if e = WorkerDied then E e else wp (h e) Q E) w"
  by (simp add: wp_def rescue_def split: prod.split sum.split)

lemma wp_on_failure [wp_rules]:
  "wp (on_failure sv e) Q E w = Q [] (w\<lparr>aw_row := failed_row sv (aw_posting w) e (aw_row w)\<rparr>)"
  by (simp add: wp_def on_failure_def)

lemma wp_read_job [wp_rules]:
  "wp (read_job cred raw) Q E w =
    (case native_job cred raw of None \<Rightarrow> E (Failed ''validation error'') w | Some j \<Rightarrow> Q j w)"
  by (simp add: read_job_def wp_ret wp_raise split: option.split)

subsection \<open>Native submissions\<close>

text \<open>Every key that was posted has a claim, and no key was posted twice.\<close>

definition posts_claimed :: "claims \<times> string list \<Rightarrow> bool" where
  "posts_claimed db \<longleftrightarrow> distinct (snd db) \<and> set (snd db) \<subseteq> dom (map_of (fst db))"

lemma claim_Inr:
  "claim_native_analysis cred key scope db = Inr (x, db') \<Longrightarrow>
    (x = None \<and> map_of db key = None \<and> db' = dset key \<lparr>nc_scope = scope, nc_job = None\<rparr> db)
    \<or> (x \<noteq> None \<and> db' = db)"
  by (auto simp: claim_native_analysis_def split: if_splits option.splits) (metis option.distinct(1))

lemma receipt_Inr:
  "record_native_analysis_receipt cred key scope job db = Inr (x, db') \<Longrightarrow>
    \<exists>c. map_of db key \<noteq> None \<and> db' = dset key c db"
  by (auto simp: record_native_analysis_receipt_def split: option.splits if_splits)

lemma claim_keeps:
  "posts_claimed (db, posts) \<Longrightarrow> claim_native_analysis cred key scope db = Inr (x, db')
    \<Longrightarrow> posts_claimed (db', posts) \<and> (x = None \<longrightarrow> posts_claimed (db', posts @ [key]))"
  by (auto dest!: claim_Inr simp: posts_claimed_def map_of_dset split: if_splits)

lemma receipt_keeps:
  "posts_claimed (db, posts) \<Longrightarrow> record_native_analysis_receipt cred key scope job db = Inr (x, db')
    \<Longrightarrow> posts_claimed (db', posts)"
  by (auto dest!: receipt_Inr simp: posts_claimed_def map_of_dset)

lemma claim_calls_keep: "posts_claimed db \<Longrightarrow> posts_claimed (others_call cred c db)"
  by (cases "(cred, c, db)" rule: others_call.cases)
    (auto split: sum.splits option.splits dest: claim_keeps receipt_keeps)

lemma fold_others_keep: "posts_claimed db \<Longrightarrow> posts_claimed (fold (others_call cred) cs db)"
  by (induction cs arbitrary: db) (simp_all add: claim_calls_keep)

abbreviation shared :: "analysis_world \<Rightarrow> claims \<times> string list" where
  "shared w \<equiv> (aw_claims w, aw_posts w)"

definition posts_kept :: "'a act \<Rightarrow> bool" where
  "posts_kept m \<longleftrightarrow> (\<forall>w. posts_claimed (shared w) \<longrightarrow>
     wp m (\<lambda>_ w'. posts_claimed (shared w')) (\<lambda>_ w'. posts_claimed (shared w')) w)"

lemma posts_kept_seq:
  assumes "posts_kept m" "\<And>x. posts_kept (f x)"
  shows "posts_kept (seq m f)"
  unfolding posts_kept_def wp_seq
proof (intro allI impI)
  fix w assume "posts_claimed (shared w)"
  with assms(1) have "wp m (\<lambda>_ w'. posts_claimed (shared w')) (\<lambda>_ w'. posts_claimed (shared w')) w"
    by (simp add: posts_kept_def)
  then show "wp m (\<lambda>x. wp (f x) (\<lambda>_ w'. posts_claimed (shared w')) (\<lambda>_ w'. posts_claimed (shared w')))
      (\<lambda>_ w'. posts_claimed (shared w')) w"
    by (rule wp_conseq) (use assms(2) in \<open>auto simp: posts_kept_def\<close>)
qed

lemma posts_kept_rescue:
  assumes "posts_kept m" "\<And>e. posts_kept (h e)"
  shows "posts_kept (rescue m h)"
  unfolding posts_kept_def wp_rescue
proof (intro allI impI)
  fix w assume "posts_claimed (shared w)"
  with assms(1) have "wp m (\<lambda>_ w'. posts_claimed (shared w')) (\<lambda>_ w'. posts_claimed (shared w')) w"
    by (simp add: posts_kept_def)
  then show "wp m (\<lambda>_ w'. posts_claimed (shared w'))
      (\<lambda>e. if e = WorkerDied then \<lambda>w'. posts_claimed (shared w')
           else wp (h e) (\<lambda>_ w'. posts_claimed (shared w')) (\<lambda>_ w'. posts_claimed (shared w'))) w"
    by (rule wp_conseq) (use assms(2) in \<open>auto simp: posts_kept_def\<close>)
qed

lemma posts_kept_simple:
  "posts_kept (ret x)" "posts_kept (raise e)" "posts_kept (checked r)" "posts_kept (require b m)"
  "posts_kept get_row" "posts_kept (set_row f)" "posts_kept (outside a)" "posts_kept (read_job cred raw)"
  "posts_kept (on_failure sv e)" "posts_kept (persist_artifact store key content p)"
  by (auto simp: posts_kept_def wp_rules Let_def split: sum.split option.split)

lemma posts_kept_cases:
  "(\<And>x. posts_kept (f x)) \<Longrightarrow> posts_kept (case p of Inl e \<Rightarrow> raise (g e) | Inr x \<Rightarrow> f x)"
  "posts_kept m \<Longrightarrow> (\<And>x. posts_kept (k x)) \<Longrightarrow> posts_kept (case q of None \<Rightarrow> m | Some x \<Rightarrow> k x)"
  "(\<And>x y. posts_kept (c x y)) \<Longrightarrow> posts_kept (case z of (x, y) \<Rightarrow> c x y)"
  "posts_kept m \<Longrightarrow> posts_kept n \<Longrightarrow> posts_kept (if b then m else n)"
  by (simp_all add: posts_kept_simple split: sum.split option.split prod.split)

lemmas posts_kept_rules = posts_kept_seq posts_kept_rescue posts_kept_simple posts_kept_cases

lemma service_shared:
  "wp (service cred others link f) Q E w =
    (let (db, posts) = fold (others_call cred) others (aw_claims w, aw_posts w);
         db' = (case f db of Inl e \<Rightarrow> db | Inr (x, d) \<Rightarrow> if link = RequestLost then db else d);
         w' = w\<lparr>aw_claims := db', aw_posts := posts, aw_left := aw_left w - 1\<rparr>
     in if aw_left w = 0 then E WorkerDied w'
        else if link \<noteq> Delivered then E (Failed ''Native analysis submission persistence is unavailable'') w'
        else (case f db of Inl e \<Rightarrow> E e w' | Inr (x, d) \<Rightarrow> Q x w'))"
  by (simp add: wp_def service_def Let_def split: prod.split sum.split)

lemma posts_kept_service:
  assumes "\<And>db posts x db'. posts_claimed (db, posts) \<Longrightarrow> f db = Inr (x, db') \<Longrightarrow> posts_claimed (db', posts)"
  shows "posts_kept (service cred others link f)"
  unfolding posts_kept_def
proof (intro allI impI)
  fix w assume "posts_claimed (shared w)"
  then obtain db posts where "fold (others_call cred) others (shared w) = (db, posts)" "posts_claimed (db, posts)"
    by (metis fold_others_keep surj_pair)
  then show "wp (service cred others link f) (\<lambda>_ w'. posts_claimed (shared w'))
      (\<lambda>_ w'. posts_claimed (shared w')) w"
    using assms by (auto simp: service_shared Let_def split: prod.split sum.split)
qed

text \<open>A new claim leaves its key free to be posted.\<close>

lemma claim_then_post:
  assumes "\<And>raw. posts_kept (g raw)" "\<And>job. posts_kept (h job)"
  shows "posts_kept (seq (service cred others link (claim_native_analysis cred key scope))
           (\<lambda>claimed. case claimed of Some job \<Rightarrow> h job | None \<Rightarrow> seq (post_native key r) g))"
  unfolding posts_kept_def
proof (intro allI impI)
  fix w assume "posts_claimed (shared w)"
  then obtain db posts where start: "fold (others_call cred) others (shared w) = (db, posts)"
    "posts_claimed (db, posts)"
    by (metis fold_others_keep surj_pair)
  have posted: "posts_claimed (db', posts @ [key])"
    if "claim_native_analysis cred key scope db = Inr (None, db')" for db'
    using claim_keeps [OF start(2) that] by simp
  have post: "wp (seq (post_native key r) g) (\<lambda>_ w'. posts_claimed (shared w')) (\<lambda>_ w'. posts_claimed (shared w')) v"
    if "posts_claimed (aw_claims v, aw_posts v @ [key])" for v
    using that assms(1) by (auto simp: wp_def seq_def post_native_def posts_kept_def split: sum.splits prod.splits)
  show "wp (seq (service cred others link (claim_native_analysis cred key scope))
          (\<lambda>claimed. case claimed of Some job \<Rightarrow> h job | None \<Rightarrow> seq (post_native key r) g))
          (\<lambda>_ w'. posts_claimed (shared w')) (\<lambda>_ w'. posts_claimed (shared w')) w"
    using start assms(2)
    by (auto simp: wp_seq service_shared Let_def posts_kept_def dest: claim_keeps
        intro!: post [unfolded wp_seq] posted split: prod.split sum.split option.split)
qed

lemma step_keeps_posts: "posts_kept (step_body sv cfg thread st an)"
  unfolding step_body_def native_step_def submit_native_def connector_step_def settle_job_def
    collect_result_def result_of_def Let_def
  by (intro posts_kept_rules claim_then_post posts_kept_service | erule (1) receipt_keeps)+

lemma body_keeps_posts:
  assumes "posts_kept m" "posts_claimed (shared w)"
  shows "posts_claimed (shared (snd (m w)))"
  using assms by (cases "m w") (auto simp: posts_kept_def wp_def split: sum.splits)

lemma run_keeps_posts:
  assumes "posts_claimed db"
  shows "posts_claimed (run_analysis sv x db)"
proof (cases "dropWhile (\<lambda>r. ar_status r = RSucceeded) (ledger_of (an_state x)) = [] \<or> ac_selections (an_cfg x) = None")
  case True
  then show ?thesis
    using assms by (auto simp: run_analysis_def analysis_step_def simp del: dropWhile_eq_Nil_conv split: list.split)
next
  case False
  then obtain row rest where row: "dropWhile (\<lambda>r. ar_status r = RSucceeded) (ledger_of (an_state x)) = row # rest"
    "ac_selections (an_cfg x) \<noteq> None"
    by (meson neq_Nil_conv)
  let ?m = "rescue (step_body sv (an_cfg x) (an_thread x) (an_state x) (an_answers x)) (on_failure sv)"
  let ?w = "\<lparr>aw_claims = fst db, aw_posts = snd db, aw_left = an_left x, aw_row = row, aw_posting = False,
    aw_stored = []\<rparr>"
  have "posts_kept ?m"
    by (intro posts_kept_rules step_keeps_posts)
  then have "posts_claimed (shared (snd (?m ?w)))"
    by (rule body_keeps_posts) (simp add: assms)
  then show ?thesis
    using row by (auto simp: run_analysis_def analysis_step_def row_step_def split: prod.split sum.split)
qed

text \<open>
  C36. Whatever runs of the analysis step the workers make, with any states, lost checkpoints, lost
  replies of the claim service and deaths of the process at any effect, a native submission is
  posted at most once under an idempotency key, and every posted key has its durable claim.
\<close>

theorem native_posted_once:
  "distinct (snd (fold (run_analysis sv) xs ([], [])))
   \<and> set (snd (fold (run_analysis sv) xs ([], []))) \<subseteq> dom (map_of (fst (fold (run_analysis sv) xs ([], []))))"
proof -
  have "posts_claimed (fold (run_analysis sv) xs db)" if "posts_claimed db" for db
    using that by (induction xs arbitrary: db) (simp_all add: run_keeps_posts)
  from this [of "([], [])"] show ?thesis
    by (simp add: posts_claimed_def)
qed

subsection \<open>The rows of a ledger\<close>

text \<open>The claim a row makes about its own submission and result.\<close>

definition ledger_row_ok :: "analysis_row \<Rightarrow> bool" where
  "ledger_row_ok r \<longleftrightarrow>
     lowercase_sha256 (ar_key r) \<and> 1 \<le> ar_attempt r \<and> ar_request r = None
     \<and> (ar_status r \<in> {RQueued, RRunning, RCollecting, RSucceeded} \<longrightarrow> ar_job r \<noteq> None)
     \<and> (ar_status r = RSucceeded \<longleftrightarrow> ar_result r \<noteq> None)
     \<and> (\<forall>rr. ar_result r = Some rr \<longrightarrow> rr_artifact rr = ''analysis-'' @ ar_key r)
     \<and> (ar_status r = RFailed \<longrightarrow> ar_error r \<noteq> None)
     \<and> (ar_terminal r \<or> ar_uncertain r \<longrightarrow> ar_status r = RFailed)
     \<and> (ar_terminal r \<longrightarrow> ar_job r \<noteq> None)"

text \<open>
  How a row moves: a row that has succeeded stays as it is; under the same key the job that is
  known stays the same; a new key comes with a new attempt of a row that failed at its provider or
  whose submission is uncertain.
\<close>

definition ledger_row_le :: "analysis_row \<Rightarrow> analysis_row \<Rightarrow> bool" where
  "ledger_row_le r r' \<longleftrightarrow>
     ar_tool r' = ar_tool r \<and> ar_connection r' = ar_connection r \<and> ar_digest r' = ar_digest r
     \<and> (ar_status r = RSucceeded \<longrightarrow> r' = r)
     \<and> (ar_attempt r' = ar_attempt r \<and> ar_key r' = ar_key r \<and> (ar_job r = None \<or> ar_job r' = ar_job r)
        \<or> (ar_terminal r \<or> ar_uncertain r) \<and> ar_attempt r' = ar_attempt r + 1 \<and> ar_key r' = next_key r
          \<and> ar_job r' = None)"

text \<open>A row in a step that has not yet failed: what the handler relies on.\<close>

definition row_live :: "analysis_row \<Rightarrow> analysis_row \<Rightarrow> bool" where
  "row_live r0 r \<longleftrightarrow>
     ar_tool r = ar_tool r0 \<and> ar_connection r = ar_connection r0 \<and> ar_digest r = ar_digest r0
     \<and> ar_attempt r = ar_attempt r0 \<and> ar_key r = ar_key r0 \<and> (ar_job r0 = None \<or> ar_job r = ar_job r0)
     \<and> ar_request r = ar_request r0 \<and> ar_status r \<notin> {RSucceeded, RFailed} \<and> ar_result r = None \<and> \<not> ar_uncertain r
     \<and> (ar_status r \<noteq> RPending \<longrightarrow> ar_job r \<noteq> None) \<and> (ar_terminal r \<longrightarrow> ar_job r \<noteq> None)"

definition row_open :: "analysis_row \<Rightarrow> analysis_row \<Rightarrow> bool" where
  "row_open r0 r \<longleftrightarrow> row_live r0 r \<and> \<not> ar_terminal r"

text \<open>In the middle of a step: the row is open, and nothing was handed to the artifact store.\<close>

definition step_open :: "analysis_row \<Rightarrow> analysis_world \<Rightarrow> bool" where
  "step_open r0 w \<longleftrightarrow> row_open r0 (aw_row w) \<and> aw_stored w = []"

definition body_ends :: "analysis_row \<Rightarrow> 'a act \<Rightarrow> ('a \<Rightarrow> analysis_world \<Rightarrow> bool) \<Rightarrow> bool" where
  "body_ends r0 m Q \<longleftrightarrow> (\<forall>w. step_open r0 w \<longrightarrow>
     wp m Q (\<lambda>e w'. row_live r0 (aw_row w') \<and> (ar_terminal (aw_row w') \<longrightarrow> (\<exists>m. e = Failed m))) w)"

abbreviation stays_open :: "analysis_row \<Rightarrow> 'a act \<Rightarrow> bool" where
  "stays_open r0 m \<equiv> body_ends r0 m (\<lambda>_. step_open r0)"

text \<open>
  The result that a step collects: the one of the connector, or for the native tool the assessment
  of its answer as the only finding.
\<close>

definition result_from :: "analysis_answers \<Rightarrow> analysis_row \<Rightarrow> analysis_result \<Rightarrow> bool" where
  "result_from an r0 x \<longleftrightarrow>
     (if ar_tool r0 = ''internal_rca''
      then \<exists>raw d. aa_native an = Inr raw \<and> dget raw ''assessment'' = PDict d
        \<and> x = \<lparr>ax_summary = ''APEX Load RCA assessment'', ax_tool = ''internal_rca'', ax_version = ''native-v2'',
               ax_digest = ar_digest r0, ax_findings = [d], ax_artifacts = [], ax_warnings = [], ax_gaps = []\<rparr>
      else aa_result an = Inr x)"

definition result_ok :: "analysis_services \<Rightarrow> analysis_answers \<Rightarrow> analysis_row \<Rightarrow> analysis_result \<Rightarrow> bool" where
  "result_ok sv an r0 x \<longleftrightarrow> result_from an r0 x \<and> (ar_tool r0 = ''internal_rca'' \<longrightarrow> valid_result (as_cred sv) x)"

definition row_collected ::
  "analysis_services \<Rightarrow> analysis_cfg \<Rightarrow> analysis_answers \<Rightarrow> string \<Rightarrow> analysis_row \<Rightarrow> pydict list \<Rightarrow> analysis_world
   \<Rightarrow> analysis_result \<Rightarrow> string \<Rightarrow> string \<Rightarrow> bool" where
  "row_collected sv cfg an run r0 arts w x store content \<longleftrightarrow>
     (\<exists>r1 preview. row_open r0 r1 \<and> aw_row w = succeeded_row an preview content x r1)
     \<and> ar_job r0 \<noteq> None \<and> arts = [analysis_artifact an run store r0 x]
     \<and> artifact_valid (analysis_artifact an run store r0 x) \<and> result_ok sv an r0 x
     \<and> ax_tool x = ar_tool r0 \<and> ax_digest x = ar_digest r0 \<and> list_all (finding_ok cfg) (ax_findings x)
     \<and> result_content x = Some content \<and> aa_store an = Inr store
     \<and> aw_stored w = [(store, analysis_key run (ar_key r0), content)]"

definition row_done ::
  "analysis_services \<Rightarrow> analysis_cfg \<Rightarrow> analysis_answers \<Rightarrow> (string \<Rightarrow> bool) \<Rightarrow> analysis_row \<Rightarrow> pydict list
   \<Rightarrow> analysis_world \<Rightarrow> bool" where
  "row_done sv cfg an named r0 arts w \<longleftrightarrow>
     arts = [] \<and> row_open r0 (aw_row w)
     \<or> (\<exists>run x store content. named run \<and> row_collected sv cfg an run r0 arts w x store content)"

lemmas row_state_defs = row_open_def row_live_def

lemma body_ends_knows:
  assumes "body_ends r0 m (\<lambda>x w. step_open r0 w \<and> P x)" "\<And>x. P x \<Longrightarrow> body_ends r0 (f x) Q"
  shows "body_ends r0 (seq m f) Q"
  unfolding body_ends_def wp_seq
proof (intro allI impI)
  fix w assume "step_open r0 w"
  with assms(1) have "wp m (\<lambda>x w'. step_open r0 w' \<and> P x)
     (\<lambda>e w'. row_live r0 (aw_row w') \<and> (ar_terminal (aw_row w') \<longrightarrow> (\<exists>m. e = Failed m))) w"
    by (simp add: body_ends_def)
  then show "wp m (\<lambda>x. wp (f x) Q
       (\<lambda>e w'. row_live r0 (aw_row w') \<and> (ar_terminal (aw_row w') \<longrightarrow> (\<exists>m. e = Failed m))))
     (\<lambda>e w'. row_live r0 (aw_row w') \<and> (ar_terminal (aw_row w') \<longrightarrow> (\<exists>m. e = Failed m))) w"
    by (rule wp_conseq) (use assms(2) in \<open>simp_all add: body_ends_def\<close>)
qed

lemma body_ends_seq:
  assumes "stays_open r0 m" "\<And>x. body_ends r0 (f x) Q"
  shows "body_ends r0 (seq m f) Q"
  by (rule body_ends_knows [where P = "\<lambda>_. True"]) (use assms in simp_all)

lemma knows_outside: "body_ends r0 (outside a) (\<lambda>x w. step_open r0 w \<and> a = Inr x)"
  by (auto simp: body_ends_def wp_outside row_open_def step_open_def Let_def split: sum.split)

lemma knows_checked: "body_ends r0 (checked a) (\<lambda>x w. step_open r0 w \<and> a = Inr x)"
  by (auto simp: body_ends_def wp_checked row_open_def step_open_def split: sum.split)

lemma knows_require: "body_ends r0 (require b m) (\<lambda>x w. step_open r0 w \<and> b)"
  by (auto simp: body_ends_def wp_require row_open_def step_open_def)

lemma knows_post: "body_ends r0 (post_native key a) (\<lambda>x w. step_open r0 w \<and> a = Inr x)"
  by (auto simp: body_ends_def wp_def post_native_def row_open_def step_open_def split: sum.split)

lemmas body_knows = body_ends_knows [OF knows_outside] body_ends_knows [OF knows_checked]
  body_ends_knows [OF knows_require] body_ends_knows [OF knows_post]

lemma stays_open_simple:
  "stays_open r0 (outside a)" "stays_open r0 (checked b)" "stays_open r0 (require c m)"
  "stays_open r0 (service cred others link f)" "stays_open r0 (post_native key r)"
  "stays_open r0 (read_job cred raw)" "stays_open r0 get_row"
  by (auto simp: body_ends_def wp_rules service_shared wp_def [of "post_native key r"] post_native_def
      row_open_def step_open_def Let_def split: sum.split prod.split option.split)

lemma body_ends_ret: "(\<And>w. step_open r0 w \<Longrightarrow> Q x w) \<Longrightarrow> body_ends r0 (ret x) Q"
  by (simp add: body_ends_def wp_ret)

lemma body_ends_raise: "body_ends r0 (raise e) Q"
  by (simp add: body_ends_def wp_raise row_open_def step_open_def)

lemma stays_open_set: "(\<And>r. row_open r0 r \<Longrightarrow> row_open r0 (f r)) \<Longrightarrow> stays_open r0 (set_row f)"
  by (simp add: body_ends_def wp_set_row step_open_def)

lemma body_ends_option:
  "(q = None \<Longrightarrow> body_ends r0 m Q) \<Longrightarrow> (\<And>x. q = Some x \<Longrightarrow> body_ends r0 (k x) Q)
    \<Longrightarrow> body_ends r0 (case q of None \<Rightarrow> m | Some x \<Rightarrow> k x) Q"
  by (cases q) simp_all

lemma body_ends_cond:
  "(b \<Longrightarrow> body_ends r0 m Q) \<Longrightarrow> (\<not> b \<Longrightarrow> body_ends r0 n Q) \<Longrightarrow> body_ends r0 (if b then m else n) Q"
  by simp

lemma stays_open_rescue:
  assumes "stays_open r0 m" "ar_job r0 = None"
  shows "stays_open r0 (rescue m (\<lambda>e. seq (set_row (job_known job)) (\<lambda>_. raise e)))"
  unfolding body_ends_def wp_rescue
proof (intro allI impI)
  fix w assume "step_open r0 w"
  with assms(1) have "wp m (\<lambda>x w'. step_open r0 w')
     (\<lambda>e w'. row_live r0 (aw_row w') \<and> (ar_terminal (aw_row w') \<longrightarrow> (\<exists>m. e = Failed m))) w"
    by (simp add: body_ends_def)
  then show "wp m (\<lambda>x w'. step_open r0 w')
     (\<lambda>e. if e = WorkerDied
        then \<lambda>w'. row_live r0 (aw_row w') \<and> (ar_terminal (aw_row w') \<longrightarrow> (\<exists>m. e = Failed m))
        else wp (seq (set_row (job_known job)) (\<lambda>_. raise e)) (\<lambda>x w'. step_open r0 w')
               (\<lambda>e w'. row_live r0 (aw_row w') \<and> (ar_terminal (aw_row w') \<longrightarrow> (\<exists>m. e = Failed m)))) w"
    by (rule wp_conseq) (use assms(2) in \<open>auto simp: wp_rules row_live_def job_known_def\<close>)
qed

lemma job_known_open: "ar_job r0 = None \<Longrightarrow> row_open r0 r \<Longrightarrow> row_open r0 (job_known job r)"
  by (auto simp: row_state_defs job_known_def)

lemmas stays_open_rules = body_ends_seq stays_open_simple body_ends_raise stays_open_rescue body_ends_option
  body_ends_cond

text \<open>What a step knows once it has asked for its job; the answer of a native tool is the one it got.\<close>

abbreviation knows_job :: "analysis_answers \<Rightarrow> analysis_row \<Rightarrow> (analysis_job \<times> pydict) option \<Rightarrow> bool" where
  "knows_job an r0 got \<equiv> (\<forall>job raw. got = Some (job, raw) \<longrightarrow> ar_tool r0 = ''internal_rca'' \<longrightarrow> aa_native an = Inr raw)"

lemma submit_native_open:
  assumes "ar_job r0 = None"
  shows "body_ends r0 (submit_native sv an request sc) (\<lambda>got w. step_open r0 w \<and> knows_job an r0 got)"
  unfolding submit_native_def
  by (intro body_ends_seq [OF stays_open_simple(3)] body_ends_seq [OF stays_open_simple(2)]
      body_ends_seq [OF stays_open_simple(4)] body_ends_option body_ends_seq [OF stays_open_set] body_ends_ret
      body_ends_knows [OF knows_post] body_ends_seq [OF stays_open_simple(6)]
      body_ends_seq [OF stays_open_rescue [OF stays_open_simple(4) assms]])
    (simp_all add: job_known_open assms)

lemma native_step_open:
  "body_ends r0 (native_step sv cfg st an r0 request) (\<lambda>got w. step_open r0 w \<and> knows_job an r0 got)"
  unfolding native_step_def
  by (intro body_ends_seq [OF stays_open_simple(2)] body_ends_option submit_native_open body_ends_knows [OF knows_outside]
      body_ends_seq [OF stays_open_simple(6)] body_ends_ret) simp_all

lemma connector_step_open:
  assumes "ar_tool r0 \<noteq> ''internal_rca''"
  shows "body_ends r0 (connector_step cfg an r0) (\<lambda>got w. step_open r0 w \<and> knows_job an r0 got)"
  unfolding connector_step_def
  by (intro stays_open_rules body_ends_ret) (use assms in simp_all)

lemma result_of_knows:
  assumes "ar_tool r0 = ''internal_rca'' \<longrightarrow> aa_native an = Inr raw"
  shows "body_ends r0 (result_of sv an r0 raw) (\<lambda>x w. step_open r0 w \<and> result_ok sv an r0 x)"
proof -
  have "body_ends r0 (outside (aa_result an)) (\<lambda>x w. step_open r0 w \<and> result_ok sv an r0 x)"
    if "ar_tool r0 \<noteq> ''internal_rca''"
    using knows_outside [of r0 "aa_result an"] that by (simp add: result_ok_def result_from_def)
  then show ?thesis
    unfolding result_of_def Let_def
    by (intro body_ends_cond body_knows body_ends_ret) (use assms in \<open>auto simp: result_ok_def result_from_def dict_of_def\<close>)
qed

lemma collect_result_done:
  assumes "ar_job r0 \<noteq> None" "named (str_of (dget request ''run_id''))"
    and "ar_tool r0 = ''internal_rca'' \<longrightarrow> aa_native an = Inr raw"
  shows "body_ends r0 (collect_result sv cfg an r0 request raw) (row_done sv cfg an named r0)"
  unfolding collect_result_def Let_def
proof (intro body_ends_knows [OF result_of_knows [OF assms(3)]] body_knows)
  fix x content store
  let ?run = "str_of (dget request ''run_id'')"
  let ?art = "analysis_artifact an ?run store r0 x"
  assume facts: "result_ok sv an r0 x" "ax_tool x = ar_tool r0" "ax_digest x = ar_digest r0"
    "list_all (finding_ok cfg) (ax_findings x)" "aa_store an = Inr store"
    "(case result_content x of None \<Rightarrow> Inl (TypeError ''content'') | Some c \<Rightarrow> Inr c) = Inr content"
  then have "result_content x = Some content"
    by (simp split: option.splits)
  then have collected: "row_done sv cfg an named r0 [?art] w"
    if "row_open r0 r" "aw_row w = succeeded_row an preview content x r"
      "aw_stored w = [(store, analysis_key ?run (ar_key r0), content)]" "artifact_valid ?art"
    for w r preview
    using that facts assms(1,2) unfolding row_done_def row_collected_def by fastforce
  show "body_ends r0
     (seq (persist_artifact store (analysis_key ?run (ar_key r0)) content (aa_persist an)) (\<lambda>_.
      seq (require (artifact_valid ?art) ''validation error'') (\<lambda>_.
      seq (checked (dumped False (PDict [(''findings'', PList (map PDict (ax_findings x))),
             (''warnings'', text_list (ax_warnings x)), (''gaps'', text_list (ax_gaps x))]))) (\<lambda>preview.
      seq (set_row (succeeded_row an preview content x)) (\<lambda>_. ret [?art])))))
     (row_done sv cfg an named r0)"
    by (auto simp: body_ends_def wp_rules step_open_def Let_def row_open_def split: sum.split
        intro!: collected [unfolded row_open_def])
qed

lemma job_failed_ends:
  "ar_job r0 \<noteq> None \<Longrightarrow> body_ends r0 (seq (set_row (\<lambda>r. r\<lparr>ar_terminal := True\<rparr>)) (\<lambda>_. raise (Failed m))) Q"
  by (auto simp: body_ends_def wp_rules row_state_defs step_open_def)

lemma settle_job_done:
  assumes "named (str_of (dget request ''run_id''))" "ar_tool r0 = ''internal_rca'' \<longrightarrow> aa_native an = Inr raw"
  shows "body_ends r0 (settle_job sv cfg an r0 request job raw) (row_done sv cfg an named r0)"
  unfolding settle_job_def
  apply (intro body_ends_option body_ends_cond body_ends_raise job_failed_ends; (simp; fail)?)
    apply (intro body_ends_seq stays_open_set body_ends_ret; (erule (1) job_known_open | simp add: row_done_def step_open_def))
  apply (rule body_ends_seq [OF stays_open_set])
   apply (auto simp: row_state_defs job_progress_def) []
  apply (intro body_ends_cond collect_result_done body_ends_seq stays_open_set body_ends_ret;
      (simp add: row_done_def row_state_defs step_open_def assms)?)
  done

text \<open>The run that the request of a row names.\<close>

definition request_run :: "analysis_cfg \<Rightarrow> string \<Rightarrow> analysis_state \<Rightarrow> analysis_row \<Rightarrow> string \<Rightarrow> bool" where
  "request_run cfg thread st r run \<longleftrightarrow>
     (\<exists>d. submission_request cfg thread st r = Inr d \<and> run = str_of (dget d ''run_id''))"

lemma step_body_done:
  assumes "row_open r0 r0" "aw_row w = r0" "aw_stored w = []"
  shows "wp (step_body sv cfg thread st an) (row_done sv cfg an (request_run cfg thread st r0) r0)
    (\<lambda>e w'. row_live r0 (aw_row w') \<and> (ar_terminal (aw_row w') \<longrightarrow> (\<exists>m. e = Failed m))) w"
proof -
  let ?Q = "row_done sv cfg an (request_run cfg thread st r0) r0"
  have started: "stays_open r0 (set_row (\<lambda>r. r\<lparr>ar_started := t\<rparr>))" for t
    by (rule stays_open_set) (simp add: row_state_defs)
  have settled: "body_ends r0 (case got of None \<Rightarrow> ret [] | Some (job, raw) \<Rightarrow> settle_job sv cfg an r0 request job raw) ?Q"
    if "submission_request cfg thread st r0 = Inr request" "knows_job an r0 got" for request got
    using that
    by (cases got) (auto simp: request_run_def row_done_def step_open_def intro!: settle_job_done body_ends_ret)
  have "body_ends r0 (if ar_tool r0 = ''internal_rca'' then native_step sv cfg st an r0 request
      else connector_step cfg an r0) (\<lambda>got w. step_open r0 w \<and> knows_job an r0 got)" for request
    by (intro body_ends_cond native_step_open connector_step_open)
  note asked = body_ends_knows [OF this]
  have "body_ends r0 (seq (checked (submission_request cfg thread st r0)) (\<lambda>request.
      case ar_started r0 of
        None \<Rightarrow> seq (set_row (\<lambda>r. r\<lparr>ar_started := Some (aa_now an)\<rparr>)) (\<lambda>_. ret [])
      | Some t \<Rightarrow>
          seq (checked (case as_time sv t of None \<Rightarrow> bad ''Invalid isoformat string'' | Some s \<Rightarrow> Inr s)) (\<lambda>s0.
          seq (require (aa_clock an - s0 \<le> ac_timeout cfg * 1000000) ''Analysis deadline expired'') (\<lambda>_.
          seq (outside (aa_adapter an)) (\<lambda>_.
          seq (if ar_tool r0 = ''internal_rca'' then native_step sv cfg st an r0 request
               else connector_step cfg an r0) (\<lambda>got.
          case got of
            None \<Rightarrow> ret []
          | Some (job, raw) \<Rightarrow> settle_job sv cfg an r0 request job raw)))))) ?Q"
    by (intro body_knows body_ends_option body_ends_seq [OF started] asked settled body_ends_ret)
      (auto simp: row_done_def step_open_def)
  then show ?thesis
    unfolding step_body_def wp_seq [of get_row] wp_get_row assms(2) body_ends_def
    by (elim allE [of _ w] impE) (simp_all only: assms step_open_def simp_thms)
qed

lemma row_ok_open: "ledger_row_ok r \<Longrightarrow> ar_status r \<notin> {RSucceeded, RFailed} \<Longrightarrow> row_open r r"
  by (cases "ar_status r") (auto simp: ledger_row_ok_def row_state_defs)

lemma row_open_after:
  assumes "ledger_row_ok r0" "ar_status r0 \<noteq> RSucceeded" "row_open r0 r"
  shows "ledger_row_ok r \<and> ledger_row_le r0 r"
  using assms unfolding ledger_row_ok_def ledger_row_le_def row_state_defs by (cases "ar_status r") simp_all

lemma succeeded_row_after:
  assumes "ledger_row_ok r0" "ar_status r0 \<noteq> RSucceeded" "row_open r0 r" "ar_job r0 \<noteq> None"
  shows "ledger_row_ok (succeeded_row an preview content x r) \<and> ledger_row_le r0 (succeeded_row an preview content x r)"
  using assms unfolding ledger_row_ok_def ledger_row_le_def row_state_defs succeeded_row_def by simp

lemma row_done_after:
  assumes "ledger_row_ok r0" "ar_status r0 \<noteq> RSucceeded" "row_done sv cfg an named r0 arts w"
  shows "ledger_row_ok (aw_row w) \<and> ledger_row_le r0 (aw_row w)"
  using assms(3) unfolding row_done_def row_collected_def
  by (elim disjE exE conjE) (simp_all only: row_open_after [OF assms(1,2)] succeeded_row_after [OF assms(1,2)]
      simp_thms not_None_eq)

lemma failed_row_after:
  assumes "ledger_row_ok r0" "ar_status r0 \<noteq> RSucceeded" "row_live r0 r" "ar_terminal r \<longrightarrow> (\<exists>m. e = Failed m)"
  shows "ledger_row_ok (failed_row sv posting e r)" "ledger_row_le r0 (failed_row sv posting e r)"
proof -
  have live: "ar_status r \<noteq> RSucceeded" "ar_status r \<noteq> RFailed" "ar_result r = None" "\<not> ar_uncertain r"
    "ar_status r \<noteq> RPending \<longrightarrow> ar_job r \<noteq> None" "ar_terminal r \<longrightarrow> ar_job r \<noteq> None"
    "lowercase_sha256 (ar_key r)" "1 \<le> ar_attempt r" "ar_request r = None"
    using assms(1,3) unfolding row_live_def ledger_row_ok_def by simp_all
  moreover have "transient e \<longrightarrow> \<not> ar_terminal r"
    using assms(4) by (cases e) (simp_all add: transient_def)
  ultimately show "ledger_row_ok (failed_row sv posting e r)"
    unfolding ledger_row_ok_def failed_row_def Let_def by (cases "ar_status r") (simp_all split: if_split)
  show "ledger_row_le r0 (failed_row sv posting e r)"
    using assms(2,3) unfolding ledger_row_le_def failed_row_def Let_def row_live_def by (simp split: if_split)
qed

text \<open>A step that returns: the row it worked on, and what it collected when it returns an artifact.\<close>

lemma analysis_step_done:
  assumes "analysis_step sv cfg thread st an left db = (Inr (rows', arts), db')"
    "route_analysis st = ''analysis_step''" "\<forall>r \<in> set (ledger_of st). ledger_row_ok r"
  shows "\<exists>pre r0 post w. ledger_of st = pre @ r0 # post \<and> rows' = pre @ aw_row w # post
    \<and> ledger_row_ok (aw_row w) \<and> ledger_row_le r0 (aw_row w) \<and> step_objects sv cfg thread st an left db = aw_stored w
    \<and> (arts \<noteq> [] \<longrightarrow> (\<exists>run x store content. request_run cfg thread st r0 run
          \<and> row_collected sv cfg an run r0 arts w x store content))"
proof -
  let ?open = "\<lambda>r. ar_status r = RSucceeded"
  obtain r0 post where rest: "dropWhile ?open (ledger_of st) = r0 # post"
    using assms(1) by (auto simp: analysis_step_def simp del: dropWhile_eq_Nil_conv split: list.splits)
  obtain w' where run: "row_step sv cfg thread st an left db r0 = (Inr arts, w')"
    "rows' = takeWhile ?open (ledger_of st) @ aw_row w' # post" "ac_selections cfg \<noteq> None"
    using assms(1) rest by (auto simp: analysis_step_def split: if_splits prod.splits sum.splits option.splits)
  have split: "ledger_of st = takeWhile ?open (ledger_of st) @ r0 # post"
    using rest by (metis takeWhile_dropWhile_id)
  then have "r0 \<in> set (ledger_of st)"
    by (metis in_set_conv_decomp)
  moreover have "ar_status r0 \<noteq> RSucceeded"
    using hd_dropWhile [of ?open "ledger_of st"] rest by (simp del: dropWhile_eq_Nil_conv)
  ultimately have r0: "ledger_row_ok r0" "ar_status r0 \<notin> {RSucceeded, RFailed}" "row_open r0 r0"
    using assms(2,3) row_ok_open [of r0] by (auto simp: route_analysis_def split: if_splits)
  let ?w = "\<lparr>aw_claims = fst db, aw_posts = snd db, aw_left = left, aw_row = r0, aw_posting = False, aw_stored = []\<rparr>"
  let ?done = "row_done sv cfg an (request_run cfg thread st r0) r0"
  let ?Q = "\<lambda>x w. ?done x w \<or> x = [] \<and> ledger_row_ok (aw_row w) \<and> ledger_row_le r0 (aw_row w)"
  have "wp (rescue (step_body sv cfg thread st an) (on_failure sv)) ?Q (\<lambda>_ _. True) ?w"
    unfolding wp_rescue
    by (rule wp_conseq [OF step_body_done [OF r0(3)]])
      (use r0 failed_row_after in \<open>auto simp: wp_on_failure\<close>)
  from wp_run [OF this run(1) [unfolded row_step_def]] have ended: "?Q arts w'" .
  then have "ledger_row_ok (aw_row w') \<and> ledger_row_le r0 (aw_row w')"
    using r0 row_done_after by blast
  moreover have "arts \<noteq> [] \<longrightarrow> (\<exists>run x store content. request_run cfg thread st r0 run
      \<and> row_collected sv cfg an run r0 arts w' x store content)"
    using ended unfolding row_done_def by blast
  moreover have "step_objects sv cfg thread st an left db = aw_stored w'"
    using rest run by (auto simp: step_objects_def)
  ultimately show ?thesis
    using split run(2) by blast
qed

lemma retried_row_after:
  assumes "ledger_row_ok r" "ar_status r = RFailed"
  shows "ledger_row_ok (retried_row r)" "ledger_row_le r (retried_row r)"
proof -
  have "lowercase_sha256 (next_key r)" "ar_result r = None"
    using assms by (auto simp: next_key_def sha256_hex_lowercase ledger_row_ok_def)
  then show "ledger_row_ok (retried_row r)"
    using assms unfolding ledger_row_ok_def retried_row_def Let_def by (simp split: if_split)
  show "ledger_row_le r (retried_row r)"
    using assms(2) unfolding ledger_row_le_def retried_row_def Let_def by (simp split: if_split)
qed

lemma ledger_row_le_refl: "ledger_row_le r r"
  by (simp add: ledger_row_le_def)

lemma retry_first_rows:
  assumes "\<forall>r \<in> set rows. ledger_row_ok r"
  shows "(\<forall>r \<in> set (retry_first rows). ledger_row_ok r) \<and> list_all2 ledger_row_le rows (retry_first rows)"
proof (cases "dropWhile (\<lambda>r. ar_status r \<noteq> RFailed) rows")
  case Nil
  with assms show ?thesis
    by (auto simp: retry_first_def ledger_row_le_refl list.rel_refl simp del: dropWhile_eq_Nil_conv)
next
  case (Cons r rest)
  let ?pre = "takeWhile (\<lambda>r. ar_status r \<noteq> RFailed) rows"
  have rows: "rows = ?pre @ r # rest"
    using Cons by (metis takeWhile_dropWhile_id)
  have "ar_status r = RFailed"
    using hd_dropWhile [of "\<lambda>r. ar_status r \<noteq> RFailed" rows] Cons by (simp del: dropWhile_eq_Nil_conv)
  moreover have "ledger_row_ok r" "\<forall>r \<in> set ?pre. ledger_row_ok r" "\<forall>r \<in> set rest. ledger_row_ok r"
    using assms by (subst (asm) rows; auto)+
  moreover have "retry_first rows = ?pre @ retried_row r # rest"
    by (simp add: retry_first_def Cons del: dropWhile_eq_Nil_conv)
  moreover have "list_all2 ledger_row_le ?pre ?pre" "list_all2 ledger_row_le rest rest"
    by (simp_all add: list.rel_refl ledger_row_le_refl)
  ultimately show ?thesis
    using retried_row_after by (subst (2) rows) (auto intro: list_all2_appendI)
qed

lemma recovery_ledger:
  assumes "analysis_recovery sv gs config st ds = Inr (RecoveryGoes c)" "rc_ledger c = Some rows'"
  shows "rows' = retry_first (ledger_of st)"
proof -
  have "recovery_loop (recovery_turn gs config st row reason) err ds = RecoveryGoes c
      \<Longrightarrow> rows' = retry_first (ledger_of st)" for row reason err
    using assms(2) by (induction ds arbitrary: err)
      (auto simp: recovery_turn_def Let_def split: sum.splits if_splits option.splits)
  with assms(1) show ?thesis
    by (auto simp: analysis_recovery_def Let_def split: if_splits)
qed

lemma analysis_move_rows:
  assumes "analysis_move sv cfg thread rows rows'" "\<forall>r \<in> set rows. ledger_row_ok r"
  shows "(\<forall>r \<in> set rows'. ledger_row_ok r) \<and> list_all2 ledger_row_le rows rows'"
  using assms(1)
proof (cases rule: analysis_move.cases)
  case (step_move st an left db arts db')
  then obtain pre r0 post r' where "rows = pre @ r0 # post" "rows' = pre @ r' # post"
    "ledger_row_ok r'" "ledger_row_le r0 r'"
    using analysis_step_done [OF step_move(3,2)] assms(2) by blast
  with assms(2) show ?thesis
    by (auto intro!: list_all2_appendI simp: list.rel_refl ledger_row_le_refl)
next
  case (retry_move st gs config ds c)
  with assms(2) retry_first_rows recovery_ledger show ?thesis
    by blast
qed

lemma list_all2_row_selections:
  "list_all2 ledger_row_le rows rows' \<Longrightarrow>
    map (\<lambda>r. (ar_tool r, ar_connection r)) rows' = map (\<lambda>r. (ar_tool r, ar_connection r)) rows"
  by (induction rule: list_all2_induct) (simp_all add: ledger_row_le_def)

lemma prepared_rows:
  assumes "prepare_analysis cfg thread st = Inr (Some rows)"
  shows "(\<forall>r \<in> set rows. ledger_row_ok r)
    \<and> map (\<lambda>r. (ar_tool r, ar_connection r)) rows = map (\<lambda>s. (tool s, connection_id s)) (ordered_selections cfg)"
  using assms
  by (auto simp: prepare_analysis_def rbind_Inr_iff new_row_def ledger_row_ok_def first_key_def sha256_hex_lowercase
      split: if_splits)

lemma analysis_ledger_rows:
  "analysis_ledger sv cfg thread rows \<Longrightarrow> (\<forall>r \<in> set rows. ledger_row_ok r)
    \<and> map (\<lambda>r. (ar_tool r, ar_connection r)) rows = map (\<lambda>s. (tool s, connection_id s)) (ordered_selections cfg)"
proof (induction rule: analysis_ledger.induct)
  case (ledger_prepared st rows)
  then show ?case by (rule prepared_rows)
next
  case (ledger_moved rows rows')
  then show ?case
    using analysis_move_rows list_all2_row_selections by metis
qed

text \<open>
  C37. Every checkpoint of the analysis ledger holds the selected tools in the order in which they
  run, and every row is consistent: a running or finished row knows its remote job, a row has a
  result exactly when it has succeeded, a failed row says why, and only a failed row carries the
  marks of a provider failure or of an uncertain submission. Every move keeps a row that has
  succeeded, keeps the known job under its key, and gives a row a new key only together with a new
  attempt, after its job failed at the provider or its submission became uncertain.
\<close>

theorem analysis_ledger_moves:
  assumes "analysis_ledger sv cfg thread rows" "analysis_move sv cfg thread rows rows'"
  shows "list_all ledger_row_ok rows \<and> list_all ledger_row_ok rows' \<and> list_all2 ledger_row_le rows rows'
    \<and> map (\<lambda>r. (ar_tool r, ar_connection r)) rows'
        = map (\<lambda>s. (tool s, connection_id s)) (ordered_selections cfg)"
proof -
  have "\<forall>r \<in> set rows. ledger_row_ok r" "\<forall>r \<in> set rows'. ledger_row_ok r" "list_all2 ledger_row_le rows rows'"
    using analysis_ledger_rows [OF assms(1)] analysis_move_rows [OF assms(2)] by blast+
  moreover from this(3) have "map (\<lambda>r. (ar_tool r, ar_connection r)) rows'
      = map (\<lambda>s. (tool s, connection_id s)) (ordered_selections cfg)"
    using analysis_ledger_rows [OF assms(1)] by (simp add: list_all2_row_selections)
  ultimately show ?thesis
    by (simp add: list_all_iff)
qed

subsection \<open>What the report reads\<close>

lemma recorded_artifact_InrD:
  "recorded_artifact thread artifacts ids row = Inr (artifact, key, connection) \<Longrightarrow>
    artifact = ''analysis-'' @ ar_key row \<and> key = analysis_key thread (ar_key row)"
  by (auto simp: recorded_artifact_def Let_def split: list.splits if_splits)

text \<open>The verified content behind one entry of the evidence.\<close>

definition verified_entry ::
  "string \<Rightarrow> (string \<Rightarrow> string \<Rightarrow> (string \<times> string) res) \<Rightarrow> (string \<Rightarrow> analysis_result option) \<Rightarrow> analysis_row
   \<Rightarrow> pydict \<Rightarrow> bool" where
  "verified_entry thread fetch parse row e \<longleftrightarrow>
     ar_status row = RSucceeded
     \<and> (\<exists>store content x.
          fetch store (analysis_key thread (ar_key row)) = Inr (store, content) \<and> length content \<le> 256000
          \<and> (\<forall>rr. ar_result row = Some rr \<longrightarrow> rr_sha rr = sha256_hex content)
          \<and> parse content = Some x \<and> ax_tool x = ar_tool row \<and> ax_digest x = ar_digest row
          \<and> e = evidence_entry row (''analysis-'' @ ar_key row) x)"

lemma report_row_verified:
  "report_row thread artifacts ids fetch parse row = Inr e \<Longrightarrow> verified_entry thread fetch parse row e"
  unfolding verified_entry_def
  by (auto simp: report_row_def rbind_Inr_iff dest!: recorded_artifact_InrD split: if_splits option.splits)
    fastforce

text \<open>
  When the evidence of a report loads, every selected tool has exactly one row and every entry
  comes from a row that succeeded: its content was read under the key of that row at the connection
  recorded for it, has the digest recorded at the collection, and is a result of that tool for the
  evidence of that row.
\<close>

lemma report_evidence_verified:
  assumes "load_report_evidence cfg thread st artifacts ids fetch parse = Inr ev"
  shows "list_all2 (verified_entry thread fetch parse) (ledger_of st) ev
    \<and> distinct (map (\<lambda>r. (ar_tool r, ar_connection r)) (ledger_of st))
    \<and> ac_selections cfg \<noteq> None
    \<and> set (map (\<lambda>r. (ar_tool r, ar_connection r)) (ledger_of st))
        = set (map (\<lambda>s. (tool s, connection_id s)) (the (ac_selections cfg)))"
proof -
  have "list_all2 (verified_entry thread fetch parse) rows ev"
    if "rmap (report_row thread artifacts ids fetch parse) rows = Inr ev" for rows
    using that report_row_verified
    by (auto simp: rmap_Inr_iff list_all2_conv_all_nth)
  then show ?thesis
    using assms by (auto simp: load_report_evidence_def Let_def split: if_splits option.splits)
qed

lemma result_content_bound:
  assumes "valid_result cred x" "result_content x = Some content"
  shows "length content \<le> 256000"
  using assms
  by (auto simp: valid_result_def result_content_def validate_json_object_def RESULT_LIMITS_def rbind_Inr_iff
      too_many_bytes_def invalid_json_def simp del: json_dumps.simps split: if_splits option.splits)

text \<open>What is read back at a connection and a key: the object that was written there last.\<close>

definition object_at :: "(string \<times> string \<times> string) list \<Rightarrow> string \<Rightarrow> string \<Rightarrow> (string \<times> string) res" where
  "object_at objects store key =
     (case filter (\<lambda>(s, k, c). s = store \<and> k = key) (rev objects) of
        [] \<Rightarrow> bad ''object not found''
      | (s, k, c) # _ \<Rightarrow> Inr (s, c))"

text \<open>
  C38. The result that the report reads is the one that the step collected, unchanged: the result of
  the connector, or the assessment that the native engine answered. The step hands the store exactly
  one object, the bytes of that result under the key of its row, at the connection that it resolved;
  every finding names a participant of the test or none; and read back from what the step stored,
  with a parser that recognises these bytes, the row yields the evidence entry of that result.
\<close>

theorem collected_result_reported:
  assumes "analysis_ledger sv cfg thread (ledger_of st)" "route_analysis st = ''analysis_step''"
    and "analysis_step sv cfg thread st an left db = (Inr (rows', [a]), db')"
    and "\<And>x. aa_result an = Inr x \<Longrightarrow> valid_result (as_cred sv) x" "aa_store an \<noteq> Inr []"
  shows "\<exists>pre r0 post r x store content.
    ledger_of st = pre @ r0 # post \<and> rows' = pre @ r # post
    \<and> (if ar_tool r0 = ''internal_rca''
       then \<exists>raw d. aa_native an = Inr raw \<and> dget raw ''assessment'' = PDict d \<and> ax_findings x = [d]
       else aa_result an = Inr x)
    \<and> result_content x = Some content \<and> aa_store an = Inr store
    \<and> step_objects sv cfg thread st an left db = [(store, analysis_key thread (ar_key r0), content)]
    \<and> list_all (finding_ok cfg) (ax_findings x)
    \<and> report_row thread [a] [''analysis-'' @ ar_key r0] (object_at (step_objects sv cfg thread st an left db))
        (\<lambda>c. if c = content then Some x else None) r
      = Inr (evidence_entry r (''analysis-'' @ ar_key r0) x)"
proof -
  have ok: "\<forall>r \<in> set (ledger_of st). ledger_row_ok r"
    using analysis_ledger_rows [OF assms(1)] by simp
  obtain pre r0 post w run x store content where step: "ledger_of st = pre @ r0 # post" "rows' = pre @ aw_row w # post"
    "step_objects sv cfg thread st an left db = aw_stored w"
    "request_run cfg thread st r0 run" "row_collected sv cfg an run r0 [a] w x store content"
    using analysis_step_done [OF assms(3,2) ok] by auto
  then have "ledger_row_ok r0"
    using ok by simp
  with step(4) have run: "run = thread" "lowercase_sha256 (ar_key r0)"
    by (auto simp: request_run_def submission_request_def ledger_row_ok_def dget_def rbind_Inr_iff split: if_splits)
  let ?r = "aw_row w"
  obtain r1 preview where r1: "row_open r0 r1" "?r = succeeded_row an preview content x r1"
    using step(5) by (auto simp: row_collected_def)
  have row: "ar_status ?r = RSucceeded" "ar_key ?r = ar_key r0" "ar_tool ?r = ar_tool r0" "ar_digest ?r = ar_digest r0"
    "\<exists>rr. ar_result ?r = Some rr \<and> rr_artifact rr = ''analysis-'' @ ar_key r0 \<and> rr_sha rr = sha256_hex content"
    using r1 by (auto simp: row_state_defs succeeded_row_def)
  have x: "a = analysis_artifact an thread store r0 x" "artifact_valid a" "store \<noteq> []" "valid_result (as_cred sv) x"
    "ax_tool x = ar_tool r0" "ax_digest x = ar_digest r0" "result_content x = Some content"
    "aw_stored w = [(store, analysis_key thread (ar_key r0), content)]" "aa_store an = Inr store"
    "result_from an r0 x" "list_all (finding_ok cfg) (ax_findings x)"
    using step(5) assms(4,5) run(1) by (auto simp: row_collected_def result_ok_def result_from_def split: if_splits)
  have fields: "dget a ''id'' = PStr (''analysis-'' @ ar_key r0)" "dget a ''kind'' = PStr ''analysis''"
    "dget a ''key'' = PStr (analysis_key thread (ar_key r0))" "dget a ''artifact_connection_id'' = PStr store"
    by (simp_all add: x(1) analysis_artifact_def dget_def)
  have "recorded_artifact thread [a] [''analysis-'' @ ar_key r0] ?r
      = Inr (''analysis-'' @ ar_key r0, analysis_key thread (ar_key r0), store)"
    using row x(2,3) run(2) fields by (auto simp: recorded_artifact_def optional_text_def)
  moreover have "object_at (aw_stored w) store (analysis_key thread (ar_key r0)) = Inr (store, content)"
    by (simp add: object_at_def x(8))
  ultimately have "report_row thread [a] [''analysis-'' @ ar_key r0] (object_at (step_objects sv cfg thread st an left db))
      (\<lambda>c. if c = content then Some x else None) ?r = Inr (evidence_entry ?r (''analysis-'' @ ar_key r0) x)"
    using row x(5,6) result_content_bound [OF x(4,7)] by (auto simp: report_row_def step(3))
  moreover have "if ar_tool r0 = ''internal_rca''
       then \<exists>raw d. aa_native an = Inr raw \<and> dget raw ''assessment'' = PDict d \<and> ax_findings x = [d]
       else aa_result an = Inr x"
    using x(10) by (auto simp: result_from_def split: if_splits)
  ultimately show ?thesis
    using step(1-3) x(7-9,11) by metis
qed

end
