(* ===== verification/Analysis_Sample.thy ===== *)
theory Analysis_Sample
  imports Analysis_Safety
begin

text \<open>
  A run of one analysis tool, evaluated: prepared, started, submitted, and its result collected and
  read by the report. Digests stay symbolic: only their form matters.
\<close>

definition sample_tools :: analysis_cfg where
  "sample_tools =
     \<lparr>ac_selections = Some [\<lparr>tool = ''perfreportforge'', connection_id = ''c''\<rparr>], ac_timeout = 1800,
      ac_engine = ''apex_load'', ac_project = None, ac_traffic = None, ac_scope = PNone,
      ac_participants = []\<rparr>"

definition sample_analysis :: analysis_services where
  "sample_analysis =
     \<lparr>as_cred = (\<lambda>_ _ _ _. False), as_diagnostic = (\<lambda>n v. take n (str_of v)), as_time = (\<lambda>_. Some 0)\<rparr>"

definition sample_run_state :: "analysis_row list option \<Rightarrow> analysis_state" where
  "sample_run_state rows =
     \<lparr>st_attempt = 1, st_ledger = rows, st_entry = [], st_execution = [(''test_summary'', PStr ''ok'')],
      st_handle = PNone, st_aborted = False\<rparr>"

definition sample_evidence_digest :: string where
  "sample_evidence_digest =
     sha256_hex (utf8 (the (dumps_spaced True (PDict (execution_evidence (sample_run_state None) sample_tools)))))"

definition tool_row :: "row_status \<Rightarrow> string option \<Rightarrow> string option \<Rightarrow> analysis_row" where
  "tool_row s job started =
     (new_row ''t'' 1 sample_evidence_digest \<lparr>tool = ''perfreportforge'', connection_id = ''c''\<rparr>)
       \<lparr>ar_status := s, ar_job := job, ar_started := started\<rparr>"

definition sample_outcome :: analysis_result where
  "sample_outcome =
     \<lparr>ax_summary = ''fine'', ax_tool = ''perfreportforge'', ax_version = ''1'', ax_digest = sample_evidence_digest,
      ax_findings = [], ax_artifacts = [], ax_warnings = [], ax_gaps = []\<rparr>"

definition tool_answers :: "job_status \<Rightarrow> analysis_answers" where
  "tool_answers s =
     \<lparr>aa_now = ''now'', aa_clock = 1, aa_adapter = Inr (), aa_native = Inl (Failed ''''),
      aa_capabilities = Inr \<lparr>ca_engines = [''apex_load''], ca_evidence = [''test_summary''], ca_available = True\<rparr>,
      aa_job = Inr \<lparr>aj_id = ''j'', aj_status = s, aj_error = None\<rparr>, aa_result = Inr sample_outcome,
      aa_store = Inr ''s'', aa_persist = Inr (), aa_completed = ''later'', aa_closed = None,
      aa_before = [], aa_link = Delivered, aa_between = [], aa_link2 = Delivered\<rparr>"

lemma sample_run_evidence: "execution_evidence (sample_run_state rows) sample_tools = execution_evidence (sample_run_state None) sample_tools"
  by (simp add: sample_run_state_def execution_evidence_def Let_def)

lemma sample_dumps:
  "\<exists>t. dumps_spaced True (PDict (execution_evidence (sample_run_state None) sample_tools)) = Some t"
  by (simp add: execution_evidence_def sample_run_state_def sample_tools_def dget_def py_or_def with_default_def
      dict_of_def Let_def image_iff del: sort_key_simps)

lemma sample_digest: "evidence_digest (execution_evidence (sample_run_state rows) sample_tools) = Inr sample_evidence_digest"
  unfolding sample_run_evidence [of rows] using sample_dumps by (auto simp: evidence_digest_def sample_evidence_digest_def dumped_def simp del: dumps_spaced.simps)

lemma sample_tool_order: "ordered_selections sample_tools = [\<lparr>tool = ''perfreportforge'', connection_id = ''c''\<rparr>]"
  by (simp add: ordered_selections_def sample_tools_def)

lemma sample_prepared:
  "analysis_ledger sample_analysis sample_tools ''t'' [tool_row RPending None None]"
  by (rule ledger_prepared [of sample_tools "''t''" "sample_run_state None"])
    (simp add: prepare_analysis_def sample_tool_order sample_digest tool_row_def new_row_def,
     simp add: sample_run_state_def)

lemma sample_tool_request:
  "\<exists>d. submission_request sample_tools ''t'' (sample_run_state rows) (tool_row s job started) = Inr d
    \<and> dget d ''run_id'' = PStr ''t''"
proof -
  have "ar_request (tool_row s job started) = None" "ar_digest (tool_row s job started) = sample_evidence_digest"
    by (simp_all add: tool_row_def new_row_def)
  then show ?thesis
    by (simp add: submission_request_def sample_digest dget_def)
qed

definition sample_key :: string where
  "sample_key = first_key ''t'' 1 ''c'' sample_evidence_digest"

lemma tool_row_simps:
  "ar_tool (tool_row s job started) = ''perfreportforge''" "ar_connection (tool_row s job started) = ''c''"
  "ar_digest (tool_row s job started) = sample_evidence_digest" "ar_status (tool_row s job started) = s"
  "ar_job (tool_row s job started) = job" "ar_started (tool_row s job started) = started"
  "ar_result (tool_row s job started) = None" "ar_key (tool_row s job started) = sample_key"
  "ar_started_update (\<lambda>_. t) (tool_row s job started) = tool_row s job t"
  "job_known j (tool_row s job started) = tool_row RQueued (Some j) started"
  by (simp_all add: tool_row_def new_row_def job_known_def sample_key_def)

lemma sample_tools_simps:
  "ac_selections sample_tools \<noteq> None" "ac_timeout sample_tools = 1800" "ac_engine sample_tools = ''apex_load''"
  "as_time sample_analysis t = Some 0" "ledger_of (sample_run_state (Some rows)) = rows" "st_aborted (sample_run_state r) = False"
  by (simp_all add: sample_tools_def sample_analysis_def ledger_of_def sample_run_state_def)

lemmas step_simps = analysis_step_def row_step_def step_body_def persist_artifact_def rescue_def seq_def get_row_def set_row_def checked_def ret_def
  connector_step_def settle_job_def require_def outside_def tool_row_simps sample_tools_simps

lemma sample_start:
  "analysis_step sample_analysis sample_tools ''t'' (sample_run_state (Some [tool_row RPending None None]))
     (tool_answers JQueued) 9 ([], []) = (Inr ([tool_row RPending None (Some ''now'')], []), ([], []))"
proof -
  obtain d where "submission_request sample_tools ''t'' (sample_run_state (Some [tool_row RPending None None]))
      (tool_row RPending None None) = Inr d"
    using sample_tool_request by blast
  then show ?thesis
    by (simp add: step_simps tool_answers_def)
qed

lemma sample_submit:
  "analysis_step sample_analysis sample_tools ''t'' (sample_run_state (Some [tool_row RPending None (Some ''now'')]))
     (tool_answers JQueued) 9 ([], []) = (Inr ([tool_row RQueued (Some ''j'') (Some ''now'')], []), ([], []))"
proof -
  obtain d where "submission_request sample_tools ''t'' (sample_run_state (Some [tool_row RPending None (Some ''now'')]))
      (tool_row RPending None (Some ''now'')) = Inr d"
    using sample_tool_request by blast
  then show ?thesis
    by (simp add: step_simps tool_answers_def)
qed

lemma sample_routed: "s \<notin> {RSucceeded, RFailed} \<Longrightarrow> route_analysis (sample_run_state (Some [tool_row s job t])) = ''analysis_step''"
  by (simp add: route_analysis_def sample_tools_simps tool_row_simps)

lemma sample_started:
  "analysis_move sample_analysis sample_tools ''t'' [tool_row RPending None None] [tool_row RPending None (Some ''now'')]"
  by (rule step_move [OF _ _ sample_start]) (simp_all add: sample_routed sample_tools_simps)

lemma sample_submitted:
  "analysis_move sample_analysis sample_tools ''t'' [tool_row RPending None (Some ''now'')]
     [tool_row RQueued (Some ''j'') (Some ''now'')]"
  by (rule step_move [OF _ _ sample_submit]) (simp_all add: sample_routed sample_tools_simps)

lemma sample_queued: "analysis_ledger sample_analysis sample_tools ''t'' [tool_row RQueued (Some ''j'') (Some ''now'')]"
  using sample_prepared sample_started sample_submitted ledger_moved by blast

subsection \<open>Collecting and reading\<close>

lemma hex_plain:
  assumes "lowercase_sha256 s"
  shows "length s = 64" "s \<noteq> []" "nul_free s" "concat (map (json_char False) s) = s" "utf8 s = s"
    "concat (map quoted_char s) = s"
proof -
  have same: "concat (map f s) = s" if "\<And>c. c \<in> set ''0123456789abcdef'' \<Longrightarrow> f c = [c]" for f :: "char \<Rightarrow> string"
  proof -
    have "\<forall>c \<in> set s. f c = [c]"
      using assms that by (auto simp: lowercase_sha256_def list_all_iff)
    then show ?thesis by (induction s) simp_all
  qed
  show "length s = 64" "s \<noteq> []"
    using assms by (auto simp: lowercase_sha256_def)
  have "c \<noteq> CHR 0x00" if "c \<in> set ''0123456789abcdef''" for c :: char
    using that by auto
  then show "nul_free s"
    using assms by (fastforce simp: lowercase_sha256_def list_all_iff nul_free_def)
  show "concat (map (json_char False) s) = s"
    by (rule same) (auto simp: json_char_def)
  show "utf8 s = s" unfolding utf8_def
    by (rule same) (auto simp: utf8_char_def)
  show "concat (map quoted_char s) = s"
    by (rule same) (auto simp: quoted_char_def unreserved_def)
qed

lemma sample_hex: "lowercase_sha256 sample_evidence_digest" "lowercase_sha256 sample_key"
  by (simp_all add: sample_evidence_digest_def sample_key_def first_key_def sha256_hex_lowercase)

lemmas sample_plain = hex_plain [OF sample_hex(1)] hex_plain [OF sample_hex(2)]

lemma utf8_parts: "utf8 (a @ b) = utf8 a @ utf8 b" "utf8 (c # a) = utf8_char c @ utf8 a" "utf8 [] = []"
  by (simp_all add: utf8_def)

lemma one_text: "nat_text (Suc 0) = ''1''"
  by code_simp

lemma sample_outcome_content:
  "\<exists>t. json_dumps False False False (PDict (result_json sample_outcome)) = Some t \<and> length (utf8 t) \<le> 256000"
  by (simp add: result_json_def sample_outcome_def text_list_def json_text_def json_char_def sample_plain utf8_parts
      utf8_char_def int_text_def one_text)

lemma sample_outcome_valid: "valid_result (as_cred sample_analysis) sample_outcome"
proof -
  have "validate_json_object ''analysis result'' RESULT_LIMITS (PDict (result_json sample_outcome)) = Inr ()"
    unfolding accepted_object_iff using sample_outcome_content
    by (auto simp: RESULT_LIMITS_def result_json_def sample_outcome_def text_list_def key_within_def wide_int_def
        sample_plain simp del: json_dumps.simps) (simp_all add: nul_free_def)
  then show ?thesis
    by (simp add: valid_result_def sample_outcome_def sample_analysis_def sample_hex text_between_def nul_free_def)
qed

definition sample_artifact :: pydict where
  "sample_artifact = analysis_artifact (tool_answers JSucceeded) ''t'' ''s'' (tool_row RQueued (Some ''j'') (Some ''now'')) sample_outcome"

lemma sample_artifact_valid: "artifact_valid sample_artifact"
proof -
  have "artifact_uri (analysis_key ''t'' sample_key) = ''apex-artifact:///analysis/t/'' @ sample_key @ ''.json''"
    by (simp add: artifact_uri_def analysis_key_def utf8_parts utf8_char_def quoted_char_def unreserved_def sample_plain)
  then show ?thesis
    by (simp add: artifact_valid_def sample_artifact_def analysis_artifact_def tool_row_simps dget_def with_default_def
        text_between_def optional_between_def analysis_key_def sample_plain tool_answers_def sample_outcome_def)
      (use sample_plain(9) in \<open>simp add: nul_free_def\<close>)
qed

lemma tool_answers_simps:
  "aa_clock (tool_answers s) = 1" "aa_adapter (tool_answers s) = Inr ()" "aa_closed (tool_answers s) = None"
  "aa_job (tool_answers s) = Inr \<lparr>aj_id = ''j'', aj_status = s, aj_error = None\<rparr>"
  "aa_result (tool_answers s) = Inr sample_outcome" "aa_store (tool_answers s) = Inr ''s''"
  "aa_persist (tool_answers s) = Inr ()" "ar_status_update (\<lambda>_. s') (tool_row s0 job started) = tool_row s' job started"
  by (simp_all add: tool_answers_def tool_row_def)

lemma sample_outcome_simps:
  "ax_tool sample_outcome = ''perfreportforge''" "ax_digest sample_outcome = sample_evidence_digest"
  "ax_findings sample_outcome = []" "ax_warnings sample_outcome = []" "ax_gaps sample_outcome = []"
  by (simp_all add: sample_outcome_def)

lemma sample_collect:
  "\<exists>r. analysis_step sample_analysis sample_tools ''t''
     (sample_run_state (Some [tool_row RQueued (Some ''j'') (Some ''now'')])) (tool_answers JSucceeded) 9 ([], [])
     = (Inr ([r], [sample_artifact]), ([], []))"
proof -
  obtain d where d: "submission_request sample_tools ''t'' (sample_run_state (Some [tool_row RQueued (Some ''j'') (Some ''now'')]))
      (tool_row RQueued (Some ''j'') (Some ''now'')) = Inr d" "dget d ''run_id'' = PStr ''t''"
    using sample_tool_request by blast
  obtain c where c: "result_content sample_outcome = Some c"
    using sample_outcome_content by (auto simp: result_content_def)
  show ?thesis
    using d c sample_artifact_valid
    by (simp add: step_simps collect_result_def result_of_def tool_answers_simps sample_outcome_simps job_progress_def
        sample_artifact_def dumped_def text_list_def)
qed

subsection \<open>Witnesses\<close>

lemma analysis_ledger_moves_witness:
  "list_all2 ledger_row_le [tool_row RPending None (Some ''now'')] [tool_row RQueued (Some ''j'') (Some ''now'')]
   \<and> list_all ledger_row_ok [tool_row RQueued (Some ''j'') (Some ''now'')]"
proof -
  have "analysis_ledger sample_analysis sample_tools ''t'' [tool_row RPending None (Some ''now'')]"
    by (rule ledger_moved [OF sample_prepared]) (rule sample_started)
  from analysis_ledger_moves [OF this sample_submitted] show ?thesis by simp
qed

lemma collected_result_reported_witness:
  "\<exists>r content. result_content sample_outcome = Some content
    \<and> step_objects sample_analysis sample_tools ''t'' (sample_run_state (Some [tool_row RQueued (Some ''j'') (Some ''now'')]))
        (tool_answers JSucceeded) 9 ([], []) = [(''s'', analysis_key ''t'' sample_key, content)]
    \<and> report_row ''t'' [sample_artifact] [''analysis-'' @ sample_key] (object_at [(''s'', analysis_key ''t'' sample_key, content)])
        (\<lambda>c. if c = content then Some sample_outcome else None) r
      = Inr (evidence_entry r (''analysis-'' @ sample_key) sample_outcome)"
proof -
  let ?row = "tool_row RQueued (Some ''j'') (Some ''now'')"
  let ?st = "sample_run_state (Some [?row])"
  obtain r where step: "analysis_step sample_analysis sample_tools ''t'' ?st (tool_answers JSucceeded) 9 ([], [])
     = (Inr ([r], [sample_artifact]), ([], []))"
    using sample_collect by blast
  obtain pre r0 post r' x store content where got: "ledger_of ?st = pre @ r0 # post"
    "if ar_tool r0 = ''internal_rca''
       then \<exists>raw d. aa_native (tool_answers JSucceeded) = Inr raw \<and> dget raw ''assessment'' = PDict d \<and> ax_findings x = [d]
       else aa_result (tool_answers JSucceeded) = Inr x"
    "result_content x = Some content" "aa_store (tool_answers JSucceeded) = Inr store"
    "step_objects sample_analysis sample_tools ''t'' ?st (tool_answers JSucceeded) 9 ([], [])
      = [(store, analysis_key ''t'' (ar_key r0), content)]"
    "report_row ''t'' [sample_artifact] [''analysis-'' @ ar_key r0]
        (object_at (step_objects sample_analysis sample_tools ''t'' ?st (tool_answers JSucceeded) 9 ([], [])))
        (\<lambda>c. if c = content then Some x else None) r'
      = Inr (evidence_entry r' (''analysis-'' @ ar_key r0) x)"
  proof -
    have "analysis_ledger sample_analysis sample_tools ''t'' (ledger_of ?st)"
      "route_analysis ?st = ''analysis_step''"
      by (simp_all add: sample_tools_simps sample_queued sample_routed)
    from collected_result_reported [OF this step] show ?thesis
      using that by (auto simp: tool_answers_simps sample_outcome_valid)
  qed
  have "r0 = ?row"
    using got(1) by (cases pre) (auto simp: sample_tools_simps)
  then have "ar_key r0 = sample_key" "x = sample_outcome" "store = ''s''"
    using got(2,4) by (simp_all add: tool_row_simps tool_answers_simps)
  with got(3,5,6) show ?thesis by auto
qed

definition reported_row :: analysis_row where
  "reported_row = (tool_row RSucceeded (Some ''j'') (Some ''now''))
     \<lparr>ar_result := Some \<lparr>rr_preview = [], rr_artifact = ''analysis-'' @ sample_key,
                        rr_sha = sha256_hex ''{}'', rr_summary = [], rr_completed = []\<rparr>\<rparr>"

lemma sample_load:
  "\<exists>ev. load_report_evidence sample_tools ''t'' (sample_run_state (Some [reported_row])) [sample_artifact]
    [''analysis-'' @ sample_key] (\<lambda>store key. Inr (store, ''{}'')) (\<lambda>c. Some sample_outcome) = Inr ev"
proof -
  have fields: "dget sample_artifact ''id'' = PStr (''analysis-'' @ sample_key)"
    "dget sample_artifact ''kind'' = PStr ''analysis''"
    "dget sample_artifact ''key'' = PStr (analysis_key ''t'' (sample_key))"
    "dget sample_artifact ''artifact_connection_id'' = PStr ''s''"
    by (simp_all add: sample_artifact_def analysis_artifact_def dget_def tool_row_simps)
  have row: "ar_key reported_row = sample_key" "ar_status reported_row = RSucceeded"
    "ar_tool reported_row = ''perfreportforge''" "ar_connection reported_row = ''c''"
    "ar_digest reported_row = sample_evidence_digest"
    by (simp_all add: reported_row_def tool_row_simps)
  have "ar_result reported_row = Some \<lparr>rr_preview = [], rr_artifact = ''analysis-'' @ sample_key,
      rr_sha = sha256_hex ''{}'', rr_summary = [], rr_completed = []\<rparr>"
    by (simp add: reported_row_def)
  then show ?thesis
    by (simp add: load_report_evidence_def report_row_def recorded_artifact_def fields row sample_tools_simps
        sample_artifact_valid sample_hex sample_outcome_simps optional_text_def sample_tools_def)
qed

lemma report_evidence_verified_witness:
  "\<exists>ev. list_all2 (verified_entry ''t'' (\<lambda>store key. Inr (store, ''{}'')) (\<lambda>c. Some sample_outcome)) [reported_row] ev"
proof -
  obtain ev where "load_report_evidence sample_tools ''t'' (sample_run_state (Some [reported_row])) [sample_artifact]
    [''analysis-'' @ sample_key] (\<lambda>store key. Inr (store, ''{}'')) (\<lambda>c. Some sample_outcome) = Inr ev"
    using sample_load by blast
  from report_evidence_verified [OF this] show ?thesis
    by (auto simp: sample_tools_simps)
qed

end
