(* ===== verification/Http_Retry.thy ===== *)
theory Http_Retry
  imports Engine_Effects
begin

text \<open>
  Requests to providers under a retry policy and a circuit breaker, and the reading of bounded
  bodies (src/apex/adapters/http_resilience.py). Times and delays are exact numbers of seconds.

  Arguments of the definitions: what each attempt meets, with the readings of the clock; the
  readers of a Retry-After header as a number and as a date.
\<close>

subsection \<open>Policy and breaker\<close>

record retry_policy =
  rp_attempts :: int
  rp_base :: pyfloat
  rp_max :: pyfloat
  rp_cap :: pyfloat
  rp_total :: "pyfloat option"
  rp_transient :: "int \<Rightarrow> bool"
  rp_methods :: "string list"

definition IDEMPOTENT_METHODS :: "string list" where
  "IDEMPOTENT_METHODS = [''GET'', ''HEAD'', ''OPTIONS'']"

definition TRANSIENT_STATUSES :: "int \<Rightarrow> bool" where
  "TRANSIENT_STATUSES s \<longleftrightarrow> s = 408 \<or> s = 429 \<or> 500 \<le> s \<and> s < 600"

text \<open>The checks of \<open>__post_init__\<close>: finite numbers that are not negative.\<close>

definition usable_seconds :: "pyfloat \<Rightarrow> bool" where
  "usable_seconds f = (case f of FFin q \<Rightarrow> 0 \<le> q | _ \<Rightarrow> False)"

definition retry_policy_init :: "retry_policy \<Rightarrow> retry_policy res" where
  "retry_policy_init p =
     (if rp_attempts p < 1 then Inl (ValueError ''retry attempts must be a positive integer'')
      else if \<not> usable_seconds (rp_base p) then Inl (ValueError ''base_delay_s must be a finite non-negative number'')
      else if \<not> usable_seconds (rp_max p) then Inl (ValueError ''max_delay_s must be a finite non-negative number'')
      else if \<not> usable_seconds (rp_cap p) then Inl (ValueError ''retry_after_cap_s must be a finite non-negative number'')
      else (case rp_total p of
        Some t \<Rightarrow> if usable_seconds t then Inr p
                  else Inl (ValueError ''total_timeout_s must be a finite non-negative number or None'')
      | None \<Rightarrow> Inr p))"

definition seconds :: "pyfloat \<Rightarrow> rat" where
  "seconds f = (case f of FFin q \<Rightarrow> q | _ \<Rightarrow> 0)"

record breaker =
  br_threshold :: nat
  br_reset :: rat
  br_failures :: nat
  br_opened :: "rat option"

datatype http_exn =
    CircuitOpen
  | TransportError
  | TotalTimeout
  | ReadTimeout
  | ResponseTooLarge string
  | BadRetry string
  | Escaped string

definition before_request :: "rat \<Rightarrow> breaker \<Rightarrow> http_exn + breaker" where
  "before_request now b =
     (case br_opened b of
        None \<Rightarrow> Inr b
      | Some t \<Rightarrow> if now - t < br_reset b then Inl CircuitOpen
                  else Inr (b\<lparr>br_opened := None, br_failures := 0\<rparr>))"

definition record_success :: "breaker \<Rightarrow> breaker" where
  "record_success b = b\<lparr>br_failures := 0, br_opened := None\<rparr>"

definition record_failure :: "rat \<Rightarrow> breaker \<Rightarrow> breaker" where
  "record_failure now b =
     (let b' = b\<lparr>br_failures := br_failures b + 1\<rparr>
      in if br_threshold b \<le> br_failures b' then b'\<lparr>br_opened := Some now\<rparr> else b')"

subsection \<open>Delays\<close>

text \<open>Jitter and delay; doubling that overflows stands for the maximum, which caps it in any case.\<close>

definition backoff_delay :: "retry_policy \<Rightarrow> nat \<Rightarrow> pyfloat \<Rightarrow> http_exn + rat" where
  "backoff_delay p n jitter =
     (case jitter of
        FFin j \<Rightarrow>
          if 0 \<le> j \<and> j \<le> 1
          then Inr (min (min (seconds (rp_base p) * 2 ^ (n - 1)) (seconds (rp_max p)) * (1 + j * (1 / 4)))
                        (seconds (rp_max p)))
          else Inl (BadRetry ''retry jitter must be a finite number between 0 and 1'')
      | _ \<Rightarrow> Inl (BadRetry ''retry jitter must be a finite number between 0 and 1''))"

record header_readers =
  hd_float :: "string \<Rightarrow> pyfloat option"
  hd_date :: "string \<Rightarrow> rat option"

definition retry_after_delay ::
  "header_readers \<Rightarrow> retry_policy \<Rightarrow> nat \<Rightarrow> pyfloat \<Rightarrow> string option \<Rightarrow> rat \<Rightarrow> http_exn + rat" where
  "retry_after_delay rd p n jitter header now =
     (let cap = max (seconds (rp_cap p)) (seconds (rp_max p));
          dated = (\<lambda>h. case hd_date rd h of
                     None \<Rightarrow> backoff_delay p n jitter | Some t \<Rightarrow> Inr (min (max (t - now) 0) cap))
      in case header of
        None \<Rightarrow> backoff_delay p n jitter
      | Some h \<Rightarrow> (case hd_float rd h of
          Some (FFin q) \<Rightarrow> Inr (min (max q 0) cap) | _ \<Rightarrow> dated h))"

subsection \<open>Requests\<close>

record response =
  re_number :: nat
  re_status :: int
  re_retry_after :: "string option"
  re_deadline :: "rat option"

datatype reply = Replied int "string option" | Refused | TimedOut | Threw string

text \<open>What attempt \<open>n\<close> meets; the clock readings are those of each place that reads it.\<close>

record http_attempt =
  at_check :: rat
  at_send :: rat
  at_reply :: reply
  at_failure :: rat
  at_closed :: "string option"
  at_wall :: rat
  at_jitter :: pyfloat
  at_wait :: rat
  at_late :: bool

text \<open>The attempts that were sent, the responses still open, the delays slept and the breaker.\<close>

record http_world =
  hw_sent :: "nat list"
  hw_open :: "nat list"
  hw_slept :: "rat list"
  hw_breaker :: "breaker option"

type_synonym 'a http = "(http_world, http_exn, 'a) eff"

definition check_breaker :: "rat \<Rightarrow> unit http" where
  "check_breaker now w =
     (case hw_breaker w of
        None \<Rightarrow> (Inr (), w)
      | Some b \<Rightarrow> (case before_request now b of
          Inl e \<Rightarrow> (Inl e, w) | Inr b' \<Rightarrow> (Inr (), w\<lparr>hw_breaker := Some b'\<rparr>)))"

definition on_breaker :: "(breaker \<Rightarrow> breaker) \<Rightarrow> unit http" where
  "on_breaker f w = (Inr (), w\<lparr>hw_breaker := map_option f (hw_breaker w)\<rparr>)"

text \<open>A request whose deadline is over is not sent.\<close>

definition stream_request :: "nat \<Rightarrow> http_attempt \<Rightarrow> rat option \<Rightarrow> reply http" where
  "stream_request n x deadline w =
     (if \<exists>d. deadline = Some d \<and> d - at_send x \<le> 0 then (Inr TimedOut, w)
      else (Inr (at_reply x),
            w\<lparr>hw_sent := hw_sent w @ [n],
              hw_open := (case at_reply x of Replied s h \<Rightarrow> hw_open w @ [n] | _ \<Rightarrow> hw_open w)\<rparr>))"

definition close_response_definitively :: "nat \<Rightarrow> string option \<Rightarrow> unit http" where
  "close_response_definitively n err w =
     (case err of None \<Rightarrow> Inr () | Some m \<Rightarrow> Inl (Escaped m), w\<lparr>hw_open := removeAll n (hw_open w)\<rparr>)"

definition lift_res :: "http_exn + 'a \<Rightarrow> 'a http" where
  "lift_res r w = (r, w)"

definition sleep_with_deadline :: "http_attempt \<Rightarrow> rat option \<Rightarrow> rat \<Rightarrow> unit http" where
  "sleep_with_deadline x deadline delay w =
     (case deadline of
        None \<Rightarrow> (Inr (), w\<lparr>hw_slept := hw_slept w @ [delay]\<rparr>)
      | Some d \<Rightarrow>
          if d - at_wait x \<le> 0 then (Inl TotalTimeout, w)
          else (if at_late x then Inl TotalTimeout else Inr (),
                w\<lparr>hw_slept := hw_slept w @ [min delay (d - at_wait x)]\<rparr>))"

text \<open>Attempt \<open>n\<close>: \<open>None\<close> goes on with the next one.\<close>

definition request_attempt ::
  "header_readers \<Rightarrow> retry_policy \<Rightarrow> bool \<Rightarrow> rat option \<Rightarrow> nat \<Rightarrow> http_attempt \<Rightarrow> response option http" where
  "request_attempt rd p can_retry deadline n x =
     (let last = (\<not> can_retry \<or> nat (max (rp_attempts p) 1) \<le> n)
      in seq (check_breaker (at_check x)) (\<lambda>_.
         seq (stream_request n x deadline) (\<lambda>reply. case reply of
           Threw m \<Rightarrow> raise (Escaped m)
         | Refused \<Rightarrow>
             if last then seq (on_breaker (record_failure (at_failure x))) (\<lambda>_. raise TransportError)
             else seq (lift_res (backoff_delay p n (at_jitter x))) (\<lambda>delay.
                  seq (sleep_with_deadline x deadline delay) (\<lambda>_. ret None))
         | TimedOut \<Rightarrow> seq (on_breaker (record_failure (at_failure x))) (\<lambda>_. raise TotalTimeout)
         | Replied s h \<Rightarrow>
             (let response = \<lparr>re_number = n, re_status = s, re_retry_after = h, re_deadline = deadline\<rparr>
              in if rp_transient p s
                 then if last then seq (on_breaker (record_failure (at_failure x))) (\<lambda>_. ret (Some response))
                      else seq (close_response_definitively n (at_closed x)) (\<lambda>_.
                           seq (lift_res (retry_after_delay rd p n (at_jitter x) h (at_wall x))) (\<lambda>delay.
                           seq (sleep_with_deadline x deadline delay) (\<lambda>_. ret None)))
                 else seq (on_breaker record_success) (\<lambda>_. ret (Some response))))))"

text \<open>\<open>for attempt in range(1, max_attempts + 1)\<close>: \<open>left\<close> attempts from number \<open>n\<close> on.\<close>

fun request_loop ::
  "header_readers \<Rightarrow> retry_policy \<Rightarrow> bool \<Rightarrow> rat option \<Rightarrow> (nat \<Rightarrow> http_attempt) \<Rightarrow> nat \<Rightarrow> nat \<Rightarrow> response http" where
  "request_loop rd p can_retry deadline xs n 0 =
     raise (Escaped ''resilient_stream_request exhausted attempts without a response'')"
| "request_loop rd p can_retry deadline xs n (Suc left) =
     seq (request_attempt rd p can_retry deadline n (xs n)) (\<lambda>r. case r of
       Some response \<Rightarrow> ret response
     | None \<Rightarrow> request_loop rd p can_retry deadline xs (n + 1) left)"

definition resilient_stream_request ::
  "header_readers \<Rightarrow> retry_policy \<Rightarrow> string \<Rightarrow> rat \<Rightarrow> (nat \<Rightarrow> http_attempt) \<Rightarrow> response http" where
  "resilient_stream_request rd p verb now xs =
     request_loop rd p (verb \<in> set (rp_methods p)) (map_option (\<lambda>t. now + max (seconds t) 0) (rp_total p)) xs 1
       (nat (max (rp_attempts p) 1))"

subsection \<open>Bodies\<close>

text \<open>
  What reading a body meets: the clock, the Content-Encoding without blanks and in lower case, the
  declared length if it is an integer, a body that was consumed before, else its chunks with
  \<open>None\<close> where the read fails.
\<close>

record body_source =
  bs_now :: rat
  bs_encoding :: string
  bs_length :: "int option"
  bs_consumed :: "string option"
  bs_chunks :: "string option list"
  bs_closed :: "string option"

definition HARD_MAX_BUFFERED_RESPONSE_BYTES :: int where
  "HARD_MAX_BUFFERED_RESPONSE_BYTES = 16777216"

fun read_chunks :: "int \<Rightarrow> string \<Rightarrow> string option list \<Rightarrow> http_exn + string" where
  "read_chunks hi body [] = Inr body"
| "read_chunks hi body (None # cs) = Inl ReadTimeout"
| "read_chunks hi body (Some c # cs) =
     (if hi < int (length body) + int (length c)
      then Inl (ResponseTooLarge ''provider response exceeded decoded-body limit'')
      else read_chunks hi (body @ c) cs)"

definition read_body :: "int \<Rightarrow> body_source \<Rightarrow> http_exn + string" where
  "read_body hi b =
     (case bs_consumed b of
        Some content \<Rightarrow>
          if hi < int (length content)
          then Inl (ResponseTooLarge ''provider response exceeded decoded-body limit'') else Inr content
      | None \<Rightarrow> read_chunks hi [] (bs_chunks b))"

text \<open>\<open>finally\<close>: the clean-up always runs, and what it raises replaces the outcome.\<close>

definition with_cleanup :: "'a http \<Rightarrow> unit http \<Rightarrow> 'a http" where
  "with_cleanup m f w =
     (case m w of (x, w') \<Rightarrow> (case f w' of (Inl e, w'') \<Rightarrow> (Inl e, w'') | (Inr u, w'') \<Rightarrow> (x, w'')))"

definition read_bounded_response :: "int \<Rightarrow> body_source \<Rightarrow> response \<Rightarrow> (response \<times> string) http" where
  "read_bounded_response hi b r =
     (if \<not> (1 \<le> hi \<and> hi \<le> HARD_MAX_BUFFERED_RESPONSE_BYTES)
      then raise (BadRetry ''max_bytes must be between 1 and 16777216'')
      else (let refused = (if \<exists>d. re_deadline r = Some d \<and> d \<le> bs_now b then Some ReadTimeout
                           else if bs_encoding b \<notin> {'''', ''identity''}
                           then Some (ResponseTooLarge ''provider ignored Accept-Encoding: identity'')
                           else if \<exists>n. bs_length b = Some n \<and> hi < n
                           then Some (ResponseTooLarge ''provider response declared too many bytes'') else None)
            in seq (with_cleanup (lift_res (case refused of Some e \<Rightarrow> Inl e | None \<Rightarrow> read_body hi b))
                        (close_response_definitively (re_number r) (bs_closed b))) (\<lambda>body.
               ret (r, body))))"

definition resilient_request ::
  "header_readers \<Rightarrow> retry_policy \<Rightarrow> string \<Rightarrow> int \<Rightarrow> rat \<Rightarrow> (nat \<Rightarrow> http_attempt) \<Rightarrow> body_source
   \<Rightarrow> (response \<times> string) http" where
  "resilient_request rd p verb hi now xs b =
     (if \<not> (1 \<le> hi \<and> hi \<le> HARD_MAX_BUFFERED_RESPONSE_BYTES)
      then raise (BadRetry ''max_response_bytes must be between 1 and 16777216'')
      else seq (resilient_stream_request rd p verb now xs) (read_bounded_response hi b))"

subsection \<open>Bounds of a request\<close>

definition delay_ok :: "retry_policy \<Rightarrow> rat \<Rightarrow> bool" where
  "delay_ok p d \<longleftrightarrow> 0 \<le> d \<and> d \<le> max (seconds (rp_cap p)) (seconds (rp_max p))"

lemma policy_init:
  assumes "retry_policy_init p = Inr q"
  shows "q = p" "1 \<le> rp_attempts p" "0 \<le> seconds (rp_base p)" "0 \<le> seconds (rp_max p)" "0 \<le> seconds (rp_cap p)"
  using assms by (auto simp: retry_policy_init_def usable_seconds_def seconds_def
      split: if_splits option.splits pyfloat.splits)

lemma backoff_ok:
  assumes "retry_policy_init p = Inr p" "backoff_delay p n jitter = Inr d"
  shows "delay_ok p d"
  using policy_init [OF assms(1)] assms(2)
  by (auto simp: backoff_delay_def delay_ok_def split: pyfloat.splits if_splits)

lemma retry_after_delay_ok:
  assumes "retry_policy_init p = Inr p" "retry_after_delay rd p n jitter header now = Inr d"
  shows "delay_ok p d"
proof -
  have "0 \<le> max (seconds (rp_cap p)) (seconds (rp_max p))"
    using policy_init [OF assms(1)] by simp
  then show ?thesis
    using assms(2) backoff_ok [OF assms(1)]
    by (auto simp: retry_after_delay_def Let_def delay_ok_def split: option.splits pyfloat.splits)
qed

text \<open>What one attempt adds: at most one request and one delay, and no response but the one it returns.\<close>

definition attempt_adds ::
  "retry_policy \<Rightarrow> bool \<Rightarrow> nat \<Rightarrow> http_world \<Rightarrow> (http_exn + response option) \<Rightarrow> http_world \<Rightarrow> bool" where
  "attempt_adds p can_retry n w x w' \<longleftrightarrow>
     (hw_sent w' = hw_sent w \<or> hw_sent w' = hw_sent w @ [n])
     \<and> (case x of Inr (Some r) \<Rightarrow> hw_open w' = [re_number r] \<and> hw_slept w' = hw_slept w
        | _ \<Rightarrow> hw_open w' = [] \<and> (hw_slept w' = hw_slept w \<or> (\<exists>d. delay_ok p d \<and> hw_slept w' = hw_slept w @ [d])))
     \<and> (x = Inr None \<or> hw_slept w' \<noteq> hw_slept w \<longrightarrow> can_retry \<and> int n < max (rp_attempts p) 1)"

lemma sleep_adds:
  assumes "delay_ok p delay" "sleep_with_deadline x deadline delay w = (y, w')"
  shows "hw_sent w' = hw_sent w \<and> hw_open w' = hw_open w
    \<and> (hw_slept w' = hw_slept w \<or> (\<exists>d. delay_ok p d \<and> hw_slept w' = hw_slept w @ [d]))"
  using assms by (auto simp: sleep_with_deadline_def delay_ok_def min_def split: option.splits if_splits)

lemma check_breaker_same:
  "check_breaker now w = (y, w') \<Longrightarrow> hw_sent w' = hw_sent w \<and> hw_open w' = hw_open w \<and> hw_slept w' = hw_slept w"
  by (auto simp: check_breaker_def split: option.splits sum.splits)

lemma stream_request_adds:
  "stream_request n x deadline w = (y, w') \<Longrightarrow> hw_slept w' = hw_slept w
    \<and> (hw_sent w' = hw_sent w \<or> hw_sent w' = hw_sent w @ [n])
    \<and> (\<exists>reply. y = Inr reply
        \<and> hw_open w' = (case reply of Replied s h \<Rightarrow> hw_open w @ [n] | _ \<Rightarrow> hw_open w))"
  by (auto simp: stream_request_def split: if_splits reply.splits)

lemmas http_simps = seq_def ret_def raise_def lift_res_def on_breaker_def close_response_definitively_def

lemma sleep_attempt:
  assumes "delay_ok p delay" "seq (sleep_with_deadline x deadline delay) (\<lambda>_. ret None) w1 = (y, w')"
    "hw_open w1 = []" "hw_slept w1 = hw_slept w" "hw_sent w1 = hw_sent w \<or> hw_sent w1 = hw_sent w @ [n]"
    "can_retry" "int n < max (rp_attempts p) 1"
  shows "attempt_adds p can_retry n w y w'"
proof -
  obtain z w2 where sleep: "sleep_with_deadline x deadline delay w1 = (z, w2)" by fastforce
  with assms(2) have "w' = w2" "y = (case z of Inl e \<Rightarrow> Inl e | Inr u \<Rightarrow> Inr None)"
    by (auto simp: seq_def ret_def split: sum.splits)
  then show ?thesis
    using sleep_adds [OF assms(1) sleep] assms(3-) by (auto simp: attempt_adds_def split: sum.splits)
qed

lemma request_attempt_adds:
  assumes "retry_policy_init p = Inr p" "hw_open w = []" "request_attempt rd p can_retry deadline n x w = (y, w')"
  shows "attempt_adds p can_retry n w y w'"
proof -
  obtain b w1 where check: "check_breaker (at_check x) w = (b, w1)" by fastforce
  note same = check_breaker_same [OF check]
  show ?thesis
  proof (cases b)
    case (Inl e)
    with check same assms show ?thesis
      by (auto simp: request_attempt_def seq_def Let_def attempt_adds_def)
  next
    case (Inr u)
    obtain z w2 where send: "stream_request n x deadline w1 = (z, w2)" by fastforce
    from stream_request_adds [OF this] obtain reply where reply: "z = Inr reply" "hw_slept w2 = hw_slept w"
      "hw_sent w2 = hw_sent w \<or> hw_sent w2 = hw_sent w @ [n]"
      "hw_open w2 = (case reply of Replied s h \<Rightarrow> hw_open w1 @ [n] | _ \<Rightarrow> hw_open w1)"
      using same by auto
    have none: "hw_open w1 = []"
      using same assms(2) by simp
    note eq = assms(3) [unfolded request_attempt_def Let_def seq_def [of "check_breaker (at_check x)"] check Inr
      seq_def [of "stream_request n x deadline"], simplified, unfolded send reply(1), simplified]
    show ?thesis
    proof (cases reply)
      case (Replied s h)
      show ?thesis
      proof (cases "rp_transient p s \<and> can_retry \<and> \<not> nat (max (rp_attempts p) 1) \<le> n \<and> at_closed x = None
          \<and> (\<exists>d. retry_after_delay rd p n (at_jitter x) h (at_wall x) = Inr d)")
        case True
        then obtain d where d: "retry_after_delay rd p n (at_jitter x) h (at_wall x) = Inr d" by blast
        have "seq (sleep_with_deadline x deadline d) (\<lambda>_. ret None) (w2\<lparr>hw_open := []\<rparr>) = (y, w')"
          using eq reply none True Replied d
          by (simp add: seq_def [of "close_response_definitively _ _"] seq_def [of "lift_res _"]
              close_response_definitively_def lift_res_def)
        then show ?thesis
          by (rule sleep_attempt [OF retry_after_delay_ok [OF assms(1) d]]) (use reply none True in auto)
      next
        case False
        then show ?thesis
          using eq reply none Replied
          by (auto simp: attempt_adds_def http_simps split: if_splits option.splits sum.splits)
      qed
    next
      case Refused
      show ?thesis
      proof (cases "can_retry \<and> \<not> nat (max (rp_attempts p) 1) \<le> n \<and> (\<exists>d. backoff_delay p n (at_jitter x) = Inr d)")
        case True
        then obtain d where d: "backoff_delay p n (at_jitter x) = Inr d" by blast
        have "seq (sleep_with_deadline x deadline d) (\<lambda>_. ret None) w2 = (y, w')"
          using eq reply none True Refused d by (simp add: seq_def [of "lift_res _"] lift_res_def)
        then show ?thesis
          by (rule sleep_attempt [OF backoff_ok [OF assms(1) d]]) (use reply none True Refused in auto)
      next
        case False
        then show ?thesis
          using eq reply none Refused
          by (auto simp: attempt_adds_def http_simps split: if_splits sum.splits)
      qed
    qed (use eq reply none in \<open>auto simp: attempt_adds_def http_simps\<close>)
  qed
qed

lemma request_loop_adds:
  assumes "retry_policy_init p = Inr p" "hw_open w = []"
    "request_loop rd p can_retry deadline xs n left w = (y, w')" "n + left = nat (max (rp_attempts p) 1) + 1"
  shows "length (hw_sent w') \<le> length (hw_sent w) + (if can_retry then left else min 1 left)
    \<and> length (hw_slept w') \<le> length (hw_slept w) + left
    \<and> (\<forall>d \<in> set (hw_slept w'). d \<in> set (hw_slept w) \<or> delay_ok p d)
    \<and> hw_open w' = (case y of Inl e \<Rightarrow> [] | Inr r \<Rightarrow> [re_number r])"
  using assms(2-)
proof (induction left arbitrary: n w)
  case 0
  then show ?case by (auto simp: raise_def)
next
  case (Suc left)
  obtain x w1 where step: "request_attempt rd p can_retry deadline n (xs n) w = (x, w1)" by fastforce
  have adds: "attempt_adds p can_retry n w x w1"
    by (rule request_attempt_adds [OF assms(1) Suc.prems(1) step])
  show ?case
  proof (cases "x = Inr None")
    case True
    with adds have "can_retry" "hw_open w1 = []" by (auto simp: attempt_adds_def)
    moreover have "request_loop rd p can_retry deadline xs (n + 1) left w1 = (y, w')"
      using Suc.prems(2) step True by (simp add: seq_def)
    ultimately show ?thesis
      using Suc.IH [of w1 "n + 1"] Suc.prems(3) adds True by (auto simp: attempt_adds_def split: sum.splits)
  next
    case False
    with step Suc.prems(2) have "w' = w1" "y = (case x of Inl e \<Rightarrow> Inl e | Inr r \<Rightarrow> Inr (the r))"
      by (auto simp: seq_def ret_def split: sum.splits option.splits)
    then show ?thesis
      using adds False by (auto simp: attempt_adds_def split: sum.splits option.splits)
  qed
qed

lemma read_chunks_bound: "read_chunks hi body cs = Inr b \<Longrightarrow> int (length body) \<le> hi \<Longrightarrow> int (length b) \<le> hi"
  by (induction hi body cs rule: read_chunks.induct) (auto split: if_splits)

lemma read_body_bound: "read_body hi b = Inr c \<Longrightarrow> 1 \<le> hi \<Longrightarrow> int (length c) \<le> hi"
  by (auto simp: read_body_def split: option.splits if_splits dest: read_chunks_bound)

lemma read_bounded_response_closes:
  assumes "read_bounded_response hi b r w = (y, w')" "1 \<le> hi" "hi \<le> HARD_MAX_BUFFERED_RESPONSE_BYTES"
  shows "w' = w\<lparr>hw_open := removeAll (re_number r) (hw_open w)\<rparr>
    \<and> (\<forall>s c. y = Inr (s, c) \<longrightarrow> s = r \<and> int (length c) \<le> hi)"
  using assms read_body_bound [of hi b]
  by (auto simp: read_bounded_response_def with_cleanup_def http_simps Let_def
      split: if_splits option.splits sum.splits)

text \<open>
  C39. A request under a policy that passed its checks sends at most the configured attempts, one
  only for a method that must not be retried, whatever the provider answers, times out or throws; it
  sleeps only between attempts and never longer than the caps, hands over a body within the limit of
  the caller, and leaves no response open, neither one that it discards nor the one it returns.
\<close>

theorem resilient_request_bounded:
  assumes "retry_policy_init p = Inr p"
    and "resilient_request rd p verb hi now xs b \<lparr>hw_sent = [], hw_open = [], hw_slept = [], hw_breaker = br\<rparr> = (y, w)"
  shows "int (length (hw_sent w)) \<le> (if verb \<in> set (rp_methods p) then rp_attempts p else 1)
    \<and> int (length (hw_slept w)) \<le> rp_attempts p \<and> list_all (delay_ok p) (hw_slept w) \<and> hw_open w = []
    \<and> (case y of Inr (r, body) \<Rightarrow> int (length body) \<le> hi | Inl e \<Rightarrow> True)"
proof (cases "1 \<le> hi \<and> hi \<le> HARD_MAX_BUFFERED_RESPONSE_BYTES")
  case True
  let ?w = "\<lparr>hw_sent = [], hw_open = [], hw_slept = [], hw_breaker = br\<rparr>"
  obtain x w1 where sent: "resilient_stream_request rd p verb now xs ?w = (x, w1)" by fastforce
  have "1 \<le> rp_attempts p" by (rule policy_init [OF assms(1)])
  then have w1: "int (length (hw_sent w1)) \<le> (if verb \<in> set (rp_methods p) then rp_attempts p else 1)"
    "int (length (hw_slept w1)) \<le> rp_attempts p" "\<forall>d \<in> set (hw_slept w1). delay_ok p d"
    "hw_open w1 = (case x of Inl e \<Rightarrow> [] | Inr r \<Rightarrow> [re_number r])"
    using request_loop_adds [OF assms(1) _ sent [unfolded resilient_stream_request_def]]
    by (auto split: if_splits)
  show ?thesis
  proof (cases x)
    case (Inl e)
    with sent assms(2) True w1 show ?thesis
      by (auto simp: resilient_request_def seq_def list_all_iff)
  next
    case (Inr r)
    with sent assms(2) True have "read_bounded_response hi b r w1 = (y, w)"
      by (simp add: resilient_request_def seq_def)
    from read_bounded_response_closes [OF this] True w1 Inr show ?thesis
      by (auto simp: list_all_iff split: sum.splits)
  qed
next
  case False
  have "1 \<le> rp_attempts p" by (rule policy_init [OF assms(1)])
  with False assms(2) show ?thesis
    by (auto simp: resilient_request_def raise_def)
qed

subsection \<open>The breaker\<close>

text \<open>The requests of one adapter, which share its breaker: their outcomes in order.\<close>

record http_call =
  hc_verb :: string
  hc_now :: rat
  hc_attempts :: "nat \<Rightarrow> http_attempt"

definition adapter_call :: "header_readers \<Rightarrow> retry_policy \<Rightarrow> http_call \<Rightarrow> response http" where
  "adapter_call rd p c = resilient_stream_request rd p (hc_verb c) (hc_now c) (hc_attempts c)"

fun run_calls ::
  "header_readers \<Rightarrow> retry_policy \<Rightarrow> http_call list \<Rightarrow> http_world \<Rightarrow> (http_exn + response) list \<times> http_world" where
  "run_calls rd p [] w = ([], w)"
| "run_calls rd p (c # cs) w =
     (case adapter_call rd p c w of (x, w') \<Rightarrow> (case run_calls rd p cs w' of (xs, w'') \<Rightarrow> (x # xs, w'')))"

text \<open>
  How a call can fail, said of what its attempts meet alone. The request of an attempt times out when
  the deadline of the call is over before it is sent, or while it runs.
\<close>

definition call_deadline :: "retry_policy \<Rightarrow> http_call \<Rightarrow> rat option" where
  "call_deadline p c = map_option (\<lambda>t. hc_now c + max (seconds t) 0) (rp_total p)"

definition request_times_out :: "retry_policy \<Rightarrow> http_call \<Rightarrow> nat \<Rightarrow> bool" where
  "request_times_out p c k \<longleftrightarrow>
     at_reply (hc_attempts c k) = TimedOut
     \<or> (\<exists>d. call_deadline p c = Some d \<and> d - at_send (hc_attempts c k) \<le> 0)"

definition transient_reply :: "retry_policy \<Rightarrow> reply \<Rightarrow> bool" where
  "transient_reply p r = (case r of Refused \<Rightarrow> True | Replied s h \<Rightarrow> rp_transient p s | _ \<Rightarrow> False)"

text \<open>
  Attempt \<open>k\<close> is followed by another one: no connection, or a transient status whose response closes,
  and the delay before the next attempt ends within the deadline.
\<close>

definition goes_on :: "retry_policy \<Rightarrow> http_call \<Rightarrow> nat \<Rightarrow> bool" where
  "goes_on p c k \<longleftrightarrow>
     (let x = hc_attempts c k
      in \<not> request_times_out p c k \<and> transient_reply p (at_reply x) \<and> at_closed x = None
         \<and> (\<exists>q. at_jitter x = FFin q \<and> 0 \<le> q \<and> q \<le> 1)
         \<and> (\<forall>d. call_deadline p c = Some d \<longrightarrow> 0 < d - at_wait x \<and> \<not> at_late x))"

text \<open>
  The call fails at its attempt \<open>k\<close>: its request times out, or the last attempt that the policy
  allows ends without a connection or with a transient status.
\<close>

definition fails_at :: "retry_policy \<Rightarrow> http_call \<Rightarrow> nat \<Rightarrow> bool" where
  "fails_at p c k \<longleftrightarrow>
     1 \<le> k \<and> k \<le> nat (max (rp_attempts p) 1) \<and> (1 < k \<longrightarrow> hc_verb c \<in> set (rp_methods p))
     \<and> (\<forall>j \<in> {1..<k}. goes_on p c j)
     \<and> (request_times_out p c k
        \<or> transient_reply p (at_reply (hc_attempts c k))
          \<and> (hc_verb c \<notin> set (rp_methods p) \<or> k = nat (max (rp_attempts p) 1)))"

text \<open>What the caller of such a call gets.\<close>

definition failure_outcome :: "retry_policy \<Rightarrow> http_call \<Rightarrow> nat \<Rightarrow> http_exn + response \<Rightarrow> bool" where
  "failure_outcome p c k y \<longleftrightarrow>
     (if request_times_out p c k then y = Inl TotalTimeout
      else case at_reply (hc_attempts c k) of
        Refused \<Rightarrow> y = Inl TransportError
      | Replied s h \<Rightarrow> \<exists>r. y = Inr r \<and> re_number r = k \<and> re_status r = s
      | _ \<Rightarrow> False)"

lemma closed_check: "hw_breaker w = Some b \<Longrightarrow> br_opened b = None \<Longrightarrow> check_breaker now w = (Inr (), w)"
  by (simp add: check_breaker_def before_request_def)

lemma delays_known:
  assumes "at_jitter x = FFin q" "0 \<le> q" "q \<le> 1"
  shows "\<exists>d. backoff_delay p n (at_jitter x) = Inr d" "\<exists>d. retry_after_delay rd p n (at_jitter x) h now = Inr d"
  using assms by (auto simp: retry_after_delay_def backoff_delay_def Let_def split: option.split pyfloat.split)

lemma slept_breaker:
  assumes "\<forall>d. deadline = Some d \<longrightarrow> 0 < d - at_wait x \<and> \<not> at_late x"
  shows "\<exists>w'. sleep_with_deadline x deadline delay w = (Inr (), w') \<and> hw_breaker w' = hw_breaker w"
  using assms by (cases deadline) (auto simp: sleep_with_deadline_def)

lemma stream_request_reply:
  "\<exists>w'. stream_request n x deadline w
     = (Inr (if \<exists>d. deadline = Some d \<and> d - at_send x \<le> 0 then TimedOut else at_reply x), w') \<and> hw_breaker w' = hw_breaker w"
  by (auto simp: stream_request_def)

lemma attempt_goes_on:
  assumes "hw_breaker w = Some b" "br_opened b = None" "goes_on p c k" "k < nat (max (rp_attempts p) 1)"
  shows "\<exists>w'. request_attempt rd p True (call_deadline p c) k (hc_attempts c k) w = (Inr None, w') \<and> hw_breaker w' = Some b"
proof -
  let ?x = "hc_attempts c k"
  note on = assms(3) [unfolded goes_on_def Let_def request_times_out_def]
  obtain w1 where send: "stream_request k ?x (call_deadline p c) w = (Inr (at_reply ?x), w1)" "hw_breaker w1 = Some b"
    using stream_request_reply [of k ?x "call_deadline p c" w] on assms(1) by auto
  obtain q where q: "at_jitter ?x = FFin q" "0 \<le> q" "q \<le> 1" using on by blast
  have sleep: "\<exists>w'. sleep_with_deadline ?x (call_deadline p c) delay v = (Inr (), w') \<and> hw_breaker w' = hw_breaker v" for delay v
    by (rule slept_breaker) (use on in blast)
  have last: "\<not> nat (max (rp_attempts p) 1) \<le> k" using assms(4) by simp
  have reply: "transient_reply p (at_reply ?x)" "at_closed ?x = None" using on by auto
  show ?thesis
  proof (cases "at_reply ?x")
    case (Replied s h)
    obtain d where d: "retry_after_delay rd p k (at_jitter ?x) h (at_wall ?x) = Inr d"
      using delays_known(2) [OF q] by blast
    let ?v = "w1\<lparr>hw_open := removeAll k (hw_open w1)\<rparr>"
    obtain w2 where w2: "sleep_with_deadline ?x (call_deadline p c) d ?v = (Inr (), w2)" "hw_breaker w2 = Some b"
      using sleep [of d ?v] send(2) by auto
    show ?thesis
      using reply Replied last d w2 send
      by (simp add: request_attempt_def Let_def seq_def closed_check [OF assms(1,2)] transient_reply_def lift_res_def ret_def
          close_response_definitively_def)
  next
    case Refused
    obtain d where d: "backoff_delay p k (at_jitter ?x) = Inr d"
      using delays_known(1) [OF q] by blast
    obtain w2 where w2: "sleep_with_deadline ?x (call_deadline p c) d w1 = (Inr (), w2)" "hw_breaker w2 = Some b"
      using sleep [of d w1] send(2) by auto
    show ?thesis
      using Refused last d w2 send
      by (simp add: request_attempt_def Let_def seq_def closed_check [OF assms(1,2)] lift_res_def ret_def)
  qed (use reply in \<open>simp_all add: transient_reply_def\<close>)
qed

lemma attempt_fails:
  assumes "hw_breaker w = Some b" "br_opened b = None"
    and "request_times_out p c k \<or> transient_reply p (at_reply (hc_attempts c k))
      \<and> (\<not> can_retry \<or> k = nat (max (rp_attempts p) 1))"
    and "k \<le> nat (max (rp_attempts p) 1)"
  shows "\<exists>y w'. request_attempt rd p can_retry (call_deadline p c) k (hc_attempts c k) w = (y, w') \<and> y \<noteq> Inr None
    \<and> failure_outcome p c k (case y of Inl e \<Rightarrow> Inl e | Inr r \<Rightarrow> Inr (the r))
    \<and> hw_breaker w' = Some (record_failure (at_failure (hc_attempts c k)) b)"
proof -
  let ?x = "hc_attempts c k"
  obtain w1 where send: "stream_request k ?x (call_deadline p c) w
      = (Inr (if \<exists>d. call_deadline p c = Some d \<and> d - at_send ?x \<le> 0 then TimedOut else at_reply ?x), w1)"
    "hw_breaker w1 = Some b"
    using stream_request_reply [of k ?x "call_deadline p c" w] assms(1) by auto
  show ?thesis
  proof (cases "request_times_out p c k")
    case True
    then have "(if \<exists>d. call_deadline p c = Some d \<and> d - at_send ?x \<le> 0 then TimedOut else at_reply ?x) = TimedOut"
      by (auto simp: request_times_out_def)
    with send True show ?thesis
      by (simp add: request_attempt_def Let_def seq_def closed_check [OF assms(1,2)] on_breaker_def raise_def failure_outcome_def)
  next
    case False
    then have "stream_request k ?x (call_deadline p c) w = (Inr (at_reply ?x), w1)" "at_reply ?x \<noteq> TimedOut"
      using send by (auto simp: request_times_out_def)
    with send(2) False assms(3) show ?thesis
      by (cases "at_reply ?x") (auto simp: request_attempt_def Let_def seq_def closed_check [OF assms(1,2)] on_breaker_def raise_def
          ret_def failure_outcome_def transient_reply_def)
  qed
qed

lemma request_loop_fails:
  assumes "hw_breaker w = Some b" "br_opened b = None" "fails_at p c k" "1 \<le> n" "n \<le> k"
    and "n + left = nat (max (rp_attempts p) 1) + 1"
  shows "\<exists>y w'. request_loop rd p (hc_verb c \<in> set (rp_methods p)) (call_deadline p c) (hc_attempts c) n left w = (y, w')
    \<and> failure_outcome p c k y \<and> hw_breaker w' = Some (record_failure (at_failure (hc_attempts c k)) b)"
  using assms(1,4-6)
proof (induction left arbitrary: n w)
  case 0
  with assms(3) show ?case by (simp add: fails_at_def)
next
  case (Suc left)
  note fails = assms(3) [unfolded fails_at_def]
  show ?case
  proof (cases "n = k")
    case True
    obtain y w' where "request_attempt rd p (hc_verb c \<in> set (rp_methods p)) (call_deadline p c) n (hc_attempts c n) w = (y, w')"
      "y \<noteq> Inr None" "failure_outcome p c k (case y of Inl e \<Rightarrow> Inl e | Inr r \<Rightarrow> Inr (the r))"
      "hw_breaker w' = Some (record_failure (at_failure (hc_attempts c k)) b)"
      using attempt_fails [OF Suc.prems(1) assms(2), of p c k "hc_verb c \<in> set (rp_methods p)" rd] fails True by auto
    then show ?thesis
      by (cases y) (auto simp: seq_def ret_def)
  next
    case False
    then have "goes_on p c n" "n < nat (max (rp_attempts p) 1)" "hc_verb c \<in> set (rp_methods p)"
      using fails Suc.prems(2,3) by auto
    from attempt_goes_on [OF Suc.prems(1) assms(2) this(1,2), of rd] this(3)
    obtain w1 where "request_attempt rd p (hc_verb c \<in> set (rp_methods p)) (call_deadline p c) n (hc_attempts c n) w = (Inr None, w1)"
      "hw_breaker w1 = Some b" by auto
    with Suc.IH [of w1 "n + 1"] Suc.prems False show ?thesis
      by (simp add: seq_def)
  qed
qed

lemma run_calls_fail:
  assumes "hw_breaker w = Some b" "br_opened b = None" "list_all2 (fails_at p) cs ks"
    "cs \<noteq> []" "br_failures b + length cs = br_threshold b" "run_calls rd p cs w = (ys, w')"
  shows "hw_breaker w' = Some (b\<lparr>br_failures := br_threshold b, br_opened := Some (at_failure (hc_attempts (last cs) (last ks)))\<rparr>)
    \<and> list_all2 (\<lambda>(c, k). failure_outcome p c k) (zip cs ks) ys"
  using assms
proof (induction cs arbitrary: b w ks ys)
  case (Cons c cs)
  obtain k ks' where ks: "ks = k # ks'" "fails_at p c k" "list_all2 (fails_at p) cs ks'"
    using Cons.prems(3) by (auto simp: list_all2_Cons1)
  obtain x w1 xs where run: "adapter_call rd p c w = (x, w1)" "run_calls rd p cs w1 = (xs, w')" "ys = x # xs"
    using Cons.prems(6) by (auto split: prod.splits)
  have "failure_outcome p c k x \<and> hw_breaker w1 = Some (record_failure (at_failure (hc_attempts c k)) b)"
    using request_loop_fails [OF Cons.prems(1,2) ks(2), of 1 "nat (max (rp_attempts p) 1)" rd] run(1) ks(2)
    by (auto simp: adapter_call_def resilient_stream_request_def call_deadline_def [symmetric] fails_at_def)
  note once = this [THEN conjunct1] this [THEN conjunct2]
  show ?case
  proof (cases "cs = []")
    case True
    with once run Cons.prems(5) ks show ?thesis
      by (auto simp: record_failure_def Let_def)
  next
    case False
    then have "\<not> br_threshold b \<le> Suc (br_failures b)"
      using Cons.prems(5) by (cases cs) auto
    with once(2) have b1: "hw_breaker w1 = Some (b\<lparr>br_failures := Suc (br_failures b)\<rparr>)"
      by (simp add: record_failure_def Let_def)
    have "ks' \<noteq> []" using False ks(3) by auto
    with Cons.IH [OF b1 _ ks(3) False _ run(2)] Cons.prems(2,5) False once(1) run(3) ks(1) show ?thesis
      by simp
  qed
qed simp

lemma open_call:
  assumes "hw_breaker w = Some b" "br_opened b = Some t" "at_check (hc_attempts c 1) - t < br_reset b"
  shows "adapter_call rd p c w = (Inl CircuitOpen, w)"
proof -
  have "0 < nat (max (rp_attempts p) 1)" by simp
  then obtain k where k: "nat (max (rp_attempts p) 1) = Suc k"
    using gr0_conv_Suc by blast
  have "check_breaker (at_check (hc_attempts c 1)) w = (Inl CircuitOpen, w)"
    using assms by (simp add: check_breaker_def before_request_def)
  then show ?thesis
    unfolding adapter_call_def resilient_stream_request_def k request_loop.simps request_attempt_def Let_def seq_def
    by simp
qed

text \<open>
  C40. After as many failed requests in a row as the threshold the breaker is open since the moment
  at which the last of them failed: until its reset time is over, whatever requests follow, none of
  them is sent and each raises at once. A request fails when the last attempt that the policy allows
  finds no connection or a transient status, and when any attempt times out; its caller gets the
  transport error, the response or the timeout. A deadline that ends in the delay between two
  attempts is not counted by the code.
\<close>

theorem circuit_opens:
  assumes "hw_breaker w = Some \<lparr>br_threshold = length cs, br_reset = reset, br_failures = 0, br_opened = None\<rparr>" "cs \<noteq> []"
    and "list_all2 (fails_at p) cs ks" "run_calls rd p cs w = (ys, w')"
    and "opened = at_failure (hc_attempts (last cs) (last ks))"
  shows "hw_breaker w' = Some \<lparr>br_threshold = length cs, br_reset = reset, br_failures = length cs, br_opened = Some opened\<rparr>
    \<and> list_all2 (\<lambda>(c, k). failure_outcome p c k) (zip cs ks) ys
    \<and> (\<forall>later. list_all (\<lambda>c. at_check (hc_attempts c 1) < opened + reset) later
      \<longrightarrow> run_calls rd p later w' = (replicate (length later) (Inl CircuitOpen), w'))"
proof -
  note failed = run_calls_fail [OF assms(1) _ assms(3,2) _ assms(4), simplified, folded assms(5)]
  have "run_calls rd p later w' = (replicate (length later) (Inl CircuitOpen), w')"
    if "list_all (\<lambda>c. at_check (hc_attempts c 1) < opened + reset) later" for later
    using that by (induction later) (simp_all add: open_call [OF failed [THEN conjunct1]] less_diff_eq algebra_simps)
  with failed show ?thesis by blast
qed

subsection \<open>A request, evaluated\<close>

definition sample_policy :: retry_policy where
  "sample_policy =
     \<lparr>rp_attempts = 2, rp_base = FFin (1 / 20), rp_max = FFin (1 / 2), rp_cap = FFin 30, rp_total = None,
      rp_transient = TRANSIENT_STATUSES, rp_methods = IDEMPOTENT_METHODS\<rparr>"

definition sample_attempt :: "nat \<Rightarrow> http_attempt" where
  "sample_attempt n =
     \<lparr>at_check = 0, at_send = 0, at_reply = (if n = 1 then Replied 503 (Some ''9'') else Replied 200 None),
      at_failure = 0, at_closed = None, at_wall = 0, at_jitter = FFin 0, at_wait = 0, at_late = False\<rparr>"

definition sample_readers :: header_readers where
  "sample_readers = \<lparr>hd_float = (\<lambda>_. Some (FFin 9)), hd_date = (\<lambda>_. None)\<rparr>"

definition sample_body :: body_source where
  "sample_body =
     \<lparr>bs_now = 0, bs_encoding = [], bs_length = None, bs_consumed = None, bs_chunks = [Some ''a'', Some ''b''],
      bs_closed = None\<rparr>"

lemmas request_eval = seq_def ret_def raise_def lift_res_def on_breaker_def close_response_definitively_def
  request_attempt_def check_breaker_def stream_request_def sleep_with_deadline_def resilient_stream_request_def

lemma sample_http_run:
  "resilient_request sample_readers sample_policy ''GET'' 100 0 sample_attempt sample_body
     \<lparr>hw_sent = [], hw_open = [], hw_slept = [], hw_breaker = None\<rparr>
   = (Inr (\<lparr>re_number = 2, re_status = 200, re_retry_after = None, re_deadline = None\<rparr>, ''ab''),
      \<lparr>hw_sent = [1, 2], hw_open = [], hw_slept = [9], hw_breaker = None\<rparr>)"
  by (simp add: resilient_request_def request_eval sample_policy_def IDEMPOTENT_METHODS_def HARD_MAX_BUFFERED_RESPONSE_BYTES_def
      sample_attempt_def TRANSIENT_STATUSES_def retry_after_delay_def sample_readers_def seconds_def Let_def numeral_2_eq_2
      read_bounded_response_def with_cleanup_def sample_body_def read_body_def)

lemma resilient_request_bounded_witness:
  "list_all (delay_ok sample_policy) [9]"
  using resilient_request_bounded [OF _ sample_http_run]
  by (simp add: retry_policy_init_def sample_policy_def usable_seconds_def)

text \<open>Two requests: a POST that finds no connection, and a GET that times out in its second attempt.\<close>

definition sample_refusal :: http_call where
  "sample_refusal =
     \<lparr>hc_verb = ''POST'', hc_now = 0,
      hc_attempts = (\<lambda>_. \<lparr>at_check = 0, at_send = 0, at_reply = Refused, at_failure = 1, at_closed = None, at_wall = 0,
                          at_jitter = FFin 0, at_wait = 0, at_late = False\<rparr>)\<rparr>"

definition sample_timeout :: http_call where
  "sample_timeout =
     \<lparr>hc_verb = ''GET'', hc_now = 2,
      hc_attempts = (\<lambda>n. \<lparr>at_check = 2, at_send = 2, at_reply = (if n = 1 then Replied 503 (Some ''9'') else TimedOut),
                          at_failure = 7, at_closed = None, at_wall = 0, at_jitter = FFin 0, at_wait = 0,
                          at_late = False\<rparr>)\<rparr>"

lemma sample_failures: "list_all2 (fails_at sample_policy) [sample_refusal, sample_timeout] [1, 2]"
  by (simp add: fails_at_def sample_policy_def sample_refusal_def sample_timeout_def IDEMPOTENT_METHODS_def goes_on_def
      request_times_out_def call_deadline_def transient_reply_def TRANSIENT_STATUSES_def Let_def)

lemma circuit_opens_witness:
  "\<exists>ys w'. run_calls sample_readers sample_policy [sample_refusal, sample_timeout]
       \<lparr>hw_sent = [], hw_open = [], hw_slept = [],
        hw_breaker = Some \<lparr>br_threshold = 2, br_reset = 30, br_failures = 0, br_opened = None\<rparr>\<rparr> = (ys, w')
     \<and> hw_breaker w' = Some \<lparr>br_threshold = 2, br_reset = 30, br_failures = 2, br_opened = Some 7\<rparr>
     \<and> run_calls sample_readers sample_policy [sample_refusal] w' = ([Inl CircuitOpen], w')"
proof -
  let ?w = "\<lparr>hw_sent = [], hw_open = [], hw_slept = [],
    hw_breaker = Some \<lparr>br_threshold = 2, br_reset = 30, br_failures = 0, br_opened = None\<rparr>\<rparr>"
  obtain ys w' where run: "run_calls sample_readers sample_policy [sample_refusal, sample_timeout] ?w = (ys, w')"
    by fastforce
  have opens: "hw_breaker ?w = Some \<lparr>br_threshold = length [sample_refusal, sample_timeout], br_reset = 30,
      br_failures = 0, br_opened = None\<rparr>" by simp
  have seven: "(7 :: rat) = at_failure (hc_attempts (last [sample_refusal, sample_timeout]) (last [1, 2]))"
    by (simp add: sample_timeout_def)
  have "hw_breaker w' = Some \<lparr>br_threshold = 2, br_reset = 30, br_failures = 2, br_opened = Some 7\<rparr>"
    "\<forall>later. list_all (\<lambda>c. at_check (hc_attempts c 1) < 7 + 30) later
      \<longrightarrow> run_calls sample_readers sample_policy later w' = (replicate (length later) (Inl CircuitOpen), w')"
    using circuit_opens [OF opens _ sample_failures run seven] by simp_all
  from this(1) this(2) [rule_format, of "[sample_refusal]"] run show ?thesis
    by (simp add: sample_refusal_def)
qed

end
