(* ===== verification/Spec2Isabelle.thy ===== *)
theory Spec2Isabelle
  imports Phase_Gates Cycle_Executions Cycle_Handoff Rate_Limits Mutation_Once Engine_Safety Engine_Progress
    Artifact_Slots Analysis_Sample Http_Retry
begin

text \<open>
  A model of the core of the APEX orchestration engine. The header is completed below.
\<close>

end
